(* ===== verification/Prelude.thy ===== *)
theory Prelude
  imports Complex_Main "HOL-Library.Product_Lexorder"
begin

text \<open>
  Shared vocabulary of the development: the Python exceptions that the modelled code raises,
  results as sums (\<open>Inl\<close> an exception, \<open>Inr\<close> a value), the sequencing of fallible steps,
  document text as lists of Unicode code points, and generic facts on lists and maps that
  several components use.
\<close>

section \<open>Types\<close>

text \<open>A Python \<open>str\<close> of document text is a list of Unicode code points.\<close>

type_synonym ustr = "nat list"

definition u :: "string \<Rightarrow> ustr" where
  "u s = map of_char s"

text \<open>Clause paths are tuples of segments.\<close>

type_synonym cpath = "ustr list"

text \<open>
  The exceptions the modelled code raises or lets through; \<open>DbError\<close> is an error that
  PostgreSQL reports for a statement. \<open>NoReturn\<close> is not an exception: it
  is the outcome of a loop that the code never leaves.
\<close>

datatype db_error =
    UniqueViolation
  | CheckViolation
  | ForeignKeyViolation
  | InsufficientPrivilege
  | RaiseException
  | InvalidText
  | UndefinedSetting
  | InFailedTransaction

datatype exn =
    ValueError
  | ValidationError
  | KeyError
  | TypeError
  | AttributeError
  | IndexError
  | AssertionError
  | RuntimeError
  | OverflowError
  | CursorError
  | HTTPException nat
  | DbError db_error
  | NoReturn

type_synonym 'a result = "exn + 'a"

section \<open>Fallible computations\<close>

named_theorems result_simps \<open>rewrite rules for sequenced fallible steps\<close>

fun bindE :: "'e + 'a \<Rightarrow> ('a \<Rightarrow> 'e + 'b) \<Rightarrow> 'e + 'b" where
  "bindE (Inl e) f = Inl e"
| "bindE (Inr x) f = f x"

text \<open>A loop that evaluates \<open>f\<close> on each element in order and stops at the first exception.\<close>

fun mapE :: "('a \<Rightarrow> 'e + 'b) \<Rightarrow> 'a list \<Rightarrow> 'e + 'b list" where
  "mapE f [] = Inr []"
| "mapE f (x # xs) = bindE (f x) (\<lambda>y. bindE (mapE f xs) (\<lambda>ys. Inr (y # ys)))"

fun foldE :: "('s \<Rightarrow> 'a \<Rightarrow> 'e + 's) \<Rightarrow> 's \<Rightarrow> 'a list \<Rightarrow> 'e + 's" where
  "foldE f s [] = Inr s"
| "foldE f s (x # xs) = bindE (f s x) (\<lambda>s'. foldE f s' xs)"

lemma bindE_eq_Inl: "bindE m f = Inl e \<longleftrightarrow> m = Inl e \<or> (\<exists>x. m = Inr x \<and> f x = Inl e)"
  by (cases m) auto

lemma bindE_eq_Inr [result_simps]:
  "bindE m f = Inr y \<longleftrightarrow> (\<exists>x. m = Inr x \<and> f x = Inr y)"
  by (cases m) auto

lemma bindE_Inr_right [simp]: "bindE m Inr = m"
  by (cases m) auto

lemma bindE_assoc: "bindE (bindE m f) g = bindE m (\<lambda>x. bindE (f x) g)"
  by (cases m) auto

lemma bindE_cong [fundef_cong]:
  "m = m' \<Longrightarrow> (\<And>x. m' = Inr x \<Longrightarrow> f x = f' x) \<Longrightarrow> bindE m f = bindE m' f'"
  by (cases m') auto

lemma mapE_cong [fundef_cong]:
  "xs = ys \<Longrightarrow> (\<And>x. x \<in> set ys \<Longrightarrow> f x = g x) \<Longrightarrow> mapE f xs = mapE g ys"
  by (induction xs arbitrary: ys) auto

lemma mapE_total:
  "(\<And>x. x \<in> set xs \<Longrightarrow> f x = Inr (g x)) \<Longrightarrow> mapE f xs = Inr (map g xs)"
  by (induction xs) auto

lemma mapE_Inr_iff [result_simps]:
  "mapE f xs = Inr ys \<longleftrightarrow> list_all2 (\<lambda>x y. f x = Inr y) xs ys"
  by (induction xs arbitrary: ys) (auto simp: bindE_eq_Inr list_all2_Cons1)

lemma mapE_length: "mapE f xs = Inr ys \<Longrightarrow> length ys = length xs"
  by (simp add: mapE_Inr_iff list_all2_lengthD)

lemma mapE_nth: "mapE f xs = Inr ys \<Longrightarrow> i < length xs \<Longrightarrow> f (xs ! i) = Inr (ys ! i)"
  by (auto simp: mapE_Inr_iff dest: list_all2_nthD)

lemma foldE_append: "foldE f s (xs @ ys) = bindE (foldE f s xs) (\<lambda>s'. foldE f s' ys)"
  by (induction xs arbitrary: s) (simp_all add: bindE_assoc)

text \<open>An invariant of the body is an invariant of the loop.\<close>

lemma foldE_invariant:
  assumes step: "\<And>s x s'. I s \<Longrightarrow> x \<in> set xs \<Longrightarrow> f s x = Inr s' \<Longrightarrow> I s'"
    and "I s" and "foldE f s xs = Inr t"
  shows "I t"
  using step assms(2,3)
proof (induction xs arbitrary: s)
  case Nil
  then show ?case by simp
next
  case (Cons x xs)
  from Cons.prems(3) obtain s' where s': "f s x = Inr s'" and t: "foldE f s' xs = Inr t"
    by (auto simp: bindE_eq_Inr)
  have "I s'" by (rule Cons.prems(1) [OF Cons.prems(2) _ s']) simp
  moreover have "I b" if "I a" "y \<in> set xs" "f a y = Inr b" for a y b
    by (rule Cons.prems(1) [OF that(1) _ that(3)]) (simp add: that(2))
  ultimately show ?case using t by (intro Cons.IH [of s']) 
qed

section \<open>Lists\<close>

lemma enumerate_nth: "(i, x) \<in> set (List.enumerate 0 xs) \<longleftrightarrow> i < length xs \<and> x = xs ! i"
  by (auto simp add: in_set_enumerate_eq)

lemma length_enumerate_filter_le: "length (filter P (List.enumerate n xs)) \<le> length xs"
  by (metis length_enumerate length_filter_le)

lemma distinct_map_fst_enumerate [simp]: "distinct (map fst (List.enumerate n xs))"
  by (simp add: distinct_enumerate)

lemma count_filter_zip_self [simp]:
  "filter (\<lambda>(x, y). x = y) (zip xs xs) = zip xs xs"
  by (induction xs) auto

end
