(* ===== verification/Clause_Tree.thy ===== *)
theory Clause_Tree
  imports Pytext
begin

text \<open>
  The immutable clause tree of \<open>core/alignment/clause.py\<close>: a node, its pre-order walk, and
  facts on the paths a tree holds.
\<close>

datatype clause =
  Clause (path: cpath) (heading_text: "ustr option") (body_text: ustr)
    (numbering_label: "ustr option") (children: "clause list")

text \<open>\<open>Clause.walk\<close>: this node, then each child's walk.\<close>

fun walk :: "clause \<Rightarrow> clause list" where
  "walk (Clause p h b l cs) = Clause p h b l cs # concat (map walk cs)"

declare walk.simps [simp del]

lemma walk_eq: "walk c = c # concat (map walk (children c))"
  by (cases c) (simp add: walk.simps)

lemma walk_nonempty [simp]: "walk c \<noteq> []"
  by (simp add: walk_eq [of c])

lemma walk_self: "c \<in> set (walk c)"
  by (simp add: walk_eq [of c])

lemma walk_leaf [simp]: "walk (Clause p h b l []) = [Clause p h b l []]"
  by (simp add: walk.simps)

end
