(* ===== verification/Similarity.thy ===== *)
theory Similarity
  imports Clause_Tree
begin

text \<open>
  The similarity primitives of \<open>core/alignment/similarity.py\<close> and the configuration of
  \<open>core/alignment/tuning.py\<close>. The MinHash signature and the banded index of the
  \<open>datasketch\<close> package are parameters: \<open>mh n S\<close> is the signature of length \<open>n\<close> of the
  shingle set \<open>S\<close> under the fixed seed, \<open>query b r sigs\<close> a \<open>MinHashLSH\<close> with \<open>b\<close> bands of \<open>r\<close> rows after
  all of \<open>sigs\<close> were inserted, as the function from a probe to the positions that its \<open>query\<close> returns.
  Both constructors may raise. Confidences are exact rationals.
\<close>

type_synonym signature = "nat list"

type_synonym minhasher = "int \<Rightarrow> ustr set \<Rightarrow> signature result"

type_synonym lsh_index = "int \<Rightarrow> int \<Rightarrow> signature list \<Rightarrow> (signature \<Rightarrow> nat list) result"

section \<open>TuningConfig\<close>

record tuning =
  shingle_k :: int
  signature_size :: int
  lsh_bands :: int
  similarity_threshold :: rat

definition default_tuning_config :: tuning where
  "default_tuning_config =
     \<lparr>shingle_k = 5, signature_size = 128, lsh_bands = 16, similarity_threshold = 7 / 10\<rparr>"

text \<open>Construction of a \<open>TuningConfig\<close>: the field bounds, then the divisibility validator.\<close>

definition validate_tuning :: "tuning \<Rightarrow> tuning result" where
  "validate_tuning tn =
     (if shingle_k tn < 1 \<or> signature_size tn < 1 \<or> lsh_bands tn < 1
         \<or> \<not> (0 < similarity_threshold tn \<and> similarity_threshold tn \<le> 1)
      then Inl ValidationError
      else if signature_size tn mod lsh_bands tn \<noteq> 0 then Inl ValidationError
      else Inr tn)"

definition valid_tuning :: "tuning \<Rightarrow> bool" where
  "valid_tuning tn \<longleftrightarrow> validate_tuning tn = Inr tn"

lemma valid_tuning_iff:
  "valid_tuning tn \<longleftrightarrow> 1 \<le> shingle_k tn \<and> 1 \<le> signature_size tn \<and> 1 \<le> lsh_bands tn
     \<and> 0 < similarity_threshold tn \<and> similarity_threshold tn \<le> 1
     \<and> lsh_bands tn dvd signature_size tn"
  by (auto simp: valid_tuning_def validate_tuning_def dvd_eq_mod_eq_0)

lemma valid_default_tuning: "valid_tuning default_tuning_config"
  by (simp add: valid_tuning_def validate_tuning_def default_tuning_config_def)

section \<open>shingle, minhash, jaccard\<close>

definition shingle :: "ustr \<Rightarrow> int \<Rightarrow> ustr set result" where
  "shingle text k =
     (if k < 1 then Inl ValueError
      else let tokens = split_ws text; n = nat k in
        Inr (if length tokens < n then {}
             else set (map (\<lambda>i. join [32] (take n (drop i tokens))) [0..<length tokens - n + 1])))"

text \<open>Each shingle goes into the signature as its UTF-8 bytes.\<close>

definition minhash :: "minhasher \<Rightarrow> ustr set \<Rightarrow> int \<Rightarrow> signature result" where
  "minhash mh shingles sz =
     (if sz < 1 then Inl ValueError
      else bindE (mh sz shingles) (\<lambda>hashvalues.
        if \<exists>s \<in> shingles. \<exists>c \<in> set s. surrogate c then Inl ValueError else Inr hashvalues))"

definition jaccard :: "signature \<Rightarrow> signature \<Rightarrow> rat result" where
  "jaccard a b =
     (if length a \<noteq> length b then Inl ValueError
      else if a = [] then Inr 1
      else Inr (of_nat (length (filter (\<lambda>(x, y). x = y) (zip a b))) / of_nat (length a)))"

lemma shingle_total: "1 \<le> k \<Longrightarrow> \<exists>S. shingle text k = Inr S"
  by (simp add: shingle_def Let_def)

lemma shingle_empty_iff:
  assumes "1 \<le> k"
  shows "shingle text k = Inr {} \<longleftrightarrow> length (split_ws text) < nat k"
  using assms by (auto simp: shingle_def Let_def)

text \<open>What a shingle is made of.\<close>

lemma split_ws_chars: "s \<in> set (split_ws tx) \<Longrightarrow> c \<in> set s \<Longrightarrow> c \<in> set tx"
  by (induction tx rule: split_ws.induct)
    (auto split: if_splits dest: set_takeWhileD set_dropWhileD)

lemma join_chars: "c \<in> set (join sep ss) \<Longrightarrow> c \<in> set sep \<or> (\<exists>s \<in> set ss. c \<in> set s)"
  by (induction sep ss rule: join.induct) auto

lemma shingle_chars:
  assumes "shingle text k = Inr S" "s \<in> S" "c \<in> set s"
  shows "c = 32 \<or> c \<in> set text"
proof -
  obtain i where "s = join [32] (take (nat k) (drop i (split_ws text)))"
    using assms(1,2) by (auto simp: shingle_def Let_def simp del: upt_Suc set_upt split: if_splits)
  then have "c = 32 \<or> (\<exists>t \<in> set (split_ws text). c \<in> set t)"
    using join_chars assms(3) by (fastforce dest: in_set_takeD in_set_dropD)
  then show ?thesis using split_ws_chars by blast
qed

lemma jaccard_total: "length a = length b \<Longrightarrow> \<exists>r. jaccard a b = Inr r"
  by (simp add: jaccard_def)

lemma jaccard_refl [simp]: "jaccard a a = Inr 1"
  by (simp add: jaccard_def)

lemma jaccard_sym: "jaccard a b = jaccard b a"
proof -
  have "length (filter (\<lambda>(x, y). x = y) (zip a b)) = length (filter (\<lambda>(x, y). x = y) (zip b a))"
    by (induction a b rule: list_induct2') auto
  then show ?thesis by (auto simp: jaccard_def)
qed

lemma jaccard_bounds:
  assumes "jaccard a b = Inr r"
  shows "0 \<le> r \<and> r \<le> 1"
proof -
  have "length (filter (\<lambda>(x, y). x = y) (zip a b)) \<le> length (zip a b)" by (rule length_filter_le)
  then have "length (filter (\<lambda>(x, y). x = y) (zip a b)) \<le> length a" by simp
  then have "of_nat (length (filter (\<lambda>(x, y). x = y) (zip a b))) \<le> (of_nat (length a) :: rat)"
    by (simp only: of_nat_le_iff)
  then show ?thesis using assms by (auto simp: jaccard_def divide_le_eq_1 split: if_splits)
qed

text \<open>The estimate is 1 exactly for equal signatures.\<close>

lemma filter_length_full: "length (filter P xs) = length xs \<longleftrightarrow> (\<forall>x \<in> set xs. P x)"
  by (induction xs) (auto simp: le_imp_less_Suc dest: le_neq_implies_less [OF length_filter_le])

lemma jaccard_eq_1_iff: "jaccard a b = Inr 1 \<longleftrightarrow> a = b"
proof
  assume j: "jaccard a b = Inr 1"
  then have len: "length a = length b" by (auto simp: jaccard_def split: if_splits)
  show "a = b"
  proof (cases "a = []")
    case True
    then show ?thesis using len by simp
  next
    case False
    have "of_nat (length (filter (\<lambda>(x, y). x = y) (zip a b))) / of_nat (length a) = (1 :: rat)"
    proof -
      have "jaccard a b = Inr (of_nat (length (filter (\<lambda>(x, y). x = y) (zip a b))) / of_nat (length a))"
        using len False by (simp add: jaccard_def)
      then show ?thesis using j by (simp only: sum.inject)
    qed
    then have "of_nat (length (filter (\<lambda>(x, y). x = y) (zip a b))) = (of_nat (length a) :: rat)"
      using False by (simp add: divide_eq_1_iff)
    then have "length (filter (\<lambda>(x, y). x = y) (zip a b)) = length (zip a b)"
      using len by (simp only: of_nat_eq_iff length_zip min.idem)
    then have all: "\<forall>p \<in> set (zip a b). case p of (x, y) \<Rightarrow> x = y"
      by (simp only: filter_length_full)
    show ?thesis
    proof (rule nth_equalityI [OF len])
      fix i assume i: "i < length a"
      then have "(a ! i, b ! i) \<in> set (zip a b)" using len by (auto simp: set_zip)
      with all show "a ! i = b ! i" by auto
    qed
  qed
qed simp

section \<open>lsh\_candidates\<close>

text \<open>One match of a probe: skipped when it is the probe itself or a pair seen before.\<close>

fun lsh_matches ::
  "('k \<times> signature) list \<Rightarrow> rat \<Rightarrow> nat \<Rightarrow> nat list \<Rightarrow> (nat \<times> nat) set \<Rightarrow>
     ((nat \<times> nat) set \<times> ('k \<times> 'k) list) result" where
  "lsh_matches sigs thr i [] seen = Inr (seen, [])"
| "lsh_matches sigs thr i (j # js) seen =
     (if j = i then lsh_matches sigs thr i js seen
      else let (lo, hi) = (if i < j then (i, j) else (j, i)) in
        if (lo, hi) \<in> seen then lsh_matches sigs thr i js seen
        else bindE (jaccard (snd (sigs ! lo)) (snd (sigs ! hi))) (\<lambda>est.
             bindE (lsh_matches sigs thr i js (insert (lo, hi) seen)) (\<lambda>(seen', out).
               Inr (seen', if thr \<le> est then (fst (sigs ! lo), fst (sigs ! hi)) # out else out))))"

fun lsh_probes ::
  "('k \<times> signature) list \<Rightarrow> rat \<Rightarrow> (signature \<Rightarrow> nat list) \<Rightarrow> nat list \<Rightarrow> (nat \<times> nat) set \<Rightarrow>
     ('k \<times> 'k) list result" where
  "lsh_probes sigs thr q [] seen = Inr []"
| "lsh_probes sigs thr q (i # ids) seen =
     bindE (lsh_matches sigs thr i (q (snd (sigs ! i))) seen) (\<lambda>(seen', out).
     bindE (lsh_probes sigs thr q ids seen') (\<lambda>rest. Inr (out @ rest)))"

definition lsh_candidates ::
  "lsh_index \<Rightarrow> ('k \<times> signature) list \<Rightarrow> int \<Rightarrow> rat \<Rightarrow> ('k \<times> 'k) list result" where
  "lsh_candidates query sigs bands thr =
     (if bands < 1 then Inl ValueError
      else if \<not> (0 \<le> thr \<and> thr \<le> 1) then Inl ValueError
      else case sigs of [] \<Rightarrow> Inr []
        | s0 # _ \<Rightarrow>
          let sz = length (snd s0) in
          if \<exists>s \<in> set sigs. length (snd s) \<noteq> sz then Inl ValueError
          else if int sz mod bands \<noteq> 0 then Inl ValueError
          else let rows = int sz div bands in
            bindE (query bands rows (map snd sigs)) (\<lambda>q. lsh_probes sigs thr q [0..<length sigs] {}))"


text \<open>
  What one probe adds: a list of index pairs not seen before, each with its positions in
  order and its estimate at least the threshold.
\<close>

definition good_pair :: "('k \<times> signature) list \<Rightarrow> rat \<Rightarrow> nat \<times> nat \<Rightarrow> bool" where
  "good_pair sigs thr p \<longleftrightarrow> fst p < snd p \<and> snd p < length sigs
     \<and> (\<exists>est. jaccard (snd (sigs ! fst p)) (snd (sigs ! snd p)) = Inr est \<and> thr \<le> est)"

definition keys_at :: "('k \<times> signature) list \<Rightarrow> nat \<times> nat \<Rightarrow> 'k \<times> 'k" where
  "keys_at sigs p = (fst (sigs ! fst p), fst (sigs ! snd p))"

definition ord_pair :: "nat \<Rightarrow> nat \<Rightarrow> nat \<times> nat" where
  "ord_pair i j = (if i < j then (i, j) else (j, i))"

lemma ord_pair_less: "i \<noteq> j \<Longrightarrow> fst (ord_pair i j) < snd (ord_pair i j)"
  by (simp add: ord_pair_def)

lemma lsh_matches_Cons:
  "lsh_matches sigs thr i (j # js) seen =
     (if j = i \<or> ord_pair i j \<in> seen then lsh_matches sigs thr i js seen
      else bindE (jaccard (snd (sigs ! fst (ord_pair i j))) (snd (sigs ! snd (ord_pair i j)))) (\<lambda>est.
           bindE (lsh_matches sigs thr i js (insert (ord_pair i j) seen)) (\<lambda>r.
             Inr (fst r, if thr \<le> est then keys_at sigs (ord_pair i j) # snd r else snd r))))"
  by (cases "i < j") (simp_all add: ord_pair_def keys_at_def case_prod_unfold cong: if_cong)

lemma lsh_matches_spec:
  assumes "\<forall>s \<in> set sigs. length (snd s) = sz"
    and "i < length sigs" and "\<forall>j \<in> set js. j < length sigs"
  shows "\<exists>ps. lsh_matches sigs thr i js seen =
           Inr (seen \<union> ord_pair i ` (set js - {i}), map (keys_at sigs) ps)
         \<and> distinct ps \<and> set ps = {p \<in> ord_pair i ` (set js - {i}) - seen. good_pair sigs thr p}"
  using assms(3)
proof (induction js arbitrary: seen)
  case Nil
  then show ?case by simp
next
  case (Cons j js)
  let ?p = "ord_pair i j"
  have j: "j < length sigs" using Cons.prems by simp
  have IH: "\<exists>ps. lsh_matches sigs thr i js seen =
         Inr (seen \<union> ord_pair i ` (set js - {i}), map (keys_at sigs) ps)
       \<and> distinct ps \<and> set ps = {p \<in> ord_pair i ` (set js - {i}) - seen. good_pair sigs thr p}" for seen
    by (rule Cons.IH) (use Cons.prems in simp)
  show ?case
  proof (cases "j = i \<or> ?p \<in> seen")
    case True
    obtain ps where ps: "lsh_matches sigs thr i js seen =
        Inr (seen \<union> ord_pair i ` (set js - {i}), map (keys_at sigs) ps)"
      "distinct ps" "set ps = {p \<in> ord_pair i ` (set js - {i}) - seen. good_pair sigs thr p}"
      using IH [of seen] by blast
    have img: "seen \<union> ord_pair i ` (set (j # js) - {i}) = seen \<union> ord_pair i ` (set js - {i})"
      "ord_pair i ` (set (j # js) - {i}) - seen = ord_pair i ` (set js - {i}) - seen"
      using True by auto
    have "lsh_matches sigs thr i (j # js) seen = lsh_matches sigs thr i js seen"
      using True by (simp only: lsh_matches_Cons if_True)
    then show ?thesis using ps unfolding img by (intro exI [of _ ps]) (simp only: simp_thms)
  next
    case False
    obtain ps where ps: "lsh_matches sigs thr i js (insert ?p seen) =
        Inr (insert ?p seen \<union> ord_pair i ` (set js - {i}), map (keys_at sigs) ps)"
      "distinct ps"
      "set ps = {p \<in> ord_pair i ` (set js - {i}) - insert ?p seen. good_pair sigs thr p}"
      using IH [of "insert ?p seen"] by blast
    have lens: "fst ?p < snd ?p" "snd ?p < length sigs"
      using False j assms(2) by (auto simp: ord_pair_def)
    then have "length (snd (sigs ! fst ?p)) = length (snd (sigs ! snd ?p))"
      using assms(1) by simp
    then obtain est where est: "jaccard (snd (sigs ! fst ?p)) (snd (sigs ! snd ?p)) = Inr est"
      using jaccard_total by blast
    have good: "good_pair sigs thr ?p \<longleftrightarrow> thr \<le> est"
      using lens est by (simp add: good_pair_def)
    have img: "insert ?p seen \<union> ord_pair i ` (set js - {i}) = seen \<union> ord_pair i ` (set (j # js) - {i})"
      using False by auto
    define qs where "qs = (if thr \<le> est then ?p # ps else ps)"
    have "lsh_matches sigs thr i (j # js) seen =
        Inr (seen \<union> ord_pair i ` (set (j # js) - {i}), map (keys_at sigs) qs)"
      using False by (simp only: lsh_matches_Cons if_False est ps(1) bindE.simps fst_conv snd_conv img)
        (simp add: qs_def)
    moreover have "distinct qs" using ps(2,3) by (auto simp: qs_def)
    moreover have "set qs = {p \<in> ord_pair i ` (set (j # js) - {i}) - seen. good_pair sigs thr p}"
    proof -
      have "ord_pair i ` (set (j # js) - {i}) = insert ?p (ord_pair i ` (set js - {i}))"
        using False by auto
      moreover have "set qs = (if thr \<le> est then insert ?p (set ps) else set ps)"
        by (simp add: qs_def)
      ultimately show ?thesis using False ps(3) good by (cases "thr \<le> est") auto
    qed
    ultimately show ?thesis by (intro exI [of _ qs] conjI)
  qed
qed

lemma lsh_probes_spec:
  assumes "\<forall>s \<in> set sigs. length (snd s) = sz"
    and "\<forall>i \<in> set ids. i < length sigs"
    and "\<forall>i \<in> set ids. \<forall>j \<in> set (q (snd (sigs ! i))). j < length sigs"
  shows "\<exists>ps. lsh_probes sigs thr q ids seen = Inr (map (keys_at sigs) ps) \<and> distinct ps
     \<and> set ps = {p \<in> (\<Union>i \<in> set ids. ord_pair i ` (set (q (snd (sigs ! i))) - {i})) - seen.
                  good_pair sigs thr p}"
  using assms(2,3)
proof (induction ids arbitrary: seen)
  case Nil
  then show ?case by simp
next
  case (Cons i ids)
  let ?M = "\<lambda>i. ord_pair i ` (set (q (snd (sigs ! i))) - {i})"
  obtain ps where ps: "lsh_matches sigs thr i (q (snd (sigs ! i))) seen =
      Inr (seen \<union> ?M i, map (keys_at sigs) ps)" "distinct ps"
      "set ps = {p \<in> ?M i - seen. good_pair sigs thr p}"
    using lsh_matches_spec [of sigs sz i "q (snd (sigs ! i))" thr seen] assms(1) Cons.prems by auto
  obtain rs where rs: "lsh_probes sigs thr q ids (seen \<union> ?M i) = Inr (map (keys_at sigs) rs)"
      "distinct rs" "set rs = {p \<in> (\<Union>i \<in> set ids. ?M i) - (seen \<union> ?M i). good_pair sigs thr p}"
    using Cons.IH [of "seen \<union> ?M i"] Cons.prems by auto
  have "lsh_probes sigs thr q (i # ids) seen = Inr (map (keys_at sigs) (ps @ rs))"
    by (simp add: ps(1) rs(1))
  moreover have "distinct (ps @ rs)" using ps(2,3) rs(2,3) by auto
  moreover have "set (ps @ rs) = {p \<in> (\<Union>i \<in> set (i # ids). ?M i) - seen. good_pair sigs thr p}"
    using ps(3) rs(3) by auto
  ultimately show ?case by blast
qed

text \<open>The documented reach of the index: it answers with positions it was given.\<close>

definition index_in_range :: "lsh_index \<Rightarrow> bool" where
  "index_in_range query \<longleftrightarrow>
     (\<forall>b r sigs q. query b r sigs = Inr q \<longrightarrow> (\<forall>probe. \<forall>j \<in> set (q probe). j < length sigs))"

text \<open>The pairs of indices that the index proposes and whose estimate reaches the threshold, each once.\<close>

lemma lsh_candidates_spec:
  assumes "index_in_range query" "1 \<le> bands" "0 \<le> thr" "thr \<le> 1"
    and sz: "\<forall>s \<in> set sigs. length (snd s) = sz" and "int sz mod bands = 0"
    and built: "query bands (int sz div bands) (map snd sigs) = Inr q"
  shows "\<exists>ps. lsh_candidates query sigs bands thr = Inr (map (keys_at sigs) ps) \<and> distinct ps
     \<and> set ps = {p \<in> (\<Union>i \<in> {..<length sigs}. ord_pair i ` (set (q (snd (sigs ! i))) - {i})). good_pair sigs thr p}"
proof (cases sigs)
  case Nil
  then show ?thesis using assms by (simp add: lsh_candidates_def)
next
  case (Cons s0 ss)
  have s0: "length (snd s0) = sz" using sz Cons by simp
  have q: "j < length sigs" if "j \<in> set (q p)" for j p
    using assms(1) built that unfolding index_in_range_def by fastforce
  obtain ps where ps: "lsh_probes sigs thr q [0..<length sigs] {} = Inr (map (keys_at sigs) ps)"
      "distinct ps"
      "set ps = {p \<in> (\<Union>i \<in> set [0..<length sigs]. ord_pair i ` (set (q (snd (sigs ! i))) - {i})) - {}.
                  good_pair sigs thr p}"
    using lsh_probes_spec [OF sz, where q = q and ids = "[0..<length sigs]" and thr = thr and seen = "{}"]
    by (auto dest: q)
  have "lsh_candidates query sigs bands thr = lsh_probes sigs thr q [0..<length sigs] {}"
    using assms s0 Cons by (auto simp: lsh_candidates_def Let_def)
  then show ?thesis using ps by (auto simp: atLeast0LessThan)
qed

text \<open>Whether the index refuses its parameters does not depend on what it answers.\<close>

definition total_index :: "lsh_index \<Rightarrow> lsh_index" where
  "total_index query b r sigs = (case query b r sigs of Inl _ \<Rightarrow> Inr (\<lambda>_. []) | Inr q \<Rightarrow> Inr q)"

lemma lsh_candidates_total_index:
  "lsh_candidates query sigs bands thr = Inr ps \<Longrightarrow> lsh_candidates (total_index query) sigs bands thr = Inr ps"
  by (auto simp: lsh_candidates_def total_index_def Let_def bindE_eq_Inr split: if_splits list.splits)

lemma total_index_in_range: "index_in_range query \<Longrightarrow> index_in_range (total_index query)"
  by (fastforce simp: index_in_range_def total_index_def split: sum.splits)

end
