(* ===== verification/Align.thy ===== *)
theory Align
  imports Similarity
begin

text \<open>
  The alignment pipeline of \<open>core/alignment/align.py\<close>: candidates with their signatures, the
  heading pass with its greedy assignment, the content pass with its dynamic programme and
  traceback, and the emission of validated change events. The sets \<open>paired_v1\<close> and
  \<open>paired_v2\<close> that the Python passes mutate are threaded through the definitions.
\<close>

section \<open>ChangeEvent\<close>

datatype change_type = ADDED | REMOVED | MODIFIED | MOVED

record change_event =
  change_type :: change_type
  before_clause_uid :: "string option"
  after_clause_uid :: "string option"
  before_path :: "cpath option"
  after_path :: "cpath option"
  before_text :: "ustr option"
  after_text :: "ustr option"
  alignment_confidence :: rat

text \<open>The field bound on the confidence, then \<open>_validate_field_presence\<close>.\<close>

definition field_presence_ok :: "change_event \<Rightarrow> bool" where
  "field_presence_ok ev =
     (case change_type ev of
        ADDED \<Rightarrow> \<not> (before_clause_uid ev \<noteq> None \<or> before_path ev \<noteq> None \<or> before_text ev \<noteq> None)
          \<and> \<not> (after_path ev = None \<or> after_text ev = None)
      | REMOVED \<Rightarrow> \<not> (after_clause_uid ev \<noteq> None \<or> after_path ev \<noteq> None \<or> after_text ev \<noteq> None)
          \<and> \<not> (before_path ev = None \<or> before_text ev = None)
      | MOVED \<Rightarrow> \<not> (before_path ev = None \<or> after_path ev = None
            \<or> before_text ev = None \<or> after_text ev = None)
          \<and> before_text ev = after_text ev \<and> before_path ev \<noteq> after_path ev
      | MODIFIED \<Rightarrow> \<not> (before_path ev = None \<or> after_path ev = None
            \<or> before_text ev = None \<or> after_text ev = None)
          \<and> before_text ev \<noteq> after_text ev)"

definition mk_event :: "change_event \<Rightarrow> change_event result" where
  "mk_event ev =
     (if \<not> (0 < alignment_confidence ev \<and> alignment_confidence ev \<le> 1) then Inl ValidationError
      else if field_presence_ok ev then Inr ev else Inl ValidationError)"

section \<open>Candidates\<close>

record cand =
  cand_clause :: clause
  cand_sig :: signature
  has_shingles :: bool

definition mk_cand :: "minhasher \<Rightarrow> tuning \<Rightarrow> clause \<Rightarrow> cand result" where
  "mk_cand mh tn node =
     bindE (shingle (body_text node) (shingle_k tn)) (\<lambda>sh.
     bindE (minhash mh sh (signature_size tn)) (\<lambda>sg.
       Inr \<lparr>cand_clause = node, cand_sig = sg, has_shingles = (sh \<noteq> {})\<rparr>))"

definition collect_candidates :: "minhasher \<Rightarrow> clause \<Rightarrow> tuning \<Rightarrow> cand list result" where
  "collect_candidates mh tree tn =
     mapE (mk_cand mh tn) (filter (\<lambda>node. strip (body_text node) \<noteq> []) (walk tree))"

section \<open>Pass 2: anchors and greedy assignment\<close>

definition pass2_base :: rat where
  "pass2_base = 9 / 10"

definition pass2_confidence :: "cand \<Rightarrow> cand \<Rightarrow> tuning \<Rightarrow> rat option result" where
  "pass2_confidence c1 c2 tn =
     (if has_shingles c1 \<and> has_shingles c2 then
        bindE (jaccard (cand_sig c1) (cand_sig c2)) (\<lambda>est.
          Inr (if est < similarity_threshold tn then None else Some (max pass2_base est)))
      else if has_shingles c1 \<or> has_shingles c2 then Inr None
      else if body_text (cand_clause c1) \<noteq> body_text (cand_clause c2) then Inr None
      else Inr (Some pass2_base))"

definition anchors_match :: "cand \<Rightarrow> cand \<Rightarrow> bool" where
  "anchors_match c1 c2 =
     (case (heading_text (cand_clause c1), heading_text (cand_clause c2)) of
        (Some h1, Some h2) \<Rightarrow> h1 = h2
      | (None, None) \<Rightarrow> path (cand_clause c1) = path (cand_clause c2)
      | _ \<Rightarrow> False)"

type_synonym triple = "rat \<times> nat \<times> nat"

definition pair_triple :: "tuning \<Rightarrow> nat \<times> cand \<Rightarrow> nat \<times> cand \<Rightarrow> triple list result" where
  "pair_triple tn ic jc =
     (if anchors_match (snd ic) (snd jc)
      then bindE (pass2_confidence (snd ic) (snd jc) tn)
             (\<lambda>r. Inr (case r of None \<Rightarrow> [] | Some conf \<Rightarrow> [(conf, fst ic, fst jc)]))
      else Inr [])"

definition heading_triples :: "cand list \<Rightarrow> cand list \<Rightarrow> tuning \<Rightarrow> triple list result" where
  "heading_triples v1 v2 tn =
     bindE (mapE (\<lambda>(ic, jc). pair_triple tn ic jc)
              (List.product (List.enumerate 0 v1) (List.enumerate 0 v2)))
       (\<lambda>rows. Inr (concat rows))"

type_synonym pairs = "(nat \<times> nat \<times> rat) list"

fun greedy_assign :: "triple list \<Rightarrow> nat set \<Rightarrow> nat set \<Rightarrow> pairs \<times> nat set \<times> nat set" where
  "greedy_assign [] p1 p2 = ([], p1, p2)"
| "greedy_assign ((conf, i, j) # ts) p1 p2 =
     (if i \<in> p1 \<or> j \<in> p2 then greedy_assign ts p1 p2
      else case greedy_assign ts (insert i p1) (insert j p2) of
        (res, q1, q2) \<Rightarrow> ((i, j, conf) # res, q1, q2))"

definition pass_heading_match ::
  "cand list \<Rightarrow> cand list \<Rightarrow> tuning \<Rightarrow> nat set \<Rightarrow> nat set \<Rightarrow> (pairs \<times> nat set \<times> nat set) result" where
  "pass_heading_match v1 v2 tn p1 p2 =
     bindE (heading_triples v1 v2 tn) (\<lambda>triples. Inr (greedy_assign (rev (sort triples)) p1 p2))"

section \<open>Pass 3: similarity and monotonic dynamic programme\<close>

datatype side = V1 | V2

type_synonym simmap = "((nat \<times> nat) \<times> rat) list"

text \<open>The loop over the candidate pairs that fills the \<open>sim\<close> dictionary.\<close>

definition add_sim ::
  "cand list \<Rightarrow> cand list \<Rightarrow> simmap \<Rightarrow> (side \<times> nat) \<times> (side \<times> nat) \<Rightarrow> simmap result" where
  "add_sim v1 v2 sim ab =
     (case ab of ((side_a, idx_a), (side_b, idx_b)) \<Rightarrow>
        if side_a = side_b then Inr sim
        else bindE (jaccard (cand_sig (v1 ! idx_a)) (cand_sig (v2 ! idx_b)))
               (\<lambda>est. Inr (((idx_a, idx_b), est) # sim)))"

datatype move = Start | Skip1 | Skip2 | Pair

text \<open>One cell: skip the left clause, skip the right clause, or pair; ties prefer pairing.\<close>

definition dp_cell :: "rat \<Rightarrow> rat \<Rightarrow> rat \<Rightarrow> rat option \<Rightarrow> rat \<times> move" where
  "dp_cell up left diag s =
     (let (best, mv) = (if left > up then (left, Skip2) else (up, Skip1)) in
      case s of None \<Rightarrow> (best, mv)
        | Some w \<Rightarrow> let score = diag + w in if score \<ge> best then (score, Pair) else (best, mv))"

text \<open>One row of the table, left to right, over the previous row's cells.\<close>

fun dp_row :: "(nat \<Rightarrow> rat option) \<Rightarrow> rat \<Rightarrow> rat \<Rightarrow> (rat \<times> move) list \<Rightarrow> nat list \<Rightarrow> (rat \<times> move) list" where
  "dp_row s diag left (up # ups) (j # js) =
     (let cell = dp_cell (fst up) left diag (s j) in
      cell # dp_row s (fst up) (fst cell) ups js)"
| "dp_row s diag left _ _ = []"

fun dp_rows :: "simmap \<Rightarrow> (rat \<times> move) list \<Rightarrow> nat list \<Rightarrow> nat list \<Rightarrow> (rat \<times> move) list list" where
  "dp_rows sim prev [] seq2 = [prev]"
| "dp_rows sim prev (i # is) seq2 =
     prev # dp_rows sim ((0, Start) # dp_row (\<lambda>j. map_of sim (i, j)) 0 0 (tl prev) seq2) is seq2"

definition dp_table :: "simmap \<Rightarrow> nat list \<Rightarrow> nat list \<Rightarrow> (rat \<times> move) list list" where
  "dp_table sim seq1 seq2 = dp_rows sim (replicate (length seq2 + 1) (0, Start)) seq1 seq2"

text \<open>The traceback from the last cell; the pairs come out last first.\<close>

function backtrace ::
  "simmap \<Rightarrow> nat list \<Rightarrow> nat list \<Rightarrow> (rat \<times> move) list list \<Rightarrow> nat \<Rightarrow> nat \<Rightarrow> pairs" where
  "backtrace sim seq1 seq2 t a b =
     (if 0 < a \<and> 0 < b then
        (case snd (t ! a ! b) of
           Pair \<Rightarrow> (seq1 ! (a - 1), seq2 ! (b - 1), the (map_of sim (seq1 ! (a - 1), seq2 ! (b - 1))))
                    # backtrace sim seq1 seq2 t (a - 1) (b - 1)
         | Skip1 \<Rightarrow> backtrace sim seq1 seq2 t (a - 1) b
         | _ \<Rightarrow> backtrace sim seq1 seq2 t a (b - 1))
      else [])"
  by pat_completeness auto
termination
  by (relation "measure (\<lambda>(sim, seq1, seq2, t, a, b). a + b)") auto

declare backtrace.simps [simp del]

definition unpaired :: "cand list \<Rightarrow> nat set \<Rightarrow> (nat \<times> cand) list" where
  "unpaired v p = filter (\<lambda>(i, c). i \<notin> p \<and> has_shingles c) (List.enumerate 0 v)"

definition side_sigs :: "side \<Rightarrow> (nat \<times> cand) list \<Rightarrow> ((side \<times> nat) \<times> signature) list" where
  "side_sigs sd cs = map (\<lambda>(i, c). ((sd, i), cand_sig c)) cs"

definition pass_content_monotonic ::
  "lsh_index \<Rightarrow> cand list \<Rightarrow> cand list \<Rightarrow> tuning \<Rightarrow> nat set \<Rightarrow> nat set \<Rightarrow>
     (pairs \<times> nat set \<times> nat set) result" where
  "pass_content_monotonic query v1 v2 tn p1 p2 =
     (let un1 = unpaired v1 p1; un2 = unpaired v2 p2 in
      if un1 = [] \<or> un2 = [] then Inr ([], p1, p2)
      else
        bindE (lsh_candidates query (side_sigs V1 un1 @ side_sigs V2 un2) (lsh_bands tn)
                 (similarity_threshold tn)) (\<lambda>cps.
        bindE (foldE (add_sim v1 v2) [] cps) (\<lambda>sim.
          if sim = [] then Inr ([], p1, p2)
          else let seq1 = map fst un1; seq2 = map fst un2;
                   res = backtrace sim seq1 seq2 (dp_table sim seq1 seq2) (length seq1) (length seq2)
               in Inr (res, p1 \<union> set (map fst res), p2 \<union> set (map (fst \<circ> snd) res)))))"

section \<open>Pass 4: events\<close>

definition pair_event :: "cand list \<Rightarrow> cand list \<Rightarrow> nat \<times> nat \<times> rat \<Rightarrow> change_event list result" where
  "pair_event v1 v2 p =
     (case p of (i, j, conf) \<Rightarrow>
        let c1 = cand_clause (v1 ! i); c2 = cand_clause (v2 ! j) in
        if path c1 = path c2 \<and> body_text c1 = body_text c2 then Inr []
        else bindE (mk_event
          \<lparr>change_type = (if body_text c1 = body_text c2 then MOVED else MODIFIED),
           before_clause_uid = None, after_clause_uid = None,
           before_path = Some (path c1), after_path = Some (path c2),
           before_text = Some (body_text c1), after_text = Some (body_text c2),
           alignment_confidence = conf\<rparr>) (\<lambda>ev. Inr [ev]))"

definition removed_event :: "clause \<Rightarrow> change_event" where
  "removed_event c =
     \<lparr>change_type = REMOVED, before_clause_uid = None, after_clause_uid = None,
      before_path = Some (path c), after_path = None,
      before_text = Some (body_text c), after_text = None, alignment_confidence = 1\<rparr>"

definition added_event :: "clause \<Rightarrow> change_event" where
  "added_event c =
     \<lparr>change_type = ADDED, before_clause_uid = None, after_clause_uid = None,
      before_path = None, after_path = Some (path c),
      before_text = None, after_text = Some (body_text c), alignment_confidence = 1\<rparr>"

definition residual :: "cand list \<Rightarrow> nat set \<Rightarrow> clause list" where
  "residual v p = map (cand_clause \<circ> snd) (filter (\<lambda>(i, c). i \<notin> p) (List.enumerate 0 v))"

definition emit_events ::
  "cand list \<Rightarrow> cand list \<Rightarrow> nat set \<Rightarrow> nat set \<Rightarrow> pairs \<Rightarrow> change_event list result" where
  "emit_events v1 v2 p1 p2 ps =
     bindE (mapE (pair_event v1 v2) ps) (\<lambda>paired.
     bindE (mapE (mk_event \<circ> removed_event) (residual v1 p1)) (\<lambda>removed.
     bindE (mapE (mk_event \<circ> added_event) (residual v2 p2)) (\<lambda>added.
       Inr (concat paired @ removed @ added))))"

section \<open>align\<close>

text \<open>Everything \<open>align\<close> computes before it emits: the pairs and the two paired sets.\<close>

definition align_pairs ::
  "lsh_index \<Rightarrow> cand list \<Rightarrow> cand list \<Rightarrow> tuning \<Rightarrow> (pairs \<times> nat set \<times> nat set) result" where
  "align_pairs query v1 v2 tn =
     bindE (pass_heading_match v1 v2 tn {} {}) (\<lambda>(ps2, p1, p2).
     bindE (pass_content_monotonic query v1 v2 tn p1 p2) (\<lambda>(ps3, q1, q2).
       Inr (ps2 @ ps3, q1, q2)))"

definition align ::
  "minhasher \<Rightarrow> lsh_index \<Rightarrow> clause \<Rightarrow> clause \<Rightarrow> tuning option \<Rightarrow> change_event list result" where
  "align mh query v1 v2 tuning_opt =
     (let tn = (case tuning_opt of None \<Rightarrow> default_tuning_config | Some t \<Rightarrow> t) in
      bindE (collect_candidates mh v1 tn) (\<lambda>c1.
      bindE (collect_candidates mh v2 tn) (\<lambda>c2.
      bindE (align_pairs query c1 c2 tn) (\<lambda>(ps, p1, p2).
        emit_events c1 c2 p1 p2 ps))))"

end
