(* ===== verification/Align_DP.thy ===== *)
theory Align_DP
  imports Align
begin

text \<open>
  The content pass's dynamic programme. The table is the recursive cell function \<open>dp_ref\<close>;
  the traceback yields a non-crossing matching over the similarity dictionary whose total
  weight is the last cell's value, and no non-crossing matching weighs more.
\<close>

section \<open>The table computes the recursive cells\<close>

fun dp_ref :: "simmap \<Rightarrow> nat list \<Rightarrow> nat list \<Rightarrow> nat \<Rightarrow> nat \<Rightarrow> rat \<times> move" where
  "dp_ref sim s1 s2 0 b = (0, Start)"
| "dp_ref sim s1 s2 (Suc a) 0 = (0, Start)"
| "dp_ref sim s1 s2 (Suc a) (Suc b) =
     dp_cell (fst (dp_ref sim s1 s2 a (Suc b))) (fst (dp_ref sim s1 s2 (Suc a) b))
       (fst (dp_ref sim s1 s2 a b)) (map_of sim (s1 ! a, s2 ! b))"

lemma dp_ref_zero [simp]: "dp_ref sim s1 s2 a 0 = (0, Start)"
  by (cases a) auto

lemma dp_row_ref:
  assumes "js = drop b s2" and "ups = map (\<lambda>k. dp_ref sim s1 s2 a (Suc k)) [b..<length s2]"
    and "diag = fst (dp_ref sim s1 s2 a b)" and "left = fst (dp_ref sim s1 s2 (Suc a) b)"
  shows "dp_row (\<lambda>j. map_of sim (s1 ! a, j)) diag left ups js =
    map (\<lambda>k. dp_ref sim s1 s2 (Suc a) (Suc k)) [b..<length s2]"
  using assms
proof (induction js arbitrary: b ups diag left)
  case Nil
  then show ?case by simp
next
  case (Cons j js)
  have b: "b < length s2" using Cons.prems(1) by (metis drop_all list.distinct(1) not_le)
  then have j: "j = s2 ! b" "js = drop (Suc b) s2"
    using Cons.prems(1) by (metis Cons_nth_drop_Suc list.inject)+
  have ups: "ups = dp_ref sim s1 s2 a (Suc b) # map (\<lambda>k. dp_ref sim s1 s2 a (Suc k)) [Suc b..<length s2]"
    using b Cons.prems(2) by (simp add: upt_conv_Cons)
  show ?case
    using Cons.IH [OF j(2) refl refl refl] b
    by (simp add: ups j Cons.prems(3,4) Let_def upt_conv_Cons)
qed

lemma dp_rows_ref:
  assumes "is = drop a s1" and "prev = map (dp_ref sim s1 s2 a) [0..<Suc (length s2)]" and "a \<le> length s1"
  shows "dp_rows sim prev is s2 =
    map (\<lambda>k. map (dp_ref sim s1 s2 k) [0..<Suc (length s2)]) [a..<Suc (length s1)]"
  using assms
proof (induction "is" arbitrary: a prev)
  case Nil
  then show ?case by (simp add: upt_conv_Cons del: upt_Suc)
next
  case (Cons i ids)
  have a: "a < length s1" using Cons.prems(1) by (metis drop_all list.distinct(1) not_le)
  then have i: "i = s1 ! a" "ids = drop (Suc a) s1"
    using Cons.prems(1) by (metis Cons_nth_drop_Suc list.inject)+
  have split: "[0..<Suc n] = 0 # map Suc [0..<n]" for n
    by (simp add: upt_conv_Cons map_Suc_upt del: upt_Suc)
  have tl: "tl prev = map (\<lambda>k. dp_ref sim s1 s2 a (Suc k)) [0..<length s2]"
    unfolding Cons.prems(2) split by (simp add: comp_def)
  have "dp_row (\<lambda>j. map_of sim (i, j)) 0 0 (tl prev) s2 =
      map (\<lambda>k. dp_ref sim s1 s2 (Suc a) (Suc k)) [0..<length s2]"
    unfolding i(1) by (rule dp_row_ref [where b = 0]) (simp_all add: tl)
  then have "(0, Start) # dp_row (\<lambda>j. map_of sim (i, j)) 0 0 (tl prev) s2 =
      map (dp_ref sim s1 s2 (Suc a)) [0..<Suc (length s2)]"
    unfolding split by (simp add: comp_def)
  from Cons.IH [OF i(2) this] a show ?case
    by (simp add: upt_conv_Cons [of a "Suc (length s1)"] Cons.prems(2) del: upt_Suc)
qed

lemma dp_table_ref:
  assumes "a \<le> length s1" "b \<le> length s2"
  shows "dp_table sim s1 s2 ! a ! b = dp_ref sim s1 s2 a b"
proof -
  have "replicate (length s2 + 1) (0 :: rat, Start) = map (dp_ref sim s1 s2 0) [0..<Suc (length s2)]"
    by (rule nth_equalityI) (simp_all del: upt_Suc replicate_Suc)
  from dp_rows_ref [OF _ this, of s1] show ?thesis
    using assms by (simp add: dp_table_def del: upt_Suc)
qed

section \<open>Non-crossing matchings\<close>

definition noncrossing :: "(nat \<times> nat) list \<Rightarrow> bool" where
  "noncrossing qs \<longleftrightarrow> sorted_wrt (\<lambda>p q. fst p < fst q \<and> snd p < snd q) qs"

definition weight :: "simmap \<Rightarrow> (nat \<times> nat) list \<Rightarrow> rat" where
  "weight sim qs = sum_list (map (\<lambda>p. the (map_of sim p)) qs)"

definition matching_in :: "simmap \<Rightarrow> nat list \<Rightarrow> nat list \<Rightarrow> (nat \<times> nat) list \<Rightarrow> bool" where
  "matching_in sim s1 s2 qs \<longleftrightarrow> noncrossing qs
     \<and> (\<forall>p \<in> set qs. fst p \<in> set s1 \<and> snd p \<in> set s2 \<and> map_of sim p \<noteq> None)"

lemma take_sorted_less:
  "sorted_wrt (<) xs \<Longrightarrow> n < length xs \<Longrightarrow> x \<in> set (take n xs) \<Longrightarrow> x < (xs ! n :: nat)"
  by (auto simp: in_set_conv_nth sorted_wrt_iff_nth_less)

lemma dp_cell_ge: "up \<le> fst (dp_cell up left diag s)" "left \<le> fst (dp_cell up left diag s)"
  "s = Some w \<Longrightarrow> diag + w \<le> fst (dp_cell up left diag s)"
  by (auto simp: dp_cell_def Let_def split: option.splits)

lemma dp_ref_nonneg: "0 \<le> fst (dp_ref sim s1 s2 a b)"
proof (induction sim s1 s2 a b rule: dp_ref.induct)
  case (3 sim s1 s2 a b)
  show ?case using order_trans [OF "3.IH"(1) dp_cell_ge(1)] by simp
qed auto

text \<open>The cell bounds every non-crossing matching of the two prefixes.\<close>

lemma dp_ref_upper:
  assumes "sorted_wrt (<) s1" "sorted_wrt (<) s2" "a \<le> length s1" "b \<le> length s2"
    and "matching_in sim (take a s1) (take b s2) qs"
  shows "weight sim qs \<le> fst (dp_ref sim s1 s2 a b)"
  using assms
proof (induction sim s1 s2 a b arbitrary: qs rule: dp_ref.induct)
  case (1 sim s1 s2 b)
  then show ?case by (cases qs) (auto simp: matching_in_def weight_def)
next
  case (2 sim s1 s2 a)
  then show ?case by (cases qs) (auto simp: matching_in_def weight_def)
next
  case (3 sim s1 s2 a b)
  let ?R = "dp_ref sim s1 s2"
  have ab: "a < length s1" "b < length s2" using "3.prems" by auto
  have take: "take (Suc a) s1 = take a s1 @ [s1 ! a]" "take (Suc b) s2 = take b s2 @ [s2 ! b]"
    using ab by (simp_all add: take_Suc_conv_app_nth)
  have lt1: "x < s1 ! a" if "x \<in> set (take a s1)" for x
    using that "3.prems"(1) ab by (simp add: take_sorted_less)
  have lt2: "x < s2 ! b" if "x \<in> set (take b s2)" for x
    using that "3.prems"(2) ab by (simp add: take_sorted_less)
  show ?case
  proof (cases qs rule: rev_cases)
    case Nil
    then show ?thesis using dp_ref_nonneg [of sim s1 s2 "Suc a" "Suc b"] by (simp add: weight_def)
  next
    case (snoc rs p)
    have m: "noncrossing (rs @ [p])"
      "\<forall>q \<in> set (rs @ [p]). fst q \<in> set (take (Suc a) s1) \<and> snd q \<in> set (take (Suc b) s2)
         \<and> map_of sim q \<noteq> None"
      using "3.prems"(5) unfolding snoc matching_in_def by auto
    have before: "fst q < fst p \<and> snd q < snd p" if "q \<in> set rs" for q
      using m(1) that by (auto simp: noncrossing_def sorted_wrt_append)
    have le1: "fst p \<le> s1 ! a" using m(2) lt1 unfolding take by (auto intro: less_imp_le)
    have le2: "snd p \<le> s2 ! b" using m(2) lt2 unfolding take by (auto intro: less_imp_le)
    have nc: "noncrossing rs" using m(1) by (simp add: noncrossing_def sorted_wrt_append)
    have in1: "fst q \<in> set (take a s1)" if "q \<in> set (rs @ [p])" "fst q \<noteq> s1 ! a" for q
      using m(2) that unfolding take by auto
    have in2: "snd q \<in> set (take b s2)" if "q \<in> set (rs @ [p])" "snd q \<noteq> s2 ! b" for q
      using m(2) that unfolding take by auto
    consider (both) "fst p = s1 ! a" "snd p = s2 ! b" | (l1) "fst p \<noteq> s1 ! a" | (l2) "snd p \<noteq> s2 ! b"
      by blast
    then show ?thesis
    proof cases
      case both
      have "matching_in sim (take a s1) (take b s2) rs"
        unfolding matching_in_def using nc m(2) in1 in2 before both by fastforce
      then have "weight sim rs \<le> fst (?R a b)" using "3.IH"(3) "3.prems"(1,2) ab by simp
      moreover obtain w where w: "map_of sim (s1 ! a, s2 ! b) = Some w"
        using m(2) both by (metis in_set_conv_decomp not_None_eq prod.collapse)
      ultimately show ?thesis
        using dp_cell_ge(3) [OF w, of "fst (?R a b)" "fst (?R a (Suc b))" "fst (?R (Suc a) b)"] both w
        by (cases p) (simp add: snoc weight_def)
    next
      case l1
      have "fst q \<in> set (take a s1)" if "q \<in> set qs" for q
        using in1 before l1 le1 that unfolding snoc by fastforce
      then have "matching_in sim (take a s1) (take (Suc b) s2) qs"
        using m unfolding snoc [symmetric] matching_in_def by blast
      then have "weight sim qs \<le> fst (?R a (Suc b))" using "3.IH"(1) "3.prems" by simp
      then show ?thesis using order_trans [OF _ dp_cell_ge(1)] by simp
    next
      case l2
      have "snd q \<in> set (take b s2)" if "q \<in> set qs" for q
        using in2 before l2 le2 that unfolding snoc by fastforce
      then have "matching_in sim (take (Suc a) s1) (take b s2) qs"
        using m unfolding snoc [symmetric] matching_in_def by blast
      then have "weight sim qs \<le> fst (?R (Suc a) b)" using "3.IH"(2) "3.prems" by simp
      then show ?thesis using order_trans [OF _ dp_cell_ge(2)] by simp
    qed
  qed
qed

section \<open>The traceback\<close>

lemma dp_cell_cases:
  obtains w where "dp_cell up left diag s = (diag + w, Pair)" "s = Some w"
  | "dp_cell up left diag s = (up, Skip1)"
  | "dp_cell up left diag s = (left, Skip2)"
proof -
  have "(\<exists>w. s = Some w \<and> dp_cell up left diag s = (diag + w, Pair))
      \<or> dp_cell up left diag s = (up, Skip1) \<or> dp_cell up left diag s = (left, Skip2)"
    by (cases s; cases "up < left") (auto simp: dp_cell_def Let_def)
  then show thesis using that by blast
qed

definition with_weights :: "simmap \<Rightarrow> (nat \<times> nat) list \<Rightarrow> pairs" where
  "with_weights sim qs = map (\<lambda>p. (fst p, snd p, the (map_of sim p))) qs"

lemma matching_in_mono:
  "matching_in sim s1 s2 qs \<Longrightarrow> set s1 \<subseteq> set t1 \<Longrightarrow> set s2 \<subseteq> set t2 \<Longrightarrow> matching_in sim t1 t2 qs"
  by (auto simp: matching_in_def)

lemma set_take_Suc: "set (take n xs) \<subseteq> set (take (Suc n) xs)"
  by (auto simp: set_take_subset_set_take)

lemma backtrace_spec:
  assumes "sorted_wrt (<) s1" "sorted_wrt (<) s2" "a \<le> length s1" "b \<le> length s2"
  shows "\<exists>qs. backtrace sim s1 s2 (dp_table sim s1 s2) a b = rev (with_weights sim qs)
     \<and> matching_in sim (take a s1) (take b s2) qs \<and> weight sim qs = fst (dp_ref sim s1 s2 a b)"
  using assms
proof (induction sim s1 s2 a b rule: dp_ref.induct)
  case (1 sim s1 s2 b)
  show ?case
    by (intro exI [of _ "[]"]) (simp add: backtrace.simps with_weights_def matching_in_def noncrossing_def weight_def)
next
  case (2 sim s1 s2 a)
  show ?case
    by (intro exI [of _ "[]"]) (simp add: backtrace.simps with_weights_def matching_in_def noncrossing_def weight_def)
next
  case (3 sim s1 s2 a b)
  let ?R = "dp_ref sim s1 s2" and ?t = "dp_table sim s1 s2"
  let ?s = "map_of sim (s1 ! a, s2 ! b)"
  have ab: "a < length s1" "b < length s2" using "3.prems" by auto
  have cell: "?t ! Suc a ! Suc b = dp_cell (fst (?R a (Suc b))) (fst (?R (Suc a) b)) (fst (?R a b)) ?s"
    using ab by (simp add: dp_table_ref)
  show ?case
  proof (rule dp_cell_cases [of "fst (?R a (Suc b))" "fst (?R (Suc a) b)" "fst (?R a b)" ?s])
    fix w
    assume c: "dp_cell (fst (?R a (Suc b))) (fst (?R (Suc a) b)) (fst (?R a b)) ?s = (fst (?R a b) + w, Pair)"
      and w: "?s = Some w"
    obtain qs where qs: "backtrace sim s1 s2 ?t a b = rev (with_weights sim qs)"
      "matching_in sim (take a s1) (take b s2) qs" "weight sim qs = fst (?R a b)"
      using "3.IH"(3) "3.prems" by auto
    have "backtrace sim s1 s2 ?t (Suc a) (Suc b) = rev (with_weights sim (qs @ [(s1 ! a, s2 ! b)]))"
      using cell c qs(1) by (simp add: backtrace.simps [of sim s1 s2 ?t "Suc a" "Suc b"] with_weights_def)
    moreover have "matching_in sim (take (Suc a) s1) (take (Suc b) s2) (qs @ [(s1 ! a, s2 ! b)])"
    proof -
      have "fst q < s1 ! a \<and> snd q < s2 ! b" if "q \<in> set qs" for q
        using qs(2) that "3.prems"(1,2) ab unfolding matching_in_def by (auto intro: take_sorted_less)
      then show ?thesis
        using qs(2) w ab unfolding matching_in_def noncrossing_def
        by (auto simp: sorted_wrt_append take_Suc_conv_app_nth)
    qed
    moreover have "weight sim (qs @ [(s1 ! a, s2 ! b)]) = fst (?R (Suc a) (Suc b))"
      using c qs(3) w by (simp add: weight_def)
    ultimately show ?thesis by blast
  next
    assume c: "dp_cell (fst (?R a (Suc b))) (fst (?R (Suc a) b)) (fst (?R a b)) ?s = (fst (?R a (Suc b)), Skip1)"
    obtain qs where qs: "backtrace sim s1 s2 ?t a (Suc b) = rev (with_weights sim qs)"
      "matching_in sim (take a s1) (take (Suc b) s2) qs" "weight sim qs = fst (?R a (Suc b))"
      using "3.IH"(1) "3.prems" by auto
    have "backtrace sim s1 s2 ?t (Suc a) (Suc b) = rev (with_weights sim qs)"
      using cell c qs(1) by (simp add: backtrace.simps [of sim s1 s2 ?t "Suc a" "Suc b"])
    then show ?thesis
      using qs c matching_in_mono [OF qs(2) set_take_Suc order_refl] by (intro exI [of _ qs]) simp
  next
    assume c: "dp_cell (fst (?R a (Suc b))) (fst (?R (Suc a) b)) (fst (?R a b)) ?s = (fst (?R (Suc a) b), Skip2)"
    obtain qs where qs: "backtrace sim s1 s2 ?t (Suc a) b = rev (with_weights sim qs)"
      "matching_in sim (take (Suc a) s1) (take b s2) qs" "weight sim qs = fst (?R (Suc a) b)"
      using "3.IH"(2) "3.prems" by auto
    have "backtrace sim s1 s2 ?t (Suc a) (Suc b) = rev (with_weights sim qs)"
      using cell c qs(1) by (simp add: backtrace.simps [of sim s1 s2 ?t "Suc a" "Suc b"])
    then show ?thesis
      using qs c matching_in_mono [OF qs(2) order_refl set_take_Suc] by (intro exI [of _ qs]) simp
  qed
qed

text \<open>
  The whole programme: the pairs come out last first, they form a non-crossing matching over
  the dictionary, and no non-crossing matching weighs more.
\<close>

definition dp_pairs :: "simmap \<Rightarrow> nat list \<Rightarrow> nat list \<Rightarrow> pairs" where
  "dp_pairs sim s1 s2 = backtrace sim s1 s2 (dp_table sim s1 s2) (length s1) (length s2)"

lemma dp_pairs_optimal:
  assumes "sorted_wrt (<) s1" "sorted_wrt (<) s2"
  obtains qs where "dp_pairs sim s1 s2 = rev (with_weights sim qs)" "matching_in sim s1 s2 qs"
    and "\<And>rs. matching_in sim s1 s2 rs \<Longrightarrow> weight sim rs \<le> weight sim qs"
proof -
  obtain qs where qs: "dp_pairs sim s1 s2 = rev (with_weights sim qs)"
    "matching_in sim s1 s2 qs" "weight sim qs = fst (dp_ref sim s1 s2 (length s1) (length s2))"
    using backtrace_spec [OF assms order_refl order_refl] by (auto simp: dp_pairs_def)
  show ?thesis
  proof (rule that [OF qs(1,2)])
    fix rs
    assume "matching_in sim s1 s2 rs"
    then show "weight sim rs \<le> weight sim qs"
      using dp_ref_upper [OF assms order_refl order_refl] qs(3) by simp
  qed
qed

end
