(* ===== verification/Align_Match.thy ===== *)
theory Align_Match
  imports Align_DP
begin

text \<open>
  The pairing as a whole: the greedy assignment of the heading pass is a matching, it is the
  diagonal when every candidate's best partner is itself, and the two passes together pair
  every candidate at most once, record exactly the paired indices, and never raise on a valid
  configuration.
\<close>

section \<open>The greedy assignment\<close>

definition firsts :: "pairs \<Rightarrow> nat list" where
  "firsts ps = map fst ps"

definition seconds :: "pairs \<Rightarrow> nat list" where
  "seconds ps = map (fst \<circ> snd) ps"

lemma firsts_simps [simp]:
  "firsts [] = []" "firsts ((i, j, c) # ps) = i # firsts ps" "firsts (ps @ qs) = firsts ps @ firsts qs"
  "seconds [] = []" "seconds ((i, j, c) # ps) = j # seconds ps" "seconds (ps @ qs) = seconds ps @ seconds qs"
  by (simp_all add: firsts_def seconds_def)

text \<open>Invariant of the paired sets: they grow by exactly the pairs chosen, each index once.\<close>

definition extends_pairing :: "pairs \<Rightarrow> nat set \<Rightarrow> nat set \<Rightarrow> nat set \<Rightarrow> nat set \<Rightarrow> bool" where
  "extends_pairing ps p1 p2 q1 q2 \<longleftrightarrow>
     distinct (firsts ps) \<and> distinct (seconds ps)
     \<and> set (firsts ps) \<inter> p1 = {} \<and> set (seconds ps) \<inter> p2 = {}
     \<and> q1 = p1 \<union> set (firsts ps) \<and> q2 = p2 \<union> set (seconds ps)"

lemma extends_pairing_Nil [simp]: "extends_pairing [] p1 p2 p1 p2"
  by (simp add: extends_pairing_def)

lemma extends_pairing_Cons:
  "i \<notin> p1 \<Longrightarrow> j \<notin> p2 \<Longrightarrow> extends_pairing ps (insert i p1) (insert j p2) q1 q2 \<Longrightarrow>
     extends_pairing ((i, j, c) # ps) p1 p2 q1 q2"
  by (auto simp: extends_pairing_def)

lemma extends_pairing_append:
  "extends_pairing ps p1 p2 q1 q2 \<Longrightarrow> extends_pairing rs q1 q2 r1 r2 \<Longrightarrow>
     extends_pairing (ps @ rs) p1 p2 r1 r2"
  by (auto simp: extends_pairing_def)

lemma greedy_assign_extends:
  "greedy_assign ts p1 p2 = (ps, q1, q2) \<Longrightarrow> extends_pairing ps p1 p2 q1 q2"
  by (induction ts p1 p2 arbitrary: ps q1 q2 rule: greedy_assign.induct)
    (auto split: if_splits prod.splits intro: extends_pairing_Cons)

lemma greedy_assign_subset:
  "greedy_assign ts p1 p2 = (ps, q1, q2) \<Longrightarrow> (i, j, c) \<in> set ps \<Longrightarrow> (c, i, j) \<in> set ts"
  by (induction ts p1 p2 arbitrary: ps q1 q2 rule: greedy_assign.induct)
    (auto split: if_splits prod.splits)

text \<open>
  No triple is passed over without reason: a triple that was not chosen shares an index with
  the sets on entry or with a chosen pair that comes before it, so of at least its confidence.
\<close>

lemma greedy_assign_blocked:
  assumes "greedy_assign ts p1 p2 = (ps, q1, q2)" "sorted_wrt (\<ge>) ts" "(c, i, j) \<in> set ts"
  shows "(i, j, c) \<in> set ps \<or> i \<in> p1 \<or> j \<in> p2
    \<or> (\<exists>(i', j', c') \<in> set ps. (i' = i \<or> j' = j) \<and> c' \<ge> c)"
  using assms
proof (induction ts p1 p2 arbitrary: ps q1 q2 rule: greedy_assign.induct)
  case (1 p1 p2)
  then show ?case by simp
next
  case (2 conf i' j' ts p1 p2)
  have ge: "c \<le> conf" using "2.prems"(2,3) by (auto simp: less_eq_prod_def)
  show ?case
  proof (cases "i' \<in> p1 \<or> j' \<in> p2")
    case True
    then show ?thesis using "2.IH"(1) "2.prems" by auto
  next
    case False
    obtain rs where rs: "greedy_assign ts (insert i' p1) (insert j' p2) = (rs, q1, q2)"
      "ps = (i', j', conf) # rs"
      using "2.prems"(1) False by (auto split: prod.splits)
    consider (now) "(c, i, j) = (conf, i', j')" | (later) "(c, i, j) \<in> set ts"
      using "2.prems"(3) by auto
    then show ?thesis
    proof cases
      case now
      then show ?thesis by (simp add: rs(2))
    next
      case later
      have "(i, j, c) \<in> set rs \<or> i \<in> insert i' p1 \<or> j \<in> insert j' p2
          \<or> (\<exists>(i', j', c') \<in> set rs. (i' = i \<or> j' = j) \<and> c' \<ge> c)"
        using "2.IH"(2) [OF False _ _ later] rs(1) "2.prems"(2) by auto
      then show ?thesis using ge by (auto simp: rs(2))
    qed
  qed
qed

section \<open>Matching a list with itself\<close>

text \<open>
  The interface of a confidence function under which identical candidates pair with each
  other: defined on every candidate with itself, and never larger off the diagonal.
\<close>

locale self_best =
  fixes ok :: "'t \<Rightarrow> bool"
    and conf :: "'t \<Rightarrow> 'a \<Rightarrow> 'a \<Rightarrow> rat option"
  assumes self: "ok t \<Longrightarrow> \<exists>d. conf t x x = Some d"
    and below_left: "ok t \<Longrightarrow> conf t x y = Some c \<Longrightarrow> conf t x x = Some d \<Longrightarrow> c \<le> d"
    and below_right: "ok t \<Longrightarrow> conf t x y = Some c \<Longrightarrow> conf t y y = Some d \<Longrightarrow> c \<le> d"
begin

text \<open>The triples of a list against itself.\<close>

definition triple_of :: "'t \<Rightarrow> 'a list \<Rightarrow> triple \<Rightarrow> bool" where
  "triple_of t xs p \<longleftrightarrow> fst (snd p) < length xs \<and> snd (snd p) < length xs
     \<and> conf t (xs ! fst (snd p)) (xs ! snd (snd p)) = Some (fst p)"

text \<open>An off-diagonal triple comes after the diagonal triple of its larger index.\<close>

lemma diagonal_first:
  assumes "ok t" "triple_of t xs (c, i, j)" "i \<noteq> j"
  shows "\<exists>d k. (k = i \<or> k = j) \<and> triple_of t xs (d, k, k) \<and> (c, i, j) < (d, k, k)"
proof -
  define k where "k = max i j"
  obtain d where d: "conf t (xs ! k) (xs ! k) = Some d" using self [OF assms(1)] by blast
  have "c \<le> d"
    using assms(2) below_left [OF assms(1)] below_right [OF assms(1)] d
    by (auto simp: triple_of_def k_def max_def split: if_splits)
  then have "(c, i, j) < (d, k, k)"
    using assms(3) by (auto simp: less_prod_def k_def max_def)
  moreover have "triple_of t xs (d, k, k)" "k = i \<or> k = j"
    using assms(2) d by (auto simp: triple_of_def k_def max_def)
  ultimately show ?thesis by blast
qed

lemma greedy_diagonal_step:
  assumes "ok t" "sorted_wrt (>) (ts @ us)" "set (ts @ us) = {p. triple_of t xs p}"
    and "p1 = {k. \<exists>d. (d, k, k) \<in> set ts}" and "greedy_assign us p1 p1 = (ps, q1, q2)"
  shows "(\<forall>(i, j, c) \<in> set ps. i = j) \<and> q1 = {..<length xs} \<and> q2 = {..<length xs}"
  using assms(2-5)
proof (induction us arbitrary: ts p1 ps q1 q2)
  case Nil
  have "p1 = {..<length xs}"
  proof (rule set_eqI)
    fix k
    show "k \<in> p1 \<longleftrightarrow> k \<in> {..<length xs}"
      using Nil.prems(2,3) self [OF assms(1), of "xs ! k"] by (auto simp: triple_of_def)
  qed
  then show ?case using Nil.prems(4) by auto
next
  case (Cons u us)
  obtain c i j where u: "u = (c, i, j)" by (cases u) auto
  have sorted': "sorted_wrt (>) ((ts @ [u]) @ us)" using Cons.prems(1) by simp
  have set': "set ((ts @ [u]) @ us) = {p. triple_of t xs p}" using Cons.prems(2) by simp
  have tr: "triple_of t xs u" using Cons.prems(2) by auto
  show ?case
  proof (cases "i = j")
    case True
    have fresh: "i \<notin> p1"
    proof
      assume "i \<in> p1"
      then obtain d where d: "(d, i, i) \<in> set ts" using Cons.prems(3) by auto
      then have "triple_of t xs (d, i, i)" using Cons.prems(2) by auto
      then have "(d, i, i) = u" using tr True u by (auto simp: triple_of_def)
      then show False using d Cons.prems(1) by (auto simp: sorted_wrt_append)
    qed
    obtain rs where rs: "greedy_assign us (insert i p1) (insert i p1) = (rs, q1, q2)"
      "ps = (i, i, c) # rs"
      using Cons.prems(4) fresh True by (auto simp: u split: prod.splits)
    have "insert i p1 = {k. \<exists>d. (d, k, k) \<in> set (ts @ [u])}"
      using Cons.prems(3) True by (auto simp: u)
    from Cons.IH [OF sorted' set' this rs(1)] show ?thesis using rs(2) by auto
  next
    case False
    obtain d k where k: "k = i \<or> k = j" "triple_of t xs (d, k, k)" "u < (d, k, k)"
      using diagonal_first [OF assms(1) tr [unfolded u] False] u by blast
    have "(d, k, k) \<in> set (ts @ u # us)" using k(2) Cons.prems(2) by simp
    moreover have "(d, k, k) \<noteq> u" "(d, k, k) \<notin> set us"
      using k(3) Cons.prems(1) by (auto simp: sorted_wrt_append dest: less_asym)
    ultimately have "k \<in> p1" using Cons.prems(3) by auto
    then have skip: "greedy_assign us p1 p1 = (ps, q1, q2)"
      using Cons.prems(4) k(1) by (auto simp: u)
    have "p1 = {k. \<exists>d. (d, k, k) \<in> set (ts @ [u])}"
      using Cons.prems(3) False by (auto simp: u)
    from Cons.IH [OF sorted' set' this skip] show ?thesis .
  qed
qed

lemma greedy_diagonal:
  assumes "ok t" "sorted_wrt (>) us" "set us = {p. triple_of t xs p}"
    and "greedy_assign us {} {} = (ps, q1, q2)"
  shows "(\<forall>(i, j, c) \<in> set ps. i = j) \<and> q1 = {..<length xs} \<and> q2 = {..<length xs}"
  using greedy_diagonal_step [of t "[]" us xs "{}" ps q1 q2] assms by simp

end

end
