(* ===== verification/Align_Correct.thy ===== *)
theory Align_Correct
  imports Align_Match
begin

text \<open>
  Correctness of \<open>align\<close>: on a valid configuration it never raises, its pairs match every
  candidate at most once, its events are valid and account for every candidate, and aligning
  a version with an identical one yields no event.
\<close>

section \<open>The heading pass\<close>

definition link_conf :: "tuning \<Rightarrow> cand \<Rightarrow> cand \<Rightarrow> rat option" where
  "link_conf tn c1 c2 =
     (if anchors_match c1 c2
      then (case pass2_confidence c1 c2 tn of Inl _ \<Rightarrow> None | Inr r \<Rightarrow> r) else None)"

lemma anchors_match_refl [simp]: "anchors_match c c"
  by (simp add: anchors_match_def split: option.splits)

lemma link_conf_self:
  "valid_tuning tn \<Longrightarrow> link_conf tn c c = Some (if has_shingles c then 1 else pass2_base)"
  by (simp add: link_conf_def pass2_confidence_def valid_tuning_iff pass2_base_def max_def)

lemma link_conf_SomeD:
  assumes "link_conf tn c1 c2 = Some r"
  shows "has_shingles c1 = has_shingles c2 \<and> 0 < r \<and> r \<le> 1 \<and> (\<not> has_shingles c1 \<longrightarrow> r = pass2_base)"
proof -
  have p: "pass2_confidence c1 c2 tn = Inr (Some r)"
    using assms by (auto simp: link_conf_def split: if_splits sum.splits)
  show ?thesis
  proof (cases "has_shingles c1 \<and> has_shingles c2")
    case True
    then obtain est where est: "jaccard (cand_sig c1) (cand_sig c2) = Inr est" "r = max pass2_base est"
      using p by (auto simp: pass2_confidence_def bindE_eq_Inr split: if_splits)
    then show ?thesis using True jaccard_bounds [OF est(1)] by (auto simp: pass2_base_def)
  next
    case False
    then show ?thesis using p
      by (auto simp: pass2_confidence_def pass2_base_def split: if_splits)
  qed
qed

interpretation heading: self_best valid_tuning link_conf
proof
  fix t x y c d
  assume v: "valid_tuning t"
  show "\<exists>d. link_conf t x x = Some d" using v by (simp add: link_conf_self)
  {
    assume "link_conf t x y = Some c" "link_conf t x x = Some d"
    then show "c \<le> d" using link_conf_SomeD [of t x y c] v by (auto simp: link_conf_self split: if_splits)
  next
    assume "link_conf t x y = Some c" "link_conf t y y = Some d"
    then show "c \<le> d" using link_conf_SomeD [of t x y c] v by (auto simp: link_conf_self split: if_splits)
  }
qed

text \<open>Candidates whose signatures all have one length, as \<open>minhash\<close> makes them.\<close>

definition cands_ok :: "nat \<Rightarrow> cand list \<Rightarrow> bool" where
  "cands_ok sz cs \<longleftrightarrow> (\<forall>c \<in> set cs. length (cand_sig c) = sz)"

lemma concat_option:
  "concat (map (\<lambda>x. case f x of None \<Rightarrow> [] | Some c \<Rightarrow> [g x c]) xs) =
     map (\<lambda>x. g x (the (f x))) (filter (\<lambda>x. f x \<noteq> None) xs)"
  by (induction xs) (auto split: option.splits)

definition index_pairs :: "cand list \<Rightarrow> cand list \<Rightarrow> ((nat \<times> cand) \<times> (nat \<times> cand)) list" where
  "index_pairs v1 v2 = List.product (List.enumerate 0 v1) (List.enumerate 0 v2)"

lemma pair_triple_link:
  assumes "length (cand_sig (snd ic)) = sz" "length (cand_sig (snd jc)) = sz"
  shows "pair_triple tn ic jc = Inr (case link_conf tn (snd ic) (snd jc) of None \<Rightarrow> []
    | Some c \<Rightarrow> [(c, fst ic, fst jc)])"
proof -
  obtain est where "jaccard (cand_sig (snd ic)) (cand_sig (snd jc)) = Inr est"
    using jaccard_total [of "cand_sig (snd ic)" "cand_sig (snd jc)"] assms by auto
  then show ?thesis by (auto simp: pair_triple_def link_conf_def pass2_confidence_def)
qed

lemma heading_triples_eq:
  assumes "cands_ok sz v1" "cands_ok sz v2"
  shows "heading_triples v1 v2 tn =
    Inr (map (\<lambda>p. (the (link_conf tn (snd (fst p)) (snd (snd p))), fst (fst p), fst (snd p)))
          (filter (\<lambda>p. link_conf tn (snd (fst p)) (snd (snd p)) \<noteq> None) (index_pairs v1 v2)))"
proof -
  have "mapE (\<lambda>(ic, jc). pair_triple tn ic jc) (index_pairs v1 v2) =
    Inr (map (\<lambda>p. case link_conf tn (snd (fst p)) (snd (snd p)) of None \<Rightarrow> []
            | Some c \<Rightarrow> [(c, fst (fst p), fst (snd p))]) (index_pairs v1 v2))"
  proof (rule mapE_total)
    fix p assume "p \<in> set (index_pairs v1 v2)"
    then have "length (cand_sig (snd (fst p))) = sz" "length (cand_sig (snd (snd p))) = sz"
      using assms by (auto simp: index_pairs_def cands_ok_def enumerate_nth)
    then show "(case p of (ic, jc) \<Rightarrow> pair_triple tn ic jc) =
        Inr (case link_conf tn (snd (fst p)) (snd (snd p)) of None \<Rightarrow> []
            | Some c \<Rightarrow> [(c, fst (fst p), fst (snd p))])"
      by (simp add: pair_triple_link split_beta)
  qed
  then show ?thesis
    by (simp add: heading_triples_def index_pairs_def [symmetric] concat_option)
qed

lemma heading_triples_spec:
  assumes "cands_ok sz v1" "cands_ok sz v2"
  obtains ts where "heading_triples v1 v2 tn = Inr ts" "distinct ts"
    and "set ts = {(c, i, j). i < length v1 \<and> j < length v2 \<and> link_conf tn (v1 ! i) (v2 ! j) = Some c}"
proof (rule that [OF heading_triples_eq [OF assms]])
  have "inj_on (\<lambda>p. (fst (fst p), fst (snd p))) (set (index_pairs v1 v2))"
    by (auto simp: inj_on_def index_pairs_def enumerate_nth)
  then have "inj_on (\<lambda>p. (the (link_conf tn (snd (fst p)) (snd (snd p))), fst (fst p), fst (snd p)))
      (set (filter (\<lambda>p. link_conf tn (snd (fst p)) (snd (snd p)) \<noteq> None) (index_pairs v1 v2)))"
    by (auto simp: inj_on_def)
  moreover have "distinct (index_pairs v1 v2)"
    by (simp add: index_pairs_def distinct_product distinct_enumerate)
  ultimately show "distinct (map (\<lambda>p. (the (link_conf tn (snd (fst p)) (snd (snd p))), fst (fst p), fst (snd p)))
      (filter (\<lambda>p. link_conf tn (snd (fst p)) (snd (snd p)) \<noteq> None) (index_pairs v1 v2)))"
    by (simp add: distinct_map)
  show "set (map (\<lambda>p. (the (link_conf tn (snd (fst p)) (snd (snd p))), fst (fst p), fst (snd p)))
      (filter (\<lambda>p. link_conf tn (snd (fst p)) (snd (snd p)) \<noteq> None) (index_pairs v1 v2))) =
    {(c, i, j). i < length v1 \<and> j < length v2 \<and> link_conf tn (v1 ! i) (v2 ! j) = Some c}"
    (is "?L = ?R")
  proof
    show "?L \<subseteq> ?R" by (auto simp: index_pairs_def enumerate_nth)
    show "?R \<subseteq> ?L"
    proof
      fix p assume "p \<in> ?R"
      then obtain c i j where p: "p = (c, i, j)" "i < length v1" "j < length v2"
        "link_conf tn (v1 ! i) (v2 ! j) = Some c" by auto
      then have "((i, v1 ! i), (j, v2 ! j)) \<in> set (index_pairs v1 v2)"
        by (auto simp: index_pairs_def enumerate_nth)
      then show "p \<in> ?L" using p by force
    qed
  qed
qed

lemma sorted_rev_sort:
  "distinct ts \<Longrightarrow> sorted_wrt (>) (rev (sort (ts :: triple list)))"
  unfolding sorted_wrt_rev using strict_sorted_iff [of "sort ts"] by simp

lemma pass_heading_match_spec:
  assumes "cands_ok sz v1" "cands_ok sz v2"
  obtains ps q1 q2 where "pass_heading_match v1 v2 tn p1 p2 = Inr (ps, q1, q2)"
    and "extends_pairing ps p1 p2 q1 q2"
    and "\<forall>(i, j, c) \<in> set ps. i < length v1 \<and> j < length v2 \<and> link_conf tn (v1 ! i) (v2 ! j) = Some c"
proof -
  obtain ts where ts: "heading_triples v1 v2 tn = Inr ts"
    "set ts = {(c, i, j). i < length v1 \<and> j < length v2 \<and> link_conf tn (v1 ! i) (v2 ! j) = Some c}"
    by (rule heading_triples_spec [OF assms])
  obtain ps q1 q2 where g: "greedy_assign (rev (sort ts)) p1 p2 = (ps, q1, q2)"
    by (cases "greedy_assign (rev (sort ts)) p1 p2") auto
  show ?thesis
  proof (rule that)
    show "pass_heading_match v1 v2 tn p1 p2 = Inr (ps, q1, q2)"
      by (simp add: pass_heading_match_def ts(1) g)
    show "extends_pairing ps p1 p2 q1 q2" by (rule greedy_assign_extends [OF g])
    show "\<forall>(i, j, c) \<in> set ps. i < length v1 \<and> j < length v2 \<and> link_conf tn (v1 ! i) (v2 ! j) = Some c"
      using greedy_assign_subset [OF g] ts(2) by fastforce
  qed
qed

section \<open>The content pass\<close>

lemma unpaired_in:
  "(i, c) \<in> set (unpaired v p) \<longleftrightarrow> i < length v \<and> c = v ! i \<and> i \<notin> p \<and> has_shingles c"
  by (auto simp: unpaired_def enumerate_nth)

lemma unpaired_sorted: "sorted_wrt (<) (map fst (unpaired v p))"
proof -
  have "sorted_wrt (<) (map fst (filter P (List.enumerate n v)))" for P n
    by (induction v arbitrary: n) (auto simp: in_set_enumerate_eq)
  then show ?thesis by (simp add: unpaired_def)
qed

lemma side_sigs_nth:
  "k < length un \<Longrightarrow> side_sigs sd un ! k = ((sd, fst (un ! k)), cand_sig (snd (un ! k)))"
  by (simp add: side_sigs_def split_beta)

lemma length_side_sigs [simp]: "length (side_sigs sd un) = length un"
  by (simp add: side_sigs_def)

text \<open>A good pair across the two sides is a left and a right clause that estimate alike.\<close>

definition cross_ok :: "cand list \<Rightarrow> cand list \<Rightarrow> (nat \<times> cand) list \<Rightarrow> (nat \<times> cand) list \<Rightarrow> rat \<Rightarrow>
    nat \<times> nat \<Rightarrow> rat \<Rightarrow> bool" where
  "cross_ok v1 v2 un1 un2 thr p est \<longleftrightarrow> fst p \<in> set (map fst un1) \<and> snd p \<in> set (map fst un2)
     \<and> jaccard (cand_sig (v1 ! fst p)) (cand_sig (v2 ! snd p)) = Inr est \<and> thr \<le> est"

lemma good_pair_sides:
  assumes "good_pair (side_sigs V1 (unpaired v1 p1) @ side_sigs V2 (unpaired v2 p2)) thr p"
    and "keys_at (side_sigs V1 (unpaired v1 p1) @ side_sigs V2 (unpaired v2 p2)) p = ((sa, i), (sb, j))"
    and "sa \<noteq> sb"
  shows "\<exists>est. cross_ok v1 v2 (unpaired v1 p1) (unpaired v2 p2) thr (i, j) est"
proof -
  let ?u1 = "unpaired v1 p1" and ?u2 = "unpaired v2 p2"
  let ?s = "side_sigs V1 ?u1 @ side_sigs V2 ?u2"
  have lt: "fst p < snd p" "snd p < length ?u1 + length ?u2"
    using assms(1) by (auto simp: good_pair_def)
  have cross: "fst p < length ?u1 \<and> \<not> snd p < length ?u1"
    using assms(2,3) lt by (auto simp: keys_at_def nth_append side_sigs_nth split: if_splits)
  define c where "c = ?u1 ! fst p"
  define d where "d = ?u2 ! (snd p - length ?u1)"
  have in_u: "c \<in> set ?u1" "d \<in> set ?u2" using cross lt by (auto simp: c_def d_def)
  have nth: "?s ! fst p = ((V1, fst c), cand_sig (snd c))" "?s ! snd p = ((V2, fst d), cand_sig (snd d))"
    using cross lt by (auto simp: nth_append side_sigs_nth c_def d_def)
  have ij: "i = fst c" "j = fst d" using assms(2) nth by (auto simp: keys_at_def)
  have "snd c = v1 ! i" "snd d = v2 ! j"
    using in_u unpaired_in [of "fst c" "snd c"] unpaired_in [of "fst d" "snd d"] by (auto simp: ij)
  then show ?thesis
    using assms(1) in_u nth unfolding good_pair_def cross_ok_def ij by (auto simp: ij)
qed

lemma add_sims_spec:
  assumes "\<forall>ab \<in> set cps. fst (fst ab) \<noteq> fst (snd ab) \<longrightarrow>
      (\<exists>est. Q (snd (fst ab), snd (snd ab)) est
         \<and> jaccard (cand_sig (v1 ! snd (fst ab))) (cand_sig (v2 ! snd (snd ab))) = Inr est)"
    and "\<forall>(p, est) \<in> set sim. Q p est"
  shows "\<exists>sim'. foldE (add_sim v1 v2) sim cps = Inr sim' \<and> (\<forall>(p, est) \<in> set sim'. Q p est)"
  using assms
proof (induction cps arbitrary: sim)
  case Nil
  then show ?case by simp
next
  case (Cons ab cps)
  obtain sa i sb j where ab: "ab = ((sa, i), (sb, j))" by (metis prod.collapse)
  show ?case
  proof (cases "sa = sb")
    case True
    then have "foldE (add_sim v1 v2) sim (ab # cps) = foldE (add_sim v1 v2) sim cps"
      by (simp add: ab add_sim_def)
    then show ?thesis using Cons.IH Cons.prems by simp
  next
    case False
    obtain est where est: "Q (i, j) est" "jaccard (cand_sig (v1 ! i)) (cand_sig (v2 ! j)) = Inr est"
      using Cons.prems(1) False by (auto simp: ab)
    have "foldE (add_sim v1 v2) sim (ab # cps) = foldE (add_sim v1 v2) (((i, j), est) # sim) cps"
      using False est(2) by (simp add: ab add_sim_def)
    then show ?thesis using Cons.IH [of "((i, j), est) # sim"] Cons.prems est(1) by simp
  qed
qed

lemma with_weights_firsts [simp]:
  "firsts (with_weights sim qs) = map fst qs" "seconds (with_weights sim qs) = map snd qs"
  by (simp_all add: with_weights_def firsts_def seconds_def)

lemma firsts_rev: "firsts (rev ps) = rev (firsts ps)" "seconds (rev ps) = rev (seconds ps)"
  by (simp_all add: firsts_def seconds_def rev_map)

lemma noncrossing_distinct:
  assumes "noncrossing qs"
  shows "distinct (map fst qs)" "distinct (map snd qs)"
proof -
  have "sorted_wrt (<) (map fst qs)" "sorted_wrt (<) (map snd qs)"
    using assms by (auto simp: noncrossing_def sorted_wrt_map elim: sorted_wrt_mono_rel [rotated])
  then show "distinct (map fst qs)" "distinct (map snd qs)" by (simp_all add: strict_sorted_iff)
qed

text \<open>The pairs of the content pass.\<close>

definition content_pair :: "cand list \<Rightarrow> cand list \<Rightarrow> tuning \<Rightarrow> nat \<times> nat \<times> rat \<Rightarrow> bool" where
  "content_pair v1 v2 tn p \<longleftrightarrow>
     (case p of (i, j, c) \<Rightarrow> i < length v1 \<and> j < length v2
        \<and> has_shingles (v1 ! i) \<and> has_shingles (v2 ! j)
        \<and> jaccard (cand_sig (v1 ! i)) (cand_sig (v2 ! j)) = Inr c \<and> similarity_threshold tn \<le> c)"

text \<open>The index takes the parameters of a configuration: the pass never meets its refusal.\<close>

definition index_ready :: "lsh_index \<Rightarrow> tuning \<Rightarrow> bool" where
  "index_ready query tn \<longleftrightarrow>
     (\<forall>sigs. (\<forall>s \<in> set sigs. int (length s) = signature_size tn) \<longrightarrow>
        (\<exists>q. query (lsh_bands tn) (signature_size tn div lsh_bands tn) sigs = Inr q))"

lemma pass_content_monotonic_spec:
  assumes v: "valid_tuning tn" and q: "index_in_range query" and b: "index_ready query tn"
    and c1: "cands_ok (nat (signature_size tn)) v1" and c2: "cands_ok (nat (signature_size tn)) v2"
  obtains qs w q1 q2 where
    "pass_content_monotonic query v1 v2 tn p1 p2 = Inr (rev (map (\<lambda>p. (fst p, snd p, w p)) qs), q1, q2)"
    and "extends_pairing (rev (map (\<lambda>p. (fst p, snd p, w p)) qs)) p1 p2 q1 q2"
    and "noncrossing qs"
    and "\<forall>p \<in> set qs. content_pair v1 v2 tn (fst p, snd p, w p)"
proof -
  let ?u1 = "unpaired v1 p1" and ?u2 = "unpaired v2 p2"
  let ?thr = "similarity_threshold tn"
  let ?sigs = "side_sigs V1 ?u1 @ side_sigs V2 ?u2"
  have nil: "pass_content_monotonic query v1 v2 tn p1 p2 = Inr ([], p1, p2) \<Longrightarrow> ?thesis"
    using that [of "\<lambda>_. 0" "[]" p1 p2] by (simp add: noncrossing_def)
  show ?thesis
  proof (cases "?u1 = [] \<or> ?u2 = []")
    case True
    then show ?thesis by (intro nil) (simp add: pass_content_monotonic_def)
  next
    case False
    have lens: "\<forall>s \<in> set ?sigs. length (snd s) = nat (signature_size tn)"
      using c1 c2 by (fastforce simp: side_sigs_def unpaired_in cands_ok_def)
    have "int (nat (signature_size tn)) mod lsh_bands tn = 0"
      using v by (simp add: valid_tuning_iff dvd_eq_mod_eq_0)
    moreover have "\<exists>f. query (lsh_bands tn) (int (nat (signature_size tn)) div lsh_bands tn) (map snd ?sigs) = Inr f"
    proof -
      have sz: "int (nat (signature_size tn)) = signature_size tn" using v by (simp add: valid_tuning_iff)
      then have "\<forall>s \<in> set (map snd ?sigs). int (length s) = signature_size tn"
        using lens sz unfolding set_map by (metis imageE)
      then show ?thesis using b sz by (simp only: index_ready_def)
    qed
    ultimately obtain cps where cps: "lsh_candidates query ?sigs (lsh_bands tn) ?thr = Inr (map (keys_at ?sigs) cps)"
      "\<forall>p \<in> set cps. good_pair ?sigs ?thr p"
      using lsh_candidates_spec [OF q _ _ _ lens, of "lsh_bands tn" ?thr] v
      by (auto simp: valid_tuning_iff)
    have "\<exists>sim. foldE (add_sim v1 v2) [] (map (keys_at ?sigs) cps) = Inr sim
        \<and> (\<forall>(p, est) \<in> set sim. cross_ok v1 v2 ?u1 ?u2 ?thr p est)"
    proof (rule add_sims_spec)
      show "\<forall>ab \<in> set (map (keys_at ?sigs) cps). fst (fst ab) \<noteq> fst (snd ab) \<longrightarrow>
        (\<exists>est. cross_ok v1 v2 ?u1 ?u2 ?thr (snd (fst ab), snd (snd ab)) est
           \<and> jaccard (cand_sig (v1 ! snd (fst ab))) (cand_sig (v2 ! snd (snd ab))) = Inr est)"
      proof (intro ballI impI)
        fix ab
        assume ab: "ab \<in> set (map (keys_at ?sigs) cps)" "fst (fst ab) \<noteq> fst (snd ab)"
        obtain p where p: "p \<in> set cps" "ab = keys_at ?sigs p" using ab(1) by auto
        have "good_pair ?sigs ?thr p" using p(1) cps(2) by simp
        from good_pair_sides [OF this, of "fst (fst ab)" "snd (fst ab)" "fst (snd ab)" "snd (snd ab)"] ab(2) p(2)
        show "\<exists>est. cross_ok v1 v2 ?u1 ?u2 ?thr (snd (fst ab), snd (snd ab)) est
           \<and> jaccard (cand_sig (v1 ! snd (fst ab))) (cand_sig (v2 ! snd (snd ab))) = Inr est"
          by (auto simp: cross_ok_def)
      qed
    qed simp
    then obtain sim where sim: "foldE (add_sim v1 v2) [] (map (keys_at ?sigs) cps) = Inr sim"
      "\<forall>(p, est) \<in> set sim. cross_ok v1 v2 ?u1 ?u2 ?thr p est" by blast
    show ?thesis
    proof (cases "sim = []")
      case True
      then show ?thesis using False cps(1) sim(1)
        by (intro nil) (simp add: pass_content_monotonic_def)
    next
      case nonempty: False
      let ?s1 = "map fst ?u1" and ?s2 = "map fst ?u2"
      obtain qs where qs: "dp_pairs sim ?s1 ?s2 = rev (with_weights sim qs)" "matching_in sim ?s1 ?s2 qs"
        by (rule dp_pairs_optimal [OF unpaired_sorted unpaired_sorted])
      let ?res = "rev (with_weights sim qs)"
      have run: "pass_content_monotonic query v1 v2 tn p1 p2 =
          Inr (?res, p1 \<union> set (map fst ?res), p2 \<union> set (map (fst \<circ> snd) ?res))"
        using False nonempty cps(1) sim(1) qs(1)
        by (simp add: pass_content_monotonic_def Let_def dp_pairs_def [symmetric, simplified])
      have inu: "fst p \<in> set ?s1 \<and> snd p \<in> set ?s2 \<and> map_of sim p \<noteq> None" if "p \<in> set qs" for p
        using qs(2) that by (simp add: matching_in_def)
      have notin: "fst p \<notin> p1 \<and> snd p \<notin> p2" if p: "p \<in> set qs" for p
      proof -
        obtain c d where "(fst p, c) \<in> set ?u1" "(snd p, d) \<in> set ?u2" using inu [OF p] by auto
        then show ?thesis by (simp add: unpaired_in)
      qed
      have nc: "noncrossing qs" using qs(2) by (simp add: matching_in_def)
      have ext: "extends_pairing ?res p1 p2 (p1 \<union> set (map fst ?res)) (p2 \<union> set (map (fst \<circ> snd) ?res))"
        unfolding extends_pairing_def firsts_def [symmetric] seconds_def [symmetric]
        using noncrossing_distinct [OF nc] notin by (auto simp: firsts_rev)
      have good: "\<forall>p \<in> set qs. content_pair v1 v2 tn (fst p, snd p, the (map_of sim p))"
      proof
        fix p assume p: "p \<in> set qs"
        then obtain est where est: "map_of sim p = Some est" using inu by blast
        then have "cross_ok v1 v2 ?u1 ?u2 ?thr p est" using sim(2) map_of_SomeD by fastforce
        then show "content_pair v1 v2 tn (fst p, snd p, the (map_of sim p))"
          using est by (auto simp: content_pair_def cross_ok_def unpaired_in)
      qed
      show ?thesis
        using run ext nc good unfolding with_weights_def by (rule that)
    qed
  qed
qed

section \<open>Both passes\<close>

lemma content_pair_bounds:
  "valid_tuning tn \<Longrightarrow> content_pair v1 v2 tn (i, j, c) \<Longrightarrow>
     i < length v1 \<and> j < length v2 \<and> 0 < c \<and> c \<le> 1"
  using jaccard_bounds by (fastforce simp: content_pair_def valid_tuning_iff)

lemma align_pairs_spec:
  assumes v: "valid_tuning tn" and q: "index_in_range query" and b: "index_ready query tn"
    and c1: "cands_ok (nat (signature_size tn)) v1" and c2: "cands_ok (nat (signature_size tn)) v2"
  obtains ps q1 q2 where "align_pairs query v1 v2 tn = Inr (ps, q1, q2)"
    and "extends_pairing ps {} {} q1 q2"
    and "\<forall>(i, j, c) \<in> set ps. i < length v1 \<and> j < length v2 \<and> 0 < c \<and> c \<le> 1"
proof -
  obtain ps p1 p2 where h: "pass_heading_match v1 v2 tn {} {} = Inr (ps, p1, p2)"
    "extends_pairing ps {} {} p1 p2"
    "\<forall>(i, j, c) \<in> set ps. i < length v1 \<and> j < length v2 \<and> link_conf tn (v1 ! i) (v2 ! j) = Some c"
    by (rule pass_heading_match_spec [OF c1 c2])
  obtain qs w q1 q2 where m:
    "pass_content_monotonic query v1 v2 tn p1 p2 = Inr (rev (map (\<lambda>p. (fst p, snd p, w p)) qs), q1, q2)"
    "extends_pairing (rev (map (\<lambda>p. (fst p, snd p, w p)) qs)) p1 p2 q1 q2"
    "\<forall>p \<in> set qs. content_pair v1 v2 tn (fst p, snd p, w p)"
    by (rule pass_content_monotonic_spec [OF v q b c1 c2])
  have "\<forall>(i, j, c) \<in> set (rev (map (\<lambda>p. (fst p, snd p, w p)) qs)).
      i < length v1 \<and> j < length v2 \<and> 0 < c \<and> c \<le> 1"
    using m(3) content_pair_bounds [OF v] by fastforce
  then have "\<forall>(i, j, c) \<in> set (ps @ rev (map (\<lambda>p. (fst p, snd p, w p)) qs)).
      i < length v1 \<and> j < length v2 \<and> 0 < c \<and> c \<le> 1"
    using h(3) link_conf_SomeD by fastforce
  moreover have "align_pairs query v1 v2 tn = Inr (ps @ rev (map (\<lambda>p. (fst p, snd p, w p)) qs), q1, q2)"
    by (simp add: align_pairs_def h(1) m(1))
  ultimately show ?thesis using extends_pairing_append [OF h(2) m(2)] that by blast
qed

section \<open>Candidates\<close>

text \<open>
  What datasketch documents: a signature has \<open>num_perm\<close> hash values, at most $2^{32}$ of them; a query answers with
  keys that were inserted, and an index of two or more bands takes signatures of its size.
\<close>

definition minhash_sized :: "minhasher \<Rightarrow> bool" where
  "minhash_sized mh \<longleftrightarrow> (\<forall>n S hs. mh n S = Inr hs \<longrightarrow> length hs = nat n)"

definition datasketch_ok :: "minhasher \<Rightarrow> lsh_index \<Rightarrow> bool" where
  "datasketch_ok mh query \<longleftrightarrow> minhash_sized mh \<and> index_in_range query
     \<and> (\<forall>n S. 1 \<le> n \<and> n \<le> 2 ^ 32 \<longrightarrow> (\<exists>hs. mh n S = Inr hs))
     \<and> (\<forall>b r sigs. 2 \<le> b \<and> 1 \<le> r \<and> b * r \<le> 2 ^ 32 \<and> (\<forall>s \<in> set sigs. int (length s) = b * r) \<longrightarrow>
          (\<exists>q. query b r sigs = Inr q))"

text \<open>A configuration the library takes; \<open>TuningConfig\<close> also admits a single band and larger signatures.\<close>

definition usable_tuning :: "tuning \<Rightarrow> bool" where
  "usable_tuning tn \<longleftrightarrow> valid_tuning tn \<and> 2 \<le> lsh_bands tn \<and> signature_size tn \<le> 2 ^ 32"

lemma usable_valid: "usable_tuning tn \<Longrightarrow> valid_tuning tn"
  by (simp add: usable_tuning_def)

lemma usable_default_tuning: "usable_tuning default_tuning_config"
  by (simp add: usable_tuning_def valid_default_tuning) (simp add: default_tuning_config_def)

lemma datasketchD: "datasketch_ok mh query \<Longrightarrow> minhash_sized mh" "datasketch_ok mh query \<Longrightarrow> index_in_range query"
  "datasketch_ok mh query \<Longrightarrow> 1 \<le> n \<Longrightarrow> n \<le> 2 ^ 32 \<Longrightarrow> \<exists>hs. mh n S = Inr hs"
  by (simp_all add: datasketch_ok_def)

lemma usable_index_ready:
  assumes "usable_tuning tn" "datasketch_ok mh query"
  shows "index_ready query tn"
proof -
  have t: "2 \<le> lsh_bands tn" "1 \<le> signature_size tn" "signature_size tn \<le> 2 ^ 32" "lsh_bands tn dvd signature_size tn"
    using assms(1) by (auto simp: usable_tuning_def valid_tuning_iff)
  then have m: "lsh_bands tn * (signature_size tn div lsh_bands tn) = signature_size tn" by simp
  then have r: "1 \<le> signature_size tn div lsh_bands tn"
    using t(1,2) zero_less_mult_pos [of "lsh_bands tn" "signature_size tn div lsh_bands tn"] by simp
  have "\<exists>q. query (lsh_bands tn) (signature_size tn div lsh_bands tn) sigs = Inr q"
    if "\<forall>s \<in> set sigs. int (length s) = signature_size tn" for sigs
    using assms(2) [unfolded datasketch_ok_def] t(1,3) r m that by simp
  then show ?thesis by (simp add: index_ready_def)
qed

definition bodied :: "clause \<Rightarrow> clause list" where
  "bodied tree = filter (\<lambda>node. strip (body_text node) \<noteq> []) (walk tree)"

text \<open>A clause whose text is valid UTF-8 has a signature; \<open>signable\<close> says that the clauses of a tree have one.\<close>

definition encodable :: "clause \<Rightarrow> bool" where
  "encodable node \<longleftrightarrow> (\<forall>c \<in> set (body_text node). \<not> surrogate c)"

definition cand_of :: "minhasher \<Rightarrow> tuning \<Rightarrow> clause \<Rightarrow> cand" where
  "cand_of mh tn node = (case mk_cand mh tn node of Inr c \<Rightarrow> c)"

definition signable :: "minhasher \<Rightarrow> tuning \<Rightarrow> clause \<Rightarrow> bool" where
  "signable mh tn tree \<longleftrightarrow> (\<forall>node \<in> set (bodied tree). mk_cand mh tn node = Inr (cand_of mh tn node))"

lemma mk_cand_of: "mk_cand mh tn node = Inr c \<Longrightarrow> cand_of mh tn node = c"
  by (simp add: cand_of_def)

lemma cand_of_fields:
  assumes "mk_cand mh tn node = Inr (cand_of mh tn node)"
  shows "cand_clause (cand_of mh tn node) = node"
    and "minhash_sized mh \<Longrightarrow> length (cand_sig (cand_of mh tn node)) = nat (signature_size tn)"
proof -
  obtain S hs where c: "mh (signature_size tn) S = Inr hs"
    "cand_of mh tn node = \<lparr>cand_clause = node, cand_sig = hs, has_shingles = (S \<noteq> {})\<rparr>"
    using assms by (auto simp: mk_cand_def minhash_def bindE_eq_Inr split: if_splits)
  then show "cand_clause (cand_of mh tn node) = node"
    and "minhash_sized mh \<Longrightarrow> length (cand_sig (cand_of mh tn node)) = nat (signature_size tn)"
    by (simp_all add: minhash_sized_def)
qed

lemma encodable_signable:
  assumes "usable_tuning tn" "datasketch_ok mh query" "\<forall>node \<in> set (bodied tree). encodable node"
  shows "signable mh tn tree"
  unfolding signable_def
proof
  fix node assume node: "node \<in> set (bodied tree)"
  have t: "1 \<le> shingle_k tn" "1 \<le> signature_size tn" "signature_size tn \<le> 2 ^ 32"
    using assms(1) by (simp_all add: usable_tuning_def valid_tuning_iff)
  obtain S where S: "shingle (body_text node) (shingle_k tn) = Inr S" using shingle_total [OF t(1)] by blast
  obtain hs where hs: "mh (signature_size tn) S = Inr hs" using datasketchD(3) [OF assms(2) t(2,3)] by blast
  have "\<not> surrogate c" if "s \<in> S" "c \<in> set s" for s c
    using shingle_chars [OF S that] assms(3) node by (auto simp: encodable_def surrogate_def)
  then have "mk_cand mh tn node = Inr \<lparr>cand_clause = node, cand_sig = hs, has_shingles = (S \<noteq> {})\<rparr>"
    using S hs t by (auto simp: mk_cand_def minhash_def)
  then show "mk_cand mh tn node = Inr (cand_of mh tn node)" using mk_cand_of by metis
qed

lemma collect_candidates_eq:
  "signable mh tn tree \<Longrightarrow> collect_candidates mh tree tn = Inr (map (cand_of mh tn) (bodied tree))"
  unfolding collect_candidates_def signable_def bodied_def by (rule mapE_total) simp

lemma collect_candidates_signable:
  assumes "collect_candidates mh tree tn = Inr cs"
  shows "signable mh tn tree"
  unfolding signable_def
proof
  fix node assume "node \<in> set (bodied tree)"
  then obtain i where i: "i < length (bodied tree)" "node = bodied tree ! i" by (auto simp: in_set_conv_nth)
  then have "mk_cand mh tn node = Inr (cs ! i)"
    using mapE_nth assms by (simp add: collect_candidates_def bodied_def)
  then show "mk_cand mh tn node = Inr (cand_of mh tn node)" using mk_cand_of by metis
qed

lemma unencodable_not_signable:
  assumes "node \<in> set (bodied tree)" "shingle (body_text node) (shingle_k tn) = Inr S" "s \<in> S" "c \<in> set s" "surrogate c"
  shows "\<not> signable mh tn tree"
proof
  assume "signable mh tn tree"
  then have "mk_cand mh tn node = Inr (cand_of mh tn node)" using assms(1) by (simp add: signable_def)
  then show False using assms(2-5) by (auto simp: mk_cand_def minhash_def bindE_eq_Inr split: if_splits)
qed

lemma cands_ok_map:
  "signable mh tn tree \<Longrightarrow> minhash_sized mh \<Longrightarrow>
     cands_ok (nat (signature_size tn)) (map (cand_of mh tn) (bodied tree))"
  by (auto simp: cands_ok_def signable_def cand_of_fields(2))

lemma signable_clauses: "signable mh tn tree \<Longrightarrow> map (cand_clause \<circ> cand_of mh tn) (bodied tree) = bodied tree"
  by (rule map_idI) (simp add: signable_def cand_of_fields(1))

lemma signable_nth:
  "signable mh tn tree \<Longrightarrow> i < length (bodied tree) \<Longrightarrow> cand_clause (cand_of mh tn (bodied tree ! i)) = bodied tree ! i"
  by (simp add: signable_def cand_of_fields(1))

section \<open>Events\<close>

text \<open>The events of a pair, when its confidence is in range: none, or one valid event.\<close>

definition pair_events :: "cand list \<Rightarrow> cand list \<Rightarrow> nat \<times> nat \<times> rat \<Rightarrow> change_event list" where
  "pair_events v1 v2 p = (case pair_event v1 v2 p of Inr evs \<Rightarrow> evs)"

lemma pair_event_total:
  assumes "0 < c" "c \<le> 1"
  shows "pair_event v1 v2 (i, j, c) = Inr (pair_events v1 v2 (i, j, c))"
    and "\<forall>ev \<in> set (pair_events v1 v2 (i, j, c)). mk_event ev = Inr ev
      \<and> change_type ev \<in> {MOVED, MODIFIED}
      \<and> before_path ev = Some (path (cand_clause (v1 ! i)))
      \<and> after_path ev = Some (path (cand_clause (v2 ! j)))"
    and "pair_events v1 v2 (i, j, c) = [] \<longleftrightarrow>
      path (cand_clause (v1 ! i)) = path (cand_clause (v2 ! j))
      \<and> body_text (cand_clause (v1 ! i)) = body_text (cand_clause (v2 ! j))"
  using assms by (auto simp: pair_events_def pair_event_def Let_def mk_event_def field_presence_ok_def)

lemma mk_residual [simp]:
  "mk_event (removed_event c) = Inr (removed_event c)"
  "mk_event (added_event c) = Inr (added_event c)"
  by (simp_all add: mk_event_def removed_event_def added_event_def field_presence_ok_def)

lemma emit_events_eq:
  assumes "\<forall>(i, j, c) \<in> set ps. 0 < c \<and> c \<le> 1"
  shows "emit_events v1 v2 p1 p2 ps = Inr (concat (map (pair_events v1 v2) ps)
    @ map removed_event (residual v1 p1) @ map added_event (residual v2 p2))"
proof -
  have "mapE (pair_event v1 v2) ps = Inr (map (pair_events v1 v2) ps)"
    by (rule mapE_total) (use assms pair_event_total(1) in auto)
  moreover have "mapE (mk_event \<circ> removed_event) cs = Inr (map removed_event cs)"
    "mapE (mk_event \<circ> added_event) cs = Inr (map added_event cs)" for cs
    by (rule mapE_total, simp)+
  ultimately show ?thesis by (simp add: emit_events_def)
qed

text \<open>A list splits into the paired indices and the residual.\<close>

lemma length_residual:
  assumes "distinct is" "set is \<subseteq> {..<length v}"
  shows "length (residual v (set is)) + length is = length v"
proof -
  have "length (residual v (set is)) = card {i. i < length v \<and> i \<notin> set is}"
  proof -
    have "distinct (map fst (filter (\<lambda>(i, c). i \<notin> set is) (List.enumerate 0 v)))"
      by (rule distinct_map_filter) simp
    then have "card (set (map fst (filter (\<lambda>(i, c). i \<notin> set is) (List.enumerate 0 v)))) =
        length (residual v (set is))"
      by (subst distinct_card) (simp_all add: residual_def)
    moreover have "set (map fst (filter (\<lambda>(i, c). i \<notin> set is) (List.enumerate 0 v))) =
        {i. i < length v \<and> i \<notin> set is}"
      by (force simp: enumerate_nth)
    ultimately show ?thesis by simp
  qed
  also have "{i. i < length v \<and> i \<notin> set is} = {..<length v} - set is" by auto
  also have "card \<dots> = length v - length is"
    using assms by (simp add: card_Diff_subset distinct_card)
  finally show ?thesis
    using assms card_mono [of "{..<length v}" "set is"] by (simp add: distinct_card)
qed

section \<open>align\<close>

text \<open>The account that \<open>align\<close> gives of two versions.\<close>

lemma align_account:
  assumes v: "valid_tuning tn" and q: "index_in_range query" and mh: "minhash_sized mh"
    and b: "index_ready query tn" and s: "signable mh tn t1" "signable mh tn t2"
  obtains ps q1 q2 where
    "align mh query t1 t2 (Some tn) =
       Inr (concat (map (pair_events (map (cand_of mh tn) (bodied t1)) (map (cand_of mh tn) (bodied t2))) ps)
         @ map removed_event (residual (map (cand_of mh tn) (bodied t1)) q1)
         @ map added_event (residual (map (cand_of mh tn) (bodied t2)) q2))"
    and "align_pairs query (map (cand_of mh tn) (bodied t1)) (map (cand_of mh tn) (bodied t2)) tn
       = Inr (ps, q1, q2)"
    and "extends_pairing ps {} {} q1 q2"
    and "\<forall>(i, j, c) \<in> set ps. i < length (bodied t1) \<and> j < length (bodied t2) \<and> 0 < c \<and> c \<le> 1"
proof -
  let ?v1 = "map (cand_of mh tn) (bodied t1)" and ?v2 = "map (cand_of mh tn) (bodied t2)"
  obtain ps q1 q2 where ps: "align_pairs query ?v1 ?v2 tn = Inr (ps, q1, q2)"
    "extends_pairing ps {} {} q1 q2"
    "\<forall>(i, j, c) \<in> set ps. i < length ?v1 \<and> j < length ?v2 \<and> 0 < c \<and> c \<le> 1"
    by (rule align_pairs_spec [OF v q b cands_ok_map [OF s(1) mh] cands_ok_map [OF s(2) mh]])
  have "emit_events ?v1 ?v2 q1 q2 ps = Inr (concat (map (pair_events ?v1 ?v2) ps)
      @ map removed_event (residual ?v1 q1) @ map added_event (residual ?v2 q2))"
    using ps(3) by (intro emit_events_eq) auto
  then have "align mh query t1 t2 (Some tn) = Inr (concat (map (pair_events ?v1 ?v2) ps)
      @ map removed_event (residual ?v1 q1) @ map added_event (residual ?v2 q2))"
    by (simp add: align_def collect_candidates_eq [OF s(1)] collect_candidates_eq [OF s(2)] ps(1))
  then show ?thesis using ps(1,2,3) by (intro that) auto
qed

text \<open>The same account from the result, for an index that may refuse.\<close>

lemma align_total_index:
  assumes "align mh query t1 t2 (Some tn) = Inr evs"
  shows "align mh (total_index query) t1 t2 (Some tn) = Inr evs"
proof -
  have content: "pass_content_monotonic (total_index query) v1 v2 tn p1 p2 = Inr r"
    if run: "pass_content_monotonic query v1 v2 tn p1 p2 = Inr r" for v1 v2 p1 p2 r
  proof (cases "unpaired v1 p1 = [] \<or> unpaired v2 p2 = []")
    case True
    then show ?thesis using run by (simp add: pass_content_monotonic_def)
  next
    case False
    let ?l = "\<lambda>q. lsh_candidates q (side_sigs V1 (unpaired v1 p1) @ side_sigs V2 (unpaired v2 p2)) (lsh_bands tn) (similarity_threshold tn)"
    obtain cps where c: "?l query = Inr cps"
      using run False by (cases "?l query") (auto simp: pass_content_monotonic_def Let_def)
    have "pass_content_monotonic (total_index query) v1 v2 tn p1 p2 = pass_content_monotonic query v1 v2 tn p1 p2"
      by (simp only: pass_content_monotonic_def Let_def c lsh_candidates_total_index [OF c])
    then show ?thesis using run by simp
  qed
  have pairs: "align_pairs (total_index query) v1 v2 tn = Inr r" if al: "align_pairs query v1 v2 tn = Inr r" for v1 v2 r
  proof -
    obtain ps p1 p2 where h: "pass_heading_match v1 v2 tn {} {} = Inr (ps, p1, p2)"
      using al by (auto simp: align_pairs_def bindE_eq_Inr)
    then obtain c where c: "pass_content_monotonic query v1 v2 tn p1 p2 = Inr c"
      using al by (auto simp: align_pairs_def bindE_eq_Inr)
    have "align_pairs (total_index query) v1 v2 tn = align_pairs query v1 v2 tn"
      by (simp only: align_pairs_def h bindE.simps case_prod_conv c content [OF c])
    then show ?thesis using al by simp
  qed
  obtain c1 c2 where c: "collect_candidates mh t1 tn = Inr c1" "collect_candidates mh t2 tn = Inr c2"
    using assms by (auto simp: align_def Let_def bindE_eq_Inr)
  then obtain r where r: "align_pairs query c1 c2 tn = Inr r"
    using assms by (auto simp: align_def Let_def bindE_eq_Inr)
  have "align mh (total_index query) t1 t2 (Some tn) = align mh query t1 t2 (Some tn)"
    by (simp only: align_def Let_def option.case c bindE.simps r pairs [OF r])
  then show ?thesis using assms by simp
qed

text \<open>A lone surrogate in a shingle of either version makes \<open>align\<close> raise.\<close>

lemma align_unencodable:
  assumes "node \<in> set (bodied t1) \<union> set (bodied t2)" "shingle (body_text node) (shingle_k tn) = Inr S"
    and "s \<in> S" "c \<in> set s" "surrogate c"
  shows "\<exists>e. align mh query t1 t2 (Some tn) = Inl e"
proof (cases "align mh query t1 t2 (Some tn)")
  case (Inr evs)
  then have "signable mh tn t1" "signable mh tn t2"
    using collect_candidates_signable by (fastforce simp: align_def Let_def bindE_eq_Inr)+
  then show ?thesis using unencodable_not_signable [OF _ assms(2-5)] assms(1) by blast
qed simp

lemma align_accountD:
  assumes v: "valid_tuning tn" and q: "index_in_range query" and mh: "minhash_sized mh"
    and al: "align mh query t1 t2 (Some tn) = Inr evs"
  obtains ps q1 q2 where
    "evs = concat (map (pair_events (map (cand_of mh tn) (bodied t1)) (map (cand_of mh tn) (bodied t2))) ps)
         @ map removed_event (residual (map (cand_of mh tn) (bodied t1)) q1)
         @ map added_event (residual (map (cand_of mh tn) (bodied t2)) q2)"
    and "extends_pairing ps {} {} q1 q2"
    and "\<forall>(i, j, c) \<in> set ps. i < length (bodied t1) \<and> j < length (bodied t2) \<and> 0 < c \<and> c \<le> 1"
    and "signable mh tn t1" "signable mh tn t2"
proof -
  have s: "signable mh tn t1" "signable mh tn t2"
    using al collect_candidates_signable by (fastforce simp: align_def Let_def bindE_eq_Inr)+
  have "index_ready (total_index query) tn" by (auto simp: index_ready_def total_index_def split: sum.split)
  then obtain ps q1 q2 where r:
    "align mh (total_index query) t1 t2 (Some tn) =
       Inr (concat (map (pair_events (map (cand_of mh tn) (bodied t1)) (map (cand_of mh tn) (bodied t2))) ps)
         @ map removed_event (residual (map (cand_of mh tn) (bodied t1)) q1)
         @ map added_event (residual (map (cand_of mh tn) (bodied t2)) q2))"
    "extends_pairing ps {} {} q1 q2"
    "\<forall>(i, j, c) \<in> set ps. i < length (bodied t1) \<and> j < length (bodied t2) \<and> 0 < c \<and> c \<le> 1"
    by (rule align_account [OF v total_index_in_range [OF q] mh _ s])
  show ?thesis by (rule that [OF _ r(2,3) s]) (use r(1) in \<open>simp only: align_total_index [OF al] sum.inject\<close>)
qed

text \<open>The fields by which two clauses are the same to the aligner.\<close>

definition same_clause :: "clause \<Rightarrow> clause \<Rightarrow> bool" where
  "same_clause c d \<longleftrightarrow> path c = path d \<and> heading_text c = heading_text d \<and> body_text c = body_text d"

lemma same_clause_refl [simp]: "same_clause c c"
  by (simp add: same_clause_def)

lemma cand_of_same:
  assumes "same_clause c d" "mk_cand mh tn c = Inr (cand_of mh tn c)"
  shows "mk_cand mh tn d = Inr (cand_of mh tn d)"
    and "cand_sig (cand_of mh tn c) = cand_sig (cand_of mh tn d)"
    and "has_shingles (cand_of mh tn c) = has_shingles (cand_of mh tn d)"
proof -
  have b: "body_text c = body_text d" using assms(1) by (simp add: same_clause_def)
  obtain S hs where S: "shingle (body_text c) (shingle_k tn) = Inr S" "minhash mh S (signature_size tn) = Inr hs"
    using assms(2) by (auto simp: mk_cand_def bindE_eq_Inr)
  then have m: "mk_cand mh tn c = Inr \<lparr>cand_clause = c, cand_sig = hs, has_shingles = (S \<noteq> {})\<rparr>"
    "mk_cand mh tn d = Inr \<lparr>cand_clause = d, cand_sig = hs, has_shingles = (S \<noteq> {})\<rparr>"
    using b by (simp_all add: mk_cand_def)
  show "mk_cand mh tn d = Inr (cand_of mh tn d)"
    and "cand_sig (cand_of mh tn c) = cand_sig (cand_of mh tn d)"
    and "has_shingles (cand_of mh tn c) = has_shingles (cand_of mh tn d)"
    using m mk_cand_of by simp_all
qed

lemma link_conf_same:
  assumes "same_clause c d" "mk_cand mh tn c = Inr (cand_of mh tn c)"
  shows "link_conf tn x (cand_of mh tn c) = link_conf tn x (cand_of mh tn d)"
proof -
  have eqs: "path c = path d" "heading_text c = heading_text d" "body_text c = body_text d"
    using assms(1) by (simp_all add: same_clause_def)
  show ?thesis
    unfolding link_conf_def anchors_match_def pass2_confidence_def cand_of_fields(1) [OF assms(2)]
      cand_of_fields(1) [OF cand_of_same(1) [OF assms]] cand_of_same(2,3) [OF assms] eqs by (rule refl)
qed

lemma signable_same:
  assumes "list_all2 same_clause (bodied t1) (bodied t2)" "signable mh tn t1"
  shows "signable mh tn t2"
  unfolding signable_def
proof
  fix d assume "d \<in> set (bodied t2)"
  then obtain i where "i < length (bodied t2)" "d = bodied t2 ! i" by (auto simp: in_set_conv_nth)
  then have c: "bodied t1 ! i \<in> set (bodied t1)" "same_clause (bodied t1 ! i) d"
    using assms(1) by (auto simp: list_all2_conv_all_nth)
  then show "mk_cand mh tn d = Inr (cand_of mh tn d)"
    using cand_of_same(1) [OF c(2)] assms(2) by (simp add: signable_def)
qed

lemma align_same_clauses:
  assumes v: "valid_tuning tn" and mh: "minhash_sized mh" and s1: "signable mh tn t1"
    and same: "list_all2 same_clause (bodied t1) (bodied t2)"
  shows "align mh query t1 t2 (Some tn) = Inr []"
proof -
  let ?v1 = "map (cand_of mh tn) (bodied t1)" and ?v2 = "map (cand_of mh tn) (bodied t2)"
  let ?n = "length (bodied t1)"
  note s2 = signable_same [OF same s1]
  have len: "length (bodied t2) = ?n" using same by (simp add: list_all2_lengthD)
  have nth: "same_clause (bodied t1 ! i) (bodied t2 ! i)" if "i < ?n" for i
    using same that by (simp add: list_all2_nthD)
  obtain ts where ts: "heading_triples ?v1 ?v2 tn = Inr ts" "distinct ts"
    "set ts = {(c, i, j). i < length ?v1 \<and> j < length ?v2 \<and> link_conf tn (?v1 ! i) (?v2 ! j) = Some c}"
    by (rule heading_triples_spec [OF cands_ok_map [OF s1 mh] cands_ok_map [OF s2 mh]])
  have "link_conf tn x (cand_of mh tn (bodied t2 ! j)) = link_conf tn x (cand_of mh tn (bodied t1 ! j))"
    if "j < ?n" for x j
    using link_conf_same [OF nth [OF that], of mh tn x] s1 that by (simp add: signable_def)
  then have "set (rev (sort ts)) = {p. heading.triple_of tn ?v1 p}"
    using ts(3) len by (auto simp: heading.triple_of_def)
  moreover obtain ps q1 q2 where g: "greedy_assign (rev (sort ts)) {} {} = (ps, q1, q2)"
    by (cases "greedy_assign (rev (sort ts)) {} {}") auto
  ultimately have diag: "\<forall>(i, j, c) \<in> set ps. i = j" "q1 = {..<?n}" "q2 = {..<?n}"
    using heading.greedy_diagonal [OF v sorted_rev_sort [OF ts(2)]] by auto
  have bounds: "\<forall>(i, j, c) \<in> set ps. i < ?n \<and> 0 < c \<and> c \<le> 1"
    using greedy_assign_subset [OF g] ts(3) link_conf_SomeD by fastforce
  have none: "unpaired ?v1 {..<?n} = []" by (auto simp: unpaired_def filter_empty_conv enumerate_nth)
  have res: "residual ?v1 {..<?n} = []" "residual ?v2 {..<?n} = []"
    by (auto simp: residual_def filter_empty_conv enumerate_nth len)
  have "pair_events ?v1 ?v2 p = []" if p: "p \<in> set ps" for p
  proof -
    obtain i c where i: "p = (i, i, c)" "i < ?n" "0 < c" "c \<le> 1" using p diag(1) bounds by fastforce
    then show ?thesis
      using pair_event_total(3) nth [OF i(2)] len
      by (simp add: signable_nth [OF s1] signable_nth [OF s2] same_clause_def)
  qed
  then have "concat (map (pair_events ?v1 ?v2) ps) = []" by simp
  moreover have "align_pairs query ?v1 ?v2 tn = Inr (ps, {..<?n}, {..<?n})"
    using none by (simp add: align_pairs_def pass_heading_match_def ts(1) g diag pass_content_monotonic_def)
  moreover have "\<forall>(i, j, c) \<in> set ps. 0 < c \<and> c \<le> 1" using bounds by auto
  ultimately show ?thesis
    by (simp add: align_def collect_candidates_eq [OF s1] collect_candidates_eq [OF s2] emit_events_eq res del: concat_eq_Nil_conv)
qed

end
