(* ===== verification/Regex.thy ===== *)
theory Regex
  imports Pytext
begin

text \<open>
  The fragment of Python's \<open>re\<close> that the structural patterns of \<open>core/alignment/config.py\<close>
  use: character classes, greedy repetition of a class, sequence and ordered alternation.
  \<open>ends\<close> lists the lengths a backtracking matcher tries, in its order; \<open>re.match\<close> takes the
  first, \<open>re.fullmatch\<close> any that spans the text. The Unicode tables behind \<open>\d\<close>, \<open>\w\<close> and
  \<open>str.lower\<close> are a parameter.
\<close>

record unidb =
  uni_digit :: "nat \<Rightarrow> bool"
  uni_word :: "nat \<Rightarrow> bool"
  str_lower :: "ustr \<Rightarrow> ustr"

text \<open>What the code relies on of the tables, for the ASCII characters it names.\<close>

definition unidb_ok :: "unidb \<Rightarrow> bool" where
  "unidb_ok db \<longleftrightarrow> (\<forall>c < 128. uni_digit db c \<longleftrightarrow> 48 \<le> c \<and> c \<le> 57)
     \<and> (\<forall>c < 128. uni_word db c \<longleftrightarrow>
          (48 \<le> c \<and> c \<le> 57) \<or> (65 \<le> c \<and> c \<le> 90) \<or> c = 95 \<or> (97 \<le> c \<and> c \<le> 122))
     \<and> (\<forall>c. uni_digit db c \<longrightarrow> \<not> isspace c)"

datatype cclass = Is nat | InRange nat nat | OneOf "nat list" | USpace | UNonSpace | UDigit

fun in_class :: "unidb \<Rightarrow> cclass \<Rightarrow> nat \<Rightarrow> bool" where
  "in_class db (Is n) c = (c = n)"
| "in_class db (InRange a b) c = (a \<le> c \<and> c \<le> b)"
| "in_class db (OneOf cs) c = (c \<in> set cs)"
| "in_class db USpace c = isspace c"
| "in_class db UNonSpace c = (\<not> isspace c)"
| "in_class db UDigit c = uni_digit db c"

datatype rx = Empty | Chr cclass | Rep nat cclass | Seq rx rx | Alt rx rx

fun ends :: "unidb \<Rightarrow> rx \<Rightarrow> ustr \<Rightarrow> nat list" where
  "ends db Empty s = [0]"
| "ends db (Chr c) s = (case s of [] \<Rightarrow> [] | x # _ \<Rightarrow> if in_class db c x then [1] else [])"
| "ends db (Rep n c) s = rev [n..<Suc (length (takeWhile (in_class db c) s))]"
| "ends db (Seq a b) s = concat (map (\<lambda>k. map (\<lambda>m. k + m) (ends db b (drop k s))) (ends db a s))"
| "ends db (Alt a b) s = ends db a s @ ends db b s"

definition match_at :: "unidb \<Rightarrow> rx \<Rightarrow> ustr \<Rightarrow> nat option" where
  "match_at db r s = (case ends db r s of [] \<Rightarrow> None | k # _ \<Rightarrow> Some k)"

definition fullmatch :: "unidb \<Rightarrow> rx \<Rightarrow> ustr \<Rightarrow> bool" where
  "fullmatch db r s \<longleftrightarrow> length s \<in> set (ends db r s)"

text \<open>A literal text as a regular expression.\<close>

fun lit :: "ustr \<Rightarrow> rx" where
  "lit [] = Empty"
| "lit [c] = Chr (Is c)"
| "lit (c # cs) = Seq (Chr (Is c)) (lit cs)"

fun seq :: "rx list \<Rightarrow> rx" where
  "seq [] = Empty"
| "seq [r] = r"
| "seq (r # rs) = Seq r (seq rs)"

text \<open>The shortest length a match can have.\<close>

fun min_len :: "rx \<Rightarrow> nat" where
  "min_len Empty = 0"
| "min_len (Chr c) = 1"
| "min_len (Rep n c) = n"
| "min_len (Seq a b) = min_len a + min_len b"
| "min_len (Alt a b) = min (min_len a) (min_len b)"

lemma ends_bounds: "k \<in> set (ends db r s) \<Longrightarrow> min_len r \<le> k \<and> k \<le> length s"
proof (induction r arbitrary: s k)
  case (Rep n c)
  then show ?case using length_takeWhile_le [of "in_class db c" s] by auto
next
  case (Seq a b)
  then show ?case by fastforce
next
  case (Alt a b)
  then show ?case by fastforce
qed (auto split: list.splits if_splits)

lemma match_at_bounds: "match_at db r s = Some k \<Longrightarrow> min_len r \<le> k \<and> k \<le> length s"
  using ends_bounds [of k db r s] by (auto simp: match_at_def split: list.splits)

text \<open>The classes a nonempty match can start with.\<close>

fun firsts_of :: "rx \<Rightarrow> cclass list" where
  "firsts_of Empty = []"
| "firsts_of (Chr c) = [c]"
| "firsts_of (Rep n c) = [c]"
| "firsts_of (Seq a b) = (if min_len a = 0 then firsts_of a @ firsts_of b else firsts_of a)"
| "firsts_of (Alt a b) = firsts_of a @ firsts_of b"

lemma ends_first_class:
  "k \<in> set (ends db r s) \<Longrightarrow> 0 < k \<Longrightarrow> \<exists>c \<in> set (firsts_of r). \<exists>x xs. s = x # xs \<and> in_class db c x"
proof (induction r arbitrary: s k)
  case (Rep n c)
  then have "takeWhile (in_class db c) s \<noteq> []" by auto
  then show ?case by (cases s) (auto split: if_splits)
next
  case (Seq a b)
  then obtain i j where ij: "i \<in> set (ends db a s)" "j \<in> set (ends db b (drop i s))" "k = i + j"
    by auto
  show ?case
  proof (cases "i = 0")
    case True
    then have "min_len a = 0" using ends_bounds [OF ij(1)] by simp
    then show ?thesis using Seq.IH(2) [OF ij(2)] ij(3) Seq.prems(2) True by auto
  next
    case False
    then show ?thesis using Seq.IH(1) [OF ij(1)] by auto
  qed
next
  case (Alt a b)
  then show ?case by fastforce
qed (auto split: list.splits if_splits)

end
