(* ===== verification/Parser.thy ===== *)
theory Parser
  imports Regex Clause_Tree
begin

text \<open>
  The markdown-to-clause-tree parser: \<open>core/alignment/config.py\<close> and
  \<open>core/alignment/parser.py\<close>. The mutable \<open>_MutClause\<close> objects live in a heap, a list whose
  positions are the object identities; a node's \<open>children\<close> and the builder's \<open>_stack\<close> hold
  positions, so the stack and the tree share nodes as in the code. The markdown-it token
  stream is the parser's input; an outcome \<open>NoReturn\<close> is a loop that the code never leaves.
\<close>

section \<open>Configuration\<close>

record structural_pattern =
  sp_name :: string
  sp_regex :: rx
  sp_depth :: int
  requires_boundary :: bool

record ignore_pattern =
  ip_name :: string
  ip_regex :: rx

record parser_config =
  patterns :: "structural_pattern list"
  ignore_patterns :: "ignore_pattern list"
  treat_unmatched_bold_as_heading :: bool
  heading_depth_offset :: int

definition roman :: "nat list" where
  "roman = u ''ivxlcdm''"

definition default_patterns :: "structural_pattern list" where
  "default_patterns =
    [\<lparr>sp_name = ''ie_part'', sp_regex = seq [lit (u ''PART''), Rep 1 USpace, Rep 1 UDigit],
       sp_depth = 1, requires_boundary = False\<rparr>,
     \<lparr>sp_name = ''cz_cast'', sp_regex = seq [lit [268, 193, 83, 84], Rep 1 USpace, Rep 1 UNonSpace],
       sp_depth = 1, requires_boundary = False\<rparr>,
     \<lparr>sp_name = ''cz_clanek'', sp_regex = seq [lit [268, 108, 46], Rep 1 USpace, Rep 1 (OneOf (u ''IVXLCDM''))],
       sp_depth = 2, requires_boundary = False\<rparr>,
     \<lparr>sp_name = ''section'', sp_regex = seq [Rep 1 UDigit, Alt (Chr (InRange 65 90)) Empty, lit (u ''.'')],
       sp_depth = 4, requires_boundary = True\<rparr>,
     \<lparr>sp_name = ''subsection'', sp_regex = seq [lit (u ''(''), Rep 1 UDigit, lit (u '')'')],
       sp_depth = 5, requires_boundary = True\<rparr>,
     \<lparr>sp_name = ''roman_subpara'',
       sp_regex = seq [lit (u ''(''), Alt (Rep 1 (Is 105)) (Rep 2 (OneOf roman)), lit (u '')'')],
       sp_depth = 7, requires_boundary = True\<rparr>,
     \<lparr>sp_name = ''letter_para'', sp_regex = seq [lit (u ''(''), Chr (InRange 97 122), lit (u '')'')],
       sp_depth = 6, requires_boundary = True\<rparr>]"

definition default_parser_config :: parser_config where
  "default_parser_config =
     \<lparr>patterns = default_patterns, ignore_patterns = [],
      treat_unmatched_bold_as_heading = True, heading_depth_offset = 0\<rparr>"

section \<open>Tokens\<close>

datatype inline_tok = StrongOpen | StrongClose | Text ustr | Break | CodeInline ustr | OtherInline

text \<open>
  A block token: an opening paragraph or heading (with the level of its \<open>h<n>\<close> tag), an
  inline token with its children, an HTML or code block with its content, or any other.
\<close>

datatype token = ParagraphOpen | HeadingOpen int | Inline "inline_tok list" | Loose ustr | OtherTok

fun token_children :: "token \<Rightarrow> inline_tok list" where
  "token_children (Inline cs) = cs"
| "token_children _ = []"

section \<open>Inline text and bold spans\<close>

fun extract_from :: "inline_tok list \<Rightarrow> nat \<Rightarrow> nat \<Rightarrow> ustr \<times> (nat \<times> nat) list" where
  "extract_from [] start pos = ([], [])"
| "extract_from (c # cs) start pos =
     (case c of
        StrongOpen \<Rightarrow> extract_from cs pos pos
      | StrongClose \<Rightarrow> (let (t, r) = extract_from cs start pos in (t, (start, pos) # r))
      | Text s \<Rightarrow> (let (t, r) = extract_from cs start (pos + length s) in (s @ t, r))
      | Break \<Rightarrow> (let (t, r) = extract_from cs start (pos + 1) in (32 # t, r))
      | CodeInline s \<Rightarrow> (let (t, r) = extract_from cs start (pos + length s) in (s @ t, r))
      | OtherInline \<Rightarrow> extract_from cs start pos)"

definition extract_inline :: "token \<Rightarrow> ustr \<times> (nat \<times> nat) list" where
  "extract_inline tok = extract_from (token_children tok) 0 0"

definition inside_bold :: "(nat \<times> nat) list \<Rightarrow> nat \<Rightarrow> bool" where
  "inside_bold ranges i \<longleftrightarrow> (\<exists>(s, e) \<in> set ranges. s \<le> i \<and> i < e)"

definition is_bold_only :: "ustr \<Rightarrow> (nat \<times> nat) list \<Rightarrow> bool" where
  "is_bold_only text ranges \<longleftrightarrow>
     (\<forall>(i, ch) \<in> set (List.enumerate 0 text). isspace ch \<or> inside_bold ranges i)
     \<and> (\<exists>ch \<in> set text. \<not> isspace ch)"

section \<open>Structural matches\<close>

definition terminators :: "nat list" where
  "terminators = [46, 33, 63, 59, 58, 41, 34, 8220, 8221, 8222, 8212]"

definition has_boundary_before :: "ustr \<Rightarrow> nat \<Rightarrow> bool" where
  "has_boundary_before text pos \<longleftrightarrow>
     pos = 0 \<or> (isspace (text ! (pos - 1))
       \<and> (case dropWhile isspace (rev (take (pos - 1) text)) of
            [] \<Rightarrow> True | c # _ \<Rightarrow> c \<in> set terminators))"

fun first_hit :: "unidb \<Rightarrow> ustr \<Rightarrow> nat \<Rightarrow> structural_pattern list \<Rightarrow> (structural_pattern \<times> nat) option" where
  "first_hit db text pos [] = None"
| "first_hit db text pos (p # ps) =
     (case match_at db (sp_regex p) (drop pos text) of
        None \<Rightarrow> first_hit db text pos ps
      | Some k \<Rightarrow>
          if requires_boundary p \<and> \<not> has_boundary_before text pos then first_hit db text pos ps
          else Some (p, pos + k))"

text \<open>
  The scan from \<open>pos\<close>. A hit that ends where it starts is found again at the same position:
  the loop never ends.
\<close>

function find_matches_from ::
  "unidb \<Rightarrow> ustr \<Rightarrow> structural_pattern list \<Rightarrow> nat \<Rightarrow> (structural_pattern \<times> nat \<times> nat) list result" where
  "find_matches_from db text ps pos =
     (if pos < length text then
        (case first_hit db text pos ps of
           None \<Rightarrow> find_matches_from db text ps (pos + 1)
         | Some (p, e) \<Rightarrow>
             if e \<le> pos then Inl NoReturn
             else bindE (find_matches_from db text ps e) (\<lambda>ms. Inr ((p, pos, e) # ms)))
      else Inr [])"
  by pat_completeness auto
termination
  by (relation "measure (\<lambda>(db, text, ps, pos). length text - pos)") auto

declare find_matches_from.simps [simp del]

definition find_matches ::
  "unidb \<Rightarrow> ustr \<Rightarrow> structural_pattern list \<Rightarrow> (structural_pattern \<times> nat \<times> nat) list result" where
  "find_matches db text ps = find_matches_from db text ps 0"

section \<open>Path segments\<close>

text \<open>Decimal digits of a natural number, as an f-string renders it.\<close>

fun dec :: "nat \<Rightarrow> ustr" where
  "dec n = (if n < 10 then [48 + n] else dec (n div 10) @ [48 + n mod 10])"

declare dec.simps [simp del]

text \<open>\<open>re.sub(r"[^\w]+", "-", s)\<close>: each maximal run of other characters becomes one dash.\<close>

function sub_nonword :: "(nat \<Rightarrow> bool) \<Rightarrow> ustr \<Rightarrow> ustr" where
  "sub_nonword w [] = []"
| "sub_nonword w (c # cs) =
     (if w c then c # sub_nonword w cs
      else 45 # sub_nonword w (dropWhile (\<lambda>d. \<not> w d) cs))"
  by pat_completeness auto
termination
  by (relation "measure (\<lambda>(w, s). length s)") (auto simp: le_imp_less_Suc length_dropWhile_le)

definition strip_dash :: "ustr \<Rightarrow> ustr" where
  "strip_dash s = rev (dropWhile (\<lambda>c. c = 45) (rev (dropWhile (\<lambda>c. c = 45) s)))"

definition slugify :: "unidb \<Rightarrow> ustr \<Rightarrow> ustr" where
  "slugify db text = take 64 (strip_dash (sub_nonword (uni_word db) (str_lower db (strip text))))"

definition hash_seg :: "nat \<Rightarrow> ustr" where
  "hash_seg n = 35 # dec n"

definition suffixed :: "ustr \<Rightarrow> nat \<Rightarrow> ustr" where
  "suffixed segment n = segment @ 45 # dec n"

section \<open>Rendered numbers are injective\<close>

definition undec :: "ustr \<Rightarrow> nat" where
  "undec s = foldl (\<lambda>a c. a * 10 + (c - 48)) 0 s"

lemma undec_dec: "undec (dec n) = n"
proof (induction n rule: dec.induct)
  case (1 n)
  show ?case
  proof (cases "n < 10")
    case True
    then show ?thesis by (subst dec.simps) (simp add: undec_def)
  next
    case False
    then have "undec (dec (n div 10)) = n div 10" by (rule 1)
    then show ?thesis using False by (subst dec.simps) (simp add: undec_def)
  qed
qed

lemma dec_inject [simp]: "dec m = dec n \<longleftrightarrow> m = n"
  by (metis undec_dec)

lemma dec_digits: "\<forall>c \<in> set (dec n). 48 \<le> c \<and> c \<le> 57"
proof (induction n rule: dec.induct)
  case (1 n)
  show ?case
  proof (cases "n < 10")
    case False
    then show ?thesis using 1 by (subst dec.simps) auto
  qed (subst dec.simps, simp)
qed

lemma dec_nonempty [simp]: "dec n \<noteq> []"
  by (subst dec.simps) simp

lemma suffixed_inject [simp]: "suffixed s m = suffixed s n \<longleftrightarrow> m = n"
  by (simp add: suffixed_def)

lemma hash_seg_inject [simp]: "hash_seg m = hash_seg n \<longleftrightarrow> m = n"
  by (simp add: hash_seg_def)

text \<open>
  The candidates \<open>-2\<close>, \<open>-3\<close>, \dots are tried until one is free; finitely many are taken, so
  the loop ends.
\<close>

function free_suffix :: "ustr \<Rightarrow> ustr list \<Rightarrow> nat \<Rightarrow> ustr" where
  "free_suffix segment taken n =
     (if suffixed segment n \<in> set taken then free_suffix segment taken (Suc n) else suffixed segment n)"
  by pat_completeness auto
termination
proof (relation "measure (\<lambda>(segment, taken, n). card {k. n \<le> k \<and> suffixed segment k \<in> set taken})")
  fix segment taken n
  assume "suffixed segment n \<in> set taken"
  have fin: "finite {k. n \<le> k \<and> suffixed segment k \<in> set taken}"
    by (rule finite_subset [OF _ finite_vimageI [OF finite_set, of "suffixed segment" taken]])
      (auto simp: inj_def)
  have "{k. Suc n \<le> k \<and> suffixed segment k \<in> set taken} \<subset> {k. n \<le> k \<and> suffixed segment k \<in> set taken}"
  proof (rule psubsetI)
    show "{k. Suc n \<le> k \<and> suffixed segment k \<in> set taken} \<noteq> {k. n \<le> k \<and> suffixed segment k \<in> set taken}"
    proof
      assume eq: "{k. Suc n \<le> k \<and> suffixed segment k \<in> set taken} = {k. n \<le> k \<and> suffixed segment k \<in> set taken}"
      have "n \<in> {k. n \<le> k \<and> suffixed segment k \<in> set taken}"
        using \<open>suffixed segment n \<in> set taken\<close> by simp
      then have "n \<in> {k. Suc n \<le> k \<and> suffixed segment k \<in> set taken}" by (simp only: eq)
      then show False by simp
    qed
  qed auto
  from psubset_card_mono [OF fin this]
  show "((segment, taken, Suc n), segment, taken, n)
      \<in> measure (\<lambda>(segment, taken, n). card {k. n \<le> k \<and> suffixed segment k \<in> set taken})" by simp
qed simp

declare free_suffix.simps [simp del]

definition disambiguate_segment :: "ustr \<Rightarrow> ustr list \<Rightarrow> ustr" where
  "disambiguate_segment segment taken =
     (if segment \<notin> set taken then segment else free_suffix segment taken 2)"

section \<open>The tree builder\<close>

record mclause =
  mc_depth :: int
  mc_path :: cpath
  mc_heading :: "ustr option"
  mc_body :: "ustr list"
  mc_label :: "ustr option"
  mc_children :: "nat list"

text \<open>The stack's top is its first element; the root object is at position 0.\<close>

record builder =
  b_heap :: "mclause list"
  b_stack :: "nat list"
  b_pending :: "ustr option"

definition new_builder :: builder where
  "new_builder =
     \<lparr>b_heap = [\<lparr>mc_depth = 0, mc_path = [], mc_heading = None, mc_body = [], mc_label = None,
                 mc_children = []\<rparr>],
      b_stack = [0], b_pending = None\<rparr>"

definition top :: "builder \<Rightarrow> nat" where
  "top b = hd (b_stack b)"

definition node :: "builder \<Rightarrow> nat \<Rightarrow> mclause" where
  "node b a = b_heap b ! a"

definition taken_segments :: "builder \<Rightarrow> nat \<Rightarrow> ustr list" where
  "taken_segments b a =
     map last (filter (\<lambda>p. p \<noteq> []) (map (\<lambda>c. mc_path (node b c)) (mc_children (node b a))))"

text \<open>Allocate a node and append it to its parent's children.\<close>

definition append_child :: "builder \<Rightarrow> nat \<Rightarrow> mclause \<Rightarrow> builder" where
  "append_child b parent n =
     b\<lparr>b_heap := (b_heap b)[parent := (node b parent)
          \<lparr>mc_children := mc_children (node b parent) @ [length (b_heap b)]\<rparr>] @ [n]\<rparr>"

fun pop_stack :: "mclause list \<Rightarrow> int \<Rightarrow> nat list \<Rightarrow> nat list" where
  "pop_stack heap depth (a # b # st) =
     (if depth \<le> mc_depth (heap ! a) then pop_stack heap depth (b # st) else a # b # st)"
| "pop_stack heap depth st = st"

definition open_clause ::
  "unidb \<Rightarrow> int \<Rightarrow> ustr option \<Rightarrow> ustr \<Rightarrow> ustr option \<Rightarrow> builder \<Rightarrow> builder result" where
  "open_clause db depth label body explicit_heading b0 =
     (let b1 = b0\<lparr>b_stack := pop_stack (b_heap b0) depth (b_stack b0)\<rparr>;
          parent = top b1;
          heading = (if explicit_heading = None \<and> b_pending b1 \<noteq> None then b_pending b1
                     else explicit_heading);
          b2 = (if explicit_heading = None \<and> b_pending b1 \<noteq> None then b1\<lparr>b_pending := None\<rparr> else b1);
          ord_idx = length (mc_children (node b2 parent)) + 1
      in bindE
           (case label of
              Some (c # cs) \<Rightarrow> Inr (c # cs)
            | _ \<Rightarrow> (case heading of
                     None \<Rightarrow> Inl AssertionError
                   | Some h \<Rightarrow> Inr (if slugify db h \<noteq> [] then slugify db h else hash_seg ord_idx)))
           (\<lambda>seg0.
             let seg = disambiguate_segment seg0 (taken_segments b2 parent);
                 n = \<lparr>mc_depth = depth, mc_path = mc_path (node b2 parent) @ [seg],
                      mc_heading = heading, mc_body = (if body \<noteq> [] then [body] else []),
                      mc_label = label, mc_children = []\<rparr>;
                 b3 = append_child b2 parent n
             in Inr (b3\<lparr>b_stack := length (b_heap b2) # b_stack b3\<rparr>)))"

definition add_leaf :: "ustr \<Rightarrow> builder \<Rightarrow> builder" where
  "add_leaf body b =
     (let parent = top b; ord_idx = length (mc_children (node b parent)) + 1 in
      append_child b parent
        \<lparr>mc_depth = mc_depth (node b parent) + 1, mc_path = mc_path (node b parent) @ [hash_seg ord_idx],
         mc_heading = None, mc_body = [body], mc_label = None, mc_children = []\<rparr>)"

definition update_node :: "builder \<Rightarrow> nat \<Rightarrow> (mclause \<Rightarrow> mclause) \<Rightarrow> builder" where
  "update_node b a f = b\<lparr>b_heap := (b_heap b)[a := f (node b a)]\<rparr>"

definition absorb_bold_heading :: "ustr \<Rightarrow> builder \<Rightarrow> builder" where
  "absorb_bold_heading text b =
     (let t = node b (top b) in
      if top b = 0 \<or> mc_heading t \<noteq> None \<or> mc_body t \<noteq> [] \<or> mc_children t \<noteq> []
      then b\<lparr>b_pending := Some text\<rparr>
      else update_node b (top b) (\<lambda>n. n\<lparr>mc_heading := Some text\<rparr>))"

text \<open>The loop over the matches: each opens a clause whose body runs to the next match.\<close>

fun open_matches ::
  "unidb \<Rightarrow> ustr \<Rightarrow> (structural_pattern \<times> nat \<times> nat) list \<Rightarrow> builder \<Rightarrow> builder result" where
  "open_matches db text [] b = Inr b"
| "open_matches db text ((p, start, e) # ms) b =
     (let label = strip (drop start (take e text));
          next_start = (case ms of [] \<Rightarrow> length text | (_, s, _) # _ \<Rightarrow> s);
          body = strip (drop e (take next_start text))
      in bindE (open_clause db (sp_depth p) (Some label) body None b) (open_matches db text ms))"

definition consume_paragraph ::
  "unidb \<Rightarrow> parser_config \<Rightarrow> ustr \<Rightarrow> (nat \<times> nat) list \<Rightarrow> builder \<Rightarrow> builder result" where
  "consume_paragraph db cfg text ranges b =
     (let stripped = strip text in
      if \<exists>p \<in> set (ignore_patterns cfg). fullmatch db (ip_regex p) stripped then Inr b
      else bindE (find_matches db text (patterns cfg)) (\<lambda>ms.
        case ms of
          [] \<Rightarrow> Inr (if treat_unmatched_bold_as_heading cfg \<and> is_bold_only text ranges
                     then absorb_bold_heading stripped b else add_leaf stripped b)
        | (_, first_start, _) # _ \<Rightarrow>
            let prefix = strip (take first_start text);
                b' = (if 0 < first_start \<and> prefix \<noteq> [] then add_leaf prefix b else b)
            in open_matches db text ms b'))"

definition consume_heading :: "unidb \<Rightarrow> parser_config \<Rightarrow> int \<Rightarrow> ustr \<Rightarrow> builder \<Rightarrow> builder result" where
  "consume_heading db cfg level text0 b =
     (let text = strip text0 in
      if text = [] then Inr b
      else open_clause db (max 1 (level + heading_depth_offset cfg)) None [] (Some text) b)"

definition consume_loose_text :: "ustr \<Rightarrow> builder \<Rightarrow> builder" where
  "consume_loose_text text b =
     (let stripped = strip text in
      if stripped \<noteq> [] then update_node b (top b) (\<lambda>n. n\<lparr>mc_body := mc_body n @ [stripped]\<rparr>) else b)"

text \<open>\<open>_MutClause.freeze\<close>; the fuel bounds the depth of the object graph.\<close>

definition frozen_body :: "ustr list \<Rightarrow> ustr" where
  "frozen_body parts = join [32] (map strip (filter (\<lambda>p. strip p \<noteq> []) parts))"

fun freeze :: "nat \<Rightarrow> mclause list \<Rightarrow> nat \<Rightarrow> clause result" where
  "freeze 0 heap a = Inl NoReturn"
| "freeze (Suc fuel) heap a =
     bindE (mapE (freeze fuel heap) (mc_children (heap ! a))) (\<lambda>cs.
       Inr (Clause (mc_path (heap ! a)) (mc_heading (heap ! a)) (frozen_body (mc_body (heap ! a)))
              (mc_label (heap ! a)) cs))"

definition finalize :: "builder \<Rightarrow> clause result" where
  "finalize b = freeze (length (b_heap b)) (b_heap b) 0"

section \<open>parse\<close>

text \<open>The token loop: an opening token consumes itself, its inline token and its close.\<close>

function parse_tokens :: "unidb \<Rightarrow> parser_config \<Rightarrow> token list \<Rightarrow> builder \<Rightarrow> builder result" where
  "parse_tokens db cfg [] b = Inr b"
| "parse_tokens db cfg (t # ts) b =
     (case t of
        ParagraphOpen \<Rightarrow>
          (case ts of [] \<Rightarrow> Inl IndexError
           | inl # _ \<Rightarrow>
               let (text, ranges) = extract_inline inl in
               bindE (consume_paragraph db cfg text ranges b) (parse_tokens db cfg (drop 2 ts)))
      | HeadingOpen level \<Rightarrow>
          (case ts of [] \<Rightarrow> Inl IndexError
           | inl # _ \<Rightarrow>
               bindE (consume_heading db cfg level (fst (extract_inline inl)) b)
                 (parse_tokens db cfg (drop 2 ts)))
      | Loose content \<Rightarrow> parse_tokens db cfg ts (consume_loose_text content b)
      | _ \<Rightarrow> parse_tokens db cfg ts b)"
  by pat_completeness auto
termination
  by (relation "measure (\<lambda>(db, cfg, ts, b). length ts)") auto

definition parse :: "unidb \<Rightarrow> parser_config \<Rightarrow> token list \<Rightarrow> clause result" where
  "parse db cfg tokens = bindE (parse_tokens db cfg tokens new_builder) finalize"

end
