(* ===== verification/Parser_Inv.thy ===== *)
theory Parser_Inv
  imports Parser
begin

text \<open>
  The builder's invariant and what it gives: freezing ends, every path extends its parent's
  path by one segment, sibling segments are distinct, so no two clauses of a parsed document
  share a path.
\<close>

section \<open>Segments\<close>

lemma free_suffix_free: "free_suffix s taken n \<notin> set taken"
proof (induction s taken n rule: free_suffix.induct)
  case (1 s taken n)
  show ?case
    by (cases "suffixed s n \<in> set taken") (use 1 in \<open>simp_all add: free_suffix.simps [of s taken n]\<close>)
qed

lemma free_suffix_shape: "\<exists>k. free_suffix s taken n = suffixed s k"
proof (induction s taken n rule: free_suffix.induct)
  case (1 s taken n)
  show ?case
    by (cases "suffixed s n \<in> set taken") (use 1 in \<open>auto simp: free_suffix.simps [of s taken n]\<close>)
qed

lemma disambiguate_fresh: "disambiguate_segment s taken \<notin> set taken"
  by (simp add: disambiguate_segment_def free_suffix_free)

text \<open>The first occurrence keeps its segment; a later one keeps its first character.\<close>

lemma disambiguate_first: "s \<notin> set taken \<Longrightarrow> disambiguate_segment s taken = s"
  by (simp add: disambiguate_segment_def)

lemma disambiguate_head:
  assumes "s \<noteq> []"
  shows "disambiguate_segment s taken \<noteq> []" and "hd (disambiguate_segment s taken) = hd s"
proof -
  obtain k where "free_suffix s taken 2 = suffixed s k" using free_suffix_shape by blast
  then show "disambiguate_segment s taken \<noteq> []" and "hd (disambiguate_segment s taken) = hd s"
    using assms by (auto simp: disambiguate_segment_def suffixed_def)
qed

section \<open>The invariant\<close>

text \<open>
  A segment of the \<open>m\<close>-th child is the ordinal form \<open>#m\<close> or does not start with \<open>#\<close>; this
  is what keeps the undisambiguated leaf segments apart from the others.
\<close>

definition seg_ok :: "nat \<Rightarrow> ustr \<Rightarrow> bool" where
  "seg_ok m s \<longleftrightarrow> s = hash_seg (Suc m) \<or> (s \<noteq> [] \<and> hd s \<noteq> 35)"

definition heap_ok :: "mclause list \<Rightarrow> bool" where
  "heap_ok h \<longleftrightarrow> (\<forall>a < length h.
     (\<forall>c \<in> set (mc_children (h ! a)). a < c \<and> c < length h)
     \<and> (\<forall>m < length (mc_children (h ! a)).
          \<exists>s. mc_path (h ! (mc_children (h ! a) ! m)) = mc_path (h ! a) @ [s] \<and> seg_ok m s)
     \<and> distinct (map (\<lambda>c. mc_path (h ! c)) (mc_children (h ! a))))"

lemma heap_okD:
  assumes "heap_ok h" "a < length h"
  shows "\<forall>c \<in> set (mc_children (h ! a)). a < c \<and> c < length h"
    and "m < length (mc_children (h ! a)) \<Longrightarrow>
      \<exists>s. mc_path (h ! (mc_children (h ! a) ! m)) = mc_path (h ! a) @ [s] \<and> seg_ok m s"
    and "distinct (map (\<lambda>c. mc_path (h ! c)) (mc_children (h ! a)))"
  using assms unfolding heap_ok_def by blast+

definition builder_ok :: "builder \<Rightarrow> bool" where
  "builder_ok b \<longleftrightarrow> heap_ok (b_heap b) \<and> b_heap b \<noteq> [] \<and> mc_path (b_heap b ! 0) = []
     \<and> b_stack b \<noteq> [] \<and> (\<forall>a \<in> set (b_stack b). a < length (b_heap b))"

lemma builder_ok_new: "builder_ok new_builder"
  by (simp add: builder_ok_def heap_ok_def new_builder_def)

lemma builder_ok_top: "builder_ok b \<Longrightarrow> top b < length (b_heap b)"
  by (simp add: builder_ok_def top_def)

lemma heap_ok_update:
  assumes "heap_ok h" "mc_path n = mc_path (h ! a)" "mc_children n = mc_children (h ! a)"
  shows "heap_ok (h[a := n])"
proof (cases "a < length h")
  case True
  have p: "mc_path (h[a := n] ! c) = mc_path (h ! c)" for c
    using assms(2) True by (simp add: nth_list_update)
  have c: "mc_children (h[a := n] ! c) = mc_children (h ! c)" for c
    using assms(3) True by (simp add: nth_list_update)
  show ?thesis using assms(1) unfolding heap_ok_def p c length_list_update .
qed (use assms in \<open>simp add: list_update_beyond\<close>)

lemma builder_ok_update_node:
  assumes "builder_ok b" "\<And>n. mc_path (f n) = mc_path n" "\<And>n. mc_children (f n) = mc_children n"
  shows "builder_ok (update_node b a f)"
proof -
  have "heap_ok ((b_heap b)[a := f (node b a)])"
    using assms by (intro heap_ok_update) (simp_all add: builder_ok_def node_def)
  moreover have "mc_path ((b_heap b)[a := f (node b a)] ! 0) = []"
    using assms by (cases "a = 0") (auto simp: builder_ok_def node_def nth_list_update)
  ultimately show ?thesis using assms(1) by (simp add: builder_ok_def update_node_def)
qed

text \<open>Appending a child with a fresh, well-formed segment keeps the invariant.\<close>

lemma heap_ok_append_child:
  assumes "heap_ok h" "p < length h" "mc_children n = []"
    and "mc_path n = mc_path (h ! p) @ [s]" "seg_ok (length (mc_children (h ! p))) s"
    and "\<forall>c \<in> set (mc_children (h ! p)). mc_path (h ! c) \<noteq> mc_path n"
  shows "heap_ok (h[p := (h ! p)\<lparr>mc_children := mc_children (h ! p) @ [length h]\<rparr>] @ [n])"
    (is "heap_ok ?h")
  unfolding heap_ok_def
proof (intro allI impI)
  fix a assume a: "a < length ?h"
  have len: "length ?h = Suc (length h)" by simp
  have new: "?h ! length h = n" by (simp add: nth_append)
  have path_old: "mc_path (?h ! c) = mc_path (h ! c)" if "c < length h" for c
    using that assms(2) by (auto simp: nth_append nth_list_update)
  have old: "\<forall>c \<in> set (mc_children (h ! c0)). c0 < c \<and> c < length h" if "c0 < length h" for c0
    using heap_okD(1) [OF assms(1) that] .
  have "a = length h \<or> a = p \<or> (a < length h \<and> a \<noteq> p)" using a by auto
  then consider (new) "a = length h" | (parent) "a = p" | (other) "a < length h" "a \<noteq> p"
    by blast
  then show "(\<forall>c \<in> set (mc_children (?h ! a)). a < c \<and> c < length ?h)
     \<and> (\<forall>m < length (mc_children (?h ! a)).
          \<exists>s. mc_path (?h ! (mc_children (?h ! a) ! m)) = mc_path (?h ! a) @ [s] \<and> seg_ok m s)
     \<and> distinct (map (\<lambda>c. mc_path (?h ! c)) (mc_children (?h ! a)))"
  proof cases
    case new
    then show ?thesis using assms(3) \<open>?h ! length h = n\<close> by simp
  next
    case other
    then have ch: "mc_children (?h ! a) = mc_children (h ! a)" by (simp add: nth_append)
    have inb: "mc_children (h ! a) ! m < length h" if "m < length (mc_children (h ! a))" for m
      using old [OF other(1)] that by simp
    have maps: "map (\<lambda>c. mc_path (?h ! c)) (mc_children (h ! a)) = map (\<lambda>c. mc_path (h ! c)) (mc_children (h ! a))"
      using old [OF other(1)] path_old by (intro map_cong) auto
    have 3: "distinct (map (\<lambda>c. mc_path (?h ! c)) (mc_children (?h ! a)))"
      unfolding ch maps by (rule heap_okD(3) [OF assms(1) other(1)])
    have 2: "\<exists>s. mc_path (?h ! (mc_children (?h ! a) ! m)) = mc_path (?h ! a) @ [s] \<and> seg_ok m s"
      if "m < length (mc_children (?h ! a))" for m
      using heap_okD(2) [OF assms(1) other(1), of m] that inb [of m] unfolding ch
      by (simp add: path_old other(1))
    have 1: "\<forall>c \<in> set (mc_children (?h ! a)). a < c \<and> c < length ?h"
      unfolding ch len using old [OF other(1)] by (auto intro: less_SucI)
    show ?thesis using 1 2 3 by blast
  next
    case parent
    have ch: "mc_children (?h ! p) = mc_children (h ! p) @ [length h]"
      using assms(2) by (simp add: nth_append)
    have inb: "mc_children (h ! p) ! m < length h" if "m < length (mc_children (h ! p))" for m
      using old [OF assms(2)] that by simp
    have paths: "map (\<lambda>c. mc_path (?h ! c)) (mc_children (h ! p)) = map (\<lambda>c. mc_path (h ! c)) (mc_children (h ! p))"
      using old [OF assms(2)] path_old by (intro map_cong) auto
    have 1: "\<forall>c \<in> set (mc_children (?h ! p)). p < c \<and> c < length ?h"
      unfolding ch using old [OF assms(2)] assms(2) by (auto intro: less_SucI)
    have 2: "\<exists>s. mc_path (?h ! (mc_children (?h ! p) ! m)) = mc_path (?h ! p) @ [s] \<and> seg_ok m s"
      if "m < length (mc_children (?h ! p))" for m
    proof (cases "m < length (mc_children (h ! p))")
      case True
      then show ?thesis
        using heap_okD(2) [OF assms(1,2) True] path_old [OF inb [OF True]] path_old [OF assms(2)]
        unfolding ch by (simp add: nth_append_left)
    next
      case False
      then have "m = length (mc_children (h ! p))" using that unfolding ch by simp
      then show ?thesis
        unfolding ch path_old [OF assms(2)] using new assms(4,5) by (auto simp: nth_append)
    qed
    have "distinct (map (\<lambda>c. mc_path (h ! c)) (mc_children (h ! p)))"
      by (rule heap_okD(3) [OF assms(1,2)])
    then have 3: "distinct (map (\<lambda>c. mc_path (?h ! c)) (mc_children (?h ! p)))"
      unfolding ch map_append distinct_append paths using new assms(6) by auto
    show ?thesis unfolding parent using 1 2 3 by blast
  qed
qed

lemma builder_ok_append_child:
  assumes "builder_ok b" "p < length (b_heap b)" "mc_children n = []"
    and "mc_path n = mc_path (node b p) @ [s]" "seg_ok (length (mc_children (node b p))) s"
    and "s \<notin> set (taken_segments b p)"
  shows "builder_ok (append_child b p n)"
proof -
  have ok: "heap_ok (b_heap b)" using assms(1) by (simp add: builder_ok_def)
  have "mc_path (b_heap b ! c) \<noteq> mc_path n" if c: "c \<in> set (mc_children (b_heap b ! p))" for c
  proof
    assume eq: "mc_path (b_heap b ! c) = mc_path n"
    then have "mc_path (node b c) \<noteq> []" "last (mc_path (node b c)) = s"
      using assms(4) by (simp_all add: node_def)
    then have "s \<in> set (taken_segments b p)"
      using c by (force simp: taken_segments_def node_def)
    then show False using assms(6) by simp
  qed
  then have "heap_ok ((b_heap b)[p := (b_heap b ! p)
      \<lparr>mc_children := mc_children (b_heap b ! p) @ [length (b_heap b)]\<rparr>] @ [n])"
    using assms ok by (intro heap_ok_append_child) (simp_all add: node_def)
  moreover have "mc_path ((b_heap b)[p := (b_heap b ! p)
      \<lparr>mc_children := mc_children (b_heap b ! p) @ [length (b_heap b)]\<rparr>] ! 0) = []"
    using assms(1,2) by (cases "p = 0") (auto simp: builder_ok_def nth_list_update)
  ultimately show ?thesis
    using assms(1) by (auto simp: builder_ok_def append_child_def node_def nth_append less_SucI)
qed

text \<open>The ordinal segment of a new child is never taken.\<close>

lemma hash_seg_fresh:
  assumes "builder_ok b" "p < length (b_heap b)"
  shows "hash_seg (length (mc_children (node b p)) + 1) \<notin> set (taken_segments b p)"
proof
  assume "hash_seg (length (mc_children (node b p)) + 1) \<in> set (taken_segments b p)"
  then obtain m where m: "m < length (mc_children (node b p))"
    "hash_seg (length (mc_children (node b p)) + 1) = last (mc_path (node b (mc_children (node b p) ! m)))"
    by (auto simp: taken_segments_def in_set_conv_nth)
  obtain s where "mc_path (node b (mc_children (node b p) ! m)) = mc_path (node b p) @ [s]" "seg_ok m s"
    using assms m(1) unfolding builder_ok_def heap_ok_def node_def by blast
  then have "seg_ok m (hash_seg (length (mc_children (node b p)) + 1))" using m(2) by simp
  then show False using m(1) by (simp add: seg_ok_def) (simp add: hash_seg_def)
qed

section \<open>Labels\<close>

text \<open>
  A configuration is plain when every pattern matches at least one character and starts with
  one that is neither whitespace nor \<open>#\<close>.
\<close>

fun plain_class :: "cclass \<Rightarrow> bool" where
  "plain_class (Is n) = (n \<noteq> 35 \<and> \<not> isspace n)"
| "plain_class (InRange a b) = (\<forall>n \<in> {a..b}. n \<noteq> 35 \<and> \<not> isspace n)"
| "plain_class (OneOf cs) = (\<forall>n \<in> set cs. n \<noteq> 35 \<and> \<not> isspace n)"
| "plain_class UDigit = True"
| "plain_class _ = False"

definition plain_config :: "parser_config \<Rightarrow> bool" where
  "plain_config cfg \<longleftrightarrow> (\<forall>p \<in> set (patterns cfg). 0 < min_len (sp_regex p)
     \<and> (\<forall>c \<in> set (firsts_of (sp_regex p)). plain_class c))"

lemma plain_default_config: "plain_config default_parser_config"
  by (simp add: plain_config_def default_parser_config_def default_patterns_def u_def isspace_def)

lemma plain_class_char:
  assumes "unidb_ok db" "plain_class c" "in_class db c x"
  shows "x \<noteq> 35 \<and> \<not> isspace x"
proof (cases c)
  case UDigit
  moreover have "\<not> uni_digit db 35" using assms(1) by (auto simp: unidb_ok_def)
  ultimately show ?thesis using assms by (auto simp: unidb_ok_def)
qed (use assms in auto)

lemma strip_Cons_nonspace:
  assumes "\<not> isspace x"
  shows "\<exists>ys. strip (x # xs) = x # ys"
proof -
  have d: "dropWhile isspace (rev xs @ [x]) = dropWhile isspace (rev xs) @ [x]"
    using assms by (induction "rev xs" arbitrary: xs) (auto simp: dropWhile_append)
  have "strip (x # xs) = rev (dropWhile isspace (rev xs @ [x]))"
    using assms by (simp add: strip_def lstrip_def rstrip_def)
  then show ?thesis by (simp add: d)
qed

definition plain_label :: "ustr \<Rightarrow> bool" where
  "plain_label s \<longleftrightarrow> s \<noteq> [] \<and> hd s \<noteq> 35"

lemma match_label_plain:
  assumes "unidb_ok db" "plain_config cfg" "p \<in> set (patterns cfg)"
    and "match_at db (sp_regex p) s = Some k"
  shows "0 < k" and "plain_label (strip (take k s))"
proof -
  have min: "0 < min_len (sp_regex p)" and first: "\<forall>c \<in> set (firsts_of (sp_regex p)). plain_class c"
    using assms(2,3) by (auto simp: plain_config_def)
  show k: "0 < k" using match_at_bounds [OF assms(4)] min by simp
  have "k \<in> set (ends db (sp_regex p) s)"
    using assms(4) by (auto simp: match_at_def split: list.splits)
  then obtain c x xs where c: "c \<in> set (firsts_of (sp_regex p))" "s = x # xs" "in_class db c x"
    using ends_first_class k by blast
  then have x: "x \<noteq> 35 \<and> \<not> isspace x" using plain_class_char [OF assms(1)] first by blast
  then obtain ys where "strip (x # take (k - 1) xs) = x # ys" using strip_Cons_nonspace by blast
  then show "plain_label (strip (take k s))"
    using c(2) k x by (cases k) (simp_all add: plain_label_def)
qed

section \<open>The scan\<close>

definition hit_ok :: "unidb \<Rightarrow> ustr \<Rightarrow> structural_pattern list \<Rightarrow> structural_pattern \<times> nat \<times> nat \<Rightarrow> bool" where
  "hit_ok db text ps m \<longleftrightarrow> (case m of (p, s, e) \<Rightarrow> p \<in> set ps \<and> s < e \<and> e \<le> length text
     \<and> match_at db (sp_regex p) (drop s text) = Some (e - s)
     \<and> (requires_boundary p \<longrightarrow> has_boundary_before text s))"

lemma first_hit_Some:
  "first_hit db text pos ps = Some (p, e) \<Longrightarrow> p \<in> set ps \<and> pos \<le> e
     \<and> match_at db (sp_regex p) (drop pos text) = Some (e - pos)
     \<and> (requires_boundary p \<longrightarrow> has_boundary_before text pos)"
  by (induction ps) (auto split: option.splits if_splits)

lemma find_matches_from_spec:
  assumes "\<forall>p \<in> set ps. 0 < min_len (sp_regex p)" "pos \<le> length text"
  shows "\<exists>ms. find_matches_from db text ps pos = Inr ms \<and> (\<forall>m \<in> set ms. hit_ok db text ps m)
     \<and> sorted_wrt (\<lambda>m m'. snd (snd m) \<le> fst (snd m')) ms \<and> (\<forall>m \<in> set ms. pos \<le> fst (snd m))"
  using assms(2)
proof (induction "length text - pos" arbitrary: pos rule: less_induct)
  case less
  show ?case
  proof (cases "pos < length text")
    case False
    then show ?thesis by (simp add: find_matches_from.simps)
  next
    case pos: True
    show ?thesis
    proof (cases "first_hit db text pos ps")
      case None
      obtain ms where ms: "find_matches_from db text ps (pos + 1) = Inr ms" "\<forall>m \<in> set ms. hit_ok db text ps m"
        "sorted_wrt (\<lambda>m m'. snd (snd m) \<le> fst (snd m')) ms" "\<forall>m \<in> set ms. pos + 1 \<le> fst (snd m)"
      proof -
        have "length text - (pos + 1) < length text - pos" "pos + 1 \<le> length text" using pos by auto
        from less.hyps [OF this] show ?thesis using that by blast
      qed
      have "find_matches_from db text ps pos = Inr ms"
        using pos None ms(1) by (simp add: find_matches_from.simps [of db "text" ps pos])
      moreover have "\<forall>m \<in> set ms. pos \<le> fst (snd m)" using ms(4) by (auto dest: Suc_leD)
      ultimately show ?thesis using ms(2,3) by blast
    next
      case (Some h)
      obtain p e where h: "h = (p, e)" by (cases h)
      have hit: "p \<in> set ps" "pos \<le> e" "match_at db (sp_regex p) (drop pos text) = Some (e - pos)"
        "requires_boundary p \<longrightarrow> has_boundary_before text pos"
        using first_hit_Some Some h by blast+
      have "0 < min_len (sp_regex p)" using hit(1) assms(1) by blast
      then have e: "pos < e" "e \<le> length text"
        using match_at_bounds [OF hit(3)] pos hit(2) by auto
      obtain ms where ms: "find_matches_from db text ps e = Inr ms" "\<forall>m \<in> set ms. hit_ok db text ps m"
        "sorted_wrt (\<lambda>m m'. snd (snd m) \<le> fst (snd m')) ms" "\<forall>m \<in> set ms. e \<le> fst (snd m)"
      proof -
        have "length text - e < length text - pos" using e pos by auto
        from less.hyps [OF this e(2)] show ?thesis using that by blast
      qed
      have "find_matches_from db text ps pos = Inr ((p, pos, e) # ms)"
        using pos Some h e(1) ms(1) by (simp add: find_matches_from.simps [of db "text" ps pos])
      moreover have "hit_ok db text ps (p, pos, e)" using hit e by (simp add: hit_ok_def)
      moreover have "\<forall>m \<in> set ms. pos \<le> fst (snd m)" using ms(4) e(1) by force
      ultimately show ?thesis using ms by (intro exI [of _ "(p, pos, e) # ms"]) auto
    qed
  qed
qed

section \<open>The operations keep the invariant\<close>

lemma pop_stack_subset: "st \<noteq> [] \<Longrightarrow> pop_stack h d st \<noteq> [] \<and> set (pop_stack h d st) \<subseteq> set st"
  by (induction h d st rule: pop_stack.induct) auto

lemma sub_nonword_chars: "c \<in> set (sub_nonword w s) \<Longrightarrow> w c \<or> c = 45"
  by (induction w s rule: sub_nonword.induct) (auto split: if_splits)

lemma slugify_chars: "c \<in> set (slugify db text) \<Longrightarrow> uni_word db c \<or> c = 45"
  unfolding slugify_def strip_dash_def
  by (auto dest!: in_set_takeD set_dropWhileD sub_nonword_chars)

lemma slugify_seg_ok: "unidb_ok db \<Longrightarrow> slugify db h \<noteq> [] \<Longrightarrow> hd (slugify db h) \<noteq> 35"
  using slugify_chars [of "hd (slugify db h)" db h] by (auto simp: unidb_ok_def)

text \<open>What an opening needs: a plain label, or a heading of its own.\<close>

definition opens_ok :: "ustr option \<Rightarrow> ustr option \<Rightarrow> bool" where
  "opens_ok label explicit_heading \<longleftrightarrow>
     (case label of Some l \<Rightarrow> plain_label l | None \<Rightarrow> explicit_heading \<noteq> None)"

lemma builder_ok_open_clause:
  assumes db: "unidb_ok db" and ok: "builder_ok b" and opens: "opens_ok label eh"
  shows "\<exists>b'. open_clause db d label body eh b = Inr b' \<and> builder_ok b'"
proof -
  define b1 where "b1 = b\<lparr>b_stack := pop_stack (b_heap b) d (b_stack b)\<rparr>"
  define hd' where "hd' = (if eh = None \<and> b_pending b1 \<noteq> None then b_pending b1 else eh)"
  define b2 where "b2 = (if eh = None \<and> b_pending b1 \<noteq> None then b1\<lparr>b_pending := None\<rparr> else b1)"
  define p where "p = top b1"
  have ok1: "builder_ok b1"
    using ok pop_stack_subset [of "b_stack b" "b_heap b" d] unfolding builder_ok_def b1_def by auto
  have same: "b_heap b2 = b_heap b1" "b_stack b2 = b_stack b1" by (simp_all add: b2_def)
  then have ok2: "builder_ok b2" using ok1 unfolding builder_ok_def by simp
  have p: "p < length (b_heap b2)" using builder_ok_top [OF ok1] same by (simp add: p_def)
  let ?n = "length (mc_children (node b2 p))"
  obtain seg0 where seg0: "(case label of
              Some (c # cs) \<Rightarrow> Inr (c # cs)
            | _ \<Rightarrow> (case hd' of
                     None \<Rightarrow> Inl AssertionError
                   | Some h \<Rightarrow> Inr (if slugify db h \<noteq> [] then slugify db h else hash_seg (?n + 1)))) = Inr seg0"
    and shape: "seg0 \<noteq> [] \<and> hd seg0 \<noteq> 35 \<or> seg0 = hash_seg (?n + 1)"
  proof (cases label)
    case (Some l)
    then show ?thesis using opens that [of l] by (cases l) (auto simp: opens_ok_def plain_label_def)
  next
    case None
    then obtain h where "hd' = Some h" using opens by (auto simp: opens_ok_def hd'_def)
    then show ?thesis using None slugify_seg_ok [OF db, of h] that by auto
  qed
  define seg where "seg = disambiguate_segment seg0 (taken_segments b2 p)"
  have fresh: "seg \<notin> set (taken_segments b2 p)" by (simp add: seg_def disambiguate_fresh)
  have "seg_ok ?n seg"
  proof (cases "seg0 = hash_seg (?n + 1)")
    case True
    then have "seg = seg0" using hash_seg_fresh [OF ok2 p] by (simp add: seg_def disambiguate_first)
    then show ?thesis using True by (simp add: seg_ok_def)
  next
    case False
    then show ?thesis using shape disambiguate_head by (auto simp: seg_ok_def seg_def)
  qed
  then have ok3: "builder_ok (append_child b2 p \<lparr>mc_depth = d, mc_path = mc_path (node b2 p) @ [seg],
      mc_heading = hd', mc_body = (if body \<noteq> [] then [body] else []), mc_label = label, mc_children = []\<rparr>)"
    (is "builder_ok ?b3")
    using ok2 p fresh by (intro builder_ok_append_child) simp_all
  have "open_clause db d label body eh b = Inr (?b3\<lparr>b_stack := length (b_heap b2) # b_stack ?b3\<rparr>)"
    unfolding open_clause_def Let_def b1_def [symmetric] hd'_def [symmetric] b2_def [symmetric]
      p_def [symmetric] seg0 seg_def [symmetric] bindE.simps by (rule refl)
  moreover have "builder_ok (?b3\<lparr>b_stack := length (b_heap b2) # b_stack ?b3\<rparr>)"
    using ok3 by (simp add: builder_ok_def append_child_def)
  ultimately show ?thesis by blast
qed

lemma builder_ok_add_leaf:
  assumes "builder_ok b"
  shows "builder_ok (add_leaf body b)"
  unfolding add_leaf_def Let_def
  by (rule builder_ok_append_child [OF assms builder_ok_top [OF assms], of _ "hash_seg _"])
    (use hash_seg_fresh [OF assms builder_ok_top [OF assms]] in \<open>simp_all add: seg_ok_def\<close>)

lemma builder_ok_absorb: "builder_ok b \<Longrightarrow> builder_ok (absorb_bold_heading text b)"
  by (auto simp: absorb_bold_heading_def Let_def intro: builder_ok_update_node)
    (auto simp: builder_ok_def)

lemma builder_ok_loose: "builder_ok b \<Longrightarrow> builder_ok (consume_loose_text text b)"
  by (auto simp: consume_loose_text_def Let_def intro: builder_ok_update_node)

lemma builder_ok_open_matches:
  assumes "unidb_ok db" "plain_config cfg" "builder_ok b"
    and "\<forall>m \<in> set ms. hit_ok db text (patterns cfg) m"
  shows "\<exists>b'. open_matches db text ms b = Inr b' \<and> builder_ok b'"
  using assms(3,4)
proof (induction ms arbitrary: b)
  case Nil
  then show ?case by simp
next
  case (Cons m ms)
  obtain p s e where m: "m = (p, s, e)" by (cases m) auto
  have hit: "p \<in> set (patterns cfg)" "match_at db (sp_regex p) (drop s text) = Some (e - s)"
    using Cons.prems(2) by (auto simp: m hit_ok_def)
  have "plain_label (strip (drop s (take e text)))"
    using match_label_plain(2) [OF assms(1,2) hit] by (simp add: drop_take)
  then have "opens_ok (Some (strip (drop s (take e text)))) None" by (simp add: opens_ok_def)
  from builder_ok_open_clause [OF assms(1) Cons.prems(1) this]
  obtain b' where "open_clause db (sp_depth p) (Some (strip (drop s (take e text))))
      (strip (drop e (take (case ms of [] \<Rightarrow> length text | (_, s, _) # _ \<Rightarrow> s) text))) None b = Inr b'"
    "builder_ok b'" by blast
  then show ?case using Cons.IH [of b'] Cons.prems(2) by (simp add: m Let_def)
qed

lemma builder_ok_consume_paragraph:
  assumes "unidb_ok db" "plain_config cfg" "builder_ok b"
  shows "\<exists>b'. consume_paragraph db cfg text ranges b = Inr b' \<and> builder_ok b'"
proof -
  obtain ms where ms: "find_matches db text (patterns cfg) = Inr ms"
    "\<forall>m \<in> set ms. hit_ok db text (patterns cfg) m"
    using find_matches_from_spec [of "patterns cfg" 0 "text" db] assms(2)
    by (auto simp: find_matches_def plain_config_def)
  show ?thesis
  proof (cases ms)
    case Nil
    then show ?thesis
      using ms(1) assms(3) by (auto simp: consume_paragraph_def Let_def builder_ok_add_leaf builder_ok_absorb)
  next
    case (Cons m ms')
    obtain p s e where m: "m = (p, s, e)" by (cases m) auto
    let ?b = "if 0 < s \<and> strip (take s text) \<noteq> [] then add_leaf (strip (take s text)) b else b"
    have "builder_ok ?b" using assms(3) by (simp add: builder_ok_add_leaf)
    from builder_ok_open_matches [OF assms(1,2) this ms(2)] show ?thesis
      using assms(3) by (auto simp: consume_paragraph_def ms(1) Cons m Let_def)
  qed
qed

lemma builder_ok_consume_heading:
  assumes "unidb_ok db" "builder_ok b"
  shows "\<exists>b'. consume_heading db cfg level text b = Inr b' \<and> builder_ok b'"
  using assms builder_ok_open_clause [OF assms, of None "Some (strip text)"]
  by (simp add: consume_heading_def Let_def opens_ok_def)

text \<open>Every opening token has a token after it, as markdown-it emits them.\<close>

fun tokens_ok :: "token list \<Rightarrow> bool" where
  "tokens_ok [] = True"
| "tokens_ok (t # ts) = (case t of
      ParagraphOpen \<Rightarrow> ts \<noteq> [] \<and> tokens_ok (drop 2 ts)
    | HeadingOpen _ \<Rightarrow> ts \<noteq> [] \<and> tokens_ok (drop 2 ts)
    | _ \<Rightarrow> tokens_ok ts)"

lemma builder_ok_parse_tokens:
  assumes "unidb_ok db" "plain_config cfg"
  shows "builder_ok b \<Longrightarrow> tokens_ok ts \<Longrightarrow> \<exists>b'. parse_tokens db cfg ts b = Inr b' \<and> builder_ok b'"
proof (induction ts arbitrary: b rule: length_induct)
  case (1 ts)
  show ?case
  proof (cases ts)
    case Nil
    then show ?thesis using "1.prems" by simp
  next
    case (Cons t rest)
    have IH: "\<exists>b''. parse_tokens db cfg (drop n rest) b' = Inr b'' \<and> builder_ok b''"
      if "builder_ok b'" "tokens_ok (drop n rest)" for n b'
      using "1.IH" that Cons by simp
    show ?thesis
    proof (cases t)
      case ParagraphOpen
      then obtain inl rest' where rest: "rest = inl # rest'"
        using "1.prems"(2) Cons by (cases rest) auto
      obtain s r where sr: "extract_inline inl = (s, r)" by (cases "extract_inline inl")
      obtain b' where "consume_paragraph db cfg s r b = Inr b'" "builder_ok b'"
        using builder_ok_consume_paragraph [OF assms "1.prems"(1)] by blast
      then show ?thesis
        using IH [of b' 2] "1.prems"(2) ParagraphOpen sr by (simp add: Cons rest)
    next
      case (HeadingOpen level)
      then obtain inl rest' where rest: "rest = inl # rest'"
        using "1.prems"(2) Cons by (cases rest) auto
      obtain b' where "consume_heading db cfg level (fst (extract_inline inl)) b = Inr b'" "builder_ok b'"
        using builder_ok_consume_heading [OF assms(1) "1.prems"(1)] by blast
      then show ?thesis
        using IH [of b' 2] "1.prems"(2) HeadingOpen by (simp add: Cons rest)
    next
      case (Inline x)
      then show ?thesis using IH [of b 0] "1.prems" by (simp add: Cons)
    next
      case (Loose content)
      then show ?thesis
        using IH [of "consume_loose_text content b" 0] "1.prems" by (simp add: Cons builder_ok_loose)
    next
      case OtherTok
      then show ?thesis using IH [of b 0] "1.prems" by (simp add: Cons)
    qed
  qed
qed

section \<open>Freezing\<close>

text \<open>Child positions grow, so the fuel of \<open>finalize\<close> is enough.\<close>

lemma freeze_total:
  assumes "heap_ok h"
  shows "a < length h \<Longrightarrow> length h - a \<le> fuel \<Longrightarrow> \<exists>c. freeze fuel h a = Inr c"
proof (induction fuel arbitrary: a)
  case 0
  then show ?case by simp
next
  case (Suc fuel)
  have "\<exists>g. \<forall>c \<in> set (mc_children (h ! a)). freeze fuel h c = Inr (g c)"
  proof (intro bchoice ballI)
    fix c assume "c \<in> set (mc_children (h ! a))"
    then have "a < c" "c < length h" using heap_okD(1) [OF assms Suc.prems(1)] by auto
    then show "\<exists>r. freeze fuel h c = Inr r" using Suc.IH [of c] Suc.prems by simp
  qed
  then obtain g where "\<And>c. c \<in> set (mc_children (h ! a)) \<Longrightarrow> freeze fuel h c = Inr (g c)" by blast
  then have "mapE (freeze fuel h) (mc_children (h ! a)) = Inr (map g (mc_children (h ! a)))"
    by (rule mapE_total)
  then show ?case by simp
qed

text \<open>Paths of the frozen tree: all distinct, all below the node's own path.\<close>

definition paths_of :: "clause \<Rightarrow> cpath list" where
  "paths_of c = map path (walk c)"

definition below :: "cpath \<Rightarrow> cpath \<Rightarrow> bool" where
  "below p q \<longleftrightarrow> (\<exists>r. q = p @ r)"

lemma paths_of_Clause: "paths_of (Clause p h b l cs) = p # concat (map paths_of cs)"
  by (simp add: paths_of_def [abs_def] walk.simps map_concat comp_def)

lemma below_children_disjoint:
  "below (p @ [s]) q \<Longrightarrow> below (p @ [t]) q \<Longrightarrow> s = t"
  by (auto simp: below_def)

lemma distinct_concat_map:
  assumes "distinct xs" "\<And>x. x \<in> set xs \<Longrightarrow> distinct (f x)"
    and "\<And>x y. x \<in> set xs \<Longrightarrow> y \<in> set xs \<Longrightarrow> x \<noteq> y \<Longrightarrow> set (f x) \<inter> set (f y) = {}"
  shows "distinct (concat (map f xs))"
  using assms by (induction xs) fastforce+

lemma freeze_paths:
  assumes "heap_ok h"
  shows "a < length h \<Longrightarrow> freeze fuel h a = Inr c \<Longrightarrow>
    path c = mc_path (h ! a) \<and> distinct (paths_of c) \<and> (\<forall>q \<in> set (paths_of c). below (mc_path (h ! a)) q)"
proof (induction fuel arbitrary: a c)
  case 0
  then show ?case by simp
next
  case (Suc fuel)
  let ?ks = "mc_children (h ! a)" and ?p = "mc_path (h ! a)"
  obtain cs where cs: "mapE (freeze fuel h) ?ks = Inr cs"
    "c = Clause ?p (mc_heading (h ! a)) (frozen_body (mc_body (h ! a))) (mc_label (h ! a)) cs"
    using Suc.prems(2) by (auto simp: bindE_eq_Inr)
  have len: "length cs = length ?ks" using mapE_length [OF cs(1)] .
  have child: "path (cs ! m) = mc_path (h ! (?ks ! m)) \<and> distinct (paths_of (cs ! m))
      \<and> (\<forall>q \<in> set (paths_of (cs ! m)). below (mc_path (h ! (?ks ! m))) q)
      \<and> (\<exists>s. mc_path (h ! (?ks ! m)) = ?p @ [s])" if m: "m < length ?ks" for m
  proof -
    have "?ks ! m < length h" using heap_okD(1) [OF assms Suc.prems(1)] m by simp
    then show ?thesis
      using Suc.IH mapE_nth [OF cs(1) m] heap_okD(2) [OF assms Suc.prems(1) m] by blast
  qed
  have inj: "mc_path (h ! (?ks ! m)) \<noteq> mc_path (h ! (?ks ! m'))" if "m < length ?ks" "m' < length ?ks" "m \<noteq> m'" for m m'
    using heap_okD(3) [OF assms Suc.prems(1)] that by (auto simp: distinct_conv_nth)
  have map_nth: "concat (map paths_of cs) = concat (map (\<lambda>m. paths_of (cs ! m)) [0..<length cs])"
    by (rule arg_cong [where f = concat], rule nth_equalityI) simp_all
  have "distinct (concat (map (\<lambda>m. paths_of (cs ! m)) [0..<length cs]))"
  proof (rule distinct_concat_map)
    fix m m' assume mm: "m \<in> set [0..<length cs]" "m' \<in> set [0..<length cs]" "m \<noteq> m'"
    then have m: "m < length ?ks" "m' < length ?ks" using len by auto
    obtain s t where st: "mc_path (h ! (?ks ! m)) = ?p @ [s]" "mc_path (h ! (?ks ! m')) = ?p @ [t]"
      using child [OF m(1)] child [OF m(2)] by blast
    then have "s \<noteq> t" using inj [OF m mm(3)] by auto
    then show "set (paths_of (cs ! m)) \<inter> set (paths_of (cs ! m')) = {}"
      using child [OF m(1)] child [OF m(2)] below_children_disjoint unfolding st by blast
  qed (use child len in auto)
  moreover have "\<forall>q \<in> set (concat (map paths_of cs)). below ?p q \<and> q \<noteq> ?p"
  proof
    fix q assume "q \<in> set (concat (map paths_of cs))"
    then obtain d where d: "d \<in> set cs" "q \<in> set (paths_of d)" by auto
    from d(1) obtain m where "m < length cs" "cs ! m = d" by (metis in_set_conv_nth)
    then have m: "m < length ?ks" "q \<in> set (paths_of (cs ! m))" using d(2) len by auto
    obtain s where "mc_path (h ! (?ks ! m)) = ?p @ [s]" using child [OF m(1)] by blast
    then have "below (?p @ [s]) q" using child [OF m(1)] m(2) by metis
    then show "below ?p q \<and> q \<noteq> ?p" by (auto simp: below_def)
  qed
  ultimately show ?case
    unfolding cs(2) paths_of_Clause using map_nth by (auto simp: below_def)
qed

lemma parse_total:
  assumes "unidb_ok db" "plain_config cfg" "tokens_ok ts"
  obtains c where "parse db cfg ts = Inr c" "path c = []" "distinct (paths_of c)"
proof -
  obtain b where b: "parse_tokens db cfg ts new_builder = Inr b" "builder_ok b"
    using builder_ok_parse_tokens [OF assms(1,2) builder_ok_new assms(3)] by blast
  have h: "heap_ok (b_heap b)" "0 < length (b_heap b)" "mc_path (b_heap b ! 0) = []"
    using b(2) by (simp_all add: builder_ok_def)
  obtain c where c: "freeze (length (b_heap b)) (b_heap b) 0 = Inr c"
    using freeze_total [OF h(1,2), of "length (b_heap b)"] by auto
  have "parse db cfg ts = Inr c" by (simp add: parse_def b(1) finalize_def c)
  then show ?thesis using freeze_paths [OF h(1,2) c] h(3) by (intro that) auto
qed

end
