(* ===== verification/Samples.thy ===== *)
theory Samples
  imports Align_Correct Parser_Inv
begin

text \<open>
  Concrete instances of the parameters, for the witnesses: ASCII character tables, a signature
  that counts shingles, an index that proposes equal signatures, and small clause trees.
\<close>

definition sample_unidb :: unidb where
  "sample_unidb = \<lparr>uni_digit = (\<lambda>c. 48 \<le> c \<and> c \<le> 57),
     uni_word = (\<lambda>c. (48 \<le> c \<and> c \<le> 57) \<or> (65 \<le> c \<and> c \<le> 90) \<or> c = 95 \<or> (97 \<le> c \<and> c \<le> 122)),
     str_lower = map (\<lambda>c. if 65 \<le> c \<and> c \<le> 90 then c + 32 else c)\<rparr>"

lemma sample_unidb_ok: "unidb_ok sample_unidb"
  by (auto simp: unidb_ok_def sample_unidb_def isspace_def)

definition sample_minhash :: minhasher where
  "sample_minhash n S = Inr (replicate (nat n) (card S))"

lemma sample_minhash_sized: "minhash_sized sample_minhash"
  by (simp add: minhash_sized_def sample_minhash_def)

definition sample_lsh :: lsh_index where
  "sample_lsh b r sigs = Inr (\<lambda>probe. filter (\<lambda>i. sigs ! i = probe) [0..<length sigs])"

lemma sample_lsh_ok: "index_in_range sample_lsh"
  by (auto simp: index_in_range_def sample_lsh_def)

lemma sample_datasketch_ok: "datasketch_ok sample_minhash sample_lsh"
  using sample_minhash_sized sample_lsh_ok
  by (simp add: datasketch_ok_def) (simp add: sample_minhash_def sample_lsh_def)

lemma default_tuning_valid: "valid_tuning default_tuning_config"
  by (simp add: valid_tuning_iff default_tuning_config_def)

lemma encodable_sample: "\<forall>n \<in> set (bodied t). encodable n \<Longrightarrow> signable sample_minhash default_tuning_config t"
  by (rule encodable_signable [OF usable_default_tuning sample_datasketch_ok])

definition leaf :: "string \<Rightarrow> string \<Rightarrow> string \<Rightarrow> clause" where
  "leaf seg heading body = Clause [u seg] (Some (u heading)) (u body) (Some (u seg)) []"

definition tree_of :: "clause list \<Rightarrow> clause" where
  "tree_of cs = Clause [] None [] None cs"

end
