(* ===== verification/Alignment_Properties.thy ===== *)
theory Alignment_Properties
  imports Samples
begin

text \<open>The properties of the alignment pipeline and of the parser, with their witnesses.\<close>

section \<open>align\<close>



text \<open>Two versions whose body-bearing clauses agree in path, heading and text have no events:
  an unchanged document is never reported as changed.\<close>

theorem align_unchanged_silent:
  assumes "valid_tuning tn" "minhash_sized mh" "signable mh tn t1" "list_all2 same_clause (bodied t1) (bodied t2)"
  shows "align mh query t1 t2 (Some tn) = Inr []"
  by (rule align_same_clauses [OF assms])

text \<open>C9. The dynamic programme of the content pass returns a monotone pairing of greatest total
  similarity among all monotone pairings of the remaining clauses.\<close>

theorem content_pass_optimal:
  assumes "sorted_wrt (<) s1" "sorted_wrt (<) s2"
  shows "\<exists>qs. backtrace sim s1 s2 (dp_table sim s1 s2) (length s1) (length s2) = rev (with_weights sim qs)
     \<and> matching_in sim s1 s2 qs \<and> (\<forall>rs. matching_in sim s1 s2 rs \<longrightarrow> weight sim rs \<le> weight sim qs)"
proof -
  obtain qs where "dp_pairs sim s1 s2 = rev (with_weights sim qs)" "matching_in sim s1 s2 qs"
    "\<And>rs. matching_in sim s1 s2 rs \<Longrightarrow> weight sim rs \<le> weight sim qs"
    using dp_pairs_optimal [OF assms] by metis
  then show ?thesis by (auto simp: dp_pairs_def)
qed

lemma content_pass_optimal_witness:
  "\<exists>qs. matching_in [((0, 1), 1 / 2), ((2, 0), 3 / 4)] [0, 2] [0, 1] qs
     \<and> (\<forall>rs. matching_in [((0, 1), 1 / 2), ((2, 0), 3 / 4)] [0, 2] [0, 1] rs \<longrightarrow>
          weight [((0, 1), 1 / 2), ((2, 0), 3 / 4)] rs \<le> weight [((0, 1), 1 / 2), ((2, 0), 3 / 4)] qs)"
  using content_pass_optimal [of "[0, 2]" "[0, 1]" "[((0, 1), 1 / 2), ((2, 0), 3 / 4)]"] by auto

text \<open>The greedy assignment of the heading pass leaves a candidate pair out only for a chosen
  pair of at least its confidence that shares a clause with it, and it uses each clause once.\<close>

theorem greedy_assignment_stable:
  assumes "greedy_assign (rev (sort ts)) {} {} = (ps, q1, q2)"
  shows "distinct (firsts ps) \<and> distinct (seconds ps) \<and> q1 = set (firsts ps) \<and> q2 = set (seconds ps)
     \<and> (\<forall>(i, j, c) \<in> set ps. (c, i, j) \<in> set ts)
     \<and> (\<forall>(c, i, j) \<in> set ts. (i, j, c) \<in> set ps \<or> (\<exists>(i', j', c') \<in> set ps. (i' = i \<or> j' = j) \<and> c \<le> c'))"
proof -
  have desc: "sorted_wrt (\<ge>) (rev (sort ts))" by (simp add: sorted_wrt_rev)
  show ?thesis
    using greedy_assign_extends [OF assms] greedy_assign_subset [OF assms] greedy_assign_blocked [OF assms desc]
    by (fastforce simp: extends_pairing_def)
qed

lemma greedy_assignment_stable_witness:
  "\<exists>ps q1 q2. greedy_assign (rev (sort [(1 / 2, 0, 0), (3 / 4, 1, 0)])) {} {} = (ps, q1, q2) \<and> distinct (firsts ps)"
proof -
  obtain ps q1 q2 where g: "greedy_assign (rev (sort [(1 / 2, 0, 0), (3 / 4, 1, 0)])) {} {} = (ps, q1, q2)"
    by (metis prod_cases3)
  show ?thesis using g greedy_assignment_stable [OF g] by blast
qed

section \<open>Similarity\<close>

text \<open>The similarity estimate of two signatures is a fraction between 0 and 1, symmetric, and
  1 exactly when the signatures are equal.\<close>

lemma jaccard_estimate:
  assumes "jaccard a b = Inr r"
  shows "0 \<le> r \<and> r \<le> 1 \<and> jaccard b a = Inr r \<and> (r = 1 \<longleftrightarrow> a = b)"
  using jaccard_bounds [OF assms] jaccard_sym [of a b] jaccard_eq_1_iff [of a b] assms by auto

section \<open>parse\<close>

text \<open>C10. With the shipped configuration the parser returns a tree for every token stream in which
  an opening token is followed by its inline token; the root's path is empty and no two clauses
  share a path, so the version's rows satisfy the unique constraint on paths.\<close>

theorem parse_returns_distinct_paths:
  assumes "unidb_ok db" "tokens_ok ts"
  shows "\<exists>c. parse db default_parser_config ts = Inr c \<and> path c = [] \<and> distinct (map path (walk c))"
  by (rule parse_total [OF assms(1) plain_default_config assms(2)]) (auto simp: paths_of_def)

lemma parse_returns_distinct_paths_witness:
  "\<exists>c. parse sample_unidb default_parser_config [HeadingOpen 1, Inline [Text (u ''Scope'')], OtherTok,
     ParagraphOpen, Inline [Text (u ''1. alpha'')], OtherTok] = Inr c \<and> distinct (map path (walk c))"
  using parse_returns_distinct_paths [OF sample_unidb_ok,
      of "[HeadingOpen 1, Inline [Text (u ''Scope'')], OtherTok, ParagraphOpen, Inline [Text (u ''1. alpha'')], OtherTok]"]
  by auto

text \<open>The marker scan of a paragraph returns matches of its patterns in order and without
  overlap, each at a place where its pattern matches and, where the pattern asks for it, after a
  boundary.\<close>

theorem marker_scan_sound:
  assumes "\<forall>p \<in> set ps. 0 < min_len (sp_regex p)"
  shows "\<exists>ms. find_matches db text ps = Inr ms \<and> (\<forall>m \<in> set ms. hit_ok db text ps m)
     \<and> sorted_wrt (\<lambda>m m'. snd (snd m) \<le> fst (snd m')) ms"
  using find_matches_from_spec [OF assms, of 0 "text" db] by (auto simp: find_matches_def)

lemma marker_scan_sound_witness:
  "\<exists>ms. find_matches sample_unidb (u ''1. alpha (a) beta'') default_patterns = Inr ms"
proof -
  have "\<forall>p \<in> set default_patterns. 0 < min_len (sp_regex p)"
    using plain_default_config by (auto simp: plain_config_def default_parser_config_def)
  from marker_scan_sound [OF this] show ?thesis by blast
qed

end
