(* ===== verification/Blob.thy ===== *)
theory Blob
  imports Pytext
begin

text \<open>
  Blob storage of the ingestion worker: the \<open>BlobStore\<close> protocol as a locale, the in-memory
  store of \<open>blob/store.py\<close>, the Azure-backed store of \<open>blob/azure.py\<close> over the container
  operations of the SDK, the content-addressed keys, and one pass of the orphan sweep of
  \<open>sweep.py\<close>.
\<close>

section \<open>Content-addressed keys\<close>

definition hex_digits :: string where
  "hex_digits = ''0123456789abcdef''"

text \<open>\<open>bytes.hex()\<close>: two digits per byte.\<close>

definition hex_of :: "bytes \<Rightarrow> string" where
  "hex_of bs = concat (map (\<lambda>b. [hex_digits ! (b div 16 mod 16), hex_digits ! (b mod 16)]) bs)"

definition content_key :: "bytes \<Rightarrow> string" where
  "content_key sha = hex_of sha @ ''.md''"

definition is_content_addressed_key :: "string \<Rightarrow> bool" where
  "is_content_addressed_key key =
     (if \<not> (3 \<le> length key \<and> drop (length key - 3) key = ''.md'') then False
      else let stem = take (length key - 3) key in
        if length stem \<noteq> 64 then False else \<forall>c \<in> set stem. c \<in> set hex_digits)"

lemma length_hex_of [simp]: "length (hex_of bs) = 2 * length bs"
  by (induction bs) (auto simp: hex_of_def)

lemma set_hex_of: "set (hex_of bs) \<subseteq> set hex_digits"
proof -
  have "hex_digits ! (n mod 16) \<in> set hex_digits" for n
    by (rule nth_mem) (simp add: hex_digits_def)
  then show ?thesis by (auto simp: hex_of_def)
qed

lemma content_key_addressed:
  assumes "length sha = 32"
  shows "is_content_addressed_key (content_key sha)"
  using assms set_hex_of [of sha] by (auto simp: is_content_addressed_key_def content_key_def)

lemma hex_digits_inj: "a < 16 \<Longrightarrow> b < 16 \<Longrightarrow> hex_digits ! a = hex_digits ! b \<Longrightarrow> a = b"
proof -
  have "distinct hex_digits" by (simp add: hex_digits_def)
  then show "a < 16 \<Longrightarrow> b < 16 \<Longrightarrow> hex_digits ! a = hex_digits ! b \<Longrightarrow> a = b"
    by (subst (asm) nth_eq_iff_index_eq) (simp_all add: hex_digits_def)
qed

lemma hex_of_inj:
  assumes "\<forall>b \<in> set xs. b < 256" "\<forall>b \<in> set ys. b < 256" "hex_of xs = hex_of ys"
  shows "xs = ys"
  using assms
proof (induction xs arbitrary: ys)
  case Nil
  then show ?case by (cases ys) (auto simp: hex_of_def)
next
  case (Cons x xs)
  then obtain y ys' where y: "ys = y # ys'" by (cases ys) (auto simp: hex_of_def)
  have "hex_digits ! (x div 16 mod 16) = hex_digits ! (y div 16 mod 16)"
    "hex_digits ! (x mod 16) = hex_digits ! (y mod 16)" "hex_of xs = hex_of ys'"
    using Cons.prems(3) by (simp_all add: y hex_of_def)
  then have "x div 16 mod 16 = y div 16 mod 16" "x mod 16 = y mod 16" "xs = ys'"
    using hex_digits_inj Cons.IH Cons.prems(1,2) by (simp_all add: y)
  moreover have "x < 256" "y < 256" using Cons.prems(1,2) by (simp_all add: y)
  then have "x div 16 < 16" "y div 16 < 16" by linarith+
  ultimately have "x div 16 = y div 16" "x mod 16 = y mod 16" by simp_all
  then have "x = y" by (metis div_mult_mod_eq)
  then show ?case using y \<open>xs = ys'\<close> by simp
qed

section \<open>The BlobStore protocol\<close>

text \<open>
  What the worker relies on: a successful \<open>put\<close> makes the key readable and never changes
  another key or replaces a stored body, a fresh key can be written, a stored body can be
  written again, \<open>delete\<close> removes exactly its key, and \<open>iter_keys\<close> lists the stored keys.
\<close>

locale blob_store =
  fixes bget :: "'s \<Rightarrow> string \<Rightarrow> bytes option"
    and bput :: "'s \<Rightarrow> string \<Rightarrow> bytes \<Rightarrow> 's result"
    and bdelete :: "'s \<Rightarrow> string \<Rightarrow> 's"
    and bkeys :: "'s \<Rightarrow> string list"
  assumes get_put: "bput s k body = Inr s' \<Longrightarrow>
      bget s' k' = (if k' = k \<and> bget s k = None then Some body else bget s k')"
    and put_fresh: "bget s k = None \<Longrightarrow> \<exists>s'. bput s k body = Inr s'"
    and put_same: "bget s k = Some body \<Longrightarrow> \<exists>s'. bput s k body = Inr s'"
    and get_delete: "bget (bdelete s k) k' = (if k' = k then None else bget s k')"
    and keys: "set (bkeys s) = {k. bget s k \<noteq> None}"
begin

lemma put_again:
  assumes "bput s k body = Inr s'" "bget s k = None"
  shows "\<exists>s''. bput s' k body = Inr s'' \<and> (\<forall>k'. bget s'' k' = bget s' k')"
proof -
  have "bget s' k = Some body" using get_put [OF assms(1), of k] assms(2) by simp
  then obtain s'' where s'': "bput s' k body = Inr s''" using put_same by blast
  then show ?thesis using get_put [OF s''] \<open>bget s' k = Some body\<close> by auto
qed

lemma put_never_replaces:
  "bput s k body = Inr s' \<Longrightarrow> bget s k' = Some b \<Longrightarrow> bget s' k' = Some b"
  using get_put by fastforce

text \<open>Deleting the keys that satisfy a predicate, one after the other.\<close>

lemma fold_delete:
  "bget (fold (\<lambda>k st. bdelete st k) ks s) k' = (if k' \<in> set ks then None else bget s k')"
  by (induction ks arbitrary: s) (auto simp: get_delete)

end

section \<open>MemoryBlobStore\<close>

type_synonym memory_store = "(string \<times> bytes) list"

definition mem_get :: "memory_store \<Rightarrow> string \<Rightarrow> bytes option" where
  "mem_get s k = map_of s k"

definition mem_exists :: "memory_store \<Rightarrow> string \<Rightarrow> bool" where
  "mem_exists s k \<longleftrightarrow> mem_get s k \<noteq> None"

definition mem_put :: "memory_store \<Rightarrow> string \<Rightarrow> bytes \<Rightarrow> memory_store result" where
  "mem_put s k body =
     (case mem_get s k of
        None \<Rightarrow> Inr (s @ [(k, body)])
      | Some existing \<Rightarrow> if existing \<noteq> body then Inl ValueError else Inr s)"

definition mem_delete :: "memory_store \<Rightarrow> string \<Rightarrow> memory_store" where
  "mem_delete s k = filter (\<lambda>e. fst e \<noteq> k) s"

definition mem_keys :: "memory_store \<Rightarrow> string list" where
  "mem_keys s = map fst s"

lemma map_of_filter_fst: "map_of (filter (\<lambda>e. fst e \<noteq> k) s) k' = (if k' = k then None else map_of s k')"
  by (induction s) auto

interpretation mem: blob_store mem_get mem_put mem_delete mem_keys
proof
  fix s k body s' k'
  assume "mem_put s k body = Inr s'"
  then show "mem_get s' k' = (if k' = k \<and> mem_get s k = None then Some body else mem_get s k')"
    by (auto simp: mem_put_def mem_get_def map_add_def split: option.splits if_splits)
next
  fix s k body
  assume "mem_get s k = None"
  then show "\<exists>s'. mem_put s k body = Inr s'" by (simp add: mem_put_def)
next
  fix s k body
  assume "mem_get s k = Some body"
  then show "\<exists>s'. mem_put s k body = Inr s'" by (simp add: mem_put_def)
next
  fix s k k'
  show "mem_get (mem_delete s k) k' = (if k' = k then None else mem_get s k')"
    by (simp add: mem_get_def mem_delete_def map_of_filter_fst)
next
  fix s
  show "set (mem_keys s) = {k. mem_get s k \<noteq> None}"
    by (auto simp: mem_keys_def mem_get_def map_of_eq_None_iff image_iff)
qed

lemma mem_put_stored: "mem_put s k body = Inr s' \<Longrightarrow> mem_get s' k = Some body"
  by (auto simp: mem_put_def mem_get_def map_add_def split: option.splits if_splits)

section \<open>AzureBlobStore\<close>

text \<open>
  The container client is not part of the repository: its operations are arguments. The errors
  the class names are the two that it suppresses; any other error passes through.
\<close>

datatype azure_error = ResourceExistsError | ResourceNotFoundError | OtherAzureError

definition azure_put ::
  "('c \<Rightarrow> string \<Rightarrow> bytes \<Rightarrow> azure_error + 'c) \<Rightarrow> 'c \<Rightarrow> string \<Rightarrow> bytes \<Rightarrow> 'c result" where
  "azure_put upload c k body =
     (case upload c k body of
        Inl ResourceExistsError \<Rightarrow> Inr c
      | Inl _ \<Rightarrow> Inl RuntimeError
      | Inr c' \<Rightarrow> Inr c')"

definition azure_delete ::
  "('c \<Rightarrow> string \<Rightarrow> azure_error + 'c) \<Rightarrow> 'c \<Rightarrow> string \<Rightarrow> 'c result" where
  "azure_delete delete_blob c k =
     (case delete_blob c k of
        Inl ResourceNotFoundError \<Rightarrow> Inr c
      | Inl _ \<Rightarrow> Inl RuntimeError
      | Inr c' \<Rightarrow> Inr c')"

text \<open>
  The documented behaviour of a reachable container: an upload without \<open>overwrite\<close> onto an
  existing blob and a deletion of a missing blob raise, everything else succeeds.
\<close>

locale azure_container =
  fixes blob_of :: "'c \<Rightarrow> string \<Rightarrow> bytes option"
    and upload :: "'c \<Rightarrow> string \<Rightarrow> bytes \<Rightarrow> azure_error + 'c"
    and delete_blob :: "'c \<Rightarrow> string \<Rightarrow> azure_error + 'c"
    and blob_names :: "'c \<Rightarrow> string list"
  assumes upload_existing: "blob_of c k = Some b \<Longrightarrow> upload c k body = Inl ResourceExistsError"
    and upload_fresh: "blob_of c k = None \<Longrightarrow> \<exists>c'. upload c k body = Inr c' \<and> blob_of c' = (blob_of c)(k \<mapsto> body)"
    and delete_missing: "blob_of c k = None \<Longrightarrow> delete_blob c k = Inl ResourceNotFoundError"
    and delete_existing: "blob_of c k = Some b \<Longrightarrow> \<exists>c'. delete_blob c k = Inr c' \<and> blob_of c' = (blob_of c)(k := None)"
    and names: "set (blob_names c) = {k. blob_of c k \<noteq> None}"
begin

lemma azure_put_cases:
  "\<exists>c'. azure_put upload c k body = Inr c' \<and>
     blob_of c' = (if blob_of c k = None then (blob_of c)(k \<mapsto> body) else blob_of c)"
proof (cases "blob_of c k")
  case None
  then show ?thesis using upload_fresh [OF None, of body] by (auto simp: azure_put_def)
next
  case (Some b)
  then show ?thesis using upload_existing [OF Some, of body] by (simp add: azure_put_def)
qed

lemma azure_delete_cases:
  "\<exists>c'. azure_delete delete_blob c k = Inr c' \<and> blob_of c' = (blob_of c)(k := None)"
proof (cases "blob_of c k")
  case None
  then show ?thesis using delete_missing [OF None] by (simp add: azure_delete_def fun_upd_idem)
next
  case (Some b)
  then show ?thesis using delete_existing [OF Some] by (auto simp: azure_delete_def)
qed

end

text \<open>The Azure store keeps the protocol over every such container.\<close>

sublocale azure_container \<subseteq> azure: blob_store blob_of "azure_put upload"
    "\<lambda>c k. case azure_delete delete_blob c k of Inl e \<Rightarrow> c | Inr c' \<Rightarrow> c'" blob_names
proof
  fix s k body s' k'
  assume "azure_put upload s k body = Inr s'"
  then show "blob_of s' k' = (if k' = k \<and> blob_of s k = None then Some body else blob_of s k')"
    using azure_put_cases [of s k body] by auto
next
  fix s k body
  show "\<exists>s'. azure_put upload s k body = Inr s'" using azure_put_cases [of s k body] by blast
next
  fix s k body
  show "\<exists>s'. azure_put upload s k body = Inr s'" using azure_put_cases [of s k body] by blast
next
  fix s k k'
  show "blob_of (case azure_delete delete_blob s k of Inl e \<Rightarrow> s | Inr c' \<Rightarrow> c') k' =
      (if k' = k then None else blob_of s k')"
    using azure_delete_cases [of s k] by auto
next
  fix s
  show "set (blob_names s) = {k. blob_of s k \<noteq> None}" by (rule names)
qed

text \<open>
  A container that behaves as documented exists: the in-memory data with the client's two
  error conditions.
\<close>

definition dict_upload :: "memory_store \<Rightarrow> string \<Rightarrow> bytes \<Rightarrow> azure_error + memory_store" where
  "dict_upload s k body = (if mem_exists s k then Inl ResourceExistsError else Inr (s @ [(k, body)]))"

definition dict_delete_blob :: "memory_store \<Rightarrow> string \<Rightarrow> azure_error + memory_store" where
  "dict_delete_blob s k = (if mem_exists s k then Inr (mem_delete s k) else Inl ResourceNotFoundError)"

interpretation dict_container: azure_container mem_get dict_upload dict_delete_blob mem_keys
proof
  fix c :: memory_store and k body
  assume "mem_get c k = None"
  then show "\<exists>c'. dict_upload c k body = Inr c' \<and> mem_get c' = (mem_get c)(k \<mapsto> body)"
    by (auto simp: dict_upload_def mem_exists_def mem_get_def map_add_def fun_eq_iff
        split: option.splits)
next
  fix c :: memory_store and k b
  assume "mem_get c k = Some b"
  then show "\<exists>c'. dict_delete_blob c k = Inr c' \<and> mem_get c' = (mem_get c)(k := None)"
    by (simp add: dict_delete_blob_def mem_exists_def mem_get_def mem_delete_def
        map_of_filter_fst fun_eq_iff)
qed (simp_all add: dict_upload_def dict_delete_blob_def mem_exists_def mem.keys)

section \<open>The orphan sweep\<close>

text \<open>One pass over the listed keys: the store after it and the number of blobs reclaimed.\<close>

fun sweep_keys ::
  "('s \<Rightarrow> string \<Rightarrow> 's) \<Rightarrow> string list \<Rightarrow> string list \<Rightarrow> 's \<Rightarrow> nat \<Rightarrow> 's \<times> nat" where
  "sweep_keys del refs [] s n = (s, n)"
| "sweep_keys del refs (k # ks) s n =
     (if k \<in> set refs then sweep_keys del refs ks s n
      else if \<not> is_content_addressed_key k then sweep_keys del refs ks s n
      else sweep_keys del refs ks (del s k) (Suc n))"

text \<open>\<open>_referenced_keys\<close>: the key column of the version rows of one container.\<close>

definition referenced_keys :: "(string \<times> string) list \<Rightarrow> string \<Rightarrow> string list" where
  "referenced_keys rows container = map snd (filter (\<lambda>r. fst r = container) rows)"

definition sweep_once ::
  "('s \<Rightarrow> string \<Rightarrow> 's) \<Rightarrow> ('s \<Rightarrow> string list) \<Rightarrow> (string \<times> string) list \<Rightarrow> string \<Rightarrow> 's \<Rightarrow> 's \<times> nat" where
  "sweep_once del keys rows container s =
     sweep_keys del (referenced_keys rows container) (keys s) s 0"

definition sweepable :: "string list \<Rightarrow> string \<Rightarrow> bool" where
  "sweepable refs k \<longleftrightarrow> k \<notin> set refs \<and> is_content_addressed_key k"

lemma sweep_keys_fold:
  "sweep_keys del refs ks s n =
     (fold (\<lambda>k st. del st k) (filter (sweepable refs) ks) s, n + length (filter (sweepable refs) ks))"
  by (induction ks arbitrary: s n) (auto simp: sweepable_def)

context blob_store
begin

lemma sweep_once_get:
  "bget (fst (sweep_once bdelete bkeys rows container s)) k =
     (if sweepable (referenced_keys rows container) k then None else bget s k)"
  unfolding sweep_once_def sweep_keys_fold fst_conv fold_delete using keys [of s] by auto

lemma sweep_twice:
  "sweep_once bdelete bkeys rows container (fst (sweep_once bdelete bkeys rows container s)) =
     (fst (sweep_once bdelete bkeys rows container s), 0)"
proof -
  let ?s = "fst (sweep_once bdelete bkeys rows container s)"
  have "filter (sweepable (referenced_keys rows container)) (bkeys ?s) = []"
    unfolding filter_empty_conv using keys [of ?s] sweep_once_get [of rows container s] by auto
  then show ?thesis by (simp add: sweep_once_def [of _ _ _ _ ?s] sweep_keys_fold)
qed

end

section \<open>The sweep loop\<close>

text \<open>
  \<open>SweepLoop.run\<close>: passes until the shutdown event is seen, before a pass or after it; a pass that fails is
  logged and tried again in the next round, a cancellation ends the loop. A round is the pair of the two tests of
  the event, and the wait of \<open>interval_s\<close> lies between two rounds.
\<close>

datatype pass_end = Swept nat | Failed exn | Cancelled

datatype loop_end = Running | Stopped | Raised

fun sweep_run :: "('s \<Rightarrow> 's \<times> pass_end) \<Rightarrow> (bool \<times> bool) list \<Rightarrow> 's \<Rightarrow> 's \<times> loop_end" where
  "sweep_run pass [] s = (s, Running)"
| "sweep_run pass ((set_before, set_after) # rounds) s =
     (if set_before then (s, Stopped)
      else case pass s of
             (s', Cancelled) \<Rightarrow> (s', Raised)
           | (s', _) \<Rightarrow> if set_after then (s', Stopped) else sweep_run pass rounds s')"

lemma sweep_run_invariant:
  assumes "\<And>s. I s \<Longrightarrow> I (fst (pass s))" "I s"
  shows "I (fst (sweep_run pass rounds s))"
  using assms(2)
proof (induction rounds arbitrary: s)
  case (Cons r rounds)
  obtain s' e where p: "pass s = (s', e)" by (cases "pass s")
  have "I s'" using assms(1) [OF Cons.prems] p by simp
  then show ?case using Cons p by (cases r; cases e) auto
qed simp

text \<open>Only the event and a cancellation end the loop, and after the event no pass begins.\<close>

lemma sweep_run_ends:
  "snd (sweep_run pass rounds s) = Running \<Longrightarrow> \<forall>r \<in> set rounds. r = (False, False)"
proof (induction rounds arbitrary: s)
  case (Cons r rounds)
  then show ?case by (cases r) (auto split: if_splits prod.splits pass_end.splits)
qed simp

lemma sweep_run_stops: "set_before \<Longrightarrow> sweep_run pass ((set_before, set_after) # rounds) s = (s, Stopped)"
  by simp

lemma sweep_run_retries:
  assumes "\<And>s. snd (pass s) \<noteq> Cancelled"
  shows "sweep_run pass (replicate n (False, False)) s = (((\<lambda>s. fst (pass s)) ^^ n) s, Running)"
proof (induction n arbitrary: s)
  case (Suc n)
  obtain s' e where p: "pass s = (s', e)" by (cases "pass s")
  have "e \<noteq> Cancelled" using assms [of s] p by simp
  then show ?case using Suc [of s'] p
    by (cases e) (simp_all add: funpow_Suc_right del: funpow.simps)
qed simp

section \<open>The Azure store as a context manager\<close>

text \<open>
  \<open>_container\<close> of an \<open>AzureBlobStore\<close>: \<open>None\<close> until \<open>__aenter__\<close>. \<open>create\<close> and \<open>close\<close> are operations of the SDK's
  container client; leaving closes the client and keeps the reference to it.
\<close>

type_synonym 'c azure_store = "'c option"

definition azure_enter :: "('c \<Rightarrow> azure_error + 'c) \<Rightarrow> 'c \<Rightarrow> 'c azure_store \<Rightarrow> 'c azure_store result" where
  "azure_enter create client st =
     (case create client of
        Inl ResourceExistsError \<Rightarrow> Inr (Some client)
      | Inl _ \<Rightarrow> Inl RuntimeError
      | Inr c \<Rightarrow> Inr (Some c))"

definition azure_exit :: "('c \<Rightarrow> 'c) \<Rightarrow> 'c azure_store \<Rightarrow> 'c azure_store" where
  "azure_exit close st = map_option close st"

definition azure_client :: "'c azure_store \<Rightarrow> 'c result" where
  "azure_client st = (case st of None \<Rightarrow> Inl RuntimeError | Some c \<Rightarrow> Inr c)"

definition azure_exists :: "('c \<Rightarrow> string \<Rightarrow> bool) \<Rightarrow> 'c azure_store \<Rightarrow> string \<Rightarrow> bool result" where
  "azure_exists blob_exists st k = bindE (azure_client st) (\<lambda>c. Inr (blob_exists c k))"

definition azure_iter_keys :: "('c \<Rightarrow> string list) \<Rightarrow> 'c azure_store \<Rightarrow> string list result" where
  "azure_iter_keys list_blobs st = bindE (azure_client st) (\<lambda>c. Inr (list_blobs c))"

definition azure_store_put ::
  "('c \<Rightarrow> string \<Rightarrow> bytes \<Rightarrow> azure_error + 'c) \<Rightarrow> 'c azure_store \<Rightarrow> string \<Rightarrow> bytes \<Rightarrow> 'c azure_store result" where
  "azure_store_put upload st k body = bindE (azure_client st) (\<lambda>c. bindE (azure_put upload c k body) (\<lambda>c'. Inr (Some c')))"

definition azure_store_delete ::
  "('c \<Rightarrow> string \<Rightarrow> azure_error + 'c) \<Rightarrow> 'c azure_store \<Rightarrow> string \<Rightarrow> 'c azure_store result" where
  "azure_store_delete delete_blob st k = bindE (azure_client st) (\<lambda>c. bindE (azure_delete delete_blob c k) (\<lambda>c'. Inr (Some c')))"

lemma azure_not_entered:
  "azure_exists ex None k = Inl RuntimeError" "azure_iter_keys ls None = Inl RuntimeError"
  "azure_store_put upload None k body = Inl RuntimeError" "azure_store_delete del None k = Inl RuntimeError"
  by (simp_all add: azure_exists_def azure_iter_keys_def azure_store_put_def azure_store_delete_def azure_client_def)

text \<open>Entering is idempotent on the container: an existing one is taken as it is.\<close>

lemma azure_enter_existing: "create client = Inl ResourceExistsError \<Longrightarrow> azure_enter create client st = Inr (Some client)"
  by (simp add: azure_enter_def)

context azure_container
begin

text \<open>Inside the bracket the store keeps what was put first and forgets what was deleted.\<close>

lemma entered_store:
  "\<exists>c'. azure_store_put upload (Some c) k body = Inr (Some c')
     \<and> blob_of c' = (if blob_of c k = None then (blob_of c)(k \<mapsto> body) else blob_of c)"
  "\<exists>c'. azure_store_delete delete_blob (Some c) k = Inr (Some c') \<and> blob_of c' = (blob_of c)(k := None)"
  using azure_put_cases [of c k body] azure_delete_cases [of c k]
  by (auto simp: azure_store_put_def azure_store_delete_def azure_client_def)

end

end
