(* ===== verification/Sweep_Race.thy ===== *)
theory Sweep_Race
  imports Blob
begin

text \<open>
  The sweep of \<open>sweep.py\<close> and the poll of \<open>poll.py\<close> as one machine over a shared blob store and
  the committed keys of \<open>document_versions\<close>. Both loops are coroutines of one process, so
  their awaited calls interleave: a poll uploads, and its transaction commits or rolls back
  later; a sweep reads the referenced keys, then lists the blobs, then visits them one by one.
\<close>

datatype sweep_pc =
    Idle
  | HaveKeys "string list"
  | Scanning "string list" "string list"

record system =
  store :: memory_store
  committed :: "string list"
  in_flight :: "string list"
  sweep_at :: sweep_pc

definition init_system :: system where
  "init_system = \<lparr>store = [], committed = [], in_flight = [], sweep_at = Idle\<rparr>"

inductive step :: "system \<Rightarrow> system \<Rightarrow> bool" where
  poll_upload: "mem_put (store s) k body = Inr st \<Longrightarrow>
    step s (s\<lparr>store := st, in_flight := k # in_flight s\<rparr>)"
| poll_commit: "k \<in> set (in_flight s) \<Longrightarrow>
    step s (s\<lparr>committed := k # committed s, in_flight := remove1 k (in_flight s)\<rparr>)"
| poll_rollback: "k \<in> set (in_flight s) \<Longrightarrow>
    step s (s\<lparr>in_flight := remove1 k (in_flight s)\<rparr>)"
| sweep_read: "sweep_at s = Idle \<Longrightarrow> step s (s\<lparr>sweep_at := HaveKeys (committed s)\<rparr>)"
| sweep_list: "sweep_at s = HaveKeys refs \<Longrightarrow>
    step s (s\<lparr>sweep_at := Scanning refs (mem_keys (store s))\<rparr>)"
| sweep_visit: "sweep_at s = Scanning refs (k # ks) \<Longrightarrow>
    step s (s\<lparr>store := (if sweepable refs k then mem_delete (store s) k else store s),
              sweep_at := Scanning refs ks\<rparr>)"
| sweep_done: "sweep_at s = Scanning refs [] \<Longrightarrow> step s (s\<lparr>sweep_at := Idle\<rparr>)"

inductive_cases step_cases: "step s s'"

inductive reachable :: "system \<Rightarrow> bool" where
  reachable_init: "reachable init_system"
| reachable_step: "reachable s \<Longrightarrow> step s s' \<Longrightarrow> reachable s'"

definition snapshot :: "sweep_pc \<Rightarrow> string list" where
  "snapshot pc = (case pc of Idle \<Rightarrow> [] | HaveKeys refs \<Rightarrow> refs | Scanning refs _ \<Rightarrow> refs)"

definition stored :: "system \<Rightarrow> string \<Rightarrow> bool" where
  "stored s k \<longleftrightarrow> mem_get (store s) k \<noteq> None"

text \<open>The keys that a running pass took as referenced keep their blobs.\<close>

lemma step_keeps_snapshot_blob:
  assumes "step s s'" and "k \<in> set (snapshot (sweep_at s))" and "stored s k"
  shows "stored s' k"
  using assms
proof (cases rule: step.cases)
  case (poll_upload k' body st)
  then show ?thesis using mem.get_put [OF poll_upload(2), of k] assms(3) by (auto simp: stored_def)
next
  case (sweep_visit refs k' ks)
  then show ?thesis using assms(2,3)
    by (auto simp: stored_def snapshot_def sweepable_def mem.get_delete)
qed (auto simp: stored_def)

text \<open>A step that loses a blob is a visit of the scan to an unreferenced, content-addressed key.\<close>

lemma step_loses_blob:
  assumes "step s s'" and "stored s k" and "\<not> stored s' k"
  shows "\<exists>refs ks. sweep_at s = Scanning refs (k # ks) \<and> k \<notin> set refs \<and> is_content_addressed_key k"
  using assms
proof (cases rule: step.cases)
  case (poll_upload k' body st)
  then show ?thesis using mem.get_put [OF poll_upload(2), of k] assms(2,3)
    by (auto simp: stored_def split: if_splits)
next
  case (sweep_visit refs k' ks)
  then show ?thesis using assms(2,3)
    by (auto simp: stored_def sweepable_def mem.get_delete split: if_splits)
qed (auto simp: stored_def)

section \<open>Serial schedules\<close>

text \<open>
  The schedules in which no upload is pending when a pass reads the keys and no poll runs
  during a pass.
\<close>

definition serial_step :: "system \<Rightarrow> system \<Rightarrow> bool" where
  "serial_step s s' \<longleftrightarrow> step s s' \<and> (sweep_at s' \<noteq> Idle \<longrightarrow> in_flight s' = [])"

inductive serially_reachable :: "system \<Rightarrow> bool" where
  serial_init: "serially_reachable init_system"
| serial_next: "serially_reachable s \<Longrightarrow> serial_step s s' \<Longrightarrow> serially_reachable s'"

definition serial_inv :: "system \<Rightarrow> bool" where
  "serial_inv s \<longleftrightarrow>
     (\<forall>k \<in> set (committed s) \<union> set (in_flight s). stored s k) \<and>
     (sweep_at s \<noteq> Idle \<longrightarrow> in_flight s = [] \<and> set (committed s) \<subseteq> set (snapshot (sweep_at s)))"

lemma serial_inv_step:
  assumes "serial_inv s" and "serial_step s s'"
  shows "serial_inv s'"
proof -
  have st: "step s s'" and quiet: "sweep_at s' \<noteq> Idle \<longrightarrow> in_flight s' = []"
    using assms(2) by (simp_all add: serial_step_def)
  note facts = assms(1) quiet
  from st show ?thesis
  proof (cases rule: step.cases)
    case (poll_upload k body st)
    have "stored s' k'" if "stored s k' \<or> k' = k" for k'
      using that mem.get_put [OF poll_upload(2), of k'] poll_upload(1) by (auto simp: stored_def)
    then show ?thesis using facts poll_upload(1) by (auto simp: serial_inv_def)
  next
    case (poll_commit k)
    then show ?thesis using facts
      by (auto simp: serial_inv_def stored_def dest: in_set_remove1 [THEN iffD1, rotated] set_remove1_subset [THEN subsetD])
  next
    case (poll_rollback k)
    then show ?thesis using facts
      by (auto simp: serial_inv_def stored_def dest: set_remove1_subset [THEN subsetD])
  next
    case (sweep_visit refs k ks)
    have "stored s' k'" if "k' \<in> set (committed s)" for k'
    proof (rule step_keeps_snapshot_blob [OF st])
      show "k' \<in> set (snapshot (sweep_at s))" and "stored s k'"
        using that facts sweep_visit by (auto simp: serial_inv_def)
    qed
    then show ?thesis using facts sweep_visit by (auto simp: serial_inv_def snapshot_def)
  qed (use facts in \<open>auto simp: serial_inv_def snapshot_def stored_def\<close>)
qed

lemma serially_reachable_inv: "serially_reachable s \<Longrightarrow> serial_inv s"
proof (induction rule: serially_reachable.induct)
  case serial_init
  then show ?case by (simp add: serial_inv_def init_system_def)
next
  case (serial_next s s')
  then show ?case by (simp add: serial_inv_step)
qed

lemma serially_reachable_reachable: "serially_reachable s \<Longrightarrow> reachable s"
  by (induction rule: serially_reachable.induct)
     (auto simp: serial_step_def intro: reachable.intros)

section \<open>A poll that commits during a pass\<close>

text \<open>
  Read the keys, then a poll uploads and commits, then list and visit: the committed version
  loses its blob.
\<close>

definition raced_system :: "string \<Rightarrow> system" where
  "raced_system k = \<lparr>store = [], committed = [k], in_flight = [], sweep_at = Scanning [] []\<rparr>"

lemma raced_system_reachable:
  assumes "is_content_addressed_key k"
  shows "reachable (raced_system k)"
proof -
  let ?s1 = "init_system\<lparr>sweep_at := HaveKeys []\<rparr>"
  let ?s2 = "?s1\<lparr>store := [(k, [])], in_flight := [k]\<rparr>"
  let ?s3 = "?s2\<lparr>committed := [k], in_flight := []\<rparr>"
  let ?s4 = "?s3\<lparr>sweep_at := Scanning [] [k]\<rparr>"
  note simps = init_system_def raced_system_def mem_put_def mem_get_def mem_keys_def mem_delete_def
    sweepable_def assms
  have "step init_system ?s1" using sweep_read [of init_system] by (simp add: simps)
  moreover have "step ?s1 ?s2" using poll_upload [of ?s1 k "[]" "[(k, [])]"] by (simp add: simps)
  moreover have "step ?s2 ?s3" using poll_commit [of k ?s2] by (simp add: simps)
  moreover have "step ?s3 ?s4" using sweep_list [of ?s3 "[]"] by (simp add: simps)
  moreover have "step ?s4 (raced_system k)" using sweep_visit [of ?s4 "[]" k "[]"] by (simp add: simps)
  ultimately show ?thesis by (meson reachable.intros)
qed

end
