(* ===== verification/Corpus_DB.thy ===== *)
theory Corpus_DB
  imports Align Parser Blob
begin

text \<open>
  The corpus tables as PostgreSQL keeps them: \<open>documents\<close>, \<open>document_versions\<close> (migrations 0003
  and 0007), \<open>clauses\<close> (0003, 0015, 0016) and \<open>change_events\<close> (0010), their constraints and
  append-only triggers, and the statements of \<open>poll.py\<close> on them. Rows are kept in insertion
  order. Identifiers that a default or \<open>uuid4\<close> supplies are drawn from a counter, which stands
  for "never used before". A statement that violates a constraint is an error value.
\<close>

section \<open>Rows\<close>

type_synonym uuid = nat
type_synonym timestamp = int

record document_row =
  d_id :: uuid
  d_jurisdiction :: string
  d_sector :: string
  d_lawstronaut :: string
  d_title :: string
  d_created :: timestamp

record version_row =
  v_id :: uuid
  v_document :: uuid
  v_label :: ustr
  v_no :: "nat option"
  v_from :: "timestamp option"
  v_to :: "timestamp option"
  v_publication :: "timestamp option"
  v_effective :: "timestamp option"
  v_container :: string
  v_key :: string
  v_sha :: bytes
  v_bytes :: nat

record clause_row =
  c_version :: uuid
  c_uid :: uuid
  c_path :: ustr
  c_text :: ustr
  c_heading :: "ustr option"
  c_label :: "ustr option"
  c_ord :: nat

record event_row =
  e_document :: uuid
  e_version :: uuid
  e_jurisdiction :: string
  e_sector :: string
  e_type :: change_type
  e_before_uid :: "uuid option"
  e_after_uid :: "uuid option"
  e_before_path :: "ustr option"
  e_after_path :: "ustr option"
  e_before_text :: "ustr option"
  e_after_text :: "ustr option"
  e_confidence :: rat
  e_effective :: "timestamp option"

record corpus =
  documents :: "document_row list"
  versions :: "version_row list"
  clauses :: "clause_row list"
  events :: "event_row list"
  next_uuid :: uuid

text \<open>PostgreSQL text has no NUL character and is valid UTF-8, hence has no surrogates.\<close>

definition pg_text :: "ustr \<Rightarrow> bool" where
  "pg_text t \<longleftrightarrow> (\<forall>c \<in> set t. c \<noteq> 0 \<and> \<not> surrogate c)"

definition pg_text_opt :: "ustr option \<Rightarrow> bool" where
  "pg_text_opt t = (case t of None \<Rightarrow> True | Some s \<Rightarrow> pg_text s)"

section \<open>document_versions\<close>

text \<open>\<open>LIVE_VERSION_SQL\<close>: the open version with the greatest number, null numbers last.\<close>

definition no_before :: "nat option \<Rightarrow> nat option \<Rightarrow> bool" where
  "no_before a b = (case (a, b) of (_, None) \<Rightarrow> True | (None, Some _) \<Rightarrow> False | (Some x, Some y) \<Rightarrow> y \<le> x)"

fun first_by_no :: "version_row list \<Rightarrow> version_row option" where
  "first_by_no [] = None"
| "first_by_no (r # rs) =
     (case first_by_no rs of None \<Rightarrow> Some r
      | Some b \<Rightarrow> if no_before (v_no r) (v_no b) then Some r else Some b)"

definition live_version :: "corpus \<Rightarrow> uuid \<Rightarrow> version_row option" where
  "live_version db d = first_by_no (filter (\<lambda>r. v_document r = d \<and> v_to r = None) (versions db))"

text \<open>The trigger of migration 0007: only \<open>valid_to\<close> may change.\<close>

definition reject_document_version_update :: "version_row \<Rightarrow> version_row \<Rightarrow> version_row result" where
  "reject_document_version_update old_row new_row =
     (if v_id new_row \<noteq> v_id old_row
         \<or> v_document new_row \<noteq> v_document old_row
         \<or> v_label new_row \<noteq> v_label old_row
         \<or> v_no new_row \<noteq> v_no old_row
         \<or> v_publication new_row \<noteq> v_publication old_row
         \<or> v_effective new_row \<noteq> v_effective old_row
         \<or> v_container new_row \<noteq> v_container old_row
         \<or> v_key new_row \<noteq> v_key old_row
         \<or> v_sha new_row \<noteq> v_sha old_row
         \<or> v_bytes new_row \<noteq> v_bytes old_row
         \<or> v_from new_row \<noteq> v_from old_row
      then Inl (DbError RaiseException) else Inr new_row)"

definition update_versions ::
  "(version_row \<Rightarrow> bool) \<Rightarrow> (version_row \<Rightarrow> version_row) \<Rightarrow> corpus \<Rightarrow> corpus result" where
  "update_versions sel f db =
     bindE (mapE (\<lambda>r. if sel r then reject_document_version_update r (f r) else Inr r) (versions db))
       (\<lambda>rs. Inr (db\<lparr>versions := rs\<rparr>))"

text \<open>\<open>EXTEND_VALID_TO_SQL\<close> and \<open>CLOSE_PREV_VERSION_SQL\<close>.\<close>

definition extend_valid_to :: "uuid \<Rightarrow> timestamp \<Rightarrow> corpus \<Rightarrow> corpus result" where
  "extend_valid_to vid now = update_versions (\<lambda>r. v_id r = vid) (v_to_update (\<lambda>_. Some now))"

definition close_prev_version :: "uuid \<Rightarrow> timestamp \<Rightarrow> corpus \<Rightarrow> corpus result" where
  "close_prev_version vid now =
     update_versions (\<lambda>r. v_id r = vid \<and> v_to r = None) (v_to_update (\<lambda>_. Some now))"

text \<open>An insert: the constraints of the table, then the row with a fresh id.\<close>

definition insert_version_row :: "version_row \<Rightarrow> corpus \<Rightarrow> (corpus \<times> uuid) result" where
  "insert_version_row row db =
     (if length (v_sha row) \<noteq> 32 then Inl (DbError CheckViolation)
      else if \<exists>r \<in> set (versions db). v_document r = v_document row \<and> v_label r = v_label row
      then Inl (DbError UniqueViolation)
      else if v_no row \<noteq> None \<and> (\<exists>r \<in> set (versions db). v_document r = v_document row \<and> v_no r = v_no row)
      then Inl (DbError UniqueViolation)
      else if \<not> (\<exists>r \<in> set (documents db). d_id r = v_document row) then Inl (DbError ForeignKeyViolation)
      else Inr (db\<lparr>versions := versions db @ [row\<lparr>v_id := next_uuid db\<rparr>], next_uuid := Suc (next_uuid db)\<rparr>,
                next_uuid db))"

text \<open>\<open>INSERT_VERSION_SQL\<close> of the poll.\<close>

definition insert_version ::
  "uuid \<Rightarrow> ustr \<Rightarrow> nat \<Rightarrow> timestamp \<Rightarrow> timestamp option \<Rightarrow> timestamp option \<Rightarrow> string \<Rightarrow> string
    \<Rightarrow> bytes \<Rightarrow> nat \<Rightarrow> corpus \<Rightarrow> (corpus \<times> uuid) result" where
  "insert_version d lab no valid_from publication effective container key sha len db =
     insert_version_row \<lparr>v_id = next_uuid db, v_document = d, v_label = lab, v_no = Some no,
        v_from = Some valid_from, v_to = None, v_publication = publication, v_effective = effective,
        v_container = container, v_key = key, v_sha = sha, v_bytes = len\<rparr> db"

section \<open>clauses and change_events\<close>

definition insert_clause :: "corpus \<Rightarrow> clause_row \<Rightarrow> corpus result" where
  "insert_clause db row =
     (if \<not> (pg_text (c_path row) \<and> pg_text (c_text row) \<and> pg_text_opt (c_heading row) \<and> pg_text_opt (c_label row))
      then Inl (DbError InvalidText)
      else if \<exists>r \<in> set (clauses db). c_version r = c_version row \<and> c_path r = c_path row
      then Inl (DbError UniqueViolation)
      else if \<not> (\<exists>r \<in> set (versions db). v_id r = c_version row) then Inl (DbError ForeignKeyViolation)
      else Inr (db\<lparr>clauses := clauses db @ [row]\<rparr>))"

definition insert_change_event :: "corpus \<Rightarrow> event_row \<Rightarrow> corpus result" where
  "insert_change_event db row =
     (if \<not> (pg_text_opt (e_before_path row) \<and> pg_text_opt (e_after_path row)
            \<and> pg_text_opt (e_before_text row) \<and> pg_text_opt (e_after_text row))
      then Inl (DbError InvalidText)
      else if \<not> (0 < e_confidence row \<and> e_confidence row \<le> 1) then Inl (DbError CheckViolation)
      else if \<not> (\<exists>r \<in> set (documents db). d_id r = e_document row) then Inl (DbError ForeignKeyViolation)
      else if \<not> (\<exists>r \<in> set (versions db). v_id r = e_version row) then Inl (DbError ForeignKeyViolation)
      else Inr (db\<lparr>events := events db @ [row]\<rparr>))"

text \<open>\<open>DOCUMENT_SCOPE_SQL\<close> and \<open>PREV_CLAUSES_SQL\<close> (ordered by \<open>ord\<close>).\<close>

definition document_scope :: "corpus \<Rightarrow> uuid \<Rightarrow> (string \<times> string) option" where
  "document_scope db d =
     map_option (\<lambda>r. (d_jurisdiction r, d_sector r)) (List.find (\<lambda>r. d_id r = d) (documents db))"

definition prev_clauses :: "corpus \<Rightarrow> uuid \<Rightarrow> clause_row list" where
  "prev_clauses db vid = sort_key c_ord (filter (\<lambda>r. c_version r = vid) (clauses db))"

section \<open>Facts on the statements\<close>

lemmas insert_version_defs = insert_version_def insert_version_row_def

lemma trigger_valid_to [simp]: "reject_document_version_update r (r\<lparr>v_to := t\<rparr>) = Inr (r\<lparr>v_to := t\<rparr>)"
  by (simp add: reject_document_version_update_def)

text \<open>The trigger lets exactly the changes of \<open>valid_to\<close> through.\<close>

lemma trigger_iff:
  "reject_document_version_update r r' = Inr r'' \<longleftrightarrow> r'' = r' \<and> r' = r\<lparr>v_to := v_to r'\<rparr>"
  by (cases r; cases r') (auto simp: reject_document_version_update_def)

lemma update_valid_to_eq:
  "update_versions sel (v_to_update (\<lambda>_. t)) db =
     Inr (db\<lparr>versions := map (\<lambda>r. if sel r then r\<lparr>v_to := t\<rparr> else r) (versions db)\<rparr>)"
proof -
  have "mapE (\<lambda>r. if sel r then reject_document_version_update r (v_to_update (\<lambda>_. t) r) else Inr r) (versions db)
      = Inr (map (\<lambda>r. if sel r then r\<lparr>v_to := t\<rparr> else r) (versions db))"
    by (rule mapE_total) simp
  then show ?thesis by (simp add: update_versions_def)
qed

lemmas extend_valid_to_eq = extend_valid_to_def update_valid_to_eq
lemmas close_prev_version_eq = close_prev_version_def update_valid_to_eq

lemma first_by_no_in: "first_by_no rs = Some r \<Longrightarrow> r \<in> set rs"
  by (induction rs arbitrary: r) (auto split: option.splits if_splits)

lemma first_by_no_None [simp]: "first_by_no rs = None \<longleftrightarrow> rs = []"
  by (cases rs) (auto split: option.splits)

lemma no_before_total: "no_before a b \<or> no_before b a"
  by (auto simp: no_before_def split: option.splits)

lemma no_before_trans: "no_before a b \<Longrightarrow> no_before b c \<Longrightarrow> no_before a c"
  by (auto simp: no_before_def split: option.splits)

lemma first_by_no_greatest: "first_by_no rs = Some r \<Longrightarrow> q \<in> set rs \<Longrightarrow> no_before (v_no r) (v_no q)"
proof (induction rs arbitrary: r q)
  case Nil
  then show ?case by simp
next
  case (Cons p rs)
  show ?case
  proof (cases "first_by_no rs")
    case None
    then show ?thesis using Cons.prems no_before_total by auto
  next
    case (Some b)
    then show ?thesis using Cons.prems Cons.IH [OF Some] no_before_total no_before_trans
      by (auto split: if_splits)
  qed
qed

lemma live_version_SomeD:
  "live_version db d = Some r \<Longrightarrow> r \<in> set (versions db) \<and> v_document r = d \<and> v_to r = None"
  unfolding live_version_def by (drule first_by_no_in) simp

lemma live_version_None_iff:
  "live_version db d = None \<longleftrightarrow> (\<forall>r \<in> set (versions db). v_document r = d \<longrightarrow> v_to r \<noteq> None)"
  by (auto simp: live_version_def filter_empty_conv)

lemma v_to_erase: "r' = r\<lparr>v_to := t\<rparr> \<Longrightarrow> r'\<lparr>v_to := None\<rparr> = r\<lparr>v_to := None\<rparr>"
  by simp

text \<open>Whatever a version holds besides \<open>valid_to\<close> is kept by every update that the trigger passes.\<close>

lemma update_versions_append_only:
  assumes "update_versions sel f db = Inr db'"
  shows "map (v_to_update (\<lambda>_. None)) (versions db') = map (v_to_update (\<lambda>_. None)) (versions db)"
    and "clauses db' = clauses db" "events db' = events db" "documents db' = documents db"
proof -
  obtain rs where rs: "mapE (\<lambda>r. if sel r then reject_document_version_update r (f r) else Inr r) (versions db) = Inr rs"
    "db' = db\<lparr>versions := rs\<rparr>" using assms by (auto simp: update_versions_def bindE_eq_Inr)
  have "list_all2 (\<lambda>r r'. v_to_update (\<lambda>_. None) r' = v_to_update (\<lambda>_. None) r) (versions db) rs"
    using rs(1) unfolding mapE_Inr_iff
    by (rule list_all2_mono) (auto simp: trigger_iff split: if_splits dest: v_to_erase)
  then have "map (v_to_update (\<lambda>_. None)) rs = map (v_to_update (\<lambda>_. None)) (versions db)"
    by (induction rule: list_all2_induct) auto
  then show "map (v_to_update (\<lambda>_. None)) (versions db') = map (v_to_update (\<lambda>_. None)) (versions db)"
    "clauses db' = clauses db" "events db' = events db" "documents db' = documents db"
    using rs(2) by simp_all
qed

end
