(* ===== verification/Poll.thy ===== *)
theory Poll
  imports Corpus_DB
begin

text \<open>
  The per-document poll of \<open>poll.py\<close>: what one call of \<open>poll_document\<close> does to the blob store
  and to the corpus. The blob store is outside the database transaction, so the outcome is the
  store together with either the exception that leaves the function or the new corpus; an
  exception's database writes are discarded with the transaction. The third-party parts
  (markdown-it's tokens, datasketch's signatures and index, the Unicode tables) and SHA-256 are
  fields of the environment.
\<close>

record poll_env =
  env_tokens :: "ustr \<Rightarrow> token list"
  env_unidb :: unidb
  env_minhash :: minhasher
  env_lsh :: lsh_index
  env_tuning :: "tuning option"
  env_sha256 :: "bytes \<Rightarrow> bytes"
  env_container :: string

record markdown_document =
  md_markdown :: ustr
  md_publication :: "timestamp option"

section \<open>The previous version's tree\<close>

definition persistable :: "clause \<Rightarrow> bool" where
  "persistable n =
     (if strip (body_text n) \<noteq> [] then True
      else case heading_text n of None \<Rightarrow> False | Some h \<Rightarrow> h \<noteq> [] \<and> strip h \<noteq> [])"

definition path_str :: "cpath \<Rightarrow> ustr" where
  "path_str p = join (u ''/'') p"

definition path_of_str :: "ustr \<Rightarrow> cpath" where
  "path_of_str s = (if s \<noteq> [] then split_on 47 s else [])"

text \<open>A Python dict with clause paths as keys; the newest entry of a key is the first.\<close>

type_synonym uid_map = "(cpath \<times> uuid) list"

definition load_previous_tree :: "corpus \<Rightarrow> uuid \<Rightarrow> clause option \<times> uid_map" where
  "load_previous_tree db vid =
     (let rows = prev_clauses db vid in
      if rows = [] then (None, [])
      else (Some (Clause [] None [] None
                    (map (\<lambda>r. Clause (path_of_str (c_path r)) (c_heading r) (c_text r) (c_label r) []) rows)),
            rev (map (\<lambda>r. (path_of_str (c_path r), c_uid r)) rows)))"

section \<open>Events and clause identities\<close>

fun initial_events_of :: "clause list \<Rightarrow> change_event list result" where
  "initial_events_of [] = Inr []"
| "initial_events_of (n # ns) =
     (if strip (body_text n) = [] then initial_events_of ns
      else bindE (mk_event \<lparr>change_type = ADDED, before_clause_uid = None, after_clause_uid = None,
                     before_path = None, after_path = Some (path n), before_text = None,
                     after_text = Some (body_text n), alignment_confidence = 1\<rparr>)
             (\<lambda>ev. bindE (initial_events_of ns) (\<lambda>evs. Inr (ev # evs))))"

definition initial_events :: "clause \<Rightarrow> change_event list result" where
  "initial_events tree = initial_events_of (walk tree)"

fun pair_by_after_path :: "change_event list \<Rightarrow> (cpath \<times> cpath) list \<Rightarrow> (cpath \<times> cpath) list" where
  "pair_by_after_path [] m = m"
| "pair_by_after_path (ev # evs) m =
     (case (after_path ev, before_path ev) of
        (Some a, Some b) \<Rightarrow> pair_by_after_path evs ((a, b) # m)
      | _ \<Rightarrow> pair_by_after_path evs m)"

text \<open>The loop over the nodes; the counter supplies the fresh identifiers.\<close>

fun uid_loop ::
  "(cpath \<times> cpath) list \<Rightarrow> uid_map \<Rightarrow> clause list \<Rightarrow> uid_map \<Rightarrow> uuid \<Rightarrow> uid_map \<times> uuid" where
  "uid_loop pairs prev [] out fresh = (out, fresh)"
| "uid_loop pairs prev (n # ns) out fresh =
     (if \<not> persistable n then uid_loop pairs prev ns out fresh
      else case (case map_of pairs (path n) of None \<Rightarrow> None | Some b \<Rightarrow> map_of prev b) of
        Some uid \<Rightarrow> uid_loop pairs prev ns ((path n, uid) # out) fresh
      | None \<Rightarrow>
          (case map_of prev (path n) of
             Some uid \<Rightarrow> uid_loop pairs prev ns ((path n, uid) # out) fresh
           | None \<Rightarrow> uid_loop pairs prev ns ((path n, fresh) # out) (Suc fresh)))"

definition build_clause_uid_map ::
  "clause \<Rightarrow> change_event list \<Rightarrow> uid_map \<Rightarrow> uuid \<Rightarrow> uid_map \<times> uuid" where
  "build_clause_uid_map tree evs prev fresh =
     uid_loop (pair_by_after_path evs []) prev (walk tree) [] fresh"

section \<open>Rows\<close>

fun clause_rows_of :: "uid_map \<Rightarrow> uuid \<Rightarrow> clause list \<Rightarrow> nat \<Rightarrow> clause_row list result" where
  "clause_rows_of uids vid [] counter = Inr []"
| "clause_rows_of uids vid (n # ns) counter =
     (if \<not> persistable n then clause_rows_of uids vid ns counter
      else (case map_of uids (path n) of
              None \<Rightarrow> Inl KeyError
            | Some uid \<Rightarrow>
                bindE (clause_rows_of uids vid ns (Suc counter)) (\<lambda>rows.
                  Inr (\<lparr>c_version = vid, c_uid = uid, c_path = path_str (path n), c_text = body_text n,
                        c_heading = heading_text n, c_label = numbering_label n,
                        c_ord = Suc counter\<rparr> # rows))))"

definition clause_insert_rows :: "clause \<Rightarrow> uid_map \<Rightarrow> uuid \<Rightarrow> clause_row list result" where
  "clause_insert_rows tree uids vid = clause_rows_of uids vid (walk tree) 0"

definition event_row_of ::
  "uid_map \<Rightarrow> uid_map \<Rightarrow> uuid \<Rightarrow> uuid \<Rightarrow> string \<Rightarrow> string \<Rightarrow> timestamp option \<Rightarrow> change_event \<Rightarrow> event_row" where
  "event_row_of uids prev d vid jurisdiction sector effective ev =
     (let after_uid = (case after_path ev of None \<Rightarrow> None | Some p \<Rightarrow> map_of uids p);
          before_uid = (case change_type ev of
              MODIFIED \<Rightarrow> after_uid
            | MOVED \<Rightarrow> after_uid
            | REMOVED \<Rightarrow> (case before_path ev of None \<Rightarrow> None | Some p \<Rightarrow> map_of prev p)
            | ADDED \<Rightarrow> None)
      in \<lparr>e_document = d, e_version = vid, e_jurisdiction = jurisdiction, e_sector = sector,
          e_type = change_type ev, e_before_uid = before_uid, e_after_uid = after_uid,
          e_before_path = map_option path_str (before_path ev),
          e_after_path = map_option path_str (after_path ev),
          e_before_text = before_text ev, e_after_text = after_text ev,
          e_confidence = alignment_confidence ev, e_effective = effective\<rparr>)"

definition change_event_insert_rows ::
  "change_event list \<Rightarrow> uid_map \<Rightarrow> uid_map \<Rightarrow> uuid \<Rightarrow> uuid \<Rightarrow> string \<Rightarrow> string \<Rightarrow> timestamp option
    \<Rightarrow> event_row list" where
  "change_event_insert_rows evs uids prev d vid jurisdiction sector effective =
     map (event_row_of uids prev d vid jurisdiction sector effective) evs"

section \<open>poll_document\<close>

text \<open>The writes of one changed poll, after the new tree and its events are known.\<close>

definition persist_version ::
  "poll_env \<Rightarrow> uuid \<Rightarrow> timestamp \<Rightarrow> markdown_document \<Rightarrow> bytes \<Rightarrow> version_row option
    \<Rightarrow> string \<times> string \<Rightarrow> clause \<Rightarrow> change_event list \<Rightarrow> uid_map \<Rightarrow> corpus \<Rightarrow> corpus result" where
  "persist_version env d now doc body live scope new_tree evs prev_uids db =
     (let (uids, fresh) = build_clause_uid_map new_tree evs prev_uids (next_uuid db);
          prev_no = (case live of None \<Rightarrow> 0 | Some v \<Rightarrow> (case v_no v of None \<Rightarrow> 0 | Some n \<Rightarrow> n));
          no = prev_no + 1;
          sha = env_sha256 env body;
          publication = md_publication doc;
          effective = publication
      in bindE (insert_version d (u ''v'' @ dec no) no now publication effective
                  (env_container env) (content_key sha) sha (length body) (db\<lparr>next_uuid := fresh\<rparr>))
           (\<lambda>(db1, vid).
         bindE (clause_insert_rows new_tree uids vid) (\<lambda>crows.
         bindE (foldE insert_clause db1 crows) (\<lambda>db2.
         bindE (foldE insert_change_event db2
                  (change_event_insert_rows evs uids prev_uids d vid (fst scope) (snd scope) effective))
           (\<lambda>db3.
         case live of None \<Rightarrow> Inr db3 | Some v \<Rightarrow> close_prev_version (v_id v) now db3)))))"

definition poll_changed ::
  "poll_env \<Rightarrow> uuid \<Rightarrow> timestamp \<Rightarrow> markdown_document \<Rightarrow> bytes \<Rightarrow> version_row option \<Rightarrow> corpus \<Rightarrow> corpus result" where
  "poll_changed env d now doc body live db =
     (case document_scope db d of
        None \<Rightarrow> Inl RuntimeError
      | Some scope \<Rightarrow>
          bindE (parse (env_unidb env) default_parser_config (env_tokens env (md_markdown doc))) (\<lambda>new_tree.
            let (prev_tree, prev_uids) = (case live of None \<Rightarrow> (None, []) | Some v \<Rightarrow> load_previous_tree db (v_id v))
            in bindE (case prev_tree of
                        None \<Rightarrow> initial_events new_tree
                      | Some t \<Rightarrow> align (env_minhash env) (env_lsh env) t new_tree (env_tuning env))
                 (\<lambda>evs. persist_version env d now doc body live scope new_tree evs prev_uids db)))"

definition poll_document ::
  "poll_env \<Rightarrow> uuid \<Rightarrow> timestamp \<Rightarrow> markdown_document option result \<Rightarrow> memory_store \<Rightarrow> corpus
    \<Rightarrow> memory_store \<times> corpus result" where
  "poll_document env d now fetched blobs db =
     (case fetched of
        Inl e \<Rightarrow> (blobs, Inl e)
      | Inr None \<Rightarrow> (blobs, Inr db)
      | Inr (Some doc) \<Rightarrow>
          (case utf8_encode (md_markdown doc) of
             Inl e \<Rightarrow> (blobs, Inl e)
           | Inr body \<Rightarrow>
               let sha = env_sha256 env body; live = live_version db d in
               (case live of
                  Some v \<Rightarrow>
                    if v_sha v = sha then (blobs, extend_valid_to (v_id v) now db)
                    else (case mem_put blobs (content_key sha) body of
                            Inl e \<Rightarrow> (blobs, Inl e)
                          | Inr blobs' \<Rightarrow> (blobs', poll_changed env d now doc body live db))
                | None \<Rightarrow>
                    (case mem_put blobs (content_key sha) body of
                       Inl e \<Rightarrow> (blobs, Inl e)
                     | Inr blobs' \<Rightarrow> (blobs', poll_changed env d now doc body live db)))))"

end
