(* ===== verification/Poll_Correct.thy ===== *)
theory Poll_Correct
  imports Poll Align_Correct Parser_Inv
begin

text \<open>
  What a poll does to the corpus: the identities its clauses get, the rows it writes, the
  invariant of the version history it keeps, and what it leaves behind when the document has
  not changed.
\<close>

section \<open>Clause identities\<close>

text \<open>The identity that a path takes over from the previous version, if any.\<close>

definition inherited :: "(cpath \<times> cpath) list \<Rightarrow> uid_map \<Rightarrow> cpath \<Rightarrow> uuid option" where
  "inherited pairs prev p =
     (case (case map_of pairs p of None \<Rightarrow> None | Some b \<Rightarrow> map_of prev b) of
        Some uid \<Rightarrow> Some uid | None \<Rightarrow> map_of prev p)"

lemma uid_loop_Cons:
  "uid_loop pairs prev (n # ns) out fresh =
     (if \<not> persistable n then uid_loop pairs prev ns out fresh
      else case inherited pairs prev (path n) of
        Some uid \<Rightarrow> uid_loop pairs prev ns ((path n, uid) # out) fresh
      | None \<Rightarrow> uid_loop pairs prev ns ((path n, fresh) # out) (Suc fresh))"
  by (simp add: inherited_def split: option.splits)

declare uid_loop.simps(2) [simp del]

definition persist_paths :: "clause list \<Rightarrow> cpath list" where
  "persist_paths ns = map path (filter persistable ns)"

lemma uid_loop_frame:
  "uid_loop pairs prev ns out fresh = (out', fresh') \<Longrightarrow>
     fresh \<le> fresh' \<and> (\<forall>p. p \<notin> set (persist_paths ns) \<longrightarrow> map_of out' p = map_of out p)"
proof (induction ns arbitrary: out fresh)
  case Nil
  then show ?case by simp
next
  case (Cons n ns)
  show ?case
  proof (cases "persistable n")
    case False
    then show ?thesis using Cons by (simp add: uid_loop_Cons persist_paths_def)
  next
    case True
    then show ?thesis using Cons.prems Cons.IH
      by (fastforce simp: uid_loop_Cons persist_paths_def split: option.splits)
  qed
qed

lemma uid_loop_assigns:
  assumes "uid_loop pairs prev ns out fresh = (out', fresh')" "p \<in> set (persist_paths ns)"
  shows "\<exists>uid. map_of out' p = Some uid \<and>
    (case inherited pairs prev p of Some i \<Rightarrow> uid = i | None \<Rightarrow> fresh \<le> uid \<and> uid < fresh')"
  using assms
proof (induction ns arbitrary: out fresh)
  case Nil
  then show ?case by (simp add: persist_paths_def)
next
  case (Cons n ns)
  show ?case
  proof (cases "persistable n")
    case False
    then show ?thesis using Cons by (simp add: uid_loop_Cons persist_paths_def)
  next
    case True
    define next_state where "next_state = (case inherited pairs prev (path n) of
        Some uid \<Rightarrow> ((path n, uid) # out, fresh) | None \<Rightarrow> ((path n, fresh) # out, Suc fresh))"
    have rest: "uid_loop pairs prev ns (fst next_state) (snd next_state) = (out', fresh')"
      using Cons.prems(1) True by (simp add: uid_loop_Cons next_state_def split: option.splits)
    have le: "fresh \<le> snd next_state" by (simp add: next_state_def split: option.splits)
    note frame = uid_loop_frame [OF rest]
    show ?thesis
    proof (cases "p \<in> set (persist_paths ns)")
      case True
      then show ?thesis using Cons.IH [OF rest True] le by (auto split: option.splits)
    next
      case False
      then have "p = path n" using Cons.prems(2) \<open>persistable n\<close> by (simp add: persist_paths_def)
      moreover have "map_of out' p = map_of (fst next_state) p" "snd next_state \<le> fresh'"
        using frame False by auto
      ultimately show ?thesis by (simp add: next_state_def split: option.splits)
    qed
  qed
qed

text \<open>Two clauses that inherit nothing get different identities.\<close>

lemma uid_loop_fresh_distinct:
  assumes "uid_loop pairs prev ns out fresh = (out', fresh')"
    and "p \<in> set (persist_paths ns)" "q \<in> set (persist_paths ns)" "p \<noteq> q"
    and "inherited pairs prev p = None" "inherited pairs prev q = None"
  shows "map_of out' p \<noteq> map_of out' q"
  using assms(1-4)
proof (induction ns arbitrary: out fresh)
  case Nil
  then show ?case by (simp add: persist_paths_def)
next
  case (Cons n ns)
  have later: "map_of out' a \<noteq> map_of out' b"
    if "uid_loop pairs prev ns ((a, fresh) # out) (Suc fresh) = (out', fresh')"
      "a \<notin> set (persist_paths ns)" "b \<in> set (persist_paths ns)" "inherited pairs prev b = None" for a b
    using uid_loop_frame [OF that(1)] uid_loop_assigns [OF that(1,3)] that(2,4) by fastforce
  show ?case
  proof (cases "persistable n \<and> path n \<notin> set (persist_paths ns) \<and> (p = path n \<or> q = path n)")
    case True
    then have "uid_loop pairs prev ns ((path n, fresh) # out) (Suc fresh) = (out', fresh')"
      using Cons.prems(1) assms(5,6) by (auto simp: uid_loop_Cons)
    then show ?thesis
      using True Cons.prems(2-4) later [of p q] later [of q p] assms(5,6)
      by (auto simp: persist_paths_def)
  next
    case False
    then have "p \<in> set (persist_paths ns)" "q \<in> set (persist_paths ns)"
      using Cons.prems(2,3) by (auto simp: persist_paths_def split: if_splits)
    then show ?thesis using Cons.prems(1,4) Cons.IH
      by (fastforce simp: uid_loop_Cons split: if_splits option.splits)
  qed
qed

section \<open>Clause rows\<close>

definition clause_row_of :: "uid_map \<Rightarrow> uuid \<Rightarrow> nat \<times> clause \<Rightarrow> clause_row" where
  "clause_row_of uids vid p =
     \<lparr>c_version = vid, c_uid = the (map_of uids (path (snd p))), c_path = path_str (path (snd p)),
      c_text = body_text (snd p), c_heading = heading_text (snd p),
      c_label = numbering_label (snd p), c_ord = fst p\<rparr>"

lemma clause_rows_of_eq:
  assumes "\<forall>p \<in> set (persist_paths ns). map_of uids p \<noteq> None"
  shows "clause_rows_of uids vid ns k =
    Inr (map (clause_row_of uids vid) (List.enumerate (Suc k) (filter persistable ns)))"
  using assms by (induction ns arbitrary: k) (auto simp: persist_paths_def clause_row_of_def)

definition clause_texts_ok :: "clause \<Rightarrow> bool" where
  "clause_texts_ok n \<longleftrightarrow> pg_text (path_str (path n)) \<and> pg_text (body_text n)
     \<and> pg_text_opt (heading_text n) \<and> pg_text_opt (numbering_label n)"

lemma insert_clauses_eq:
  assumes "\<forall>row \<in> set rows. c_version row = vid \<and> pg_text (c_path row) \<and> pg_text (c_text row)
      \<and> pg_text_opt (c_heading row) \<and> pg_text_opt (c_label row)"
    and "distinct (map c_path rows)"
    and "\<forall>r \<in> set (clauses db). c_version r = vid \<longrightarrow> c_path r \<notin> c_path ` set rows"
    and "\<exists>r \<in> set (versions db). v_id r = vid"
  shows "foldE insert_clause db rows = Inr (db\<lparr>clauses := clauses db @ rows\<rparr>)"
  using assms
proof (induction rows arbitrary: db)
  case Nil
  then show ?case by simp
next
  case (Cons row rows)
  have "insert_clause db row = Inr (db\<lparr>clauses := clauses db @ [row]\<rparr>)"
    using Cons.prems by (auto simp: insert_clause_def)
  moreover have "foldE insert_clause (db\<lparr>clauses := clauses db @ [row]\<rparr>) rows
      = Inr (db\<lparr>clauses := (clauses db @ [row]) @ rows\<rparr>)"
    using Cons.prems by (subst Cons.IH) auto
  ultimately show ?case by simp
qed

lemma insert_clause_frame:
  "insert_clause db row = Inr db' \<Longrightarrow> db' = db\<lparr>clauses := clauses db @ [row]\<rparr>
     \<and> (\<forall>r \<in> set (clauses db). c_version r = c_version row \<longrightarrow> c_path r \<noteq> c_path row)"
  by (auto simp: insert_clause_def split: if_splits)

lemma insert_clauses_texts:
  "foldE insert_clause db rows = Inr db' \<Longrightarrow> \<forall>row \<in> set rows. pg_text (c_path row) \<and> pg_text (c_text row)"
  by (induction rows arbitrary: db) (fastforce simp: bindE_eq_Inr insert_clause_def split: if_splits)+

lemma insert_clauses_frame:
  "foldE insert_clause db rows = Inr db' \<Longrightarrow> db' = db\<lparr>clauses := clauses db @ rows\<rparr>"
  by (induction rows arbitrary: db) (fastforce simp: bindE_eq_Inr dest!: insert_clause_frame)+

section \<open>Event rows\<close>

lemma insert_events_frame:
  "foldE insert_change_event db rows = Inr db' \<Longrightarrow> db' = db\<lparr>events := events db @ rows\<rparr>"
  by (induction rows arbitrary: db) (fastforce simp: bindE_eq_Inr insert_change_event_def split: if_splits)+

lemma insert_events_eq:
  assumes "\<forall>row \<in> set rows. pg_text_opt (e_before_path row) \<and> pg_text_opt (e_after_path row)
      \<and> pg_text_opt (e_before_text row) \<and> pg_text_opt (e_after_text row)
      \<and> 0 < e_confidence row \<and> e_confidence row \<le> 1
      \<and> (\<exists>r \<in> set (documents db). d_id r = e_document row)
      \<and> (\<exists>r \<in> set (versions db). v_id r = e_version row)"
  shows "foldE insert_change_event db rows = Inr (db\<lparr>events := events db @ rows\<rparr>)"
  using assms by (induction rows arbitrary: db) (auto simp: insert_change_event_def)

section \<open>Events of the aligner\<close>

lemma mk_event_SomeD: "mk_event ev = Inr ev' \<Longrightarrow> ev' = ev \<and> 0 < alignment_confidence ev
    \<and> alignment_confidence ev \<le> 1 \<and> field_presence_ok ev"
  by (auto simp: mk_event_def split: if_splits)

definition event_valid :: "change_event \<Rightarrow> bool" where
  "event_valid ev \<longleftrightarrow> 0 < alignment_confidence ev \<and> alignment_confidence ev \<le> 1 \<and> field_presence_ok ev"

lemma mapE_mk_event: "mapE (mk_event \<circ> f) xs = Inr ys \<Longrightarrow> \<forall>ev \<in> set ys. event_valid ev"
  by (induction xs arbitrary: ys) (auto simp: bindE_eq_Inr event_valid_def dest!: mk_event_SomeD)

lemma pair_event_valid: "pair_event c1 c2 p = Inr evs \<Longrightarrow> \<forall>ev \<in> set evs. event_valid ev"
  by (auto simp: pair_event_def Let_def bindE_eq_Inr event_valid_def split: prod.splits if_splits dest!: mk_event_SomeD)

lemma emit_events_valid:
  assumes "emit_events c1 c2 p1 p2 ps = Inr evs"
  shows "\<forall>ev \<in> set evs. event_valid ev"
proof -
  have "\<forall>ev \<in> set (concat rows). event_valid ev" if "mapE (pair_event c1 c2) ps = Inr rows" for rows
  proof
    fix ev assume "ev \<in> set (concat rows)"
    then obtain row where "row \<in> set rows" "ev \<in> set row" by auto
    then obtain i where "i < length rows" "ev \<in> set (rows ! i)" by (metis in_set_conv_nth)
    then show "event_valid ev" using pair_event_valid [of c1 c2 "ps ! i"] mapE_nth [OF that, of i] mapE_length [OF that] by auto
  qed
  then show ?thesis using assms
    by (auto simp: emit_events_def bindE_eq_Inr dest!: mapE_mk_event)
qed

lemma align_events_valid:
  assumes "align mh q t1 t2 tn = Inr evs"
  shows "\<forall>ev \<in> set evs. event_valid ev"
  using assms emit_events_valid by (fastforce simp: align_def Let_def bindE_eq_Inr split: prod.splits)

definition added_for :: "clause \<Rightarrow> change_event" where
  "added_for n = \<lparr>change_type = ADDED, before_clause_uid = None, after_clause_uid = None,
     before_path = None, after_path = Some (path n), before_text = None,
     after_text = Some (body_text n), alignment_confidence = 1\<rparr>"

lemma initial_events_eq: "initial_events t = Inr (map added_for (bodied t))"
proof -
  have "initial_events_of ns = Inr (map added_for (filter (\<lambda>n. strip (body_text n) \<noteq> []) ns))" for ns
    by (induction ns) (auto simp: added_for_def mk_event_def field_presence_ok_def)
  then show ?thesis by (simp add: initial_events_def bodied_def)
qed

lemma added_for_valid [simp]: "event_valid (added_for n)"
  by (simp add: added_for_def event_valid_def field_presence_ok_def)

section \<open>The writes of a changed poll\<close>

definition next_no :: "version_row option \<Rightarrow> nat" where
  "next_no live = (case live of None \<Rightarrow> 0 | Some v \<Rightarrow> (case v_no v of None \<Rightarrow> 0 | Some n \<Rightarrow> n)) + 1"

definition new_version :: "poll_env \<Rightarrow> uuid \<Rightarrow> timestamp \<Rightarrow> markdown_document \<Rightarrow> bytes \<Rightarrow> nat \<Rightarrow> uuid \<Rightarrow> version_row" where
  "new_version env d now doc body no vid =
     \<lparr>v_id = vid, v_document = d, v_label = u ''v'' @ dec no, v_no = Some no, v_from = Some now,
      v_to = None, v_publication = md_publication doc, v_effective = md_publication doc,
      v_container = env_container env, v_key = content_key (env_sha256 env body),
      v_sha = env_sha256 env body, v_bytes = length body\<rparr>"

definition close_row :: "version_row option \<Rightarrow> timestamp \<Rightarrow> version_row \<Rightarrow> version_row" where
  "close_row live now r =
     (case live of None \<Rightarrow> r | Some v \<Rightarrow> if v_id r = v_id v \<and> v_to r = None then r\<lparr>v_to := Some now\<rparr> else r)"

lemma close_row_None [simp]: "close_row None now = (\<lambda>r. r)"
  by (simp add: close_row_def fun_eq_iff)

lemma close_row_fields [simp]:
  "v_id (close_row live now r) = v_id r" "v_document (close_row live now r) = v_document r"
  "v_no (close_row live now r) = v_no r" "v_label (close_row live now r) = v_label r"
  "v_key (close_row live now r) = v_key r" "v_sha (close_row live now r) = v_sha r"
  "v_bytes (close_row live now r) = v_bytes r"
  by (auto simp: close_row_def split: option.splits)

lemma persist_versionD:
  assumes "persist_version env d now doc body live scope tree evs prev db = Inr db'"
  obtains uids vid where
    "build_clause_uid_map tree evs prev (next_uuid db) = (uids, vid)"
    and "length (env_sha256 env body) = 32"
    and "\<forall>r \<in> set (versions db). v_document r = d \<longrightarrow> v_no r \<noteq> Some (next_no live)"
    and "\<forall>row \<in> set (map (clause_row_of uids vid) (List.enumerate 1 (filter persistable (walk tree)))).
      pg_text (c_path row) \<and> pg_text (c_text row)"
    and "db' = \<lparr>documents = documents db,
        versions = map (close_row live now) (versions db @ [new_version env d now doc body (next_no live) vid]),
        clauses = clauses db @ map (clause_row_of uids vid) (List.enumerate 1 (filter persistable (walk tree))),
        events = events db @ change_event_insert_rows evs uids prev d vid (fst scope) (snd scope) (md_publication doc),
        next_uuid = Suc vid\<rparr>"
proof -
  obtain uids vid where b: "build_clause_uid_map tree evs prev (next_uuid db) = (uids, vid)"
    by (cases "build_clause_uid_map tree evs prev (next_uuid db)")
  define no where "no = next_no live"
  obtain db1 wid crows db2 db3 where
    1: "insert_version d (u ''v'' @ dec no) no now (md_publication doc) (md_publication doc) (env_container env)
      (content_key (env_sha256 env body)) (env_sha256 env body) (length body) (db\<lparr>next_uuid := vid\<rparr>) = Inr (db1, wid)"
    and 2: "clause_insert_rows tree uids wid = Inr crows"
    and 3: "foldE insert_clause db1 crows = Inr db2"
    and 4: "foldE insert_change_event db2 (change_event_insert_rows evs uids prev d wid (fst scope) (snd scope)
      (md_publication doc)) = Inr db3"
    and 5: "(case live of None \<Rightarrow> Inr db3 | Some v \<Rightarrow> close_prev_version (v_id v) now db3) = Inr db'"
    using assms b unfolding persist_version_def Let_def b no_def next_no_def
    by (auto simp: bindE_eq_Inr)
  have "\<forall>p \<in> set (persist_paths (walk tree)). map_of uids p \<noteq> None"
    using uid_loop_assigns [OF b [unfolded build_clause_uid_map_def]] by fastforce
  then have crows: "crows = map (clause_row_of uids wid) (List.enumerate 1 (filter persistable (walk tree)))"
    using 2 by (simp add: clause_insert_rows_def clause_rows_of_eq)
  have v: "wid = vid" "length (env_sha256 env body) = 32"
    "\<forall>r \<in> set (versions db). v_document r = d \<longrightarrow> v_no r \<noteq> Some no"
    "db1 = db\<lparr>versions := versions db @ [new_version env d now doc body no vid], next_uuid := Suc vid\<rparr>"
    using 1 by (auto simp: insert_version_defs new_version_def split: if_splits)
  have close: "db' = db3\<lparr>versions := map (close_row live now) (versions db3)\<rparr>"
    using 5 by (cases live) (auto simp: close_prev_version_eq close_row_def)
  show ?thesis
  proof (rule that [OF b v(2)])
    show "\<forall>r \<in> set (versions db). v_document r = d \<longrightarrow> v_no r \<noteq> Some (next_no live)"
      using v(3) by (simp add: no_def)
    show "\<forall>row \<in> set (map (clause_row_of uids vid) (List.enumerate 1 (filter persistable (walk tree)))).
        pg_text (c_path row) \<and> pg_text (c_text row)"
      using insert_clauses_texts [OF 3] crows v(1) by simp
    show "db' = \<lparr>documents = documents db,
        versions = map (close_row live now) (versions db @ [new_version env d now doc body (next_no live) vid]),
        clauses = clauses db @ map (clause_row_of uids vid) (List.enumerate 1 (filter persistable (walk tree))),
        events = events db @ change_event_insert_rows evs uids prev d vid (fst scope) (snd scope) (md_publication doc),
        next_uuid = Suc vid\<rparr>"
      using close insert_clauses_frame [OF 3] insert_events_frame [OF 4] v(1,4) crows no_def by simp
  qed
qed

section \<open>One poll\<close>

text \<open>What a poll that returns has done.\<close>

lemma poll_documentD:
  assumes "poll_document env d now fetched blobs db = (blobs', Inr db')"
  obtains (no_document) "fetched = Inr None" "blobs' = blobs" "db' = db"
  | (unchanged) doc body v where "fetched = Inr (Some doc)" "utf8_encode (md_markdown doc) = Inr body"
      "live_version db d = Some v" "v_sha v = env_sha256 env body" "blobs' = blobs"
      "db' = db\<lparr>versions := map (\<lambda>r. if v_id r = v_id v then r\<lparr>v_to := Some now\<rparr> else r) (versions db)\<rparr>"
  | (changed) doc body where "fetched = Inr (Some doc)" "utf8_encode (md_markdown doc) = Inr body"
      "\<forall>v. live_version db d = Some v \<longrightarrow> v_sha v \<noteq> env_sha256 env body"
      "mem_put blobs (content_key (env_sha256 env body)) body = Inr blobs'"
      "poll_changed env d now doc body (live_version db d) db = Inr db'"
  using assms unfolding poll_document_def
  by (auto simp: Let_def extend_valid_to_eq split: sum.splits option.splits if_splits)

lemma poll_changedD:
  assumes "poll_changed env d now doc body live db = Inr db'"
  obtains scope tree prev_tree prev_uids evs where
    "document_scope db d = Some scope"
    and "parse (env_unidb env) default_parser_config (env_tokens env (md_markdown doc)) = Inr tree"
    and "(case live of None \<Rightarrow> (None, []) | Some v \<Rightarrow> load_previous_tree db (v_id v)) = (prev_tree, prev_uids)"
    and "(case prev_tree of None \<Rightarrow> initial_events tree
        | Some t \<Rightarrow> align (env_minhash env) (env_lsh env) t tree (env_tuning env)) = Inr evs"
    and "\<forall>ev \<in> set evs. event_valid ev"
    and "persist_version env d now doc body live scope tree evs prev_uids db = Inr db'"
proof -
  obtain prev_tree prev_uids where p:
    "(case live of None \<Rightarrow> (None, []) | Some v \<Rightarrow> load_previous_tree db (v_id v)) = (prev_tree, prev_uids)"
    by (cases "case live of None \<Rightarrow> (None, []) | Some v \<Rightarrow> load_previous_tree db (v_id v)")
  obtain scope tree evs where r:
    "document_scope db d = Some scope"
    "parse (env_unidb env) default_parser_config (env_tokens env (md_markdown doc)) = Inr tree"
    "(case prev_tree of None \<Rightarrow> initial_events tree
        | Some t \<Rightarrow> align (env_minhash env) (env_lsh env) t tree (env_tuning env)) = Inr evs"
    "persist_version env d now doc body live scope tree evs prev_uids db = Inr db'"
    using assms unfolding poll_changed_def p Let_def case_prod_conv
    by (cases "document_scope db d") (simp_all add: bindE_eq_Inr, blast)
  have "\<forall>ev \<in> set evs. event_valid ev"
    using r(3) by (cases prev_tree) (auto simp: initial_events_eq dest: align_events_valid)
  then show ?thesis using r p by (intro that) auto
qed

section \<open>The version history\<close>

text \<open>
  Identifiers are used once; the numbers of a document are distinct and without gaps from 1,
  each with its label; and an open version has its document's greatest number. The seeding of
  \<open>seed.py\<close> calls the second version of a staged document \<open>v2-synthetic\<close>.
\<close>

definition version_label_ok :: "nat \<Rightarrow> ustr \<Rightarrow> bool" where
  "version_label_ok n lab \<longleftrightarrow> lab = u ''v'' @ dec n \<or> lab = u ''v2-synthetic''"

lemma version_label_self [simp]: "version_label_ok n (u ''v'' @ dec n)"
  by (simp add: version_label_ok_def)

lemma version_label_fresh:
  assumes "version_label_ok m lab" "m \<noteq> n"
  shows "lab \<noteq> u ''v'' @ dec n"
proof
  assume "lab = u ''v'' @ dec n"
  then have "dec n = u ''2-synthetic''" using assms by (auto simp: version_label_ok_def u_def)
  then have "45 \<in> set (dec n)" by (simp add: u_def)
  then show False using dec_digits [of n] by fastforce
qed

definition history_ok :: "version_row list \<Rightarrow> uuid \<Rightarrow> bool" where
  "history_ok vs next_id \<longleftrightarrow>
     distinct (map v_id vs) \<and> (\<forall>r \<in> set vs. v_id r < next_id) \<and>
     (\<forall>r \<in> set vs. \<exists>n. v_no r = Some n \<and> 1 \<le> n \<and> version_label_ok n (v_label r) \<and>
        (\<forall>m. 1 \<le> m \<and> m \<le> n \<longrightarrow> (\<exists>q \<in> set vs. v_document q = v_document r \<and> v_no q = Some m))) \<and>
     (\<forall>r \<in> set vs. \<forall>q \<in> set vs. v_document r = v_document q \<and> v_no r = v_no q \<longrightarrow> r = q) \<and>
     (\<forall>r \<in> set vs. \<forall>q \<in> set vs. v_document r = v_document q \<and> v_to r = None \<longrightarrow> no_before (v_no r) (v_no q))"

lemma history_okD:
  assumes "history_ok vs next_id"
  shows "distinct (map v_id vs)"
    and "r \<in> set vs \<Longrightarrow> v_id r < next_id"
    and "r \<in> set vs \<Longrightarrow> \<exists>n. v_no r = Some n \<and> 1 \<le> n \<and> version_label_ok n (v_label r) \<and>
        (\<forall>m. 1 \<le> m \<and> m \<le> n \<longrightarrow> (\<exists>q \<in> set vs. v_document q = v_document r \<and> v_no q = Some m))"
    and "r \<in> set vs \<Longrightarrow> q \<in> set vs \<Longrightarrow> v_document r = v_document q \<Longrightarrow> v_no r = v_no q \<Longrightarrow> r = q"
    and "r \<in> set vs \<Longrightarrow> q \<in> set vs \<Longrightarrow> v_document r = v_document q \<Longrightarrow> v_to r = None \<Longrightarrow> no_before (v_no r) (v_no q)"
  using assms unfolding history_ok_def by blast+

text \<open>A document has at most one open version, and it is the one the poll calls live.\<close>

lemma history_ok_one_open:
  assumes "history_ok vs next_id" "r \<in> set vs" "q \<in> set vs" "v_document r = v_document q"
    "v_to r = None" "v_to q = None"
  shows "r = q"
proof (rule history_okD(4) [OF assms(1-4)])
  have "no_before (v_no r) (v_no q)" by (rule history_okD(5) [OF assms(1-5)])
  moreover have "no_before (v_no q) (v_no r)"
    by (rule history_okD(5) [OF assms(1,3,2) assms(4) [symmetric] assms(6)])
  moreover obtain m where "v_no r = Some m" using history_okD(3) [OF assms(1,2)] by auto
  moreover obtain n where "v_no q = Some n" using history_okD(3) [OF assms(1,3)] by auto
  ultimately show "v_no r = v_no q" by (simp add: no_before_def)
qed

lemma live_version_eq:
  assumes "history_ok (versions db) k" "r \<in> set (versions db)" "v_document r = d" "v_to r = None"
  shows "live_version db d = Some r"
proof -
  obtain q where q: "live_version db d = Some q"
    using assms(2-4) live_version_None_iff [of db d] by (cases "live_version db d") auto
  then show ?thesis using live_version_SomeD [OF q] history_ok_one_open [OF assms(1)] assms by blast
qed

lemma history_ok_map:
  assumes "history_ok vs k" "\<forall>r. v_id (f r) = v_id r \<and> v_document (f r) = v_document r \<and> v_no (f r) = v_no r
      \<and> v_label (f r) = v_label r \<and> (v_to (f r) = None \<longrightarrow> v_to r = None)" "k \<le> k'"
  shows "history_ok (map f vs) k'"
  unfolding history_ok_def
proof (intro conjI ballI impI)
  have "map v_id (map f vs) = map v_id vs" using assms(2) by simp
  then show "distinct (map v_id (map f vs))" using history_okD(1) [OF assms(1)] by metis
next
  fix r assume "r \<in> set (map f vs)"
  then obtain r0 where r0: "r0 \<in> set vs" "r = f r0" by auto
  show "v_id r < k'" using history_okD(2) [OF assms(1) r0(1)] assms(2,3) r0(2) by simp
  obtain n where n: "v_no r0 = Some n" "1 \<le> n" "version_label_ok n (v_label r0)"
    "\<forall>m. 1 \<le> m \<and> m \<le> n \<longrightarrow> (\<exists>q \<in> set vs. v_document q = v_document r0 \<and> v_no q = Some m)"
    using history_okD(3) [OF assms(1) r0(1)] by blast
  have "\<forall>m. 1 \<le> m \<and> m \<le> n \<longrightarrow> (\<exists>q \<in> set (map f vs). v_document q = v_document r \<and> v_no q = Some m)"
    using n(4) assms(2) r0(2) by (metis image_eqI set_map)
  then show "\<exists>n. v_no r = Some n \<and> 1 \<le> n \<and> version_label_ok n (v_label r) \<and>
      (\<forall>m. 1 \<le> m \<and> m \<le> n \<longrightarrow> (\<exists>q \<in> set (map f vs). v_document q = v_document r \<and> v_no q = Some m))"
    using n assms(2) r0(2) by simp
  fix q assume "q \<in> set (map f vs)"
  then obtain q0 where q0: "q0 \<in> set vs" "q = f q0" by auto
  show "r = q" if "v_document r = v_document q \<and> v_no r = v_no q"
    using history_okD(4) [OF assms(1) r0(1) q0(1)] that assms(2) r0(2) q0(2) by simp
  show "no_before (v_no r) (v_no q)" if "v_document r = v_document q \<and> v_to r = None"
    using history_okD(5) [OF assms(1) r0(1) q0(1)] that assms(2) r0(2) q0(2) by simp
qed

lemma history_ok_snoc:
  assumes h: "history_ok vs k" and "v_id r = k" "v_no r = Some n" "1 \<le> n" "version_label_ok n (v_label r)"
    and below: "\<forall>m. 1 \<le> m \<and> m < n \<longrightarrow> (\<exists>q \<in> set vs. v_document q = v_document r \<and> v_no q = Some m)"
    and closed: "\<forall>q \<in> set vs. v_document q = v_document r \<longrightarrow> v_to q \<noteq> None \<and> no_before (Some n) (v_no q) \<and> v_no q \<noteq> Some n"
  shows "history_ok (vs @ [r]) (Suc k)"
  unfolding history_ok_def
proof (intro conjI ballI impI)
  show "distinct (map v_id (vs @ [r]))"
    using history_okD(1,2) [OF h] assms(2) by fastforce
next
  fix p assume p: "p \<in> set (vs @ [r])"
  show "v_id p < Suc k" using p history_okD(2) [OF h] assms(2) by (auto simp: less_Suc_eq)
  have "\<exists>q \<in> set (vs @ [r]). v_document q = v_document r \<and> v_no q = Some m" if "1 \<le> m" "m \<le> n" for m
    using below that assms(3) by (cases "m = n") auto
  then show "\<exists>n. v_no p = Some n \<and> 1 \<le> n \<and> version_label_ok n (v_label p) \<and>
      (\<forall>m. 1 \<le> m \<and> m \<le> n \<longrightarrow> (\<exists>q \<in> set (vs @ [r]). v_document q = v_document p \<and> v_no q = Some m))"
    using p history_okD(3) [OF h, of p] assms(3-5) by (cases "p = r") auto
  fix q assume q: "q \<in> set (vs @ [r])"
  show "p = q" if "v_document p = v_document q \<and> v_no p = v_no q"
    using that p q closed history_okD(4) [OF h] assms(3) by auto
  show "no_before (v_no p) (v_no q)" if "v_document p = v_document q \<and> v_to p = None"
    using that p q closed history_okD(5) [OF h] assms(3) no_before_total [of "Some n" "Some n"] by auto
qed

text \<open>The rows of the document once its live version is closed.\<close>

lemma next_no_spec:
  assumes h: "history_ok (versions db) k" and "\<forall>r \<in> set (versions db). v_document r = d \<longrightarrow> v_no r \<noteq> Some (next_no (live_version db d))"
  shows "1 \<le> next_no (live_version db d)"
    and "\<forall>m. 1 \<le> m \<and> m < next_no (live_version db d) \<longrightarrow> (\<exists>q \<in> set (versions db). v_document q = d \<and> v_no q = Some m)"
    and "\<forall>q \<in> set (versions db). v_document q = d \<longrightarrow> (\<exists>n. v_no q = Some n \<and> n < next_no (live_version db d))"
proof -
  show "1 \<le> next_no (live_version db d)" by (simp add: next_no_def)
  show "\<forall>m. 1 \<le> m \<and> m < next_no (live_version db d) \<longrightarrow> (\<exists>q \<in> set (versions db). v_document q = d \<and> v_no q = Some m)"
  proof (cases "live_version db d")
    case None
    then show ?thesis by (simp add: next_no_def)
  next
    case (Some v)
    have v: "v \<in> set (versions db)" "v_document v = d" using live_version_SomeD [OF Some] by auto
    obtain n where "v_no v = Some n"
      "\<forall>m. 1 \<le> m \<and> m \<le> n \<longrightarrow> (\<exists>q \<in> set (versions db). v_document q = v_document v \<and> v_no q = Some m)"
      using history_okD(3) [OF h v(1)] by auto
    then show ?thesis using v(2) Some by (simp add: next_no_def)
  qed
  show "\<forall>q \<in> set (versions db). v_document q = d \<longrightarrow> (\<exists>n. v_no q = Some n \<and> n < next_no (live_version db d))"
  proof (intro ballI impI)
    fix q assume q: "q \<in> set (versions db)" "v_document q = d"
    obtain n where n: "v_no q = Some n" "1 \<le> n"
      "\<forall>m. 1 \<le> m \<and> m \<le> n \<longrightarrow> (\<exists>p \<in> set (versions db). v_document p = v_document q \<and> v_no p = Some m)"
      using history_okD(3) [OF h q(1)] by auto
    show "\<exists>n. v_no q = Some n \<and> n < next_no (live_version db d)"
    proof (cases "live_version db d")
      case None
      have "\<exists>p \<in> set (versions db). v_document p = d \<and> v_no p = Some 1" using n q(2) by auto
      then show ?thesis using assms(2) None by (auto simp: next_no_def)
    next
      case (Some v)
      have v: "v \<in> set (versions db)" "v_document v = d" "v_to v = None" using live_version_SomeD [OF Some] by auto
      obtain k where "v_no v = Some k" using history_okD(3) [OF h v(1)] by auto
      moreover have "no_before (v_no v) (v_no q)" using history_okD(5) [OF h v(1) q(1)] v q by simp
      ultimately show ?thesis using n(1) Some by (simp add: next_no_def no_before_def)
    qed
  qed
qed

lemma persist_history:
  assumes h: "history_ok (versions db) (next_uuid db)"
    and p: "persist_version env d now doc body (live_version db d) scope tree evs prev db = Inr db'"
  obtains vid where "next_uuid db \<le> vid" "next_uuid db' = Suc vid"
    and "versions db' = map (close_row (live_version db d) now) (versions db)
        @ [new_version env d now doc body (next_no (live_version db d)) vid]"
    and "history_ok (versions db') (next_uuid db')"
proof -
  define live where "live = live_version db d"
  note live = live_def [symmetric]
  obtain uids vid where b: "build_clause_uid_map tree evs prev (next_uuid db) = (uids, vid)"
    and no: "\<forall>r \<in> set (versions db). v_document r = d \<longrightarrow> v_no r \<noteq> Some (next_no live)"
    and db': "versions db' = map (close_row live now) (versions db @ [new_version env d now doc body (next_no live) vid])"
      "next_uuid db' = Suc vid"
    by (rule persist_versionD [OF p [unfolded live]]) simp
  let ?new = "new_version env d now doc body (next_no live) vid"
  have le: "next_uuid db \<le> vid"
    using uid_loop_frame b unfolding build_clause_uid_map_def by blast
  note spec = next_no_spec [OF h no [unfolded live_def], unfolded live]
  have "close_row live now ?new = ?new"
  proof (cases live)
    case (Some v)
    then have "v_id v < next_uuid db" using live_version_SomeD history_okD(2) [OF h] unfolding live_def by blast
    then show ?thesis using Some le by (simp add: close_row_def new_version_def)
  qed simp
  then have vs: "versions db' = map (close_row live now) (versions db) @ [?new]" using db'(1) by simp
  have "history_ok (map (close_row live now) (versions db)) vid"
    by (rule history_ok_map [OF h _ le]) (auto simp: close_row_def split: option.splits if_splits)
  then have "history_ok (map (close_row live now) (versions db) @ [?new]) (Suc vid)"
  proof (rule history_ok_snoc [where n = "next_no live"])
    show "\<forall>m. 1 \<le> m \<and> m < next_no live \<longrightarrow>
        (\<exists>q \<in> set (map (close_row live now) (versions db)). v_document q = v_document ?new \<and> v_no q = Some m)"
      using spec(2) by (auto simp: new_version_def)
    show "\<forall>q \<in> set (map (close_row live now) (versions db)). v_document q = v_document ?new \<longrightarrow>
        v_to q \<noteq> None \<and> no_before (Some (next_no live)) (v_no q) \<and> v_no q \<noteq> Some (next_no live)"
    proof (intro ballI impI)
      fix q assume "q \<in> set (map (close_row live now) (versions db))" "v_document q = v_document ?new"
      then obtain r where r: "r \<in> set (versions db)" "q = close_row live now r" "v_document r = d"
        by (auto simp: new_version_def)
      obtain n where n: "v_no r = Some n" "n < next_no live" using spec(3) r by blast
      have "v_to q \<noteq> None"
      proof (cases "v_to r")
        case None
        then show ?thesis using live_version_eq [OF h r(1,3)] r(2) by (simp add: close_row_def live_def)
      next
        case (Some t)
        then show ?thesis using r(2) by (auto simp: close_row_def split: option.splits)
      qed
      then show "v_to q \<noteq> None \<and> no_before (Some (next_no live)) (v_no q) \<and> v_no q \<noteq> Some (next_no live)"
        using n r(2) by (simp add: no_before_def)
    qed
  qed (use spec(1) in \<open>simp_all add: new_version_def\<close>)
  then show ?thesis using that [OF le db'(2)] vs db'(2) unfolding live_def by simp
qed

lemma poll_history_ok:
  assumes h: "history_ok (versions db) (next_uuid db)"
    and "poll_document env d now fetched blobs db = (blobs', Inr db')"
  shows "history_ok (versions db') (next_uuid db')"
  using assms(2)
proof (cases rule: poll_documentD)
  case no_document
  then show ?thesis using h by simp
next
  case (unchanged doc body v)
  have "history_ok (map (\<lambda>r. if v_id r = v_id v then r\<lparr>v_to := Some now\<rparr> else r) (versions db)) (next_uuid db)"
    by (rule history_ok_map [OF h]) auto
  then show ?thesis using unchanged by simp
next
  case (changed doc body)
  from changed(5) obtain scope tree prev_tree prev_uids evs where
    "persist_version env d now doc body (live_version db d) scope tree evs prev_uids db = Inr db'"
    by (rule poll_changedD)
  then show ?thesis by (rule persist_history [OF h])
qed

section \<open>A changed poll\<close>

text \<open>The new version is live from the moment the previous one is closed.\<close>

lemma poll_changed_history:
  assumes h: "history_ok (versions db) (next_uuid db)"
    and poll: "poll_document env d now (Inr (Some doc)) blobs db = (blobs', Inr db')"
    and body: "utf8_encode (md_markdown doc) = Inr body"
    and changed: "\<forall>v. live_version db d = Some v \<longrightarrow> v_sha v \<noteq> env_sha256 env body"
  obtains vid where "versions db' = map (close_row (live_version db d) now) (versions db)
        @ [new_version env d now doc body (next_no (live_version db d)) vid]"
    and "live_version db' d = Some (new_version env d now doc body (next_no (live_version db d)) vid)"
    and "mem_get blobs' (content_key (env_sha256 env body)) = Some body"
    and "\<exists>rows. events db' = events db @ rows" "\<exists>rows. clauses db' = clauses db @ rows"
  using poll
proof (cases rule: poll_documentD)
  case no_document
  then show ?thesis by simp
next
  case (unchanged doc' body' v)
  then show ?thesis using body changed by simp
next
  case (changed doc' body')
  then have db': "poll_changed env d now doc body (live_version db d) db = Inr db'"
    and put: "mem_put blobs (content_key (env_sha256 env body)) body = Inr blobs'" using body by simp_all
  from db' obtain scope tree prev_tree prev_uids evs where
    pv: "persist_version env d now doc body (live_version db d) scope tree evs prev_uids db = Inr db'"
    by (rule poll_changedD)
  let ?new = "new_version env d now doc body (next_no (live_version db d))"
  obtain vid where vid: "versions db' = map (close_row (live_version db d) now) (versions db) @ [?new vid]"
    "history_ok (versions db') (next_uuid db')"
    by (rule persist_history [OF h pv])
  have "live_version db' d = Some (?new vid)"
    by (rule live_version_eq [OF vid(2)]) (simp_all add: vid(1) new_version_def)
  moreover have "mem_get blobs' (content_key (env_sha256 env body)) = Some body"
    using put by (rule mem_put_stored)
  moreover have "\<exists>rows. events db' = events db @ rows" "\<exists>rows. clauses db' = clauses db @ rows"
    by (rule persist_versionD [OF pv], simp)+
  ultimately show ?thesis using that vid(1) by blast
qed

section \<open>An unchanged poll\<close>

lemma poll_unchanged:
  assumes "live_version db d = Some v" "utf8_encode (md_markdown doc) = Inr body" "v_sha v = env_sha256 env body"
  shows "poll_document env d now (Inr (Some doc)) blobs db =
    (blobs, Inr (db\<lparr>versions := map (\<lambda>r. if v_id r = v_id v then r\<lparr>v_to := Some now\<rparr> else r) (versions db)\<rparr>))"
  using assms by (simp add: poll_document_def extend_valid_to_eq)

lemma poll_unchanged_no_live:
  assumes "history_ok (versions db) (next_uuid db)" "live_version db d = Some v"
    "utf8_encode (md_markdown doc) = Inr body" "v_sha v = env_sha256 env body"
    "poll_document env d now (Inr (Some doc)) blobs db = (blobs', Inr db')"
  shows "live_version db' d = None" "\<exists>r \<in> set (versions db'). v_document r = d \<and> v_no r = Some 1"
proof -
  have v: "v \<in> set (versions db)" "v_document v = d" "v_to v = None" using live_version_SomeD [OF assms(2)] by auto
  have db': "versions db' = map (\<lambda>r. if v_id r = v_id v then r\<lparr>v_to := Some now\<rparr> else r) (versions db)"
    using poll_unchanged [OF assms(2-4), of now blobs] assms(5) by auto
  show "live_version db' d = None"
    unfolding live_version_None_iff db'
    using history_ok_one_open [OF assms(1) _ v(1)] v by fastforce
  obtain n where "v_no v = Some n" "1 \<le> n"
    "\<forall>m. 1 \<le> m \<and> m \<le> n \<longrightarrow> (\<exists>q \<in> set (versions db). v_document q = v_document v \<and> v_no q = Some m)"
    using history_okD(3) [OF assms(1) v(1)] by auto
  then obtain q where "q \<in> set (versions db)" "v_document q = d" "v_no q = Some 1" using v(2) by auto
  then show "\<exists>r \<in> set (versions db'). v_document r = d \<and> v_no r = Some 1"
    unfolding db' by (intro bexI [of _ "if v_id q = v_id v then q\<lparr>v_to := Some now\<rparr> else q"]) auto
qed

text \<open>Without a live version the insert reuses the number 1, which the table refuses.\<close>

lemma poll_without_live_fails:
  assumes "live_version db d = None" "r \<in> set (versions db)" "v_document r = d" "v_no r = Some 1"
  shows "\<exists>e. snd (poll_document env d now (Inr (Some doc)) blobs db) = Inl e"
proof (cases "snd (poll_document env d now (Inr (Some doc)) blobs db)")
  case (Inl e)
  then show ?thesis by simp
next
  case (Inr db')
  then obtain blobs' where "poll_document env d now (Inr (Some doc)) blobs db = (blobs', Inr db')"
    by (cases "poll_document env d now (Inr (Some doc)) blobs db") auto
  then show ?thesis
  proof (cases rule: poll_documentD)
    case (changed doc' body)
    from changed(5) obtain scope tree prev_tree prev_uids evs where
      "persist_version env d now doc' body (live_version db d) scope tree evs prev_uids db = Inr db'"
      by (rule poll_changedD)
    then have "v_no r \<noteq> Some (next_no (live_version db d))"
      using assms(2,3) by (blast elim: persist_versionD)
    then show ?thesis using assms(1,4) by (simp add: next_no_def)
  qed (use assms in auto)
qed

end
