(* ===== verification/Poll_Total.thy ===== *)
theory Poll_Total
  imports Poll_Correct
begin

text \<open>
  When a poll succeeds, and what reading its rows back gives: the stored paths survive the
  \<open>"/".join\<close> and \<open>split\<close> of \<open>poll.py\<close> unless a segment holds a slash, so the next poll aligns
  against the same clauses that this poll stored.
\<close>

section \<open>Paths through the clause_path column\<close>

definition path_survives :: "cpath \<Rightarrow> bool" where
  "path_survives p \<longleftrightarrow> p \<noteq> [[]] \<and> (\<forall>seg \<in> set p. 47 \<notin> set seg)"

lemma slash_code: "u ''/'' = [47]"
  by (simp add: u_def)

lemma path_str_Nil_iff: "path_str p = [] \<longleftrightarrow> p = [] \<or> p = [[]]"
  by (cases p; cases "tl p") (auto simp: path_str_def slash_code)

lemma path_round_trip: "path_survives p \<Longrightarrow> path_of_str (path_str p) = p"
  using path_str_Nil_iff [of p] split_on_join [of p 47]
  by (auto simp: path_survives_def path_of_str_def path_str_def slash_code)

lemma path_str_of_str: "path_str (path_of_str s) = s"
  by (simp add: path_str_def path_of_str_def slash_code join_split_on)

lemma path_str_inj_on: "\<forall>p \<in> P. path_survives p \<Longrightarrow> inj_on path_str P"
  by (rule inj_on_inverseI [where g = path_of_str]) (simp add: path_round_trip)

section \<open>Reading the clauses back\<close>

definition stored_tree :: "clause \<Rightarrow> clause" where
  "stored_tree t = Clause [] None [] None
     (map (\<lambda>n. Clause (path n) (heading_text n) (body_text n) (numbering_label n) [])
        (filter persistable (walk t)))"

lemma sort_key_sorted: "sorted (map f xs) \<Longrightarrow> sort_key f xs = xs"
  by (rule sort_key_id_if_sorted)

lemma map_fst_enumerate_rows: "map c_ord (map (clause_row_of uids vid) (List.enumerate k ns)) = [k..<k + length ns]"
  by (induction ns arbitrary: k) (simp_all add: clause_row_of_def upt_conv_Cons del: upt_Suc)

lemma enumerate_Nil_iff [simp]: "List.enumerate k xs = [] \<longleftrightarrow> xs = []"
  by (cases xs) simp_all

lemma stored_rows_path:
  assumes "\<forall>n \<in> set ns. path_survives (path n)"
  shows "map (\<lambda>r. Clause (path_of_str (c_path r)) (c_heading r) (c_text r) (c_label r) [])
      (map (clause_row_of uids vid) (List.enumerate k ns))
    = map (\<lambda>n. Clause (path n) (heading_text n) (body_text n) (numbering_label n) []) ns"
  using assms by (induction ns arbitrary: k) (simp_all add: clause_row_of_def path_round_trip)

lemma load_after_persist:
  assumes "clauses db' = old @ map (clause_row_of uids vid) (List.enumerate 1 (filter persistable (walk t)))"
    and "\<forall>r \<in> set old. c_version r \<noteq> vid"
    and "\<forall>n \<in> set (filter persistable (walk t)). path_survives (path n)"
  shows "fst (load_previous_tree db' vid) = (if filter persistable (walk t) = [] then None else Some (stored_tree t))"
proof -
  let ?rows = "map (clause_row_of uids vid) (List.enumerate 1 (filter persistable (walk t)))"
  have "filter (\<lambda>r. c_version r = vid) (clauses db') = ?rows"
    using assms(2) by (auto simp: assms(1) filter_empty_conv clause_row_of_def intro!: filter_True)
  moreover have "sorted (map c_ord ?rows)" unfolding map_fst_enumerate_rows by (rule sorted_upt)
  ultimately have "prev_clauses db' vid = ?rows" by (simp add: prev_clauses_def sort_key_sorted)
  then show ?thesis
    using stored_rows_path [OF assms(3), of uids vid 1]
    by (simp add: load_previous_tree_def stored_tree_def Let_def)
qed

lemma stored_tree_same: "list_all2 same_clause (bodied (stored_tree t)) (bodied t)"
proof -
  have b: "bodied t = filter (\<lambda>n. strip (body_text n) \<noteq> []) (filter persistable (walk t))"
    unfolding bodied_def filter_filter by (rule filter_cong) (auto simp: persistable_def)
  have "list_all2 same_clause
      (filter (\<lambda>n. strip (body_text n) \<noteq> []) (map (\<lambda>n. Clause (path n) (heading_text n) (body_text n) (numbering_label n) []) ns))
      (filter (\<lambda>n. strip (body_text n) \<noteq> []) ns)" for ns
    by (induction ns) (auto simp: same_clause_def)
  moreover have "bodied (stored_tree t) = filter (\<lambda>n. strip (body_text n) \<noteq> [])
      (map (\<lambda>n. Clause (path n) (heading_text n) (body_text n) (numbering_label n) []) (filter persistable (walk t)))"
  proof -
    have "concat (map walk (map (\<lambda>n. Clause (path n) (heading_text n) (body_text n) (numbering_label n) []) ns))
        = map (\<lambda>n. Clause (path n) (heading_text n) (body_text n) (numbering_label n) []) ns" for ns
      by (induction ns) simp_all
    then show ?thesis by (simp add: bodied_def stored_tree_def walk.simps strip_def lstrip_def rstrip_def)
  qed
  ultimately show ?thesis unfolding b by (simp del: filter_filter)
qed

lemma align_tuning_None: "align mh q t1 t2 None = align mh q t1 t2 (Some default_tuning_config)"
  by (simp add: align_def)

definition tuning_ok :: "tuning option \<Rightarrow> bool" where
  "tuning_ok tn = (case tn of None \<Rightarrow> True | Some t \<Rightarrow> usable_tuning t)"

definition tuning_used :: "tuning option \<Rightarrow> tuning" where
  "tuning_used tn = (case tn of None \<Rightarrow> default_tuning_config | Some t \<Rightarrow> t)"

lemma tuning_used_usable: "tuning_ok tn \<Longrightarrow> usable_tuning (tuning_used tn)"
  by (auto simp: tuning_ok_def tuning_used_def usable_default_tuning split: option.splits)

lemma align_tuning_used: "align mh q t1 t2 tn = align mh q t1 t2 (Some (tuning_used tn))"
  by (cases tn) (simp_all add: tuning_used_def align_tuning_None)

lemma list_all2_converse_same: "list_all2 same_clause xs ys \<Longrightarrow> list_all2 same_clause ys xs"
  by (auto simp: list_all2_conv_all_nth same_clause_def)

text \<open>Aligning the stored clauses against the tree they came from finds no change.\<close>

lemma align_stored_tree:
  assumes "tuning_ok tn" "datasketch_ok mh q" "\<forall>n \<in> set (bodied t). encodable n"
  shows "align mh q (stored_tree t) t tn = Inr []"
proof -
  note u = tuning_used_usable [OF assms(1)]
  have "list_all2 same_clause (bodied t) (bodied (stored_tree t))"
    using stored_tree_same [of t] by (rule list_all2_converse_same)
  then have "signable mh (tuning_used tn) (stored_tree t)"
    using signable_same encodable_signable [OF u assms(2,3)] by blast
  from align_same_clauses [OF usable_valid [OF u] datasketchD(1) [OF assms(2)] this stored_tree_same]
  show ?thesis unfolding align_tuning_used [of mh q _ _ tn] .
qed

section \<open>Where the fields of an event come from\<close>

definition field_from :: "clause list \<Rightarrow> cpath option \<Rightarrow> ustr option \<Rightarrow> bool" where
  "field_from ns p t \<longleftrightarrow> (p = None \<and> t = None) \<or> (\<exists>c \<in> set ns. p = Some (path c) \<and> t = Some (body_text c))"

lemma pair_events_sources:
  assumes "ev \<in> set (pair_events v1 v2 (i, j, c))" "i < length v1" "j < length v2" "0 < c" "c \<le> 1"
  shows "field_from (map cand_clause v1) (before_path ev) (before_text ev)"
    and "field_from (map cand_clause v2) (after_path ev) (after_text ev)"
  using assms by (auto simp: pair_events_def pair_event_def Let_def mk_event_def field_presence_ok_def
      field_from_def split: if_splits)

lemma residual_subset: "set (residual v p) \<subseteq> cand_clause ` set v"
  by (auto simp: residual_def enumerate_nth)

lemma align_event_sources:
  assumes "valid_tuning tn" "index_in_range q" "minhash_sized mh" "align mh q t1 t2 (Some tn) = Inr evs" "ev \<in> set evs"
  shows "field_from (bodied t1) (before_path ev) (before_text ev)"
    and "field_from (bodied t2) (after_path ev) (after_text ev)"
proof -
  let ?v1 = "map (cand_of mh tn) (bodied t1)" and ?v2 = "map (cand_of mh tn) (bodied t2)"
  obtain ps q1 q2 where evs: "evs = concat (map (pair_events ?v1 ?v2) ps)
         @ map removed_event (residual ?v1 q1) @ map added_event (residual ?v2 q2)"
    and ps: "\<forall>(i, j, c) \<in> set ps. i < length (bodied t1) \<and> j < length (bodied t2) \<and> 0 < c \<and> c \<le> 1"
    and sg: "signable mh tn t1" "signable mh tn t2"
    by (rule align_accountD [OF assms(1-4)])
  have c: "map cand_clause ?v1 = bodied t1" "map cand_clause ?v2 = bodied t2"
    using signable_clauses [OF sg(1)] signable_clauses [OF sg(2)] by simp_all
  then have r: "set (residual ?v1 q1) \<subseteq> set (bodied t1)" "set (residual ?v2 q2) \<subseteq> set (bodied t2)"
    using residual_subset by (metis set_map)+
  consider (pair) p where "p \<in> set ps" "ev \<in> set (pair_events ?v1 ?v2 p)"
    | (removed) n where "n \<in> set (residual ?v1 q1)" "ev = removed_event n"
    | (added) n where "n \<in> set (residual ?v2 q2)" "ev = added_event n"
    using assms(5) evs by auto
  then have "field_from (bodied t1) (before_path ev) (before_text ev)
      \<and> field_from (bodied t2) (after_path ev) (after_text ev)"
  proof cases
    case pair
    obtain i j k where p: "p = (i, j, k)" by (cases p)
    then have "i < length ?v1" "j < length ?v2" "0 < k" "k \<le> 1" using ps pair(1) by auto
    then show ?thesis using pair_events_sources [of ev ?v1 ?v2 i j k] pair(2) p c by simp
  qed (use r in \<open>auto simp: field_from_def removed_event_def added_event_def\<close>)
  then show "field_from (bodied t1) (before_path ev) (before_text ev)"
    and "field_from (bodied t2) (after_path ev) (after_text ev)" by simp_all
qed

section \<open>Success\<close>

text \<open>The corpus: its history, and clause rows that were accepted by the table.\<close>

definition corpus_ok :: "corpus \<Rightarrow> bool" where
  "corpus_ok db \<longleftrightarrow> history_ok (versions db) (next_uuid db)
     \<and> (\<forall>r \<in> set (clauses db). c_version r < next_uuid db \<and> pg_text (c_path r) \<and> pg_text (c_text r))"

definition env_ok :: "poll_env \<Rightarrow> bool" where
  "env_ok env \<longleftrightarrow> unidb_ok (env_unidb env) \<and> tuning_ok (env_tuning env)
     \<and> datasketch_ok (env_minhash env) (env_lsh env) \<and> (\<forall>b. length (env_sha256 env b) = 32)"

text \<open>The clauses of a parsed tree can be stored.\<close>

definition tree_storable :: "clause \<Rightarrow> bool" where
  "tree_storable t \<longleftrightarrow> (\<forall>n \<in> set (filter persistable (walk t)). path_survives (path n) \<and> clause_texts_ok n)"

lemma distinct_path_str:
  assumes "tree_storable t" "distinct (paths_of t)"
  shows "distinct (map path_str (persist_paths (walk t)))"
proof -
  have "distinct (persist_paths (walk t))"
    using assms(2) unfolding paths_of_def persist_paths_def by (rule distinct_map_filter)
  moreover have "inj_on path_str (set (persist_paths (walk t)))"
    using assms(1) by (intro path_str_inj_on) (auto simp: tree_storable_def persist_paths_def)
  ultimately show ?thesis by (simp add: distinct_map)
qed

lemma bodied_persistable: "n \<in> set (bodied t) \<Longrightarrow> n \<in> set (filter persistable (walk t))"
  by (auto simp: bodied_def persistable_def)

lemma tree_storable_encodable: "tree_storable t \<Longrightarrow> \<forall>n \<in> set (bodied t). encodable n"
  using bodied_persistable by (fastforce simp: tree_storable_def clause_texts_ok_def encodable_def pg_text_def)

lemma load_previous_texts:
  assumes "load_previous_tree db vid = (Some t, uids)"
    and "\<forall>r \<in> set (clauses db). pg_text (c_path r) \<and> pg_text (c_text r)" "n \<in> set (bodied t)"
  shows "pg_text (path_str (path n))" "pg_text (body_text n)"
proof -
  have t: "t = Clause [] None [] None (map (\<lambda>r. Clause (path_of_str (c_path r)) (c_heading r) (c_text r)
      (c_label r) []) (prev_clauses db vid))"
    using assms(1) by (auto simp: load_previous_tree_def Let_def split: if_splits)
  have "n \<in> set (walk t)" "strip (body_text n) \<noteq> []" using assms(3) by (auto simp: bodied_def)
  then obtain r where "r \<in> set (prev_clauses db vid)"
    "n = Clause (path_of_str (c_path r)) (c_heading r) (c_text r) (c_label r) []"
    unfolding t by (auto simp: walk.simps strip_def lstrip_def rstrip_def)
  moreover from this have "r \<in> set (clauses db)" by (auto simp: prev_clauses_def)
  ultimately show "pg_text (path_str (path n))" "pg_text (body_text n)"
    using assms(2) by (simp_all add: path_str_of_str)
qed

definition event_storable :: "change_event \<Rightarrow> bool" where
  "event_storable ev \<longleftrightarrow> event_valid ev
     \<and> pg_text_opt (map_option path_str (before_path ev)) \<and> pg_text_opt (map_option path_str (after_path ev))
     \<and> pg_text_opt (before_text ev) \<and> pg_text_opt (after_text ev)"

lemma field_from_storable:
  assumes "field_from ns p t" "\<forall>n \<in> set ns. pg_text (path_str (path n)) \<and> pg_text (body_text n)"
  shows "pg_text_opt (map_option path_str p) \<and> pg_text_opt t"
  using assms by (auto simp: field_from_def pg_text_opt_def)

text \<open>The inserts of a changed poll succeed when the new number is free and the texts are storable.\<close>

lemma persist_version_total:
  assumes sha: "\<forall>b. length (env_sha256 env b) = 32"
    and free: "\<forall>r \<in> set (versions db). v_document r = d \<longrightarrow> v_no r \<noteq> Some (next_no live) \<and> v_label r \<noteq> u ''v'' @ dec (next_no live)"
    and doc: "\<exists>r \<in> set (documents db). d_id r = d"
    and old: "\<forall>r \<in> set (clauses db). c_version r < next_uuid db"
    and tree: "tree_storable t" "distinct (paths_of t)"
    and evs: "\<forall>ev \<in> set evs. event_storable ev"
  shows "\<exists>db'. persist_version env d now doc' body live scope t evs prev db = Inr db'"
proof -
  obtain uids vid where b: "build_clause_uid_map t evs prev (next_uuid db) = (uids, vid)"
    by (cases "build_clause_uid_map t evs prev (next_uuid db)")
  have le: "next_uuid db \<le> vid" using uid_loop_frame b unfolding build_clause_uid_map_def by blast
  define db1 where "db1 = db\<lparr>versions := versions db @ [new_version env d now doc' body (next_no live) vid], next_uuid := Suc vid\<rparr>"
  have 1: "insert_version d (u ''v'' @ dec (next_no live)) (next_no live) now (md_publication doc') (md_publication doc')
      (env_container env) (content_key (env_sha256 env body)) (env_sha256 env body) (length body) (db\<lparr>next_uuid := vid\<rparr>)
    = Inr (db1, vid)"
    using sha free doc by (auto simp: insert_version_defs new_version_def db1_def)
  define rows where "rows = map (clause_row_of uids vid) (List.enumerate 1 (filter persistable (walk t)))"
  have "\<forall>p \<in> set (persist_paths (walk t)). map_of uids p \<noteq> None"
    using uid_loop_assigns [OF b [unfolded build_clause_uid_map_def]] by fastforce
  then have 2: "clause_insert_rows t uids vid = Inr rows"
    by (simp add: clause_insert_rows_def clause_rows_of_eq rows_def)
  have paths: "map c_path rows = map path_str (persist_paths (walk t))"
    unfolding rows_def persist_paths_def
    by (rule nth_equalityI) (simp_all add: clause_row_of_def nth_enumerate_eq)
  have 3: "foldE insert_clause db1 rows = Inr (db1\<lparr>clauses := clauses db1 @ rows\<rparr>)"
  proof (rule insert_clauses_eq [where vid = vid])
    show "\<forall>row \<in> set rows. c_version row = vid \<and> pg_text (c_path row) \<and> pg_text (c_text row)
        \<and> pg_text_opt (c_heading row) \<and> pg_text_opt (c_label row)"
      using tree(1) by (auto simp: rows_def clause_row_of_def enumerate_eq_zip tree_storable_def clause_texts_ok_def
          dest!: set_zip_rightD)
    show "distinct (map c_path rows)" unfolding paths by (rule distinct_path_str [OF tree])
    show "\<forall>r \<in> set (clauses db1). c_version r = vid \<longrightarrow> c_path r \<notin> c_path ` set rows"
      using old le by (auto simp: db1_def)
    show "\<exists>r \<in> set (versions db1). v_id r = vid" by (auto simp: db1_def new_version_def)
  qed
  have 4: "foldE insert_change_event (db1\<lparr>clauses := clauses db1 @ rows\<rparr>) (change_event_insert_rows evs uids prev d vid a b e)
      = Inr (db1\<lparr>clauses := clauses db1 @ rows, events := events db1 @ change_event_insert_rows evs uids prev d vid a b e\<rparr>)"
    for a b e
    using evs doc by (subst insert_events_eq)
      (auto simp: change_event_insert_rows_def event_row_of_def Let_def event_storable_def event_valid_def db1_def new_version_def)
  show ?thesis
    unfolding persist_version_def Let_def b case_prod_conv
    using 1 2 3 4 by (simp add: next_no_def close_prev_version_eq split: option.split)
qed

lemma next_no_free:
  assumes h: "history_ok (versions db) k" and new: "live_version db d \<noteq> None \<or> (\<forall>r \<in> set (versions db). v_document r \<noteq> d)"
  shows "\<forall>r \<in> set (versions db). v_document r = d \<longrightarrow>
    v_no r \<noteq> Some (next_no (live_version db d)) \<and> v_label r \<noteq> u ''v'' @ dec (next_no (live_version db d))"
proof (intro ballI impI)
  fix r assume r: "r \<in> set (versions db)" "v_document r = d"
  then obtain v where v: "live_version db d = Some v" using new by auto
  have vin: "v \<in> set (versions db)" "v_document v = d" "v_to v = None" using live_version_SomeD [OF v] by auto
  obtain n where n: "v_no v = Some n" using history_okD(3) [OF h vin(1)] by auto
  obtain m where m: "v_no r = Some m" "version_label_ok m (v_label r)" using history_okD(3) [OF h r(1)] by auto
  have "no_before (v_no v) (v_no r)" using history_okD(5) [OF h vin(1) r(1)] vin r by simp
  then have "m < next_no (live_version db d)" using v n m by (simp add: next_no_def no_before_def)
  then show "v_no r \<noteq> Some (next_no (live_version db d)) \<and> v_label r \<noteq> u ''v'' @ dec (next_no (live_version db d))"
    using m version_label_fresh [OF m(2)] by auto
qed

lemma events_storable:
  assumes env: "env_ok env" and db: "corpus_ok db" and tree: "tree_storable t"
    and prev: "(case live of None \<Rightarrow> (None, []) | Some v \<Rightarrow> load_previous_tree db (v_id v)) = (prev_tree, prev_uids)"
  shows "\<exists>evs. (case prev_tree of None \<Rightarrow> initial_events t
        | Some p \<Rightarrow> align (env_minhash env) (env_lsh env) p t (env_tuning env)) = Inr evs
      \<and> (\<forall>ev \<in> set evs. event_storable ev)"
proof -
  have new: "\<forall>n \<in> set (bodied t). pg_text (path_str (path n)) \<and> pg_text (body_text n)"
    using tree bodied_persistable by (auto simp: tree_storable_def clause_texts_ok_def)
  show ?thesis
  proof (cases prev_tree)
    case None
    have "event_storable (added_for n)" if "n \<in> set (bodied t)" for n
      using new that by (simp add: event_storable_def) (simp add: added_for_def pg_text_opt_def)
    then show ?thesis using None by (auto simp: initial_events_eq)
  next
    case (Some p)
    then obtain v where v: "live = Some v" "load_previous_tree db (v_id v) = (Some p, prev_uids)"
      using prev by (cases live) auto
    have texts: "\<forall>n \<in> set (bodied p). pg_text (path_str (path n)) \<and> pg_text (body_text n)"
      using load_previous_texts [OF v(2)] db by (auto simp: corpus_ok_def)
    let ?tn = "tuning_used (env_tuning env)"
    have d: "datasketch_ok (env_minhash env) (env_lsh env)" and u: "usable_tuning ?tn"
      using env by (auto simp: env_ok_def tuning_used_usable)
    have e: "valid_tuning ?tn" "index_in_range (env_lsh env)" "minhash_sized (env_minhash env)"
      using usable_valid [OF u] datasketchD [OF d] by blast+
    have sg: "signable (env_minhash env) ?tn p" "signable (env_minhash env) ?tn t"
      using texts new by (auto intro!: encodable_signable [OF u d] simp: encodable_def pg_text_def)
    obtain evs where evs: "align (env_minhash env) (env_lsh env) p t (Some ?tn) = Inr evs"
      by (rule align_account [OF e usable_index_ready [OF u d] sg]) blast
    have "event_storable ev" if "ev \<in> set evs" for ev
      using align_events_valid [OF evs] that align_event_sources [OF e evs that]
        field_from_storable [OF _ texts] field_from_storable [OF _ new]
      unfolding event_storable_def by blast
    then show ?thesis using evs Some align_tuning_used [of _ _ p t "env_tuning env"] by auto
  qed
qed

lemma document_scope_exists: "\<exists>r \<in> set (documents db). d_id r = d \<Longrightarrow> \<exists>s. document_scope db d = Some s"
  by (cases "List.find (\<lambda>r. d_id r = d) (documents db)") (auto simp: document_scope_def find_None_iff)

lemma poll_changed_total:
  assumes env: "env_ok env" and db: "corpus_ok db"
    and doc: "\<exists>r \<in> set (documents db). d_id r = d"
    and new: "live_version db d \<noteq> None \<or> (\<forall>r \<in> set (versions db). v_document r \<noteq> d)"
    and tokens: "tokens_ok (env_tokens env (md_markdown doc'))"
    and store: "\<forall>t. parse (env_unidb env) default_parser_config (env_tokens env (md_markdown doc')) = Inr t \<longrightarrow> tree_storable t"
  shows "\<exists>db'. poll_changed env d now doc' body (live_version db d) db = Inr db'"
proof -
  have h: "history_ok (versions db) (next_uuid db)" "\<forall>r \<in> set (clauses db). c_version r < next_uuid db"
    using db by (auto simp: corpus_ok_def)
  obtain scope where scope: "document_scope db d = Some scope" using document_scope_exists [OF doc] by blast
  obtain t where t: "parse (env_unidb env) default_parser_config (env_tokens env (md_markdown doc')) = Inr t"
    "distinct (paths_of t)"
    by (rule parse_total [OF _ plain_default_config tokens, of "env_unidb env"]) (use env in \<open>auto simp: env_ok_def\<close>)
  then have ts: "tree_storable t" using store by blast
  obtain prev_tree prev_uids where prev:
    "(case live_version db d of None \<Rightarrow> (None, []) | Some v \<Rightarrow> load_previous_tree db (v_id v)) = (prev_tree, prev_uids)"
    by (cases "case live_version db d of None \<Rightarrow> (None, []) | Some v \<Rightarrow> load_previous_tree db (v_id v)")
  obtain evs where evs: "(case prev_tree of None \<Rightarrow> initial_events t
        | Some p \<Rightarrow> align (env_minhash env) (env_lsh env) p t (env_tuning env)) = Inr evs"
    "\<forall>ev \<in> set evs. event_storable ev"
    using events_storable [OF env db ts prev] by blast
  have "\<exists>db'. persist_version env d now doc' body (live_version db d) scope t evs prev_uids db = Inr db'"
    by (rule persist_version_total [OF _ next_no_free [OF h(1) new] doc h(2) ts t(2) evs(2)])
       (use env in \<open>simp add: env_ok_def\<close>)
  then show ?thesis unfolding poll_changed_def by (simp add: scope t(1) prev evs(1))
qed

lemma poll_total:
  assumes "env_ok env" "corpus_ok db" "\<exists>r \<in> set (documents db). d_id r = d"
    and "live_version db d \<noteq> None \<or> (\<forall>r \<in> set (versions db). v_document r \<noteq> d)"
    and body: "utf8_encode (md_markdown doc) = Inr body"
    and blob: "mem_get blobs (content_key (env_sha256 env body)) \<in> {None, Some body}"
    and "tokens_ok (env_tokens env (md_markdown doc))"
    and "\<forall>t. parse (env_unidb env) default_parser_config (env_tokens env (md_markdown doc)) = Inr t \<longrightarrow> tree_storable t"
  shows "\<exists>blobs' db'. poll_document env d now (Inr (Some doc)) blobs db = (blobs', Inr db')"
proof -
  obtain blobs' where put: "mem_put blobs (content_key (env_sha256 env body)) body = Inr blobs'"
    using blob by (auto simp: mem_put_def)
  obtain db' where "poll_changed env d now doc body (live_version db d) db = Inr db'"
    using poll_changed_total [OF assms(1-4,7,8)] by blast
  then show ?thesis using put
    by (auto simp: poll_document_def body Let_def extend_valid_to_eq split: option.splits)
qed

lemma poll_corpus_ok:
  assumes db: "corpus_ok db" and poll: "poll_document env d now fetched blobs db = (blobs', Inr db')"
  shows "corpus_ok db'"
proof -
  have h: "history_ok (versions db) (next_uuid db)" using db by (simp add: corpus_ok_def)
  have "history_ok (versions db') (next_uuid db')" by (rule poll_history_ok [OF h poll])
  moreover have "\<forall>r \<in> set (clauses db'). c_version r < next_uuid db' \<and> pg_text (c_path r) \<and> pg_text (c_text r)"
    using poll
  proof (cases rule: poll_documentD)
    case (changed doc body)
    from changed(5) obtain scope tree prev_tree prev_uids evs where
      pv: "persist_version env d now doc body (live_version db d) scope tree evs prev_uids db = Inr db'"
      by (rule poll_changedD)
    then obtain uids vid where b: "build_clause_uid_map tree evs prev_uids (next_uuid db) = (uids, vid)"
      and rows: "\<forall>row \<in> set (map (clause_row_of uids vid) (List.enumerate 1 (filter persistable (walk tree)))).
        pg_text (c_path row) \<and> pg_text (c_text row)"
      and db': "clauses db' = clauses db @ map (clause_row_of uids vid) (List.enumerate 1 (filter persistable (walk tree)))"
        "next_uuid db' = Suc vid"
      by (rule persist_versionD) simp
    have "next_uuid db \<le> vid" using uid_loop_frame b unfolding build_clause_uid_map_def by blast
    then show ?thesis using db rows db' by (auto simp: corpus_ok_def clause_row_of_def)
  qed (use db in \<open>auto simp: corpus_ok_def\<close>)
  ultimately show ?thesis by (simp add: corpus_ok_def)
qed

section \<open>Identities across an alignment\<close>

lemma set_pair_by_after_path:
  "set (pair_by_after_path evs m) =
     {(a, b). \<exists>ev \<in> set evs. after_path ev = Some a \<and> before_path ev = Some b} \<union> set m"
  by (induction evs arbitrary: m) (auto split: option.splits)

lemma pair_by_after_path_lookup:
  assumes "\<forall>e \<in> set evs. \<forall>e' \<in> set evs. after_path e = after_path e' \<and> after_path e \<noteq> None
      \<and> before_path e \<noteq> None \<and> before_path e' \<noteq> None \<longrightarrow> before_path e = before_path e'"
    and "ev \<in> set evs" "after_path ev = Some a" "before_path ev = Some b"
  shows "map_of (pair_by_after_path evs []) a = Some b"
proof -
  have "(a, b) \<in> set (pair_by_after_path evs [])" using assms(2-4) by (auto simp: set_pair_by_after_path)
  then obtain b' where b': "map_of (pair_by_after_path evs []) a = Some b'"
    by (meson weak_map_of_SomeI)
  then obtain e where "e \<in> set evs" "after_path e = Some a" "before_path e = Some b'"
    using map_of_SomeD [OF b'] by (auto simp: set_pair_by_after_path)
  moreover from this have "before_path e = before_path ev" using assms by (metis option.distinct(1))
  ultimately show ?thesis using b' assms(4) by simp
qed

lemma pair_events_paths:
  assumes "ev \<in> set (pair_events v1 v2 (i, j, c))" "0 < c" "c \<le> 1"
  shows "before_path ev = Some (path (cand_clause (v1 ! i)))" "after_path ev = Some (path (cand_clause (v2 ! j)))"
  using pair_event_total(2) [OF assms(2,3)] assms(1) by auto

text \<open>An aligned clause of the new tree has one predecessor path.\<close>

lemma align_predecessor_unique:
  assumes "valid_tuning tn" "index_in_range q" "minhash_sized mh" "align mh q t1 t2 (Some tn) = Inr evs"
    and dist: "distinct (paths_of t2)"
  shows "\<forall>e \<in> set evs. \<forall>e' \<in> set evs. after_path e = after_path e' \<and> after_path e \<noteq> None
      \<and> before_path e \<noteq> None \<and> before_path e' \<noteq> None \<longrightarrow> before_path e = before_path e'"
proof (intro ballI impI)
  fix e e' assume e: "e \<in> set evs" "e' \<in> set evs"
    and both: "after_path e = after_path e' \<and> after_path e \<noteq> None \<and> before_path e \<noteq> None \<and> before_path e' \<noteq> None"
  let ?v1 = "map (cand_of mh tn) (bodied t1)" and ?v2 = "map (cand_of mh tn) (bodied t2)"
  obtain ps q1 q2 where evs: "evs = concat (map (pair_events ?v1 ?v2) ps)
         @ map removed_event (residual ?v1 q1) @ map added_event (residual ?v2 q2)"
    and ext: "extends_pairing ps {} {} q1 q2"
    and ps: "\<forall>(i, j, c) \<in> set ps. i < length (bodied t1) \<and> j < length (bodied t2) \<and> 0 < c \<and> c \<le> 1"
    and sg: "signable mh tn t1" "signable mh tn t2"
    by (rule align_accountD [OF assms(1-4)])
  have from_pair: "\<exists>p \<in> set ps. ev \<in> set (pair_events ?v1 ?v2 p)"
    if "ev \<in> set evs" "after_path ev \<noteq> None" "before_path ev \<noteq> None" for ev
    using that evs by (auto simp: removed_event_def added_event_def)
  obtain i j c where p: "(i, j, c) \<in> set ps" "e \<in> set (pair_events ?v1 ?v2 (i, j, c))"
    using from_pair [OF e(1)] both by (metis prod_cases3)
  obtain i' j' c' where p': "(i', j', c') \<in> set ps" "e' \<in> set (pair_events ?v1 ?v2 (i', j', c'))"
    using from_pair [OF e(2)] both by (metis prod_cases3)
  have r: "i < length ?v1" "j < length (bodied t2)" "0 < c" "c \<le> 1" "j' < length (bodied t2)" "0 < c'" "c' \<le> 1"
    using ps p(1) p'(1) by auto
  have "distinct (map path (bodied t2))"
    using dist unfolding paths_of_def bodied_def by (rule distinct_map_filter)
  moreover have "path (bodied t2 ! j) = path (bodied t2 ! j')"
    using both pair_events_paths(2) [OF p(2) r(3,4)] pair_events_paths(2) [OF p'(2) r(6,7)] r(2,5)
    by (simp add: signable_nth [OF sg(2)])
  ultimately have "j = j'" using r(2,5) by (auto simp: distinct_conv_nth)
  moreover have "distinct (seconds ps)" using ext by (simp add: extends_pairing_def)
  ultimately have "i = i'" using p(1) p'(1)
    using inj_onD [of "fst \<circ> snd" "set ps" "(i, j, c)" "(i', j', c')"] by (auto simp: seconds_def distinct_map)
  then show "before_path e = before_path e'"
    using pair_events_paths(1) [OF p(2) r(3,4)] pair_events_paths(1) [OF p'(2) r(6,7)] by simp
qed

lemma identity_carried:
  assumes env: "valid_tuning tn" "index_in_range q" "minhash_sized mh" "align mh q t1 t2 (Some tn) = Inr evs"
    and dist: "distinct (paths_of t2)"
    and uids: "build_clause_uid_map t2 evs prev fresh = (uids, fresh')"
    and ev: "ev \<in> set evs" "before_path ev = Some b" "after_path ev = Some a"
    and old: "map_of prev b = Some x"
  shows "map_of uids a = Some x"
proof -
  have "map_of (pair_by_after_path evs []) a = Some b"
    by (rule pair_by_after_path_lookup [OF align_predecessor_unique [OF env dist] ev(1,3,2)])
  then have i: "inherited (pair_by_after_path evs []) prev a = Some x" using old by (simp add: inherited_def)
  have "field_from (bodied t2) (after_path ev) (after_text ev)" by (rule align_event_sources(2) [OF env ev(1)])
  then have "a \<in> set (persist_paths (walk t2))"
    using ev(3) bodied_persistable [of _ t2] by (auto simp: field_from_def persist_paths_def)
  then show ?thesis
    using uid_loop_assigns [OF uids [unfolded build_clause_uid_map_def]] i by fastforce
qed

section \<open>Blobs behind the versions\<close>

text \<open>Every version's key holds the bytes that its digest and length describe.\<close>

definition blobs_ok :: "poll_env \<Rightarrow> memory_store \<Rightarrow> version_row list \<Rightarrow> bool" where
  "blobs_ok env blobs vs \<longleftrightarrow> (\<forall>r \<in> set vs. \<exists>body. mem_get blobs (v_key r) = Some body
     \<and> env_sha256 env body = v_sha r \<and> length body = v_bytes r \<and> v_key r = content_key (v_sha r))"

lemma blobs_ok_map:
  "blobs_ok env blobs vs \<Longrightarrow> \<forall>r. v_key (f r) = v_key r \<and> v_sha (f r) = v_sha r \<and> v_bytes (f r) = v_bytes r
     \<Longrightarrow> blobs_ok env blobs (map f vs)"
  by (auto simp: blobs_ok_def)

lemma blobs_ok_put:
  "blobs_ok env blobs vs \<Longrightarrow> mem_put blobs k body = Inr blobs' \<Longrightarrow> blobs_ok env blobs' vs"
  unfolding blobs_ok_def using mem.put_never_replaces by metis

lemma poll_blobs_ok:
  assumes ok: "blobs_ok env blobs (versions db)" and "poll_document env d now fetched blobs db = (blobs', Inr db')"
  shows "blobs_ok env blobs' (versions db')"
  using assms(2)
proof (cases rule: poll_documentD)
  case no_document
  then show ?thesis using ok by simp
next
  case (unchanged doc body v)
  have "blobs_ok env blobs (map (\<lambda>r. if v_id r = v_id v then r\<lparr>v_to := Some now\<rparr> else r) (versions db))"
    by (rule blobs_ok_map [OF ok]) simp
  then show ?thesis using unchanged by simp
next
  case (changed doc body)
  from changed(5) obtain scope tree prev_tree prev_uids evs where
    pv: "persist_version env d now doc body (live_version db d) scope tree evs prev_uids db = Inr db'"
    by (rule poll_changedD)
  obtain vid where vs: "versions db' = map (close_row (live_version db d) now)
      (versions db @ [new_version env d now doc body (next_no (live_version db d)) vid])"
    by (rule persist_versionD [OF pv]) simp
  have "blobs_ok env blobs' (versions db @ [new_version env d now doc body (next_no (live_version db d)) vid])"
    using blobs_ok_put [OF ok changed(4)] mem_put_stored [OF changed(4)]
    by (auto simp: blobs_ok_def new_version_def)
  then show ?thesis unfolding vs by (rule blobs_ok_map) simp
qed

text \<open>A poll that raises after its upload leaves the store with at most one more blob.\<close>

lemma poll_error_blobs:
  assumes "poll_document env d now fetched blobs db = (blobs', Inl e)"
  shows "blobs' = blobs \<or> (\<exists>k body. blobs' = blobs @ [(k, body)])"
  using assms by (auto simp: poll_document_def Let_def mem_put_def split: sum.splits option.splits if_splits)

end
