(* ===== verification/Claim_Loop.thy ===== *)
theory Claim_Loop
  imports Corpus_DB
begin

text \<open>
  The schedule claim loop of the ingestion worker: \<open>loop.py\<close> over \<open>document_poll_schedule\<close> and
  \<open>ingestion_incident\<close> (migration 0007), its configuration (\<open>config.py\<close>) and its liveness probe
  (\<open>health.py\<close>). The poll is the injected \<open>PollFn\<close>: a function of an outside world and of the
  corpus seen through the claim connection. A statement that fails leaves the PostgreSQL
  transaction aborted, so that every later statement of the same transaction fails too.
\<close>

section \<open>Configuration\<close>

record claim_loop_config =
  db_url :: string
  tick_interval_s :: rat
  batch_size :: int
  failure_threshold :: int
  healthz_stale_after_s :: rat
  healthz_host :: string
  healthz_port :: int
  pool_min :: int
  pool_max :: int
  blob_container :: string
  blob_account_url :: "string option"
  sweep_interval_s :: rat

definition starts_with :: "string \<Rightarrow> string \<Rightarrow> bool" where
  "starts_with prefix s \<longleftrightarrow> take (length prefix) s = prefix"

definition sqlalchemy_driver_prefixes :: "string list" where
  "sqlalchemy_driver_prefixes =
     [''postgresql+asyncpg://'', ''postgresql+psycopg2://'', ''postgresql+psycopg://'']"

definition asyncpg_dsn :: "string \<Rightarrow> string" where
  "asyncpg_dsn url =
     (case List.find (\<lambda>p. starts_with p url) sqlalchemy_driver_prefixes of
        Some p \<Rightarrow> ''postgresql://'' @ drop (length p) url
      | None \<Rightarrow> url)"

text \<open>\<open>_int\<close> and \<open>_float\<close> over Python's number parsers, which are arguments.\<close>

definition number_or :: "(string \<Rightarrow> 'n result) \<Rightarrow> string option \<Rightarrow> 'n \<Rightarrow> 'n result" where
  "number_or conv value dflt =
     (case value of None \<Rightarrow> Inr dflt | Some v \<Rightarrow> if v \<noteq> [] then conv v else Inr dflt)"

definition text_or :: "string option \<Rightarrow> string \<Rightarrow> string" where
  "text_or value dflt = (case value of None \<Rightarrow> dflt | Some v \<Rightarrow> if v = [] then dflt else v)"

definition from_env ::
  "(string \<Rightarrow> int result) \<Rightarrow> (string \<Rightarrow> rat result) \<Rightarrow> (string \<Rightarrow> string option) \<Rightarrow> claim_loop_config result" where
  "from_env pyint pyfloat env =
     (case env ''HORIZONS_DB_URL'' of
        None \<Rightarrow> Inl KeyError
      | Some url \<Rightarrow>
          bindE (number_or pyfloat (env ''HORIZONS_INGESTION_TICK_INTERVAL_S'') (5 / 100)) (\<lambda>tick.
          bindE (number_or pyint (env ''HORIZONS_INGESTION_BATCH_SIZE'') 10) (\<lambda>batch.
          bindE (number_or pyint (env ''HORIZONS_INGESTION_FAILURE_THRESHOLD'') 5) (\<lambda>thr.
          bindE (number_or pyfloat (env ''HORIZONS_INGESTION_HEALTHZ_STALE_AFTER_S'') 5) (\<lambda>stale.
          bindE (number_or pyint (env ''HORIZONS_INGESTION_HEALTHZ_PORT'') 8080) (\<lambda>port.
          bindE (number_or pyint (env ''HORIZONS_INGESTION_POOL_MIN'') 2) (\<lambda>pmin.
          bindE (number_or pyint (env ''HORIZONS_INGESTION_POOL_MAX'') 4) (\<lambda>pmax.
          bindE (number_or pyfloat (env ''HORIZONS_INGESTION_SWEEP_INTERVAL_S'') 1800) (\<lambda>sweep.
            if pmin > pmax then Inl ValueError
            else Inr \<lparr>db_url = url, tick_interval_s = tick, batch_size = batch,
                      failure_threshold = thr, healthz_stale_after_s = stale,
                      healthz_host = text_or (env ''HORIZONS_INGESTION_HEALTHZ_HOST'') ''0.0.0.0'',
                      healthz_port = port, pool_min = pmin, pool_max = pmax,
                      blob_container = text_or (env ''HORIZONS_INGESTION_BLOB_CONTAINER'') ''originals'',
                      blob_account_url = env ''HORIZONS_INGESTION_BLOB_ACCOUNT_URL'',
                      sweep_interval_s = sweep\<rparr>)))))))))"

section \<open>Liveness\<close>

record loop_health =
  stale_after_s :: rat
  h_last_tick_at :: "timestamp option"

definition new_health :: "rat \<Rightarrow> loop_health" where
  "new_health stale = \<lparr>stale_after_s = stale, h_last_tick_at = None\<rparr>"

definition touch :: "timestamp \<Rightarrow> loop_health \<Rightarrow> loop_health" where
  "touch now h = h\<lparr>h_last_tick_at := Some now\<rparr>"

definition is_healthy :: "loop_health \<Rightarrow> timestamp \<Rightarrow> bool" where
  "is_healthy h now =
     (case h_last_tick_at h of None \<Rightarrow> False | Some t \<Rightarrow> of_int (now - t) \<le> stale_after_s h)"

text \<open>The status code of \<open>GET /healthz\<close>.\<close>

definition healthz :: "loop_health \<Rightarrow> timestamp \<Rightarrow> nat" where
  "healthz h now = (if is_healthy h now then 200 else 503)"

section \<open>The tables\<close>

record schedule_row =
  s_document :: uuid
  s_cadence :: int
  s_next :: timestamp
  s_last :: "timestamp option"
  s_failures :: int

record incident =
  i_document :: uuid
  i_class :: string
  i_error :: exn
  i_failures :: int

record ingest_db =
  corpus :: corpus
  schedule :: "schedule_row list"
  incidents :: "incident list"

text \<open>\<open>CLAIM_SQL\<close>: the due, unparked rows in the order of \<open>next_poll_at\<close>, locked rows skipped.\<close>

definition claim :: "timestamp \<Rightarrow> int \<Rightarrow> int \<Rightarrow> uuid set \<Rightarrow> ingest_db \<Rightarrow> uuid list" where
  "claim now threshold batch locked db =
     map s_document (take (nat batch)
       (filter (\<lambda>r. s_document r \<notin> locked)
          (sort_key s_next (filter (\<lambda>r. s_next r \<le> now \<and> s_failures r \<le> threshold) (schedule db)))))"

definition update_schedule :: "uuid \<Rightarrow> (schedule_row \<Rightarrow> schedule_row) \<Rightarrow> ingest_db \<Rightarrow> ingest_db" where
  "update_schedule d f db =
     db\<lparr>schedule := map (\<lambda>r. if s_document r = d then f r else r) (schedule db)\<rparr>"

definition mark_ok :: "timestamp \<Rightarrow> uuid \<Rightarrow> ingest_db \<Rightarrow> ingest_db" where
  "mark_ok now d =
     update_schedule d (\<lambda>r. r\<lparr>s_last := Some now, s_next := now + s_cadence r, s_failures := 0\<rparr>)"

text \<open>\<open>MARK_FAIL_SQL\<close> returns the new count, or nothing when the row has vanished.\<close>

definition mark_fail :: "timestamp \<Rightarrow> uuid \<Rightarrow> ingest_db \<Rightarrow> ingest_db \<times> int option" where
  "mark_fail now d db =
     (let db' = update_schedule d (\<lambda>r. r\<lparr>s_last := Some now, s_failures := s_failures r + 1\<rparr>) db
      in (db', map_option s_failures (List.find (\<lambda>r. s_document r = d) (schedule db'))))"

definition insert_incident :: "uuid \<Rightarrow> string \<Rightarrow> exn \<Rightarrow> int \<Rightarrow> ingest_db \<Rightarrow> ingest_db" where
  "insert_incident d cls e n db =
     db\<lparr>incidents := incidents db @ [\<lparr>i_document = d, i_class = cls, i_error = e, i_failures = n\<rparr>]\<rparr>"

section \<open>The tick\<close>

definition is_db_error :: "exn \<Rightarrow> bool" where
  "is_db_error e = (case e of DbError _ \<Rightarrow> True | _ \<Rightarrow> False)"

text \<open>
  \<open>_record_failure\<close>, after a poll that raised \<open>e\<close>. When \<open>e\<close> came from a statement of this
  transaction, the first \<open>UPDATE\<close> already fails. The result holds the number of incidents.
\<close>

definition record_failure :: "int \<Rightarrow> timestamp \<Rightarrow> uuid \<Rightarrow> exn \<Rightarrow> ingest_db \<Rightarrow> (ingest_db \<times> nat) result" where
  "record_failure threshold now d e db =
     (if is_db_error e then Inl (DbError InFailedTransaction)
      else let (db', new_count) = mark_fail now d db in
        case new_count of
          None \<Rightarrow> Inr (db', 0)
        | Some n \<Rightarrow> if n > threshold then Inr (insert_incident d ''parked'' e n db', 1) else Inr (db', 0))"

type_synonym 'w poll_fn = "'w \<Rightarrow> corpus \<Rightarrow> uuid \<Rightarrow> 'w \<times> corpus result"

text \<open>\<open>noop_poll\<close>.\<close>

definition noop_poll :: "'w poll_fn" where
  "noop_poll w c d = (w, Inr c)"

fun tick_rows ::
  "'w poll_fn \<Rightarrow> int \<Rightarrow> timestamp \<Rightarrow> uuid list \<Rightarrow> 'w \<Rightarrow> ingest_db \<Rightarrow> nat \<Rightarrow> 'w \<times> nat \<times> ingest_db result" where
  "tick_rows poll threshold now [] w db n = (w, n, Inr db)"
| "tick_rows poll threshold now (d # ds) w db n =
     (case poll w (corpus db) d of
        (w', Inr c) \<Rightarrow> tick_rows poll threshold now ds w' (mark_ok now d (db\<lparr>corpus := c\<rparr>)) n
      | (w', Inl e) \<Rightarrow>
          (case record_failure threshold now d e db of
             Inl e' \<Rightarrow> (w', n, Inl e')
           | Inr (db', k) \<Rightarrow> tick_rows poll threshold now ds w' db' (n + k)))"

record loop_state =
  last_tick_at :: "timestamp option"
  ticks :: nat
  rows_processed :: nat
  incidents_written :: nat

definition new_loop_state :: loop_state where
  "new_loop_state = \<lparr>last_tick_at = None, ticks = 0, rows_processed = 0, incidents_written = 0\<rparr>"

record 'w worker =
  world :: 'w
  idb :: ingest_db
  loop_state :: loop_state
  health :: loop_health

text \<open>One tick; on an exception the transaction is rolled back and only the world has moved.\<close>

definition tick ::
  "'w poll_fn \<Rightarrow> claim_loop_config \<Rightarrow> timestamp \<Rightarrow> uuid set \<Rightarrow> 'w worker \<Rightarrow> 'w worker \<times> nat result" where
  "tick poll cfg now locked wk =
     (let rows = claim now (failure_threshold cfg) (batch_size cfg) locked (idb wk);
          ls = loop_state wk
      in case tick_rows poll (failure_threshold cfg) now rows (world wk) (idb wk) (incidents_written ls) of
           (w', n, Inl e) \<Rightarrow>
             (wk\<lparr>world := w', loop_state := ls\<lparr>incidents_written := n\<rparr>\<rparr>, Inl e)
         | (w', n, Inr db') \<Rightarrow>
             (wk\<lparr>world := w', idb := db',
                 loop_state := \<lparr>last_tick_at = Some now, ticks = ticks ls + 1,
                                rows_processed = rows_processed ls + length rows,
                                incidents_written = n\<rparr>,
                 health := touch now (health wk)\<rparr>,
              Inr (length rows)))"

text \<open>
  \<open>run\<close>: ticks at the given moments, with the rows other replicas hold locked, until the
  shutdown event is seen. A tick's exception is logged and the loop goes on.
\<close>

fun run :: "'w poll_fn \<Rightarrow> claim_loop_config \<Rightarrow> (timestamp \<times> uuid set) list \<Rightarrow> 'w worker \<Rightarrow> 'w worker" where
  "run poll cfg [] wk = wk"
| "run poll cfg ((now, locked) # ms) wk = run poll cfg ms (fst (tick poll cfg now locked wk))"

end
