(* ===== verification/Claim_Correct.thy ===== *)
theory Claim_Correct
  imports Claim_Loop
begin

text \<open>
  What the claim loop guarantees: which rows a tick claims, what a committed tick does to the
  schedule, that a document has a \<open>parked\<close> incident exactly while it is parked, and what an
  aborted transaction does to the whole batch.
\<close>

section \<open>Claiming\<close>

definition due :: "timestamp \<Rightarrow> int \<Rightarrow> schedule_row \<Rightarrow> bool" where
  "due now threshold r \<longleftrightarrow> s_next r \<le> now \<and> s_failures r \<le> threshold"

definition queue :: "timestamp \<Rightarrow> int \<Rightarrow> uuid set \<Rightarrow> ingest_db \<Rightarrow> schedule_row list" where
  "queue now threshold locked db =
     filter (\<lambda>r. s_document r \<notin> locked) (sort_key s_next (filter (due now threshold) (schedule db)))"

lemma claim_queue: "claim now threshold batch locked db = map s_document (take (nat batch) (queue now threshold locked db))"
  by (simp add: claim_def queue_def due_def [abs_def])

lemma set_queue: "set (queue now threshold locked db) =
    {r \<in> set (schedule db). due now threshold r \<and> s_document r \<notin> locked}"
  by (auto simp: queue_def)

lemma sorted_queue: "sorted (map s_next (queue now threshold locked db))"
  unfolding queue_def by (rule sorted_filter) simp

lemma claim_due:
  assumes "d \<in> set (claim now threshold batch locked db)"
  shows "\<exists>r \<in> set (schedule db). s_document r = d \<and> due now threshold r \<and> d \<notin> locked"
  using assms set_queue [of now threshold locked db] unfolding claim_queue by (auto dest!: in_set_takeD)

lemma claim_length: "length (claim now threshold batch locked db) \<le> nat batch"
  by (simp add: claim_queue)

text \<open>A row that is passed over is not more overdue than a claimed one.\<close>

lemma claim_most_overdue:
  assumes "i < nat batch" "i < length (queue now threshold locked db)"
    and "nat batch \<le> j" "j < length (queue now threshold locked db)"
  shows "s_next (queue now threshold locked db ! i) \<le> s_next (queue now threshold locked db ! j)"
  using sorted_nth_mono [OF sorted_queue, of i j] assms by simp

lemma claim_nonempty:
  assumes "r \<in> set (schedule db)" "due now threshold r" "s_document r \<notin> locked" "0 < batch"
  shows "claim now threshold batch locked db \<noteq> []"
proof -
  have "queue now threshold locked db \<noteq> []"
    using assms(1-3) set_queue [of now threshold locked db] by force
  then show ?thesis using assms(4) by (simp add: claim_queue)
qed

definition keyed :: "ingest_db \<Rightarrow> bool" where
  "keyed db \<longleftrightarrow> distinct (map s_document (schedule db))"

lemma claim_distinct:
  assumes "keyed db"
  shows "distinct (claim now threshold batch locked db)"
proof -
  have "distinct (map s_document (filter (due now threshold) (schedule db)))"
    using assms unfolding keyed_def by (rule distinct_map_filter)
  then have "distinct (map s_document (sort_key s_next (filter (due now threshold) (schedule db))))"
    by (simp add: distinct_map)
  then have "distinct (map s_document (queue now threshold locked db))"
    unfolding queue_def by (rule distinct_map_filter)
  then show ?thesis unfolding claim_queue by (simp add: take_map [symmetric])
qed

text \<open>Without other replicas, a row that is claimed now is claimed at every later moment.\<close>

lemma filter_le_prefix:
  fixes f :: "'a \<Rightarrow> 'b::linorder"
  shows "sorted (map f xs) \<Longrightarrow> filter (\<lambda>x. f x \<le> t) xs = takeWhile (\<lambda>x. f x \<le> t) xs"
proof (induction xs)
  case (Cons x xs)
  have "filter (\<lambda>y. f y \<le> t) xs = []" if "\<not> f x \<le> t"
    using Cons.prems that by (auto simp: filter_empty_conv)
  then show ?case using Cons by auto
qed simp

lemma queue_prefix:
  assumes "now \<le> now'"
  shows "queue now threshold {} db = takeWhile (\<lambda>r. s_next r \<le> now) (queue now' threshold {} db)"
proof -
  have "filter (\<lambda>r. s_next r \<le> now) (queue now' threshold {} db) = queue now threshold {} db"
    using assms unfolding queue_def
    by (simp add: filter_sort conj_commute) (rule arg_cong [where f = "sort_key s_next"], rule filter_cong, auto simp: due_def)
  then show ?thesis using filter_le_prefix [OF sorted_queue [of now' threshold "{}" db], of now] by simp
qed

lemma claim_later:
  assumes "now \<le> now'" "d \<in> set (claim now threshold batch {} db)"
  shows "d \<in> set (claim now' threshold batch {} db)"
proof -
  have "set (take n (takeWhile P xs)) \<subseteq> set (take n xs)" for n and P :: "schedule_row \<Rightarrow> bool" and xs
    by (induction xs arbitrary: n) (auto simp: take_Cons split: nat.splits)
  from image_mono [OF this, of s_document "nat batch" "\<lambda>r. s_next r \<le> now" "queue now' threshold {} db"]
  show ?thesis using assms(2) unfolding claim_queue queue_prefix [OF assms(1)] by (auto simp del: image_eqI)
qed

section \<open>The schedule after a committed tick\<close>

definition ok_row :: "timestamp \<Rightarrow> schedule_row \<Rightarrow> schedule_row" where
  "ok_row now r = r\<lparr>s_last := Some now, s_next := now + s_cadence r, s_failures := 0\<rparr>"

definition failed_row :: "timestamp \<Rightarrow> schedule_row \<Rightarrow> schedule_row" where
  "failed_row now r = r\<lparr>s_last := Some now, s_failures := s_failures r + 1\<rparr>"

lemma row_documents [simp]: "s_document (ok_row now r) = s_document r" "s_document (failed_row now r) = s_document r"
  by (simp_all add: ok_row_def failed_row_def)

lemma mark_ok_schedule [simp]:
  "schedule (mark_ok now d db) = map (\<lambda>r. if s_document r = d then ok_row now r else r) (schedule db)"
  "incidents (mark_ok now d db) = incidents db" "corpus (mark_ok now d db) = corpus db"
  by (simp_all add: mark_ok_def update_schedule_def ok_row_def)

lemma record_failureD:
  assumes "record_failure threshold now d e db = Inr (db', k)"
  shows "\<not> is_db_error e" "corpus db' = corpus db"
    and "schedule db' = map (\<lambda>r. if s_document r = d then failed_row now r else r) (schedule db)"
    and "incidents db' = incidents db \<or> (\<exists>n. incidents db' = incidents db @ [\<lparr>i_document = d, i_class = ''parked'', i_error = e, i_failures = n\<rparr>])"
    and "length (incidents db') = length (incidents db) + k"
  using assms
  by (auto simp: record_failure_def mark_fail_def update_schedule_def failed_row_def insert_incident_def Let_def
      split: if_splits option.splits)

definition marked :: "timestamp \<Rightarrow> uuid set \<Rightarrow> schedule_row \<Rightarrow> schedule_row \<Rightarrow> bool" where
  "marked now ds r r' \<longleftrightarrow> (if s_document r \<in> ds then r' = ok_row now r \<or> r' = failed_row now r else r' = r)"

lemma tick_rows_ConsE:
  assumes "tick_rows poll threshold now (d # ds) w db n = (w', n', Inr db')"
  obtains w1 n1 db1 where "tick_rows poll threshold now ds w1 db1 n1 = (w', n', Inr db')"
    and "(\<exists>c. db1 = mark_ok now d (db\<lparr>corpus := c\<rparr>)) \<or> (\<exists>e k. record_failure threshold now d e db = Inr (db1, k))"
  using assms by (auto split: prod.splits sum.splits) blast+

lemma tick_rows_schedule:
  assumes "tick_rows poll threshold now ds w db n = (w', n', Inr db')" "distinct ds"
  shows "list_all2 (marked now (set ds)) (schedule db) (schedule db')"
  using assms
proof (induction ds arbitrary: w db n)
  case Nil
  then show ?case by (simp add: list_all2_refl marked_def)
next
  case (Cons d ds)
  obtain w1 n1 db1 where step: "tick_rows poll threshold now ds w1 db1 n1 = (w', n', Inr db')"
    and "(\<exists>c. db1 = mark_ok now d (db\<lparr>corpus := c\<rparr>)) \<or> (\<exists>e k. record_failure threshold now d e db = Inr (db1, k))"
    by (rule tick_rows_ConsE [OF Cons.prems(1)])
  then consider c where "db1 = mark_ok now d (db\<lparr>corpus := c\<rparr>)"
    | e k where "record_failure threshold now d e db = Inr (db1, k)" by blast
  then have "\<exists>f. (f = ok_row now \<or> f = failed_row now)
      \<and> schedule db1 = map (\<lambda>r. if s_document r = d then f r else r) (schedule db)"
  proof cases
    case 1
    then show ?thesis by (intro exI [of _ "ok_row now"]) simp
  next
    case 2
    then show ?thesis using record_failureD(3) by (intro exI [of _ "failed_row now"]) blast
  qed
  then obtain f where f: "f = ok_row now \<or> f = failed_row now"
    and db1: "schedule db1 = map (\<lambda>r. if s_document r = d then f r else r) (schedule db)"
    by blast
  have "list_all2 (marked now (set ds)) (schedule db1) (schedule db')"
    by (rule Cons.IH [OF step]) (use Cons.prems(2) in simp)
  then show ?case
    using f Cons.prems(2) unfolding db1 list_all2_map1
    by (elim list_all2_mono) (auto simp: marked_def split: if_splits)
qed

section \<open>Parked documents\<close>

text \<open>A document has exactly one incident while its count is above the threshold, else none.\<close>

definition incident_count :: "ingest_db \<Rightarrow> uuid \<Rightarrow> nat" where
  "incident_count db d = length (filter (\<lambda>i. i_document i = d) (incidents db))"

definition parked :: "int \<Rightarrow> ingest_db \<Rightarrow> uuid \<Rightarrow> bool" where
  "parked threshold db d \<longleftrightarrow> (\<exists>r \<in> set (schedule db). s_document r = d \<and> threshold < s_failures r)"

definition parking_ok :: "int \<Rightarrow> ingest_db \<Rightarrow> bool" where
  "parking_ok threshold db \<longleftrightarrow> keyed db \<and> (\<forall>d. incident_count db d = (if parked threshold db d then 1 else 0))"

lemma keyed_same_row:
  "keyed db \<Longrightarrow> r \<in> set (schedule db) \<Longrightarrow> q \<in> set (schedule db) \<Longrightarrow> s_document r = s_document q \<Longrightarrow> r = q"
  unfolding keyed_def by (metis distinct_map inj_onD)

lemma keyed_update: "(\<And>r. s_document (f r) = s_document r) \<Longrightarrow> keyed (update_schedule d f db) = keyed db"
  by (simp add: keyed_def update_schedule_def comp_def if_distrib cong: if_cong)

lemma schedule_update_schedule:
  "schedule (update_schedule d f db) = map (\<lambda>r. if s_document r = d then f r else r) (schedule db)"
  by (simp add: update_schedule_def)

lemma bex_map: "(\<exists>y \<in> set (map g xs). P y) \<longleftrightarrow> (\<exists>x \<in> set xs. P (g x))"
  by simp

lemma parked_update_other:
  assumes "\<And>r. s_document (f r) = s_document r" "d' \<noteq> d"
  shows "parked threshold (update_schedule d f db) d' = parked threshold db d'"
  unfolding parked_def schedule_update_schedule bex_map
  by (rule bex_cong) (use assms(2) in \<open>auto simp: assms(1)\<close>)

lemma parked_update_same:
  assumes "\<And>r. s_document (f r) = s_document r"
  shows "parked threshold (update_schedule d f db) d \<longleftrightarrow>
    (\<exists>r \<in> set (schedule db). s_document r = d \<and> threshold < s_failures (f r))"
  unfolding parked_def schedule_update_schedule bex_map by (rule bex_cong) (auto simp: assms)

lemma mark_ok_parking:
  assumes ok: "parking_ok threshold db" and un: "\<not> parked threshold db d" and thr: "0 \<le> threshold"
  shows "parking_ok threshold (mark_ok now d (db\<lparr>corpus := c\<rparr>))"
proof -
  let ?f = "\<lambda>r. r\<lparr>s_last := Some now, s_next := now + s_cadence r, s_failures := 0\<rparr>"
  let ?db = "db\<lparr>corpus := c\<rparr>"
  have base: "keyed ?db = keyed db" "parked threshold ?db d' = parked threshold db d'"
    "incident_count (mark_ok now d ?db) d' = incident_count db d'" for d'
    by (simp_all add: keyed_def parked_def incident_count_def)
  have "parked threshold (mark_ok now d ?db) d' = parked threshold db d'" for d'
  proof (cases "d' = d")
    case True
    then show ?thesis using un thr parked_update_same [of ?f threshold d ?db] by (simp add: mark_ok_def)
  next
    case False
    then show ?thesis using parked_update_other [of ?f d' d threshold ?db] base(2) by (simp add: mark_ok_def)
  qed
  moreover have "keyed (mark_ok now d ?db) = keyed db"
    using keyed_update [of ?f d ?db] base(1) by (simp add: mark_ok_def)
  ultimately show ?thesis using ok base(3) by (simp add: parking_ok_def)
qed

lemma record_failure_parking:
  assumes ok: "parking_ok threshold db" and un: "\<not> parked threshold db d"
    and rf: "record_failure threshold now d e db = Inr (db', k)"
  shows "parking_ok threshold db'"
proof -
  let ?f = "\<lambda>r. r\<lparr>s_last := Some now, s_failures := s_failures r + 1\<rparr>"
  let ?db = "update_schedule d ?f db"
  have key: "keyed ?db = keyed db" by (rule keyed_update) simp
  have other: "parked threshold ?db d' = parked threshold db d'" if "d' \<noteq> d" for d'
    by (rule parked_update_other) (use that in auto)
  have inc: "incident_count ?db d' = incident_count db d'" for d'
    by (simp add: incident_count_def update_schedule_def)
  have zero: "incident_count db d = 0" using ok un by (simp add: parking_ok_def)
  define n where "n = map_option s_failures (List.find (\<lambda>r. s_document r = d) (schedule ?db))"
  have rf': "(case n of None \<Rightarrow> Inr (?db, 0)
      | Some n \<Rightarrow> if n > threshold then Inr (insert_incident d ''parked'' e n ?db, 1) else Inr (?db, 0)) = (Inr (db', k) :: (ingest_db \<times> nat) result)"
    using rf by (simp add: record_failure_def mark_fail_def Let_def n_def split: if_splits)
  have park: "parked threshold ?db d \<longleftrightarrow> (\<exists>m. n = Some m \<and> threshold < m)"
  proof
    assume "parked threshold ?db d"
    then obtain r where r: "r \<in> set (schedule ?db)" "s_document r = d" "threshold < s_failures r"
      by (auto simp: parked_def)
    then obtain q where q: "List.find (\<lambda>r. s_document r = d) (schedule ?db) = Some q"
      by (cases "List.find (\<lambda>r. s_document r = d) (schedule ?db)") (auto simp: find_None_iff)
    then have "q \<in> set (schedule ?db)" "s_document q = d" by (auto simp: find_Some_iff)
    then have "q = r" using keyed_same_row [of ?db q r] r key ok by (simp add: parking_ok_def)
    then show "\<exists>m. n = Some m \<and> threshold < m" using q r(3) by (simp add: n_def)
  next
    assume "\<exists>m. n = Some m \<and> threshold < m"
    then show "parked threshold ?db d" by (auto simp: n_def parked_def find_Some_iff)
  qed
  have ins: "incident_count (insert_incident d c e m ?db) d' = incident_count db d' + (if d' = d then 1 else 0)"
    "parked threshold (insert_incident d c e m ?db) d' = parked threshold ?db d'"
    "keyed (insert_incident d c e m ?db) = keyed ?db" for c m d'
    by (auto simp: insert_incident_def incident_count_def parked_def keyed_def update_schedule_def)
  show ?thesis
  proof (cases "parked threshold ?db d")
    case True
    then obtain m where "n = Some m" "threshold < m" using park by blast
    then have db': "db' = insert_incident d ''parked'' e m ?db" using rf' by simp
    show ?thesis
      unfolding parking_ok_def db' ins key using ok zero other True by (auto simp: parking_ok_def)
  next
    case False
    then have db': "db' = ?db" using rf' park by (auto split: option.splits if_splits)
    show ?thesis unfolding parking_ok_def db' key using ok inc other False un by (metis parking_ok_def)
  qed
qed

lemma claim_unparked:
  assumes "keyed db" "d \<in> set (claim now threshold batch locked db)"
  shows "\<not> parked threshold db d"
  using claim_due [OF assms(2)] keyed_same_row [OF assms(1)] by (auto simp: parked_def due_def) fastforce

lemma unparked_frame:
  "d' \<noteq> d \<Longrightarrow> parked threshold (mark_ok now d (db\<lparr>corpus := c\<rparr>)) d' = parked threshold db d'"
  "d' \<noteq> d \<Longrightarrow> record_failure threshold now d e db = Inr (db', k) \<Longrightarrow> parked threshold db' d' = parked threshold db d'"
  by (auto simp: parked_def ok_row_def failed_row_def dest!: record_failureD(3))

lemma tick_rows_parking:
  assumes "tick_rows poll threshold now ds w db n = (w', n', Inr db')" "distinct ds" "0 \<le> threshold"
    and "parking_ok threshold db" "\<forall>d \<in> set ds. \<not> parked threshold db d"
  shows "parking_ok threshold db'"
  using assms
proof (induction ds arbitrary: w db n)
  case Nil
  then show ?case by simp
next
  case (Cons d ds)
  obtain w1 n1 db1 where step: "tick_rows poll threshold now ds w1 db1 n1 = (w', n', Inr db')"
    and db1: "(\<exists>c. db1 = mark_ok now d (db\<lparr>corpus := c\<rparr>)) \<or> (\<exists>e k. record_failure threshold now d e db = Inr (db1, k))"
    by (rule tick_rows_ConsE [OF Cons.prems(1)])
  have "parking_ok threshold db1"
    using db1 mark_ok_parking record_failure_parking Cons.prems(3-5) by (metis list.set_intros(1))
  moreover have "\<forall>d' \<in> set ds. \<not> parked threshold db1 d'"
    using db1 unparked_frame Cons.prems(2,5) by (metis distinct.simps(2) list.set_intros(2))
  ultimately show ?case using Cons.IH [OF step] Cons.prems(2,3) by simp
qed

lemma tick_parking:
  assumes "parking_ok (failure_threshold cfg) (idb wk)" "0 \<le> failure_threshold cfg"
  shows "parking_ok (failure_threshold cfg) (idb (fst (tick poll cfg now locked wk)))"
proof -
  have k: "keyed (idb wk)" using assms(1) by (simp add: parking_ok_def)
  let ?ds = "claim now (failure_threshold cfg) (batch_size cfg) locked (idb wk)"
  obtain w' n r where t: "tick_rows poll (failure_threshold cfg) now ?ds (world wk) (idb wk)
      (incidents_written (loop_state wk)) = (w', n, r)"
    by (metis prod_cases3)
  show ?thesis
  proof (cases r)
    case (Inl e)
    then show ?thesis using assms(1) t by (simp add: tick_def Let_def)
  next
    case (Inr db')
    have "parking_ok (failure_threshold cfg) db'"
      by (rule tick_rows_parking [OF t [unfolded Inr] claim_distinct [OF k] assms(2,1)])
         (use claim_unparked [OF k] in blast)
    then show ?thesis using t Inr by (simp add: tick_def Let_def)
  qed
qed

lemma run_parking:
  "parking_ok (failure_threshold cfg) (idb wk) \<Longrightarrow> 0 \<le> failure_threshold cfg \<Longrightarrow>
     parking_ok (failure_threshold cfg) (idb (run poll cfg ms wk))"
  by (induction poll cfg ms wk rule: run.induct) (auto dest: tick_parking)

section \<open>An aborted transaction\<close>

text \<open>
  A document whose poll always fails in a statement, as long as an invariant \<open>W\<close> of the world,
  which every poll keeps, and an invariant \<open>C\<close> of the corpus, which the polls of the other
  documents keep, hold.
\<close>

definition poisoned :: "'w poll_fn \<Rightarrow> uuid \<Rightarrow> ('w \<Rightarrow> bool) \<Rightarrow> (corpus \<Rightarrow> bool) \<Rightarrow> bool" where
  "poisoned poll d W C \<longleftrightarrow> (\<forall>w c. W w \<and> C c \<longrightarrow>
     (\<exists>w' e. poll w c d = (w', Inl (DbError e)) \<and> W w') \<and>
     (\<forall>d' w' r. d' \<noteq> d \<and> poll w c d' = (w', r) \<longrightarrow> W w' \<and> (\<forall>c'. r = Inr c' \<longrightarrow> C c')))"

lemma poisonedD:
  assumes "poisoned poll d W C" "W w" "C c"
  shows "\<exists>w' e. poll w c d = (w', Inl (DbError e)) \<and> W w'"
    and "d' \<noteq> d \<Longrightarrow> poll w c d' = (w', r) \<Longrightarrow> W w' \<and> (\<forall>c'. r = Inr c' \<longrightarrow> C c')"
  using assms unfolding poisoned_def by blast+

lemma tick_rows_poisoned:
  assumes poison: "poisoned poll d W C" and "d \<in> set ds" "W w" "C (corpus db)"
  shows "\<exists>w' n' e. tick_rows poll threshold now ds w db n = (w', n', Inl e) \<and> W w'"
  using assms(2-4)
proof (induction ds arbitrary: w db n)
  case Nil
  then show ?case by simp
next
  case (Cons a ds)
  show ?case
  proof (cases "a = d")
    case True
    obtain w' e where "poll w (corpus db) d = (w', Inl (DbError e))" "W w'"
      using poisonedD(1) [OF poison Cons.prems(2,3)] by blast
    then show ?thesis using True by (simp add: record_failure_def is_db_error_def)
  next
    case False
    obtain w1 r where p: "poll w (corpus db) a = (w1, r)" by (cases "poll w (corpus db) a")
    have keep: "W w1" "\<forall>c'. r = Inr c' \<longrightarrow> C c'" using poisonedD(2) [OF poison Cons.prems(2,3) False p] by auto
    have d: "d \<in> set ds" using Cons.prems(1) False by simp
    show ?thesis
    proof (cases r)
      case (Inr c)
      then show ?thesis using Cons.IH [OF d keep(1), of "mark_ok now a (db\<lparr>corpus := c\<rparr>)"] keep(2) p by simp
    next
      case (Inl e)
      show ?thesis
      proof (cases "record_failure threshold now a e db")
        case rec: (Inl e')
        then show ?thesis using p Inl keep(1) by simp
      next
        case rec: (Inr dbk)
        obtain db1 k where dbk: "dbk = (db1, k)" by (cases dbk)
        then have "corpus db1 = corpus db" using record_failureD(2) rec by blast
        then show ?thesis using Cons.IH [OF d keep(1), of db1] Cons.prems(3) p Inl rec dbk by simp
      qed
    qed
  qed
qed

text \<open>A tick that claims such a document rolls everything back.\<close>

lemma tick_poisoned:
  assumes "poisoned poll d W C" "W (world wk)" "C (corpus (idb wk))"
    and "d \<in> set (claim now (failure_threshold cfg) (batch_size cfg) locked (idb wk))"
  shows "idb (fst (tick poll cfg now locked wk)) = idb wk"
    and "health (fst (tick poll cfg now locked wk)) = health wk"
    and "ticks (loop_state (fst (tick poll cfg now locked wk))) = ticks (loop_state wk)"
    and "W (world (fst (tick poll cfg now locked wk)))"
    and "\<exists>e. snd (tick poll cfg now locked wk) = Inl e"
proof -
  obtain w' n' e where "tick_rows poll (failure_threshold cfg) now
      (claim now (failure_threshold cfg) (batch_size cfg) locked (idb wk)) (world wk) (idb wk)
      (incidents_written (loop_state wk)) = (w', n', Inl e)" "W w'"
    using tick_rows_poisoned [OF assms(1,4,2,3)] by blast
  then show "idb (fst (tick poll cfg now locked wk)) = idb wk"
    "health (fst (tick poll cfg now locked wk)) = health wk"
    "ticks (loop_state (fst (tick poll cfg now locked wk))) = ticks (loop_state wk)"
    "W (world (fst (tick poll cfg now locked wk)))"
    "\<exists>e. snd (tick poll cfg now locked wk) = Inl e"
    by (simp_all add: tick_def Let_def)
qed

text \<open>With one replica the same batch fails at every later tick.\<close>

lemma run_poisoned:
  assumes "poisoned poll d W C" "W (world wk)" "C (corpus (idb wk))"
    and "d \<in> set (claim t0 (failure_threshold cfg) (batch_size cfg) {} (idb wk))"
    and "\<forall>(now, locked) \<in> set ms. t0 \<le> now \<and> locked = {}"
  shows "idb (run poll cfg ms wk) = idb wk \<and> health (run poll cfg ms wk) = health wk"
  using assms(2-5)
proof (induction ms arbitrary: wk)
  case Nil
  then show ?case by simp
next
  case (Cons m ms)
  obtain now where m: "m = (now, {})" "t0 \<le> now" using Cons.prems(4) by (cases m) auto
  note t = tick_poisoned [OF assms(1) Cons.prems(1,2) claim_later [OF m(2) Cons.prems(3)]]
  show ?case unfolding m run.simps using Cons.IH [of "fst (tick poll cfg now {} wk)"] t Cons.prems by simp
qed

end
