(* ===== verification/Worker.thy ===== *)
theory Worker
  imports Poll_Total Claim_Correct
begin

text \<open>
  The ingestion worker as \<open>__main__.py\<close> wires it: the claim loop's \<open>PollFn\<close> is \<open>poll_document\<close>
  with its client and blob store bound, so the loop's world is the blob store and the position
  in the sequence of upstream answers and clock readings.
\<close>

definition worker_poll ::
  "poll_env \<Rightarrow> (nat \<Rightarrow> uuid \<Rightarrow> markdown_document option result) \<Rightarrow> (nat \<Rightarrow> timestamp)
    \<Rightarrow> (memory_store \<times> nat) poll_fn" where
  "worker_poll env fetch clock w c d =
     (case poll_document env d (clock (snd w)) (fetch (snd w) d) (fst w) c of
        (blobs, r) \<Rightarrow> ((blobs, Suc (snd w)), r))"

section \<open>Invariants of the polls\<close>

text \<open>Every blob is stored under the key of its digest.\<close>

definition addressed :: "poll_env \<Rightarrow> memory_store \<Rightarrow> bool" where
  "addressed env blobs \<longleftrightarrow> (\<forall>k b. mem_get blobs k = Some b \<longrightarrow> k = content_key (env_sha256 env b))"

lemma addressed_put:
  assumes "addressed env blobs" "mem_put blobs (content_key (env_sha256 env body)) body = Inr blobs'"
  shows "addressed env blobs'"
  using assms mem.get_put [OF assms(2)] by (auto simp: addressed_def)

lemma poll_addressed:
  "addressed env blobs \<Longrightarrow> poll_document env d now fetched blobs db = (blobs', r) \<Longrightarrow> addressed env blobs'"
  by (auto simp: poll_document_def Let_def intro: addressed_put split: sum.splits option.splits if_splits)

text \<open>A document without a live version whose number 1 is taken.\<close>

definition stuck_document :: "uuid \<Rightarrow> corpus \<Rightarrow> bool" where
  "stuck_document d db \<longleftrightarrow> live_version db d = None \<and> (\<exists>r \<in> set (versions db). v_document r = d \<and> v_no r = Some 1)
     \<and> (\<exists>r \<in> set (documents db). d_id r = d)"

lemma stuck_map:
  assumes "live_version db d = None" "\<forall>r. v_document (f r) = v_document r \<and> (v_to (f r) = None \<longrightarrow> v_to r = None)"
    "versions db' = map f (versions db) @ rs" "\<forall>r \<in> set rs. v_document r \<noteq> d"
  shows "live_version db' d = None"
  unfolding live_version_None_iff
proof (intro ballI impI)
  fix r' assume r': "r' \<in> set (versions db')" "v_document r' = d"
  then have "r' \<in> f ` set (versions db)" using assms(3,4) by auto
  then obtain r where r: "r \<in> set (versions db)" "r' = f r" by blast
  have "v_document (f r) = v_document r" using assms(2) by blast
  then have "v_document r = d" using r'(2) r(2) by simp
  then have "v_to r \<noteq> None" using assms(1) r(1) unfolding live_version_None_iff by blast
  moreover have "v_to (f r) = None \<longrightarrow> v_to r = None" using assms(2) by blast
  ultimately show "v_to r' \<noteq> None" using r(2) by auto
qed

lemma poll_other_keeps_stuck:
  assumes "stuck_document d db" "d' \<noteq> d" "poll_document env d' now fetched blobs db = (blobs', Inr db')"
  shows "stuck_document d db'"
  using assms(3)
proof (cases rule: poll_documentD)
  case no_document
  then show ?thesis using assms(1) by simp
next
  case (unchanged doc body v)
  let ?f = "\<lambda>r. if v_id r = v_id v then r\<lparr>v_to := Some now\<rparr> else r"
  have "live_version db' d = None"
    by (rule stuck_map [of db d ?f _ "[]"]) (use assms(1) unchanged in \<open>auto simp: stuck_document_def\<close>)
  moreover obtain r where "r \<in> set (versions db)" "v_document r = d" "v_no r = Some 1"
    using assms(1) by (auto simp: stuck_document_def)
  then have "\<exists>r \<in> set (versions db'). v_document r = d \<and> v_no r = Some 1"
    unfolding unchanged by (intro bexI [of _ "?f r"]) auto
  ultimately show ?thesis using assms(1) unchanged by (simp add: stuck_document_def)
next
  case (changed doc body)
  from changed(5) obtain scope tree prev_tree prev_uids evs where
    pv: "persist_version env d' now doc body (live_version db d') scope tree evs prev_uids db = Inr db'"
    by (rule poll_changedD)
  let ?f = "close_row (live_version db d') now"
  obtain vid where vs: "versions db' = map ?f (versions db)
      @ [?f (new_version env d' now doc body (next_no (live_version db d')) vid)]" "documents db' = documents db"
    by (rule persist_versionD [OF pv]) simp
  have "live_version db' d = None"
    by (rule stuck_map [OF _ _ vs(1)])
       (use assms(1,2) in \<open>auto simp: stuck_document_def new_version_def close_row_def split: option.splits if_splits\<close>)
  moreover obtain r where "r \<in> set (versions db)" "v_document r = d" "v_no r = Some 1"
    using assms(1) by (auto simp: stuck_document_def)
  then have "\<exists>r \<in> set (versions db'). v_document r = d \<and> v_no r = Some 1"
    unfolding vs by (intro bexI [of _ "?f r"]) auto
  ultimately show ?thesis using assms(1) vs by (simp add: stuck_document_def)
qed

text \<open>Polling a stuck document fails in the database, on the table's unique constraints.\<close>

lemma poll_stuck_unique_violation:
  assumes env: "env_ok env" and stuck: "stuck_document d db"
    and body: "utf8_encode (md_markdown doc) = Inr body" "tokens_ok (env_tokens env (md_markdown doc))"
    and blob: "mem_get blobs (content_key (env_sha256 env body)) \<in> {None, Some body}"
  shows "\<exists>blobs'. poll_document env d now (Inr (Some doc)) blobs db = (blobs', Inl (DbError UniqueViolation))"
proof -
  have live: "live_version db d = None" using stuck by (simp add: stuck_document_def)
  obtain blobs' where put: "mem_put blobs (content_key (env_sha256 env body)) body = Inr blobs'"
    using blob by (auto simp: mem_put_def)
  obtain scope where scope: "document_scope db d = Some scope"
    using document_scope_exists [of db d] stuck by (auto simp: stuck_document_def)
  obtain t where t: "parse (env_unidb env) default_parser_config (env_tokens env (md_markdown doc)) = Inr t"
    by (rule parse_total [OF _ plain_default_config body(2), of "env_unidb env"]) (use env in \<open>auto simp: env_ok_def\<close>)
  obtain uids vid where b: "build_clause_uid_map t (map added_for (bodied t)) [] (next_uuid db) = (uids, vid)"
    by (cases "build_clause_uid_map t (map added_for (bodied t)) [] (next_uuid db)")
  obtain r where r: "r \<in> set (versions db)" "v_document r = d" "v_no r = Some 1"
    using stuck by (auto simp: stuck_document_def)
  have "insert_version d lab 1 valid_from pub eff container key (env_sha256 env body) len (db\<lparr>next_uuid := vid\<rparr>)
      = Inl (DbError UniqueViolation)" for lab valid_from pub eff container key len
    using env r by (auto simp: insert_version_defs env_ok_def)
  then have "persist_version env d now doc body None scope t (map added_for (bodied t)) [] db = Inl (DbError UniqueViolation)"
    by (simp add: persist_version_def b Let_def)
  then have "poll_changed env d now doc body None db = Inl (DbError UniqueViolation)"
    by (simp add: poll_changed_def scope t initial_events_eq)
  then show ?thesis using put by (simp add: poll_document_def body(1) live)
qed

section \<open>A stuck document stops the worker\<close>

text \<open>What the upstream feed answers for the stuck document, whenever it is asked.\<close>

definition feeds_text :: "poll_env \<Rightarrow> (nat \<Rightarrow> uuid \<Rightarrow> markdown_document option result) \<Rightarrow> uuid \<Rightarrow> bool" where
  "feeds_text env fetch d \<longleftrightarrow> (\<forall>i. \<exists>doc body. fetch i d = Inr (Some doc) \<and> utf8_encode (md_markdown doc) = Inr body
     \<and> tokens_ok (env_tokens env (md_markdown doc))
     \<and> (\<forall>b. content_key (env_sha256 env b) = content_key (env_sha256 env body) \<longrightarrow> b = body))"

lemma stuck_poisoned:
  assumes "env_ok env" "feeds_text env fetch d"
  shows "poisoned (worker_poll env fetch clock) d (\<lambda>w. addressed env (fst w)) (stuck_document d)"
  unfolding poisoned_def
proof (intro allI impI conjI)
  fix w :: "memory_store \<times> nat" and c
  assume wc: "addressed env (fst w) \<and> stuck_document d c"
  obtain doc body where f: "fetch (snd w) d = Inr (Some doc)" "utf8_encode (md_markdown doc) = Inr body"
    "tokens_ok (env_tokens env (md_markdown doc))"
    "\<forall>b. content_key (env_sha256 env b) = content_key (env_sha256 env body) \<longrightarrow> b = body"
    using assms(2) unfolding feeds_text_def by blast
  have "mem_get (fst w) (content_key (env_sha256 env body)) \<in> {None, Some body}"
    using wc f(4) by (cases "mem_get (fst w) (content_key (env_sha256 env body))") (auto simp: addressed_def)
  then obtain blobs' where p: "poll_document env d (clock (snd w)) (Inr (Some doc)) (fst w) c
      = (blobs', Inl (DbError UniqueViolation))"
    using poll_stuck_unique_violation [OF assms(1) _ f(2,3)] wc by blast
  then show "\<exists>w' e. worker_poll env fetch clock w c d = (w', Inl (DbError e)) \<and> addressed env (fst w')"
    using poll_addressed [OF _ p] wc by (simp add: worker_poll_def f(1))
next
  fix w :: "memory_store \<times> nat" and c d' w' r
  assume wc: "addressed env (fst w) \<and> stuck_document d c" and p: "d' \<noteq> d \<and> worker_poll env fetch clock w c d' = (w', r)"
  then obtain blobs' where b: "poll_document env d' (clock (snd w)) (fetch (snd w) d') (fst w) c = (blobs', r)" "fst w' = blobs'"
    by (auto simp: worker_poll_def split: prod.splits)
  show "addressed env (fst w')" using poll_addressed [OF _ b(1)] wc b(2) by simp
  show "stuck_document d c'" if "r = Inr c'" for c'
    using poll_other_keeps_stuck b(1) wc p that by metis
qed

lemma unchanged_poll_stuck:
  assumes "history_ok (versions db) (next_uuid db)" "live_version db d = Some v"
    "utf8_encode (md_markdown doc) = Inr body" "v_sha v = env_sha256 env body"
    "poll_document env d now (Inr (Some doc)) blobs db = (blobs', Inr db')"
    "\<exists>r \<in> set (documents db). d_id r = d"
  shows "stuck_document d db'"
  using poll_unchanged_no_live [OF assms(1-5)] poll_unchanged [OF assms(2-4), of now blobs] assms(5,6)
  by (auto simp: stuck_document_def)

end
