(* ===== verification/Ingestion_Properties.thy ===== *)
theory Ingestion_Properties
  imports Samples Sweep_Race Worker
begin

text \<open>
  The properties of the ingestion worker: the poll of one document, the claim loop that drives
  it, the blob store beside the database and the sweep of that store; with their witnesses and
  the small corpora those are evaluated on.
\<close>

section \<open>Sample inputs\<close>

text \<open>The feed's text arrives as one loose text token, and digests tell texts apart by length.\<close>

definition sample_env :: poll_env where
  "sample_env = \<lparr>env_tokens = (\<lambda>s. [Loose s]), env_unidb = sample_unidb, env_minhash = sample_minhash,
     env_lsh = sample_lsh, env_tuning = None, env_sha256 = (\<lambda>b. replicate 32 (if b = [97] then 1 else 0)),
     env_container = ''originals''\<rparr>"

definition sample_doc :: markdown_document where
  "sample_doc = \<lparr>md_markdown = u ''a'', md_publication = None\<rparr>"

definition empty_corpus :: corpus where
  "empty_corpus = \<lparr>documents = [\<lparr>d_id = 7, d_jurisdiction = ''UK'', d_sector = ''energy'',
     d_lawstronaut = ''L7'', d_title = ''Act'', d_created = 0\<rparr>],
     versions = [], clauses = [], events = [], next_uuid = 100\<rparr>"

lemma sample_env_ok: "env_ok sample_env"
  by (simp add: env_ok_def sample_env_def sample_unidb_ok sample_datasketch_ok tuning_ok_def)

lemma empty_corpus_ok: "corpus_ok empty_corpus"
  by (simp add: corpus_ok_def empty_corpus_def history_ok_def)

lemma sample_encode: "utf8_encode (md_markdown sample_doc) = Inr [97]"
  by (simp add: utf8_encode_def sample_doc_def u_def surrogate_def utf8_char_def)

lemma sample_tokens: "tokens_ok (env_tokens sample_env (md_markdown sample_doc))"
  by (simp add: sample_env_def)

lemma sample_parse:
  "parse (env_unidb sample_env) default_parser_config (env_tokens sample_env (md_markdown sample_doc))
     = Inr (Clause [] None (u ''a'') None [])"
  by (simp add: parse_def finalize_def new_builder_def consume_loose_text_def u_def strip_def lstrip_def rstrip_def
      isspace_def top_def update_node_def node_def frozen_body_def sample_env_def sample_doc_def)

lemma sample_storable: "tree_storable (Clause [] None (u ''a'') None [])"
  by (simp add: tree_storable_def path_survives_def clause_texts_ok_def pg_text_def pg_text_opt_def path_str_def
      u_def surrogate_def)

lemma sample_parse_storable:
  "\<forall>t. parse (env_unidb sample_env) default_parser_config (env_tokens sample_env (md_markdown sample_doc)) = Inr t
     \<longrightarrow> tree_storable t"
  using sample_parse sample_storable by simp

lemma empty_corpus_live [simp]: "live_version empty_corpus d = None"
  by (simp add: live_version_def empty_corpus_def)

text \<open>The first poll of the sample document.\<close>

lemma sample_first_poll:
  obtains blobs' db' where "poll_document sample_env 7 5 (Inr (Some sample_doc)) [] empty_corpus = (blobs', Inr db')"
  using poll_total [OF sample_env_ok empty_corpus_ok _ _ sample_encode _ sample_tokens sample_parse_storable, of 7 "[]" 5]
  by (auto simp: empty_corpus_def mem_get_def)

section \<open>One poll\<close>

text \<open>C13. A poll of a known document whose text encodes, whose blob key is free or holds the same
  bytes, and whose clauses can be stored, succeeds: when the document has a live version, or no
  version at all.\<close>

theorem poll_succeeds:
  assumes "env_ok env" "corpus_ok db" "\<exists>r \<in> set (documents db). d_id r = d"
    and "live_version db d \<noteq> None \<or> (\<forall>r \<in> set (versions db). v_document r \<noteq> d)"
    and "utf8_encode (md_markdown doc) = Inr body"
    and "mem_get blobs (content_key (env_sha256 env body)) \<in> {None, Some body}"
    and "tokens_ok (env_tokens env (md_markdown doc))"
    and "\<forall>t. parse (env_unidb env) default_parser_config (env_tokens env (md_markdown doc)) = Inr t \<longrightarrow> tree_storable t"
  shows "\<exists>blobs' db'. poll_document env d now (Inr (Some doc)) blobs db = (blobs', Inr db')"
  by (rule poll_total [OF assms])

lemma poll_succeeds_witness:
  "\<exists>blobs' db'. poll_document sample_env 7 5 (Inr (Some sample_doc)) [] empty_corpus = (blobs', Inr db')"
  by (rule poll_succeeds [OF sample_env_ok empty_corpus_ok _ _ sample_encode _ sample_tokens sample_parse_storable])
     (simp_all add: empty_corpus_def mem_get_def)

text \<open>C12. Every poll that returns keeps the corpus well formed: identifiers are used once, the
  versions of a document are numbered from 1 without gaps and labelled by their number (or \<open>v2-synthetic\<close>), an open
  version has the greatest number (so at most one is open), and every clause row belongs to a
  version and holds valid text.\<close>

theorem poll_keeps_corpus:
  assumes "corpus_ok db" "poll_document env d now fetched blobs db = (blobs', Inr db')"
  shows "corpus_ok db'"
  by (rule poll_corpus_ok [OF assms])

lemma poll_keeps_corpus_witness:
  "\<exists>blobs' db'. poll_document sample_env 7 5 (Inr (Some sample_doc)) [] empty_corpus = (blobs', Inr db') \<and> corpus_ok db'"
proof -
  obtain blobs' db' where "poll_document sample_env 7 5 (Inr (Some sample_doc)) [] empty_corpus = (blobs', Inr db')"
    by (rule sample_first_poll)
  then show ?thesis using poll_keeps_corpus [OF empty_corpus_ok] by blast
qed

text \<open>C2. A poll that finds a changed text appends one version with the next number, which is the
  live one from then on; it closes the previous live version at the new version's
  \<open>valid_from\<close>, leaves every other version as it was, only appends clauses and events, and the new
  version's blob is stored.\<close>

theorem changed_poll_appends_version:
  assumes "corpus_ok db" "poll_document env d now (Inr (Some doc)) blobs db = (blobs', Inr db')"
    and "utf8_encode (md_markdown doc) = Inr body"
    and "\<forall>v. live_version db d = Some v \<longrightarrow> v_sha v \<noteq> env_sha256 env body"
  shows "\<exists>new. live_version db' d = Some new \<and> v_no new = Some (next_no (live_version db d))
     \<and> v_from new = Some now \<and> v_sha new = env_sha256 env body
     \<and> versions db' = map (\<lambda>r. if Some r = live_version db d then r\<lparr>v_to := Some now\<rparr> else r) (versions db) @ [new]
     \<and> mem_get blobs' (v_key new) = Some body
     \<and> (\<exists>rows. clauses db' = clauses db @ rows) \<and> (\<exists>rows. events db' = events db @ rows)"
proof -
  have h: "history_ok (versions db) (next_uuid db)" using assms(1) by (simp add: corpus_ok_def)
  obtain vid where vs: "versions db' = map (close_row (live_version db d) now) (versions db)
        @ [new_version env d now doc body (next_no (live_version db d)) vid]"
    and rest: "live_version db' d = Some (new_version env d now doc body (next_no (live_version db d)) vid)"
      "mem_get blobs' (content_key (env_sha256 env body)) = Some body"
      "\<exists>rows. events db' = events db @ rows" "\<exists>rows. clauses db' = clauses db @ rows"
    by (rule poll_changed_history [OF h assms(2-4)])
  have "close_row (live_version db d) now r = (if Some r = live_version db d then r\<lparr>v_to := Some now\<rparr> else r)"
    if r: "r \<in> set (versions db)" for r
  proof (cases "live_version db d")
    case (Some v)
    have v: "v \<in> set (versions db)" "v_to v = None" using live_version_SomeD [OF Some] by auto
    have "v_id r = v_id v \<longleftrightarrow> r = v"
      using history_okD(1) [OF h] r v(1) by (auto simp: distinct_map dest: inj_onD)
    then show ?thesis using Some v(2) by (auto simp: close_row_def)
  qed simp
  then have "map (close_row (live_version db d) now) (versions db) =
      map (\<lambda>r. if Some r = live_version db d then r\<lparr>v_to := Some now\<rparr> else r) (versions db)"
    by (rule map_cong [OF refl])
  then show ?thesis
    using vs rest by (intro exI [of _ "new_version env d now doc body (next_no (live_version db d)) vid"])
      (simp add: new_version_def)
qed

lemma changed_poll_appends_version_witness:
  "\<exists>blobs' db' new. poll_document sample_env 7 5 (Inr (Some sample_doc)) [] empty_corpus = (blobs', Inr db')
     \<and> live_version db' 7 = Some new \<and> v_no new = Some 1"
proof -
  obtain blobs' db' where p: "poll_document sample_env 7 5 (Inr (Some sample_doc)) [] empty_corpus = (blobs', Inr db')"
    by (rule sample_first_poll)
  show ?thesis using p changed_poll_appends_version [OF empty_corpus_ok p sample_encode] by (auto simp: next_no_def)
qed

text \<open>A poll that finds the text unchanged closes the live version, although it is meant to
  extend it; the document has no live version any more, and every later poll of it that is given
  a text fails, because it would insert the version number 1 again.\<close>

theorem unchanged_poll_ends_document:
  assumes "corpus_ok db" "live_version db d = Some v" "utf8_encode (md_markdown doc) = Inr body"
    and "v_sha v = env_sha256 env body"
    and "poll_document env d now (Inr (Some doc)) blobs db = (blobs', Inr db')"
  shows "live_version db' d = None
     \<and> (\<forall>env2 now2 doc2 blobs2. \<exists>e. snd (poll_document env2 d now2 (Inr (Some doc2)) blobs2 db') = Inl e)"
proof -
  have h: "history_ok (versions db) (next_uuid db)" using assms(1) by (simp add: corpus_ok_def)
  note none = poll_unchanged_no_live [OF h assms(2-5)]
  then show ?thesis using poll_without_live_fails [OF none(1)] by blast
qed

text \<open>The corpus after the first poll of the sample document, which \<open>sample_first_poll\<close> reaches.\<close>

lemma sample_second_poll:
  obtains blobs' db' v blobs2 db2 where
    "poll_document sample_env 7 5 (Inr (Some sample_doc)) [] empty_corpus = (blobs', Inr db')"
    and "corpus_ok db'" "live_version db' 7 = Some v" "v_sha v = env_sha256 sample_env [97]"
    and "\<exists>r \<in> set (documents db'). d_id r = 7"
    and "poll_document sample_env 7 6 (Inr (Some sample_doc)) blobs' db' = (blobs2, Inr db2)"
proof -
  obtain blobs' db' where p: "poll_document sample_env 7 5 (Inr (Some sample_doc)) [] empty_corpus = (blobs', Inr db')"
    by (rule sample_first_poll)
  have ok: "corpus_ok db'" by (rule poll_corpus_ok [OF empty_corpus_ok p])
  have h: "history_ok (versions empty_corpus) (next_uuid empty_corpus)" using empty_corpus_ok by (simp add: corpus_ok_def)
  obtain v where v: "live_version db' 7 = Some v" "v_sha v = env_sha256 sample_env [97]"
    by (rule poll_changed_history [OF h p sample_encode]) (simp_all add: new_version_def)
  have "documents db' = documents empty_corpus"
    using p
  proof (cases rule: poll_documentD)
    case (changed doc body)
    from changed(5) show ?thesis by (rule poll_changedD) (auto elim!: persist_versionD)
  qed auto
  then have doc: "\<exists>r \<in> set (documents db'). d_id r = 7" by (simp add: empty_corpus_def)
  show ?thesis
    using that [OF p ok v doc] poll_unchanged [OF v(1) sample_encode v(2), of 6 blobs'] by blast
qed

lemma unchanged_poll_ends_document_witness:
  "\<exists>blobs1 db1 blobs2 db2 e. poll_document sample_env 7 5 (Inr (Some sample_doc)) [] empty_corpus = (blobs1, Inr db1)
     \<and> poll_document sample_env 7 6 (Inr (Some sample_doc)) blobs1 db1 = (blobs2, Inr db2)
     \<and> snd (poll_document sample_env 7 7 (Inr (Some sample_doc)) blobs2 db2) = Inl e"
proof -
  obtain blobs1 db1 v blobs2 db2 where
    p: "poll_document sample_env 7 5 (Inr (Some sample_doc)) [] empty_corpus = (blobs1, Inr db1)"
      "corpus_ok db1" "live_version db1 7 = Some v" "v_sha v = env_sha256 sample_env [97]"
      "poll_document sample_env 7 6 (Inr (Some sample_doc)) blobs1 db1 = (blobs2, Inr db2)"
    by (rule sample_second_poll)
  show ?thesis using p(1,5) unchanged_poll_ends_document [OF p(2,3) sample_encode p(4,5)] by blast
qed

section \<open>Identities and stored trees\<close>

text \<open>C21. A clause that the aligner pairs with a predecessor, moved or modified, keeps the
  predecessor's identity.\<close>

theorem paired_clause_keeps_identity:
  assumes "valid_tuning tn" "index_in_range q" "minhash_sized mh" "align mh q t1 t2 (Some tn) = Inr evs"
    and "distinct (paths_of t2)" "build_clause_uid_map t2 evs prev fresh = (uids, fresh')"
    and "ev \<in> set evs" "before_path ev = Some b" "after_path ev = Some a" "map_of prev b = Some x"
  shows "map_of uids a = Some x"
  by (rule identity_carried [OF assms])

definition moved_old :: clause where
  "moved_old = tree_of [leaf ''1.'' ''Scope'' ''alpha'']"

definition moved_new :: clause where
  "moved_new = tree_of [leaf ''1.'' ''New'' ''beta'', leaf ''2.'' ''Scope'' ''alpha'']"

definition moved_event :: change_event where
  "moved_event = \<lparr>change_type = MOVED, before_clause_uid = None, after_clause_uid = None,
     before_path = Some [u ''1.''], after_path = Some [u ''2.''], before_text = Some (u ''alpha''),
     after_text = Some (u ''alpha''), alignment_confidence = 9 / 10\<rparr>"

definition new_clause_event :: change_event where
  "new_clause_event = \<lparr>change_type = ADDED, before_clause_uid = None, after_clause_uid = None,
     before_path = None, after_path = Some [u ''1.''], before_text = None,
     after_text = Some (u ''beta''), alignment_confidence = 1\<rparr>"

lemma moved_bodied:
  "bodied moved_old = [leaf ''1.'' ''Scope'' ''alpha'']"
  "bodied moved_new = [leaf ''1.'' ''New'' ''beta'', leaf ''2.'' ''Scope'' ''alpha'']"
  by (simp_all add: bodied_def moved_old_def moved_new_def tree_of_def leaf_def u_def walk.simps
      strip_def lstrip_def rstrip_def isspace_def)

lemma short_cand:
  "shingle (body_text c) (shingle_k default_tuning_config) = Inr {} \<Longrightarrow> mk_cand sample_minhash default_tuning_config c =
     Inr \<lparr>cand_clause = c, cand_sig = replicate 128 0, has_shingles = False\<rparr>"
  by (simp add: mk_cand_def minhash_def sample_minhash_def) (simp add: default_tuning_config_def)

lemma short_shingles:
  "shingle (body_text (leaf s h ''alpha'')) (shingle_k default_tuning_config) = Inr {}"
  "shingle (body_text (leaf s h ''beta'')) (shingle_k default_tuning_config) = Inr {}"
  by (simp_all add: shingle_def u_def leaf_def isspace_def default_tuning_config_def)

lemma moved_align:
  "align sample_minhash sample_lsh moved_old moved_new (Some default_tuning_config) = Inr [moved_event, new_clause_event]"
  unfolding align_def option.case Let_def collect_candidates_def bodied_def [symmetric] moved_bodied mapE.simps
    short_cand [OF short_shingles(1)] short_cand [OF short_shingles(2)] bindE.simps
  by (simp add: align_pairs_def pass_heading_match_def heading_triples_def pair_triple_def anchors_match_def
      pass2_confidence_def pass2_base_def leaf_def u_def pass_content_monotonic_def unpaired_def emit_events_def
      pair_event_def residual_def removed_event_def added_event_def Let_def mk_event_def field_presence_ok_def
      moved_event_def new_clause_event_def)

lemma moved_uids:
  "build_clause_uid_map moved_new [moved_event, new_clause_event] [([u ''1.''], 100)] 101 =
     ([([u ''2.''], 100), ([u ''1.''], 100)], 101)"
  by (simp add: build_clause_uid_map_def moved_new_def tree_of_def leaf_def walk.simps uid_loop_Cons inherited_def
      persistable_def u_def moved_event_def new_clause_event_def strip_def lstrip_def rstrip_def isspace_def)

lemma moved_distinct: "distinct (paths_of moved_new)"
  by (simp add: paths_of_def moved_new_def tree_of_def leaf_def u_def walk.simps)

lemma paired_clause_keeps_identity_witness:
  "map_of (fst (build_clause_uid_map moved_new [moved_event, new_clause_event] [([u ''1.''], 100)] 101)) [u ''2.''] = Some 100"
proof -
  have "before_path moved_event = Some [u ''1.'']" "after_path moved_event = Some [u ''2.'']"
    by (simp_all add: moved_event_def)
  then have "map_of [([u ''2.''], 100), ([u ''1.''], 100)] [u ''2.''] = Some (100 :: uuid)"
    using paired_clause_keeps_identity [OF default_tuning_valid sample_lsh_ok sample_minhash_sized moved_align
        moved_distinct moved_uids, of moved_event "[u ''1.'']" "[u ''2.'']" 100] by simp
  then show ?thesis by (simp only: moved_uids fst_conv)
qed

text \<open>An ADDED clause does not always get a fresh identity: at a path that the previous version
  used, it takes the old clause's identity over, so that after a move two clauses of the new
  version have the same one.\<close>

theorem added_clause_shares_identity:
  "\<exists>evs uids fresh. align sample_minhash sample_lsh moved_old moved_new (Some default_tuning_config) = Inr evs
     \<and> build_clause_uid_map moved_new evs [([u ''1.''], 100)] 101 = (uids, fresh)
     \<and> (\<exists>ev \<in> set evs. change_type ev = ADDED \<and> after_path ev = Some [u ''1.''])
     \<and> map_of uids [u ''1.''] = Some 100 \<and> map_of uids [u ''2.''] = Some 100"
  using moved_align moved_uids by (simp add: new_clause_event_def u_def)



text \<open>A clause path survives the \<open>clause_path\<close> column exactly when it is not one empty segment
  and no segment holds a slash.\<close>

theorem clause_path_round_trip:
  "path_of_str (path_str p) = p \<longleftrightarrow> p \<noteq> [[]] \<and> (\<forall>seg \<in> set p. 47 \<notin> set seg)"
proof
  assume p: "path_of_str (path_str p) = p"
  show "p \<noteq> [[]] \<and> (\<forall>seg \<in> set p. 47 \<notin> set seg)"
  proof (cases "path_str p = []")
    case True
    then have "p = []" using p by (simp add: path_of_str_def)
    then show ?thesis by simp
  next
    case False
    then have "p = split_on 47 (path_str p)" using p by (simp add: path_of_str_def)
    then have "\<forall>seg \<in> set p. 47 \<notin> set seg" using split_on_parts_free by metis
    then show ?thesis using False path_str_Nil_iff by blast
  qed
next
  assume "p \<noteq> [[]] \<and> (\<forall>seg \<in> set p. 47 \<notin> set seg)"
  then show "path_of_str (path_str p) = p" by (simp add: path_round_trip path_survives_def)
qed

lemma clause_path_round_trip_witness:
  "path_of_str (path_str [u ''PART I'', u ''1.'']) = [u ''PART I'', u ''1.'']
   \<and> path_of_str (path_str [u ''PART 1/2'']) \<noteq> [u ''PART 1/2'']"
  unfolding clause_path_round_trip by (simp add: u_def)

section \<open>Blobs\<close>

text \<open>Every version row's key holds the bytes that its digest and length describe, before and
  after every poll that returns.\<close>

theorem versions_keep_their_blobs:
  assumes "blobs_ok env blobs (versions db)" "poll_document env d now fetched blobs db = (blobs', Inr db')"
  shows "blobs_ok env blobs' (versions db')"
  by (rule poll_blobs_ok [OF assms])

lemma versions_keep_their_blobs_witness:
  "\<exists>blobs' db'. poll_document sample_env 7 5 (Inr (Some sample_doc)) [] empty_corpus = (blobs', Inr db')
     \<and> blobs_ok sample_env blobs' (versions db')"
proof -
  obtain blobs' db' where p: "poll_document sample_env 7 5 (Inr (Some sample_doc)) [] empty_corpus = (blobs', Inr db')"
    by (rule sample_first_poll)
  have "blobs_ok sample_env [] (versions empty_corpus)" by (simp add: blobs_ok_def empty_corpus_def)
  then show ?thesis using p versions_keep_their_blobs [OF _ p] by blast
qed

text \<open>One pass of the sweep deletes exactly the blobs whose key has the content-addressed shape
  and is referenced by no version row it read; every other blob stays, and a second pass over the
  same rows finds nothing more.\<close>

theorem sweep_reclaims_exactly_orphans:
  "mem_get (fst (sweep_once mem_delete mem_keys rows container s)) k =
     (if k \<notin> set (referenced_keys rows container) \<and> is_content_addressed_key k then None else mem_get s k)
   \<and> sweep_once mem_delete mem_keys rows container (fst (sweep_once mem_delete mem_keys rows container s)) =
     (fst (sweep_once mem_delete mem_keys rows container s), 0)"
  using mem.sweep_once_get [of rows container s k] mem.sweep_twice [of rows container s]
  by (simp add: sweepable_def)

text \<open>C19. In every schedule in which no poll is in flight while a sweep pass runs, the blob of every
  committed version is there.\<close>

theorem serial_sweep_keeps_committed_blobs:
  assumes "serially_reachable s" "k \<in> set (committed s)"
  shows "mem_get (store s) k \<noteq> None"
  using serially_reachable_inv [OF assms(1)] assms(2) by (auto simp: serial_inv_def stored_def)

lemma serial_sweep_keeps_committed_blobs_witness:
  "\<exists>s. serially_reachable s \<and> committed s = [''k''] \<and> mem_get (store s) ''k'' \<noteq> None"
proof -
  let ?s1 = "init_system\<lparr>store := [(''k'', [])], in_flight := [''k'']\<rparr>"
  let ?s2 = "?s1\<lparr>committed := [''k''], in_flight := []\<rparr>"
  have "serial_step init_system ?s1"
    using poll_upload [of init_system "''k''" "[]" "[(''k'', [])]"]
    by (simp add: serial_step_def init_system_def mem_put_def mem_get_def)
  moreover have "serial_step ?s1 ?s2"
    using poll_commit [of "''k''" ?s1] by (simp add: serial_step_def init_system_def)
  ultimately have r: "serially_reachable ?s2" by (meson serially_reachable.intros)
  then show ?thesis
    using serial_sweep_keeps_committed_blobs [OF r, of "''k''"] by (intro exI [of _ ?s2]) simp
qed

text \<open>When a poll uploads and commits between the pass's read of the keys and its listing of the
  blobs, the pass deletes the blob of the version just committed, although the module's comment
  says that the next pass would spare it.\<close>

theorem sweep_can_delete_committed_blob:
  "\<exists>s. reachable s \<and> content_key (replicate 32 0) \<in> set (committed s)
     \<and> mem_get (store s) (content_key (replicate 32 0)) = None"
proof -
  have "reachable (raced_system (content_key (replicate 32 0)))"
    by (rule raced_system_reachable) (rule content_key_addressed, simp)
  then show ?thesis by (intro exI [of _ "raced_system (content_key (replicate 32 0))"])
      (simp add: raced_system_def mem_get_def)
qed

section \<open>The claim loop\<close>

text \<open>A claim takes at most a batch of rows, each due, unlocked and not parked, no row twice, and
  no row that is less overdue than one it passes over; it takes a row whenever there is one.\<close>

lemma claim_takes_most_overdue:
  assumes "keyed db" "0 < batch"
  shows "distinct (claim now threshold batch locked db) \<and> length (claim now threshold batch locked db) \<le> nat batch
     \<and> (\<forall>d \<in> set (claim now threshold batch locked db).
          \<exists>r \<in> set (schedule db). s_document r = d \<and> s_next r \<le> now \<and> s_failures r \<le> threshold \<and> d \<notin> locked)
     \<and> (\<forall>r \<in> set (schedule db). \<forall>q \<in> set (schedule db).
          s_document r \<in> set (claim now threshold batch locked db)
          \<and> s_next q \<le> now \<and> s_failures q \<le> threshold \<and> s_document q \<notin> locked
          \<and> s_document q \<notin> set (claim now threshold batch locked db) \<longrightarrow> s_next r \<le> s_next q)
     \<and> ((\<exists>r \<in> set (schedule db). s_next r \<le> now \<and> s_failures r \<le> threshold \<and> s_document r \<notin> locked)
          \<longrightarrow> claim now threshold batch locked db \<noteq> [])"
proof (intro conjI ballI impI)
  show "distinct (claim now threshold batch locked db)" by (rule claim_distinct [OF assms(1)])
  show "length (claim now threshold batch locked db) \<le> nat batch" by (rule claim_length)
next
  fix d assume "d \<in> set (claim now threshold batch locked db)"
  then show "\<exists>r \<in> set (schedule db). s_document r = d \<and> s_next r \<le> now \<and> s_failures r \<le> threshold \<and> d \<notin> locked"
    using claim_due by (fastforce simp: due_def)
next
  let ?Q = "queue now threshold locked db" and ?n = "nat batch"
  fix r q assume r: "r \<in> set (schedule db)" and q: "q \<in> set (schedule db)"
    and rq: "s_document r \<in> set (claim now threshold batch locked db)
          \<and> s_next q \<le> now \<and> s_failures q \<le> threshold \<and> s_document q \<notin> locked
          \<and> s_document q \<notin> set (claim now threshold batch locked db)"
  then obtain r' where r': "r' \<in> set (take ?n ?Q)" "s_document r' = s_document r"
    unfolding claim_queue by auto
  then have "r' \<in> set (schedule db)" using in_set_takeD [OF r'(1)] by (simp add: set_queue)
  then have "r' = r" using keyed_same_row [OF assms(1)] r r'(2) by blast
  then obtain i where i: "i < ?n" "i < length ?Q" "?Q ! i = r" using r'(1) by (auto simp: in_set_conv_nth)
  have "q \<in> set ?Q" using q rq by (simp add: set_queue due_def)
  then obtain j where j: "j < length ?Q" "?Q ! j = q" by (auto simp: in_set_conv_nth)
  have "\<not> j < ?n"
  proof
    assume "j < ?n"
    then have "q \<in> set (take ?n ?Q)" using j by (auto simp: in_set_conv_nth)
    then show False using rq unfolding claim_queue by auto
  qed
  then show "s_next r \<le> s_next q"
    using claim_most_overdue [OF i(1,2) _ j(1)] i(3) j(2) by simp
next
  assume "\<exists>r \<in> set (schedule db). s_next r \<le> now \<and> s_failures r \<le> threshold \<and> s_document r \<notin> locked"
  then show "claim now threshold batch locked db \<noteq> []"
    using claim_nonempty [OF _ _ _ assms(2)] by (auto simp: due_def)
qed

definition sample_schedule :: "timestamp \<Rightarrow> schedule_row" where
  "sample_schedule t = \<lparr>s_document = 7, s_cadence = 60, s_next = t, s_last = None, s_failures = 5\<rparr>"

definition sample_idb :: "corpus \<Rightarrow> ingest_db" where
  "sample_idb c = \<lparr>corpus = c, schedule = [sample_schedule 3], incidents = []\<rparr>"

text \<open>A committed tick marks each claimed row as polled at the tick's time, either rescheduled
  by its cadence with a count of zero or left due with a count one higher, and touches no other row.\<close>

lemma committed_tick_marks_claimed_rows:
  assumes "keyed (idb wk)" "tick poll cfg now locked wk = (wk', Inr n)"
  shows "list_all2 (\<lambda>r r'.
       if s_document r \<in> set (claim now (failure_threshold cfg) (batch_size cfg) locked (idb wk))
       then r' = r\<lparr>s_last := Some now, s_next := now + s_cadence r, s_failures := 0\<rparr>
          \<or> r' = r\<lparr>s_last := Some now, s_failures := s_failures r + 1\<rparr>
       else r' = r) (schedule (idb wk)) (schedule (idb wk'))
     \<and> n = length (claim now (failure_threshold cfg) (batch_size cfg) locked (idb wk))
     \<and> is_healthy (health wk') now = (0 \<le> stale_after_s (health wk))"
proof -
  let ?ds = "claim now (failure_threshold cfg) (batch_size cfg) locked (idb wk)"
  obtain w' k db' where t: "tick_rows poll (failure_threshold cfg) now ?ds (world wk) (idb wk)
      (incidents_written (loop_state wk)) = (w', k, Inr db')" "idb wk' = db'" "n = length ?ds"
    "health wk' = touch now (health wk)"
    using assms(2) by (auto simp: tick_def Let_def split: prod.splits sum.splits)
  have "list_all2 (marked now (set ?ds)) (schedule (idb wk)) (schedule db')"
    by (rule tick_rows_schedule [OF t(1) claim_distinct [OF assms(1)]])
  then have "list_all2 (\<lambda>r r'. if s_document r \<in> set ?ds
       then r' = r\<lparr>s_last := Some now, s_next := now + s_cadence r, s_failures := 0\<rparr>
          \<or> r' = r\<lparr>s_last := Some now, s_failures := s_failures r + 1\<rparr>
       else r' = r) (schedule (idb wk)) (schedule db')"
    by (rule list_all2_mono) (auto simp: marked_def ok_row_def failed_row_def split: if_splits)
  then show ?thesis using t(2-4) by (simp only: touch_def is_healthy_def) simp
qed

definition sample_config :: claim_loop_config where
  "sample_config = \<lparr>db_url = ''postgresql://h'', tick_interval_s = 1 / 20, batch_size = 10,
     failure_threshold = 5, healthz_stale_after_s = 5, healthz_host = ''0.0.0.0'', healthz_port = 8080,
     pool_min = 2, pool_max = 4, blob_container = ''originals'', blob_account_url = None, sweep_interval_s = 1800\<rparr>"

definition sample_worker :: "'w \<Rightarrow> corpus \<Rightarrow> 'w worker" where
  "sample_worker w c = \<lparr>world = w, idb = sample_idb c, loop_state = new_loop_state, health = new_health 5\<rparr>"

definition failing_poll :: "unit poll_fn" where
  "failing_poll w c d = (w, Inl RuntimeError)"

lemma sample_claim [simp]: "claim 4 5 10 {} (sample_idb c) = [7]"
  by (simp add: claim_def sample_idb_def sample_schedule_def)

text \<open>C20. From a state without incidents or parked rows, whatever the polls do, a document has
  exactly one incident while its failure count exceeds the threshold and none otherwise.\<close>

theorem one_incident_per_parked_document:
  assumes "keyed (idb wk)" "incidents (idb wk) = []" "0 \<le> failure_threshold cfg"
    and "\<forall>r \<in> set (schedule (idb wk)). s_failures r \<le> failure_threshold cfg"
  shows "length (filter (\<lambda>i. i_document i = d) (incidents (idb (run poll cfg ms wk)))) =
     (if \<exists>r \<in> set (schedule (idb (run poll cfg ms wk))). s_document r = d \<and> failure_threshold cfg < s_failures r
      then 1 else 0)"
proof -
  have "parking_ok (failure_threshold cfg) (idb wk)"
    using assms by (fastforce simp: parking_ok_def incident_count_def parked_def)
  then have "parking_ok (failure_threshold cfg) (idb (run poll cfg ms wk))" by (rule run_parking [OF _ assms(3)])
  then show ?thesis unfolding parking_ok_def incident_count_def parked_def by blast
qed

lemma one_incident_per_parked_document_witness:
  "length (filter (\<lambda>i. i_document i = 7)
     (incidents (idb (run failing_poll sample_config [(4, {}), (5, {}), (6, {})] (sample_worker () empty_corpus))))) = 1"
proof -
  let ?wk = "sample_worker () empty_corpus"
  have pre: "keyed (idb ?wk)" "incidents (idb ?wk) = []" "0 \<le> failure_threshold sample_config"
    "\<forall>r \<in> set (schedule (idb ?wk)). s_failures r \<le> failure_threshold sample_config"
    by (simp_all add: keyed_def sample_worker_def sample_idb_def sample_config_def sample_schedule_def)
  have "\<exists>r \<in> set (schedule (idb (run failing_poll sample_config [(4, {}), (5, {}), (6, {})] ?wk))).
      s_document r = 7 \<and> failure_threshold sample_config < s_failures r"
    by (simp add: tick_def sample_worker_def sample_config_def failing_poll_def Let_def record_failure_def is_db_error_def
        mark_fail_def update_schedule_def sample_idb_def sample_schedule_def claim_def insert_incident_def)
  then show ?thesis
    using one_incident_per_parked_document [OF pre, of 7 failing_poll "[(4, {}), (5, {}), (6, {})]"]
    by (simp only: if_True)
qed

text \<open>C14. A document whose text did not change is not merely skipped afterwards: its next poll
  violates a unique constraint, which aborts the transaction of the whole batch, so that the
  failure cannot be recorded either. While the document is among the most overdue, no later tick
  changes the database or the liveness timestamp.\<close>

theorem unchanged_document_stalls_worker:
  assumes "env_ok env" "feeds_text env fetch d" "addressed env (fst (world wk))" "stuck_document d (corpus (idb wk))"
    and "d \<in> set (claim t0 (failure_threshold cfg) (batch_size cfg) {} (idb wk))"
    and "\<forall>(now, locked) \<in> set ms. t0 \<le> now \<and> locked = {}"
  shows "idb (run (worker_poll env fetch clock) cfg ms wk) = idb wk
     \<and> health (run (worker_poll env fetch clock) cfg ms wk) = health wk"
  by (rule run_poisoned [OF stuck_poisoned [OF assms(1,2)]]) (use assms in simp_all)

lemma sample_feeds: "feeds_text sample_env (\<lambda>_ _. Inr (Some sample_doc)) 7"
proof -
  have "b = [97]" if "content_key (env_sha256 sample_env b) = content_key (env_sha256 sample_env [97])" for b
  proof -
    have "env_sha256 sample_env b = env_sha256 sample_env [97]"
      by (rule hex_of_inj) (use that in \<open>auto simp: content_key_def sample_env_def split: if_splits\<close>)
    then show ?thesis by (auto simp: sample_env_def split: if_splits)
  qed
  then show ?thesis using sample_encode sample_tokens unfolding feeds_text_def by blast
qed

lemma unchanged_document_stalls_worker_witness:
  "\<exists>blobs1 db1 blobs2 db2. poll_document sample_env 7 5 (Inr (Some sample_doc)) [] empty_corpus = (blobs1, Inr db1)
     \<and> poll_document sample_env 7 6 (Inr (Some sample_doc)) blobs1 db1 = (blobs2, Inr db2)
     \<and> idb (run (worker_poll sample_env (\<lambda>_ _. Inr (Some sample_doc)) int) sample_config [(7, {}), (8, {})]
           (sample_worker (blobs2, 7) db2)) = sample_idb db2"
proof -
  obtain blobs1 db1 v blobs2 db2 where
    p: "poll_document sample_env 7 5 (Inr (Some sample_doc)) [] empty_corpus = (blobs1, Inr db1)"
      "corpus_ok db1" "live_version db1 7 = Some v" "v_sha v = env_sha256 sample_env [97]"
      "\<exists>r \<in> set (documents db1). d_id r = 7"
      "poll_document sample_env 7 6 (Inr (Some sample_doc)) blobs1 db1 = (blobs2, Inr db2)"
    by (rule sample_second_poll)
  have "addressed sample_env blobs2"
    using poll_addressed [OF poll_addressed [OF _ p(1)] p(6)] by (simp add: addressed_def mem_get_def)
  moreover have "stuck_document 7 db2"
    by (rule unchanged_poll_stuck [OF _ p(3) sample_encode p(4,6,5)]) (use p(2) in \<open>simp add: corpus_ok_def\<close>)
  ultimately have "idb (run (worker_poll sample_env (\<lambda>_ _. Inr (Some sample_doc)) int) sample_config [(7, {}), (8, {})]
           (sample_worker (blobs2, 7) db2)) = idb (sample_worker (blobs2, 7) db2)"
    using unchanged_document_stalls_worker [OF sample_env_ok sample_feeds, of "sample_worker (blobs2, 7) db2" 4
        sample_config "[(7, {}), (8, {})]" int]
    by (simp add: sample_worker_def sample_config_def) (simp add: sample_idb_def)
  then show ?thesis using p(1,6) by (auto simp: sample_worker_def)
qed

end
