(* ===== verification/Curated.thy ===== *)
theory Curated
  imports Corpus_DB "HOL-Library.List_Lexorder" "HOL-Library.Char_ord"
begin

text \<open>
  The pure half of \<open>seed.py\<close>: the curated set read from YAML, the selection of fixtures with
  their overrides, and the staggering of the first polls. The YAML loader, \<open>float\<close> on text,
  \<open>str\<close> on floats and containers and the lower-casing of text are fields of \<open>seed_lib\<close>.
  Rationals stand for finite floats. Intervals and moments are counted in microseconds.
\<close>

section \<open>Python values\<close>

datatype pyfloat = Finite rat | PosInf | NegInf | NaN

text \<open>What \<open>yaml.safe_load\<close> returns; \<open>YOther\<close> stands for dates and the like.\<close>

datatype yaml =
    YNull
  | YBool bool
  | YInt int
  | YFloat pyfloat
  | YStr string
  | YList "yaml list"
  | YDict "(yaml \<times> yaml) list"
  | YOther nat

record seed_lib =
  lib_yaml :: "string \<Rightarrow> yaml result"
  lib_show :: "yaml \<Rightarrow> string"
  lib_float :: "string \<Rightarrow> pyfloat result"
  lib_lower :: "string \<Rightarrow> string"

fun py_str :: "seed_lib \<Rightarrow> yaml \<Rightarrow> string" where
  "py_str lib YNull = ''None''"
| "py_str lib (YBool b) = (if b then ''True'' else ''False'')"
| "py_str lib (YInt i) = (if i < 0 then ''-'' else []) @ map char_of (dec (nat \<bar>i\<bar>))"
| "py_str lib (YStr s) = s"
| "py_str lib v = lib_show lib v"

fun py_float :: "seed_lib \<Rightarrow> yaml \<Rightarrow> pyfloat result" where
  "py_float lib (YBool b) = Inr (Finite (if b then 1 else 0))"
| "py_float lib (YInt i) = Inr (Finite (of_int i))"
| "py_float lib (YFloat x) = Inr x"
| "py_float lib (YStr s) = lib_float lib s"
| "py_float lib v = Inl TypeError"

text \<open>Truth of a value, \<open>x <= 0\<close> on floats (false on nan), hashability, and whether \<open>sorted\<close> can compare.\<close>

fun truthy :: "yaml \<Rightarrow> bool" where
  "truthy YNull = False"
| "truthy (YBool b) = b"
| "truthy (YInt i) = (i \<noteq> 0)"
| "truthy (YFloat x) = (x \<noteq> Finite 0)"
| "truthy (YStr s) = (s \<noteq> [])"
| "truthy (YList xs) = (xs \<noteq> [])"
| "truthy (YDict d) = (d \<noteq> [])"
| "truthy (YOther n) = True"

fun not_positive :: "pyfloat \<Rightarrow> bool" where
  "not_positive (Finite q) = (q \<le> 0)"
| "not_positive NegInf = True"
| "not_positive _ = False"

fun hashable :: "yaml \<Rightarrow> bool" where
  "hashable (YList xs) = False"
| "hashable (YDict d) = False"
| "hashable v = True"

fun is_number :: "yaml \<Rightarrow> bool" where
  "is_number (YBool b) = True"
| "is_number (YInt i) = True"
| "is_number (YFloat x) = True"
| "is_number v = False"

fun is_text :: "yaml \<Rightarrow> bool" where
  "is_text (YStr s) = True"
| "is_text v = False"

definition sortable :: "yaml list \<Rightarrow> bool" where
  "sortable ks \<longleftrightarrow> length ks \<le> 1 \<or> list_all is_text ks \<or> list_all is_number ks"

section \<open>Data classes\<close>

record doc_override =
  o_cadence :: "pyfloat option"
  o_sector :: "string option"
  o_title :: "string option"
  o_jurisdiction :: "string option"

text \<open>\<open>overrides\<close> is a dict with the newest entry of a key first.\<close>

record curated_set =
  cs_jurisdictions :: "string set"
  cs_sectors :: "string list"
  cs_cadence :: pyfloat
  cs_overrides :: "(string \<times> doc_override) list"

definition default_sector :: "curated_set \<Rightarrow> string" where
  "default_sector cs = hd (cs_sectors cs)"

record pending_row =
  p_lawstronaut :: string
  p_jurisdiction :: string
  p_sector :: string
  p_title :: string
  p_cadence :: int

record seed_row = pending_row +
  p_next :: timestamp

section \<open>parse_curated_set\<close>

definition allowed_top_level :: "string list" where
  "allowed_top_level = [''jurisdictions'', ''sectors'', ''default_cadence_hours'', ''documents'']"

definition allowed_doc_keys :: "string list" where
  "allowed_doc_keys = [''id'', ''cadence_hours'', ''sector'', ''title'', ''jurisdiction'']"

text \<open>
  The check for unknown keys; its message sorts them, which raises \<open>TypeError\<close> itself on keys of
  several types.
\<close>

definition only_keys :: "string list \<Rightarrow> (yaml \<times> yaml) list \<Rightarrow> unit result" where
  "only_keys allowed d =
     (let unknown = filter (\<lambda>k. k \<notin> set (map YStr allowed)) (map fst d)
      in if unknown = [] then Inr () else if sortable unknown then Inl ValueError else Inl TypeError)"

definition entry_get :: "(yaml \<times> yaml) list \<Rightarrow> string \<Rightarrow> yaml" where
  "entry_get d k = (case map_of d (YStr k) of None \<Rightarrow> YNull | Some v \<Rightarrow> v)"

definition optional_text :: "seed_lib \<Rightarrow> yaml \<Rightarrow> string option" where
  "optional_text lib v = (if v = YNull then None else Some (py_str lib v))"

definition nonempty_list :: "seed_lib \<Rightarrow> yaml \<Rightarrow> string list result" where
  "nonempty_list lib v =
     (case v of YList xs \<Rightarrow> if xs = [] then Inl ValueError else Inr (map (py_str lib) xs) | _ \<Rightarrow> Inl ValueError)"

definition parse_entry :: "seed_lib \<Rightarrow> string list \<Rightarrow> yaml \<Rightarrow> (string \<times> doc_override) result" where
  "parse_entry lib sectors e =
     (case e of
        YDict d \<Rightarrow>
          bindE (only_keys allowed_doc_keys d) (\<lambda>_.
            case map_of d (YStr ''id'') of
              None \<Rightarrow> Inl ValueError
            | Some i \<Rightarrow>
                let sector = optional_text lib (entry_get d ''sector'');
                    cadence = entry_get d ''cadence_hours''
                in if (case sector of None \<Rightarrow> False | Some s \<Rightarrow> s \<notin> set sectors) then Inl ValueError
                   else bindE (if cadence = YNull then Inr None else bindE (py_float lib cadence) (\<lambda>x. Inr (Some x)))
                     (\<lambda>hours.
                       if (case hours of None \<Rightarrow> False | Some x \<Rightarrow> not_positive x) then Inl ValueError
                       else Inr (py_str lib i,
                         \<lparr>o_cadence = hours, o_sector = sector, o_title = optional_text lib (entry_get d ''title''),
                          o_jurisdiction = optional_text lib (entry_get d ''jurisdiction'')\<rparr>)))
      | _ \<Rightarrow> Inl ValueError)"

definition document_entries :: "yaml \<Rightarrow> yaml list result" where
  "document_entries v = (if \<not> truthy v then Inr [] else case v of YList xs \<Rightarrow> Inr xs | _ \<Rightarrow> Inl ValueError)"

definition parse_curated_set :: "seed_lib \<Rightarrow> string \<Rightarrow> curated_set result" where
  "parse_curated_set lib source =
     bindE (lib_yaml lib source) (\<lambda>raw.
       case raw of
         YDict d \<Rightarrow>
           bindE (only_keys allowed_top_level d) (\<lambda>_.
             if \<exists>k \<in> set [''jurisdictions'', ''sectors'', ''default_cadence_hours'']. map_of d (YStr k) = None
             then Inl ValueError
             else bindE (nonempty_list lib (entry_get d ''jurisdictions'')) (\<lambda>js.
                  bindE (nonempty_list lib (entry_get d ''sectors'')) (\<lambda>ss.
                  bindE (py_float lib (entry_get d ''default_cadence_hours'')) (\<lambda>hours.
                    if not_positive hours then Inl ValueError
                    else bindE (document_entries (entry_get d ''documents'')) (\<lambda>es.
                         bindE (mapE (parse_entry lib ss) es) (\<lambda>ovs.
                           Inr \<lparr>cs_jurisdictions = set js, cs_sectors = ss, cs_cadence = hours,
                                cs_overrides = rev ovs\<rparr>))))))
       | _ \<Rightarrow> Inl ValueError)"

section \<open>select\<close>

type_synonym fixture = "(string \<times> yaml) list"

text \<open>\<open>timedelta\<close> rounds to the nearest microsecond, ties to even, and is less than a thousand million days.\<close>

definition round_half_even :: "rat \<Rightarrow> int" where
  "round_half_even q =
     (let f = \<lfloor>q\<rfloor>; r = q - of_int f
      in if r < 1 / 2 then f else if 1 / 2 < r then f + 1 else if even f then f else f + 1)"

fun timedelta_hours :: "pyfloat \<Rightarrow> int result" where
  "timedelta_hours (Finite q) =
     (let us = round_half_even (q * 3600000000)
      in if \<bar>us\<bar> < 86400000000 * 10 ^ 9 then Inr us else Inl OverflowError)"
| "timedelta_hours NaN = Inl ValueError"
| "timedelta_hours _ = Inl OverflowError"

text \<open>\<open>x.f if x is not None and x.f is not None else dflt\<close>\<close>

definition overridden :: "doc_override option \<Rightarrow> (doc_override \<Rightarrow> 'a option) \<Rightarrow> 'a \<Rightarrow> 'a" where
  "overridden ov field dflt =
     (case ov of None \<Rightarrow> dflt | Some o' \<Rightarrow> (case field o' of None \<Rightarrow> dflt | Some x \<Rightarrow> x))"

definition fixture_get :: "fixture \<Rightarrow> string \<Rightarrow> yaml" where
  "fixture_get fx k = (case map_of fx k of None \<Rightarrow> YNull | Some v \<Rightarrow> v)"

definition in_scope :: "curated_set \<Rightarrow> yaml \<Rightarrow> bool" where
  "in_scope cs v \<longleftrightarrow> (case v of YStr s \<Rightarrow> s \<in> cs_jurisdictions cs | _ \<Rightarrow> False)"

definition pending_of :: "seed_lib \<Rightarrow> curated_set \<Rightarrow> fixture \<Rightarrow> pending_row result" where
  "pending_of lib cs fx =
     (case map_of fx ''document_id'' of
        None \<Rightarrow> Inl KeyError
      | Some i \<Rightarrow>
          let did = py_str lib i; ov = map_of (cs_overrides cs) did;
              fixture_title = (case map_of fx ''title'' of None \<Rightarrow> Inl KeyError | Some t \<Rightarrow> Inr (py_str lib t))
          in bindE (overridden ov (\<lambda>o'. map_option Inr (o_title o')) fixture_title) (\<lambda>title.
             bindE (timedelta_hours (overridden ov o_cadence (cs_cadence cs))) (\<lambda>cadence.
               Inr \<lparr>p_lawstronaut = did,
                    p_jurisdiction = overridden ov o_jurisdiction (py_str lib (fixture_get fx ''iso'')),
                    p_sector = overridden ov o_sector (default_sector cs),
                    p_title = title, p_cadence = cadence\<rparr>)))"

fun select_rows :: "seed_lib \<Rightarrow> curated_set \<Rightarrow> fixture list \<Rightarrow> pending_row list result" where
  "select_rows lib cs [] = Inr []"
| "select_rows lib cs (fx # fxs) =
     (let code = fixture_get fx ''iso''
      in if \<not> hashable code then Inl TypeError
         else if \<not> in_scope cs code then select_rows lib cs fxs
         else bindE (pending_of lib cs fx) (\<lambda>row. bindE (select_rows lib cs fxs) (\<lambda>rows. Inr (row # rows))))"

text \<open>The rows, and the ids that \<open>warn\<close> is called with.\<close>

definition select :: "seed_lib \<Rightarrow> curated_set \<Rightarrow> fixture list \<Rightarrow> (pending_row list \<times> string list) result" where
  "select lib cs fixtures =
     bindE (select_rows lib cs fixtures) (\<lambda>rows.
       Inr (rows, sorted_list_of_set (fst ` set (cs_overrides cs) - p_lawstronaut ` set rows)))"

section \<open>stagger\<close>

definition bucket :: "pending_row list \<Rightarrow> int \<Rightarrow> nat list" where
  "bucket rows c = filter (\<lambda>i. p_cadence (rows ! i) = c) [0..<length rows]"

definition offset_at :: "pending_row list \<Rightarrow> nat \<Rightarrow> int" where
  "offset_at rows i =
     (let c = p_cadence (rows ! i); b = bucket rows c; k = length (filter (\<lambda>j. j < i) b)
      in round_half_even (of_int (c * int k) / of_nat (length b)))"

text \<open>\<open>datetime\<close> ends with the year 9999.\<close>

definition max_datetime :: timestamp where "max_datetime = 253402300799999999"

definition stagger_row :: "pending_row list \<Rightarrow> timestamp \<Rightarrow> nat \<times> pending_row \<Rightarrow> seed_row result" where
  "stagger_row rows now p =
     (let t = now + offset_at rows (fst p)
      in if max_datetime < t then Inl OverflowError
         else Inr (pending_row.extend (snd p) (seed_row.fields t)))"

definition stagger :: "pending_row list \<Rightarrow> timestamp \<Rightarrow> seed_row list result" where
  "stagger rows now = mapE (stagger_row rows now) (List.enumerate 0 rows)"


section \<open>Selected rows\<close>

text \<open>The sector of an override is one of the listed ones, and its cadence is positive.\<close>

lemma parse_entryD:
  assumes "parse_entry lib ss e = Inr (i, ov)"
  shows "\<forall>s. o_sector ov = Some s \<longrightarrow> s \<in> set ss" "\<forall>x. o_cadence ov = Some x \<longrightarrow> \<not> not_positive x"
proof -
  obtain d where d: "e = YDict d" using assms by (cases e) (simp_all add: parse_entry_def)
  obtain v where "map_of d (YStr ''id'') = Some v"
    using assms unfolding d by (cases "map_of d (YStr ''id'')") (simp_all add: parse_entry_def bindE_eq_Inr)
  then have "(case o_sector ov of None \<Rightarrow> True | Some s \<Rightarrow> s \<in> set ss) \<and> (case o_cadence ov of None \<Rightarrow> True | Some x \<Rightarrow> \<not> not_positive x)"
    using assms unfolding d
    by (auto simp: parse_entry_def Let_def bindE_eq_Inr split: if_split_asm option.split_asm)
  then show "\<forall>s. o_sector ov = Some s \<longrightarrow> s \<in> set ss" "\<forall>x. o_cadence ov = Some x \<longrightarrow> \<not> not_positive x"
    by auto
qed

lemma parse_curated_setD:
  assumes "parse_curated_set lib source = Inr cs"
  shows "cs_sectors cs \<noteq> []" "\<not> not_positive (cs_cadence cs)"
    and "(i, ov) \<in> set (cs_overrides cs) \<Longrightarrow>
      (\<forall>s. o_sector ov = Some s \<longrightarrow> s \<in> set (cs_sectors cs)) \<and> (\<forall>x. o_cadence ov = Some x \<longrightarrow> \<not> not_positive x)"
proof -
  obtain raw where raw: "lib_yaml lib source = Inr raw"
    using assms by (cases "lib_yaml lib source") (simp_all add: parse_curated_set_def)
  obtain d where d: "raw = YDict d" using assms by (cases raw) (simp_all add: parse_curated_set_def raw)
  obtain js ss hours es ovs where r: "nonempty_list lib js = Inr ss" "\<not> not_positive hours"
    "mapE (parse_entry lib ss) es = Inr ovs" "cs_sectors cs = ss" "cs_cadence cs = hours" "cs_overrides cs = rev ovs"
    using assms unfolding parse_curated_set_def raw d by (auto simp: bindE_eq_Inr split: if_split_asm)
  show "cs_sectors cs \<noteq> []" "\<not> not_positive (cs_cadence cs)"
    using r by (auto simp: nonempty_list_def split: yaml.splits if_splits)
  assume "(i, ov) \<in> set (cs_overrides cs)"
  then obtain e where "parse_entry lib ss e = Inr (i, ov)"
    using r(3,6) by (auto simp: mapE_Inr_iff list_all2_conv_all_nth in_set_conv_nth)
  then show "(\<forall>s. o_sector ov = Some s \<longrightarrow> s \<in> set (cs_sectors cs)) \<and> (\<forall>x. o_cadence ov = Some x \<longrightarrow> \<not> not_positive x)"
    using parse_entryD r(4) by blast
qed

lemma select_rows_in:
  assumes "select_rows lib cs fxs = Inr rows" "row \<in> set rows"
  shows "\<exists>fx \<in> set fxs. in_scope cs (fixture_get fx ''iso'') \<and> pending_of lib cs fx = Inr row"
  using assms by (induction fxs arbitrary: rows) (fastforce simp: Let_def bindE_eq_Inr split: if_splits)+

text \<open>A nan cadence passes the check of the curated set and makes the selection fail.\<close>

lemma nan_cadence:
  "\<not> not_positive NaN" "timedelta_hours NaN = Inl ValueError" "timedelta_hours PosInf = Inl OverflowError"
  by simp_all

section \<open>Offsets\<close>

lemma round_half_even_bounds: "of_int (round_half_even q) \<le> q + 1 / 2" "q - 1 / 2 \<le> of_int (round_half_even q)"
  using floor_correct [of q] unfolding round_half_even_def Let_def by (simp_all split: if_split) linarith+

lemma round_half_even_mono:
  assumes "p \<le> q"
  shows "round_half_even p \<le> round_half_even q"
proof (rule ccontr)
  assume "\<not> round_half_even p \<le> round_half_even q"
  then have "of_int (round_half_even q) + (1 :: rat) \<le> of_int (round_half_even p)" by linarith
  then have "p = q" "p = of_int (round_half_even q) + 1 / 2"
    using round_half_even_bounds(1) [of p] round_half_even_bounds(2) [of q] assms by linarith+
  then show False using \<open>\<not> round_half_even p \<le> round_half_even q\<close> by simp
qed

lemma round_half_even_int [simp]: "round_half_even (of_int n) = n"
  by (simp add: round_half_even_def)

lemma bucket_position:
  assumes "i < length rows"
  shows "length (filter (\<lambda>j. j < i) (bucket rows (p_cadence (rows ! i)))) < length (bucket rows (p_cadence (rows ! i)))"
proof (rule length_filter_less)
  show "i \<in> set (bucket rows (p_cadence (rows ! i)))" using assms by (simp add: bucket_def)
qed simp

text \<open>The first poll of a row falls within its cadence, unless the bucket has more rows than microseconds.\<close>

lemma offset_range:
  assumes "i < length rows" "p_cadence (rows ! i) = c" "int (length rows) \<le> c"
  shows "0 \<le> offset_at rows i" "offset_at rows i < c"
proof -
  let ?b = "bucket rows c" and ?k = "length (filter (\<lambda>j. j < i) (bucket rows c))"
  have k: "?k < length ?b" using bucket_position [OF assms(1)] assms(2) by simp
  have n: "length ?b \<le> length rows" unfolding bucket_def by (rule order_trans [OF length_filter_le]) simp
  have off: "offset_at rows i = round_half_even (of_int (c * int ?k) / of_nat (length ?b))"
    using assms(2) by (simp add: offset_at_def Let_def)
  have c: "0 < c" using assms by linarith
  have "(0 :: rat) \<le> of_int (c * int ?k) / of_nat (length ?b)" using c by simp
  then show "0 \<le> offset_at rows i" unfolding off using round_half_even_mono [of 0] round_half_even_int [of 0] by simp
  have b: "(0 :: rat) < of_nat (length ?b)" using k unfolding of_nat_0_less_iff by linarith
  have le: "of_int (c * int ?k) / of_nat (length ?b) \<le> (of_int (c - 1) :: rat)"
  proof -
    have "c * int ?k \<le> c * (int (length ?b) - 1)" using k c by (intro mult_left_mono) simp_all
    also have "\<dots> \<le> (c - 1) * int (length ?b)" using n assms(3) by (simp add: algebra_simps)
    finally have "(of_int (c * int ?k) :: rat) \<le> of_int ((c - 1) * int (length ?b))" by (rule iffD2 [OF of_int_le_iff])
    then show ?thesis using b by (simp add: field_simps)
  qed
  have "offset_at rows i \<le> c - 1" using round_half_even_mono [OF le] unfolding off round_half_even_int .
  then show "offset_at rows i < c" by simp
qed

lemma length_filter_less_mono: "i \<le> j \<Longrightarrow> length (filter (\<lambda>k. k < i) b) \<le> length (filter (\<lambda>k. k < (j :: nat)) b)"
  by (induction b) auto

text \<open>Rows of one cadence are polled in their order, and evenly: the \<open>k\<close>-th of \<open>n\<close> at \<open>k / n\<close> of the cadence.\<close>

lemma offset_mono:
  assumes "i \<le> j" "j < length rows" "p_cadence (rows ! i) = p_cadence (rows ! j)" "0 \<le> p_cadence (rows ! j)"
  shows "offset_at rows i \<le> offset_at rows j"
proof -
  let ?b = "bucket rows (p_cadence (rows ! j))"
  have "length (filter (\<lambda>k. k < i) ?b) \<le> length (filter (\<lambda>k. k < j) ?b)"
    by (rule length_filter_less_mono [OF assms(1)])
  then have "(of_int (p_cadence (rows ! j) * int (length (filter (\<lambda>k. k < i) ?b))) :: rat)
      \<le> of_int (p_cadence (rows ! j) * int (length (filter (\<lambda>k. k < j) ?b)))"
    using assms(4) by (intro iffD2 [OF of_int_le_iff] mult_left_mono) simp_all
  then show ?thesis
    unfolding offset_at_def Let_def assms(3) by (intro round_half_even_mono divide_right_mono) simp_all
qed

end
