(* ===== verification/Seed.thy ===== *)
theory Seed
  imports Curated Poll Claim_Loop
begin

text \<open>
  The writing half of \<open>seed.py\<close>: \<open>run_seed\<close> with the staging of first versions, and
  \<open>stage_synthetic_v2\<close>. A file is its bytes; reading one that is not there is an error value.
  \<open>warn\<close> only reports and is left out. A failed statement ends the transaction it is in.
\<close>

section \<open>Reading files\<close>

definition continuation :: "nat \<Rightarrow> bool" where
  "continuation b \<longleftrightarrow> 128 \<le> b \<and> b < 192"

text \<open>\<open>bytes.decode("utf-8")\<close> with strict errors.\<close>

fun utf8_decode :: "bytes \<Rightarrow> ustr result" where
  "utf8_decode [] = Inr []"
| "utf8_decode (a # bs) =
     (if a < 128 then bindE (utf8_decode bs) (\<lambda>s. Inr (a # s))
      else if a < 194 then Inl ValueError
      else if a < 224 then
        (case bs of
           b # rest \<Rightarrow>
             if continuation b then bindE (utf8_decode rest) (\<lambda>s. Inr (((a - 192) * 64 + (b - 128)) # s))
             else Inl ValueError
         | _ \<Rightarrow> Inl ValueError)
      else if a < 240 then
        (case bs of
           b # c # rest \<Rightarrow>
             let x = (a - 224) * 4096 + (b - 128) * 64 + (c - 128)
             in if continuation b \<and> continuation c \<and> 2048 \<le> x \<and> \<not> surrogate x
                then bindE (utf8_decode rest) (\<lambda>s. Inr (x # s)) else Inl ValueError
         | _ \<Rightarrow> Inl ValueError)
      else if a < 245 then
        (case bs of
           b # c # d # rest \<Rightarrow>
             let x = (a - 240) * 262144 + (b - 128) * 4096 + (c - 128) * 64 + (d - 128)
             in if continuation b \<and> continuation c \<and> continuation d \<and> 65536 \<le> x \<and> x < 1114112
                then bindE (utf8_decode rest) (\<lambda>s. Inr (x # s)) else Inl ValueError
         | _ \<Rightarrow> Inl ValueError)
      else Inl ValueError)"

text \<open>The universal newlines of \<open>read_text\<close>.\<close>

fun newlines :: "ustr \<Rightarrow> ustr" where
  "newlines [] = []"
| "newlines [c] = [if c = 13 then 10 else c]"
| "newlines (c # d # s) =
     (if c \<noteq> 13 then c # newlines (d # s)
      else if d = 10 then 10 # newlines s else 10 # newlines (d # s))"

definition read_text :: "bytes \<Rightarrow> ustr result" where
  "read_text b = bindE (utf8_decode b) (\<lambda>s. Inr (newlines s))"

text \<open>\<open>Path.name\<close>\<close>

definition file_name :: "string \<Rightarrow> string" where
  "file_name p = rev (takeWhile (\<lambda>c. c \<noteq> CHR ''/'') (rev p))"

section \<open>The statements\<close>

text \<open>\<open>INSERT ... ON CONFLICT DO NOTHING RETURNING id\<close>; \<open>now()\<close> is the start of the transaction.\<close>

definition insert_document :: "timestamp \<Rightarrow> seed_row \<Rightarrow> corpus \<Rightarrow> (corpus \<times> uuid option) result" where
  "insert_document tx row db =
     (if \<exists>s \<in> set [p_jurisdiction row, p_sector row, p_lawstronaut row, p_title row]. CHR 0x00 \<in> set s
      then Inl (DbError InvalidText)
      else if \<exists>r \<in> set (documents db). d_lawstronaut r = p_lawstronaut row then Inr (db, None)
      else Inr (db\<lparr>documents := documents db @
                    [\<lparr>d_id = next_uuid db, d_jurisdiction = p_jurisdiction row, d_sector = p_sector row,
                      d_lawstronaut = p_lawstronaut row, d_title = p_title row, d_created = tx\<rparr>],
                  next_uuid := Suc (next_uuid db)\<rparr>, Some (next_uuid db)))"

definition find_document :: "corpus \<Rightarrow> string \<Rightarrow> document_row option" where
  "find_document db lid = List.find (\<lambda>r. d_lawstronaut r = lid) (documents db)"

definition insert_schedule :: "uuid \<Rightarrow> int \<Rightarrow> timestamp \<Rightarrow> schedule_row list \<Rightarrow> schedule_row list \<times> bool" where
  "insert_schedule d cadence nxt rows =
     (if \<exists>r \<in> set rows. s_document r = d then (rows, False)
      else (rows @ [\<lparr>s_document = d, s_cadence = cadence, s_next = nxt, s_last = None, s_failures = 0\<rparr>], True))"

definition has_versions :: "corpus \<Rightarrow> uuid \<Rightarrow> bool" where
  "has_versions db d \<longleftrightarrow> (\<exists>r \<in> set (versions db). v_document r = d)"

text \<open>2026-12-31, as microseconds from 1970.\<close>

definition staged_next_poll_at :: timestamp where
  "staged_next_poll_at = 1798675200000000"

definition park_schedule :: "uuid \<Rightarrow> ingest_db \<Rightarrow> ingest_db" where
  "park_schedule d = update_schedule d (\<lambda>r. r\<lparr>s_next := staged_next_poll_at\<rparr>)"

section \<open>First versions\<close>

definition walk_for_persistence :: "clause \<Rightarrow> clause list" where
  "walk_for_persistence tree = filter persistable (walk tree)"

record staging_payload =
  pl_clauses :: "clause list"
  pl_bytes :: nat
  pl_sha :: bytes

definition compute_v1_staging_payload :: "poll_env \<Rightarrow> ustr \<Rightarrow> staging_payload result" where
  "compute_v1_staging_payload env s =
     bindE (utf8_encode s) (\<lambda>encoded.
     bindE (parse (env_unidb env) default_parser_config (env_tokens env s)) (\<lambda>tree.
       Inr \<lparr>pl_clauses = walk_for_persistence tree, pl_bytes = length encoded, pl_sha = env_sha256 env encoded\<rparr>))"

text \<open>The inserts of the clauses of a first version, each with its own \<open>uuid4\<close>, which is noted by path.\<close>

fun stage_clauses :: "uuid \<Rightarrow> nat \<Rightarrow> clause list \<Rightarrow> uid_map \<Rightarrow> corpus \<Rightarrow> (corpus \<times> uid_map) result" where
  "stage_clauses vid k [] uids db = Inr (db, uids)"
| "stage_clauses vid k (n # ns) uids db =
     (let uid = next_uuid db
      in bindE (insert_clause (db\<lparr>next_uuid := Suc uid\<rparr>)
                 \<lparr>c_version = vid, c_uid = uid, c_path = path_str (path n), c_text = body_text n,
                  c_heading = heading_text n, c_label = numbering_label n, c_ord = k\<rparr>)
           (\<lambda>db'. stage_clauses vid (Suc k) ns ((path n, uid) # uids) db'))"

definition staged_version ::
  "uuid \<Rightarrow> string \<Rightarrow> nat \<Rightarrow> timestamp \<Rightarrow> timestamp option \<Rightarrow> string \<Rightarrow> string \<Rightarrow> bytes \<Rightarrow> nat \<Rightarrow> version_row" where
  "staged_version d lab no valid_from valid_to container key sha len =
     \<lparr>v_id = 0, v_document = d, v_label = u lab, v_no = Some no, v_from = Some valid_from, v_to = valid_to,
      v_publication = None, v_effective = None, v_container = container, v_key = key, v_sha = sha, v_bytes = len\<rparr>"

definition insert_v1_only ::
  "uuid \<Rightarrow> staging_payload \<Rightarrow> string \<Rightarrow> timestamp \<Rightarrow> corpus \<Rightarrow> (corpus \<times> nat) result" where
  "insert_v1_only d payload v1_name now db =
     (if has_versions db d then Inr (db, 0)
      else bindE (insert_version_row
                   (staged_version d ''v1'' 1 now None ''samples'' v1_name (pl_sha payload) (pl_bytes payload)) db)
             (\<lambda>(db1, vid).
               bindE (stage_clauses vid 1 (pl_clauses payload) [] db1) (\<lambda>(db2, _).
                 Inr (db2, length (pl_clauses payload)))))"

section \<open>run_seed\<close>

record seed_result =
  documents_inserted :: nat
  schedules_inserted :: nat
  documents_skipped_conflict :: nat
  v1_documents_staged :: nat
  v1_clauses_inserted :: nat
  v1_parse_failures :: nat
  v1_skipped_missing_fixture :: nat
  v1_skipped_synthetic_v2 :: nat

definition no_rows :: seed_result where
  "no_rows = \<lparr>documents_inserted = 0, schedules_inserted = 0, documents_skipped_conflict = 0, v1_documents_staged = 0,
     v1_clauses_inserted = 0, v1_parse_failures = 0, v1_skipped_missing_fixture = 0, v1_skipped_synthetic_v2 = 0\<rparr>"

text \<open>The arguments of one run.\<close>

record seed_args =
  sa_curated :: curated_set
  sa_fixtures :: "fixture list"
  sa_now :: timestamp
  sa_samples :: "(string \<Rightarrow> bytes option) option"
  sa_skip_v1 :: "string set"

fun fixture_iso_for :: "seed_lib \<Rightarrow> string \<Rightarrow> fixture list \<Rightarrow> string option" where
  "fixture_iso_for lib lid [] = None"
| "fixture_iso_for lib lid (fx # fxs) =
     (if py_str lib (fixture_get fx ''document_id'') = lid
      then (let v = fixture_get fx ''iso'' in if v = YNull then None else Some (lib_lower lib (py_str lib v)))
      else fixture_iso_for lib lid fxs)"

text \<open>
  The staging of one fresh document. \<open>except Exception\<close> catches what the parse raises; a parse that
  does not return is not caught.
\<close>

definition stage_v1 ::
  "seed_lib \<Rightarrow> poll_env \<Rightarrow> seed_args \<Rightarrow> (string \<Rightarrow> bytes option) \<Rightarrow> string \<Rightarrow> uuid
    \<Rightarrow> ingest_db \<times> seed_result \<Rightarrow> (ingest_db \<times> seed_result) result" where
  "stage_v1 lib env args files lid d st =
     (if lid \<in> sa_skip_v1 args then Inr (fst st, (snd st)\<lparr>v1_skipped_synthetic_v2 := v1_skipped_synthetic_v2 (snd st) + 1\<rparr>)
      else case fixture_iso_for lib lid (sa_fixtures args) of
        None \<Rightarrow> Inr (fst st, (snd st)\<lparr>v1_skipped_missing_fixture := v1_skipped_missing_fixture (snd st) + 1\<rparr>)
      | Some code \<Rightarrow>
          let v1_path = code @ ''-'' @ lid @ ''-v1.md'' in
          (case files v1_path of
             None \<Rightarrow> Inr (fst st, (snd st)\<lparr>v1_skipped_missing_fixture := v1_skipped_missing_fixture (snd st) + 1\<rparr>)
           | Some content \<Rightarrow>
               (case bindE (read_text content) (compute_v1_staging_payload env) of
                  Inl e \<Rightarrow> if e = NoReturn then Inl NoReturn
                          else Inr (fst st, (snd st)\<lparr>v1_parse_failures := v1_parse_failures (snd st) + 1\<rparr>)
                | Inr payload \<Rightarrow>
                    bindE (insert_v1_only d payload (file_name v1_path) (sa_now args) (corpus (fst st))) (\<lambda>(c, n).
                      let db' = (fst st)\<lparr>corpus := c\<rparr>
                      in if n = 0 then Inr (db', snd st)
                         else Inr (park_schedule d db',
                           (snd st)\<lparr>v1_documents_staged := v1_documents_staged (snd st) + 1,
                                    v1_clauses_inserted := v1_clauses_inserted (snd st) + n\<rparr>)))))"

definition seed_one ::
  "seed_lib \<Rightarrow> poll_env \<Rightarrow> seed_args \<Rightarrow> timestamp \<Rightarrow> ingest_db \<times> seed_result \<Rightarrow> seed_row
    \<Rightarrow> (ingest_db \<times> seed_result) result" where
  "seed_one lib env args tx st row =
     bindE (insert_document tx row (corpus (fst st))) (\<lambda>(c, inserted).
     bindE (case inserted of
              Some d \<Rightarrow> Inr (d, (snd st)\<lparr>documents_inserted := documents_inserted (snd st) + 1\<rparr>)
            | None \<Rightarrow>
                (case find_document c (p_lawstronaut row) of
                   None \<Rightarrow> Inl RuntimeError
                 | Some r \<Rightarrow> Inr (d_id r, (snd st)\<lparr>documents_skipped_conflict := documents_skipped_conflict (snd st) + 1\<rparr>)))
       (\<lambda>(d, res).
         let (rows, scheduled) = insert_schedule d (p_cadence row) (p_next row) (schedule (fst st));
             res' = (if scheduled then res\<lparr>schedules_inserted := schedules_inserted res + 1\<rparr> else res);
             st' = ((fst st)\<lparr>corpus := c, schedule := rows\<rparr>, res')
         in case (inserted, sa_samples args) of
              (Some _, Some files) \<Rightarrow> stage_v1 lib env args files (p_lawstronaut row) d st'
            | _ \<Rightarrow> Inr st'))"

definition run_seed ::
  "seed_lib \<Rightarrow> poll_env \<Rightarrow> seed_args \<Rightarrow> bool \<Rightarrow> timestamp \<Rightarrow> ingest_db \<Rightarrow> (ingest_db \<times> seed_result) result" where
  "run_seed lib env args dry_run tx db =
     bindE (select lib (sa_curated args) (sa_fixtures args)) (\<lambda>(pending, _).
     bindE (stagger pending (sa_now args)) (\<lambda>seeded.
       if dry_run then Inr (db, no_rows\<lparr>documents_inserted := length seeded, schedules_inserted := length seeded\<rparr>)
       else foldE (seed_one lib env args tx) (db, no_rows) seeded))"

section \<open>stage_synthetic_v2\<close>

text \<open>A pair with what reading its two files gives.\<close>

record synthetic_pair =
  sp_lawstronaut :: string
  sp_v1_name :: string
  sp_v2_name :: string
  sp_v1 :: "bytes result"
  sp_v2 :: "bytes result"

record staging_result =
  documents_staged :: nat
  documents_skipped_missing :: nat
  documents_skipped_already_staged :: nat
  clauses_inserted :: nat
  change_events_inserted :: nat

definition nothing_staged :: staging_result where
  "nothing_staged = \<lparr>documents_staged = 0, documents_skipped_missing = 0, documents_skipped_already_staged = 0,
     clauses_inserted = 0, change_events_inserted = 0\<rparr>"

text \<open>\<open>_build_uid_map_for_v2\<close>: the loop over the clauses that are stored.\<close>

fun v2_uid_loop ::
  "(cpath \<times> cpath) list \<Rightarrow> uid_map \<Rightarrow> clause list \<Rightarrow> uid_map \<Rightarrow> uuid \<Rightarrow> uid_map \<times> uuid" where
  "v2_uid_loop pairs prev [] out fresh = (out, fresh)"
| "v2_uid_loop pairs prev (n # ns) out fresh =
     (case (case map_of pairs (path n) of None \<Rightarrow> None | Some b \<Rightarrow> map_of prev b) of
        Some uid \<Rightarrow> v2_uid_loop pairs prev ns ((path n, uid) # out) fresh
      | None \<Rightarrow>
          (case map_of prev (path n) of
             Some uid \<Rightarrow> v2_uid_loop pairs prev ns ((path n, uid) # out) fresh
           | None \<Rightarrow> v2_uid_loop pairs prev ns ((path n, fresh) # out) (Suc fresh)))"

definition build_uid_map_for_v2 :: "clause \<Rightarrow> change_event list \<Rightarrow> uid_map \<Rightarrow> uuid \<Rightarrow> uid_map \<times> uuid" where
  "build_uid_map_for_v2 v2_tree evs prev fresh =
     v2_uid_loop (pair_by_after_path evs []) prev (walk_for_persistence v2_tree) [] fresh"

text \<open>The parsing and alignment of a pair.\<close>

definition pair_trees :: "poll_env \<Rightarrow> ustr result \<Rightarrow> ustr result \<Rightarrow> (clause \<times> clause \<times> change_event list) result" where
  "pair_trees env s1 s2 =
     bindE s1 (\<lambda>t1. bindE s2 (\<lambda>t2.
     bindE (parse (env_unidb env) default_parser_config (env_tokens env t1)) (\<lambda>v1_tree.
     bindE (parse (env_unidb env) default_parser_config (env_tokens env t2)) (\<lambda>v2_tree.
     bindE (align (env_minhash env) (env_lsh env) v1_tree v2_tree (env_tuning env)) (\<lambda>evs.
       Inr (v1_tree, v2_tree, evs))))))"

text \<open>The writes of a pair: version 1, closed as it opens, then version 2 with its clauses and events.\<close>

definition persist_pair ::
  "poll_env \<Rightarrow> synthetic_pair \<Rightarrow> timestamp \<Rightarrow> document_row \<Rightarrow> bytes \<Rightarrow> bytes
    \<Rightarrow> clause \<times> clause \<times> change_event list \<Rightarrow> corpus \<Rightarrow> corpus result" where
  "persist_pair env pair now doc b1 b2 trees db =
     (let (v1_tree, v2_tree, evs) = trees; d = d_id doc
      in bindE (insert_version_row
                  (staged_version d ''v1'' 1 now (Some now) ''samples'' (file_name (sp_v1_name pair)) (env_sha256 env b1) (length b1)) db)
           (\<lambda>(db1, v1_id).
         bindE (stage_clauses v1_id 1 (walk_for_persistence v1_tree) [] db1) (\<lambda>(db2, prev_uids).
         bindE (insert_version_row
                  (staged_version d ''v2-synthetic'' 2 now None ''synthetic_v2'' (file_name (sp_v2_name pair)) (env_sha256 env b2) (length b2)) db2)
           (\<lambda>(db3, v2_id).
         let (uids, fresh) = build_uid_map_for_v2 v2_tree evs prev_uids (next_uuid db3)
         in bindE (clause_insert_rows v2_tree uids v2_id) (\<lambda>crows.
            bindE (foldE insert_clause (db3\<lparr>next_uuid := fresh\<rparr>) crows) (\<lambda>db4.
              foldE insert_change_event db4
                (change_event_insert_rows evs uids prev_uids d v2_id (d_jurisdiction doc) (d_sector doc) None)))))))"

definition stage_one_pair ::
  "poll_env \<Rightarrow> timestamp \<Rightarrow> synthetic_pair \<Rightarrow> ingest_db \<Rightarrow> (ingest_db \<times> (nat \<times> nat) option) result" where
  "stage_one_pair env now pair db =
     (case find_document (corpus db) (sp_lawstronaut pair) of
        None \<Rightarrow> Inr (db, None)
      | Some doc \<Rightarrow>
          if has_versions (corpus db) (d_id doc) then Inr (db, None)
          else bindE (sp_v1 pair) (\<lambda>b1. bindE (sp_v2 pair) (\<lambda>b2.
               bindE (pair_trees env (utf8_decode b1) (utf8_decode b2)) (\<lambda>(v1_tree, v2_tree, evs).
               bindE (persist_pair env pair now doc b1 b2 (v1_tree, v2_tree, evs) (corpus db)) (\<lambda>c.
                 Inr (park_schedule (d_id doc) (db\<lparr>corpus := c\<rparr>),
                      Some (length (walk_for_persistence v1_tree) + length (walk_for_persistence v2_tree), length evs)))))))"

text \<open>One transaction for every pair: the pairs before a failing one stay staged.\<close>

fun stage_pairs ::
  "poll_env \<Rightarrow> timestamp \<Rightarrow> synthetic_pair list \<Rightarrow> ingest_db \<Rightarrow> staging_result \<Rightarrow> ingest_db \<times> staging_result result" where
  "stage_pairs env now [] db res = (db, Inr res)"
| "stage_pairs env now (pair # pairs) db res =
     (case find_document (corpus db) (sp_lawstronaut pair) of
        None \<Rightarrow> stage_pairs env now pairs db (res\<lparr>documents_skipped_missing := documents_skipped_missing res + 1\<rparr>)
      | Some doc \<Rightarrow>
          if has_versions (corpus db) (d_id doc)
          then stage_pairs env now pairs db
                 (res\<lparr>documents_skipped_already_staged := documents_skipped_already_staged res + 1\<rparr>)
          else (case stage_one_pair env now pair db of
                  Inl e \<Rightarrow> (db, Inl e)
                | Inr (db', None) \<Rightarrow> stage_pairs env now pairs db' res
                | Inr (db', Some (n, m)) \<Rightarrow>
                    stage_pairs env now pairs db'
                      (res\<lparr>documents_staged := documents_staged res + 1,
                           clauses_inserted := clauses_inserted res + n,
                           change_events_inserted := change_events_inserted res + m\<rparr>)))"

text \<open>The dry run reads the files as text.\<close>

fun dry_run_pairs :: "poll_env \<Rightarrow> synthetic_pair list \<Rightarrow> nat \<Rightarrow> nat \<Rightarrow> (nat \<times> nat) result" where
  "dry_run_pairs env [] n m = Inr (n, m)"
| "dry_run_pairs env (pair # pairs) n m =
     bindE (bindE (sp_v1 pair) read_text) (\<lambda>t1.
     bindE (parse (env_unidb env) default_parser_config (env_tokens env t1)) (\<lambda>v1_tree.
     bindE (bindE (sp_v2 pair) read_text) (\<lambda>t2.
     bindE (parse (env_unidb env) default_parser_config (env_tokens env t2)) (\<lambda>v2_tree.
     bindE (align (env_minhash env) (env_lsh env) v1_tree v2_tree (env_tuning env)) (\<lambda>evs.
       dry_run_pairs env pairs (n + (length (walk_for_persistence v1_tree) + length (walk_for_persistence v2_tree)))
         (m + length evs))))))"

definition stage_synthetic_v2 ::
  "poll_env \<Rightarrow> timestamp \<Rightarrow> synthetic_pair list \<Rightarrow> bool \<Rightarrow> ingest_db \<Rightarrow> ingest_db \<times> staging_result result" where
  "stage_synthetic_v2 env now pairs dry_run db =
     (if dry_run
      then (db, bindE (dry_run_pairs env pairs 0 0) (\<lambda>(n, m).
              Inr \<lparr>documents_staged = length pairs, documents_skipped_missing = 0,
                   documents_skipped_already_staged = 0, clauses_inserted = n, change_events_inserted = m\<rparr>))
      else stage_pairs env now pairs db nothing_staged)"

end
