(* ===== verification/Seed_Correct.thy ===== *)
theory Seed_Correct
  imports Seed Worker
begin

text \<open>
  What seeding does to the corpus and the schedule: the invariant it shares with the poll, the
  rows of a staged pair, and that a second run changes nothing.
\<close>

section \<open>Identities\<close>

text \<open>\<open>_build_uid_map_for_v2\<close> is \<open>_build_clause_uid_map\<close> of the poll.\<close>

lemma v2_uid_loop_eq: "v2_uid_loop pairs prev (filter persistable ns) out fresh = uid_loop pairs prev ns out fresh"
  by (induction ns arbitrary: out fresh) (simp_all add: uid_loop.simps split: option.split)

lemma v2_uid_map_eq: "build_uid_map_for_v2 = build_clause_uid_map"
  by (intro ext) (simp add: build_uid_map_for_v2_def build_clause_uid_map_def walk_for_persistence_def v2_uid_loop_eq)

section \<open>The invariant\<close>

definition documents_ok :: "corpus \<Rightarrow> bool" where
  "documents_ok db \<longleftrightarrow> distinct (map d_id (documents db)) \<and> distinct (map d_lawstronaut (documents db))
     \<and> (\<forall>r \<in> set (documents db). d_id r < next_uuid db)"

definition seed_ok :: "ingest_db \<Rightarrow> bool" where
  "seed_ok db \<longleftrightarrow> corpus_ok (corpus db) \<and> documents_ok (corpus db) \<and> keyed db"

lemma corpus_ok_grow:
  assumes "corpus_ok db" "versions db' = versions db" "next_uuid db \<le> next_uuid db'"
    and "\<forall>r \<in> set (clauses db'). r \<in> set (clauses db) \<or> c_version r < next_uuid db' \<and> pg_text (c_path r) \<and> pg_text (c_text r)"
  shows "corpus_ok db'"
proof -
  have "history_ok (map (\<lambda>r. r) (versions db)) (next_uuid db')"
    by (rule history_ok_map) (use assms in \<open>auto simp: corpus_ok_def\<close>)
  then show ?thesis using assms by (fastforce simp: corpus_ok_def)
qed

lemma documents_ok_grow:
  "documents_ok db \<Longrightarrow> documents db' = documents db \<Longrightarrow> next_uuid db \<le> next_uuid db' \<Longrightarrow> documents_ok db'"
  by (fastforce simp: documents_ok_def)

lemma insert_version_rowD:
  assumes "insert_version_row row db = Inr (db', vid)"
  shows "vid = next_uuid db \<and> db' = db\<lparr>versions := versions db @ [row\<lparr>v_id := vid\<rparr>], next_uuid := Suc vid\<rparr>"
  using assms by (auto simp: insert_version_row_def split: if_split_asm)

text \<open>A new version keeps the history when it continues the numbers of a document whose versions are closed.\<close>

lemma insert_version_row_ok:
  assumes "insert_version_row row db = Inr (db', vid)" "corpus_ok db"
    and "v_no row = Some n" "1 \<le> n" "version_label_ok n (v_label row)"
    and "\<forall>m. 1 \<le> m \<and> m < n \<longrightarrow> (\<exists>q \<in> set (versions db). v_document q = v_document row \<and> v_no q = Some m)"
    and "\<forall>q \<in> set (versions db). v_document q = v_document row \<longrightarrow> v_to q \<noteq> None \<and> (\<exists>m < n. v_no q = Some m)"
  shows "corpus_ok db'"
proof -
  have h: "history_ok (versions db) (next_uuid db)" using assms(2) by (simp add: corpus_ok_def)
  have "history_ok (versions db @ [row\<lparr>v_id := next_uuid db\<rparr>]) (Suc (next_uuid db))"
    by (rule history_ok_snoc [OF h, where n = n]) (use assms(3-7) in \<open>fastforce simp: no_before_def\<close>)+
  then show ?thesis using insert_version_rowD [OF assms(1)] assms(2) by (auto simp: corpus_ok_def)
qed

lemma stage_clausesD:
  assumes "stage_clauses vid k ns uids db = Inr (db', uids')"
  shows "\<exists>rows. db' = db\<lparr>clauses := clauses db @ rows, next_uuid := next_uuid db + length ns\<rparr> \<and> length rows = length ns
    \<and> (\<forall>r \<in> set rows. c_version r = vid \<and> pg_text (c_path r) \<and> pg_text (c_text r))"
  using assms
proof (induction ns arbitrary: k uids db)
  case Nil
  then show ?case by (intro exI [of _ "[]"]) simp
next
  case (Cons n ns)
  let ?row = "\<lparr>c_version = vid, c_uid = next_uuid db, c_path = path_str (path n), c_text = body_text n,
    c_heading = heading_text n, c_label = numbering_label n, c_ord = k\<rparr>"
  obtain db1 where i: "insert_clause (db\<lparr>next_uuid := Suc (next_uuid db)\<rparr>) ?row = Inr db1"
    and s: "stage_clauses vid (Suc k) ns ((path n, next_uuid db) # uids) db1 = Inr (db', uids')"
    using Cons.prems by (auto simp: Let_def bindE_eq_Inr)
  have db1: "db1 = db\<lparr>clauses := clauses db @ [?row], next_uuid := Suc (next_uuid db)\<rparr>"
    "pg_text (path_str (path n))" "pg_text (body_text n)"
    using i by (auto simp: insert_clause_def split: if_split_asm)
  from Cons.IH [OF s] obtain rows where rows: "db' = db1\<lparr>clauses := clauses db1 @ rows, next_uuid := next_uuid db1 + length ns\<rparr>"
    "length rows = length ns" "\<forall>r \<in> set rows. c_version r = vid \<and> pg_text (c_path r) \<and> pg_text (c_text r)" by blast
  then show ?case using db1 by (intro exI [of _ "?row # rows"]) simp
qed


section \<open>run_seed keeps the invariant\<close>

lemma staged_version_fields [simp]:
  "v_document (staged_version d lab no a b c key sha len) = d" "v_no (staged_version d lab no a b c key sha len) = Some no"
  "v_label (staged_version d lab no a b c key sha len) = u lab" "v_to (staged_version d lab no a b c key sha len) = b"
  "v_from (staged_version d lab no a b c key sha len) = Some a"
  by (simp_all add: staged_version_def)

lemma dec_one: "dec 1 = [49]"
  by (simp add: dec.simps)

lemma staged_labels [simp]:
  "version_label_ok (Suc 0) (u ''v1'')" "version_label_ok n (u ''v2-synthetic'')"
  using dec_one by (simp_all add: version_label_ok_def) (simp add: u_def)

text \<open>A first version of a document that has none, with its clauses.\<close>

lemma first_version:
  assumes "\<not> has_versions db d" "corpus_ok db"
    and "insert_version_row (staged_version d ''v1'' 1 now vt container key sha len) db = Inr (db1, vid)"
    and "stage_clauses vid k ns [] db1 = Inr (db2, uids)"
  shows "\<exists>rows. db2 = db\<lparr>versions := versions db @ [(staged_version d ''v1'' 1 now vt container key sha len)\<lparr>v_id := next_uuid db\<rparr>],
      clauses := clauses db @ rows, next_uuid := Suc (next_uuid db) + length ns\<rparr> \<and> length rows = length ns"
    and "corpus_ok db2"
proof -
  let ?v = "staged_version d ''v1'' 1 now vt container key sha len"
  note db1 = insert_version_rowD [OF assms(3)]
  have ok: "corpus_ok db1"
    by (rule insert_version_row_ok [OF assms(3,2), where n = 1]) (use assms(1) in \<open>auto simp: has_versions_def\<close>)
  obtain rows where rows: "db2 = db1\<lparr>clauses := clauses db1 @ rows, next_uuid := next_uuid db1 + length ns\<rparr>"
    "length rows = length ns" "\<forall>r \<in> set rows. c_version r = vid \<and> pg_text (c_path r) \<and> pg_text (c_text r)"
    using stage_clausesD [OF assms(4)] by blast
  show "\<exists>rows. db2 = db\<lparr>versions := versions db @ [?v\<lparr>v_id := next_uuid db\<rparr>],
      clauses := clauses db @ rows, next_uuid := Suc (next_uuid db) + length ns\<rparr> \<and> length rows = length ns"
    using rows(1,2) db1 by (intro exI [of _ rows]) simp
  show "corpus_ok db2"
    by (rule corpus_ok_grow [OF ok]) (use rows db1 in auto)
qed

lemma insert_v1_only_ok:
  assumes "insert_v1_only d payload key now db = Inr (db', n)" "corpus_ok db"
  shows "corpus_ok db'" "documents db' = documents db" "next_uuid db \<le> next_uuid db'"
proof -
  have "corpus_ok db' \<and> documents db' = documents db \<and> next_uuid db \<le> next_uuid db'"
  proof (cases "has_versions db d")
    case True
    then show ?thesis using assms by (simp add: insert_v1_only_def)
  next
    case False
    obtain db1 vid uids where
      i: "insert_version_row (staged_version d ''v1'' 1 now None ''samples'' key (pl_sha payload) (pl_bytes payload)) db = Inr (db1, vid)"
      and s: "stage_clauses vid 1 (pl_clauses payload) [] db1 = Inr (db', uids)"
      using assms(1) False by (auto simp: insert_v1_only_def bindE_eq_Inr)
    show ?thesis using first_version [OF False assms(2) i s] by auto
  qed
  then show "corpus_ok db'" "documents db' = documents db" "next_uuid db \<le> next_uuid db'" by auto
qed

lemma park_schedule_fields [simp]:
  "corpus (park_schedule d db) = corpus db" "map s_document (schedule (park_schedule d db)) = map s_document (schedule db)"
  "keyed (park_schedule d db) = keyed db"
  by (simp_all add: park_schedule_def update_schedule_def keyed_def o_def if_distrib [of s_document] cong: if_cong)

text \<open>What \<open>stage_v1\<close> may change.\<close>

definition only_staged :: "ingest_db \<Rightarrow> ingest_db \<Rightarrow> bool" where
  "only_staged db db' \<longleftrightarrow> map s_document (schedule db') = map s_document (schedule db)
     \<and> documents (corpus db') = documents (corpus db) \<and> next_uuid (corpus db) \<le> next_uuid (corpus db')
     \<and> (corpus_ok (corpus db) \<longrightarrow> corpus_ok (corpus db'))"

lemma only_staged_refl [simp]: "only_staged db db"
  by (simp add: only_staged_def)

lemma insert_v1_only_staged:
  assumes "insert_v1_only d payload key now (corpus db) = Inr (c, n)"
  shows "only_staged db (db\<lparr>corpus := c\<rparr>)"
proof -
  have "documents c = documents (corpus db) \<and> next_uuid (corpus db) \<le> next_uuid c"
  proof (cases "has_versions (corpus db) d")
    case False
    then show ?thesis using assms
      by (auto simp: insert_v1_only_def bindE_eq_Inr dest!: insert_version_rowD stage_clausesD)
  qed (use assms in \<open>simp add: insert_v1_only_def\<close>)
  then show ?thesis using insert_v1_only_ok(1) [OF assms] by (simp add: only_staged_def)
qed

lemma stage_v1_only_staged:
  assumes "stage_v1 lib env args files lid d st = Inr st'"
  shows "only_staged (fst st) (fst st')"
proof (cases "lid \<in> sa_skip_v1 args \<or> fixture_iso_for lib lid (sa_fixtures args) = None")
  case True
  then show ?thesis using assms by (auto simp: stage_v1_def split: if_split_asm)
next
  case False
  then obtain code where code: "fixture_iso_for lib lid (sa_fixtures args) = Some code" "lid \<notin> sa_skip_v1 args" by auto
  let ?file = "code @ ''-'' @ lid @ ''-v1.md''"
  show ?thesis
  proof (cases "files ?file")
    case None
    then show ?thesis using assms code by (auto simp: stage_v1_def)
  next
    case (Some content)
    show ?thesis
    proof (cases "bindE (read_text content) (compute_v1_staging_payload env)")
      case (Inl e)
      then show ?thesis using assms code Some by (auto simp: stage_v1_def split: if_split_asm)
    next
      case (Inr payload)
      then obtain c n where c: "insert_v1_only d payload (file_name ?file) (sa_now args) (corpus (fst st)) = Inr (c, n)"
        and st': "fst st' = (if n = 0 then (fst st)\<lparr>corpus := c\<rparr> else park_schedule d ((fst st)\<lparr>corpus := c\<rparr>))"
        using assms code Some by (auto simp: stage_v1_def bindE_eq_Inr Let_def split: if_split_asm)
      show ?thesis using insert_v1_only_staged [OF c] unfolding st' by (simp add: only_staged_def)
    qed
  qed
qed


lemma find_append: "List.find P (xs @ ys) = (case List.find P xs of None \<Rightarrow> List.find P ys | Some x \<Rightarrow> Some x)"
  by (induction xs) auto

lemma insert_documentD:
  assumes "insert_document tx row db = Inr (db', inserted)"
  obtains (conflict) r where "inserted = None" "db' = db" "find_document db (p_lawstronaut row) = Some r"
  | (fresh) "inserted = Some (next_uuid db)" "find_document db (p_lawstronaut row) = None"
      "db' = db\<lparr>documents := documents db @
        [\<lparr>d_id = next_uuid db, d_jurisdiction = p_jurisdiction row, d_sector = p_sector row,
          d_lawstronaut = p_lawstronaut row, d_title = p_title row, d_created = tx\<rparr>], next_uuid := Suc (next_uuid db)\<rparr>"
proof (cases "find_document db (p_lawstronaut row)")
  case None
  then show ?thesis using fresh assms
    by (auto simp: insert_document_def find_document_def find_None_iff split: if_split_asm)
next
  case (Some r)
  then have "\<exists>r \<in> set (documents db). d_lawstronaut r = p_lawstronaut row"
    by (auto simp: find_document_def find_Some_iff)
  then show ?thesis using conflict [OF _ _ Some] assms by (auto simp: insert_document_def split: if_split_asm)
qed

lemma insert_schedule_documents:
  "map s_document (fst (insert_schedule d c t rows)) =
     map s_document rows @ (if d \<in> s_document ` set rows then [] else [d])"
  by (auto simp: insert_schedule_def)

text \<open>The state between the two inserts of a row and its staging.\<close>

lemma seed_oneD:
  assumes "seed_one lib env args tx st row = Inr st'"
  obtains c inserted d res where "insert_document tx row (corpus (fst st)) = Inr (c, inserted)"
    and "d = (case inserted of Some d \<Rightarrow> d | None \<Rightarrow> d_id (the (find_document c (p_lawstronaut row))))"
    and "only_staged ((fst st)\<lparr>corpus := c, schedule := fst (insert_schedule d (p_cadence row) (p_next row) (schedule (fst st)))\<rparr>) (fst st')"
proof -
  obtain c inserted where c: "insert_document tx row (corpus (fst st)) = Inr (c, inserted)"
    using assms by (auto simp: seed_one_def bindE_eq_Inr)
  obtain d res where d: "(case inserted of
              Some d \<Rightarrow> Inr (d, (snd st)\<lparr>documents_inserted := documents_inserted (snd st) + 1\<rparr>)
            | None \<Rightarrow>
                (case find_document c (p_lawstronaut row) of
                   None \<Rightarrow> Inl RuntimeError
                 | Some r \<Rightarrow> Inr (d_id r, (snd st)\<lparr>documents_skipped_conflict := documents_skipped_conflict (snd st) + 1\<rparr>))) = Inr (d, res)"
    using assms unfolding seed_one_def by (auto simp: c bindE_eq_Inr)
  obtain rows b where i: "insert_schedule d (p_cadence row) (p_next row) (schedule (fst st)) = (rows, b)"
    by fastforce
  have "only_staged ((fst st)\<lparr>corpus := c, schedule := rows\<rparr>) (fst st')"
    using assms unfolding seed_one_def
    by (auto simp: c d i Let_def split: option.split_asm dest!: stage_v1_only_staged)
  moreover have "d = (case inserted of Some d \<Rightarrow> d | None \<Rightarrow> d_id (the (find_document c (p_lawstronaut row))))"
    using d by (auto split: option.splits)
  ultimately show ?thesis using that [OF c] i by auto
qed

lemma seed_one_ok:
  assumes "seed_one lib env args tx st row = Inr st'" "seed_ok (fst st)"
  shows "seed_ok (fst st')"
proof -
  let ?db = "corpus (fst st)"
  obtain c inserted d res where c: "insert_document tx row ?db = Inr (c, inserted)"
    and only: "only_staged ((fst st)\<lparr>corpus := c, schedule := fst (insert_schedule d (p_cadence row) (p_next row) (schedule (fst st)))\<rparr>) (fst st')"
    using assms(1) by (rule seed_oneD)
  have ok: "corpus_ok ?db" "documents_ok ?db" "keyed (fst st)" using assms(2) by (auto simp: seed_ok_def)
  have "corpus_ok c \<and> documents_ok c"
    using c
  proof (cases rule: insert_documentD)
    case fresh
    have "corpus_ok c" by (rule corpus_ok_grow [OF ok(1)]) (use fresh ok(1) in \<open>auto simp: corpus_ok_def\<close>)
    moreover have "p_lawstronaut row \<notin> d_lawstronaut ` set (documents ?db)"
      using fresh(2) by (auto simp: find_document_def find_None_iff)
    ultimately show ?thesis using ok(2) fresh(3) by (fastforce simp: documents_ok_def)
  qed (use ok in simp)
  moreover have "distinct (map s_document (schedule (fst st')))"
    using only ok(3) by (auto simp: only_staged_def insert_schedule_documents keyed_def)
  ultimately show ?thesis
    using only documents_ok_grow [of c "corpus (fst st')"] by (auto simp: only_staged_def seed_ok_def keyed_def)
qed

lemma run_seed_ok:
  assumes "run_seed lib env args dry tx db = Inr (db', res)" "seed_ok db"
  shows "seed_ok db'"
proof (cases dry)
  case False
  then obtain rows where "foldE (seed_one lib env args tx) (db, no_rows) rows = Inr (db', res)"
    using assms(1) by (auto simp: run_seed_def bindE_eq_Inr)
  then have "seed_ok (fst (db', res))"
    by (rule foldE_invariant [where I = "\<lambda>st. seed_ok (fst st)", rotated 2]) (use assms(2) seed_one_ok in auto)
  then show ?thesis by simp
qed (use assms in \<open>auto simp: run_seed_def bindE_eq_Inr\<close>)


section \<open>A second run\<close>

text \<open>The document of a row is there, with its schedule row, and its texts were accepted.\<close>

definition seeded :: "ingest_db \<Rightarrow> pending_row \<Rightarrow> bool" where
  "seeded db row \<longleftrightarrow> (\<exists>r. find_document (corpus db) (p_lawstronaut row) = Some r \<and> d_id r \<in> set (map s_document (schedule db)))
     \<and> (\<forall>s \<in> set [p_jurisdiction row, p_sector row, p_lawstronaut row, p_title row]. CHR 0x00 \<notin> set s)"

definition grows :: "ingest_db \<Rightarrow> ingest_db \<Rightarrow> bool" where
  "grows db db' \<longleftrightarrow> (\<exists>ds. documents (corpus db') = documents (corpus db) @ ds)
     \<and> set (map s_document (schedule db)) \<subseteq> set (map s_document (schedule db'))"

lemma seeded_grows: "grows db db' \<Longrightarrow> seeded db row \<Longrightarrow> seeded db' row"
  by (auto simp: grows_def seeded_def find_document_def find_append)

lemma seeded_same:
  "documents (corpus db') = documents (corpus db) \<Longrightarrow> map s_document (schedule db') = map s_document (schedule db)
    \<Longrightarrow> seeded db' row = seeded db row"
  by (simp add: seeded_def find_document_def)

lemma seed_one_seeded:
  assumes "seed_one lib env args tx st row = Inr st'"
  shows "grows (fst st) (fst st')" "seeded (fst st') (pending_row.truncate row)"
proof -
  obtain c inserted d where c: "insert_document tx row (corpus (fst st)) = Inr (c, inserted)"
    and d: "d = (case inserted of Some d \<Rightarrow> d | None \<Rightarrow> d_id (the (find_document c (p_lawstronaut row))))"
    and only: "only_staged ((fst st)\<lparr>corpus := c, schedule := fst (insert_schedule d (p_cadence row) (p_next row) (schedule (fst st)))\<rparr>) (fst st')"
    using assms by (rule seed_oneD) blast
  have doc: "\<forall>r. find_document c (p_lawstronaut row) = Some r \<longrightarrow> d_id r = d"
    and ex: "\<exists>r. find_document c (p_lawstronaut row) = Some r"
    and ds: "\<exists>ds. documents c = documents (corpus (fst st)) @ ds"
    using c d by (cases rule: insert_documentD; auto simp: find_document_def find_append)+
  have docs: "documents (corpus (fst st')) = documents c"
    and sch: "map s_document (schedule (fst st')) = map s_document (fst (insert_schedule d (p_cadence row) (p_next row) (schedule (fst st))))"
    using only by (auto simp: only_staged_def)
  show "grows (fst st) (fst st')"
    using ds unfolding grows_def docs sch insert_schedule_documents by auto
  have "\<forall>s \<in> set [p_jurisdiction row, p_sector row, p_lawstronaut row, p_title row]. CHR 0x00 \<notin> set s"
    using c by (auto simp: insert_document_def split: if_split_asm)
  then show "seeded (fst st') (pending_row.truncate row)"
    using doc ex unfolding seeded_def find_document_def docs sch insert_schedule_documents
    by (auto simp: pending_row.defs)
qed

lemma seed_rows_seeded:
  assumes "foldE (seed_one lib env args tx) st rows = Inr st'"
  shows "grows (fst st) (fst st')" "\<forall>row \<in> set rows. seeded (fst st') (pending_row.truncate row)"
proof -
  have "grows (fst st) (fst st') \<and> (\<forall>row \<in> set rows. seeded (fst st') (pending_row.truncate row))"
    using assms
  proof (induction rows arbitrary: st)
    case Nil
    then show ?case by (simp add: grows_def)
  next
    case (Cons row rows)
    obtain st1 where 1: "seed_one lib env args tx st row = Inr st1" and 2: "foldE (seed_one lib env args tx) st1 rows = Inr st'"
      using Cons.prems by (auto simp: bindE_eq_Inr)
    note here = seed_one_seeded [OF 1]
    note rest = Cons.IH [OF 2]
    have "grows (fst st) (fst st')" using here(1) rest by (fastforce simp: grows_def)
    then show ?case using here(2) rest seeded_grows by auto
  qed
  then show "grows (fst st) (fst st')" "\<forall>row \<in> set rows. seeded (fst st') (pending_row.truncate row)" by auto
qed

text \<open>A row that is already seeded is only counted.\<close>

lemma seed_one_again:
  assumes "seeded db (pending_row.truncate row)"
  shows "seed_one lib env args tx (db, res) row =
    Inr (db, res\<lparr>documents_skipped_conflict := documents_skipped_conflict res + 1\<rparr>)"
proof -
  obtain r where r: "find_document (corpus db) (p_lawstronaut row) = Some r" "d_id r \<in> set (map s_document (schedule db))"
    and nul: "\<forall>s \<in> set [p_jurisdiction row, p_sector row, p_lawstronaut row, p_title row]. CHR 0x00 \<notin> set s"
    using assms by (auto simp: seeded_def pending_row.defs)
  have "\<exists>q \<in> set (documents (corpus db)). d_lawstronaut q = p_lawstronaut row"
    using r(1) by (auto simp: find_document_def find_Some_iff)
  then have "insert_document tx row (corpus db) = Inr (corpus db, None)"
    using nul by (auto simp: insert_document_def)
  moreover have "insert_schedule (d_id r) (p_cadence row) (p_next row) (schedule db) = (schedule db, False)"
    using r(2) by (auto simp: insert_schedule_def)
  ultimately show ?thesis by (simp add: seed_one_def r(1) Let_def)
qed

lemma seed_rows_again:
  assumes "\<forall>row \<in> set rows. seeded db (pending_row.truncate row)"
  shows "foldE (seed_one lib env args tx) (db, res) rows =
    Inr (db, res\<lparr>documents_skipped_conflict := documents_skipped_conflict res + length rows\<rparr>)"
  using assms by (induction rows arbitrary: res) (simp_all add: seed_one_again add.commute)

lemma stagger_rows:
  assumes "stagger pending now = Inr rows"
  shows "map pending_row.truncate rows = pending"
proof (rule nth_equalityI)
  show "length (map pending_row.truncate rows) = length pending"
    using mapE_length [OF assms [unfolded stagger_def]] by simp
  fix i assume "i < length (map pending_row.truncate rows)"
  then have i: "i < length pending" using mapE_length [OF assms [unfolded stagger_def]] by simp
  have "stagger_row pending now (i, pending ! i) = Inr (rows ! i)"
    using mapE_nth [OF assms [unfolded stagger_def], of i] i by (simp add: nth_enumerate_eq)
  then have "rows ! i = pending_row.extend (pending ! i) (seed_row.fields (now + offset_at pending i))"
    by (auto simp: stagger_row_def Let_def split: if_split_asm)
  then show "map pending_row.truncate rows ! i = pending ! i"
    using i mapE_length [OF assms [unfolded stagger_def]]
    by (simp add: pending_row.defs seed_row.defs)
qed

text \<open>
  The same curated set and fixtures again, at any later time and with any samples: what the plan
  lists is skipped, and nothing is written.
\<close>

lemma run_seed_again:
  assumes "run_seed lib env args False tx db = Inr (db1, res)"
    and "sa_curated args' = sa_curated args" "sa_fixtures args' = sa_fixtures args"
  shows "run_seed lib env args' False tx' db1 =
    bindE (run_seed lib env args' True tx' db1) (\<lambda>(_, plan).
      Inr (db1, no_rows\<lparr>documents_skipped_conflict := documents_inserted plan\<rparr>))"
proof -
  obtain pending unmatched rows where sel: "select lib (sa_curated args) (sa_fixtures args) = Inr (pending, unmatched)"
    and st: "stagger pending (sa_now args) = Inr rows"
    and run: "foldE (seed_one lib env args tx) (db, no_rows) rows = Inr (db1, res)"
    using assms(1) by (auto simp: run_seed_def bindE_eq_Inr)
  have done': "\<forall>row \<in> set pending. seeded db1 row"
    using seed_rows_seeded(2) [OF run] stagger_rows [OF st] by auto
  show ?thesis
  proof (cases "stagger pending (sa_now args')")
    case (Inl e)
    then show ?thesis using sel assms(2,3) by (simp add: run_seed_def)
  next
    case (Inr rows')
    have "\<forall>row \<in> set rows'. seeded db1 (pending_row.truncate row)"
      using done' stagger_rows [OF Inr] by auto
    then show ?thesis using sel assms(2,3) Inr seed_rows_again [of rows' db1 lib env args' tx' no_rows]
      by (simp add: run_seed_def no_rows_def)
  qed
qed


section \<open>A staged pair\<close>

lemma persist_pairD:
  assumes "persist_pair env pair now doc b1 b2 (t1, t2, evs) db = Inr db'"
    and "corpus_ok db" "\<not> has_versions db (d_id doc)"
  obtains vid uids prev rows1 fresh where
    "versions db' = versions db @
        [(staged_version (d_id doc) ''v1'' 1 now (Some now) ''samples'' (file_name (sp_v1_name pair)) (env_sha256 env b1) (length b1))
            \<lparr>v_id := next_uuid db\<rparr>,
         (staged_version (d_id doc) ''v2-synthetic'' 2 now None ''synthetic_v2'' (file_name (sp_v2_name pair)) (env_sha256 env b2) (length b2))
            \<lparr>v_id := vid\<rparr>]"
    and "events db' = events db @ change_event_insert_rows evs uids prev (d_id doc) vid (d_jurisdiction doc) (d_sector doc) None"
    and "clauses db' = clauses db @ rows1 @ map (clause_row_of uids vid) (List.enumerate 1 (filter persistable (walk t2)))"
    and "length rows1 = length (filter persistable (walk t1))"
    and "build_clause_uid_map t2 evs prev (Suc vid) = (uids, fresh)"
    and "documents db' = documents db" "next_uuid db \<le> next_uuid db'" "corpus_ok db'"
proof -
  let ?d = "d_id doc"
  let ?v1 = "staged_version ?d ''v1'' 1 now (Some now) ''samples'' (file_name (sp_v1_name pair)) (env_sha256 env b1) (length b1)"
  let ?v2 = "staged_version ?d ''v2-synthetic'' 2 now None ''synthetic_v2'' (file_name (sp_v2_name pair)) (env_sha256 env b2) (length b2)"
  obtain db1 v1_id where 1: "insert_version_row ?v1 db = Inr (db1, v1_id)"
    using assms(1) unfolding persist_pair_def Let_def case_prod_conv by (auto simp: bindE_eq_Inr simp del: One_nat_def)
  obtain db2 prev where 2: "stage_clauses v1_id 1 (walk_for_persistence t1) [] db1 = Inr (db2, prev)"
    using assms(1) unfolding persist_pair_def Let_def case_prod_conv by (auto simp: bindE_eq_Inr 1 simp del: One_nat_def)
  obtain db3 vid where 3: "insert_version_row ?v2 db2 = Inr (db3, vid)"
    using assms(1) unfolding persist_pair_def Let_def case_prod_conv by (auto simp: bindE_eq_Inr 1 2 simp del: One_nat_def)
  obtain uids fresh where b: "build_clause_uid_map t2 evs prev (next_uuid db3) = (uids, fresh)"
    by (cases "build_clause_uid_map t2 evs prev (next_uuid db3)")
  obtain crows db4 where 4: "clause_insert_rows t2 uids vid = Inr crows" "foldE insert_clause (db3\<lparr>next_uuid := fresh\<rparr>) crows = Inr db4"
      "foldE insert_change_event db4 (change_event_insert_rows evs uids prev ?d vid (d_jurisdiction doc) (d_sector doc) None) = Inr db'"
    using assms(1) unfolding persist_pair_def Let_def case_prod_conv by (auto simp: bindE_eq_Inr 1 2 3 v2_uid_map_eq b simp del: One_nat_def)
  obtain rows1 where first: "db2 = db\<lparr>versions := versions db @ [?v1\<lparr>v_id := next_uuid db\<rparr>],
      clauses := clauses db @ rows1, next_uuid := Suc (next_uuid db) + length (walk_for_persistence t1)\<rparr>"
      "length rows1 = length (walk_for_persistence t1)" and ok2: "corpus_ok db2"
    using first_version [OF assms(3,2) 1 2] by blast
  have others: "\<forall>q \<in> set (versions db). v_document q \<noteq> ?d" using assms(3) by (auto simp: has_versions_def)
  have below: "m = 1" if "1 \<le> m" "m < 2" for m :: nat using that by linarith
  have ok3: "corpus_ok db3"
    by (rule insert_version_row_ok [OF 3 ok2, where n = 2]) (use others first(1) in \<open>auto dest: below\<close>)
  have v3: "vid = next_uuid db2" "db3 = db2\<lparr>versions := versions db2 @ [?v2\<lparr>v_id := vid\<rparr>], next_uuid := Suc vid\<rparr>"
    using insert_version_rowD [OF 3] by auto
  have "\<forall>p \<in> set (persist_paths (walk t2)). map_of uids p \<noteq> None"
    using uid_loop_assigns [OF b [unfolded build_clause_uid_map_def]] by fastforce
  then have crows: "crows = map (clause_row_of uids vid) (List.enumerate 1 (filter persistable (walk t2)))"
    using 4(1) by (simp add: clause_insert_rows_def clause_rows_of_eq)
  have le: "next_uuid db3 \<le> fresh" using uid_loop_frame b unfolding build_clause_uid_map_def by blast
  have db': "db' = db3\<lparr>next_uuid := fresh, clauses := clauses db3 @ crows,
      events := events db3 @ change_event_insert_rows evs uids prev ?d vid (d_jurisdiction doc) (d_sector doc) None\<rparr>"
    using insert_clauses_frame [OF 4(2)] insert_events_frame [OF 4(3)] by simp
  have "corpus_ok db'"
  proof (rule corpus_ok_grow [OF ok3])
    have "c_version row = vid" if "row \<in> set crows" for row using that by (auto simp: crows clause_row_of_def)
    then show "\<forall>r \<in> set (clauses db'). r \<in> set (clauses db3) \<or> c_version r < next_uuid db' \<and> pg_text (c_path r) \<and> pg_text (c_text r)"
      using insert_clauses_texts [OF 4(2)] le v3 unfolding db' by fastforce
  qed (use le in \<open>simp_all add: db'\<close>)
  then show ?thesis
    by (intro that [of vid uids prev rows1 fresh]) (use first v3 b le in \<open>simp_all add: db' crows walk_for_persistence_def\<close>)
qed

lemma stage_one_pairD:
  assumes "stage_one_pair env now pair db = Inr (db', outcome)"
  obtains (skipped) "db' = db" "outcome = None"
      "find_document (corpus db) (sp_lawstronaut pair) = None
        \<or> (\<exists>doc. find_document (corpus db) (sp_lawstronaut pair) = Some doc \<and> has_versions (corpus db) (d_id doc))"
  | (staged) doc b1 b2 t1 t2 evs c where "find_document (corpus db) (sp_lawstronaut pair) = Some doc"
      "\<not> has_versions (corpus db) (d_id doc)" "sp_v1 pair = Inr b1" "sp_v2 pair = Inr b2"
      "pair_trees env (utf8_decode b1) (utf8_decode b2) = Inr (t1, t2, evs)"
      "persist_pair env pair now doc b1 b2 (t1, t2, evs) (corpus db) = Inr c"
      "db' = park_schedule (d_id doc) (db\<lparr>corpus := c\<rparr>)"
      "outcome = Some (length (filter persistable (walk t1)) + length (filter persistable (walk t2)), length evs)"
proof (cases "find_document (corpus db) (sp_lawstronaut pair)")
  case None
  then show ?thesis using assms skipped by (simp add: stage_one_pair_def)
next
  case (Some doc)
  show ?thesis
  proof (cases "has_versions (corpus db) (d_id doc)")
    case True
    then show ?thesis using assms skipped Some by (simp add: stage_one_pair_def)
  next
    case False
    then show ?thesis using assms staged [OF Some False] Some
      by (auto simp: stage_one_pair_def bindE_eq_Inr walk_for_persistence_def)
  qed
qed

lemma stage_one_pair_ok:
  assumes "stage_one_pair env now pair db = Inr (db', outcome)" "seed_ok db"
  shows "seed_ok db'"
  using assms(1)
proof (cases rule: stage_one_pairD)
  case (staged doc b1 b2 t1 t2 evs c)
  have "corpus_ok (corpus db)" "documents_ok (corpus db)" "keyed db" using assms(2) by (auto simp: seed_ok_def)
  then have "corpus_ok c \<and> documents c = documents (corpus db) \<and> next_uuid (corpus db) \<le> next_uuid c"
    using persist_pairD [OF staged(6) _ staged(2)] by metis
  then show ?thesis
    using documents_ok_grow [of "corpus db" c] assms(2) by (simp add: seed_ok_def staged(7) keyed_def)
qed (use assms in simp)

lemma stage_pairs_ok:
  "seed_ok db \<Longrightarrow> seed_ok (fst (stage_pairs env now pairs db res))"
proof (induction env now pairs db res rule: stage_pairs.induct)
  case (2 env now pair pairs db res)
  show ?case
  proof (cases "find_document (corpus db) (sp_lawstronaut pair)")
    case None
    then show ?thesis using 2 by simp
  next
    case (Some doc)
    show ?thesis
    proof (cases "has_versions (corpus db) (d_id doc)")
      case True
      then show ?thesis using 2 Some by simp
    next
      case False
      show ?thesis
      proof (cases "stage_one_pair env now pair db")
        case (Inl e)
        then show ?thesis using "2.prems" Some False by simp
      next
        case (Inr r)
        obtain db' outcome where r: "r = (db', outcome)" by (cases r)
        have "seed_ok db'" using stage_one_pair_ok Inr "2.prems" unfolding r by blast
        then show ?thesis using "2.IH" Some False Inr r by (cases outcome) auto
      qed
    qed
  qed
qed simp

text \<open>A parked document is not claimed before the end of 2026.\<close>

lemma parked_not_claimed:
  assumes "now < staged_next_poll_at"
  shows "d \<notin> set (claim now threshold batch locked (park_schedule d db))"
proof
  assume c: "d \<in> set (claim now threshold batch locked (park_schedule d db))"
  from claim_due [OF c] obtain r where r: "r \<in> set (schedule (park_schedule d db))" "s_document r = d" "due now threshold r"
    by blast
  from r(1) have "r \<in> (\<lambda>q. if s_document q = d then q\<lparr>s_next := staged_next_poll_at\<rparr> else q) ` set (schedule db)"
    by (simp add: park_schedule_def update_schedule_def)
  then obtain r0 where "r = (if s_document r0 = d then r0\<lparr>s_next := staged_next_poll_at\<rparr> else r0)"
    by (rule imageE)
  then have "s_next r = staged_next_poll_at" using r(2) by (cases "s_document r0 = d") simp_all
  then show False using assms r(3) by (simp add: due_def)
qed


section \<open>Seeding and polling together\<close>

lemma poll_documents:
  assumes "poll_document env d now fetched blobs db = (blobs', Inr db')"
  shows "documents db' = documents db" "next_uuid db \<le> next_uuid db'"
proof -
  have "documents db' = documents db \<and> next_uuid db \<le> next_uuid db'"
    using assms
  proof (cases rule: poll_documentD)
    case (changed doc body)
    from changed(5) obtain scope tree prev_tree prev_uids evs where
      pv: "persist_version env d now doc body (live_version db d) scope tree evs prev_uids db = Inr db'"
      by (rule poll_changedD)
    obtain uids vid where b: "build_clause_uid_map tree evs prev_uids (next_uuid db) = (uids, vid)"
      and "documents db' = documents db" "next_uuid db' = Suc vid"
      by (rule persist_versionD [OF pv]) simp
    moreover have "next_uuid db \<le> vid" using uid_loop_frame b unfolding build_clause_uid_map_def by blast
    ultimately show ?thesis by simp
  qed simp_all
  then show "documents db' = documents db" "next_uuid db \<le> next_uuid db'" by auto
qed

lemma worker_poll_seed_ok:
  assumes "worker_poll env fetch clock w (corpus db) d = (w', Inr c)" "seed_ok db"
  shows "seed_ok (mark_ok now d (db\<lparr>corpus := c\<rparr>))"
proof -
  obtain blobs' where p: "poll_document env d (clock (snd w)) (fetch (snd w) d) (fst w) (corpus db) = (blobs', Inr c)"
    using assms(1) by (auto simp: worker_poll_def split: prod.splits)
  have "corpus_ok c" "documents_ok c"
    using poll_corpus_ok [OF _ p] documents_ok_grow [OF _ poll_documents [OF p]] assms(2) by (auto simp: seed_ok_def)
  then show ?thesis using assms(2) by (simp add: seed_ok_def mark_ok_def keyed_update) (simp add: update_schedule_def keyed_def)
qed

lemma record_failure_seed_ok:
  assumes "record_failure threshold now d e db = Inr (db', k)" "seed_ok db"
  shows "seed_ok db'"
  using record_failureD [OF assms(1)] assms(2)
  by (auto simp: seed_ok_def keyed_def o_def if_distrib [of s_document] cong: if_cong)

lemma tick_rows_seed_ok:
  assumes "tick_rows (worker_poll env fetch clock) threshold now ds w db n = (w', n', Inr db')" "seed_ok db"
  shows "seed_ok db'"
  using assms
proof (induction ds arbitrary: w db n)
  case (Cons d ds)
  obtain w1 r where p: "worker_poll env fetch clock w (corpus db) d = (w1, r)" by fastforce
  show ?case
  proof (cases r)
    case (Inr c)
    then show ?thesis
      using Cons.IH [of w1 "mark_ok now d (db\<lparr>corpus := c\<rparr>)" n] Cons.prems p worker_poll_seed_ok [of env fetch clock w db d w1 c now]
      by simp
  next
    case (Inl e)
    then obtain db1 k where f: "record_failure threshold now d e db = Inr (db1, k)"
      using Cons.prems(1) p by (auto split: sum.splits)
    then show ?thesis
      using Cons.IH [of w1 db1 "n + k"] Cons.prems p Inl record_failure_seed_ok [OF f] by simp
  qed
qed simp

text \<open>
  The databases that runs of the seed, stagings and ticks of the worker reach from an empty one.
  \<open>now\<close>, the environment and the arguments may differ from step to step.
\<close>

definition fresh_db :: ingest_db where
  "fresh_db = \<lparr>corpus = \<lparr>documents = [], versions = [], clauses = [], events = [], next_uuid = 0\<rparr>,
     schedule = [], incidents = []\<rparr>"

inductive reached :: "ingest_db \<Rightarrow> bool" where
  start: "reached fresh_db"
| seed: "reached db \<Longrightarrow> run_seed lib env args dry tx db = Inr (db', res) \<Longrightarrow> reached db'"
| stage: "reached db \<Longrightarrow> stage_synthetic_v2 env now pairs dry db = (db', outcome) \<Longrightarrow> reached db'"
| ticked: "reached (idb wk) \<Longrightarrow> tick (worker_poll env fetch clock) cfg now locked wk = (wk', outcome') \<Longrightarrow> reached (idb wk')"

lemma reached_ok: "reached db \<Longrightarrow> seed_ok db"
proof (induction rule: reached.induct)
  case start
  show ?case by (simp add: seed_ok_def corpus_ok_def history_ok_def documents_ok_def keyed_def fresh_db_def)
next
  case (seed db lib env args dry tx db' res)
  then show ?case using run_seed_ok by blast
next
  case (stage db env now pairs dry db' outcome)
  then show ?case using stage_pairs_ok [of db env now pairs nothing_staged] by (cases dry) (auto simp: stage_synthetic_v2_def)
next
  case (ticked wk env fetch clock cfg now locked wk' outcome')
  obtain w' n r where t: "tick_rows (worker_poll env fetch clock) (failure_threshold cfg) now
      (claim now (failure_threshold cfg) (batch_size cfg) locked (idb wk)) (world wk) (idb wk)
      (incidents_written (loop_state wk)) = (w', n, r)"
    by (rule prod_cases3)
  show ?case
  proof (cases r)
    case (Inl e)
    then show ?thesis using ticked(2,3) unfolding tick_def Let_def t Inl by auto
  next
    case (Inr db')
    have "idb wk' = db'" using ticked(2) unfolding tick_def Let_def t Inr by auto
    then show ?thesis using tick_rows_seed_ok [OF t [unfolded Inr] ticked(3)] by simp
  qed
qed

end
