(* ===== verification/Seed_Properties.thy ===== *)
theory Seed_Properties
  imports Seed_Correct Ingestion_Properties
begin

text \<open>
  The properties of seeding, alone and together with the worker, with their witnesses.
\<close>

section \<open>Sample inputs\<close>

definition sample_lib :: seed_lib where
  "sample_lib = \<lparr>lib_yaml = (\<lambda>_. Inl ValueError), lib_show = (\<lambda>_. ''?''), lib_float = (\<lambda>_. Inl ValueError),
     lib_lower = (\<lambda>s. if s = ''UK'' then ''uk'' else s)\<rparr>"

definition sample_args :: seed_args where
  "sample_args = \<lparr>sa_curated = \<lparr>cs_jurisdictions = {''UK''}, cs_sectors = [''energy''], cs_cadence = Finite 24, cs_overrides = []\<rparr>,
     sa_fixtures = [[(''iso'', YStr ''UK''), (''document_id'', YStr ''L7''), (''title'', YStr ''Act'')]],
     sa_now = 100, sa_samples = Some (\<lambda>f. if f = ''uk-L7-v1.md'' then Some [97] else None), sa_skip_v1 = {}\<rparr>"

lemma sample_payload:
  "bindE (read_text [97]) (compute_v1_staging_payload sample_env) =
     Inr \<lparr>pl_clauses = [Clause [] None (u ''a'') None []], pl_bytes = 1, pl_sha = replicate 32 1\<rparr>"
proof -
  have "parse (env_unidb sample_env) default_parser_config (env_tokens sample_env [97]) = Inr (Clause [] None (u ''a'') None [])"
    using sample_parse by (simp add: sample_doc_def u_def)
  moreover have "walk_for_persistence (Clause [] None (u ''a'') None []) = [Clause [] None (u ''a'') None []]"
    by (simp add: walk_for_persistence_def persistable_def u_def strip_def lstrip_def rstrip_def isspace_def)
  ultimately show ?thesis
    by (simp add: read_text_def compute_v1_staging_payload_def utf8_encode_def surrogate_def utf8_char_def)
      (simp add: sample_env_def)
qed

lemma sample_plan:
  "select sample_lib (sa_curated sample_args) (sa_fixtures sample_args) =
     Inr ([\<lparr>p_lawstronaut = ''L7'', p_jurisdiction = ''UK'', p_sector = ''energy'', p_title = ''Act'', p_cadence = 86400000000\<rparr>], [])"
  by (simp add: select_def sample_args_def in_scope_def fixture_get_def pending_of_def overridden_def
      default_sector_def round_half_even_def Let_def)

text \<open>The first run stages the one document.\<close>

lemma sample_seed: "\<exists>db res. run_seed sample_lib sample_env sample_args False 5 fresh_db = Inr (db, res)
    \<and> documents_inserted res = 1 \<and> v1_documents_staged res = 1 \<and> v1_clauses_inserted res = 1"
proof -
  have "stagger [\<lparr>p_lawstronaut = ''L7'', p_jurisdiction = ''UK'', p_sector = ''energy'', p_title = ''Act'', p_cadence = 86400000000\<rparr>]
      (sa_now sample_args) = Inr [\<lparr>p_lawstronaut = ''L7'', p_jurisdiction = ''UK'', p_sector = ''energy'', p_title = ''Act'',
        p_cadence = 86400000000, p_next = 100\<rparr>]"
    by (simp add: stagger_def stagger_row_def offset_at_def bucket_def Let_def round_half_even_def
      pending_row.defs seed_row.defs max_datetime_def sample_args_def)
  then show ?thesis
    by (simp add: run_seed_def sample_plan)
      (simp add: seed_one_def insert_document_def fresh_db_def insert_schedule_def sample_args_def stage_v1_def
        fixture_get_def sample_lib_def sample_payload insert_v1_only_def has_versions_def insert_version_row_def
        staged_version_def insert_clause_def pg_text_def pg_text_opt_def u_def path_str_def surrogate_def no_rows_def)
qed

section \<open>Claims\<close>

text \<open>C3. Whatever runs of the seed, stagings of synthetic versions and ticks of the worker, in any order and
  with any arguments, do to an empty database, it stays well formed: upstream ids and document ids are
  unique, a document has one schedule row, the versions of a document are numbered from 1 without gaps,
  and at most one of them is open.\<close>

theorem reached_database_well_formed:
  assumes "reached db"
  shows "corpus_ok (corpus db) \<and> documents_ok (corpus db) \<and> keyed db
    \<and> (\<forall>r \<in> set (versions (corpus db)). \<forall>q \<in> set (versions (corpus db)).
         v_document r = v_document q \<and> v_to r = None \<and> v_to q = None \<longrightarrow> r = q)"
proof -
  have ok: "seed_ok db" by (rule reached_ok [OF assms])
  then have "history_ok (versions (corpus db)) (next_uuid (corpus db))" by (simp add: seed_ok_def corpus_ok_def)
  then show ?thesis using ok history_ok_one_open unfolding seed_ok_def by blast
qed

lemma reached_database_well_formed_witness:
  "\<exists>db res. run_seed sample_lib sample_env sample_args False 5 fresh_db = Inr (db, res) \<and> v1_documents_staged res = 1
     \<and> corpus_ok (corpus db) \<and> documents_ok (corpus db) \<and> keyed db"
proof -
  obtain db res where run: "run_seed sample_lib sample_env sample_args False 5 fresh_db = Inr (db, res)"
    "v1_documents_staged res = 1" using sample_seed by blast
  show ?thesis using run reached_database_well_formed [OF reached.seed [OF reached.start run(1)]] by blast
qed

text \<open>A second run of the seed over the same curated set and fixtures writes nothing, at whatever later
  time and with whatever samples: it succeeds whenever its dry run does, leaves the database as the
  first run left it, and counts every planned document as skipped.\<close>

theorem reseed_changes_nothing:
  assumes "run_seed lib env args False tx db = Inr (db1, res)"
    and "sa_curated args' = sa_curated args" "sa_fixtures args' = sa_fixtures args"
  shows "run_seed lib env args' False tx' db1 =
    bindE (run_seed lib env args' True tx' db1) (\<lambda>(_, plan).
      Inr (db1, no_rows\<lparr>documents_skipped_conflict := documents_inserted plan\<rparr>))"
  by (rule run_seed_again [OF assms])

lemma reseed_changes_nothing_witness:
  "\<exists>db res. run_seed sample_lib sample_env sample_args False 5 fresh_db = Inr (db, res) \<and> documents_inserted res = 1
     \<and> run_seed sample_lib sample_env sample_args False 9 db = Inr (db, no_rows\<lparr>documents_skipped_conflict := 1\<rparr>)"
proof -
  obtain db res where run: "run_seed sample_lib sample_env sample_args False 5 fresh_db = Inr (db, res)" "documents_inserted res = 1"
    using sample_seed by blast
  have "run_seed sample_lib sample_env sample_args True 9 db = Inr (db, no_rows\<lparr>documents_inserted := 1, schedules_inserted := 1\<rparr>)"
    by (simp add: run_seed_def sample_plan)
       (simp add: stagger_def stagger_row_def offset_at_def bucket_def Let_def round_half_even_def
          pending_row.defs seed_row.defs max_datetime_def sample_args_def)
  then show ?thesis using run reseed_changes_nothing [OF run(1), of sample_args 9] by simp
qed

text \<open>C22. A staged pair leaves its document with a closed version 1 and a live version 2 that begins when
  version 1 ends, with the events of the alignment of the two texts attached to version 2 under the
  document's scope, and nothing else is changed; no tick before the end of 2026 claims the document.\<close>

theorem staged_pair_outcome:
  assumes "seed_ok db" "stage_one_pair env now pair db = Inr (db', Some (n, m))"
  shows "\<exists>doc v1 v2 evs rows crows.
     find_document (corpus db) (sp_lawstronaut pair) = Some doc
     \<and> (\<exists>t1 t2. pair_trees env (bindE (sp_v1 pair) utf8_decode) (bindE (sp_v2 pair) utf8_decode) = Inr (t1, t2, evs))
     \<and> versions (corpus db') = versions (corpus db) @ [v1, v2]
     \<and> v_no v1 = Some 1 \<and> v_to v1 = Some now \<and> v_no v2 = Some 2 \<and> v_from v2 = Some now
     \<and> live_version (corpus db') (d_id doc) = Some v2
     \<and> events (corpus db') = events (corpus db) @ rows \<and> length rows = m
     \<and> map (\<lambda>r. (e_type r, e_before_text r, e_after_text r)) rows = map (\<lambda>ev. (change_type ev, before_text ev, after_text ev)) evs
     \<and> (\<forall>r \<in> set rows. e_document r = d_id doc \<and> e_version r = v_id v2 \<and> (e_jurisdiction r, e_sector r) = (d_jurisdiction doc, d_sector doc))
     \<and> clauses (corpus db') = clauses (corpus db) @ crows \<and> length crows = n
     \<and> (\<forall>t < staged_next_poll_at. \<forall>threshold batch locked. d_id doc \<notin> set (claim t threshold batch locked db'))"
  using assms(2)
proof (cases rule: stage_one_pairD)
  case (staged doc b1 b2 t1 t2 evs c)
  have ok: "corpus_ok (corpus db)" using assms(1) by (simp add: seed_ok_def)
  obtain vid uids prev rows1 fresh where p:
    "versions c = versions (corpus db) @
        [(staged_version (d_id doc) ''v1'' 1 now (Some now) ''samples'' (file_name (sp_v1_name pair)) (env_sha256 env b1) (length b1))
            \<lparr>v_id := next_uuid (corpus db)\<rparr>,
         (staged_version (d_id doc) ''v2-synthetic'' 2 now None ''synthetic_v2'' (file_name (sp_v2_name pair)) (env_sha256 env b2) (length b2))
            \<lparr>v_id := vid\<rparr>]"
    "events c = events (corpus db) @ change_event_insert_rows evs uids prev (d_id doc) vid (d_jurisdiction doc) (d_sector doc) None"
    "clauses c = clauses (corpus db) @ rows1 @ map (clause_row_of uids vid) (List.enumerate 1 (filter persistable (walk t2)))"
    "length rows1 = length (filter persistable (walk t1))"
    "corpus_ok c"
    by (rule persist_pairD [OF staged(6) ok staged(2)])
  let ?v1 = "(staged_version (d_id doc) ''v1'' 1 now (Some now) ''samples'' (file_name (sp_v1_name pair)) (env_sha256 env b1) (length b1))
    \<lparr>v_id := next_uuid (corpus db)\<rparr>"
  let ?v2 = "(staged_version (d_id doc) ''v2-synthetic'' 2 now None ''synthetic_v2'' (file_name (sp_v2_name pair)) (env_sha256 env b2) (length b2))
    \<lparr>v_id := vid\<rparr>"
  have live: "live_version c (d_id doc) = Some ?v2"
    by (rule live_version_eq [where k = "next_uuid c"]) (use p(1,5) in \<open>simp_all add: corpus_ok_def\<close>)
  have c: "corpus db' = c" by (simp add: staged(7))
  have claimed: "\<forall>t < staged_next_poll_at. \<forall>threshold batch locked. d_id doc \<notin> set (claim t threshold batch locked db')"
    unfolding staged(7) by (intro allI impI parked_not_claimed)
  have fields: "map (\<lambda>r. (e_type r, e_before_text r, e_after_text r)) rows = map (\<lambda>ev. (change_type ev, before_text ev, after_text ev)) evs
      \<and> length rows = length evs
      \<and> (\<forall>r \<in> set rows. e_document r = d_id doc \<and> e_version r = vid \<and> (e_jurisdiction r, e_sector r) = (d_jurisdiction doc, d_sector doc))"
    if "rows = change_event_insert_rows evs uids prev (d_id doc) vid (d_jurisdiction doc) (d_sector doc) None" for rows
    using that by (auto simp: change_event_insert_rows_def event_row_of_def Let_def)
  have len: "length (rows1 @ map (clause_row_of uids vid) (List.enumerate 1 (filter persistable (walk t2)))) = n"
    using staged(8) p(4) by simp
  show ?thesis
    by (rule exI [of _ doc], rule exI [of _ ?v1], rule exI [of _ ?v2], rule exI [of _ evs],
        rule exI [of _ "change_event_insert_rows evs uids prev (d_id doc) vid (d_jurisdiction doc) (d_sector doc) None"],
        rule exI [of _ "rows1 @ map (clause_row_of uids vid) (List.enumerate 1 (filter persistable (walk t2)))"],
        intro conjI) (use staged(1,3,4,5,8) len p fields live c claimed in simp_all)
qed simp

text \<open>The seeded document of another run, without samples, and a pair of equal texts for it.\<close>

definition sample_pair :: synthetic_pair where
  "sample_pair = \<lparr>sp_lawstronaut = ''L7'', sp_v1_name = ''uk-L7-v1.md'', sp_v2_name = ''v2/uk-L7.md'',
     sp_v1 = Inr [97], sp_v2 = Inr [97]\<rparr>"

definition sample_seeded :: ingest_db where
  "sample_seeded = \<lparr>corpus = empty_corpus, schedule = [], incidents = []\<rparr>"

lemma staged_pair_outcome_witness:
  "\<exists>db'. stage_one_pair sample_env 50 sample_pair sample_seeded = Inr (db', Some (2, 0))
     \<and> (\<exists>v. live_version (corpus db') 7 = Some v)"
proof -
  have ok: "seed_ok sample_seeded"
    using empty_corpus_ok by (simp add: seed_ok_def sample_seeded_def documents_ok_def keyed_def) (simp add: empty_corpus_def)
  let ?t = "Clause [] None [97] None []"
  have "parse (env_unidb sample_env) default_parser_config (env_tokens sample_env [97]) = Inr ?t"
    using sample_parse by (simp add: sample_doc_def u_def)
  moreover have "align (env_minhash sample_env) (env_lsh sample_env) ?t ?t (env_tuning sample_env) = Inr []"
  proof -
    have "bodied ?t = [?t]" by (simp add: bodied_def strip_def lstrip_def rstrip_def isspace_def)
    then have "signable sample_minhash default_tuning_config ?t"
      by (intro encodable_sample) (simp add: encodable_def surrogate_def)
    then show ?thesis
      by (simp add: sample_env_def align_tuning_None)
        (rule align_same_clauses [OF default_tuning_valid sample_minhash_sized], simp_all add: list_all2_refl same_clause_def)
  qed
  ultimately have trees: "pair_trees sample_env (Inr [97]) (Inr [97]) = Inr (?t, ?t, [])"
    by (simp add: pair_trees_def)
  have w: "walk_for_persistence ?t = [?t]"
    by (simp add: walk_for_persistence_def persistable_def u_def strip_def lstrip_def rstrip_def isspace_def)
  then have f: "filter persistable (walk ?t) = [?t]" by (simp add: walk_for_persistence_def)
  have pt: "persistable ?t" by (simp add: persistable_def strip_def lstrip_def rstrip_def isspace_def)
  have wt: "walk ?t = [?t]" by simp
  have "\<exists>c. persist_pair sample_env sample_pair 50 (hd (documents empty_corpus)) [97] [97] (?t, ?t, []) empty_corpus = Inr c"
    by (simp add: persist_pair_def empty_corpus_def insert_version_row_def staged_version_def sample_env_def w
        insert_clause_def pg_text_def pg_text_opt_def u_def path_str_def surrogate_def build_uid_map_for_v2_def
        clause_insert_rows_def clause_rows_of.simps change_event_insert_rows_def Let_def pt)
  then obtain c where c: "persist_pair sample_env sample_pair 50 (hd (documents empty_corpus)) [97] [97] (?t, ?t, []) empty_corpus = Inr c" by blast
  have s: "stage_one_pair sample_env 50 sample_pair sample_seeded = Inr (park_schedule 7 (sample_seeded\<lparr>corpus := c\<rparr>), Some (2, 0))"
    using trees c by (simp add: stage_one_pair_def sample_pair_def sample_seeded_def find_document_def has_versions_def w)
      (simp add: empty_corpus_def has_versions_def w)
  obtain doc v where "find_document empty_corpus ''L7'' = Some doc"
    "live_version (corpus (park_schedule 7 (sample_seeded\<lparr>corpus := c\<rparr>))) (d_id doc) = Some v"
    using staged_pair_outcome [OF ok s] by (auto simp: sample_pair_def sample_seeded_def)
  moreover have "find_document empty_corpus ''L7'' = Some (hd (documents empty_corpus))"
    by (simp add: find_document_def empty_corpus_def)
  ultimately have "live_version (corpus (park_schedule 7 (sample_seeded\<lparr>corpus := c\<rparr>))) 7 = Some v"
    by (auto simp: empty_corpus_def)
  then show ?thesis using s by blast
qed

end
