(* ===== verification/Tenancy.thy ===== *)
theory Tenancy
  imports Corpus_DB "HOL-Library.List_Lexorder" "HOL-Library.Char_ord"
begin

text \<open>
  The tenancy tables and the row-level security of PostgreSQL that every request of the API runs
  under: users, subscriptions and their scopes, watchlists, refresh tokens and the admin access
  log (migrations 0002, 0005, 0006, 0008, 0009, 0011, 0013, 0014), the session a request works in
  (\<open>db/session.py\<close>), the scope function \<open>app_private.current_scope()\<close>, the policies of each
  table and the contract of a table whose rows have an owner.
\<close>

section \<open>Rows\<close>

datatype user_role = Client | Admin

record user_row =
  us_id :: uuid
  us_email :: string
  us_password_hash :: string
  us_role :: user_role
  us_created :: timestamp

record subscription_row =
  sub_id :: uuid
  sub_user :: uuid
  sub_from :: timestamp
  sub_to :: "timestamp option"
  sub_created :: timestamp

record scope_row =
  sc_subscription :: uuid
  sc_jurisdiction :: string
  sc_sector :: string
  sc_to :: "timestamp option"

record watchlist_row =
  w_id :: uuid
  w_user :: uuid
  w_document :: uuid
  w_name :: string
  w_active :: bool
  w_created :: timestamp

record refresh_row =
  rt_jti :: uuid
  rt_user :: uuid
  rt_issued :: timestamp
  rt_expires :: timestamp
  rt_revoked :: "timestamp option"

datatype access_mode = Operator | Impersonation

record access_log_row =
  al_id :: uuid
  al_admin :: uuid
  al_target :: "uuid option"
  al_mode :: access_mode
  al_token :: "uuid option"
  al_reason :: "string option"
  al_at :: timestamp

text \<open>
  A row of \<open>change_events\<close> as it is read back: what the worker inserted with the \<open>bigserial\<close> id
  and the default \<open>detected_at\<close>.
\<close>

record stored_event = event_row +
  ev_id :: int
  ev_detected :: timestamp

text \<open>
  \<open>library\<close> holds the other corpus tables; two of their columns, which the statements of the worker leave
  to their defaults, are kept beside it: \<open>created_at\<close> of a version and \<open>id\<close> of a clause, which is
  unique by version and path. \<open>t_next\<close> supplies the \<open>uuidv7()\<close> defaults.
\<close>

record api_db =
  users :: "user_row list"
  subscriptions :: "subscription_row list"
  scopes :: "scope_row list"
  watchlists :: "watchlist_row list"
  refresh_tokens :: "refresh_row list"
  access_log :: "access_log_row list"
  library :: corpus
  change_events :: "stored_event list"
  version_created :: "uuid \<Rightarrow> timestamp"
  clause_id :: "uuid \<times> ustr \<Rightarrow> uuid"
  t_next :: uuid

section \<open>The session bracket\<close>

datatype db_role = Login | Api_app | Ingestion_worker | Admin_bypass | Schema_owner

text \<open>
  One transaction: the role set by \<open>SET LOCAL ROLE\<close>, the two settings the code binds, and
  \<open>now()\<close>, the time the transaction began. A setting that is absent or empty is \<open>None\<close>.
\<close>

record db_session =
  ss_role :: db_role
  ss_user :: "uuid option"
  ss_admin :: "uuid option"
  ss_now :: timestamp

definition unauthenticated_session :: "timestamp \<Rightarrow> db_session" where
  "unauthenticated_session t = \<lparr>ss_role = Login, ss_user = None, ss_admin = None, ss_now = t\<rparr>"

definition session_for_user :: "uuid \<Rightarrow> timestamp \<Rightarrow> db_session" where
  "session_for_user uid t = \<lparr>ss_role = Login, ss_user = Some uid, ss_admin = None, ss_now = t\<rparr>"

definition bind_app_user_id :: "uuid \<Rightarrow> db_session \<Rightarrow> db_session" where
  "bind_app_user_id uid ss = ss\<lparr>ss_user := Some uid\<rparr>"

definition bind_impersonation_admin_id :: "uuid \<Rightarrow> db_session \<Rightarrow> db_session" where
  "bind_impersonation_admin_id aid ss = ss\<lparr>ss_admin := Some aid\<rparr>"

definition role_of_name :: "string \<Rightarrow> db_role option" where
  "role_of_name r =
     (if r = ''admin_bypass'' then Some Admin_bypass else if r = ''api_app'' then Some Api_app else None)"

definition set_local_role :: "string \<Rightarrow> db_session \<Rightarrow> db_session result" where
  "set_local_role r ss =
     (case role_of_name r of None \<Rightarrow> Inl ValueError | Some rl \<Rightarrow> Inr (ss\<lparr>ss_role := rl\<rparr>))"

definition session_for_request :: "uuid \<Rightarrow> timestamp \<Rightarrow> db_session result" where
  "session_for_request uid t = set_local_role ''api_app'' (session_for_user uid t)"

abbreviation client_session :: "uuid \<Rightarrow> timestamp \<Rightarrow> db_session" where
  "client_session uid t \<equiv> \<lparr>ss_role = Api_app, ss_user = Some uid, ss_admin = None, ss_now = t\<rparr>"

lemma session_for_request_eq [simp]: "session_for_request uid t = Inr (client_session uid t)"
  by (simp add: session_for_request_def session_for_user_def set_local_role_def role_of_name_def)

text \<open>A transaction commits the state its body returns and keeps the old one when it raises.\<close>

definition transaction :: "('db \<Rightarrow> ('db \<times> 'a) result) \<Rightarrow> 'db \<Rightarrow> 'db \<times> 'a result" where
  "transaction body db = (case body db of Inl e \<Rightarrow> (db, Inl e) | Inr (db', x) \<Rightarrow> (db', Inr x))"

section \<open>current_scope\<close>

definition open_at :: "timestamp \<Rightarrow> timestamp option \<Rightarrow> bool" where
  "open_at t vt = (case vt of None \<Rightarrow> True | Some e \<Rightarrow> t < e)"

definition scope_of :: "api_db \<Rightarrow> timestamp \<Rightarrow> uuid \<Rightarrow> (string \<times> string) list" where
  "scope_of db t uid =
     remdups [(sc_jurisdiction ss, sc_sector ss). ss \<leftarrow> scopes db, s \<leftarrow> subscriptions db,
       sub_id s = sc_subscription ss, sub_user s = uid, sub_from s \<le> t, open_at t (sub_to s),
       open_at t (sc_to ss)]"

definition current_scope :: "db_session \<Rightarrow> api_db \<Rightarrow> (string \<times> string) list result" where
  "current_scope ss db =
     (case ss_user ss of
        None \<Rightarrow> Inl (DbError RaiseException)
      | Some uid \<Rightarrow> Inr (scope_of db (ss_now ss) uid))"

lemma set_scope_of:
  "(j, k) \<in> set (scope_of db t uid) \<longleftrightarrow>
     (\<exists>ss \<in> set (scopes db). \<exists>s \<in> set (subscriptions db).
        sc_jurisdiction ss = j \<and> sc_sector ss = k \<and> sub_id s = sc_subscription ss \<and> sub_user s = uid
        \<and> sub_from s \<le> t \<and> open_at t (sub_to s) \<and> open_at t (sc_to ss))"
  by (auto simp: scope_of_def)

section \<open>Policies of the corpus tables\<close>

fun filterE :: "('a \<Rightarrow> 'e + bool) \<Rightarrow> 'a list \<Rightarrow> 'e + 'a list" where
  "filterE p [] = Inr []"
| "filterE p (x # xs) = bindE (p x) (\<lambda>b. bindE (filterE p xs) (\<lambda>ys. Inr (if b then x # ys else ys)))"

lemma filterE_total: "(\<And>x. x \<in> set xs \<Longrightarrow> p x = Inr (q x)) \<Longrightarrow> filterE p xs = Inr (filter q xs)"
  by (induction xs) auto

lemma filterE_Inr [simp]: "filterE (\<lambda>x. Inr (q x)) xs = Inr (filter q xs)"
  by (rule filterE_total) simp

definition doc_pair :: "document_row \<Rightarrow> string \<times> string" where
  "doc_pair d = (d_jurisdiction d, d_sector d)"

text \<open>
  What a role reads of a table with forced row-level security: \<open>api_app\<close> through the policy,
  \<open>admin_bypass\<close> everything; \<open>passes\<close> lists the roles with a \<open>USING (true)\<close> policy. Without one the
  table owner reads nothing and the worker has no privilege.
\<close>

definition rls_read ::
  "db_role list \<Rightarrow> db_session \<Rightarrow> ('row \<Rightarrow> bool result) \<Rightarrow> 'row list \<Rightarrow> 'row list result" where
  "rls_read passes ss policy rows =
     (case ss_role ss of
        Api_app \<Rightarrow> filterE policy rows
      | Admin_bypass \<Rightarrow> Inr rows
      | Ingestion_worker \<Rightarrow> if Ingestion_worker \<in> set passes then Inr rows else Inl (DbError InsufficientPrivilege)
      | Schema_owner \<Rightarrow> Inr (if Schema_owner \<in> set passes then rows else [])
      | Login \<Rightarrow> Inl (DbError InsufficientPrivilege))"

definition documents_in_scope :: "db_session \<Rightarrow> api_db \<Rightarrow> document_row \<Rightarrow> bool result" where
  "documents_in_scope ss db d = bindE (current_scope ss db) (\<lambda>cs. Inr (doc_pair d \<in> set cs))"

definition select_documents :: "db_session \<Rightarrow> api_db \<Rightarrow> document_row list result" where
  "select_documents ss db =
     rls_read [Ingestion_worker, Schema_owner] ss (documents_in_scope ss db) (documents (library db))"

definition document_versions_in_scope :: "db_session \<Rightarrow> api_db \<Rightarrow> version_row \<Rightarrow> bool result" where
  "document_versions_in_scope ss db v =
     bindE (select_documents ss db) (\<lambda>ds. bindE (current_scope ss db) (\<lambda>cs.
       Inr (\<exists>d \<in> set ds. doc_pair d \<in> set cs \<and> d_id d = v_document v)))"

definition select_versions :: "db_session \<Rightarrow> api_db \<Rightarrow> version_row list result" where
  "select_versions ss db =
     rls_read [Ingestion_worker] ss (document_versions_in_scope ss db) (versions (library db))"

definition clauses_in_scope :: "db_session \<Rightarrow> api_db \<Rightarrow> clause_row \<Rightarrow> bool result" where
  "clauses_in_scope ss db c =
     bindE (select_versions ss db) (\<lambda>vs. bindE (select_documents ss db) (\<lambda>ds. bindE (current_scope ss db) (\<lambda>cs.
       Inr (\<exists>v \<in> set vs. \<exists>d \<in> set ds. d_id d = v_document v \<and> doc_pair d \<in> set cs
              \<and> v_id v = c_version c))))"

definition select_clauses :: "db_session \<Rightarrow> api_db \<Rightarrow> clause_row list result" where
  "select_clauses ss db =
     rls_read [Ingestion_worker] ss (clauses_in_scope ss db) (clauses (library db))"

text \<open>A document is visible to a user at a time when its pair is in the user's scope.\<close>

definition in_scope_of :: "api_db \<Rightarrow> timestamp \<Rightarrow> uuid \<Rightarrow> document_row \<Rightarrow> bool" where
  "in_scope_of db t uid d \<longleftrightarrow> doc_pair d \<in> set (scope_of db t uid)"

lemma current_scope_bound: "ss_user ss = Some uid \<Longrightarrow> current_scope ss db = Inr (scope_of db (ss_now ss) uid)"
  by (simp add: current_scope_def)

lemma select_documents_client:
  assumes "ss_role ss = Api_app" "ss_user ss = Some uid"
  shows "select_documents ss db = Inr (filter (in_scope_of db (ss_now ss) uid) (documents (library db)))"
  using assms
  by (simp add: select_documents_def rls_read_def documents_in_scope_def [abs_def] current_scope_bound
      in_scope_of_def [abs_def])

lemma select_versions_client:
  assumes "ss_role ss = Api_app" "ss_user ss = Some uid"
  shows "select_versions ss db =
    Inr (filter (\<lambda>v. \<exists>d \<in> set (documents (library db)). d_id d = v_document v \<and> in_scope_of db (ss_now ss) uid d)
      (versions (library db)))"
proof -
  have "document_versions_in_scope ss db v =
      Inr (\<exists>d \<in> set (documents (library db)). d_id d = v_document v \<and> in_scope_of db (ss_now ss) uid d)" for v
    by (simp add: document_versions_in_scope_def select_documents_client [OF assms]
        current_scope_bound [OF assms(2)] in_scope_of_def) blast
  then show ?thesis using assms(1) by (simp add: select_versions_def rls_read_def filterE_total)
qed

lemma select_clauses_client:
  assumes "ss_role ss = Api_app" "ss_user ss = Some uid"
  shows "select_clauses ss db =
    Inr (filter (\<lambda>c. \<exists>v \<in> set (versions (library db)). \<exists>d \<in> set (documents (library db)).
        v_id v = c_version c \<and> d_id d = v_document v \<and> in_scope_of db (ss_now ss) uid d)
      (clauses (library db)))"
proof -
  have "clauses_in_scope ss db c =
      Inr (\<exists>v \<in> set (versions (library db)). \<exists>d \<in> set (documents (library db)).
        v_id v = c_version c \<and> d_id d = v_document v \<and> in_scope_of db (ss_now ss) uid d)" for c
    by (simp add: clauses_in_scope_def select_documents_client [OF assms] select_versions_client [OF assms]
        current_scope_bound [OF assms(2)] in_scope_of_def) blast
  then show ?thesis using assms(1) by (simp add: select_clauses_def rls_read_def filterE_total)
qed

end
