(* ===== verification/Owner_Table.thy ===== *)
theory Owner_Table
  imports Tenancy
begin

text \<open>
  Tables whose rows belong to a user: the four owner policies of migrations 0005 and 0008 as
  PostgreSQL applies them to a statement of a session, and the contract that the API relies on,
  with the privacy between clients that follows from it.
\<close>

section \<open>Statements under the owner policies\<close>

text \<open>\<open>user_id = current_setting('app.user_id')::uuid\<close>, an error while the setting is not bound.\<close>

definition owner_policy :: "('row \<Rightarrow> uuid) \<Rightarrow> db_session \<Rightarrow> 'row \<Rightarrow> bool result" where
  "owner_policy owner ss r =
     (case ss_user ss of None \<Rightarrow> Inl (DbError UndefinedSetting) | Some uid \<Rightarrow> Inr (owner r = uid))"

text \<open>INSERT: only \<open>api_app\<close> holds the privilege, and the new row must satisfy WITH CHECK.\<close>

definition owner_insert :: "('row \<Rightarrow> uuid) \<Rightarrow> db_session \<Rightarrow> 'row \<Rightarrow> 'row list \<Rightarrow> 'row list result" where
  "owner_insert owner ss r rows =
     (if ss_role ss \<noteq> Api_app then Inl (DbError InsufficientPrivilege)
      else bindE (owner_policy owner ss r) (\<lambda>ok.
        if ok then Inr (rows @ [r]) else Inl (DbError InsufficientPrivilege)))"

text \<open>UPDATE: USING narrows the rows a client touches, WITH CHECK validates what they become.\<close>

definition owner_update_row ::
  "('row \<Rightarrow> uuid) \<Rightarrow> db_session \<Rightarrow> ('row \<Rightarrow> bool) \<Rightarrow> ('row \<Rightarrow> 'row) \<Rightarrow> 'row \<Rightarrow> 'row result" where
  "owner_update_row owner ss sel f r =
     bindE (owner_policy owner ss r) (\<lambda>mine.
       if mine \<and> sel r
       then bindE (owner_policy owner ss (f r)) (\<lambda>ok.
              if ok then Inr (f r) else Inl (DbError InsufficientPrivilege))
       else Inr r)"

definition owner_update ::
  "('row \<Rightarrow> uuid) \<Rightarrow> db_session \<Rightarrow> ('row \<Rightarrow> bool) \<Rightarrow> ('row \<Rightarrow> 'row) \<Rightarrow> 'row list \<Rightarrow> 'row list result" where
  "owner_update owner ss sel f rows =
     (if ss_role ss \<noteq> Api_app then Inl (DbError InsufficientPrivilege)
      else mapE (owner_update_row owner ss sel f) rows)"

definition owner_delete ::
  "('row \<Rightarrow> uuid) \<Rightarrow> db_session \<Rightarrow> ('row \<Rightarrow> bool) \<Rightarrow> 'row list \<Rightarrow> 'row list result" where
  "owner_delete owner ss sel rows =
     (if ss_role ss \<noteq> Api_app then Inl (DbError InsufficientPrivilege)
      else filterE (\<lambda>r. bindE (owner_policy owner ss r) (\<lambda>mine. Inr (\<not> (mine \<and> sel r)))) rows)"

definition owner_select :: "('row \<Rightarrow> uuid) \<Rightarrow> db_session \<Rightarrow> 'row list \<Rightarrow> 'row list result" where
  "owner_select owner ss = rls_read [] ss (owner_policy owner ss)"

section \<open>A client session\<close>

definition client_of :: "db_session \<Rightarrow> uuid \<Rightarrow> bool" where
  "client_of ss uid \<longleftrightarrow> ss_role ss = Api_app \<and> ss_user ss = Some uid"

lemma client_session_of [simp]: "client_of (client_session uid t) uid"
  by (simp add: client_of_def)

lemma owner_policy_client: "client_of ss uid \<Longrightarrow> owner_policy owner ss = (\<lambda>r. Inr (owner r = uid))"
  by (auto simp: owner_policy_def client_of_def)

lemma owner_select_client:
  "client_of ss uid \<Longrightarrow> owner_select owner ss rows = Inr (filter (\<lambda>r. owner r = uid) rows)"
  by (simp add: owner_select_def rls_read_def owner_policy_client) (simp add: client_of_def)

lemma owner_insert_client:
  "client_of ss uid \<Longrightarrow> owner_insert owner ss r rows =
     (if owner r = uid then Inr (rows @ [r]) else Inl (DbError InsufficientPrivilege))"
  by (simp add: owner_insert_def owner_policy_client) (simp add: client_of_def)

lemma owner_delete_client:
  "client_of ss uid \<Longrightarrow>
     owner_delete owner ss sel rows = Inr (filter (\<lambda>r. \<not> (owner r = uid \<and> sel r)) rows)"
  by (simp add: owner_delete_def owner_policy_client) (simp add: client_of_def)

lemma owner_update_client:
  assumes "client_of ss uid" "\<And>r. owner (f r) = owner r"
  shows "owner_update owner ss sel f rows = Inr (map (\<lambda>r. if owner r = uid \<and> sel r then f r else r) rows)"
proof -
  have "mapE (owner_update_row owner ss sel f) rows
      = Inr (map (\<lambda>r. if owner r = uid \<and> sel r then f r else r) rows)"
    by (rule mapE_total) (auto simp: owner_update_row_def owner_policy_client [OF assms(1)] assms(2))
  then show ?thesis using assms(1) by (simp add: owner_update_def client_of_def)
qed

text \<open>Rows of other owners are the same, in the same order, after a statement of a client.\<close>

abbreviation foreign :: "('row \<Rightarrow> uuid) \<Rightarrow> uuid \<Rightarrow> 'row list \<Rightarrow> 'row list" where
  "foreign owner uid rows \<equiv> filter (\<lambda>r. owner r \<noteq> uid) rows"

lemma owner_insert_foreign:
  "client_of ss uid \<Longrightarrow> owner_insert owner ss r rows = Inr rows' \<Longrightarrow>
     foreign owner uid rows' = foreign owner uid rows"
  by (auto simp: owner_insert_client split: if_splits)

lemma owner_delete_foreign:
  "client_of ss uid \<Longrightarrow> owner_delete owner ss sel rows = Inr rows' \<Longrightarrow>
     foreign owner uid rows' = foreign owner uid rows"
  by (auto simp: owner_delete_client intro: filter_cong)

lemma owner_update_foreign:
  assumes "client_of ss uid" "owner_update owner ss sel f rows = Inr rows'"
  shows "foreign owner uid rows' = foreign owner uid rows"
proof -
  have m: "mapE (owner_update_row owner ss sel f) rows = Inr rows'"
    using assms by (simp add: owner_update_def client_of_def split: if_splits)
  have "list_all2 (\<lambda>r r'. r' = r \<or> owner r = uid \<and> owner r' = uid) rows rows'"
    using m unfolding mapE_Inr_iff
    by (rule list_all2_mono)
      (auto simp: owner_update_row_def owner_policy_client [OF assms(1)] split: if_splits)
  then show ?thesis by (induction rule: list_all2_induct) auto
qed

section \<open>The contract\<close>

text \<open>
  A store with an owner-keyed table: \<open>rows\<close> is what it holds, \<open>sel\<close> what a session sees, and
  \<open>writes ss st st'\<close> says that some operation run in the session turns \<open>st\<close> into \<open>st'\<close>.
\<close>

locale owner_table =
  fixes owner :: "'row \<Rightarrow> uuid"
    and rows :: "'st \<Rightarrow> 'row list"
    and sel :: "db_session \<Rightarrow> 'st \<Rightarrow> 'row list result"
    and writes :: "db_session \<Rightarrow> 'st \<Rightarrow> 'st \<Rightarrow> bool"
  assumes sel_own: "client_of ss uid \<Longrightarrow> sel ss st = Inr (filter (\<lambda>r. owner r = uid) (rows st))"
    and writes_foreign: "client_of ss uid \<Longrightarrow> writes ss st st' \<Longrightarrow>
      foreign owner uid (rows st') = foreign owner uid (rows st)"
begin

text \<open>No client reads a row of another owner.\<close>

lemma sel_owned: "client_of ss uid \<Longrightarrow> sel ss st = Inr rs \<Longrightarrow> r \<in> set rs \<Longrightarrow> owner r = uid"
  by (auto simp: sel_own)

text \<open>What a client sees is not changed by anything another client writes.\<close>

lemma filter_other:
  assumes "uid \<noteq> uid'"
  shows "filter (\<lambda>r. owner r = uid) xs = filter (\<lambda>r. owner r = uid) (foreign owner uid' xs)"
  using assms by (induction xs) auto

lemma sel_undisturbed:
  assumes "client_of ss uid" "client_of ss' uid'" "uid \<noteq> uid'" "writes ss' st st'"
  shows "sel ss st' = sel ss st"
proof -
  have "filter (\<lambda>r. owner r = uid) (rows st') = filter (\<lambda>r. owner r = uid) (rows st)"
    using filter_other [OF assms(3), of "rows st"] filter_other [OF assms(3), of "rows st'"]
      writes_foreign [OF assms(2,4)] by simp
  then show ?thesis by (simp add: sel_own [OF assms(1)])
qed

text \<open>The same after any sequence of writes by others.\<close>

inductive others :: "uuid \<Rightarrow> 'st \<Rightarrow> 'st \<Rightarrow> bool" for uid where
  refl: "others uid st st"
| step: "others uid st st' \<Longrightarrow> client_of ss uid' \<Longrightarrow> uid \<noteq> uid' \<Longrightarrow> writes ss st' st'' \<Longrightarrow> others uid st st''"

lemma sel_private:
  assumes "others uid st st'" "client_of ss uid"
  shows "sel ss st' = sel ss st"
  using assms
proof (induction rule: others.induct)
  case (refl st)
  show ?case ..
next
  case (step st st' ss' uid' st'')
  then show ?case using sel_undisturbed [OF assms(2) step.hyps(2,3,4)] by simp
qed

end

end
