(* ===== verification/Tokens.thy ===== *)
theory Tokens
  imports Owner_Table
begin

text \<open>
  Bearer tokens: the claims and kinds of \<open>provider.py\<close>, issuing and verifying by
  \<open>LocalJwtProvider\<close> (\<open>local_jwt.py\<close>) and the registry of refresh tokens
  (\<open>refresh_tokens.py\<close>, migration 0008). PyJWT and the text form of a UUID are the parameter
  \<open>jwt_lib\<close>. Times are microseconds; the claims carry whole seconds.
\<close>

section \<open>Claims and principals\<close>

datatype token_kind = Access | Refresh | Impersonate

definition kind_value :: "token_kind \<Rightarrow> string" where
  "kind_value k = (case k of Access \<Rightarrow> ''access'' | Refresh \<Rightarrow> ''refresh'' | Impersonate \<Rightarrow> ''impersonation'')"

definition token_kind_of :: "string \<Rightarrow> token_kind option" where
  "token_kind_of s =
     (if s = ''access'' then Some Access else if s = ''refresh'' then Some Refresh
      else if s = ''impersonation'' then Some Impersonate else None)"

lemma token_kind_of_value [simp]: "token_kind_of (kind_value k) = Some k"
  by (cases k) (simp_all add: token_kind_of_def kind_value_def)

record claims =
  cl_sub :: string
  cl_role :: string
  cl_kind :: string
  cl_jti :: string
  cl_iat :: int
  cl_exp :: int
  cl_iss :: string
  cl_aud :: string

record principal_row =
  pr_user :: uuid
  pr_role :: string
  pr_kind :: token_kind
  pr_jti :: uuid
  pr_issued :: timestamp
  pr_expires :: timestamp

definition second :: int where
  "second = 1000000"

record jwt_config =
  jc_issuer :: string
  jc_audience :: string
  jc_algorithm :: string
  jc_ttl :: "token_kind \<Rightarrow> int"
  jc_leeway :: int

definition default_ttls :: "token_kind \<Rightarrow> int" where
  "default_ttls k =
     (case k of Access \<Rightarrow> 15 * 60 * second | Refresh \<Rightarrow> 30 * 24 * 60 * 60 * second
      | Impersonate \<Rightarrow> 15 * 60 * second)"

definition default_leeway :: int where
  "default_leeway = 30 * second"

text \<open>The constructor; \<open>ttls\<close> overrides single kinds.\<close>

definition local_jwt_provider ::
  "string \<Rightarrow> string \<Rightarrow> string \<Rightarrow> (token_kind \<Rightarrow> int option) \<Rightarrow> int \<Rightarrow> jwt_config result" where
  "local_jwt_provider issuer audience algorithm ttls leeway =
     (if algorithm \<in> set [''none'', ''HS256'', ''HS384'', ''HS512''] then Inl ValueError
      else Inr \<lparr>jc_issuer = issuer, jc_audience = audience, jc_algorithm = algorithm,
                jc_ttl = (\<lambda>k. case ttls k of None \<Rightarrow> default_ttls k | Some t \<Rightarrow> t), jc_leeway = leeway\<rparr>)"

section \<open>The library\<close>

text \<open>
  \<open>jwt_encode c alg\<close> signs with the private key; \<open>jwt_decode tok alg issuer audience leeway now\<close>
  verifies with the public key and returns the claims, or nothing when PyJWT raises.
\<close>

record 'tok jwt_lib =
  jwt_encode :: "claims \<Rightarrow> string \<Rightarrow> 'tok"
  jwt_decode :: "'tok \<Rightarrow> string \<Rightarrow> string \<Rightarrow> string \<Rightarrow> int \<Rightarrow> timestamp \<Rightarrow> claims option"
  str_of_uuid :: "uuid \<Rightarrow> string"
  uuid_of_str :: "string \<Rightarrow> uuid option"

text \<open>
  What PyJWT documents for the options the provider passes: a token signed with the paired key and
  algorithm decodes to its claims exactly when issuer and audience agree, it was not issued after
  \<open>now + leeway\<close> and has not expired at \<open>now - leeway\<close>.
\<close>

definition claims_current :: "claims \<Rightarrow> string \<Rightarrow> string \<Rightarrow> int \<Rightarrow> timestamp \<Rightarrow> bool" where
  "claims_current c issuer audience leeway t \<longleftrightarrow>
     cl_iss c = issuer \<and> cl_aud c = audience
     \<and> cl_iat c * second \<le> t + leeway \<and> t - leeway < cl_exp c * second"

definition jwt_ok :: "'tok jwt_lib \<Rightarrow> bool" where
  "jwt_ok lib \<longleftrightarrow>
     (\<forall>c alg issuer audience leeway t.
        jwt_decode lib (jwt_encode lib c alg) alg issuer audience leeway t =
          (if claims_current c issuer audience leeway t then Some c else None))
     \<and> (\<forall>x. uuid_of_str lib (str_of_uuid lib x) = Some x)"

section \<open>The registry\<close>

definition insert_refresh_token :: "db_session \<Rightarrow> refresh_row \<Rightarrow> api_db \<Rightarrow> api_db result" where
  "insert_refresh_token ss r db =
     bindE (owner_insert rt_user ss r (refresh_tokens db)) (\<lambda>rows.
       if \<exists>x \<in> set (refresh_tokens db). rt_jti x = rt_jti r then Inl (DbError UniqueViolation)
       else if \<not> (\<exists>x \<in> set (users db). us_id x = rt_user r) then Inl (DbError ForeignKeyViolation)
       else Inr (db\<lparr>refresh_tokens := rows\<rparr>))"

definition select_refresh_tokens :: "db_session \<Rightarrow> api_db \<Rightarrow> refresh_row list result" where
  "select_refresh_tokens ss db = owner_select rt_user ss (refresh_tokens db)"

definition refresh_record :: "db_session \<Rightarrow> uuid \<Rightarrow> uuid \<Rightarrow> timestamp \<Rightarrow> timestamp \<Rightarrow> api_db \<Rightarrow> api_db result" where
  "refresh_record ss jti uid issued expires =
     insert_refresh_token ss \<lparr>rt_jti = jti, rt_user = uid, rt_issued = issued, rt_expires = expires, rt_revoked = None\<rparr>"

definition refresh_by_jti :: "db_session \<Rightarrow> uuid \<Rightarrow> api_db \<Rightarrow> refresh_row option result" where
  "refresh_by_jti ss jti db =
     bindE (select_refresh_tokens ss db) (\<lambda>rs. Inr (List.find (\<lambda>r. rt_jti r = jti) rs))"

definition live_token :: "uuid \<Rightarrow> uuid \<Rightarrow> refresh_row \<Rightarrow> bool" where
  "live_token jti uid r \<longleftrightarrow> rt_jti r = jti \<and> rt_user r = uid \<and> rt_revoked r = None"

definition refresh_revoke :: "db_session \<Rightarrow> uuid \<Rightarrow> uuid \<Rightarrow> timestamp \<Rightarrow> api_db \<Rightarrow> (api_db \<times> bool) result" where
  "refresh_revoke ss jti uid tm db =
     bindE (owner_update rt_user ss (live_token jti uid) (rt_revoked_update (\<lambda>_. Some tm)) (refresh_tokens db))
       (\<lambda>rows. bindE (select_refresh_tokens ss db) (\<lambda>mine.
          Inr (db\<lparr>refresh_tokens := rows\<rparr>, \<exists>r \<in> set mine. live_token jti uid r)))"

section \<open>LocalJwtProvider\<close>

text \<open>\<open>clock\<close> is \<open>datetime.now(UTC)\<close>; \<open>t_next\<close> supplies the \<open>uuid4\<close> of the token.\<close>

definition token_claims :: "'tok jwt_lib \<Rightarrow> jwt_config \<Rightarrow> timestamp \<Rightarrow> uuid \<Rightarrow> uuid \<Rightarrow> string \<Rightarrow> token_kind \<Rightarrow> claims" where
  "token_claims lib cfg clock jti uid role kind =
     \<lparr>cl_sub = str_of_uuid lib uid, cl_role = role, cl_kind = kind_value kind, cl_jti = str_of_uuid lib jti,
      cl_iat = clock div second, cl_exp = (clock + jc_ttl cfg kind) div second,
      cl_iss = jc_issuer cfg, cl_aud = jc_audience cfg\<rparr>"

definition issue_token ::
  "'tok jwt_lib \<Rightarrow> jwt_config \<Rightarrow> timestamp \<Rightarrow> uuid \<Rightarrow> string \<Rightarrow> token_kind \<Rightarrow> db_session option \<Rightarrow> api_db
    \<Rightarrow> (api_db \<times> 'tok) result" where
  "issue_token lib cfg clock uid role kind session db =
     (if kind = Refresh \<and> session = None then Inl ValueError
      else if kind \<noteq> Refresh \<and> session \<noteq> None then Inl ValueError
      else
        let jti = t_next db;
            db1 = db\<lparr>t_next := Suc (t_next db)\<rparr>;
            tok = jwt_encode lib (token_claims lib cfg clock jti uid role kind) (jc_algorithm cfg)
        in case session of
             None \<Rightarrow> Inr (db1, tok)
           | Some ss \<Rightarrow> bindE (refresh_record ss jti uid clock (clock + jc_ttl cfg kind) db1) (\<lambda>db2. Inr (db2, tok)))"

text \<open>\<open>InvalidTokenError\<close> is \<open>None\<close>: the callers turn it into one 401.\<close>

definition verify_token :: "'tok jwt_lib \<Rightarrow> jwt_config \<Rightarrow> timestamp \<Rightarrow> 'tok \<Rightarrow> principal_row option" where
  "verify_token lib cfg clock tok =
     (case jwt_decode lib tok (jc_algorithm cfg) (jc_issuer cfg) (jc_audience cfg) (jc_leeway cfg) clock of
        None \<Rightarrow> None
      | Some c \<Rightarrow>
          (case (uuid_of_str lib (cl_sub c), uuid_of_str lib (cl_jti c), token_kind_of (cl_kind c)) of
             (Some uid, Some jti, Some kind) \<Rightarrow>
               Some \<lparr>pr_user = uid, pr_role = cl_role c, pr_kind = kind, pr_jti = jti,
                     pr_issued = cl_iat c * second, pr_expires = cl_exp c * second\<rparr>
           | _ \<Rightarrow> None))"

definition revoke_token :: "timestamp \<Rightarrow> uuid \<Rightarrow> uuid \<Rightarrow> db_session \<Rightarrow> api_db \<Rightarrow> (api_db \<times> bool) result" where
  "revoke_token clock jti uid ss = refresh_revoke ss jti uid clock"

section \<open>Facts\<close>

lemma second_pos [simp]: "0 < second"
  by (simp add: second_def)

lemma verify_encoded:
  assumes "jwt_ok lib"
  shows "verify_token lib cfg t (jwt_encode lib (token_claims lib cfg clock jti uid role kind) (jc_algorithm cfg)) =
    (if clock div second * second \<le> t + jc_leeway cfg
        \<and> t - jc_leeway cfg < (clock + jc_ttl cfg kind) div second * second
     then Some \<lparr>pr_user = uid, pr_role = role, pr_kind = kind, pr_jti = jti,
                pr_issued = clock div second * second,
                pr_expires = (clock + jc_ttl cfg kind) div second * second\<rparr>
     else None)"
  using assms by (simp add: verify_token_def jwt_ok_def token_claims_def claims_current_def)

lemma issue_token_non_refresh:
  "kind \<noteq> Refresh \<Longrightarrow> issue_token lib cfg clock uid role kind None db =
     Inr (db\<lparr>t_next := Suc (t_next db)\<rparr>,
          jwt_encode lib (token_claims lib cfg clock (t_next db) uid role kind) (jc_algorithm cfg))"
  by (simp add: issue_token_def Let_def)

text \<open>Revoking in the owner's session: the row is marked once, and only when it is live.\<close>

lemma refresh_revoke_client:
  assumes "client_of ss uid"
  shows "refresh_revoke ss jti uid tm db =
    Inr (db\<lparr>refresh_tokens := map (\<lambda>r. if live_token jti uid r then r\<lparr>rt_revoked := Some tm\<rparr> else r) (refresh_tokens db)\<rparr>,
         \<exists>r \<in> set (refresh_tokens db). live_token jti uid r)"
proof -
  have upd: "owner_update rt_user ss (live_token jti uid) (rt_revoked_update (\<lambda>_. Some tm)) (refresh_tokens db) =
      Inr (map (\<lambda>r. if live_token jti uid r then r\<lparr>rt_revoked := Some tm\<rparr> else r) (refresh_tokens db))"
    by (subst owner_update_client [OF assms]) (auto simp: live_token_def)
  have "(\<exists>r \<in> set (filter (\<lambda>r. rt_user r = uid) (refresh_tokens db)). live_token jti uid r) \<longleftrightarrow>
      (\<exists>r \<in> set (refresh_tokens db). live_token jti uid r)"
    by (auto simp: live_token_def)
  then show ?thesis
    by (simp add: refresh_revoke_def upd select_refresh_tokens_def owner_select_client [OF assms])
qed

text \<open>The registry is an owner table: no client sees or touches the tokens of another.\<close>

inductive registry_write :: "db_session \<Rightarrow> api_db \<Rightarrow> api_db \<Rightarrow> bool" where
  record_row: "refresh_record ss jti uid issued expires db = Inr db' \<Longrightarrow> registry_write ss db db'"
| revoke_row: "refresh_revoke ss jti uid tm db = Inr (db', b) \<Longrightarrow> registry_write ss db db'"

interpretation rt: owner_table rt_user refresh_tokens select_refresh_tokens registry_write
proof
  show "select_refresh_tokens ss st = Inr (filter (\<lambda>r. rt_user r = uid) (refresh_tokens st))" if "client_of ss uid" for ss st uid
    using that by (simp add: select_refresh_tokens_def owner_select_client)
  show "foreign rt_user uid (refresh_tokens st') = foreign rt_user uid (refresh_tokens st)"
    if "client_of ss uid" "registry_write ss st st'" for ss st st' uid
    using that(2,1)
  proof cases
    case (record_row jti uid' issued expires)
    then obtain r rows where "owner_insert rt_user ss r (refresh_tokens st) = Inr rows" "refresh_tokens st' = rows"
      by (auto simp: refresh_record_def insert_refresh_token_def bindE_eq_Inr split: if_splits)
    then show ?thesis using owner_insert_foreign [OF that(1)] by simp
  next
    case (revoke_row jti uid' tm b)
    then obtain rows where "owner_update rt_user ss (live_token jti uid') (rt_revoked_update (\<lambda>_. Some tm)) (refresh_tokens st) = Inr rows"
      "refresh_tokens st' = rows"
      by (auto simp: refresh_revoke_def bindE_eq_Inr)
    then show ?thesis using owner_update_foreign [OF that(1)] by simp
  qed
qed

section \<open>The protocol\<close>

text \<open>
  \<open>TokenProvider\<close> of \<open>provider.py\<close>: what its callers rely on, whatever issues the tokens. \<open>registry\<close> is the
  table of refresh tokens; \<open>verify\<close> has no state to consult.
\<close>

locale token_provider =
  fixes issue :: "timestamp \<Rightarrow> uuid \<Rightarrow> string \<Rightarrow> token_kind \<Rightarrow> db_session option \<Rightarrow> 'st \<Rightarrow> ('st \<times> 'tok) result"
    and verify :: "timestamp \<Rightarrow> 'tok \<Rightarrow> principal_row option"
    and revoke :: "timestamp \<Rightarrow> uuid \<Rightarrow> uuid \<Rightarrow> db_session \<Rightarrow> 'st \<Rightarrow> ('st \<times> bool) result"
    and registry :: "'st \<Rightarrow> refresh_row list"
  assumes issue_session: "issue clock uid role kind session st = Inr (st', tok) \<Longrightarrow> kind = Refresh \<longleftrightarrow> session \<noteq> None"
    and issue_verify: "issue clock uid role kind session st = Inr (st', tok) \<Longrightarrow> verify t tok = Some p \<Longrightarrow>
      pr_user p = uid \<and> pr_role p = role \<and> pr_kind p = kind"
    and issue_plain: "issue clock uid role kind None st = Inr (st', tok) \<Longrightarrow> registry st' = registry st"
    and issue_live: "issue clock uid role Refresh (Some ss) st = Inr (st', tok) \<Longrightarrow> verify t tok = Some p \<Longrightarrow>
      \<exists>r \<in> set (registry st'). live_token (pr_jti p) uid r"
    and revoke_client: "client_of ss uid \<Longrightarrow> \<exists>st'. revoke clock jti uid ss st =
      Inr (st', \<exists>r \<in> set (registry st). live_token jti uid r) \<and> \<not> (\<exists>r \<in> set (registry st'). live_token jti uid r)"
begin

text \<open>The token just issued is revoked once, in a session of its owner, and the second attempt reports it.\<close>

lemma issued_revocable:
  assumes "issue clock uid role Refresh (Some ss) st = Inr (st', tok)" "verify t tok = Some p" "client_of ss' uid"
  obtains st'' where "revoke now (pr_jti p) (pr_user p) ss' st' = Inr (st'', True)"
proof -
  have "pr_user p = uid" using issue_verify [OF assms(1,2)] by simp
  then show thesis using revoke_client [OF assms(3), of now "pr_jti p" st'] issue_live [OF assms(1,2)] that by auto
qed

lemma revoke_once:
  assumes "client_of ss uid" "client_of ss' uid" "revoke now jti uid ss st = Inr (st', b)"
  obtains st'' where "revoke later jti uid ss' st' = Inr (st'', False)"
proof -
  have "\<not> (\<exists>r \<in> set (registry st'). live_token jti uid r)"
    using revoke_client [OF assms(1), of now jti st] assms(3) by auto
  then show thesis using revoke_client [OF assms(2), of later jti st'] that by auto
qed

end

text \<open>\<open>LocalJwtProvider\<close> keeps the protocol over every library that behaves as PyJWT documents.\<close>

locale signed_tokens =
  fixes lib :: "'tok jwt_lib" and cfg :: jwt_config
  assumes lib_ok: "jwt_ok lib"

lemma issue_token_encodes:
  assumes "issue_token lib cfg clock uid role kind session db = Inr (db', tok)"
  shows "tok = jwt_encode lib (token_claims lib cfg clock (t_next db) uid role kind) (jc_algorithm cfg)"
  using assms by (auto simp: issue_token_def Let_def bindE_eq_Inr split: if_splits option.splits)

lemma revoked_not_live: "\<not> live_token jti uid (if live_token jti uid r then r\<lparr>rt_revoked := Some t\<rparr> else r)"
  by (simp add: live_token_def)

lemma revoked_none_live:
  "\<forall>x \<in> set (map (\<lambda>r. if live_token jti uid r then r\<lparr>rt_revoked := Some t\<rparr> else r) rs). \<not> live_token jti uid x"
  unfolding set_map by (intro ballI, elim imageE, hypsubst) (rule revoked_not_live)

lemma owner_insert_mem: "owner_insert owner ss r rows = Inr rows' \<Longrightarrow> r \<in> set rows'"
  by (auto simp: owner_insert_def bindE_eq_Inr split: if_splits)

lemma issue_token_registers:
  assumes "issue_token lib cfg clock uid role Refresh (Some ss) db = Inr (db', tok)"
  shows "\<exists>r \<in> set (refresh_tokens db'). live_token (t_next db) uid r"
proof -
  let ?r = "\<lparr>rt_jti = t_next db, rt_user = uid, rt_issued = clock,
    rt_expires = clock + jc_ttl cfg Refresh, rt_revoked = None\<rparr>"
  have "owner_insert rt_user ss ?r (refresh_tokens db) = Inr (refresh_tokens db')"
    using assms
    by (auto simp: issue_token_def Let_def bindE_eq_Inr refresh_record_def insert_refresh_token_def split: if_splits)
  then have "?r \<in> set (refresh_tokens db')" by (rule owner_insert_mem)
  then show ?thesis by (rule bexI [rotated]) (simp add: live_token_def)
qed

sublocale signed_tokens \<subseteq> provider: token_provider "issue_token lib cfg" "verify_token lib cfg" revoke_token refresh_tokens
proof
  fix clock uid role kind session db db' tok t p ss jti
  assume i: "issue_token lib cfg clock uid role kind session db = Inr (db', tok)"
  show "kind = Refresh \<longleftrightarrow> session \<noteq> None" using i by (auto simp: issue_token_def split: if_splits)
  assume v: "verify_token lib cfg t tok = Some p"
  show "pr_user p = uid \<and> pr_role p = role \<and> pr_kind p = kind"
    using v verify_encoded [OF lib_ok] unfolding issue_token_encodes [OF i] by (auto split: if_splits)
next
  fix clock uid role kind db db' tok
  assume "issue_token lib cfg clock uid role kind None db = Inr (db', tok)"
  then show "refresh_tokens db' = refresh_tokens db" by (auto simp: issue_token_def Let_def split: if_splits)
next
  fix clock uid role ss db db' tok t p
  assume i: "issue_token lib cfg clock uid role Refresh (Some ss) db = Inr (db', tok)" "verify_token lib cfg t tok = Some p"
  have "pr_jti p = t_next db"
    using i(2) verify_encoded [OF lib_ok] unfolding issue_token_encodes [OF i(1)] by (auto split: if_splits)
  then show "\<exists>r \<in> set (refresh_tokens db'). live_token (pr_jti p) uid r" using issue_token_registers [OF i(1)] by simp
next
  fix ss uid clock jti db
  assume c: "client_of ss uid"
  show "\<exists>db'. revoke_token clock jti uid ss db = Inr (db', \<exists>r \<in> set (refresh_tokens db). live_token jti uid r)
      \<and> \<not> (\<exists>r \<in> set (refresh_tokens db'). live_token jti uid r)"
    by (simp add: revoke_token_def refresh_revoke_client [OF c] revoked_none_live del: set_map image_set)
qed

end
