(* ===== verification/Subscriptions.thy ===== *)
theory Subscriptions
  imports Owner_Table
begin

text \<open>
  The tenancy ledger: the statements and append-only triggers on \<open>subscriptions\<close> and
  \<open>subscription_scopes\<close>, \<open>SubscriptionsRepository\<close> and the three routes of
  \<open>admin_subscriptions.py\<close>, which run in an \<open>admin_bypass\<close> session.
\<close>

section \<open>Statements\<close>

definition may_insert_ledger :: "db_session \<Rightarrow> bool" where
  "may_insert_ledger ss \<longleftrightarrow> ss_role ss = Admin_bypass \<or> ss_role ss = Api_app"

definition insert_subscription :: "db_session \<Rightarrow> uuid \<Rightarrow> timestamp \<Rightarrow> api_db \<Rightarrow> (api_db \<times> uuid) result" where
  "insert_subscription ss uid valid_from db =
     (if \<not> may_insert_ledger ss then Inl (DbError InsufficientPrivilege)
      else if \<not> (\<exists>x \<in> set (users db). us_id x = uid) then Inl (DbError ForeignKeyViolation)
      else Inr (db\<lparr>subscriptions := subscriptions db @
                    [\<lparr>sub_id = t_next db, sub_user = uid, sub_from = valid_from, sub_to = None,
                      sub_created = ss_now ss\<rparr>],
                  t_next := Suc (t_next db)\<rparr>, t_next db))"

definition scope_key :: "scope_row \<Rightarrow> uuid \<times> string \<times> string" where
  "scope_key r = (sc_subscription r, sc_jurisdiction r, sc_sector r)"

definition scope_pair :: "scope_row \<Rightarrow> string \<times> string" where
  "scope_pair r = (sc_jurisdiction r, sc_sector r)"

definition insert_scope :: "db_session \<Rightarrow> uuid \<Rightarrow> api_db \<Rightarrow> string \<times> string \<Rightarrow> api_db result" where
  "insert_scope ss sid db p =
     (if \<not> may_insert_ledger ss then Inl (DbError InsufficientPrivilege)
      else if \<exists>r \<in> set (scopes db). scope_key r = (sid, p) then Inl (DbError UniqueViolation)
      else if \<not> (\<exists>s \<in> set (subscriptions db). sub_id s = sid) then Inl (DbError ForeignKeyViolation)
      else Inr (db\<lparr>scopes := scopes db @
             [\<lparr>sc_subscription = sid, sc_jurisdiction = fst p, sc_sector = snd p, sc_to = None\<rparr>]\<rparr>))"

text \<open>The triggers: the only update they let through ends a row that is open.\<close>

definition reject_subscription_update :: "subscription_row \<Rightarrow> subscription_row \<Rightarrow> subscription_row result" where
  "reject_subscription_update old_row new_row =
     (if sub_to old_row = None \<and> sub_to new_row \<noteq> None \<and> sub_id new_row = sub_id old_row
         \<and> sub_user new_row = sub_user old_row \<and> sub_from new_row = sub_from old_row
         \<and> sub_created new_row = sub_created old_row
      then Inr new_row else Inl (DbError RaiseException))"

definition reject_subscription_scope_update :: "scope_row \<Rightarrow> scope_row \<Rightarrow> scope_row result" where
  "reject_subscription_scope_update old_row new_row =
     (if sc_to old_row = None \<and> sc_to new_row \<noteq> None
         \<and> sc_subscription new_row = sc_subscription old_row
         \<and> sc_jurisdiction new_row = sc_jurisdiction old_row
         \<and> sc_sector new_row = sc_sector old_row
      then Inr new_row else Inl (DbError RaiseException))"

definition update_scopes ::
  "db_session \<Rightarrow> (scope_row \<Rightarrow> bool) \<Rightarrow> (scope_row \<Rightarrow> scope_row) \<Rightarrow> api_db \<Rightarrow> api_db result" where
  "update_scopes ss sel f db =
     (if ss_role ss \<noteq> Admin_bypass then Inl (DbError InsufficientPrivilege)
      else bindE (mapE (\<lambda>r. if sel r then reject_subscription_scope_update r (f r) else Inr r) (scopes db))
             (\<lambda>rs. Inr (db\<lparr>scopes := rs\<rparr>)))"

section \<open>SubscriptionsRepository\<close>

record subscription_dto = subscription_row +
  dto_scopes :: "scope_row list"

definition scopes_for :: "api_db \<Rightarrow> uuid \<Rightarrow> scope_row list" where
  "scopes_for db sid = sort_key scope_pair (filter (\<lambda>r. sc_subscription r = sid) (scopes db))"

definition subscription_dto_of :: "api_db \<Rightarrow> subscription_row \<Rightarrow> subscription_dto" where
  "subscription_dto_of db s = subscription_row.extend s (subscription_dto.fields (scopes_for db (sub_id s)))"

definition list_for_user :: "api_db \<Rightarrow> uuid \<Rightarrow> subscription_dto list" where
  "list_for_user db uid =
     map (subscription_dto_of db)
       (sort_key (\<lambda>s. - sub_from s) (filter (\<lambda>s. sub_user s = uid) (subscriptions db)))"

definition subscription_by_id :: "api_db \<Rightarrow> uuid \<Rightarrow> subscription_dto option" where
  "subscription_by_id db sid =
     map_option (subscription_dto_of db) (List.find (\<lambda>s. sub_id s = sid) (subscriptions db))"

definition create_for_user ::
  "db_session \<Rightarrow> uuid \<Rightarrow> timestamp \<Rightarrow> (string \<times> string) list \<Rightarrow> api_db \<Rightarrow> (api_db \<times> subscription_dto) result" where
  "create_for_user ss uid valid_from pairs db =
     bindE (insert_subscription ss uid valid_from db) (\<lambda>(db1, sid).
     bindE (foldE (insert_scope ss sid) db1 pairs) (\<lambda>db2.
       case subscription_by_id db2 sid of
         None \<Rightarrow> Inl AssertionError
       | Some dto \<Rightarrow> Inr (db2, dto)))"

definition add_scopes ::
  "db_session \<Rightarrow> uuid \<Rightarrow> (string \<times> string) list \<Rightarrow> api_db \<Rightarrow> (api_db \<times> nat) result" where
  "add_scopes ss sid pairs db =
     bindE (foldE (insert_scope ss sid) db pairs) (\<lambda>db'. Inr (db', length pairs))"

definition ends :: "uuid \<Rightarrow> (string \<times> string) list \<Rightarrow> scope_row \<Rightarrow> bool" where
  "ends sid pairs r \<longleftrightarrow> sc_subscription r = sid \<and> sc_to r = None \<and> scope_pair r \<in> set pairs"

definition soft_delete_scopes ::
  "db_session \<Rightarrow> uuid \<Rightarrow> (string \<times> string) list \<Rightarrow> api_db \<Rightarrow> (api_db \<times> nat) result" where
  "soft_delete_scopes ss sid pairs db =
     (if pairs = [] then Inr (db, 0)
      else bindE (update_scopes ss (ends sid pairs) (sc_to_update (\<lambda>_. Some (ss_now ss))) db)
             (\<lambda>db'. Inr (db', length (filter (ends sid pairs) (scopes db)))))"

definition active_scope_documents :: "db_session \<Rightarrow> uuid \<Rightarrow> api_db \<Rightarrow> uuid list result" where
  "active_scope_documents ss uid db =
     bindE (select_documents ss db) (\<lambda>ds. Inr
       (remdups [d_id d. d \<leftarrow> ds, ssr \<leftarrow> scopes db, s \<leftarrow> subscriptions db,
          sc_jurisdiction ssr = d_jurisdiction d \<and> sc_sector ssr = d_sector d \<and> open_at (ss_now ss) (sc_to ssr)
          \<and> sub_id s = sc_subscription ssr
          \<and> sub_user s = uid \<and> sub_from s \<le> ss_now ss \<and> open_at (ss_now ss) (sub_to s)]))"

text \<open>\<open>WatchlistsRepository.soft_hide_out_of_scope\<close>; \<open>admin_bypass\<close> holds UPDATE since 0011.\<close>

definition hides :: "uuid \<Rightarrow> uuid list \<Rightarrow> watchlist_row \<Rightarrow> bool" where
  "hides uid in_scope w \<longleftrightarrow> w_user w = uid \<and> w_active w \<and> (in_scope \<noteq> [] \<longrightarrow> w_document w \<notin> set in_scope)"

definition soft_hide_out_of_scope :: "db_session \<Rightarrow> uuid \<Rightarrow> uuid list \<Rightarrow> api_db \<Rightarrow> (api_db \<times> nat) result" where
  "soft_hide_out_of_scope ss uid in_scope db =
     (if ss_role ss \<noteq> Admin_bypass then Inl (DbError InsufficientPrivilege)
      else Inr (db\<lparr>watchlists := map (\<lambda>w. if hides uid in_scope w then w\<lparr>w_active := False\<rparr> else w) (watchlists db)\<rparr>,
                length (filter (hides uid in_scope) (watchlists db))))"

section \<open>The routes\<close>

record create_request =
  cr_user :: uuid
  cr_scopes :: "(string \<times> string) list"
  cr_from :: "timestamp option"

record patch_request =
  pr_add :: "(string \<times> string) list"
  pr_remove :: "(string \<times> string) list"

record patch_response =
  pa_subscription :: subscription_dto
  pa_added :: nat
  pa_removed :: nat
  pa_hidden :: nat

text \<open>\<open>Field(min_length=1)\<close> of the wire models; a body that breaks it never reaches the handler.\<close>

definition valid_pair :: "string \<times> string \<Rightarrow> bool" where
  "valid_pair p \<longleftrightarrow> fst p \<noteq> [] \<and> snd p \<noteq> []"

definition valid_create :: "create_request \<Rightarrow> bool" where
  "valid_create b \<longleftrightarrow> cr_scopes b \<noteq> [] \<and> list_all valid_pair (cr_scopes b)"

definition valid_patch :: "patch_request \<Rightarrow> bool" where
  "valid_patch b \<longleftrightarrow> list_all valid_pair (pr_add b) \<and> list_all valid_pair (pr_remove b)"

text \<open>\<open>sorted\<close> of a set of pairs.\<close>

definition sorted_pairs :: "(string \<times> string) list \<Rightarrow> (string \<times> string) list" where
  "sorted_pairs ps = sort (remdups ps)"

definition user_by_id :: "api_db \<Rightarrow> uuid \<Rightarrow> user_row option" where
  "user_by_id db uid = List.find (\<lambda>r. us_id r = uid) (users db)"

definition list_subscriptions :: "uuid \<Rightarrow> api_db \<Rightarrow> (api_db \<times> subscription_dto list) result" where
  "list_subscriptions uid db =
     (case user_by_id db uid of
        None \<Rightarrow> Inl (HTTPException 404)
      | Some _ \<Rightarrow> Inr (db, list_for_user db uid))"

text \<open>\<open>clock\<close> is \<open>datetime.now(UTC)\<close> in the handler.\<close>

definition create_subscription ::
  "db_session \<Rightarrow> timestamp \<Rightarrow> create_request \<Rightarrow> api_db \<Rightarrow> (api_db \<times> subscription_dto) result" where
  "create_subscription ss clock body db =
     (case user_by_id db (cr_user body) of
        None \<Rightarrow> Inl (HTTPException 404)
      | Some _ \<Rightarrow>
          create_for_user ss (cr_user body) (case cr_from body of None \<Rightarrow> clock | Some t \<Rightarrow> t)
            (sorted_pairs (cr_scopes body)) db)"

definition active_pairs :: "subscription_dto \<Rightarrow> (string \<times> string) list" where
  "active_pairs dto = map scope_pair (filter (\<lambda>s. sc_to s = None) (dto_scopes dto))"

definition patch_subscription ::
  "db_session \<Rightarrow> uuid \<Rightarrow> patch_request \<Rightarrow> api_db \<Rightarrow> (api_db \<times> patch_response) result" where
  "patch_subscription ss sid body db =
     (if pr_add body = [] \<and> pr_remove body = [] then Inl (HTTPException 422)
      else if \<exists>p \<in> set (pr_add body). p \<in> set (pr_remove body) then Inl (HTTPException 422)
      else case subscription_by_id db sid of
        None \<Rightarrow> Inl (HTTPException 404)
      | Some existing \<Rightarrow>
          if \<exists>p \<in> set (pr_add body). p \<in> set (active_pairs existing) then Inl (HTTPException 422)
          else if \<exists>p \<in> set (pr_remove body). p \<notin> set (active_pairs existing) then Inl (HTTPException 422)
          else
            bindE (if pr_add body \<noteq> [] then add_scopes ss sid (sorted_pairs (pr_add body)) db else Inr (db, 0))
              (\<lambda>(db1, added).
            bindE (if pr_remove body \<noteq> [] then soft_delete_scopes ss sid (sorted_pairs (pr_remove body)) db1
                   else Inr (db1, 0))
              (\<lambda>(db2, removed).
            bindE (active_scope_documents ss (sub_user existing) db2) (\<lambda>in_scope_docs.
            bindE (soft_hide_out_of_scope ss (sub_user existing) in_scope_docs db2) (\<lambda>(db3, hidden).
              case subscription_by_id db3 sid of
                None \<Rightarrow> Inl AssertionError
              | Some after \<Rightarrow> Inr (db3, \<lparr>pa_subscription = after, pa_added = added, pa_removed = removed,
                                       pa_hidden = hidden\<rparr>))))))"

end
