(* ===== verification/Watchlists.thy ===== *)
theory Watchlists
  imports Owner_Table
begin

text \<open>
  Watched documents: the statements on \<open>watchlists\<close> with the scope trigger of migration 0009, the
  owner policies and the unique pair, \<open>WatchlistsRepository\<close>, the routes of \<open>watchlists.py\<close> and
  the scope part of \<open>/v1/me\<close> (\<open>core/subscriptions.py\<close>).
\<close>

section \<open>core/subscriptions.py\<close>

definition current_scope_pairs :: "db_session \<Rightarrow> api_db \<Rightarrow> (string \<times> string) list result" where
  "current_scope_pairs ss db = current_scope ss db"

record subscription_summary =
  sm_scope :: "(string \<times> string) list"
  sm_active :: "(timestamp \<times> timestamp option) list"

definition current_subscription_summary :: "db_session \<Rightarrow> api_db \<Rightarrow> subscription_summary result" where
  "current_subscription_summary ss db =
     bindE (current_scope_pairs ss db) (\<lambda>pairs.
       case ss_user ss of
         None \<Rightarrow> Inl (DbError UndefinedSetting)
       | Some uid \<Rightarrow> Inr \<lparr>sm_scope = sort pairs,
           sm_active = map (\<lambda>s. (sub_from s, sub_to s)) (sort_key sub_from
             (filter (\<lambda>s. sub_user s = uid \<and> sub_from s \<le> ss_now ss \<and> open_at (ss_now ss) (sub_to s))
               (subscriptions db)))\<rparr>)"

section \<open>Statements\<close>

text \<open>
  The trigger function runs with the rights of \<open>admin_bypass\<close>, so it reads every document; it lets
  a row pass when no user is bound.
\<close>

definition assert_watchlist_in_scope :: "db_session \<Rightarrow> api_db \<Rightarrow> watchlist_row \<Rightarrow> watchlist_row result" where
  "assert_watchlist_in_scope ss db w =
     (case ss_user ss of
        None \<Rightarrow> Inr w
      | Some _ \<Rightarrow> bindE (current_scope ss db) (\<lambda>cs.
          if \<exists>d \<in> set (documents (library db)). doc_pair d \<in> set cs \<and> d_id d = w_document w
          then Inr w else Inl (DbError CheckViolation)))"

definition insert_watchlist :: "db_session \<Rightarrow> watchlist_row \<Rightarrow> api_db \<Rightarrow> api_db result" where
  "insert_watchlist ss w db =
     (if ss_role ss \<noteq> Api_app then Inl (DbError InsufficientPrivilege)
      else bindE (assert_watchlist_in_scope ss db w) (\<lambda>w.
        bindE (owner_insert w_user ss w (watchlists db)) (\<lambda>rows.
          if \<exists>x \<in> set (watchlists db). w_user x = w_user w \<and> w_document x = w_document w
          then Inl (DbError UniqueViolation)
          else if \<not> (\<exists>x \<in> set (users db). us_id x = w_user w) then Inl (DbError ForeignKeyViolation)
          else if \<not> (\<exists>d \<in> set (documents (library db)). d_id d = w_document w) then Inl (DbError ForeignKeyViolation)
          else Inr (db\<lparr>watchlists := rows\<rparr>))))"

section \<open>DocumentsRepository.get_by_id\<close>

definition document_by_id :: "db_session \<Rightarrow> uuid \<Rightarrow> api_db \<Rightarrow> document_row option result" where
  "document_by_id ss did db =
     bindE (select_documents ss db) (\<lambda>ds. Inr (List.find (\<lambda>d. d_id d = did) ds))"

section \<open>WatchlistsRepository\<close>

record watchlist_dto = watchlist_row +
  dto_title :: "string option"
  dto_jurisdiction :: "string option"
  dto_sector :: "string option"

definition to_dto :: "document_row option \<Rightarrow> watchlist_row \<Rightarrow> watchlist_dto" where
  "to_dto document w =
     watchlist_row.extend w
       (case document of
          None \<Rightarrow> watchlist_dto.fields None None None
        | Some d \<Rightarrow> watchlist_dto.fields (Some (d_title d)) (Some (d_jurisdiction d)) (Some (d_sector d)))"

text \<open>\<open>selectinload\<close> is a second query under the same policies.\<close>

definition with_documents :: "db_session \<Rightarrow> api_db \<Rightarrow> watchlist_row list \<Rightarrow> watchlist_dto list result" where
  "with_documents ss db ws =
     bindE (select_documents ss db) (\<lambda>ds.
       Inr (map (\<lambda>w. to_dto (List.find (\<lambda>d. d_id d = w_document w) ds) w) ws))"

definition select_watchlists :: "db_session \<Rightarrow> api_db \<Rightarrow> watchlist_row list result" where
  "select_watchlists ss db = owner_select w_user ss (watchlists db)"

definition list_for :: "db_session \<Rightarrow> api_db \<Rightarrow> watchlist_dto list result" where
  "list_for ss db =
     bindE (select_watchlists ss db) (\<lambda>ws. with_documents ss db (filter w_active ws))"

definition list_all_including_inactive_for_user ::
  "db_session \<Rightarrow> uuid \<Rightarrow> api_db \<Rightarrow> watchlist_dto list result" where
  "list_all_including_inactive_for_user ss uid db =
     bindE (select_watchlists ss db) (\<lambda>ws. with_documents ss db (filter (\<lambda>w. w_user w = uid) ws))"

definition watchlist_by_id :: "db_session \<Rightarrow> uuid \<Rightarrow> api_db \<Rightarrow> watchlist_dto option result" where
  "watchlist_by_id ss wid db =
     bindE (select_watchlists ss db) (\<lambda>ws.
       Inr (map_option (to_dto None) (List.find (\<lambda>w. w_id w = wid) ws)))"

definition watchlist_create ::
  "db_session \<Rightarrow> uuid \<Rightarrow> uuid \<Rightarrow> string \<Rightarrow> api_db \<Rightarrow> (api_db \<times> watchlist_dto) result" where
  "watchlist_create ss uid did name db =
     (let w = \<lparr>w_id = t_next db, w_user = uid, w_document = did, w_name = name, w_active = True,
               w_created = ss_now ss\<rparr>
      in bindE (insert_watchlist ss w (db\<lparr>t_next := Suc (t_next db)\<rparr>)) (\<lambda>db'. Inr (db', to_dto None w)))"

definition watchlist_delete :: "db_session \<Rightarrow> uuid \<Rightarrow> uuid \<Rightarrow> api_db \<Rightarrow> (api_db \<times> bool) result" where
  "watchlist_delete ss uid wid db =
     (let sel = (\<lambda>w. w_id w = wid \<and> w_user w = uid)
      in bindE (owner_delete w_user ss sel (watchlists db)) (\<lambda>rows.
           Inr (db\<lparr>watchlists := rows\<rparr>, length rows < length (watchlists db))))"

section \<open>The routes\<close>

text \<open>The wire shape has no owner and no \<open>active\<close> flag.\<close>

record watchlist_response =
  wr_id :: uuid
  wr_document :: uuid
  wr_name :: string
  wr_created :: timestamp
  wr_title :: "string option"
  wr_jurisdiction :: "string option"
  wr_sector :: "string option"

definition to_response :: "watchlist_dto \<Rightarrow> watchlist_response" where
  "to_response dto =
     \<lparr>wr_id = w_id dto, wr_document = w_document dto, wr_name = w_name dto, wr_created = w_created dto,
      wr_title = dto_title dto, wr_jurisdiction = dto_jurisdiction dto, wr_sector = dto_sector dto\<rparr>"

definition list_watchlists :: "db_session \<Rightarrow> api_db \<Rightarrow> (api_db \<times> watchlist_response list) result" where
  "list_watchlists ss db = bindE (list_for ss db) (\<lambda>rs. Inr (db, map to_response rs))"

text \<open>\<open>body.name if body.name else document.title\<close>.\<close>

definition watch_name :: "string option \<Rightarrow> document_row \<Rightarrow> string" where
  "watch_name name d = (case name of None \<Rightarrow> d_title d | Some n \<Rightarrow> if n \<noteq> [] then n else d_title d)"

definition create_watchlist ::
  "uuid \<Rightarrow> db_session \<Rightarrow> uuid \<Rightarrow> string option \<Rightarrow> api_db \<Rightarrow> (api_db \<times> watchlist_response) result" where
  "create_watchlist caller ss did name db =
     bindE (document_by_id ss did db) (\<lambda>document.
       case document of
         None \<Rightarrow> Inl (HTTPException 422)
       | Some d \<Rightarrow>
           bindE (current_scope_pairs ss db) (\<lambda>scope.
             if doc_pair d \<notin> set scope then Inl (HTTPException 422)
             else
               bindE (watchlist_create ss caller did (watch_name name d) db)
                 (\<lambda>(db', dto). Inr (db', to_response dto))))"

definition delete_watchlist :: "uuid \<Rightarrow> db_session \<Rightarrow> uuid \<Rightarrow> api_db \<Rightarrow> (api_db \<times> nat) result" where
  "delete_watchlist caller ss wid db =
     bindE (watchlist_delete ss caller wid db) (\<lambda>(db', removed).
       if removed then Inr (db', 204) else Inl (HTTPException 404))"

section \<open>What the routes do in a client's session\<close>

lemma select_watchlists_client:
  "client_of ss uid \<Longrightarrow> select_watchlists ss db = Inr (filter (\<lambda>w. w_user w = uid) (watchlists db))"
  by (simp add: select_watchlists_def owner_select_client)

lemma client_ofD: "client_of ss uid \<Longrightarrow> ss_role ss = Api_app" "client_of ss uid \<Longrightarrow> ss_user ss = Some uid"
  by (simp_all add: client_of_def)

lemma document_by_id_client:
  "client_of ss uid \<Longrightarrow> document_by_id ss did db =
     Inr (List.find (\<lambda>d. d_id d = did) (filter (in_scope_of db (ss_now ss) uid) (documents (library db))))"
  by (simp add: document_by_id_def select_documents_client client_ofD)

definition visible_document :: "api_db \<Rightarrow> timestamp \<Rightarrow> uuid \<Rightarrow> uuid \<Rightarrow> bool" where
  "visible_document db t uid did \<longleftrightarrow>
     (\<exists>d \<in> set (documents (library db)). d_id d = did \<and> in_scope_of db t uid d)"

lemma in_scope_of_next [simp]: "in_scope_of (db\<lparr>t_next := n\<rparr>) = in_scope_of db"
  by (intro ext) (simp add: in_scope_of_def scope_of_def)

lemma in_scope_of_watchlists [simp]: "in_scope_of (db\<lparr>watchlists := ws\<rparr>) = in_scope_of db"
  by (intro ext) (simp add: in_scope_of_def scope_of_def)

lemma find_filter_None: "List.find P (filter Q xs) = None \<longleftrightarrow> (\<forall>x \<in> set xs. P x \<longrightarrow> \<not> Q x)"
  by (auto simp: find_None_iff)

lemma find_filter_Some: "List.find P (filter Q xs) = Some x \<Longrightarrow> x \<in> set xs \<and> P x \<and> Q x"
  by (auto simp: find_Some_iff) (metis nth_mem mem_Collect_eq set_filter)+

lemma trigger_client:
  "client_of ss uid \<Longrightarrow> assert_watchlist_in_scope ss db w =
     (if visible_document db (ss_now ss) uid (w_document w) then Inr w else Inl (DbError CheckViolation))"
  by (auto simp: assert_watchlist_in_scope_def client_ofD current_scope_bound visible_document_def in_scope_of_def)

definition watches :: "api_db \<Rightarrow> uuid \<Rightarrow> uuid \<Rightarrow> bool" where
  "watches db uid did \<longleftrightarrow> (\<exists>w \<in> set (watchlists db). w_user w = uid \<and> w_document w = did)"

text \<open>The outcome of a POST is decided by the scope and by the unique pair, in that order.\<close>

lemma create_watchlist_client:
  assumes "client_of ss uid" "\<exists>x \<in> set (users db). us_id x = uid"
  shows "create_watchlist uid ss did name db =
    (case List.find (\<lambda>d. d_id d = did) (filter (in_scope_of db (ss_now ss) uid) (documents (library db))) of
       None \<Rightarrow> Inl (HTTPException 422)
     | Some d \<Rightarrow>
         if watches db uid did then Inl (DbError UniqueViolation)
         else let w = \<lparr>w_id = t_next db, w_user = uid, w_document = did, w_name = watch_name name d,
                       w_active = True, w_created = ss_now ss\<rparr>
              in Inr (db\<lparr>watchlists := watchlists db @ [w], t_next := Suc (t_next db)\<rparr>,
                      to_response (to_dto None w)))"
proof -
  have in_scope: "visible_document (db\<lparr>t_next := n\<rparr>) (ss_now ss) uid did" "doc_pair d \<in> set (scope_of db (ss_now ss) uid)"
    "\<exists>x \<in> set (documents (library db)). d_id x = did"
    if "List.find (\<lambda>d. d_id d = did) (filter (in_scope_of db (ss_now ss) uid) (documents (library db))) = Some d"
    for d n
    using find_filter_Some [OF that] by (auto simp: visible_document_def in_scope_of_def)
  show ?thesis
    by (auto simp: create_watchlist_def document_by_id_client [OF assms(1)] current_scope_pairs_def
        current_scope_bound client_ofD [OF assms(1)] watchlist_create_def insert_watchlist_def Let_def
        trigger_client [OF assms(1)] owner_insert_client [OF assms(1)] in_scope assms(2) watches_def
        split: option.split)
qed

lemma delete_watchlist_client:
  assumes "client_of ss uid"
  shows "delete_watchlist uid ss wid db =
    (if \<exists>w \<in> set (watchlists db). w_id w = wid \<and> w_user w = uid
     then Inr (db\<lparr>watchlists := filter (\<lambda>w. \<not> (w_user w = uid \<and> w_id w = wid)) (watchlists db)\<rparr>, 204)
     else Inl (HTTPException 404))"
proof -
  let ?P = "\<lambda>w. \<not> (w_user w = uid \<and> w_id w = wid)"
  have eq: "(\<lambda>w. w_user w = uid \<longrightarrow> w_id w = wid \<longrightarrow> w_user w \<noteq> uid) = ?P" by auto
  have "(length (filter ?P (watchlists db)) < length (watchlists db)) \<longleftrightarrow>
      (\<exists>w \<in> set (watchlists db). w_id w = wid \<and> w_user w = uid)"
    using length_filter_less [of _ "watchlists db" ?P] filter_id_conv [of ?P "watchlists db"]
    by (metis (no_types, lifting) order_less_irrefl)
  then show ?thesis
    by (simp add: delete_watchlist_def watchlist_delete_def Let_def owner_delete_client [OF assms] eq cong: conj_cong)
qed

section \<open>Privacy between clients\<close>

text \<open>Whatever the two mutating routes do in a session of the API.\<close>

inductive watchlist_write :: "db_session \<Rightarrow> api_db \<Rightarrow> api_db \<Rightarrow> bool" where
  create: "create_watchlist uid ss did name db = Inr (db', r) \<Longrightarrow> watchlist_write ss db db'"
| delete: "delete_watchlist uid ss wid db = Inr (db', r) \<Longrightarrow> watchlist_write ss db db'"

lemma create_watchlist_foreign:
  assumes "client_of ss uid" "create_watchlist p ss did name db = Inr (db', r)"
  shows "foreign w_user uid (watchlists db') = foreign w_user uid (watchlists db)"
proof -
  obtain w where w: "insert_watchlist ss w (db\<lparr>t_next := Suc (t_next db)\<rparr>) = Inr db'"
    using assms(2) by (auto simp: create_watchlist_def watchlist_create_def Let_def bindE_eq_Inr split: option.splits if_splits)
  obtain rows where rows: "owner_insert w_user ss w (watchlists db) = Inr rows" "watchlists db' = rows"
    using w client_ofD(1) [OF assms(1)]
    by (auto simp: insert_watchlist_def trigger_client [OF assms(1)] bindE_eq_Inr split: if_splits)
  show ?thesis using owner_insert_foreign [OF assms(1) rows(1)] rows(2) by simp
qed

lemma delete_watchlist_foreign:
  assumes "client_of ss uid" "delete_watchlist p ss wid db = Inr (db', r)"
  shows "foreign w_user uid (watchlists db') = foreign w_user uid (watchlists db)"
  using assms owner_delete_foreign [OF assms(1)]
  by (auto simp: delete_watchlist_def watchlist_delete_def Let_def bindE_eq_Inr split: if_splits)

interpretation wl: owner_table w_user watchlists select_watchlists watchlist_write
proof
  show "select_watchlists ss st = Inr (filter (\<lambda>w. w_user w = uid) (watchlists st))" if "client_of ss uid" for ss st uid
    using that by (rule select_watchlists_client)
  show "foreign w_user uid (watchlists st') = foreign w_user uid (watchlists st)"
    if "client_of ss uid" "watchlist_write ss st st'" for ss st st' uid
    using that(2,1) by cases (auto dest: create_watchlist_foreign delete_watchlist_foreign)
qed

end
