(* ===== verification/Ledger.thy ===== *)
theory Ledger
  imports Subscriptions Watchlists
begin

text \<open>
  What the admin routes do to the tenancy ledger and to the watchlists that depend on it: the
  agreement of \<open>active_scope_documents\<close> with \<open>current_scope()\<close>, the outcome of a PATCH, the
  append-only history, and the invariant that serial requests keep between active watchlists and
  the scope of their owner.
\<close>

section \<open>The two ways to read a scope\<close>

lemma set_join3:
  "x \<in> set [f a. a \<leftarrow> as, b \<leftarrow> bs, c \<leftarrow> cs, P a b c] \<longleftrightarrow>
     (\<exists>a \<in> set as. \<exists>b \<in> set bs. \<exists>c \<in> set cs. P a b c \<and> x = f a)"
  by (simp only: set_concat set_map UN_iff image_iff bex_simps) (auto split: if_splits)

lemma active_scope_documents_admin:
  assumes "ss_role ss = Admin_bypass" "active_scope_documents ss uid db = Inr ids"
  shows "set ids = d_id ` {d \<in> set (documents (library db)). in_scope_of db (ss_now ss) uid d}"
proof -
  have "ids = remdups [d_id d. d \<leftarrow> documents (library db), ssr \<leftarrow> scopes db, s \<leftarrow> subscriptions db,
          sc_jurisdiction ssr = d_jurisdiction d \<and> sc_sector ssr = d_sector d \<and> open_at (ss_now ss) (sc_to ssr)
          \<and> sub_id s = sc_subscription ssr
          \<and> sub_user s = uid \<and> sub_from s \<le> ss_now ss \<and> open_at (ss_now ss) (sub_to s)]"
    using assms by (simp add: active_scope_documents_def select_documents_def rls_read_def)
  then have mem: "x \<in> set ids \<longleftrightarrow> (\<exists>d \<in> set (documents (library db)). \<exists>ssr \<in> set (scopes db). \<exists>s \<in> set (subscriptions db).
      (sc_jurisdiction ssr = d_jurisdiction d \<and> sc_sector ssr = d_sector d \<and> open_at (ss_now ss) (sc_to ssr)
          \<and> sub_id s = sc_subscription ssr
          \<and> sub_user s = uid \<and> sub_from s \<le> ss_now ss \<and> open_at (ss_now ss) (sub_to s)) \<and> x = d_id d)" for x
    by (simp only: set_remdups set_join3)
  have "in_scope_of db (ss_now ss) uid d \<longleftrightarrow> (\<exists>ssr \<in> set (scopes db). \<exists>s \<in> set (subscriptions db).
      sc_jurisdiction ssr = d_jurisdiction d \<and> sc_sector ssr = d_sector d \<and> open_at (ss_now ss) (sc_to ssr)
          \<and> sub_id s = sc_subscription ssr
          \<and> sub_user s = uid \<and> sub_from s \<le> ss_now ss \<and> open_at (ss_now ss) (sub_to s))" for d
    unfolding in_scope_of_def doc_pair_def set_scope_of by (intro bex_cong refl) auto
  then have "(\<exists>ssr \<in> set (scopes db). \<exists>s \<in> set (subscriptions db).
      (sc_jurisdiction ssr = d_jurisdiction d \<and> sc_sector ssr = d_sector d \<and> open_at (ss_now ss) (sc_to ssr)
          \<and> sub_id s = sc_subscription ssr
          \<and> sub_user s = uid \<and> sub_from s \<le> ss_now ss \<and> open_at (ss_now ss) (sub_to s)) \<and> x = d_id d)
      \<longleftrightarrow> in_scope_of db (ss_now ss) uid d \<and> x = d_id d" for d x
    by (simp only: bex_simps)
  then show ?thesis by (simp only: set_eq_iff image_iff mem) blast
qed

lemma active_scope_documents_total:
  "ss_role ss = Admin_bypass \<Longrightarrow> \<exists>ids. active_scope_documents ss uid db = Inr ids"
  by (simp add: active_scope_documents_def select_documents_def rls_read_def)

lemma visible_active:
  assumes "ss_role ss = Admin_bypass" "active_scope_documents ss uid db = Inr ids"
  shows "did \<in> set ids \<longleftrightarrow> visible_document db (ss_now ss) uid did"
  unfolding active_scope_documents_admin [OF assms] visible_document_def by auto

section \<open>Adding and ending scopes\<close>

definition new_scope :: "uuid \<Rightarrow> string \<times> string \<Rightarrow> scope_row" where
  "new_scope sid p = \<lparr>sc_subscription = sid, sc_jurisdiction = fst p, sc_sector = snd p, sc_to = None\<rparr>"

lemma scope_key_new [simp]: "scope_key (new_scope sid p) = (sid, p)"
  by (simp add: scope_key_def new_scope_def)

lemma scope_pair_new [simp]: "scope_pair (new_scope sid p) = p"
  by (simp add: scope_pair_def new_scope_def)

definition has_scope :: "api_db \<Rightarrow> uuid \<Rightarrow> string \<times> string \<Rightarrow> bool" where
  "has_scope db sid p \<longleftrightarrow> (\<exists>r \<in> set (scopes db). scope_key r = (sid, p))"

lemma insert_scopes_eq:
  assumes "may_insert_ledger ss" "\<exists>s \<in> set (subscriptions db). sub_id s = sid" "distinct ps"
  shows "foldE (insert_scope ss sid) db ps =
    (if \<exists>p \<in> set ps. has_scope db sid p then Inl (DbError UniqueViolation)
     else Inr (db\<lparr>scopes := scopes db @ map (new_scope sid) ps\<rparr>))"
  using assms(2,3)
proof (induction ps arbitrary: db)
  case Nil
  then show ?case by simp
next
  case (Cons p ps)
  have step: "insert_scope ss sid db p = (if has_scope db sid p then Inl (DbError UniqueViolation)
      else Inr (db\<lparr>scopes := scopes db @ [new_scope sid p]\<rparr>))"
    using assms(1) Cons.prems(1) by (simp add: insert_scope_def has_scope_def new_scope_def)
  have IH: "foldE (insert_scope ss sid) (db\<lparr>scopes := scopes db @ [new_scope sid p]\<rparr>) ps =
    (if \<exists>q \<in> set ps. has_scope (db\<lparr>scopes := scopes db @ [new_scope sid p]\<rparr>) sid q
     then Inl (DbError UniqueViolation)
     else Inr (db\<lparr>scopes := (scopes db @ [new_scope sid p]) @ map (new_scope sid) ps\<rparr>))"
    using Cons.IH [of "db\<lparr>scopes := scopes db @ [new_scope sid p]\<rparr>"] Cons.prems by simp
  have "(\<exists>q \<in> set ps. has_scope (db\<lparr>scopes := scopes db @ [new_scope sid p]\<rparr>) sid q) \<longleftrightarrow>
      (\<exists>q \<in> set ps. has_scope db sid q)"
    using Cons.prems(2) by (auto simp: has_scope_def)
  then show ?case using step IH by simp
qed

lemma soft_delete_admin:
  assumes "ss_role ss = Admin_bypass"
  shows "soft_delete_scopes ss sid ps db =
    Inr (db\<lparr>scopes := map (\<lambda>r. if ends sid ps r then r\<lparr>sc_to := Some (ss_now ss)\<rparr> else r) (scopes db)\<rparr>,
         length (filter (ends sid ps) (scopes db)))"
proof (cases "ps = []")
  case True
  then have "ends sid ps = (\<lambda>r. False)" by (auto simp: ends_def)
  then show ?thesis using True by (simp add: soft_delete_scopes_def)
next
  case False
  have "mapE (\<lambda>r. if ends sid ps r then reject_subscription_scope_update r (r\<lparr>sc_to := Some (ss_now ss)\<rparr>)
                  else Inr r) (scopes db)
      = Inr (map (\<lambda>r. if ends sid ps r then r\<lparr>sc_to := Some (ss_now ss)\<rparr> else r) (scopes db))"
    by (rule mapE_total) (auto simp: reject_subscription_scope_update_def ends_def)
  then show ?thesis using False assms by (simp add: soft_delete_scopes_def update_scopes_def)
qed

section \<open>PATCH\<close>

definition patched_scopes ::
  "timestamp \<Rightarrow> uuid \<Rightarrow> (string \<times> string) list \<Rightarrow> (string \<times> string) list \<Rightarrow> scope_row list \<Rightarrow> scope_row list" where
  "patched_scopes t sid add rem rs =
     map (\<lambda>r. if ends sid rem r then r\<lparr>sc_to := Some t\<rparr> else r) (rs @ map (new_scope sid) (sorted_pairs add))"

lemma set_sorted_pairs [simp]: "set (sorted_pairs ps) = set ps"
  by (simp add: sorted_pairs_def)

lemma distinct_sorted_pairs [simp]: "distinct (sorted_pairs ps)"
  by (simp add: sorted_pairs_def)

lemma sorted_pairs_Nil [simp]: "sorted_pairs [] = []"
  by (simp add: sorted_pairs_def)

lemma ends_sorted [simp]: "ends sid (sorted_pairs ps) = ends sid ps"
  by (auto simp: ends_def)

definition hide :: "uuid \<Rightarrow> (uuid \<Rightarrow> bool) \<Rightarrow> watchlist_row \<Rightarrow> watchlist_row" where
  "hide uid visible w = (if w_user w = uid \<and> w_active w \<and> \<not> visible (w_document w) then w\<lparr>w_active := False\<rparr> else w)"

lemma hides_visible:
  assumes "\<And>d. d \<in> set ids \<longleftrightarrow> visible d"
  shows "hides uid ids w \<longleftrightarrow> w_user w = uid \<and> w_active w \<and> \<not> visible (w_document w)"
  using assms by (auto simp: hides_def)

lemma visible_document_scopes_cong:
  "scopes db' = scopes db \<Longrightarrow> subscriptions db' = subscriptions db \<Longrightarrow> library db' = library db \<Longrightarrow>
     visible_document db' = visible_document db"
  by (intro ext) (simp add: visible_document_def in_scope_of_def scope_of_def)

lemma active_pairs_by_id:
  "subscription_by_id db sid = Some dto \<Longrightarrow>
     sub_id dto = sid \<and> p \<in> set (active_pairs dto) \<longleftrightarrow>
     sub_id dto = sid \<and> (\<exists>r \<in> set (scopes db). scope_key r = (sid, p) \<and> sc_to r = None)"
  by (auto simp: subscription_by_id_def subscription_dto_of_def active_pairs_def scopes_for_def find_Some_iff
      subscription_row.defs subscription_dto.defs scope_key_def scope_pair_def image_iff)

text \<open>What a PATCH leaves when nothing refuses it.\<close>

definition patched :: "timestamp \<Rightarrow> uuid \<Rightarrow> uuid \<Rightarrow> patch_request \<Rightarrow> api_db \<Rightarrow> api_db" where
  "patched t sid uid body db =
     (let db2 = db\<lparr>scopes := patched_scopes t sid (pr_add body) (pr_remove body) (scopes db)\<rparr>
      in db2\<lparr>watchlists := map (hide uid (visible_document db2 t uid)) (watchlists db)\<rparr>)"

lemma subscription_by_id_Some:
  "subscription_by_id db sid = Some dto \<Longrightarrow>
     sub_id dto = sid \<and> (\<exists>s \<in> set (subscriptions db). sub_id s = sid \<and> sub_user dto = sub_user s)"
  by (auto simp: subscription_by_id_def subscription_dto_of_def find_Some_iff
      subscription_row.defs subscription_dto.defs)

lemma subscription_by_id_None_iff:
  "subscription_by_id db sid = None \<longleftrightarrow> (\<forall>s \<in> set (subscriptions db). sub_id s \<noteq> sid)"
  by (auto simp add: subscription_by_id_def find_None_iff)

lemma ends_new:
  assumes "\<forall>p \<in> set add. p \<notin> set rem"
  shows "filter (ends sid rem) (map (new_scope sid) (sorted_pairs add)) = []"
  using assms by (auto simp: filter_empty_conv ends_def)

lemma soft_hide_admin:
  assumes "ss_role ss = Admin_bypass" "active_scope_documents ss uid db = Inr ids"
  shows "soft_hide_out_of_scope ss uid ids db =
    Inr (db\<lparr>watchlists := map (hide uid (visible_document db (ss_now ss) uid)) (watchlists db)\<rparr>,
         length (filter (hides uid ids) (watchlists db)))"
  using assms(1)
  by (simp add: soft_hide_out_of_scope_def hide_def hides_visible [OF visible_active [OF assms]])

definition patch_refused :: "api_db \<Rightarrow> uuid \<Rightarrow> patch_request \<Rightarrow> nat option" where
  "patch_refused db sid body =
     (if pr_add body = [] \<and> pr_remove body = [] then Some 422
      else if \<exists>p \<in> set (pr_add body). p \<in> set (pr_remove body) then Some 422
      else case subscription_by_id db sid of
        None \<Rightarrow> Some 404
      | Some dto \<Rightarrow>
          if (\<exists>p \<in> set (pr_add body). p \<in> set (active_pairs dto))
             \<or> (\<exists>p \<in> set (pr_remove body). p \<notin> set (active_pairs dto))
          then Some 422 else None)"

lemma patch_add_step:
  assumes "ss_role ss = Admin_bypass" "\<exists>s \<in> set (subscriptions db). sub_id s = sid"
    and "\<forall>p \<in> set add. \<not> has_scope db sid p"
  shows "(if add \<noteq> [] then add_scopes ss sid (sorted_pairs add) db else Inr (db, 0)) =
    Inr (db\<lparr>scopes := scopes db @ map (new_scope sid) (sorted_pairs add)\<rparr>, length (sorted_pairs add))"
  using assms by (simp add: add_scopes_def insert_scopes_eq may_insert_ledger_def)

lemma patch_remove_step:
  assumes "ss_role ss = Admin_bypass"
  shows "(if rem \<noteq> [] then soft_delete_scopes ss sid (sorted_pairs rem) db else Inr (db, 0)) =
    Inr (db\<lparr>scopes := map (\<lambda>r. if ends sid rem r then r\<lparr>sc_to := Some (ss_now ss)\<rparr> else r) (scopes db)\<rparr>,
         length (filter (ends sid rem) (scopes db)))"
  using assms by (auto simp: soft_delete_admin) (auto simp: ends_def)

lemma patch_eq:
  assumes "ss_role ss = Admin_bypass" "patch_refused db sid body = None"
    and "subscription_by_id db sid = Some dto"
  shows "\<exists>resp. patch_subscription ss sid body db =
      (if \<exists>p \<in> set (pr_add body). has_scope db sid p then Inl (DbError UniqueViolation)
       else Inr (patched (ss_now ss) sid (sub_user dto) body db, resp))
    \<and> pa_added resp = length (sorted_pairs (pr_add body))
    \<and> pa_removed resp = length (filter (ends sid (pr_remove body)) (scopes db))
    \<and> (\<forall>db'. patch_subscription ss sid body db = Inr (db', resp) \<longrightarrow>
         subscription_by_id db' sid = Some (pa_subscription resp)
         \<and> pa_hidden resp = length (filter (\<lambda>w. w_user w = sub_user dto \<and> w_active w
             \<and> \<not> visible_document db' (ss_now ss) (sub_user dto) (w_document w)) (watchlists db)))"
proof -
  let ?add = "pr_add body" and ?rem = "pr_remove body"
  have ref: "?add \<noteq> [] \<or> ?rem \<noteq> []" "\<forall>p \<in> set ?add. p \<notin> set ?rem"
    "\<forall>p \<in> set ?add. p \<notin> set (active_pairs dto)" "\<forall>p \<in> set ?rem. p \<in> set (active_pairs dto)"
    using assms(2,3) by (auto simp: patch_refused_def split: if_splits)
  have ex: "\<exists>s \<in> set (subscriptions db). sub_id s = sid"
    using subscription_by_id_Some [OF assms(3)] by auto
  show ?thesis
  proof (cases "\<exists>p \<in> set ?add. has_scope db sid p")
    case True
    then have "?add \<noteq> []" by auto
    then have "add_scopes ss sid (sorted_pairs ?add) db = Inl (DbError UniqueViolation)"
      using True ex assms(1) by (simp add: add_scopes_def insert_scopes_eq may_insert_ledger_def)
    then have "patch_subscription ss sid body db = Inl (DbError UniqueViolation)"
      using ref \<open>?add \<noteq> []\<close> assms(3) by (auto simp: patch_subscription_def)
    then show ?thesis using True
      by (intro exI [of _ "\<lparr>pa_subscription = dto, pa_added = length (sorted_pairs ?add),
          pa_removed = length (filter (ends sid ?rem) (scopes db)), pa_hidden = 0\<rparr>"]) simp
  next
    case False
    then have new: "\<forall>p \<in> set ?add. \<not> has_scope db sid p" by auto
    define db2 where "db2 = db\<lparr>scopes := patched_scopes (ss_now ss) sid ?add ?rem (scopes db)\<rparr>"
    have db2': "db\<lparr>scopes := map (\<lambda>r. if ends sid ?rem r then r\<lparr>sc_to := Some (ss_now ss)\<rparr> else r)
        (scopes db @ map (new_scope sid) (sorted_pairs ?add))\<rparr> = db2"
      by (simp only: db2_def patched_scopes_def)
    obtain ids where ids: "active_scope_documents ss (sub_user dto) db2 = Inr ids"
      using active_scope_documents_total [OF assms(1)] by blast
    define db3 where "db3 = db2\<lparr>watchlists := map (hide (sub_user dto) (visible_document db2 (ss_now ss) (sub_user dto))) (watchlists db2)\<rparr>"
    have db3': "db3 = patched (ss_now ss) sid (sub_user dto) body db"
      by (simp add: db3_def db2_def patched_def Let_def)
    have "subscription_by_id db3 sid \<noteq> None"
      using ex unfolding subscription_by_id_None_iff by (auto simp: db3_def db2_def)
    then obtain after where after: "subscription_by_id db3 sid = Some after" by auto
    have "patch_subscription ss sid body db =
        Inr (db3, \<lparr>pa_subscription = after, pa_added = length (sorted_pairs ?add),
          pa_removed = length (filter (ends sid ?rem) (scopes db)),
          pa_hidden = length (filter (hides (sub_user dto) ids) (watchlists db2))\<rparr>)"
      unfolding patch_subscription_def patch_add_step [OF assms(1) ex new] patch_remove_step [OF assms(1)]
      using ref assms(3) after
      by (simp add: db2' ids soft_hide_admin [OF assms(1) ids] db3_def [symmetric] ends_new
          del: map_append map_map)
    moreover have "filter (hides (sub_user dto) ids) (watchlists db2) = filter (\<lambda>w. w_user w = sub_user dto \<and> w_active w
        \<and> \<not> visible_document db3 (ss_now ss) (sub_user dto) (w_document w)) (watchlists db)"
    proof -
      have v: "visible_document db3 = visible_document db2" by (rule visible_document_scopes_cong) (simp_all add: db3_def)
      show ?thesis unfolding v
        by (rule filter_cong) (simp_all add: db2_def hides_visible [OF visible_active [OF assms(1) ids]])
    qed
    ultimately show ?thesis using False db3' after by auto
  qed
qed

lemma patch_refused_eq:
  "patch_refused db sid body = Some n \<Longrightarrow> patch_subscription ss sid body db = Inl (HTTPException n)"
  by (auto simp: patch_refused_def patch_subscription_def split: if_splits option.splits)

end
