(* ===== verification/Ledger_Inv.thy ===== *)
theory Ledger_Inv
  imports Ledger
begin

text \<open>
  Sequences of requests on the ledger and the watchlists, one transaction after the other with a
  clock that does not run back: the ledger only grows and its rows only end, and an active
  watchlist always names a document its owner may read.
\<close>

section \<open>Requests\<close>

abbreviation admin_session :: "uuid \<Rightarrow> timestamp \<Rightarrow> db_session" where
  "admin_session aid t \<equiv> \<lparr>ss_role = Admin_bypass, ss_user = Some aid, ss_admin = None, ss_now = t\<rparr>"

definition user_exists :: "api_db \<Rightarrow> uuid \<Rightarrow> bool" where
  "user_exists db uid \<longleftrightarrow> (\<exists>x \<in> set (users db). us_id x = uid)"

inductive request :: "timestamp \<Rightarrow> api_db \<Rightarrow> api_db \<Rightarrow> bool" where
  create_sub: "create_subscription (admin_session aid t) clock body db = Inr (db', r) \<Longrightarrow> request t db db'"
| patch_sub: "patch_subscription (admin_session aid t) sid pbody db = Inr (db', pr) \<Longrightarrow> request t db db'"
| watch: "user_exists db uid \<Longrightarrow> create_watchlist uid (client_session uid t) did name db = Inr (db', wr)
    \<Longrightarrow> request t db db'"
| unwatch: "delete_watchlist uid (client_session uid t) wid db = Inr (db', n) \<Longrightarrow> request t db db'"

inductive history :: "timestamp \<Rightarrow> api_db \<Rightarrow> timestamp \<Rightarrow> api_db \<Rightarrow> bool" for t0 db0 where
  start: "history t0 db0 t0 db0"
| step: "history t0 db0 t db \<Longrightarrow> t \<le> t' \<Longrightarrow> request t' db db' \<Longrightarrow> history t0 db0 t' db'"

text \<open>The four effects.\<close>

lemma create_subscription_effect:
  assumes "create_subscription (admin_session aid t) clock body db = Inr (db', r)"
  obtains s where "sub_id s = t_next db" "sub_to s = None" "user_exists db (sub_user s)"
    "db' = db\<lparr>subscriptions := subscriptions db @ [s], t_next := Suc (t_next db),
              scopes := scopes db @ map (new_scope (t_next db)) (sorted_pairs (cr_scopes body))\<rparr>"
proof -
  let ?from = "case cr_from body of None \<Rightarrow> clock | Some t \<Rightarrow> t"
  let ?s = "\<lparr>sub_id = t_next db, sub_user = cr_user body, sub_from = ?from, sub_to = None, sub_created = t\<rparr>"
  let ?db1 = "db\<lparr>subscriptions := subscriptions db @ [?s], t_next := Suc (t_next db)\<rparr>"
  have "create_for_user (admin_session aid t) (cr_user body) ?from (sorted_pairs (cr_scopes body)) db = Inr (db', r)"
    using assms by (simp add: create_subscription_def split: option.splits)
  then obtain db1 sid where ins: "insert_subscription (admin_session aid t) (cr_user body) ?from db = Inr (db1, sid)"
    and fold: "foldE (insert_scope (admin_session aid t) sid) db1 (sorted_pairs (cr_scopes body)) = Inr db'"
    unfolding create_for_user_def by (force simp: bindE_eq_Inr split: option.splits)
  have db1: "db1 = ?db1" "sid = t_next db" "user_exists db (cr_user body)"
    using ins by (auto simp: insert_subscription_def may_insert_ledger_def user_exists_def split: if_splits)
  have "db' = ?db1\<lparr>scopes := scopes db @ map (new_scope (t_next db)) (sorted_pairs (cr_scopes body))\<rparr>"
    using fold unfolding db1(1,2)
    by (subst (asm) insert_scopes_eq) (auto simp: may_insert_ledger_def split: if_splits)
  then show thesis using that [of ?s] db1(3) by simp
qed

lemma patch_effect:
  assumes "patch_subscription (admin_session aid t) sid body db = Inr (db', r)"
  obtains s where "s \<in> set (subscriptions db)" "sub_id s = sid" "db' = patched t sid (sub_user s) body db"
    "\<forall>p \<in> set (pr_add body). \<not> has_scope db sid p"
proof -
  have none: "patch_refused db sid body = None"
    using assms by (auto simp: patch_refused_def patch_subscription_def split: if_splits option.splits)
  then obtain dto where dto: "subscription_by_id db sid = Some dto"
    by (auto simp: patch_refused_def split: if_splits option.splits)
  obtain s where s: "s \<in> set (subscriptions db)" "sub_id s = sid" "sub_user dto = sub_user s"
    using subscription_by_id_Some [OF dto] by auto
  show thesis
    using patch_eq [of "admin_session aid t", OF _ none dto] assms that [OF s(1,2)] s(3)
    by (auto split: if_splits)
qed

lemma watch_effect:
  assumes "user_exists db uid" "create_watchlist uid (client_session uid t) did name db = Inr (db', r)"
  obtains w where "w_user w = uid" "w_document w = did" "visible_document db t uid did"
    "db' = db\<lparr>watchlists := watchlists db @ [w], t_next := Suc (t_next db)\<rparr>"
proof -
  note eq = create_watchlist_client [of "client_session uid t" uid db did name]
  obtain d where d: "List.find (\<lambda>d. d_id d = did) (filter (in_scope_of db t uid) (documents (library db))) = Some d"
    using assms by (auto simp: eq user_exists_def split: option.splits)
  let ?w = "\<lparr>w_id = t_next db, w_user = uid, w_document = did, w_name = watch_name name d, w_active = True,
    w_created = t\<rparr>"
  have "db' = db\<lparr>watchlists := watchlists db @ [?w], t_next := Suc (t_next db)\<rparr>"
    using assms d by (auto simp: eq user_exists_def Let_def split: if_splits)
  moreover have "visible_document db t uid did"
    using find_filter_Some [OF d] by (auto simp: visible_document_def)
  ultimately show thesis using that [of ?w] by simp
qed

lemma unwatch_effect:
  assumes "delete_watchlist uid (client_session uid t) wid db = Inr (db', r)"
  obtains P where "db' = db\<lparr>watchlists := filter P (watchlists db)\<rparr>"
  using assms delete_watchlist_client [of "client_session uid t" uid wid db] that
  by (auto split: if_splits)

section \<open>The ledger is append-only\<close>

definition row_evolves :: "timestamp \<Rightarrow> timestamp \<Rightarrow> scope_row \<Rightarrow> scope_row \<Rightarrow> bool" where
  "row_evolves t t' r r' \<longleftrightarrow>
     r' = r \<or> (\<exists>e. t \<le> e \<and> e \<le> t' \<and> sc_to r = None \<and> r' = r\<lparr>sc_to := Some e\<rparr>)"

definition ledger_grows :: "timestamp \<Rightarrow> timestamp \<Rightarrow> api_db \<Rightarrow> api_db \<Rightarrow> bool" where
  "ledger_grows t t' db db' \<longleftrightarrow>
     users db' = users db \<and> library db' = library db
     \<and> (\<exists>more. subscriptions db' = subscriptions db @ more)
     \<and> (\<exists>old more. scopes db' = old @ more \<and> list_all2 (row_evolves t t') (scopes db) old)"

lemma row_evolves_refl [simp]: "row_evolves t t' r r"
  by (simp add: row_evolves_def)

lemma row_evolves_trans:
  "row_evolves t t' r r' \<Longrightarrow> row_evolves t' t'' r' r'' \<Longrightarrow> t \<le> t' \<Longrightarrow> t' \<le> t'' \<Longrightarrow> row_evolves t t'' r r''"
  by (force simp: row_evolves_def)

lemma list_all2_row_evolves_refl [simp]: "list_all2 (row_evolves t t') rs rs"
  by (simp add: list.rel_refl)

lemma grows_append [simp]: "\<exists>old. (\<exists>more. rs @ xs = old @ more) \<and> list_all2 (row_evolves t t') rs old"
  by (intro exI [of _ rs]) simp

lemma grows_same [simp]: "\<exists>old. (\<exists>more. rs = old @ more) \<and> list_all2 (row_evolves t t') rs old"
  by (intro exI [of _ rs]) simp

lemma ledger_grows_refl: "ledger_grows t t' db db"
  by (simp add: ledger_grows_def)

lemma ledger_grows_trans:
  assumes "ledger_grows t t' db db'" "ledger_grows t' t'' db' db''" "t \<le> t'" "t' \<le> t''"
  shows "ledger_grows t t'' db db''"
proof -
  obtain m1 o1 a1 where 1: "subscriptions db' = subscriptions db @ m1" "scopes db' = o1 @ a1"
    "list_all2 (row_evolves t t') (scopes db) o1" using assms(1) by (auto simp: ledger_grows_def)
  obtain m2 o2 a2 where 2: "subscriptions db'' = subscriptions db' @ m2" "scopes db'' = o2 @ a2"
    "list_all2 (row_evolves t' t'') (scopes db') o2" using assms(2) by (auto simp: ledger_grows_def)
  obtain p q where pq: "o2 = p @ q" "list_all2 (row_evolves t' t'') o1 p"
    using 2(3) unfolding 1(2) list_all2_append1 by auto
  have "list_all2 (row_evolves t t'') (scopes db) p"
    by (rule list_all2_trans [OF _ 1(3) pq(2)]) (rule row_evolves_trans [OF _ _ assms(3,4)])
  then have "scopes db'' = p @ (q @ a2) \<and> list_all2 (row_evolves t t'') (scopes db) p"
    using 2(2) pq(1) by simp
  then have "\<exists>old more. scopes db'' = old @ more \<and> list_all2 (row_evolves t t'') (scopes db) old" by blast
  moreover have "\<exists>more. subscriptions db'' = subscriptions db @ more" using 1(1) 2(1) by simp
  moreover have "users db'' = users db" "library db'' = library db"
    using assms(1,2) by (simp_all add: ledger_grows_def)
  ultimately show ?thesis by (simp add: ledger_grows_def)
qed

lemma ledger_grows_earlier:
  assumes "ledger_grows t' t'' db db'" "t \<le> t'"
  shows "ledger_grows t t'' db db'"
proof -
  have "list_all2 (row_evolves t t'') rs old" if "list_all2 (row_evolves t' t'') rs old" for rs old
    using that by (rule list_all2_mono) (use assms(2) in \<open>force simp: row_evolves_def\<close>)
  then show ?thesis using assms(1) unfolding ledger_grows_def by blast
qed

lemma patched_simps [simp]:
  "users (patched t sid uid body db) = users db"
  "subscriptions (patched t sid uid body db) = subscriptions db"
  "library (patched t sid uid body db) = library db"
  "t_next (patched t sid uid body db) = t_next db"
  "refresh_tokens (patched t sid uid body db) = refresh_tokens db"
  "access_log (patched t sid uid body db) = access_log db"
  "scopes (patched t sid uid body db) = patched_scopes t sid (pr_add body) (pr_remove body) (scopes db)"
  by (simp_all add: patched_def Let_def)

lemma patched_scopes_evolve:
  "\<exists>old more. patched_scopes t sid add rem rs = old @ more \<and> list_all2 (row_evolves t t) rs old"
proof (intro exI conjI)
  show "patched_scopes t sid add rem rs =
      map (\<lambda>r. if ends sid rem r then r\<lparr>sc_to := Some t\<rparr> else r) rs @
      map (\<lambda>r. if ends sid rem r then r\<lparr>sc_to := Some t\<rparr> else r) (map (new_scope sid) (sorted_pairs add))"
    by (simp add: patched_scopes_def)
  show "list_all2 (row_evolves t t) rs (map (\<lambda>r. if ends sid rem r then r\<lparr>sc_to := Some t\<rparr> else r) rs)"
    by (induction rs) (auto simp: row_evolves_def ends_def)
qed

lemma request_grows:
  assumes "request t db db'"
  shows "ledger_grows t t db db'"
  using assms
proof cases
  case (create_sub aid clock body r)
  then show ?thesis
    by (rule create_subscription_effect) (simp add: ledger_grows_def)
next
  case (patch_sub aid sid pbody pr)
  then show ?thesis
    by (rule patch_effect) (use patched_scopes_evolve in \<open>simp add: ledger_grows_def\<close>)
next
  case (watch uid did name wr)
  then show ?thesis
    by (rule watch_effect) (simp_all add: ledger_grows_def)
next
  case (unwatch uid wid n)
  then show ?thesis
    by (rule unwatch_effect) (simp add: ledger_grows_def)
qed

lemma history_time: "history t0 db0 t db \<Longrightarrow> t0 \<le> t"
  by (induction rule: history.induct) auto

lemma history_grows: "history t0 db0 t db \<Longrightarrow> ledger_grows t0 t db0 db"
proof (induction rule: history.induct)
  case start
  show ?case by (rule ledger_grows_refl)
next
  case (step t db t' db')
  have "ledger_grows t t' db db'"
    using request_grows [OF step.hyps(3)] step.hyps(2) by (rule ledger_grows_earlier)
  then show ?case by (rule ledger_grows_trans [OF step.IH _ history_time [OF step.hyps(1)] step.hyps(2)])
qed

section \<open>Active watchlists stay in scope\<close>

text \<open>No end lies in the future: nothing leaves a scope by the passage of time.\<close>

definition ended_by :: "timestamp \<Rightarrow> timestamp option \<Rightarrow> bool" where
  "ended_by t vt = (case vt of None \<Rightarrow> True | Some e \<Rightarrow> e \<le> t)"

definition settled :: "timestamp \<Rightarrow> api_db \<Rightarrow> bool" where
  "settled t db \<longleftrightarrow>
     list_all (\<lambda>r. ended_by t (sc_to r)) (scopes db) \<and> list_all (\<lambda>s. ended_by t (sub_to s)) (subscriptions db)
     \<and> distinct (map sub_id (subscriptions db)) \<and> list_all (\<lambda>s. sub_id s < t_next db) (subscriptions db)"

definition watches_in_scope :: "timestamp \<Rightarrow> api_db \<Rightarrow> bool" where
  "watches_in_scope t db \<longleftrightarrow>
     list_all (\<lambda>w. w_active w \<longrightarrow> visible_document db t (w_user w) (w_document w)) (watchlists db)"

lemma ended_open: "ended_by t vt \<Longrightarrow> open_at t vt \<Longrightarrow> open_at t' vt"
  by (auto simp: ended_by_def open_at_def split: option.splits)

lemma ended_later: "ended_by t vt \<Longrightarrow> t \<le> t' \<Longrightarrow> ended_by t' vt"
  by (auto simp: ended_by_def split: option.splits)

lemma settled_later: "settled t db \<Longrightarrow> t \<le> t' \<Longrightarrow> settled t' db"
  by (auto simp: settled_def list_all_iff ended_later)

text \<open>What keeps the open scopes of a user keeps the documents in view.\<close>

lemma visible_mono:
  assumes "library db' = library db" "t \<le> t'"
    and subs: "\<And>s. s \<in> set (subscriptions db) \<Longrightarrow> sub_user s = uid \<Longrightarrow> open_at t (sub_to s) \<Longrightarrow>
       s \<in> set (subscriptions db') \<and> open_at t' (sub_to s)"
    and scs: "\<And>r s. r \<in> set (scopes db) \<Longrightarrow> open_at t (sc_to r) \<Longrightarrow> s \<in> set (subscriptions db) \<Longrightarrow>
       sub_id s = sc_subscription r \<Longrightarrow> sub_user s = uid \<Longrightarrow> r \<in> set (scopes db') \<and> open_at t' (sc_to r)"
    and "visible_document db t uid did"
  shows "visible_document db' t' uid did"
proof -
  obtain d where d: "d \<in> set (documents (library db))" "d_id d = did" "in_scope_of db t uid d"
    using assms(5) by (auto simp: visible_document_def)
  obtain r s where rs: "r \<in> set (scopes db)" "s \<in> set (subscriptions db)" "sc_jurisdiction r = d_jurisdiction d"
    "sc_sector r = d_sector d" "sub_id s = sc_subscription r" "sub_user s = uid" "sub_from s \<le> t"
    "open_at t (sub_to s)" "open_at t (sc_to r)"
    using d(3) unfolding in_scope_of_def doc_pair_def set_scope_of by blast
  have "in_scope_of db' t' uid d"
    unfolding in_scope_of_def doc_pair_def set_scope_of
    using subs [OF rs(2,6,8)] scs [OF rs(1,9,2,5,6)] rs assms(2)
    by (intro bexI [of _ r] bexI [of _ s]) auto
  then show ?thesis using d assms(1) by (auto simp: visible_document_def)
qed

lemma visible_later:
  assumes "settled t db" "t \<le> t'" "visible_document db t uid did"
  shows "visible_document db t' uid did"
  by (rule visible_mono [OF refl assms(2) _ _ assms(3)])
    (use assms(1) in \<open>auto simp: settled_def list_all_iff intro: ended_open\<close>)

lemma watches_later: "settled t db \<Longrightarrow> t \<le> t' \<Longrightarrow> watches_in_scope t db \<Longrightarrow> watches_in_scope t' db"
  unfolding watches_in_scope_def list_all_iff by (blast intro: visible_later)

lemma request_settled:
  assumes "request t db db'" "settled t db"
  shows "settled t db'"
  using assms(1)
proof cases
  case (create_sub aid clock body r)
  then show ?thesis
    by (rule create_subscription_effect)
      (use assms(2) in \<open>auto simp: settled_def list_all_iff ended_by_def new_scope_def\<close>)
next
  case (patch_sub aid sid pbody pr)
  then show ?thesis
    by (rule patch_effect)
      (use assms(2) in \<open>auto simp: settled_def list_all_iff patched_scopes_def ended_by_def new_scope_def\<close>)
next
  case (watch uid did name wr)
  then show ?thesis
    by (rule watch_effect) (use assms(2) in \<open>auto simp: settled_def list_all_iff\<close>)
next
  case (unwatch uid wid n)
  then show ?thesis
    by (rule unwatch_effect) (use assms(2) in \<open>auto simp: settled_def list_all_iff\<close>)
qed

text \<open>A PATCH touches no scope of another user, and hides what it takes from the owner.\<close>

lemma patched_visible_other:
  assumes "distinct (map sub_id (subscriptions db))" "s \<in> set (subscriptions db)" "sub_id s = sid"
    and "uid \<noteq> sub_user s" "visible_document db t uid did"
  shows "visible_document (patched t sid (sub_user s) body db) t uid did"
proof (rule visible_mono [OF _ order_refl _ _ assms(5)])
  fix r s'
  assume r: "r \<in> set (scopes db)" "open_at t (sc_to r)" "s' \<in> set (subscriptions db)"
    "sub_id s' = sc_subscription r" "sub_user s' = uid"
  have "sub_id s' \<noteq> sid"
    using assms(1-4) r(3,5) by (metis distinct_map inj_onD)
  then have "\<not> ends sid (pr_remove body) r" using r(4) by (auto simp: ends_def)
  then show "r \<in> set (scopes (patched t sid (sub_user s) body db)) \<and> open_at t (sc_to r)"
    using r(1,2) by (auto simp: patched_scopes_def image_iff intro!: bexI [of _ r])
qed simp_all

lemma visible_patched: "visible_document (patched t sid uid body db) =
    visible_document (db\<lparr>scopes := patched_scopes t sid (pr_add body) (pr_remove body) (scopes db)\<rparr>)"
  by (rule visible_document_scopes_cong) simp_all

lemma watchlists_patched:
  "watchlists (patched t sid uid body db) =
     map (hide uid (visible_document (patched t sid uid body db) t uid)) (watchlists db)"
  unfolding visible_patched by (simp add: patched_def Let_def)

lemma patched_in_scope:
  assumes "distinct (map sub_id (subscriptions db))" "s \<in> set (subscriptions db)" "sub_id s = sid"
    and "watches_in_scope t db"
  shows "watches_in_scope t (patched t sid (sub_user s) body db)"
proof -
  have "w_active (hide (sub_user s) V w) \<longrightarrow> visible_document (patched t sid (sub_user s) body db) t
      (w_user (hide (sub_user s) V w)) (w_document (hide (sub_user s) V w))"
    if "w \<in> set (watchlists db)" "V = visible_document (patched t sid (sub_user s) body db) t (sub_user s)" for w V
    using assms(4) that patched_visible_other [OF assms(1-3)]
    by (cases "w_user w = sub_user s") (auto simp: hide_def watches_in_scope_def list_all_iff)
  then show ?thesis
    unfolding watches_in_scope_def watchlists_patched list_all_iff by simp
qed

lemma request_in_scope:
  assumes "request t db db'" "settled t db" "watches_in_scope t db"
  shows "watches_in_scope t db'"
  using assms(1)
proof cases
  case (create_sub aid clock body r)
  then obtain s where s: "db' = db\<lparr>subscriptions := subscriptions db @ [s], t_next := Suc (t_next db),
      scopes := scopes db @ map (new_scope (t_next db)) (sorted_pairs (cr_scopes body))\<rparr>"
    by (rule create_subscription_effect)
  have "visible_document db t uid did \<Longrightarrow> visible_document db' t uid did" for uid did
    by (rule visible_mono [of db' db t t]) (auto simp: s)
  then show ?thesis using assms(3) by (auto simp: watches_in_scope_def list_all_iff s)
next
  case (patch_sub aid sid pbody pr)
  then show ?thesis
    by (rule patch_effect) (use assms(2,3) patched_in_scope in \<open>simp add: settled_def\<close>)
next
  case (watch uid did name wr)
  then obtain w where w: "w_user w = uid" "w_document w = did" "visible_document db t uid did"
    "db' = db\<lparr>watchlists := watchlists db @ [w], t_next := Suc (t_next db)\<rparr>"
    by (rule watch_effect)
  have "visible_document db' = visible_document db"
    by (rule visible_document_scopes_cong) (simp_all add: w(4))
  then show ?thesis using assms(3) w by (auto simp: watches_in_scope_def list_all_iff)
next
  case (unwatch uid wid n)
  then obtain P where P: "db' = db\<lparr>watchlists := filter P (watchlists db)\<rparr>"
    by (rule unwatch_effect)
  have "visible_document db' = visible_document db"
    by (rule visible_document_scopes_cong) (simp_all add: P)
  then show ?thesis using assms(3) by (auto simp: watches_in_scope_def list_all_iff P)
qed

lemma history_in_scope:
  "history t0 db0 t db \<Longrightarrow> settled t0 db0 \<Longrightarrow> watches_in_scope t0 db0 \<Longrightarrow> settled t db \<and> watches_in_scope t db"
proof (induction rule: history.induct)
  case start
  then show ?case by simp
next
  case (step t db t' db')
  then have "settled t' db" "watches_in_scope t' db" using settled_later watches_later by blast+
  then show ?case using request_settled request_in_scope step.hyps(3) by blast
qed

end
