(* ===== verification/Auth_Routes.thy ===== *)
theory Auth_Routes
  imports Tokens Ledger_Inv
begin

text \<open>
  The authentication dependencies (\<open>deps/auth.py\<close>, \<open>deps/refresh.py\<close>, \<open>deps/anon_session.py\<close>,
  \<open>deps/admin.py\<close>, \<open>deps/session.py\<close>, \<open>deps/admin_or_app.py\<close>), the routes of \<open>routes/auth.py\<close>,
  the audited admin brackets of \<open>core/auth/admin.py\<close> and \<open>admin/impersonate.py\<close>, and
  \<open>core/auth/passwords.py\<close>, over argon2 as a parameter.
\<close>

section \<open>Bearer dependencies\<close>

definition role_value :: "user_role \<Rightarrow> string" where
  "role_value r = (case r of Client \<Rightarrow> ''client'' | Admin \<Rightarrow> ''admin'')"

text \<open>A header that is absent or carries an empty token is refused before the provider sees it.\<close>

definition verify_bearer ::
  "('tok \<Rightarrow> bool) \<Rightarrow> 'tok jwt_lib \<Rightarrow> jwt_config \<Rightarrow> timestamp \<Rightarrow> 'tok option \<Rightarrow> principal_row result" where
  "verify_bearer blank lib cfg clock credentials =
     (case credentials of
        None \<Rightarrow> Inl (HTTPException 401)
      | Some tok \<Rightarrow>
          if blank tok then Inl (HTTPException 401)
          else case verify_token lib cfg clock tok of
            None \<Rightarrow> Inl (HTTPException 401)
          | Some p \<Rightarrow> Inr p)"

definition require_kinds ::
  "token_kind set \<Rightarrow> ('tok \<Rightarrow> bool) \<Rightarrow> 'tok jwt_lib \<Rightarrow> jwt_config \<Rightarrow> timestamp \<Rightarrow> 'tok option \<Rightarrow> principal_row result" where
  "require_kinds accepted blank lib cfg clock credentials =
     bindE (verify_bearer blank lib cfg clock credentials) (\<lambda>p.
       if pr_kind p \<notin> accepted then Inl (HTTPException 401) else Inr p)"

definition require_kind ::
  "token_kind \<Rightarrow> ('tok \<Rightarrow> bool) \<Rightarrow> 'tok jwt_lib \<Rightarrow> jwt_config \<Rightarrow> timestamp \<Rightarrow> 'tok option \<Rightarrow> principal_row result" where
  "require_kind kind = require_kinds {kind}"

definition authenticated_user ::
  "('tok \<Rightarrow> bool) \<Rightarrow> 'tok jwt_lib \<Rightarrow> jwt_config \<Rightarrow> timestamp \<Rightarrow> 'tok option \<Rightarrow> principal_row result" where
  "authenticated_user = require_kinds {Access, Impersonate}"

definition require_admin_principal :: "principal_row \<Rightarrow> principal_row result" where
  "require_admin_principal p = (if pr_role p \<noteq> ''admin'' then Inl (HTTPException 403) else Inr p)"

datatype token_source = Cookie | Header

definition extract_refresh_token ::
  "('tok \<Rightarrow> bool) \<Rightarrow> 'tok option \<Rightarrow> 'tok option \<Rightarrow> ('tok \<times> token_source) option" where
  "extract_refresh_token blank header cookie =
     (case header of
        Some tok \<Rightarrow>
          if \<not> blank tok then Some (tok, Header)
          else (case cookie of Some c \<Rightarrow> if \<not> blank c then Some (c, Cookie) else None | None \<Rightarrow> None)
      | None \<Rightarrow> (case cookie of Some c \<Rightarrow> if \<not> blank c then Some (c, Cookie) else None | None \<Rightarrow> None))"

definition require_refresh_principal ::
  "('tok \<Rightarrow> bool) \<Rightarrow> 'tok jwt_lib \<Rightarrow> jwt_config \<Rightarrow> timestamp \<Rightarrow> 'tok option \<Rightarrow> 'tok option
    \<Rightarrow> (principal_row \<times> token_source) result" where
  "require_refresh_principal blank lib cfg clock header cookie =
     (case extract_refresh_token blank header cookie of
        None \<Rightarrow> Inl (HTTPException 401)
      | Some (tok, source) \<Rightarrow>
          (case verify_token lib cfg clock tok of
             None \<Rightarrow> Inl (HTTPException 401)
           | Some p \<Rightarrow> if pr_kind p \<noteq> Refresh then Inl (HTTPException 401) else Inr (p, source)))"

text \<open>The sessions of the dependencies.\<close>

definition login_session :: "timestamp \<Rightarrow> db_session result" where
  "login_session t = set_local_role ''api_app'' (unauthenticated_session t)"

definition session_for_refresh :: "principal_row \<Rightarrow> timestamp \<Rightarrow> db_session result" where
  "session_for_refresh p t = set_local_role ''api_app'' (session_for_user (pr_user p) t)"

section \<open>UsersRepository\<close>

definition find_by_email :: "api_db \<Rightarrow> string \<Rightarrow> user_row option" where
  "find_by_email db email = List.find (\<lambda>r. us_email r = email) (users db)"

section \<open>Passwords\<close>

text \<open>
  \<open>core/auth/passwords.py\<close> over argon2: \<open>hasher salt plaintext\<close> encodes salt and digest, \<open>check h plaintext\<close>
  is \<open>PasswordHasher.verify\<close>, which returns \<open>True\<close> or raises.
\<close>

datatype argon2_error = VerifyMismatchError | OtherArgon2Error

definition hash_password :: "('salt \<Rightarrow> string \<Rightarrow> string) \<Rightarrow> 'salt \<Rightarrow> string \<Rightarrow> string" where
  "hash_password hasher salt plaintext = hasher salt plaintext"

definition verify_password :: "(string \<Rightarrow> string \<Rightarrow> argon2_error + bool) \<Rightarrow> string \<Rightarrow> string \<Rightarrow> bool result" where
  "verify_password check plaintext password_hash =
     (case check password_hash plaintext of
        Inl VerifyMismatchError \<Rightarrow> Inr False
      | Inl OtherArgon2Error \<Rightarrow> Inl RuntimeError
      | Inr b \<Rightarrow> Inr b)"

definition needs_rehash :: "(string \<Rightarrow> bool) \<Rightarrow> string \<Rightarrow> bool" where
  "needs_rehash check_needs_rehash password_hash = check_needs_rehash password_hash"

section \<open>Login, refresh, logout\<close>

text \<open>What reaches the wire: the body and the \<open>Set-Cookie\<close> value with its lifetime in seconds.\<close>

record 'tok auth_response =
  ar_access :: 'tok
  ar_refresh :: "'tok option"
  ar_cookie :: "('tok \<times> int) option"

text \<open>\<open>str.strip().lower()\<close> of a Latin-1 header value; letters beyond ASCII never matter for the comparison.\<close>

definition lower_char :: "char \<Rightarrow> char" where
  "lower_char c = (if 65 \<le> (of_char c :: nat) \<and> (of_char c :: nat) \<le> 90 then char_of (of_char c + 32 :: nat) else c)"

definition blank_char :: "char \<Rightarrow> bool" where
  "blank_char c \<longleftrightarrow> (of_char c :: nat) \<in> {9, 10, 11, 12, 13, 28, 29, 30, 31, 32, 133, 160}"

definition header_strip :: "string \<Rightarrow> string" where
  "header_strip s = rev (dropWhile blank_char (rev (dropWhile blank_char s)))"

definition is_browser_login :: "string option \<Rightarrow> bool" where
  "is_browser_login ct = (case ct of None \<Rightarrow> False | Some s \<Rightarrow> map lower_char (header_strip s) = ''browser'')"

definition issue_pair_and_shape ::
  "'tok jwt_lib \<Rightarrow> jwt_config \<Rightarrow> timestamp \<Rightarrow> db_session \<Rightarrow> uuid \<Rightarrow> string \<Rightarrow> bool \<Rightarrow> api_db
    \<Rightarrow> (api_db \<times> 'tok auth_response) result" where
  "issue_pair_and_shape lib cfg clock ss uid role is_browser db =
     bindE (issue_token lib cfg clock uid role Access None db) (\<lambda>(db1, access).
     bindE (issue_token lib cfg clock uid role Refresh (Some ss) db1) (\<lambda>(db2, refresh).
       Inr (db2,
         if is_browser
         then \<lparr>ar_access = access, ar_refresh = None, ar_cookie = Some (refresh, 30 * 24 * 60 * 60)\<rparr>
         else \<lparr>ar_access = access, ar_refresh = Some refresh, ar_cookie = None\<rparr>)))"

text \<open>\<open>verify plaintext hash\<close> is \<open>verify_password\<close>; a corrupted hash raises.\<close>

definition login ::
  "(string \<Rightarrow> string \<Rightarrow> bool result) \<Rightarrow> string \<Rightarrow> 'tok jwt_lib \<Rightarrow> jwt_config \<Rightarrow> timestamp \<Rightarrow> db_session
    \<Rightarrow> string \<Rightarrow> string \<Rightarrow> string option \<Rightarrow> api_db \<Rightarrow> (api_db \<times> 'tok auth_response) result" where
  "login verify dummy lib cfg clock ss email password client_type db =
     (case find_by_email db email of
        None \<Rightarrow> bindE (verify password dummy) (\<lambda>_. Inl (HTTPException 401))
      | Some user \<Rightarrow>
          bindE (verify password (us_password_hash user)) (\<lambda>ok.
            if \<not> ok then Inl (HTTPException 401)
            else issue_pair_and_shape lib cfg clock (bind_app_user_id (us_id user) ss) (us_id user)
                   (role_value (us_role user)) (is_browser_login client_type) db))"

definition refresh ::
  "'tok jwt_lib \<Rightarrow> jwt_config \<Rightarrow> timestamp \<Rightarrow> principal_row \<times> token_source \<Rightarrow> db_session \<Rightarrow> api_db
    \<Rightarrow> (api_db \<times> 'tok auth_response) result" where
  "refresh lib cfg clock verified ss db =
     (case verified of (p, source) \<Rightarrow>
        bindE (refresh_revoke ss (pr_jti p) (pr_user p) clock db) (\<lambda>(db1, revoked).
          if \<not> revoked then Inl (HTTPException 401)
          else case user_by_id db1 (pr_user p) of
            None \<Rightarrow> Inl (HTTPException 401)
          | Some user \<Rightarrow>
              issue_pair_and_shape lib cfg clock ss (us_id user) (role_value (us_role user))
                (source = Cookie) db1))"

text \<open>The second component: whether the response clears the cookie.\<close>

definition logout ::
  "timestamp \<Rightarrow> principal_row \<times> token_source \<Rightarrow> db_session \<Rightarrow> api_db \<Rightarrow> (api_db \<times> bool) result" where
  "logout clock verified ss db =
     (case verified of (p, source) \<Rightarrow>
        bindE (refresh_revoke ss (pr_jti p) (pr_user p) clock db) (\<lambda>(db1, revoked).
          if \<not> revoked then Inl (HTTPException 401) else Inr (db1, source = Cookie)))"

text \<open>The whole request: dependency, session, handler, commit or rollback.\<close>

definition refresh_request ::
  "('tok \<Rightarrow> bool) \<Rightarrow> 'tok jwt_lib \<Rightarrow> jwt_config \<Rightarrow> timestamp \<Rightarrow> 'tok option \<Rightarrow> 'tok option \<Rightarrow> api_db
    \<Rightarrow> api_db \<times> 'tok auth_response result" where
  "refresh_request blank lib cfg clock header cookie =
     transaction (\<lambda>db.
       bindE (require_refresh_principal blank lib cfg clock header cookie) (\<lambda>verified.
       bindE (session_for_refresh (fst verified) clock) (\<lambda>ss. refresh lib cfg clock verified ss db)))"

definition logout_request ::
  "('tok \<Rightarrow> bool) \<Rightarrow> 'tok jwt_lib \<Rightarrow> jwt_config \<Rightarrow> timestamp \<Rightarrow> 'tok option \<Rightarrow> 'tok option \<Rightarrow> api_db
    \<Rightarrow> api_db \<times> bool result" where
  "logout_request blank lib cfg clock header cookie =
     transaction (\<lambda>db.
       bindE (require_refresh_principal blank lib cfg clock header cookie) (\<lambda>verified.
       bindE (session_for_refresh (fst verified) clock) (\<lambda>ss. logout clock verified ss db)))"

definition login_request ::
  "(string \<Rightarrow> string \<Rightarrow> bool result) \<Rightarrow> string \<Rightarrow> 'tok jwt_lib \<Rightarrow> jwt_config \<Rightarrow> timestamp
    \<Rightarrow> string \<Rightarrow> string \<Rightarrow> string option \<Rightarrow> api_db \<Rightarrow> api_db \<times> 'tok auth_response result" where
  "login_request verify dummy lib cfg clock email password client_type =
     transaction (\<lambda>db. bindE (login_session clock) (\<lambda>ss.
       login verify dummy lib cfg clock ss email password client_type db))"

section \<open>The admin access log\<close>

definition insert_access_log :: "db_session \<Rightarrow> access_log_row \<Rightarrow> api_db \<Rightarrow> api_db result" where
  "insert_access_log ss r db =
     (if ss_role ss \<noteq> Admin_bypass then Inl (DbError InsufficientPrivilege)
      else if (al_mode r = Operator) \<noteq> (al_target r = None) then Inl (DbError CheckViolation)
      else if \<not> user_exists db (al_admin r) then Inl (DbError ForeignKeyViolation)
      else if (case al_target r of None \<Rightarrow> False | Some x \<Rightarrow> \<not> user_exists db x) then Inl (DbError ForeignKeyViolation)
      else Inr (db\<lparr>access_log := access_log db @ [r]\<rparr>))"

text \<open>\<open>AdminAccessLogRepository.record\<close>; the id and the moment are column defaults.\<close>

definition record_access ::
  "db_session \<Rightarrow> access_mode \<Rightarrow> uuid \<Rightarrow> uuid option \<Rightarrow> uuid option \<Rightarrow> string option \<Rightarrow> timestamp \<Rightarrow> api_db \<Rightarrow> api_db result" where
  "record_access ss mode aid target token reason t db =
     insert_access_log ss
       \<lparr>al_id = t_next db, al_admin = aid, al_target = target, al_mode = mode, al_token = token,
        al_reason = reason, al_at = t\<rparr> (db\<lparr>t_next := Suc (t_next db)\<rparr>)"

definition record_audit_row ::
  "timestamp \<Rightarrow> access_mode \<Rightarrow> uuid \<Rightarrow> uuid option \<Rightarrow> uuid option \<Rightarrow> string option \<Rightarrow> api_db \<Rightarrow> api_db \<times> unit result" where
  "record_audit_row t mode aid target token reason =
     transaction (\<lambda>db.
       bindE (set_local_role ''admin_bypass'' (session_for_user aid t)) (\<lambda>ss.
         bindE (record_access ss mode aid target token reason t db)
           (\<lambda>db'. Inr (db', ()))))"

text \<open>
  The brackets as functions of the body that runs in the session they yield. The audit row has
  its own transaction, which has committed before the body starts. \<open>token\<close> is the placeholder id.
\<close>

definition admin_operator_session ::
  "timestamp \<Rightarrow> uuid \<Rightarrow> string option \<Rightarrow> (db_session \<Rightarrow> api_db \<Rightarrow> (api_db \<times> 'a) result) \<Rightarrow> api_db
    \<Rightarrow> api_db \<times> 'a result" where
  "admin_operator_session t aid reason body db =
     (let token = t_next db; db0 = db\<lparr>t_next := Suc (t_next db)\<rparr>
      in case record_audit_row t Operator aid None (Some token) reason db0 of
           (db1, Inl e) \<Rightarrow> (db1, Inl e)
         | (db1, Inr _) \<Rightarrow>
             transaction (\<lambda>d. bindE (set_local_role ''admin_bypass'' (session_for_user aid t)) (\<lambda>ss. body ss d)) db1)"

definition admin_impersonation_session ::
  "timestamp \<Rightarrow> uuid \<Rightarrow> uuid \<Rightarrow> string option \<Rightarrow> (db_session \<Rightarrow> api_db \<Rightarrow> (api_db \<times> 'a) result) \<Rightarrow> api_db
    \<Rightarrow> api_db \<times> 'a result" where
  "admin_impersonation_session t aid target reason body db =
     (let token = t_next db; db0 = db\<lparr>t_next := Suc (t_next db)\<rparr>
      in case record_audit_row t Impersonation aid (Some target) (Some token) reason db0 of
           (db1, Inl e) \<Rightarrow> (db1, Inl e)
         | (db1, Inr _) \<Rightarrow>
             transaction (\<lambda>d. bindE (set_local_role ''api_app''
                 (bind_impersonation_admin_id aid (session_for_user target t))) (\<lambda>ss. body ss d)) db1)"

text \<open>\<open>session_for_request_or_admin\<close>, and \<open>admin_or_app_session\<close>, which also gives the request path as the reason.\<close>

definition session_for_request_or_admin ::
  "timestamp \<Rightarrow> principal_row \<Rightarrow> (db_session \<Rightarrow> api_db \<Rightarrow> (api_db \<times> 'a) result) \<Rightarrow> api_db \<Rightarrow> api_db \<times> 'a result" where
  "session_for_request_or_admin t p body =
     (if pr_role p = ''admin'' then admin_operator_session t (pr_user p) None body
      else transaction (\<lambda>d. bindE (session_for_request (pr_user p) t) (\<lambda>ss. body ss d)))"

definition admin_or_app_session ::
  "timestamp \<Rightarrow> principal_row \<Rightarrow> string \<Rightarrow> (db_session \<Rightarrow> api_db \<Rightarrow> (api_db \<times> 'a) result) \<Rightarrow> api_db
    \<Rightarrow> api_db \<times> 'a result" where
  "admin_or_app_session t p url body =
     (if pr_role p = ''admin'' then admin_operator_session t (pr_user p) (Some url) body
      else transaction (\<lambda>d. bindE (session_for_request (pr_user p) t) (\<lambda>ss. body ss d)))"

text \<open>An admin request: both dependencies, then the handler in the operator session.\<close>

definition admin_request ::
  "('tok \<Rightarrow> bool) \<Rightarrow> 'tok jwt_lib \<Rightarrow> jwt_config \<Rightarrow> timestamp \<Rightarrow> 'tok option
    \<Rightarrow> (principal_row \<Rightarrow> db_session \<Rightarrow> api_db \<Rightarrow> (api_db \<times> 'a) result) \<Rightarrow> api_db \<Rightarrow> api_db \<times> 'a result" where
  "admin_request blank lib cfg t bearer handler db =
     (case bindE (authenticated_user blank lib cfg t bearer) require_admin_principal of
        Inl e \<Rightarrow> (db, Inl e)
      | Inr p \<Rightarrow> admin_operator_session t (pr_user p) None (handler p) db)"

section \<open>Impersonation\<close>

record 'tok impersonate_response =
  im_token :: 'tok
  im_target :: uuid
  im_target_email :: string
  im_admin :: uuid
  im_admin_email :: string
  im_expires_in :: int

definition check_impersonation :: "api_db \<Rightarrow> uuid \<Rightarrow> uuid \<Rightarrow> (user_row \<times> user_row) result" where
  "check_impersonation db aid target =
     (case user_by_id db aid of
        None \<Rightarrow> Inl (HTTPException 401)
      | Some admin_row \<Rightarrow>
          (case user_by_id db target of
             None \<Rightarrow> Inl (HTTPException 404)
           | Some target_row \<Rightarrow>
               if us_id target_row = aid then Inl (HTTPException 422)
               else if us_role target_row \<noteq> Client then Inl (HTTPException 422)
               else Inr (admin_row, target_row)))"

text \<open>
  The handler opens the impersonation bracket while the operator session is open; that session
  has only read, so its commit changes nothing and the order of the two commits is immaterial.
\<close>

definition begin_impersonation ::
  "('tok \<Rightarrow> bool) \<Rightarrow> 'tok jwt_lib \<Rightarrow> jwt_config \<Rightarrow> timestamp \<Rightarrow> 'tok option \<Rightarrow> uuid \<Rightarrow> string option \<Rightarrow> api_db
    \<Rightarrow> api_db \<times> 'tok impersonate_response result" where
  "begin_impersonation blank lib cfg t bearer target reason db =
     (case admin_request blank lib cfg t bearer
             (\<lambda>p ss d. bindE (check_impersonation d (pr_user p) target) (\<lambda>rows. Inr (d, (p, rows)))) db of
        (db1, Inl e) \<Rightarrow> (db1, Inl e)
      | (db1, Inr (p, admin_row, target_row)) \<Rightarrow>
          (case admin_impersonation_session t (pr_user p) (us_id target_row) reason (\<lambda>ss d. Inr (d, ())) db1 of
             (db2, Inl e) \<Rightarrow> (db2, Inl e)
           | (db2, Inr _) \<Rightarrow>
               transaction (\<lambda>d.
                 bindE (issue_token lib cfg t (us_id target_row) (role_value Client) Impersonate None d) (\<lambda>(d', tok).
                   Inr (d', \<lparr>im_token = tok, im_target = us_id target_row, im_target_email = us_email target_row,
                             im_admin = pr_user p, im_admin_email = us_email admin_row,
                             im_expires_in = 15 * 60\<rparr>))) db2))"

end
