(* ===== verification/Auth_Correct.thy ===== *)
theory Auth_Correct
  imports Auth_Routes
begin

text \<open>
  What the authentication routes guarantee: the outcome of a refresh, rotation that consumes
  every refresh token at most once over any sequence of requests, audit rows that no failure of
  a handler removes, and the conditions under which an impersonation token is minted.
\<close>

section \<open>The registry\<close>

definition registry_ok :: "api_db \<Rightarrow> bool" where
  "registry_ok db \<longleftrightarrow> distinct (map rt_jti (refresh_tokens db))
     \<and> list_all (\<lambda>r. rt_jti r < t_next db \<and> user_exists db (rt_user r)) (refresh_tokens db)"

lemma registry_ok_jti: "registry_ok db \<Longrightarrow> r \<in> set (refresh_tokens db) \<Longrightarrow> rt_jti r < t_next db"
  by (simp add: registry_ok_def list_all_iff)

lemma registry_ok_user: "registry_ok db \<Longrightarrow> r \<in> set (refresh_tokens db) \<Longrightarrow> user_exists db (rt_user r)"
  by (simp add: registry_ok_def list_all_iff)

lemma registry_ok_inj:
  "registry_ok db \<Longrightarrow> r \<in> set (refresh_tokens db) \<Longrightarrow> r' \<in> set (refresh_tokens db) \<Longrightarrow> rt_jti r = rt_jti r' \<Longrightarrow> r = r'"
  by (auto simp: registry_ok_def distinct_map dest: inj_onD)

lemma registry_ok_bump: "registry_ok db \<Longrightarrow> registry_ok (db\<lparr>t_next := Suc (t_next db)\<rparr>)"
  by (auto simp: registry_ok_def list_all_iff user_exists_def less_SucI)

definition new_refresh :: "jwt_config \<Rightarrow> timestamp \<Rightarrow> uuid \<Rightarrow> uuid \<Rightarrow> refresh_row" where
  "new_refresh cfg clock uid jti =
     \<lparr>rt_jti = jti, rt_user = uid, rt_issued = clock, rt_expires = clock + jc_ttl cfg Refresh, rt_revoked = None\<rparr>"

text \<open>The pair: an access token, then a refresh token whose row is in the registry.\<close>

definition pair_db :: "jwt_config \<Rightarrow> timestamp \<Rightarrow> uuid \<Rightarrow> api_db \<Rightarrow> api_db" where
  "pair_db cfg clock uid db =
     db\<lparr>refresh_tokens := refresh_tokens db @ [new_refresh cfg clock uid (Suc (t_next db))],
        t_next := Suc (Suc (t_next db))\<rparr>"

definition pair_response :: "'tok jwt_lib \<Rightarrow> jwt_config \<Rightarrow> timestamp \<Rightarrow> uuid \<Rightarrow> string \<Rightarrow> bool \<Rightarrow> api_db \<Rightarrow> 'tok auth_response" where
  "pair_response lib cfg clock uid role is_browser db =
     (let access = jwt_encode lib (token_claims lib cfg clock (t_next db) uid role Access) (jc_algorithm cfg);
          refresh = jwt_encode lib (token_claims lib cfg clock (Suc (t_next db)) uid role Refresh) (jc_algorithm cfg)
      in if is_browser
         then \<lparr>ar_access = access, ar_refresh = None, ar_cookie = Some (refresh, 30 * 24 * 60 * 60)\<rparr>
         else \<lparr>ar_access = access, ar_refresh = Some refresh, ar_cookie = None\<rparr>)"

lemma issue_pair_fresh:
  assumes "client_of ss uid" "user_exists db uid" "\<forall>r \<in> set (refresh_tokens db). rt_jti r < t_next db"
  shows "issue_pair_and_shape lib cfg clock ss uid role is_browser db =
    Inr (pair_db cfg clock uid db, pair_response lib cfg clock uid role is_browser db)"
proof -
  have fresh: "\<not> (\<exists>x \<in> set (refresh_tokens db). rt_jti x = Suc (t_next db))"
    using assms(3) by fastforce
  have user: "\<exists>x \<in> set (users db). us_id x = uid" using assms(2) by (simp add: user_exists_def)
  have "issue_token lib cfg clock uid role Refresh (Some ss) (db\<lparr>t_next := Suc (t_next db)\<rparr>) =
      Inr (pair_db cfg clock uid db,
           jwt_encode lib (token_claims lib cfg clock (Suc (t_next db)) uid role Refresh) (jc_algorithm cfg))"
    using fresh user
    by (simp add: issue_token_def Let_def refresh_record_def insert_refresh_token_def
        owner_insert_client [OF assms(1)] pair_db_def new_refresh_def)
  then show ?thesis
    by (simp add: issue_pair_and_shape_def issue_token_non_refresh pair_response_def Let_def)
qed

lemma issue_pair_eq:
  assumes "client_of ss uid" "user_exists db uid" "registry_ok db"
  shows "issue_pair_and_shape lib cfg clock ss uid role is_browser db =
    Inr (pair_db cfg clock uid db, pair_response lib cfg clock uid role is_browser db)"
  using issue_pair_fresh [OF assms(1,2)] registry_ok_jti [OF assms(3)] by blast

lemma registry_ok_pair:
  assumes "registry_ok db" "user_exists db uid"
  shows "registry_ok (pair_db cfg clock uid db)"
proof -
  have "\<forall>r \<in> set (refresh_tokens db). rt_jti r < t_next db \<and> user_exists db (rt_user r)"
    "distinct (map rt_jti (refresh_tokens db))"
    using assms(1) by (simp_all add: registry_ok_def list_all_iff)
  then show ?thesis
    using assms(2) by (fastforce simp: registry_ok_def pair_db_def new_refresh_def list_all_iff user_exists_def)
qed

definition marked :: "timestamp \<Rightarrow> uuid \<Rightarrow> uuid \<Rightarrow> api_db \<Rightarrow> api_db" where
  "marked t jti uid db =
     db\<lparr>refresh_tokens := map (\<lambda>r. if live_token jti uid r then r\<lparr>rt_revoked := Some t\<rparr> else r) (refresh_tokens db)\<rparr>"

lemma map_jti_marked: "map rt_jti (refresh_tokens (marked t jti uid db)) = map rt_jti (refresh_tokens db)"
  by (simp add: marked_def)

lemma registry_ok_marked:
  assumes "registry_ok db" shows "registry_ok (marked t jti uid db)"
proof -
  have "distinct (map rt_jti (refresh_tokens (marked t jti uid db)))"
    using assms unfolding map_jti_marked registry_ok_def by simp
  then show ?thesis using assms
    by (auto simp: registry_ok_def marked_def list_all_iff user_exists_def)
qed

lemma marked_fields [simp]:
  "users (marked t jti uid db) = users db" "t_next (marked t jti uid db) = t_next db"
  "user_exists (marked t jti uid db) = user_exists db" "access_log (marked t jti uid db) = access_log db"
  by (simp_all add: marked_def user_exists_def fun_eq_iff)

lemma pair_db_fields [simp]:
  "users (pair_db cfg clock uid db) = users db" "access_log (pair_db cfg clock uid db) = access_log db"
  by (simp_all add: pair_db_def)

definition has_live :: "api_db \<Rightarrow> uuid \<Rightarrow> uuid \<Rightarrow> bool" where
  "has_live db jti uid \<longleftrightarrow> (\<exists>r \<in> set (refresh_tokens db). live_token jti uid r)"

section \<open>Refresh and logout\<close>

lemma session_for_refresh_eq [simp]: "session_for_refresh p t = Inr (client_session (pr_user p) t)"
  by (simp add: session_for_refresh_def session_for_user_def set_local_role_def role_of_name_def)

lemma user_by_id_exists: "user_exists db uid \<Longrightarrow> \<exists>u. user_by_id db uid = Some u \<and> us_id u = uid"
  unfolding user_by_id_def user_exists_def
  by (cases "List.find (\<lambda>r. us_id r = uid) (users db)") (auto simp: find_None_iff find_Some_iff)

definition current_role :: "api_db \<Rightarrow> uuid \<Rightarrow> string" where
  "current_role db uid = (case user_by_id db uid of None \<Rightarrow> [] | Some usr \<Rightarrow> role_value (us_role usr))"

lemma refresh_request_eq:
  assumes "registry_ok db"
  shows "refresh_request blank lib cfg clock header cookie db =
    (case require_refresh_principal blank lib cfg clock header cookie of
       Inl e \<Rightarrow> (db, Inl e)
     | Inr (p, source) \<Rightarrow>
         if has_live db (pr_jti p) (pr_user p)
         then let db1 = marked clock (pr_jti p) (pr_user p) db
              in (pair_db cfg clock (pr_user p) db1,
                  Inr (pair_response lib cfg clock (pr_user p) (current_role db (pr_user p)) (source = Cookie) db1))
         else (db, Inl (HTTPException 401)))"
proof (cases "require_refresh_principal blank lib cfg clock header cookie")
  case (Inl e)
  then show ?thesis by (simp add: refresh_request_def transaction_def)
next
  case (Inr v)
  obtain p source where v: "v = (p, source)" by (cases v)
  let ?db1 = "marked clock (pr_jti p) (pr_user p) db"
  have rev: "refresh_revoke (client_session (pr_user p) clock) (pr_jti p) (pr_user p) clock db =
      Inr (?db1, has_live db (pr_jti p) (pr_user p))"
    by (simp add: refresh_revoke_client [OF client_session_of] marked_def has_live_def)
  show ?thesis
  proof (cases "has_live db (pr_jti p) (pr_user p)")
    case False
    then show ?thesis using Inr v rev by (simp add: refresh_request_def transaction_def refresh_def)
  next
    case True
    then have ex: "user_exists db (pr_user p)"
      using registry_ok_user [OF assms] by (force simp: has_live_def live_token_def)
    obtain usr where usr: "user_by_id db (pr_user p) = Some usr" "us_id usr = pr_user p"
      using user_by_id_exists [OF ex] by blast
    have usr1: "user_by_id ?db1 (pr_user p) = Some usr" using usr(1) by (simp add: user_by_id_def)
    have ex1: "user_exists ?db1 (pr_user p)" using ex by simp
    have pair: "issue_pair_and_shape lib cfg clock (client_session (pr_user p) clock) (pr_user p)
        (role_value (us_role usr)) b ?db1
      = Inr (pair_db cfg clock (pr_user p) ?db1, pair_response lib cfg clock (pr_user p) (role_value (us_role usr)) b ?db1)" for b
      by (rule issue_pair_eq [OF client_session_of ex1 registry_ok_marked [OF assms]])
    show ?thesis
      using Inr v rev True usr usr1 pair
      by (simp add: refresh_request_def transaction_def refresh_def current_role_def Let_def)
  qed
qed

lemma logout_request_eq:
  "logout_request blank lib cfg clock header cookie db =
    (case require_refresh_principal blank lib cfg clock header cookie of
       Inl e \<Rightarrow> (db, Inl e)
     | Inr (p, source) \<Rightarrow>
         if has_live db (pr_jti p) (pr_user p)
         then (marked clock (pr_jti p) (pr_user p) db, Inr (source = Cookie))
         else (db, Inl (HTTPException 401)))"
  by (auto simp: logout_request_def transaction_def logout_def refresh_revoke_client [OF client_session_of]
      marked_def has_live_def split: sum.split)

lemma login_request_cases:
  assumes "registry_ok db" "login_request verify dummy lib cfg clock email password ct db = (db', r)"
  obtains (refused) e where "db' = db" "r = Inl e"
  | (granted) usr where "find_by_email db email = Some usr" "verify password (us_password_hash usr) = Inr True"
      "db' = pair_db cfg clock (us_id usr) db"
      "r = Inr (pair_response lib cfg clock (us_id usr) (role_value (us_role usr)) (is_browser_login ct) db)"
proof -
  have ls: "login_session clock = Inr \<lparr>ss_role = Api_app, ss_user = None, ss_admin = None, ss_now = clock\<rparr>"
    by (simp add: login_session_def set_local_role_def role_of_name_def unauthenticated_session_def)
  show thesis
  proof (cases "find_by_email db email")
    case None
    then show thesis using assms(2) refused
      by (cases "verify password dummy") (auto simp: login_request_def transaction_def ls login_def)
  next
    case (Some usr)
    have ex: "user_exists db (us_id usr)"
      using Some by (auto simp: find_by_email_def find_Some_iff user_exists_def)
    have cl: "client_of (bind_app_user_id (us_id usr) \<lparr>ss_role = Api_app, ss_user = None, ss_admin = None, ss_now = clock\<rparr>) (us_id usr)"
      by (simp add: client_of_def bind_app_user_id_def)
    consider (err) e where "verify password (us_password_hash usr) = Inl e"
      | (no) "verify password (us_password_hash usr) = Inr False"
      | (yes) "verify password (us_password_hash usr) = Inr True"
      by (cases "verify password (us_password_hash usr)") auto
    then show thesis
    proof cases
      case err
      then show thesis using Some assms(2) refused by (auto simp: login_request_def transaction_def ls login_def)
    next
      case no
      then show thesis using Some assms(2) refused by (auto simp: login_request_def transaction_def ls login_def)
    next
      case yes
      then have "db' = pair_db cfg clock (us_id usr) db"
        "r = Inr (pair_response lib cfg clock (us_id usr) (role_value (us_role usr)) (is_browser_login ct) db)"
        using Some assms(2) by (auto simp: login_request_def transaction_def ls login_def issue_pair_eq [OF cl ex assms(1)])
      then show thesis using granted [OF Some yes] by blast
    qed
  qed
qed

text \<open>
  Over argon2: who proves the password of an account gets its tokens, whatever the salt of its hash was; a
  mismatch is refused with 401, as an unknown address is. No login changes a stored hash.
\<close>

lemma verify_hashed: "check (hasher salt p) p = Inr True \<Longrightarrow> verify_password check p (hash_password hasher salt p) = Inr True"
  by (simp add: verify_password_def hash_password_def)

lemma verify_mismatch: "check h p = Inl VerifyMismatchError \<Longrightarrow> verify_password check p h = Inr False"
  by (simp add: verify_password_def)

lemma login_refused:
  assumes "check dummy password = Inl VerifyMismatchError"
    and "\<And>usr. find_by_email db email = Some usr \<Longrightarrow> check (us_password_hash usr) password = Inl VerifyMismatchError"
  shows "login_request (verify_password check) dummy lib cfg clock email password ct db = (db, Inl (HTTPException 401))"
proof -
  have "login (verify_password check) dummy lib cfg clock ss email password ct db = Inl (HTTPException 401)" for ss
    using assms by (auto simp: login_def verify_mismatch split: option.split)
  then show ?thesis
    by (simp add: login_request_def transaction_def login_session_def set_local_role_def role_of_name_def)
qed

lemma login_keeps_hashes:
  assumes "registry_ok db" "login_request verify dummy lib cfg clock email password ct db = (db', r)"
  shows "users db' = users db"
  using assms(2) by (rule login_request_cases [OF assms(1)]) simp_all

section \<open>A refresh token is consumed at most once\<close>

text \<open>
  Any sequence of the three routes with any outcome; the list collects the \<open>jti\<close> of every token
  that a refresh or a logout accepted.
\<close>

inductive auth_run ::
  "('tok \<Rightarrow> bool) \<Rightarrow> 'tok jwt_lib \<Rightarrow> jwt_config \<Rightarrow> (string \<Rightarrow> string \<Rightarrow> bool result) \<Rightarrow> string \<Rightarrow> api_db
    \<Rightarrow> uuid list \<Rightarrow> api_db \<Rightarrow> bool"
  for blank lib cfg verify dummy db0 where
  start: "auth_run blank lib cfg verify dummy db0 [] db0"
| log_in: "auth_run blank lib cfg verify dummy db0 js db \<Longrightarrow>
    login_request verify dummy lib cfg t email password ct db = (db', r) \<Longrightarrow>
    auth_run blank lib cfg verify dummy db0 js db'"
| rotate: "auth_run blank lib cfg verify dummy db0 js db \<Longrightarrow>
    require_refresh_principal blank lib cfg t header cookie = Inr (p, src) \<Longrightarrow>
    refresh_request blank lib cfg t header cookie db = (db', Inr resp) \<Longrightarrow>
    auth_run blank lib cfg verify dummy db0 (js @ [pr_jti p]) db'"
| rotate_refused: "auth_run blank lib cfg verify dummy db0 js db \<Longrightarrow>
    refresh_request blank lib cfg t header cookie db = (db', Inl e) \<Longrightarrow>
    auth_run blank lib cfg verify dummy db0 js db'"
| log_out: "auth_run blank lib cfg verify dummy db0 js db \<Longrightarrow>
    require_refresh_principal blank lib cfg t header cookie = Inr (p, src) \<Longrightarrow>
    logout_request blank lib cfg t header cookie db = (db', Inr clear) \<Longrightarrow>
    auth_run blank lib cfg verify dummy db0 (js @ [pr_jti p]) db'"
| log_out_refused: "auth_run blank lib cfg verify dummy db0 js db \<Longrightarrow>
    logout_request blank lib cfg t header cookie db = (db', Inl e) \<Longrightarrow>
    auth_run blank lib cfg verify dummy db0 js db'"

definition spent :: "api_db \<Rightarrow> uuid \<Rightarrow> bool" where
  "spent db jti \<longleftrightarrow> (\<exists>r \<in> set (refresh_tokens db). rt_jti r = jti \<and> rt_revoked r \<noteq> None)"

lemma spent_marked: "spent db j \<Longrightarrow> spent (marked t jti uid db) j"
  by (auto simp: spent_def marked_def live_token_def image_iff intro!: bexI)

lemma spent_pair: "spent db j \<Longrightarrow> spent (pair_db cfg clock uid db) j"
  by (auto simp: spent_def pair_db_def)

lemma marked_spends: "has_live db jti uid \<Longrightarrow> spent (marked t jti uid db) jti"
proof -
  assume "has_live db jti uid"
  then obtain r where r: "r \<in> set (refresh_tokens db)" "live_token jti uid r" by (auto simp: has_live_def)
  then have "r\<lparr>rt_revoked := Some t\<rparr> \<in> set (refresh_tokens (marked t jti uid db))"
    by (auto simp: marked_def image_iff intro!: bexI [of _ r])
  then show "spent (marked t jti uid db) jti"
    unfolding spent_def using r(2) by (intro bexI) (simp_all add: live_token_def)
qed

lemma live_not_spent: "registry_ok db \<Longrightarrow> has_live db jti uid \<Longrightarrow> \<not> spent db jti"
  using registry_ok_inj by (fastforce simp: has_live_def spent_def live_token_def)

definition consumed_ok :: "uuid list \<Rightarrow> api_db \<Rightarrow> bool" where
  "consumed_ok js db \<longleftrightarrow> registry_ok db \<and> distinct js \<and> list_all (spent db) js"

lemma consumed_ok_spend:
  assumes "consumed_ok js db" "has_live db jti uid"
  shows "consumed_ok (js @ [jti]) (marked t jti uid db)"
proof -
  have "jti \<notin> set js"
    using assms live_not_spent [OF _ assms(2)] by (auto simp: consumed_ok_def list_all_iff)
  then show ?thesis
    using assms marked_spends [OF assms(2)]
    by (auto simp: consumed_ok_def list_all_iff registry_ok_marked spent_marked)
qed

lemma consumed_ok_pair: "consumed_ok js db \<Longrightarrow> user_exists db uid \<Longrightarrow> consumed_ok js (pair_db cfg clock uid db)"
  by (auto simp: consumed_ok_def list_all_iff registry_ok_pair spent_pair)

lemma auth_run_consumed:
  assumes "auth_run blank lib cfg verify dummy db0 js db" "registry_ok db0"
  shows "consumed_ok js db"
  using assms(1)
proof (induction rule: auth_run.induct)
  case start
  then show ?case using assms(2) by (simp add: consumed_ok_def)
next
  case (log_in js db t email password ct db' r)
  then have reg: "registry_ok db" by (simp add: consumed_ok_def)
  show ?case
    using reg log_in.hyps(2)
  proof (cases rule: login_request_cases)
    case (refused e)
    then show ?thesis using log_in.IH by simp
  next
    case (granted usr)
    then have "user_exists db (us_id usr)"
      by (auto simp: find_by_email_def find_Some_iff user_exists_def)
    then show ?thesis using granted log_in.IH consumed_ok_pair by simp
  qed
next
  case (rotate js db t header cookie p src db' resp)
  then have reg: "registry_ok db" by (simp add: consumed_ok_def)
  have live: "has_live db (pr_jti p) (pr_user p)"
    and db': "db' = pair_db cfg t (pr_user p) (marked t (pr_jti p) (pr_user p) db)"
    using rotate.hyps(2,3) by (auto simp: refresh_request_eq [OF reg] Let_def split: if_splits)
  have "user_exists (marked t (pr_jti p) (pr_user p) db) (pr_user p)"
    using live registry_ok_user [OF reg] by (force simp: has_live_def live_token_def)
  then show ?case unfolding db' by (rule consumed_ok_pair [OF consumed_ok_spend [OF rotate.IH live]])
next
  case (rotate_refused js db t header cookie db' e)
  then have reg: "registry_ok db" by (simp add: consumed_ok_def)
  then show ?case
    using rotate_refused by (auto simp: refresh_request_eq [OF reg] Let_def split: if_splits sum.splits)
next
  case (log_out js db t header cookie p src db' clear)
  then have live: "has_live db (pr_jti p) (pr_user p)" and db': "db' = marked t (pr_jti p) (pr_user p) db"
    by (auto simp: logout_request_eq split: if_splits)
  show ?case unfolding db' by (rule consumed_ok_spend [OF log_out.IH live])
next
  case (log_out_refused js db t header cookie db' e)
  then show ?case by (auto simp: logout_request_eq split: if_splits sum.splits)
qed

section \<open>The chain of rotations\<close>

text \<open>The refresh token a response hands out, in the body or in the cookie.\<close>

definition given_refresh :: "'tok auth_response \<Rightarrow> 'tok option" where
  "given_refresh r = (case ar_refresh r of Some tok \<Rightarrow> Some tok | None \<Rightarrow> map_option fst (ar_cookie r))"

lemma given_pair:
  "given_refresh (pair_response lib cfg clock uid role b db) =
     Some (jwt_encode lib (token_claims lib cfg clock (Suc (t_next db)) uid role Refresh) (jc_algorithm cfg))"
  by (simp add: given_refresh_def pair_response_def Let_def)

lemma refresh_granted:
  assumes "registry_ok db" "require_refresh_principal blank lib cfg t header cookie = Inr (p, src)"
    and "refresh_request blank lib cfg t header cookie db = (db', Inr r)"
  shows "has_live db (pr_jti p) (pr_user p)" "user_exists db (pr_user p)"
    "db' = pair_db cfg t (pr_user p) (marked t (pr_jti p) (pr_user p) db)"
    "r = pair_response lib cfg t (pr_user p) (current_role db (pr_user p)) (src = Cookie)
       (marked t (pr_jti p) (pr_user p) db)"
    "registry_ok db'"
proof -
  show live: "has_live db (pr_jti p) (pr_user p)"
    and db': "db' = pair_db cfg t (pr_user p) (marked t (pr_jti p) (pr_user p) db)"
    and "r = pair_response lib cfg t (pr_user p) (current_role db (pr_user p)) (src = Cookie)
       (marked t (pr_jti p) (pr_user p) db)"
    using assms(2,3) by (auto simp: refresh_request_eq [OF assms(1)] Let_def split: if_splits)
  show ex: "user_exists db (pr_user p)"
    using live registry_ok_user [OF assms(1)] by (force simp: has_live_def live_token_def)
  show "registry_ok db'"
    unfolding db' by (rule registry_ok_pair [OF registry_ok_marked [OF assms(1)]]) (simp add: ex)
qed

lemma refresh_dead:
  assumes "registry_ok db" "require_refresh_principal blank lib cfg t header cookie = Inr (p, src)"
    and "spent db (pr_jti p)"
  shows "refresh_request blank lib cfg t header cookie db = (db, Inl (HTTPException 401))"
  using live_not_spent [OF assms(1)] assms(2,3) by (auto simp: refresh_request_eq [OF assms(1)])

lemma refresh_chain:
  assumes "jwt_ok lib" "registry_ok db" "require_refresh_principal blank lib cfg t header cookie = Inr (p, src)"
    and "refresh_request blank lib cfg t header cookie db = (db', Inr r)" "given_refresh r = Some tok" "\<not> blank tok"
    and "t div second * second \<le> t2 + jc_leeway cfg"
    and "t2 - jc_leeway cfg < (t + jc_ttl cfg Refresh) div second * second"
  shows "\<exists>db'' r''. refresh_request blank lib cfg t2 (Some tok) None db' = (db'', Inr r'')"
proof -
  note g = refresh_granted [OF assms(2-4)]
  let ?db1 = "marked t (pr_jti p) (pr_user p) db"
  let ?p = "\<lparr>pr_user = pr_user p, pr_role = current_role db (pr_user p), pr_kind = Refresh, pr_jti = Suc (t_next db),
    pr_issued = t div second * second, pr_expires = (t + jc_ttl cfg Refresh) div second * second\<rparr>"
  have tok: "tok = jwt_encode lib (token_claims lib cfg t (Suc (t_next db)) (pr_user p) (current_role db (pr_user p)) Refresh)
      (jc_algorithm cfg)"
    using assms(5) g(4) by (simp add: given_pair)
  have ver: "require_refresh_principal blank lib cfg t2 (Some tok) None = Inr (?p, Header)"
    using assms(6-8)
    by (simp add: require_refresh_principal_def extract_refresh_token_def tok verify_encoded [OF assms(1)])
  have "has_live db' (Suc (t_next db)) (pr_user p)"
    by (simp add: g(3) has_live_def pair_db_def live_token_def new_refresh_def)
  then show ?thesis using ver by (simp add: refresh_request_eq [OF g(5)] Let_def)
qed

section \<open>Audit rows\<close>

definition audit_row :: "timestamp \<Rightarrow> access_mode \<Rightarrow> uuid \<Rightarrow> uuid option \<Rightarrow> string option \<Rightarrow> api_db \<Rightarrow> access_log_row" where
  "audit_row t mode aid target reason db =
     \<lparr>al_id = Suc (t_next db), al_admin = aid, al_target = target, al_mode = mode, al_token = Some (t_next db),
      al_reason = reason, al_at = t\<rparr>"

definition audited :: "access_log_row \<Rightarrow> api_db \<Rightarrow> api_db" where
  "audited r db = db\<lparr>t_next := Suc (Suc (t_next db)), access_log := access_log db @ [r]\<rparr>"

lemma audited_fields [simp]:
  "users (audited r db) = users db" "access_log (audited r db) = access_log db @ [r]"
  "user_exists (audited r db) = user_exists db" "refresh_tokens (audited r db) = refresh_tokens db"
  "user_by_id (audited r db) = user_by_id db"
  by (simp_all add: audited_def user_exists_def user_by_id_def fun_eq_iff)

lemma user_exists_next [simp]: "user_exists (db\<lparr>t_next := n\<rparr>) = user_exists db"
  by (simp add: user_exists_def fun_eq_iff)

lemma operator_session_eq:
  "admin_operator_session t aid reason body db =
    (if user_exists db aid
     then transaction (body (admin_session aid t)) (audited (audit_row t Operator aid None reason db) db)
     else (db\<lparr>t_next := Suc (t_next db)\<rparr>, Inl (DbError ForeignKeyViolation)))"
  by (simp add: admin_operator_session_def record_audit_row_def record_access_def transaction_def session_for_user_def
      set_local_role_def role_of_name_def insert_access_log_def audited_def audit_row_def Let_def)

lemma impersonation_session_eq:
  "admin_impersonation_session t aid target reason body db =
    (if user_exists db aid \<and> user_exists db target
     then transaction (body \<lparr>ss_role = Api_app, ss_user = Some target, ss_admin = Some aid, ss_now = t\<rparr>)
            (audited (audit_row t Impersonation aid (Some target) reason db) db)
     else (db\<lparr>t_next := Suc (t_next db)\<rparr>, Inl (DbError ForeignKeyViolation)))"
  by (simp add: admin_impersonation_session_def record_audit_row_def record_access_def transaction_def session_for_user_def
      set_local_role_def role_of_name_def insert_access_log_def audited_def audit_row_def Let_def
      bind_impersonation_admin_id_def)

text \<open>What commits when the body of a transaction is refused is what was there before.\<close>

lemma transaction_Inl: "transaction body db = (db', Inl e) \<Longrightarrow> db' = db"
  by (auto simp: transaction_def split: sum.splits)

lemma transaction_body: "body db = Inl e \<Longrightarrow> transaction body db = (db, Inl e)"
  by (simp add: transaction_def)

section \<open>Impersonation\<close>

lemma check_impersonation_Inr:
  "check_impersonation db aid target = Inr (a, x) \<longleftrightarrow>
     user_by_id db aid = Some a \<and> user_by_id db target = Some x \<and> target \<noteq> aid \<and> us_role x = Client"
proof -
  have "us_id x = target" if "user_by_id db target = Some x" for x
    using that by (auto simp: user_by_id_def find_Some_iff)
  then show ?thesis
    by (auto simp: check_impersonation_def split: option.split)
qed

lemma user_by_id_Some: "user_by_id db uid = Some x \<Longrightarrow> us_id x = uid \<and> user_exists db uid"
  by (auto simp: user_by_id_def find_Some_iff user_exists_def)

lemma begin_impersonation_granted:
  assumes "begin_impersonation blank lib cfg t bearer target reason db = (db', Inr r)"
  obtains p a x where
    "authenticated_user blank lib cfg t bearer = Inr p" "pr_role p = ''admin''"
    "user_by_id db (pr_user p) = Some a" "user_by_id db target = Some x" "target \<noteq> pr_user p" "us_role x = Client"
    "access_log db' = access_log db @
       [audit_row t Operator (pr_user p) None None db,
        audit_row t Impersonation (pr_user p) (Some target) reason
          (audited (audit_row t Operator (pr_user p) None None db) db)]"
    "users db' = users db" "refresh_tokens db' = refresh_tokens db"
    "im_token r = jwt_encode lib (token_claims lib cfg t (t_next db + 4) target ''client'' Impersonate) (jc_algorithm cfg)"
    "im_target r = target" "im_admin r = pr_user p"
proof -
  let ?h = "\<lambda>p ss d. bindE (check_impersonation d (pr_user p) target) (\<lambda>rows. Inr (d, (p, rows)))"
  obtain db1 p a x where adm: "admin_request blank lib cfg t bearer ?h db = (db1, Inr (p, a, x))"
    using assms unfolding begin_impersonation_def
    by (auto split: prod.splits sum.splits)
  obtain p' where p': "authenticated_user blank lib cfg t bearer = Inr p'" "pr_role p' = ''admin''"
    "admin_operator_session t (pr_user p') None (?h p') db = (db1, Inr (p, a, x))"
    using adm by (auto simp: admin_request_def bindE_eq_Inr require_admin_principal_def split: sum.splits if_splits)
  let ?r1 = "audit_row t Operator (pr_user p') None None db"
  have ex: "user_exists db (pr_user p')" and p: "p' = p"
    and chk: "check_impersonation (audited ?r1 db) (pr_user p) target = Inr (a, x)" and db1: "db1 = audited ?r1 db"
    using p'(3) by (auto simp: operator_session_eq transaction_def bindE_eq_Inr split: if_splits sum.splits)
  have c: "user_by_id db (pr_user p) = Some a" "user_by_id db target = Some x" "target \<noteq> pr_user p" "us_role x = Client"
    using chk by (simp_all add: check_impersonation_Inr)
  have x: "us_id x = target" "user_exists db target" using user_by_id_Some [OF c(2)] by simp_all
  let ?r2 = "audit_row t Impersonation (pr_user p) (Some target) reason db1"
  have imp: "admin_impersonation_session t (pr_user p) target reason (\<lambda>ss d. Inr (d, ())) db1 = (audited ?r2 db1, Inr ())"
    using ex x(2) p db1 by (simp add: impersonation_session_eq transaction_def)
  have "db' = (audited ?r2 db1)\<lparr>t_next := Suc (t_next (audited ?r2 db1))\<rparr>
      \<and> im_token r = jwt_encode lib (token_claims lib cfg t (t_next (audited ?r2 db1)) target ''client'' Impersonate) (jc_algorithm cfg)
      \<and> im_target r = target \<and> im_admin r = pr_user p"
    using assms x(1) imp unfolding begin_impersonation_def adm
    by (auto simp: issue_token_non_refresh transaction_def role_value_def)
  moreover have "t_next (audited ?r2 db1) = t_next db + 4" by (simp add: audited_def db1)
  ultimately show thesis
    using that [of p a x] p'(1,2) p c db1 by simp
qed

text \<open>Every refusal of the handler leaves the operator row behind.\<close>

lemma begin_impersonation_refused:
  assumes "begin_impersonation blank lib cfg t bearer target reason db = (db', Inl e)"
    and "authenticated_user blank lib cfg t bearer = Inr p" "pr_role p = ''admin''" "user_exists db (pr_user p)"
  shows "db' = audited (audit_row t Operator (pr_user p) None None db) db \<and>
    check_impersonation db (pr_user p) target = Inl e"
proof -
  let ?r1 = "audit_row t Operator (pr_user p) None None db"
  have chk: "check_impersonation (audited ?r1 db) = check_impersonation db"
    by (simp add: check_impersonation_def fun_eq_iff cong: option.case_cong)
  have adm: "admin_request blank lib cfg t bearer
      (\<lambda>p ss d. bindE (check_impersonation d (pr_user p) target) (\<lambda>rows. Inr (d, (p, rows)))) db =
    (audited ?r1 db, bindE (check_impersonation db (pr_user p) target) (\<lambda>rows. Inr (p, rows)))"
    using assms(2-4)
    by (cases "check_impersonation db (pr_user p) target")
      (simp_all add: admin_request_def require_admin_principal_def operator_session_eq transaction_def chk)
  show ?thesis
  proof (cases "check_impersonation db (pr_user p) target")
    case (Inl e')
    then show ?thesis using assms(1) unfolding begin_impersonation_def adm by simp
  next
    case (Inr ax)
    obtain a x where ax: "ax = (a, x)" by (cases ax)
    have x: "us_id x = target" "user_exists db target"
      using Inr ax user_by_id_Some [of db target x] by (auto simp: check_impersonation_Inr)
    have "snd (begin_impersonation blank lib cfg t bearer target reason db) \<noteq> Inl e"
      using Inr ax x assms(4) unfolding begin_impersonation_def adm
      by (simp add: impersonation_session_eq transaction_def issue_token_non_refresh)
    then show ?thesis using assms(1) by simp
  qed
qed

end
