(* ===== verification/Json.thy ===== *)
theory Json
  imports Prelude
begin

text \<open>
  JSON values as \<open>json.loads\<close> returns them, with the Python operations that the code applies to
  them without knowing their type: \<open>isinstance\<close>, truth, subscription, \<open>int\<close> and \<open>float\<close>. A
  float is a rational or one of the three values that \<open>json.loads\<close> reads from the constants
  \<open>Infinity\<close>, \<open>-Infinity\<close> and \<open>NaN\<close>.
\<close>

datatype pyfloat = Fin rat | PosInf | NegInf | NaN

datatype json =
    JNull
  | JBool bool
  | JInt int
  | JNum pyfloat
  | JStr ustr
  | JList "json list"
  | JObj "(ustr \<times> json) list"

definition truthy :: "json \<Rightarrow> bool" where
  "truthy v =
     (case v of
        JNull \<Rightarrow> False | JBool b \<Rightarrow> b | JInt i \<Rightarrow> i \<noteq> 0 | JNum q \<Rightarrow> q \<noteq> Fin 0
      | JStr s \<Rightarrow> s \<noteq> [] | JList xs \<Rightarrow> xs \<noteq> [] | JObj kvs \<Rightarrow> kvs \<noteq> [])"

text \<open>\<open>a or b\<close>.\<close>

definition py_or :: "json \<Rightarrow> json \<Rightarrow> json" where
  "py_or a b = (if truthy a then a else b)"

text \<open>\<open>d.get(k)\<close>, and \<open>v[k]\<close> with a string key on a value of any type.\<close>

definition get_key :: "(ustr \<times> json) list \<Rightarrow> ustr \<Rightarrow> json" where
  "get_key d k = (case map_of d k of None \<Rightarrow> JNull | Some v \<Rightarrow> v)"

definition subscript :: "json \<Rightarrow> ustr \<Rightarrow> json result" where
  "subscript v k =
     (case v of
        JObj d \<Rightarrow> (case map_of d k of None \<Rightarrow> Inl KeyError | Some x \<Rightarrow> Inr x)
      | _ \<Rightarrow> Inl TypeError)"

text \<open>\<open>int(v)\<close> and \<open>float(v)\<close>; \<open>num\<close> parses the text of a number, \<open>None\<close> for a \<open>ValueError\<close>.\<close>

definition trunc :: "rat \<Rightarrow> int" where
  "trunc q = (if 0 \<le> q then \<lfloor>q\<rfloor> else - \<lfloor>- q\<rfloor>)"

definition py_int :: "(ustr \<Rightarrow> int option) \<Rightarrow> json \<Rightarrow> int result" where
  "py_int num v =
     (case v of
        JBool b \<Rightarrow> Inr (if b then 1 else 0)
      | JInt i \<Rightarrow> Inr i
      | JNum (Fin q) \<Rightarrow> Inr (trunc q)
      | JNum NaN \<Rightarrow> Inl ValueError
      | JNum _ \<Rightarrow> Inl OverflowError
      | JStr s \<Rightarrow> (case num s of None \<Rightarrow> Inl ValueError | Some i \<Rightarrow> Inr i)
      | _ \<Rightarrow> Inl TypeError)"

definition py_float :: "(ustr \<Rightarrow> pyfloat option) \<Rightarrow> json \<Rightarrow> pyfloat result" where
  "py_float num v =
     (case v of
        JBool b \<Rightarrow> Inr (Fin (if b then 1 else 0))
      | JInt i \<Rightarrow> Inr (Fin (of_int i))
      | JNum q \<Rightarrow> Inr q
      | JStr s \<Rightarrow> (case num s of None \<Rightarrow> Inl ValueError | Some q \<Rightarrow> Inr q)
      | _ \<Rightarrow> Inl TypeError)"

text \<open>\<open>a >= f\<close> and \<open>a + f\<close> for a finite \<open>a\<close>.\<close>

definition ge_float :: "rat \<Rightarrow> pyfloat \<Rightarrow> bool" where
  "ge_float a f = (case f of Fin q \<Rightarrow> q \<le> a | PosInf \<Rightarrow> False | NegInf \<Rightarrow> True | NaN \<Rightarrow> False)"

definition add_float :: "rat \<Rightarrow> pyfloat \<Rightarrow> pyfloat" where
  "add_float a f = (case f of Fin q \<Rightarrow> Fin (a + q) | _ \<Rightarrow> f)"

end
