(* ===== verification/Cursor.thy ===== *)
theory Cursor
  imports Json Corpus_DB
begin

text \<open>
  The opaque pagination cursor of \<open>change_events.py\<close>: a JSON object with the timestamp and the id
  of the last row of a page, in unpadded URL-safe base64. Base64 is defined here as \<open>base64\<close> and
  \<open>binascii\<close> do it, the lenient decoder included; \<open>json\<close> and the ISO format of \<open>datetime\<close> are
  the parameter \<open>cursor_lib\<close>.
\<close>

section \<open>Base64\<close>

definition b64_char :: "nat \<Rightarrow> nat" where
  "b64_char v =
     (if v < 26 then 65 + v else if v < 52 then 97 + (v - 26) else if v < 62 then 48 + (v - 52)
      else if v = 62 then 45 else 95)"

text \<open>\<open>urlsafe_b64decode\<close> first maps \<open>-\<close> and \<open>_\<close> to \<open>+\<close> and \<open>/\<close>, so both spellings count.\<close>

definition b64_value :: "nat \<Rightarrow> nat option" where
  "b64_value c =
     (if 65 \<le> c \<and> c < 91 then Some (c - 65)
      else if 97 \<le> c \<and> c < 123 then Some (c - 97 + 26)
      else if 48 \<le> c \<and> c < 58 then Some (c - 48 + 52)
      else if c = 45 \<or> c = 43 then Some 62
      else if c = 95 \<or> c = 47 then Some 63
      else None)"

fun b64encode :: "bytes \<Rightarrow> ustr" where
  "b64encode [] = []"
| "b64encode [a] = [b64_char (a div 4), b64_char (a mod 4 * 16), 61, 61]"
| "b64encode [a, b] =
     [b64_char (a div 4), b64_char (a mod 4 * 16 + b div 16), b64_char (b mod 16 * 4), 61]"
| "b64encode (a # b # c # rest) =
     b64_char (a div 4) # b64_char (a mod 4 * 16 + b div 16) # b64_char (b mod 16 * 4 + c div 64)
       # b64_char (c mod 64) # b64encode rest"

text \<open>
  The loop of \<open>binascii.a2b_base64\<close> outside strict mode: position in the quad, bits left over,
  padding characters seen in a row. Characters outside the alphabet are skipped.
\<close>

fun a2b_loop :: "nat \<Rightarrow> nat \<Rightarrow> nat \<Rightarrow> ustr \<Rightarrow> bytes option" where
  "a2b_loop quad left pads [] = (if quad = 0 then Some [] else None)"
| "a2b_loop quad left pads (c # cs) =
     (if c = 61 then
        (if 2 \<le> quad \<and> 4 \<le> quad + Suc pads then Some []
         else a2b_loop quad left (if 2 \<le> quad then Suc pads else pads) cs)
      else case b64_value c of
        None \<Rightarrow> a2b_loop quad left pads cs
      | Some v \<Rightarrow>
          if quad = 0 then a2b_loop 1 v 0 cs
          else if quad = 1 then map_option ((#) (left * 4 + v div 16)) (a2b_loop 2 (v mod 16) 0 cs)
          else if quad = 2 then map_option ((#) (left * 16 + v div 4)) (a2b_loop 3 (v mod 4) 0 cs)
          else map_option ((#) (left * 64 + v)) (a2b_loop 0 0 0 cs))"

definition urlsafe_b64decode :: "ustr \<Rightarrow> bytes option" where
  "urlsafe_b64decode = a2b_loop 0 0 0"

lemma b64_value_char: "v < 64 \<Longrightarrow> b64_value (b64_char v) = Some v \<and> b64_char v \<noteq> 61"
  by (auto simp: b64_char_def b64_value_def)

lemma b64_char_pad: "v < 64 \<Longrightarrow> 61 \<noteq> b64_char v"
  using b64_value_char by metis

lemma loop_char:
  assumes "v < 64"
  shows "a2b_loop 0 left pads (b64_char v # cs) = a2b_loop 1 v 0 cs"
    "a2b_loop (Suc 0) left pads (b64_char v # cs) = map_option ((#) (left * 4 + v div 16)) (a2b_loop 2 (v mod 16) 0 cs)"
    "a2b_loop 2 left pads (b64_char v # cs) = map_option ((#) (left * 16 + v div 4)) (a2b_loop 3 (v mod 4) 0 cs)"
    "a2b_loop 3 left pads (b64_char v # cs) = map_option ((#) (left * 64 + v)) (a2b_loop 0 0 0 cs)"
  using b64_value_char [OF assms] by simp_all

lemma loop_char_1:
  "v < 64 \<Longrightarrow> a2b_loop 1 left pads (b64_char v # cs) =
     map_option ((#) (left * 4 + v div 16)) (a2b_loop 2 (v mod 16) 0 cs)"
  using loop_char(2) by simp

lemma loop_pad: "a2b_loop 2 left 0 [61, 61] = Some []" "a2b_loop 3 left 0 [61] = Some []"
  by simp_all

lemma sextets:
  fixes a b c :: nat
  assumes "a < 256" "b < 256" "c < 256"
  shows "a div 4 < 64" "a mod 4 * 16 + b div 16 < 64" "b mod 16 * 4 + c div 64 < 64" "c mod 64 < 64"
    and "a div 4 * 4 + (a mod 4 * 16 + b div 16) div 16 = a"
    and "(a mod 4 * 16 + b div 16) mod 16 * 16 + (b mod 16 * 4 + c div 64) div 4 = b"
    and "(b mod 16 * 4 + c div 64) mod 4 * 64 + c mod 64 = c"
  using assms by auto

theorem a2b_b64encode: "\<forall>b \<in> set bs. b < 256 \<Longrightarrow> urlsafe_b64decode (b64encode bs) = Some bs"
  unfolding urlsafe_b64decode_def
proof (induction bs rule: b64encode.induct)
  case 1
  then show ?case by simp
next
  case (2 a)
  then show ?case using sextets [of a 0 0] by (simp add: loop_char loop_pad del: a2b_loop.simps(2))
next
  case (3 a b)
  then show ?case using sextets [of a b 0] by (simp add: loop_char loop_pad del: a2b_loop.simps(2))
next
  case (4 a b c rest)
  then have b: "a < 256" "b < 256" "c < 256" and IH: "a2b_loop 0 0 0 (b64encode rest) = Some rest" by simp_all
  note s = sextets [OF b]
  show ?case
    by (simp only: b64encode.simps loop_char(1) [OF s(1)] loop_char_1 [OF s(2)] loop_char(3) [OF s(3)]
        loop_char(4) [OF s(4)] IH option.map s(5-7))
qed

section \<open>The cursor\<close>

text \<open>
  \<open>dumps\<close> is \<open>json.dumps\<close> of the object with a string \<open>dt\<close> and a number \<open>id\<close>, its result as ASCII
  bytes; \<open>loads\<close> is UTF-8 decoding followed by \<open>json.loads\<close>, \<open>None\<close> for the \<open>ValueError\<close> of either.
\<close>

record cursor_lib =
  dumps :: "ustr \<Rightarrow> int \<Rightarrow> bytes"
  loads :: "bytes \<Rightarrow> json option"
  isoformat :: "timestamp \<Rightarrow> ustr"
  fromisoformat :: "ustr \<Rightarrow> timestamp option"
  int_of_text :: "ustr \<Rightarrow> int option"

definition cursor_lib_ok :: "cursor_lib \<Rightarrow> bool" where
  "cursor_lib_ok lib \<longleftrightarrow>
     (\<forall>t i. (\<forall>b \<in> set (dumps lib (isoformat lib t) i). b < 128)
        \<and> loads lib (dumps lib (isoformat lib t) i) = Some (JObj [(u ''dt'', JStr (isoformat lib t)), (u ''id'', JInt i)]))
     \<and> (\<forall>t. fromisoformat lib (isoformat lib t) = Some t)"

definition strip_padding :: "ustr \<Rightarrow> ustr" where
  "strip_padding s = rev (dropWhile (\<lambda>c. c = 61) (rev s))"

definition encode_cursor :: "cursor_lib \<Rightarrow> timestamp \<Rightarrow> int \<Rightarrow> ustr" where
  "encode_cursor lib detected_at row_id = strip_padding (b64encode (dumps lib (isoformat lib detected_at) row_id))"

definition repad :: "ustr \<Rightarrow> ustr" where
  "repad s = s @ replicate ((4 - length s mod 4) mod 4) 61"

definition from_iso :: "cursor_lib \<Rightarrow> json \<Rightarrow> timestamp result" where
  "from_iso lib v =
     (case v of
        JStr s \<Rightarrow> (case fromisoformat lib s of None \<Rightarrow> Inl ValueError | Some t \<Rightarrow> Inr t)
      | _ \<Rightarrow> Inl TypeError)"

text \<open>The \<open>try\<close> body; a character beyond ASCII and a binary error are \<open>ValueError\<close>s too.\<close>

definition cursor_body :: "cursor_lib \<Rightarrow> ustr \<Rightarrow> (timestamp \<times> int) result" where
  "cursor_body lib cur =
     (if \<exists>c \<in> set (repad cur). 128 \<le> c then Inl ValueError
      else case urlsafe_b64decode (repad cur) of
        None \<Rightarrow> Inl ValueError
      | Some raw \<Rightarrow>
          (case loads lib raw of
             None \<Rightarrow> Inl ValueError
           | Some body \<Rightarrow>
               bindE (subscript body (u ''dt'')) (\<lambda>dtv. bindE (from_iso lib dtv) (\<lambda>t.
               bindE (subscript body (u ''id'')) (\<lambda>idv. bindE (py_int (int_of_text lib) idv) (\<lambda>i. Inr (t, i)))))))"

definition decode_cursor :: "cursor_lib \<Rightarrow> ustr \<Rightarrow> (timestamp \<times> int) result" where
  "decode_cursor lib cur =
     (case cursor_body lib cur of
        Inr r \<Rightarrow> Inr r
      | Inl e \<Rightarrow> if e = ValueError \<or> e = KeyError \<or> e = TypeError then Inl CursorError else Inl e)"

section \<open>Round trip\<close>

lemma b64_char_ascii: "v < 64 \<Longrightarrow> b64_char v < 128"
  by (auto simp: b64_char_def)

lemma b64encode_ascii: "\<forall>b \<in> set bs. b < 256 \<Longrightarrow> \<forall>c \<in> set (b64encode bs). c < 128"
proof (induction bs rule: b64encode.induct)
  case (2 a)
  then show ?case using sextets [of a 0 0] by (simp add: b64_char_ascii)
next
  case (3 a b)
  then show ?case using sextets [of a b 0] by (simp add: b64_char_ascii)
next
  case (4 a b c rest)
  then show ?case using sextets [of a b c] by (simp add: b64_char_ascii)
qed simp

text \<open>An encoding is text without padding followed by what fills the last quad.\<close>

lemma b64encode_shape:
  "\<forall>b \<in> set bs. b < 256 \<Longrightarrow>
     \<exists>plain. b64encode bs = plain @ replicate ((4 - length plain mod 4) mod 4) 61 \<and> 61 \<notin> set plain"
proof (induction bs rule: b64encode.induct)
  case 1
  show ?case by (intro exI [of _ "[]"]) simp
next
  case (2 a)
  then have a: "a < 256" by simp
  let ?plain = "[b64_char (a div 4), b64_char (a mod 4 * 16)]"
  have "61 \<notin> set ?plain" using sextets [OF a, of 0 0] by (simp add: b64_char_pad)
  moreover have "replicate ((4 - length ?plain mod 4) mod 4) 61 = [61, 61 :: nat]" by (simp add: numeral_2_eq_2)
  ultimately show ?case by (intro exI [of _ ?plain]) simp
next
  case (3 a b)
  then have ab: "a < 256" "b < 256" by simp_all
  let ?plain = "[b64_char (a div 4), b64_char (a mod 4 * 16 + b div 16), b64_char (b mod 16 * 4)]"
  have "61 \<notin> set ?plain" using sextets [OF ab, of 0] by (simp add: b64_char_pad)
  moreover have "replicate ((4 - length ?plain mod 4) mod 4) 61 = [61 :: nat]" by simp
  ultimately show ?case by (intro exI [of _ ?plain]) simp
next
  case (4 a b c rest)
  then obtain plain where plain: "b64encode rest = plain @ replicate ((4 - length plain mod 4) mod 4) 61" "61 \<notin> set plain"
    by auto
  have "61 \<notin> {b64_char (a div 4), b64_char (a mod 4 * 16 + b div 16), b64_char (b mod 16 * 4 + c div 64), b64_char (c mod 64)}"
    using 4 sextets [of a b c] by (simp add: b64_char_pad)
  then show ?case using plain
    by (intro exI [of _ "b64_char (a div 4) # b64_char (a mod 4 * 16 + b div 16) # b64_char (b mod 16 * 4 + c div 64)
       # b64_char (c mod 64) # plain"]) auto
qed

lemma strip_padding_app: "61 \<notin> set plain \<Longrightarrow> strip_padding (plain @ replicate n 61) = plain"
proof -
  assume "61 \<notin> set plain"
  have "dropWhile (\<lambda>c. c = 61) (replicate n 61 @ rev plain) = rev plain"
    using \<open>61 \<notin> set plain\<close> by (subst dropWhile_append2) (auto simp: dropWhile_eq_self_iff hd_rev dest: last_in_set)
  then show ?thesis by (simp add: strip_padding_def)
qed

lemma repad_strip: "\<forall>b \<in> set bs. b < 256 \<Longrightarrow> repad (strip_padding (b64encode bs)) = b64encode bs"
  using b64encode_shape [of bs] by (auto simp: repad_def strip_padding_app)

lemma decode_encode_cursor:
  assumes "cursor_lib_ok lib"
  shows "decode_cursor lib (encode_cursor lib t i) = Inr (t, i)"
proof -
  let ?raw = "dumps lib (isoformat lib t) i"
  have b: "\<forall>b \<in> set ?raw. b < 256" using assms unfolding cursor_lib_ok_def by fastforce
  have ne: "u ''dt'' \<noteq> u ''id''" by (simp add: u_def)
  have "cursor_body lib (encode_cursor lib t i) = Inr (t, i)"
    using assms b64encode_ascii [OF b] ne
    by (auto simp: cursor_body_def encode_cursor_def repad_strip [OF b] a2b_b64encode [OF b] cursor_lib_ok_def
        subscript_def from_iso_def py_int_def not_le)
  then show ?thesis by (simp add: decode_cursor_def)
qed

text \<open>What the \<open>except\<close> clause lets through.\<close>

lemma decode_cursor_escapes: "decode_cursor lib cur = Inl e \<Longrightarrow> e = CursorError \<or> e = OverflowError"
  by (auto simp: decode_cursor_def cursor_body_def bindE_eq_Inl subscript_def from_iso_def py_int_def
      split: sum.splits option.splits json.splits pyfloat.splits if_splits)

end
