(* ===== verification/Change_Events.thy ===== *)
theory Change_Events
  imports Cursor Owner_Table
begin

text \<open>
  Reading change events: \<open>ChangeEventsRepository\<close> with its scopes and keyset pages, and the routes
  of \<open>primitives.py\<close>. The contract of keyset pagination is the locale \<open>keyset\<close>.
\<close>

section \<open>Keyset pagination\<close>

text \<open>
  Rows in the order of a key; a position is what a cursor holds, and \<open>later\<close> is the WHERE clause
  that a position adds to the query.
\<close>

locale keyset =
  fixes key :: "'row \<Rightarrow> 'k::linorder"
    and pos :: "'row \<Rightarrow> 'p"
    and later :: "'p \<Rightarrow> 'row \<Rightarrow> bool"
  assumes later_iff: "later (pos r) r' \<longleftrightarrow> key r < key r'"
begin

definition query :: "'p option \<Rightarrow> 'row list \<Rightarrow> 'row list" where
  "query c rows = sort_key key (case c of None \<Rightarrow> rows | Some p \<Rightarrow> filter (later p) rows)"

lemma filter_sort_key: "sort_key key (filter P xs) = filter P (sort_key key xs)"
  by (simp add: filter_sort)

text \<open>The query after a row is the rest of the unrestricted query.\<close>

lemma query_after:
  assumes "distinct (map key rows)" "query None rows = xs @ r # ys"
  shows "query (Some (pos r)) rows = ys"
proof -
  have s: "sort_key key rows = xs @ r # ys" using assms(2) by (simp add: query_def)
  have d: "distinct (map key (xs @ r # ys))"
    unfolding s [symmetric] using assms(1)
    by (metis distinct_map distinct_sort inj_on_def set_sort distinct_map)
  have srt: "sorted (map key (xs @ r # ys))" unfolding s [symmetric] by simp
  have "filter (\<lambda>r'. key r < key r') xs = []"
    using srt by (auto simp: filter_empty_conv sorted_append not_less)
  moreover have "filter (\<lambda>r'. key r < key r') ys = ys"
    using srt d by (auto simp: filter_id_conv sorted_append order_less_le)
  moreover have "later (pos r) = (\<lambda>r'. key r < key r')" by (simp add: fun_eq_iff later_iff)
  ultimately show ?thesis
    by (simp add: query_def filter_sort_key s)
qed

text \<open>A reader that follows positions with pages of any sizes.\<close>

fun walk :: "nat list \<Rightarrow> 'p option \<Rightarrow> 'row list \<Rightarrow> 'row list" where
  "walk [] c rows = []"
| "walk (n # ns) c rows =
     (let page = take n (query c rows)
      in page @ (if length (query c rows) \<le> n then [] else walk ns (Some (pos (last page))) rows))"

lemma walk_suffix:
  assumes "distinct (map key rows)" "query None rows = pre @ query c rows" "\<forall>n \<in> set ns. 0 < n"
  shows "walk ns c rows = take (sum_list ns) (query c rows)"
  using assms(2,3)
proof (induction ns arbitrary: c pre)
  case Nil
  then show ?case by simp
next
  case (Cons n ns)
  let ?q = "query c rows"
  show ?case
  proof (cases "length ?q \<le> n")
    case True
    then show ?thesis by (simp add: Let_def)
  next
    case False
    let ?p = "take n ?q"
    have ne: "?p \<noteq> []" using False Cons.prems(2) by (cases ?q) (auto simp: take_Cons')
    have "query None rows = (pre @ butlast ?p) @ last ?p # drop n ?q"
      using Cons.prems(1) ne by (metis append.assoc append_butlast_last_id append_take_drop_id append_Cons append_Nil)
    then have rest: "query (Some (pos (last ?p))) rows = drop n ?q" by (rule query_after [OF assms(1)])
    have "query None rows = (pre @ ?p) @ query (Some (pos (last ?p))) rows"
      using Cons.prems(1) rest by simp
    then have "walk ns (Some (pos (last ?p))) rows = take (sum_list ns) (drop n ?q)"
      using Cons.IH Cons.prems(2) rest by (metis list.set_intros(2))
    then show ?thesis using False by (simp add: Let_def take_add)
  qed
qed

lemma walk_complete:
  assumes "distinct (map key rows)" "\<forall>n \<in> set ns. 0 < n" "length rows \<le> sum_list ns"
  shows "walk ns None rows = sort_key key rows"
  using walk_suffix [OF assms(1) _ assms(2), of "[]" None] assms(3) by (simp add: query_def)

text \<open>Rows that arrive before a position do not change the pages after it.\<close>

lemma query_stable:
  assumes "\<forall>x \<in> set new. \<not> later p x"
  shows "query (Some p) (rows @ new) = query (Some p) rows"
proof -
  have "filter (later p) new = []" using assms by (auto simp: filter_empty_conv)
  then show ?thesis by (simp add: query_def)
qed

end

section \<open>ChangeEventsRepository\<close>

datatype event_scope =
    CorpusScope "string option" "string option" "timestamp option" "timestamp option"
  | DocumentScope uuid
  | ClauseScope uuid "uuid option"

definition default_limit :: int where "default_limit = 50"
definition max_limit :: int where "max_limit = 200"

definition event_in_scope :: "db_session \<Rightarrow> api_db \<Rightarrow> stored_event \<Rightarrow> bool result" where
  "event_in_scope ss db e =
     bindE (current_scope ss db) (\<lambda>cs. Inr ((e_jurisdiction e, e_sector e) \<in> set cs))"

definition select_events :: "db_session \<Rightarrow> api_db \<Rightarrow> stored_event list result" where
  "select_events ss db =
     rls_read [Ingestion_worker, Schema_owner] ss (event_in_scope ss db) (change_events db)"

definition normalise_limit :: "int \<Rightarrow> int result" where
  "normalise_limit limit = (if limit < 1 then Inl ValueError else Inr (min limit max_limit))"

definition apply_scope :: "event_scope \<Rightarrow> stored_event \<Rightarrow> bool" where
  "apply_scope sc e =
     (case sc of
        CorpusScope j s since before \<Rightarrow>
          (case j of None \<Rightarrow> True | Some x \<Rightarrow> e_jurisdiction e = x)
          \<and> (case s of None \<Rightarrow> True | Some x \<Rightarrow> e_sector e = x)
          \<and> (case since of None \<Rightarrow> True | Some t \<Rightarrow> t \<le> ev_detected e)
          \<and> (case before of None \<Rightarrow> True | Some t \<Rightarrow> ev_detected e < t)
      | DocumentScope d \<Rightarrow> e_document e = d
      | ClauseScope c d \<Rightarrow>
          (e_before_uid e = Some c \<or> e_after_uid e = Some c)
          \<and> (case d of None \<Rightarrow> True | Some x \<Rightarrow> e_document e = x))"

definition event_key :: "stored_event \<Rightarrow> int \<times> int" where
  "event_key e = (- ev_detected e, - ev_id e)"

definition event_pos :: "stored_event \<Rightarrow> timestamp \<times> int" where
  "event_pos e = (ev_detected e, ev_id e)"

definition after_cursor :: "timestamp \<times> int \<Rightarrow> stored_event \<Rightarrow> bool" where
  "after_cursor p e \<longleftrightarrow> ev_detected e < fst p \<or> (ev_detected e = fst p \<and> ev_id e < snd p)"

definition paginate :: "cursor_lib \<Rightarrow> stored_event list \<Rightarrow> int \<Rightarrow> stored_event list \<times> ustr option" where
  "paginate lib rows limit =
     (let page = take (nat limit) rows
      in (page, if nat limit < length rows
                then Some (encode_cursor lib (ev_detected (last page)) (ev_id (last page))) else None))"

definition cursor_position :: "cursor_lib \<Rightarrow> ustr option \<Rightarrow> (timestamp \<times> int) option result" where
  "cursor_position lib cur =
     (case cur of None \<Rightarrow> Inr None | Some c \<Rightarrow> bindE (decode_cursor lib c) (\<lambda>p. Inr (Some p)))"

definition ordered_events :: "(timestamp \<times> int) option \<Rightarrow> stored_event list \<Rightarrow> stored_event list" where
  "ordered_events p es =
     sort_key event_key (case p of None \<Rightarrow> es | Some q \<Rightarrow> filter (after_cursor q) es)"

definition fetch_page ::
  "cursor_lib \<Rightarrow> db_session \<Rightarrow> api_db \<Rightarrow> event_scope \<Rightarrow> int \<Rightarrow> ustr option
    \<Rightarrow> (stored_event list \<times> ustr option) result" where
  "fetch_page lib ss db sc limit cur =
     bindE (normalise_limit limit) (\<lambda>n.
     bindE (cursor_position lib cur) (\<lambda>p.
     bindE (select_events ss db) (\<lambda>es.
       Inr (paginate lib (take (nat (n + 1)) (ordered_events p (filter (apply_scope sc) es))) n))))"

definition event_by_id :: "db_session \<Rightarrow> api_db \<Rightarrow> int \<Rightarrow> stored_event option result" where
  "event_by_id ss db i = bindE (select_events ss db) (\<lambda>es. Inr (List.find (\<lambda>e. ev_id e = i) es))"

interpretation ks: keyset event_key event_pos after_cursor
  by unfold_locales (auto simp: event_key_def event_pos_def after_cursor_def less_prod_def)

section \<open>The routes\<close>

record discovery_item =
  di_id :: int
  di_document :: uuid
  di_version :: uuid
  di_jurisdiction :: string
  di_sector :: string
  di_type :: change_type
  di_before_uid :: "uuid option"
  di_after_uid :: "uuid option"
  di_before_path :: "ustr option"
  di_after_path :: "ustr option"
  di_confidence :: rat
  di_detected :: timestamp
  di_effective :: "timestamp option"

record temporal_item =
  ti_id :: int
  ti_document :: uuid
  ti_version :: uuid
  ti_clause :: "uuid option"
  ti_type :: change_type
  ti_detected :: timestamp
  ti_effective :: "timestamp option"

record differential_item = discovery_item +
  fi_before_text :: "ustr option"
  fi_after_text :: "ustr option"

record 'item event_page =
  pg_items :: "'item list"
  pg_next :: "ustr option"
  pg_more :: bool

definition to_discovery_item :: "stored_event \<Rightarrow> discovery_item" where
  "to_discovery_item e =
     \<lparr>di_id = ev_id e, di_document = e_document e, di_version = e_version e, di_jurisdiction = e_jurisdiction e,
      di_sector = e_sector e, di_type = e_type e, di_before_uid = e_before_uid e, di_after_uid = e_after_uid e,
      di_before_path = e_before_path e, di_after_path = e_after_path e, di_confidence = e_confidence e,
      di_detected = ev_detected e, di_effective = e_effective e\<rparr>"

definition to_temporal_item :: "stored_event \<Rightarrow> temporal_item" where
  "to_temporal_item e =
     \<lparr>ti_id = ev_id e, ti_document = e_document e, ti_version = e_version e,
      ti_clause = (if e_type e \<noteq> REMOVED then e_after_uid e else e_before_uid e),
      ti_type = e_type e, ti_detected = ev_detected e, ti_effective = e_effective e\<rparr>"

definition to_differential_item :: "bool \<Rightarrow> stored_event \<Rightarrow> differential_item" where
  "to_differential_item include_content e =
     discovery_item.extend (to_discovery_item e)
       (differential_item.fields (if include_content then e_before_text e else None)
          (if include_content then e_after_text e else None))"

datatype scope_kind = KCorpus | KDocument | KClause

record event_query =
  q_scope :: scope_kind
  q_jurisdiction :: "string option"
  q_sector :: "string option"
  q_since :: "timestamp option"
  q_until :: "timestamp option"
  q_document :: "uuid option"
  q_clause :: "uuid option"
  q_limit :: int
  q_cursor :: "ustr option"

definition build_scope :: "event_query \<Rightarrow> event_scope result" where
  "build_scope q =
     (case q_scope q of
        KCorpus \<Rightarrow> Inr (CorpusScope (q_jurisdiction q) (q_sector q) (q_since q) (q_until q))
      | KDocument \<Rightarrow> (case q_document q of None \<Rightarrow> Inl (HTTPException 422) | Some d \<Rightarrow> Inr (DocumentScope d))
      | KClause \<Rightarrow> (case q_clause q of None \<Rightarrow> Inl (HTTPException 422) | Some c \<Rightarrow> Inr (ClauseScope c (q_document q))))"

definition validate_limit :: "int \<Rightarrow> int result" where
  "validate_limit limit = (if limit < 1 \<or> limit > max_limit then Inl (HTTPException 422) else Inr limit)"

text \<open>\<open>_fetch_discovery\<close>, \<open>_fetch_timeline\<close> and \<open>_fetch_differential\<close>: a bad cursor is a 422.\<close>

definition fetch_events ::
  "cursor_lib \<Rightarrow> db_session \<Rightarrow> api_db \<Rightarrow> event_scope \<Rightarrow> int \<Rightarrow> ustr option
    \<Rightarrow> (stored_event list \<times> ustr option) result" where
  "fetch_events lib ss db sc limit cur =
     (case fetch_page lib ss db sc limit cur of
        Inl CursorError \<Rightarrow> Inl (HTTPException 422)
      | r \<Rightarrow> r)"

definition corpus_include_content_max_limit :: int where
  "corpus_include_content_max_limit = 10"

definition resolve_include_content :: "event_scope \<Rightarrow> bool option \<Rightarrow> int \<Rightarrow> bool result" where
  "resolve_include_content sc include_content limit =
     (let is_corpus = (case sc of CorpusScope _ _ _ _ \<Rightarrow> True | _ \<Rightarrow> False)
      in case include_content of
           None \<Rightarrow> Inr (\<not> is_corpus)
         | Some inc \<Rightarrow>
             if inc \<and> is_corpus \<and> limit > corpus_include_content_max_limit
             then Inl (HTTPException 422) else Inr inc)"

definition page_of :: "(stored_event \<Rightarrow> 'item) \<Rightarrow> stored_event list \<times> ustr option \<Rightarrow> 'item event_page" where
  "page_of f r = \<lparr>pg_items = map f (fst r), pg_next = snd r, pg_more = (snd r \<noteq> None)\<rparr>"

definition discovery ::
  "cursor_lib \<Rightarrow> db_session \<Rightarrow> api_db \<Rightarrow> event_query \<Rightarrow> discovery_item event_page result" where
  "discovery lib ss db q =
     bindE (validate_limit (q_limit q)) (\<lambda>n. bindE (build_scope q) (\<lambda>sc.
     bindE (fetch_events lib ss db sc n (q_cursor q)) (\<lambda>r. Inr (page_of to_discovery_item r))))"

definition temporal ::
  "cursor_lib \<Rightarrow> db_session \<Rightarrow> api_db \<Rightarrow> event_query \<Rightarrow> temporal_item event_page result" where
  "temporal lib ss db q =
     bindE (validate_limit (q_limit q)) (\<lambda>n. bindE (build_scope q) (\<lambda>sc.
     bindE (fetch_events lib ss db sc n (q_cursor q)) (\<lambda>r. Inr (page_of to_temporal_item r))))"

definition differential ::
  "cursor_lib \<Rightarrow> db_session \<Rightarrow> api_db \<Rightarrow> event_query \<Rightarrow> bool option \<Rightarrow> differential_item event_page result" where
  "differential lib ss db q include_content =
     bindE (validate_limit (q_limit q)) (\<lambda>n. bindE (build_scope q) (\<lambda>sc.
     bindE (resolve_include_content sc include_content n) (\<lambda>inc.
     bindE (fetch_events lib ss db sc n (q_cursor q)) (\<lambda>r. Inr (page_of (to_differential_item inc) r)))))"

definition differential_by_id ::
  "db_session \<Rightarrow> api_db \<Rightarrow> int \<Rightarrow> bool \<Rightarrow> differential_item result" where
  "differential_by_id ss db i include_content =
     bindE (event_by_id ss db i) (\<lambda>e.
       case e of None \<Rightarrow> Inl (HTTPException 404) | Some x \<Rightarrow> Inr (to_differential_item include_content x))"

end
