(* ===== verification/Event_Pages.thy ===== *)
theory Event_Pages
  imports Change_Events Watchlists
begin

text \<open>
  What a reader of change events sees: following the cursors of a scope enumerates the visible
  events of the scope once each, newest first, whatever the page sizes are; events that arrive
  while the reader is under way do not disturb the pages to come.
\<close>

text \<open>A reader: one request per page size, each with the cursor of the previous response.\<close>

fun read_all ::
  "cursor_lib \<Rightarrow> db_session \<Rightarrow> api_db \<Rightarrow> event_scope \<Rightarrow> int list \<Rightarrow> ustr option \<Rightarrow> stored_event list result" where
  "read_all lib ss db sc [] cur = Inr []"
| "read_all lib ss db sc (n # ns) cur =
     bindE (fetch_page lib ss db sc n cur) (\<lambda>(items, next_cursor).
       case next_cursor of
         None \<Rightarrow> Inr items
       | Some c \<Rightarrow> bindE (read_all lib ss db sc ns (Some c)) (\<lambda>rest. Inr (items @ rest)))"

definition event_visible :: "api_db \<Rightarrow> timestamp \<Rightarrow> uuid \<Rightarrow> stored_event \<Rightarrow> bool" where
  "event_visible db t uid e \<longleftrightarrow> (e_jurisdiction e, e_sector e) \<in> set (scope_of db t uid)"

lemma select_events_client:
  assumes "client_of ss uid"
  shows "select_events ss db = Inr (filter (event_visible db (ss_now ss) uid) (change_events db))"
  using client_ofD [OF assms]
  by (simp add: select_events_def rls_read_def event_in_scope_def [abs_def] current_scope_bound
      event_visible_def [abs_def])

lemma ordered_query: "ordered_events p es = ks.query p es"
  by (simp add: ordered_events_def ks.query_def)

lemma paginate_take:
  assumes "0 < n"
  shows "paginate lib (take (nat (n + 1)) q) n =
    (take (nat n) q,
     if length q \<le> nat n then None
     else Some (encode_cursor lib (ev_detected (last (take (nat n) q))) (ev_id (last (take (nat n) q)))))"
proof -
  have "take (nat n) (take (nat (n + 1)) q) = take (nat n) q" using assms by (simp add: min_def)
  moreover have "nat n < length (take (nat (n + 1)) q) \<longleftrightarrow> nat n < length q" using assms by auto
  ultimately show ?thesis by (auto simp: paginate_def Let_def)
qed

lemma fetch_page_eq:
  assumes "select_events ss db = Inr es" "1 \<le> n" "n \<le> max_limit" "cursor_position lib cur = Inr p"
  shows "fetch_page lib ss db sc n cur =
    (let q = ks.query p (filter (apply_scope sc) es)
     in Inr (take (nat n) q,
       if length q \<le> nat n then None
       else Some (encode_cursor lib (ev_detected (last (take (nat n) q))) (ev_id (last (take (nat n) q))))))"
  using assms by (simp add: fetch_page_def normalise_limit_def ordered_query paginate_take Let_def)

lemma read_all_walk:
  assumes "cursor_lib_ok lib" "select_events ss db = Inr es" "cursor_position lib cur = Inr p"
    and "\<forall>n \<in> set ns. 1 \<le> n \<and> n \<le> max_limit"
  shows "read_all lib ss db sc ns cur = Inr (ks.walk (map nat ns) p (filter (apply_scope sc) es))"
  using assms(3,4)
proof (induction ns arbitrary: cur p)
  case Nil
  then show ?case by simp
next
  case (Cons n ns)
  let ?q = "ks.query p (filter (apply_scope sc) es)"
  let ?l = "last (take (nat n) ?q)"
  have n: "1 \<le> n" "n \<le> max_limit" using Cons.prems(2) by auto
  have pos: "cursor_position lib (Some (encode_cursor lib (ev_detected ?l) (ev_id ?l))) = Inr (Some (event_pos ?l))"
    by (simp add: cursor_position_def decode_encode_cursor [OF assms(1)] event_pos_def)
  have IH: "read_all lib ss db sc ns (Some (encode_cursor lib (ev_detected ?l) (ev_id ?l))) =
      Inr (ks.walk (map nat ns) (Some (event_pos ?l)) (filter (apply_scope sc) es))"
    by (rule Cons.IH [OF pos]) (use Cons.prems(2) in simp)
  show ?case
    using fetch_page_eq [OF assms(2) n Cons.prems(1), of sc] IH by (simp add: Let_def)
qed

lemma distinct_event_keys: "distinct (map ev_id es) \<Longrightarrow> distinct (map event_key es)"
  by (auto simp: distinct_map inj_on_def event_key_def)

lemma sum_list_nat: "\<forall>n \<in> set ns. 1 \<le> (n :: int) \<Longrightarrow> sum_list (map nat ns) = nat (sum_list ns)"
proof (induction ns)
  case (Cons n ns)
  have "0 \<le> sum_list ns" using Cons.prems by (auto intro!: sum_list_nonneg)
  then show ?case using Cons by (simp add: nat_add_distrib)
qed simp

lemma read_all_complete:
  assumes "cursor_lib_ok lib" "select_events ss db = Inr es" "distinct (map ev_id es)"
    and "\<forall>n \<in> set ns. 1 \<le> n \<and> n \<le> max_limit" "int (length es) \<le> sum_list ns"
  shows "read_all lib ss db sc ns None = Inr (sort_key event_key (filter (apply_scope sc) es))"
proof -
  let ?rows = "filter (apply_scope sc) es"
  have d: "distinct (map event_key ?rows)" by (rule distinct_event_keys) (rule distinct_map_filter [OF assms(3)])
  have len: "length ?rows \<le> sum_list (map nat ns)"
  proof -
    have "length ?rows \<le> nat (sum_list ns)"
      using assms(5) length_filter_le [of "apply_scope sc" es] by linarith
    then show ?thesis using assms(4) by (simp add: sum_list_nat)
  qed
  have pos: "\<forall>n \<in> set (map nat ns). 0 < n" using assms(4) by auto
  have "cursor_position lib None = Inr None" by (simp add: cursor_position_def)
  then show ?thesis
    using read_all_walk [OF assms(1,2) _ assms(4)] ks.walk_complete [OF d pos len] by simp
qed

text \<open>New events, detected no earlier than the cursor and with greater ids, leave the next page as it is.\<close>

lemma fetch_page_stable:
  assumes "client_of ss uid" "cursor_position lib cur = Inr (Some p)" "1 \<le> n" "n \<le> max_limit"
    and "\<forall>e \<in> set new. fst p \<le> ev_detected e \<and> snd p \<le> ev_id e"
  shows "fetch_page lib ss (db\<lparr>change_events := change_events db @ new\<rparr>) sc n cur = fetch_page lib ss db sc n cur"
proof -
  let ?db = "db\<lparr>change_events := change_events db @ new\<rparr>"
  let ?V = "event_visible db (ss_now ss) uid"
  have V: "event_visible ?db (ss_now ss) uid = ?V"
    by (simp add: event_visible_def fun_eq_iff scope_of_def)
  have s1: "select_events ss ?db = Inr (filter ?V (change_events db) @ filter ?V new)"
    by (simp add: select_events_client [OF assms(1)] V)
  have s2: "select_events ss db = Inr (filter ?V (change_events db))"
    by (simp add: select_events_client [OF assms(1)])
  have "\<forall>x \<in> set (filter (apply_scope sc) (filter ?V new)). \<not> after_cursor p x"
    using assms(5) by (fastforce simp: after_cursor_def)
  then have "ks.query (Some p) (filter (apply_scope sc) (filter ?V (change_events db)) @ filter (apply_scope sc) (filter ?V new))
      = ks.query (Some p) (filter (apply_scope sc) (filter ?V (change_events db)))"
    by (rule ks.query_stable)
  then show ?thesis
    using fetch_page_eq [OF s1 assms(3,4,2), of sc] fetch_page_eq [OF s2 assms(3,4,2), of sc] by simp
qed

end
