(* ===== verification/Lawstronaut.thy ===== *)
theory Lawstronaut
  imports Json Pytext Corpus_DB
begin

text \<open>
  The client of the Lawstronaut API: the error taxonomy (\<open>errors.py\<close>), the tolerant models
  (\<open>models.py\<close>) and \<open>LawstronautClient\<close> (\<open>client.py\<close>) with its token seam and its retry envelope.
  httpx, stamina and pydantic are parameters. The state keeps, besides the fields of the client,
  the requests it has sent.
\<close>

section \<open>Errors and responses\<close>

text \<open>The second group are exceptions that no handler of the client turns into its own.\<close>

datatype law_error =
    LawError "int option"
  | AuthError "int option"
  | ClientError "int option"
  | TransientError "int option"
  | Invalid
  | Escaped

datatype http_outcome =
    TimeoutOrNetwork
  | OtherTransport
  | Response int bool "json option"

text \<open>\<open>_consume\<close>: status, whether there is content, and what \<open>resp.json()\<close> gives.\<close>

definition consume :: "int \<Rightarrow> bool \<Rightarrow> json option \<Rightarrow> law_error + json" where
  "consume status has_content body =
     (if 200 \<le> status \<and> status < 300 then
        (if \<not> has_content then Inr JNull
         else case body of None \<Rightarrow> Inl (LawError (Some status)) | Some v \<Rightarrow> Inr v)
      else if status = 401 \<or> status = 403 then Inl (AuthError (Some status))
      else if status = 429 \<or> (500 \<le> status \<and> status < 600) then Inl (TransientError (Some status))
      else if 400 \<le> status \<and> status < 500 then Inl (ClientError (Some status))
      else Inl (LawError (Some status)))"

section \<open>The client\<close>

record http_request =
  rq_method :: string
  rq_url :: string
  rq_json :: "(string \<times> string) list"
  rq_params :: "(string \<times> string) list"
  rq_bearer :: "ustr option"

record law_config =
  lw_email :: string
  lw_password :: string
  lw_base :: string
  lw_auth_url :: string
  lw_buffer :: rat
  lw_attempts :: nat

text \<open>\<open>base_url.rstrip('/')\<close>, and the defaults of the constructor.\<close>

definition law_client :: "string \<Rightarrow> string \<Rightarrow> string \<Rightarrow> string \<Rightarrow> rat \<Rightarrow> nat \<Rightarrow> law_config" where
  "law_client email password base auth_url buffer attempts =
     \<lparr>lw_email = email, lw_password = password,
      lw_base = rev (dropWhile (\<lambda>c. c = CHR ''/'') (rev base)), lw_auth_url = auth_url,
      lw_buffer = buffer, lw_attempts = attempts\<rparr>"

definition default_refresh_buffer_s :: rat where "default_refresh_buffer_s = 300"

record 'w law_state =
  ls_bearer :: "ustr option"
  ls_expires :: "pyfloat option"
  ls_sent :: "http_request list"
  ls_world :: 'w

text \<open>\<open>retry n act\<close> is \<open>stamina.retry_context(on=LawstronautTransientError, attempts=n)\<close> around \<open>act\<close>.\<close>

record 'w law_env =
  le_transport :: "http_request \<Rightarrow> 'w \<Rightarrow> http_outcome \<times> 'w"
  le_clock :: "'w \<Rightarrow> rat"
  le_retry :: "nat \<Rightarrow> ('w law_state \<Rightarrow> 'w law_state \<times> (law_error + json)) \<Rightarrow> 'w law_state
     \<Rightarrow> 'w law_state \<times> (law_error + json)"
  le_float :: "ustr \<Rightarrow> pyfloat option"

text \<open>
  What stamina documents: an attempt that raises a transient error is followed, after a pause that
  touches nothing of the client, by another one, until the attempts are used up or its default timeout
  of 45 seconds, which the client leaves as it is, has passed on a monotonic clock since the envelope
  was entered; any other outcome ends the loop. A limit of 0 is not documented, and nothing is assumed
  of it.
\<close>

definition stamina_timeout :: rat where "stamina_timeout = 45"

definition is_transient :: "law_error + json \<Rightarrow> bool" where
  "is_transient r = (case r of Inl (TransientError _) \<Rightarrow> True | _ \<Rightarrow> False)"

fun stamina_loop ::
  "('w \<Rightarrow> rat) \<Rightarrow> ('w \<Rightarrow> 'w) \<Rightarrow> rat \<Rightarrow> nat \<Rightarrow> ('w law_state \<Rightarrow> 'w law_state \<times> (law_error + json)) \<Rightarrow> 'w law_state
     \<Rightarrow> 'w law_state \<times> (law_error + json)" where
  "stamina_loop watch pause start n act st =
     (let (st', r) = act st
      in if is_transient r \<and> 1 < n \<and> watch (ls_world st') < start + stamina_timeout
         then stamina_loop watch pause start (n - 1) act (st'\<lparr>ls_world := pause (ls_world st')\<rparr>)
         else (st', r))"

declare stamina_loop.simps [simp del]

definition stamina_ok :: "'w law_env \<Rightarrow> ('w \<Rightarrow> rat) \<Rightarrow> ('w \<Rightarrow> 'w) \<Rightarrow> bool" where
  "stamina_ok env watch pause \<longleftrightarrow>
     (\<forall>n act st. 0 < n \<longrightarrow> le_retry env n act st = stamina_loop watch pause (watch (ls_world st)) n act st)"

definition do_request ::
  "'w law_env \<Rightarrow> bool \<Rightarrow> http_request \<Rightarrow> 'w law_state \<Rightarrow> 'w law_state \<times> (law_error + json)" where
  "do_request env authed req st =
     (if authed \<and> ls_bearer st = None then (st, Inl (AuthError None))
      else
        let req' = req\<lparr>rq_bearer := (if authed then ls_bearer st else None)\<rparr>;
            (resp, w) = le_transport env req' (ls_world st);
            st' = st\<lparr>ls_sent := ls_sent st @ [req'], ls_world := w\<rparr>
        in case resp of
             TimeoutOrNetwork \<Rightarrow> (st', Inl (TransientError None))
           | OtherTransport \<Rightarrow> (st', Inl Escaped)
           | Response status has_content body \<Rightarrow> (st', consume status has_content body))"

definition needs_refresh :: "'w law_env \<Rightarrow> law_config \<Rightarrow> 'w law_state \<Rightarrow> bool" where
  "needs_refresh env cfg st =
     (case (ls_bearer st, ls_expires st) of
        (Some _, Some e) \<Rightarrow> ge_float (le_clock env (ls_world st)) (add_float (- lw_buffer cfg) e)
      | _ \<Rightarrow> True)"

text \<open>The bearer and its lifetime in a login response.\<close>

definition sub_object :: "(ustr \<times> json) list \<Rightarrow> ustr \<Rightarrow> (ustr \<times> json) list" where
  "sub_object d k = (case get_key d k of JObj x \<Rightarrow> x | _ \<Rightarrow> d)"

definition parse_login :: "(ustr \<Rightarrow> pyfloat option) \<Rightarrow> json \<Rightarrow> law_error + ustr \<times> pyfloat" where
  "parse_login num payload =
     (case payload of
        JObj d0 \<Rightarrow>
          let d = sub_object d0 (u ''data'');
              blob = sub_object d (u ''token'');
              bearer = py_or (get_key blob (u ''refresh_token''))
                         (py_or (get_key blob (u ''access_token'')) (get_key blob (u ''token'')));
              expires = py_or (get_key blob (u ''expires_in''))
                          (py_or (get_key d (u ''expires_in''))
                             (py_or (get_key d0 (u ''expires_in'')) (JInt 1800)))
          in (case bearer of
                JStr b \<Rightarrow>
                  if b = [] then Inl (AuthError None)
                  else (case py_float num expires of Inl _ \<Rightarrow> Inl (AuthError None) | Inr e \<Rightarrow> Inr (b, e))
              | _ \<Rightarrow> Inl (AuthError None))
      | _ \<Rightarrow> Inl (AuthError None))"

definition login_body :: "law_config \<Rightarrow> http_request" where
  "login_body cfg =
     \<lparr>rq_method = ''POST'', rq_url = lw_auth_url cfg,
      rq_json = [(''email'', lw_email cfg), (''password'', lw_password cfg)], rq_params = [], rq_bearer = None\<rparr>"

definition law_login :: "'w law_env \<Rightarrow> law_config \<Rightarrow> 'w law_state \<Rightarrow> 'w law_state \<times> (law_error + unit)" where
  "law_login env cfg st =
     (case le_retry env (lw_attempts cfg) (do_request env False (login_body cfg)) st of
        (st1, Inl e) \<Rightarrow> (st1, Inl e)
      | (st1, Inr payload) \<Rightarrow>
          (case parse_login (le_float env) payload of
             Inl e \<Rightarrow> (st1, Inl e)
           | Inr (b, e) \<Rightarrow>
               (st1\<lparr>ls_bearer := Some b, ls_expires := Some (add_float (le_clock env (ls_world st1)) e)\<rparr>, Inr ())))"

definition law_refresh :: "'w law_env \<Rightarrow> law_config \<Rightarrow> 'w law_state \<Rightarrow> 'w law_state \<times> (law_error + unit)" where
  "law_refresh = law_login"

text \<open>\<open>_ensure_fresh_token\<close> of a caller that is alone; the lock is the subject of \<open>Law_Retry\<close>.\<close>

definition ensure_fresh_token :: "'w law_env \<Rightarrow> law_config \<Rightarrow> 'w law_state \<Rightarrow> 'w law_state \<times> (law_error + unit)" where
  "ensure_fresh_token env cfg st = (if \<not> needs_refresh env cfg st then (st, Inr ()) else law_login env cfg st)"

definition authed_attempt ::
  "'w law_env \<Rightarrow> law_config \<Rightarrow> http_request \<Rightarrow> 'w law_state \<Rightarrow> 'w law_state \<times> (law_error + json)" where
  "authed_attempt env cfg req st =
     (case ensure_fresh_token env cfg st of
        (st1, Inl e) \<Rightarrow> (st1, Inl e)
      | (st1, Inr _) \<Rightarrow> do_request env True req st1)"

definition request_with_retry ::
  "'w law_env \<Rightarrow> law_config \<Rightarrow> http_request \<Rightarrow> 'w law_state \<Rightarrow> 'w law_state \<times> (law_error + json)" where
  "request_with_retry env cfg req = le_retry env (lw_attempts cfg) (authed_attempt env cfg req)"

section \<open>The data plane\<close>

definition extract_data :: "json \<Rightarrow> (ustr \<times> json) list list" where
  "extract_data payload =
     (case payload of
        JObj d \<Rightarrow>
          (case get_key d (u ''data'') of
             JList rs \<Rightarrow> List.map_filter (\<lambda>r. case r of JObj x \<Rightarrow> Some x | _ \<Rightarrow> None) rs
           | JObj x \<Rightarrow> [x]
           | _ \<Rightarrow> [])
      | _ \<Rightarrow> [])"

definition get_request :: "law_config \<Rightarrow> string \<Rightarrow> (string \<times> string) list \<Rightarrow> http_request" where
  "get_request cfg endpoint ps =
     \<lparr>rq_method = ''GET'', rq_url = lw_base cfg @ endpoint, rq_json = [], rq_params = ps, rq_bearer = None\<rparr>"

text \<open>\<open>model_validate\<close> is the argument \<open>validate\<close>, \<open>None\<close> for a \<open>ValidationError\<close>.\<close>

definition get_markdown ::
  "'w law_env \<Rightarrow> law_config \<Rightarrow> ((ustr \<times> json) list \<Rightarrow> 'doc option) \<Rightarrow> string \<Rightarrow> 'w law_state
    \<Rightarrow> 'w law_state \<times> (law_error + 'doc option)" where
  "get_markdown env cfg validate document_id st =
     (case request_with_retry env cfg
             (get_request cfg ''/contents/markdown'' [(''document_id'', document_id), (''limit'', ''1'')]) st of
        (st1, Inl e) \<Rightarrow> (st1, Inl e)
      | (st1, Inr payload) \<Rightarrow>
          (case extract_data payload of
             [] \<Rightarrow> (st1, Inr None)
           | r # _ \<Rightarrow> (st1, case validate r of None \<Rightarrow> Inl Invalid | Some d \<Rightarrow> Inr (Some d))))"

definition list_records ::
  "((ustr \<times> json) list \<Rightarrow> 'a option) \<Rightarrow> 'w law_state \<times> (law_error + json) \<Rightarrow> 'w law_state \<times> (law_error + 'a list)" where
  "list_records validate resp =
     (case resp of
        (st1, Inl e) \<Rightarrow> (st1, Inl e)
      | (st1, Inr payload) \<Rightarrow>
          (st1, mapE (\<lambda>r. case validate r of None \<Rightarrow> Inl Invalid | Some d \<Rightarrow> Inr d) (extract_data payload)))"

definition list_jurisdictions ::
  "'w law_env \<Rightarrow> law_config \<Rightarrow> ((ustr \<times> json) list \<Rightarrow> 'j option) \<Rightarrow> 'w law_state \<Rightarrow> 'w law_state \<times> (law_error + 'j list)" where
  "list_jurisdictions env cfg validate st =
     list_records validate (request_with_retry env cfg (get_request cfg ''/jurisdictions'' []) st)"

definition list_portals ::
  "'w law_env \<Rightarrow> law_config \<Rightarrow> ((ustr \<times> json) list \<Rightarrow> 'p option) \<Rightarrow> string \<Rightarrow> 'w law_state
    \<Rightarrow> 'w law_state \<times> (law_error + 'p list)" where
  "list_portals env cfg validate iso_code st =
     list_records validate (request_with_retry env cfg (get_request cfg ''/portals'' [(''iso'', iso_code)]) st)"

section \<open>Tolerant models\<close>

text \<open>
  \<open>T(dd:dd):000(Z|offset)$\<close> at the head of a text: the two groups. \<open>digit\<close> is \<open>\d\<close>; the texts
  it is applied to are stripped, so \<open>$\<close> is the end.
\<close>

definition zone_ok :: "(nat \<Rightarrow> bool) \<Rightarrow> ustr \<Rightarrow> bool" where
  "zone_ok digit z =
     (case z of
        [c] \<Rightarrow> c = 90
      | [s, a, b, c, d] \<Rightarrow> (s = 43 \<or> s = 45) \<and> digit a \<and> digit b \<and> digit c \<and> digit d
      | [s, a, b, k, c, d] \<Rightarrow> (s = 43 \<or> s = 45) \<and> digit a \<and> digit b \<and> k = 58 \<and> digit c \<and> digit d
      | _ \<Rightarrow> False)"

definition malformed_ms_at :: "(nat \<Rightarrow> bool) \<Rightarrow> ustr \<Rightarrow> (ustr \<times> ustr) option" where
  "malformed_ms_at digit s =
     (case s of
        t # h1 # h2 # k1 # m1 # m2 # k2 # z1 # z2 # z3 # zone \<Rightarrow>
          if t = 84 \<and> digit h1 \<and> digit h2 \<and> k1 = 58 \<and> digit m1 \<and> digit m2 \<and> k2 = 58
             \<and> z1 = 48 \<and> z2 = 48 \<and> z3 = 48 \<and> zone_ok digit zone
          then Some ([h1, h2, k1, m1, m2], zone) else None
      | _ \<Rightarrow> None)"

text \<open>\<open>search\<close> finds the leftmost match; the text before it is kept.\<close>

fun fix_malformed_ms :: "(nat \<Rightarrow> bool) \<Rightarrow> ustr \<Rightarrow> ustr" where
  "fix_malformed_ms digit [] = []"
| "fix_malformed_ms digit (c # cs) =
     (case malformed_ms_at digit (c # cs) of
        Some (hm, zone) \<Rightarrow> 84 # hm @ zone
      | None \<Rightarrow> c # fix_malformed_ms digit cs)"

definition utc_suffix :: "ustr \<Rightarrow> ustr" where
  "utc_suffix s = (if s \<noteq> [] \<and> last s = 90 then butlast s @ u ''+00:00'' else s)"

definition normalise_publication_date ::
  "(nat \<Rightarrow> bool) \<Rightarrow> (ustr \<Rightarrow> timestamp option) \<Rightarrow> json \<Rightarrow> timestamp option" where
  "normalise_publication_date digit fromiso v =
     (case v of
        JStr s \<Rightarrow>
          let t = strip s
          in if t = [] then None else fromiso (utc_suffix (fix_malformed_ms digit t))
      | _ \<Rightarrow> None)"

text \<open>
  \<open>MarkdownDocument._normalise\<close> on a record: \<open>str_of\<close> is \<open>str\<close>. The date leaves the JSON types, so it is
  returned beside the record, and so is the untouched source that \<open>raw\<close> keeps.
\<close>

record normalised =
  nm_record :: "(ustr \<times> json) list"
  nm_date :: "timestamp option option"
  nm_raw :: "(ustr \<times> json) list option"

definition set_key :: "ustr \<Rightarrow> json \<Rightarrow> (ustr \<times> json) list \<Rightarrow> (ustr \<times> json) list" where
  "set_key k v d = (if map_of d k = None then d @ [(k, v)] else map (\<lambda>(k', v'). (k', if k' = k then v else v')) d)"

definition normalise_record ::
  "(nat \<Rightarrow> bool) \<Rightarrow> (ustr \<Rightarrow> timestamp option) \<Rightarrow> (json \<Rightarrow> ustr) \<Rightarrow> (ustr \<times> json) list \<Rightarrow> normalised" where
  "normalise_record digit fromiso str_of source =
     (let r1 = (case map_of source (u ''document_id'') of
                  None \<Rightarrow> source
                | Some JNull \<Rightarrow> source
                | Some v \<Rightarrow> set_key (u ''document_id'') (JStr (str_of v)) source);
          r2 = (if map_of r1 (u ''markdown'') \<noteq> None then r1
                else case get_key r1 (u ''content_markdown'') of
                  JNull \<Rightarrow> r1 | md \<Rightarrow> set_key (u ''markdown'') md r1)
      in \<lparr>nm_record = r2,
          nm_date = map_option (normalise_publication_date digit fromiso) (map_of r2 (u ''publication_date'')),
          nm_raw = (if map_of r2 (u ''raw'') = None then Some source else None)\<rparr>)"

text \<open>\<open>Portal._coerce_total_links\<close>; \<open>isinstance(True, int)\<close> holds.\<close>

definition coerce_total_links :: "(ustr \<Rightarrow> int option) \<Rightarrow> json \<Rightarrow> int option" where
  "coerce_total_links num v =
     (case v of
        JStr s \<Rightarrow> if strip s = [] then None else num (strip s)
      | JInt i \<Rightarrow> Some i
      | JBool b \<Rightarrow> Some (if b then 1 else 0)
      | _ \<Rightarrow> None)"

end
