(* ===== verification/Law_Retry.thy ===== *)
theory Law_Retry
  imports Lawstronaut
begin

text \<open>
  The two envelopes around a request of the Lawstronaut client: how many requests one call may
  send and what they carry, and the lock that keeps concurrent callers to one login.
\<close>

section \<open>Bounds of the retry envelope\<close>

text \<open>Each run of an action sends at most \<open>k\<close> requests, all of them \<open>Q\<close>, and at least one before a transient error.\<close>

definition sends :: "(http_request \<Rightarrow> bool) \<Rightarrow> nat \<Rightarrow> ('w law_state \<Rightarrow> 'w law_state \<times> (law_error + json)) \<Rightarrow> bool" where
  "sends Q k act \<longleftrightarrow>
     (\<forall>st st' r. act st = (st', r) \<longrightarrow>
        (\<exists>new. ls_sent st' = ls_sent st @ new \<and> length new \<le> k \<and> list_all Q new \<and> (is_transient r \<longrightarrow> new \<noteq> [])))"

lemma sendsD:
  "sends Q k act \<Longrightarrow> act st = (st', r) \<Longrightarrow>
     \<exists>new. ls_sent st' = ls_sent st @ new \<and> length new \<le> k \<and> list_all Q new \<and> (is_transient r \<longrightarrow> new \<noteq> [])"
  by (simp add: sends_def)

text \<open>An envelope that reports a transient failure has used up its attempts or its time.\<close>

lemma loop_sends:
  assumes "sends Q k act" "0 < n" "stamina_loop watch pause start n act st = (st', r)"
  shows "\<exists>new. ls_sent st' = ls_sent st @ new \<and> length new \<le> n * k \<and> list_all Q new
    \<and> (is_transient r \<longrightarrow> new \<noteq> [] \<and> (n \<le> length new \<or> start + stamina_timeout \<le> watch (ls_world st')))"
  using assms(2,3)
proof (induction n arbitrary: st)
  case (Suc n)
  obtain st1 r1 where a: "act st = (st1, r1)" by (cases "act st")
  obtain new where new: "ls_sent st1 = ls_sent st @ new" "length new \<le> k" "list_all Q new" "is_transient r1 \<longrightarrow> new \<noteq> []"
    using sendsD [OF assms(1) a] by auto
  show ?case
  proof (cases "is_transient r1 \<and> 0 < n \<and> watch (ls_world st1) < start + stamina_timeout")
    case True
    then have "stamina_loop watch pause start n act (st1\<lparr>ls_world := pause (ls_world st1)\<rparr>) = (st', r)"
      using Suc.prems(2) a by (simp add: stamina_loop.simps [of _ _ _ "Suc n"])
    from Suc.IH [OF _ this] True obtain more where more: "ls_sent st' = ls_sent st1 @ more" "length more \<le> n * k"
      "list_all Q more" "is_transient r \<longrightarrow> more \<noteq> [] \<and> (n \<le> length more \<or> start + stamina_timeout \<le> watch (ls_world st'))"
      by auto
    have "1 \<le> length new" using new(4) True by (cases new) auto
    then have "is_transient r \<longrightarrow> Suc n \<le> length (new @ more) \<or> start + stamina_timeout \<le> watch (ls_world st')"
      using more(4) by auto
    moreover have "length (new @ more) \<le> Suc n * k" using new(2) more(2) by simp
    ultimately show ?thesis using new(1,3) more(1,3,4) by (intro exI [of _ "new @ more"]) simp
  next
    case False
    then have r: "st' = st1" "r = r1" using Suc.prems(2) a
      by (auto simp: stamina_loop.simps [of _ _ _ "Suc n"] split: if_splits)
    have "is_transient r \<longrightarrow> new \<noteq> [] \<and> (Suc n \<le> length new \<or> start + stamina_timeout \<le> watch (ls_world st'))"
      using False r new(4) by (cases new) auto
    moreover have "length new \<le> Suc n * k" using new(2) by (simp add: trans_le_add1)
    ultimately show ?thesis using new(1,3) r by (intro exI [of _ new]) simp
  qed
qed simp

lemma retry_sends:
  assumes "stamina_ok env watch pause" "sends Q k act" "0 < n" "le_retry env n act st = (st', r)"
  shows "\<exists>new. ls_sent st' = ls_sent st @ new \<and> length new \<le> n * k \<and> list_all Q new
    \<and> (is_transient r \<longrightarrow> new \<noteq> [] \<and> (n \<le> length new \<or> watch (ls_world st) + stamina_timeout \<le> watch (ls_world st')))"
  using loop_sends [OF assms(2,3), of watch pause] assms(1,3,4) by (simp add: stamina_ok_def)

lemma do_request_sends:
  assumes "\<And>b. Q (req\<lparr>rq_bearer := b\<rparr>) \<or> (b = None) = authed"
  shows "sends Q 1 (do_request env authed req)"
  unfolding sends_def
proof (intro allI impI)
  fix st st' r
  assume d: "do_request env authed req st = (st', r)"
  show "\<exists>new. ls_sent st' = ls_sent st @ new \<and> length new \<le> 1 \<and> list_all Q new \<and> (is_transient r \<longrightarrow> new \<noteq> [])"
  proof (cases "authed \<and> ls_bearer st = None")
    case True
    then show ?thesis using d by (intro exI [of _ "[]"]) (auto simp: do_request_def is_transient_def)
  next
    case False
    then have "Q (req\<lparr>rq_bearer := (if authed then ls_bearer st else None)\<rparr>)"
      using assms [of "if authed then ls_bearer st else None"] by auto
    then show ?thesis using d False
      by (intro exI [of _ "[req\<lparr>rq_bearer := (if authed then ls_bearer st else None)\<rparr>]"])
        (auto simp: do_request_def Let_def split: prod.splits http_outcome.splits)
  qed
qed

definition is_login_request :: "law_config \<Rightarrow> http_request \<Rightarrow> bool" where
  "is_login_request cfg q \<longleftrightarrow> q = login_body cfg"

definition is_data_request :: "http_request \<Rightarrow> http_request \<Rightarrow> bool" where
  "is_data_request req q \<longleftrightarrow> (\<exists>b. q = req\<lparr>rq_bearer := Some b\<rparr>)"

lemma login_request_sends: "sends (is_login_request cfg) 1 (do_request env False (login_body cfg))"
proof (rule do_request_sends)
  fix b :: "ustr option"
  show "is_login_request cfg (login_body cfg\<lparr>rq_bearer := b\<rparr>) \<or> (b = None) = False"
    by (cases b) (simp_all add: is_login_request_def login_body_def)
qed

lemma data_request_sends: "sends (is_data_request req) 1 (do_request env True req)"
proof (rule do_request_sends)
  fix b :: "ustr option"
  show "is_data_request req (req\<lparr>rq_bearer := b\<rparr>) \<or> (b = None) = True"
    by (cases b) (auto simp: is_data_request_def)
qed

lemma law_login_sends:
  assumes "stamina_ok env watch pause" "0 < lw_attempts cfg" "law_login env cfg st = (st', r)"
  shows "\<exists>new. ls_sent st' = ls_sent st @ new \<and> length new \<le> lw_attempts cfg \<and> list_all (is_login_request cfg) new
    \<and> (\<forall>e. r = Inl e \<and> is_transient (Inl e) \<longrightarrow> new \<noteq> [])"
proof -
  obtain st1 r1 where a: "le_retry env (lw_attempts cfg) (do_request env False (login_body cfg)) st = (st1, r1)"
    by (cases "le_retry env (lw_attempts cfg) (do_request env False (login_body cfg)) st")
  obtain new where new: "ls_sent st1 = ls_sent st @ new" "length new \<le> lw_attempts cfg * 1"
    "list_all (is_login_request cfg) new" "is_transient r1 \<longrightarrow> new \<noteq> []"
    using retry_sends [OF assms(1) login_request_sends assms(2) a] by auto
  have parse: "\<not> is_transient (Inl e)" if "parse_login num p = Inl e" for num p e
    using that by (auto simp: parse_login_def Let_def is_transient_def split: json.splits if_splits sum.splits)
  have "ls_sent st' = ls_sent st1"
    using assms(3) by (auto simp: law_login_def a split: sum.splits prod.splits)
  moreover have "r1 = Inl e" if "r = Inl e" "is_transient (Inl e)" for e
    using that assms(3) parse by (auto simp: law_login_def a split: sum.splits prod.splits)
  ultimately show ?thesis using new by (intro exI [of _ new]) auto
qed

lemma authed_attempt_sends:
  assumes "stamina_ok env watch pause" "0 < lw_attempts cfg"
  shows "sends (\<lambda>q. is_login_request cfg q \<or> is_data_request req q) (lw_attempts cfg + 1) (authed_attempt env cfg req)"
  unfolding sends_def
proof (intro allI impI)
  fix st st' r
  assume a: "authed_attempt env cfg req st = (st', r)"
  let ?Q = "\<lambda>q. is_login_request cfg q \<or> is_data_request req q"
  obtain st1 e1 where e: "ensure_fresh_token env cfg st = (st1, e1)" by (cases "ensure_fresh_token env cfg st")
  have "\<exists>new. ls_sent st1 = ls_sent st @ new \<and> length new \<le> lw_attempts cfg \<and> list_all (is_login_request cfg) new
      \<and> (\<forall>x. e1 = Inl x \<and> is_transient (Inl x) \<longrightarrow> new \<noteq> [])"
    using e law_login_sends [OF assms, of st st1 e1]
    by (cases "needs_refresh env cfg st") (auto simp: ensure_fresh_token_def intro!: exI [of _ "[]"])
  then obtain new where new: "ls_sent st1 = ls_sent st @ new" "length new \<le> lw_attempts cfg"
    "list_all (is_login_request cfg) new" "\<forall>x. e1 = Inl x \<and> is_transient (Inl x) \<longrightarrow> new \<noteq> []" by blast
  have newQ: "list_all ?Q new" using new(3) by (simp add: list_all_iff)
  show "\<exists>new. ls_sent st' = ls_sent st @ new \<and> length new \<le> lw_attempts cfg + 1 \<and> list_all ?Q new
      \<and> (is_transient r \<longrightarrow> new \<noteq> [])"
  proof (cases e1)
    case (Inl x)
    then have "st' = st1" "r = Inl x" using a e by (auto simp: authed_attempt_def)
    then show ?thesis using new newQ Inl by (intro exI [of _ new]) auto
  next
    case (Inr y)
    then have d: "do_request env True req st1 = (st', r)" using a e by (simp add: authed_attempt_def)
    obtain more where more: "ls_sent st' = ls_sent st1 @ more" "length more \<le> 1" "list_all (is_data_request req) more"
      "is_transient r \<longrightarrow> more \<noteq> []"
      using sendsD [OF data_request_sends d] by blast
    have "list_all ?Q more" using more(3) by (simp add: list_all_iff)
    then show ?thesis using new newQ more by (intro exI [of _ "new @ more"]) auto
  qed
qed

section \<open>Single flight\<close>

text \<open>
  Coroutines at \<open>_ensure_fresh_token\<close>. Control changes hands only where the code awaits: at the
  lock and inside the login. \<open>tick\<close> is everything else that happens in the meantime.
\<close>

datatype flight_pc = Calling | Waiting | Logging | Ready | Failed

record 'w flight =
  fl_client :: "'w law_state"
  fl_lock :: "nat option"
  fl_pcs :: "flight_pc list"
  fl_logins :: nat

definition at_pc :: "'w flight \<Rightarrow> nat \<Rightarrow> flight_pc \<Rightarrow> bool" where
  "at_pc s i pc \<longleftrightarrow> i < length (fl_pcs s) \<and> fl_pcs s ! i = pc"

definition goto :: "nat \<Rightarrow> flight_pc \<Rightarrow> 'w flight \<Rightarrow> 'w flight" where
  "goto i pc s = s\<lparr>fl_pcs := (fl_pcs s)[i := pc]\<rparr>"

inductive flight_step :: "'w law_env \<Rightarrow> law_config \<Rightarrow> 'w flight \<Rightarrow> 'w flight \<Rightarrow> bool" for env cfg where
  pass: "at_pc s i Calling \<Longrightarrow> \<not> needs_refresh env cfg (fl_client s) \<Longrightarrow> flight_step env cfg s (goto i Ready s)"
| queue: "at_pc s i Calling \<Longrightarrow> needs_refresh env cfg (fl_client s) \<Longrightarrow> flight_step env cfg s (goto i Waiting s)"
| recheck: "at_pc s i Waiting \<Longrightarrow> fl_lock s = None \<Longrightarrow> \<not> needs_refresh env cfg (fl_client s) \<Longrightarrow>
    flight_step env cfg s (goto i Ready s)"
| acquire: "at_pc s i Waiting \<Longrightarrow> fl_lock s = None \<Longrightarrow> needs_refresh env cfg (fl_client s) \<Longrightarrow>
    flight_step env cfg s ((goto i Logging s)\<lparr>fl_lock := Some i\<rparr>)"
| done_ok: "at_pc s i Logging \<Longrightarrow> fl_lock s = Some i \<Longrightarrow> law_login env cfg (fl_client s) = (c, Inr x) \<Longrightarrow>
    flight_step env cfg s ((goto i Ready s)\<lparr>fl_client := c, fl_lock := None, fl_logins := Suc (fl_logins s)\<rparr>)"
| done_err: "at_pc s i Logging \<Longrightarrow> fl_lock s = Some i \<Longrightarrow> law_login env cfg (fl_client s) = (c, Inl e) \<Longrightarrow>
    flight_step env cfg s ((goto i Failed s)\<lparr>fl_client := c, fl_lock := None\<rparr>)"
| tick: "flight_step env cfg s (s\<lparr>fl_client := (fl_client s)\<lparr>ls_world := w\<rparr>\<rparr>)"

inductive flight_reach :: "'w law_env \<Rightarrow> law_config \<Rightarrow> 'w flight \<Rightarrow> 'w flight \<Rightarrow> bool" for env cfg s0 where
  start: "flight_reach env cfg s0 s0"
| step: "flight_reach env cfg s0 s \<Longrightarrow> flight_step env cfg s s' \<Longrightarrow> flight_reach env cfg s0 s'"

definition flight_start :: "'w law_state \<Rightarrow> nat \<Rightarrow> 'w flight" where
  "flight_start c n = \<lparr>fl_client = c, fl_lock = None, fl_pcs = replicate n Calling, fl_logins = 0\<rparr>"

text \<open>The holder of the lock is the one coroutine that logs in.\<close>

definition one_login :: "'w flight \<Rightarrow> bool" where
  "one_login s \<longleftrightarrow> (\<forall>i. at_pc s i Logging \<longleftrightarrow> fl_lock s = Some i \<and> i < length (fl_pcs s))"

lemma at_pc_goto: "at_pc (goto i pc s) j q \<longleftrightarrow> (if j = i then i < length (fl_pcs s) \<and> q = pc else at_pc s j q)"
  by (auto simp: at_pc_def goto_def nth_list_update)

lemma goto_fields [simp]:
  "fl_lock (goto i pc s) = fl_lock s" "fl_client (goto i pc s) = fl_client s" "fl_logins (goto i pc s) = fl_logins s"
  "length (fl_pcs (goto i pc s)) = length (fl_pcs s)"
  by (simp_all add: goto_def)

lemma at_pc_other [simp]:
  "at_pc (s\<lparr>fl_lock := l\<rparr>) = at_pc s" "at_pc (s\<lparr>fl_client := c\<rparr>) = at_pc s" "at_pc (s\<lparr>fl_logins := n\<rparr>) = at_pc s"
  by (simp_all add: at_pc_def fun_eq_iff)

lemma at_pc_length: "at_pc s i pc \<Longrightarrow> i < length (fl_pcs s)"
  by (simp add: at_pc_def)

lemma at_pc_unique: "at_pc s i p \<Longrightarrow> at_pc s i q \<Longrightarrow> p = q"
  by (simp add: at_pc_def)

lemma flight_step_one_login: "flight_step env cfg s s' \<Longrightarrow> one_login s \<Longrightarrow> one_login s'"
proof (induction rule: flight_step.induct)
  case (acquire s i)
  then show ?case by (auto simp: one_login_def at_pc_goto dest: at_pc_length at_pc_unique)
qed (auto simp: one_login_def at_pc_goto dest: at_pc_length at_pc_unique)

text \<open>
  A still clock and a login whose token outlives the buffer: a login is only ever started while
  none has succeeded.
\<close>

definition steady :: "'w law_env \<Rightarrow> law_config \<Rightarrow> bool" where
  "steady env cfg \<longleftrightarrow> (\<forall>w w'. le_clock env w = le_clock env w')
     \<and> (\<forall>st st' x. law_login env cfg st = (st', Inr x) \<longrightarrow> \<not> needs_refresh env cfg st')"

lemma needs_refresh_world:
  "steady env cfg \<Longrightarrow> needs_refresh env cfg (c\<lparr>ls_world := w\<rparr>) = needs_refresh env cfg c"
  unfolding steady_def needs_refresh_def by (auto split: option.splits) metis+

definition at_most_once :: "'w law_env \<Rightarrow> law_config \<Rightarrow> 'w flight \<Rightarrow> bool" where
  "at_most_once env cfg s \<longleftrightarrow> one_login s \<and> fl_logins s \<le> 1
     \<and> (fl_logins s = 1 \<longrightarrow> \<not> needs_refresh env cfg (fl_client s) \<and> fl_lock s = None)"

lemma flight_step_at_most_once:
  assumes "flight_step env cfg s s'" "steady env cfg" "at_most_once env cfg s"
  shows "at_most_once env cfg s'"
proof -
  have one: "one_login s'" using flight_step_one_login [OF assms(1)] assms(3) by (simp add: at_most_once_def)
  show ?thesis
    using assms(1)
  proof cases
    case (done_ok i c x)
    have "fl_logins s = 0" using assms(3) done_ok(3) by (auto simp: at_most_once_def)
    moreover have "\<not> needs_refresh env cfg c" using assms(2) done_ok(4) by (auto simp: steady_def)
    ultimately show ?thesis using one done_ok(1) by (simp add: at_most_once_def)
  next
    case (done_err i c e)
    have "fl_logins s = 0" using assms(3) done_err(3) by (auto simp: at_most_once_def)
    then show ?thesis using one done_err(1) by (simp add: at_most_once_def)
  next
    case (tick w)
    then show ?thesis using one assms(3) needs_refresh_world [OF assms(2)] by (simp add: at_most_once_def)
  qed (use one assms(3) in \<open>auto simp: at_most_once_def\<close>)
qed

lemma flight_reach_at_most_once:
  assumes "flight_reach env cfg s0 s" "steady env cfg" "at_most_once env cfg s0"
  shows "at_most_once env cfg s"
  using assms(1)
  by (induction rule: flight_reach.induct) (use assms(2,3) flight_step_at_most_once in blast)+

lemma at_most_once_start: "at_most_once env cfg (flight_start c n)"
  by (simp add: at_most_once_def one_login_def flight_start_def at_pc_def)

end
