(* ===== verification/Api_Samples.thy ===== *)
theory Api_Samples
  imports Auth_Correct Event_Pages Law_Retry
begin

text \<open>Concrete instances for the witnesses of the API: a small database, a token library, a cursor library and a server.\<close>

section \<open>A database\<close>

definition sample_library :: corpus where
  "sample_library =
     \<lparr>documents =
        [\<lparr>d_id = 7, d_jurisdiction = ''UK'', d_sector = ''energy'', d_lawstronaut = ''L7'', d_title = ''Act'', d_created = 0\<rparr>,
         \<lparr>d_id = 8, d_jurisdiction = ''FR'', d_sector = ''energy'', d_lawstronaut = ''L8'', d_title = ''Loi'', d_created = 0\<rparr>],
      versions =
        [\<lparr>v_id = 70, v_document = 7, v_label = [118, 49], v_no = Some 1, v_from = Some 0, v_to = None, v_publication = None,
          v_effective = None, v_container = ''originals'', v_key = ''k'', v_sha = [], v_bytes = 0\<rparr>,
         \<lparr>v_id = 80, v_document = 8, v_label = [118, 49], v_no = Some 1, v_from = Some 0, v_to = None, v_publication = None,
          v_effective = None, v_container = ''originals'', v_key = ''k'', v_sha = [], v_bytes = 0\<rparr>],
      clauses =
        [\<lparr>c_version = 70, c_uid = 700, c_path = [49], c_text = [97], c_heading = None, c_label = None, c_ord = 0\<rparr>,
         \<lparr>c_version = 80, c_uid = 800, c_path = [49], c_text = [98], c_heading = None, c_label = None, c_ord = 0\<rparr>],
      events = [], next_uuid = 1000\<rparr>"

definition sample_user :: "uuid \<Rightarrow> string \<Rightarrow> user_role \<Rightarrow> user_row" where
  "sample_user i email r = \<lparr>us_id = i, us_email = email, us_password_hash = ''h'', us_role = r, us_created = 0\<rparr>"

definition sample_scope :: "string \<Rightarrow> timestamp option \<Rightarrow> scope_row" where
  "sample_scope j vt = \<lparr>sc_subscription = 10, sc_jurisdiction = j, sc_sector = ''energy'', sc_to = vt\<rparr>"

definition sample_event :: "int \<Rightarrow> timestamp \<Rightarrow> stored_event" where
  "sample_event i t =
     \<lparr>e_document = 7, e_version = 70, e_jurisdiction = ''UK'', e_sector = ''energy'', e_type = ADDED, e_before_uid = None,
      e_after_uid = Some 700, e_before_path = None, e_after_path = Some [49], e_before_text = None, e_after_text = Some [97],
      e_confidence = 1, e_effective = None, ev_id = i, ev_detected = t\<rparr>"

text \<open>An admin (1) and two clients (2 and 3); client 2 may read UK energy and watches document 7.\<close>

definition sample_api_db :: api_db where
  "sample_api_db =
     \<lparr>users = [sample_user 1 ''a'' Admin, sample_user 2 ''b'' Client, sample_user 3 ''c'' Client],
      subscriptions = [\<lparr>sub_id = 10, sub_user = 2, sub_from = 0, sub_to = None, sub_created = 0\<rparr>],
      scopes = [sample_scope ''UK'' None, sample_scope ''FR'' (Some 3)],
      watchlists = [\<lparr>w_id = 20, w_user = 2, w_document = 7, w_name = ''n'', w_active = True, w_created = 0\<rparr>],
      refresh_tokens = [\<lparr>rt_jti = 30, rt_user = 2, rt_issued = 0, rt_expires = 9, rt_revoked = None\<rparr>],
      access_log = [], library = sample_library,
      change_events = [sample_event 1 4, sample_event 2 4, sample_event 3 6],
      version_created = (\<lambda>_. 0), clause_id = fst, t_next = 100\<rparr>"

lemmas sample_db_defs = sample_api_db_def sample_library_def sample_user_def sample_scope_def sample_event_def

lemma sample_scope_2: "scope_of sample_api_db 5 2 = [(''UK'', ''energy'')]"
  by (simp add: scope_of_def sample_db_defs open_at_def)

section \<open>A token library\<close>

text \<open>A token is its claims with the algorithm; a UUID is written as that many characters.\<close>

definition sample_jwt :: "(claims \<times> string) jwt_lib" where
  "sample_jwt =
     \<lparr>jwt_encode = (\<lambda>c alg. (c, alg)),
      jwt_decode = (\<lambda>tok alg issuer audience leeway t.
        if snd tok = alg \<and> claims_current (fst tok) issuer audience leeway t then Some (fst tok) else None),
      str_of_uuid = (\<lambda>n. replicate n (CHR ''x'')), uuid_of_str = (\<lambda>s. Some (length s))\<rparr>"

lemma sample_jwt_ok: "jwt_ok sample_jwt"
  by (simp add: jwt_ok_def sample_jwt_def)

definition sample_cfg :: jwt_config where
  "sample_cfg = \<lparr>jc_issuer = ''horizons'', jc_audience = ''api'', jc_algorithm = ''RS256'',
     jc_ttl = default_ttls, jc_leeway = default_leeway\<rparr>"

interpretation sample_tokens: signed_tokens sample_jwt sample_cfg
  by unfold_locales (rule sample_jwt_ok)

definition sample_token :: "uuid \<Rightarrow> uuid \<Rightarrow> string \<Rightarrow> token_kind \<Rightarrow> claims \<times> string" where
  "sample_token jti uid role kind =
     jwt_encode sample_jwt (token_claims sample_jwt sample_cfg 0 jti uid role kind) (jc_algorithm sample_cfg)"

lemma sample_registry_ok: "registry_ok sample_api_db"
  by (simp add: registry_ok_def user_exists_def sample_db_defs)

lemma sample_windows:
  "0 \<le> t \<Longrightarrow> t < 15 * 60 * second \<Longrightarrow> verify_token sample_jwt sample_cfg t (sample_token jti uid role kind) =
     Some \<lparr>pr_user = uid, pr_role = role, pr_kind = kind, pr_jti = jti, pr_issued = 0,
           pr_expires = default_ttls kind div second * second\<rparr>"
  unfolding sample_token_def
  by (subst verify_encoded [OF sample_jwt_ok])
    (auto simp: sample_cfg_def default_ttls_def default_leeway_def second_def split: token_kind.splits)

lemma sample_refresh_principal:
  "0 \<le> t \<Longrightarrow> t < 15 * 60 * second \<Longrightarrow>
     require_refresh_principal (\<lambda>_. False) sample_jwt sample_cfg t (Some (sample_token jti uid role Refresh)) None =
     Inr (\<lparr>pr_user = uid, pr_role = role, pr_kind = Refresh, pr_jti = jti, pr_issued = 0,
           pr_expires = default_ttls Refresh div second * second\<rparr>, Header)"
  by (simp add: require_refresh_principal_def extract_refresh_token_def sample_windows)

lemma sample_admin_principal:
  "0 \<le> t \<Longrightarrow> t < 15 * 60 * second \<Longrightarrow>
     authenticated_user (\<lambda>_. False) sample_jwt sample_cfg t (Some (sample_token jti uid role Access)) =
     Inr \<lparr>pr_user = uid, pr_role = role, pr_kind = Access, pr_jti = jti, pr_issued = 0,
           pr_expires = default_ttls Access div second * second\<rparr>"
  by (simp add: authenticated_user_def require_kinds_def verify_bearer_def sample_windows)

section \<open>A cursor library\<close>

text \<open>The payload is the two numbers in unary, with a separator.\<close>

definition unary :: "int \<Rightarrow> nat list" where
  "unary i = (if 0 \<le> i then 43 else 45) # replicate (nat \<bar>i\<bar>) 49"

definition of_unary :: "nat list \<Rightarrow> int" where
  "of_unary s = (if hd s = 43 then int (length (tl s)) else - int (length (tl s)))"

definition sample_cursor_lib :: cursor_lib where
  "sample_cursor_lib =
     \<lparr>dumps = (\<lambda>s i. s @ 44 # unary i),
      loads = (\<lambda>bs. Some (JObj [(u ''dt'', JStr (takeWhile (\<lambda>b. b \<noteq> 44) bs)),
                               (u ''id'', JInt (of_unary (tl (dropWhile (\<lambda>b. b \<noteq> 44) bs))))])),
      isoformat = unary, fromisoformat = (\<lambda>s. Some (of_unary s)), int_of_text = (\<lambda>_. None)\<rparr>"

lemma of_unary [simp]: "of_unary (unary i) = i"
  by (simp add: of_unary_def unary_def)

lemma unary_chars: "\<forall>b \<in> set (unary i). b \<noteq> 44 \<and> b < 128"
  by (auto simp: unary_def)

lemma sample_cursor_lib_ok: "cursor_lib_ok sample_cursor_lib"
proof -
  have "takeWhile (\<lambda>b. b \<noteq> 44) (unary t @ 44 # unary i) = unary t"
    "dropWhile (\<lambda>b. b \<noteq> 44) (unary t @ 44 # unary i) = 44 # unary i" for t i
    using unary_chars [of t] by (simp_all add: takeWhile_append dropWhile_append)
  then show ?thesis
    using unary_chars by (auto simp: cursor_lib_ok_def sample_cursor_lib_def)
qed

section \<open>A Lawstronaut server\<close>

text \<open>
  One that is always down and takes 20 seconds to say so, whose world is the time, and one that always answers
  a login, with a still clock.
\<close>

definition down_server :: "rat law_env" where
  "down_server = \<lparr>le_transport = (\<lambda>_ w. (TimeoutOrNetwork, w + 20)), le_clock = (\<lambda>w. w),
     le_retry = (\<lambda>n act st. stamina_loop (\<lambda>w. w) (\<lambda>w. w + 1) (ls_world st) n act st),
     le_float = (\<lambda>_. None)\<rparr>"

definition login_server :: "unit law_env" where
  "login_server = \<lparr>le_transport = (\<lambda>_ w. (Response 200 True
       (Some (JObj [(u ''token'', JObj [(u ''refresh_token'', JStr [98]), (u ''expires_in'', JInt 1800)])])), w)),
     le_clock = (\<lambda>_. 0), le_retry = stamina_loop (\<lambda>_. 0) (\<lambda>w. w) 0, le_float = (\<lambda>_. None)\<rparr>"

definition sample_law_config :: law_config where
  "sample_law_config = law_client ''e'' ''p'' ''https://api/'' ''https://auth'' 300 4"

definition sample_law_state :: "unit law_state" where
  "sample_law_state = \<lparr>ls_bearer = None, ls_expires = None, ls_sent = [], ls_world = ()\<rparr>"

definition down_state :: "rat law_state" where
  "down_state = \<lparr>ls_bearer = Some [98], ls_expires = Some (Fin 10000), ls_sent = [], ls_world = 0\<rparr>"

lemma down_server_ok: "stamina_ok down_server (\<lambda>w. w) (\<lambda>w. w + 1)"
  by (simp add: stamina_ok_def down_server_def)

lemma login_server_login:
  "law_login login_server sample_law_config st =
     (st\<lparr>ls_bearer := Some [98], ls_expires := Some (Fin 1800),
        ls_sent := ls_sent st @ [login_body sample_law_config]\<rparr>, Inr ())"
  by (simp add: law_login_def login_server_def sample_law_config_def law_client_def stamina_loop.simps
      do_request_def consume_def is_transient_def parse_login_def Let_def sub_object_def get_key_def
      py_or_def truthy_def py_float_def add_float_def login_body_def u_def)

lemma login_server_steady: "steady login_server sample_law_config"
  by (auto simp: steady_def login_server_login needs_refresh_def ge_float_def add_float_def)
    (auto simp: login_server_def sample_law_config_def law_client_def)

end
