(* ===== verification/Scope_Properties.thy ===== *)
theory Scope_Properties
  imports Api_Samples
begin

text \<open>Properties of the tenancy ledger, of row-level security and of the watchlists, with their witnesses.\<close>

section \<open>Scope pairs of a subscription\<close>

definition open_pairs :: "api_db \<Rightarrow> uuid \<Rightarrow> (string \<times> string) set" where
  "open_pairs db sid = {p. \<exists>r \<in> set (scopes db). scope_key r = (sid, p) \<and> sc_to r = None}"

lemma scope_key_end [simp]: "scope_key (r\<lparr>sc_to := e\<rparr>) = scope_key r"
  by (simp add: scope_key_def)

lemma ends_iff: "ends sid ps r \<longleftrightarrow> sc_to r = None \<and> (\<exists>p \<in> set ps. scope_key r = (sid, p))"
  by (auto simp: ends_def scope_key_def scope_pair_def)

lemma new_scope_open [simp]: "sc_to (new_scope sid p) = None"
  by (simp add: new_scope_def)

lemma open_pairs_patched:
  assumes "\<forall>p \<in> set (pr_add body). p \<notin> set (pr_remove body)"
  shows "open_pairs (patched t sid uid body db) sid =
    open_pairs db sid - set (pr_remove body) \<union> set (pr_add body)"
proof (intro set_eqI iffI)
  fix p
  assume "p \<in> open_pairs (patched t sid uid body db) sid"
  then show "p \<in> open_pairs db sid - set (pr_remove body) \<union> set (pr_add body)"
    by (auto simp: open_pairs_def patched_scopes_def ends_iff split: if_splits)
next
  fix p
  assume p: "p \<in> open_pairs db sid - set (pr_remove body) \<union> set (pr_add body)"
  have "\<exists>r \<in> set (scopes db @ map (new_scope sid) (sorted_pairs (pr_add body))).
      scope_key r = (sid, p) \<and> sc_to r = None \<and> \<not> ends sid (pr_remove body) r"
    using p assms by (auto simp: open_pairs_def ends_iff intro: bexI [of _ "new_scope sid p"])
  then show "p \<in> open_pairs (patched t sid uid body db) sid"
    unfolding open_pairs_def patched_simps patched_scopes_def by (force simp: image_iff)
qed

lemma length_sorted_pairs: "length (sorted_pairs ps) = card (set ps)"
  by (simp add: sorted_pairs_def length_remdups_card_conv)

lemma patch_disjoint:
  "patch_subscription ss sid body db = Inr r \<Longrightarrow> \<forall>p \<in> set (pr_add body). p \<notin> set (pr_remove body)"
  by (auto simp: patch_subscription_def split: if_splits)

lemma patch_response:
  assumes "patch_subscription (admin_session aid t) sid body db = Inr (db', resp)"
  obtains s where "s \<in> set (subscriptions db)" "sub_id s = sid" "db' = patched t sid (sub_user s) body db"
    "pa_added resp = card (set (pr_add body))"
    "pa_removed resp = length (filter (ends sid (pr_remove body)) (scopes db))"
    "subscription_by_id db' sid = Some (pa_subscription resp)"
    "pa_hidden resp = length (filter (\<lambda>w. w_user w = sub_user s \<and> w_active w
       \<and> \<not> visible_document db' t (sub_user s) (w_document w)) (watchlists db))"
proof -
  have none: "patch_refused db sid body = None"
    using assms by (auto simp: patch_refused_def patch_subscription_def split: if_splits option.splits)
  then obtain dto where dto: "subscription_by_id db sid = Some dto"
    by (auto simp: patch_refused_def split: if_splits option.splits)
  obtain s where s: "s \<in> set (subscriptions db)" "sub_id s = sid" "sub_user dto = sub_user s"
    using subscription_by_id_Some [OF dto] by blast
  have role: "ss_role (admin_session aid t) = Admin_bypass" and now: "ss_now (admin_session aid t) = t" by simp_all
  obtain resp' where e: "patch_subscription (admin_session aid t) sid body db =
      (if \<exists>p \<in> set (pr_add body). has_scope db sid p then Inl (DbError UniqueViolation)
       else Inr (patched t sid (sub_user s) body db, resp'))"
    and added: "pa_added resp' = length (sorted_pairs (pr_add body))"
    and removed: "pa_removed resp' = length (filter (ends sid (pr_remove body)) (scopes db))"
    and rest: "\<forall>db'. patch_subscription (admin_session aid t) sid body db = Inr (db', resp') \<longrightarrow>
         subscription_by_id db' sid = Some (pa_subscription resp')
         \<and> pa_hidden resp' = length (filter (\<lambda>w. w_user w = sub_user s \<and> w_active w
             \<and> \<not> visible_document db' t (sub_user s) (w_document w)) (watchlists db))"
    using patch_eq [OF role none dto] unfolding now s(3) by blast
  have eq: "resp' = resp" "db' = patched t sid (sub_user s) body db"
    using e assms by (simp_all split: if_splits)
  show ?thesis
    using rest [unfolded eq(1), rule_format, OF assms]
    by (intro that [OF s(1,2) eq(2)]) (simp_all add: length_sorted_pairs added [unfolded eq(1)] removed [unfolded eq(1)])
qed

section \<open>Ended scopes\<close>

definition ledger_keys :: "api_db \<Rightarrow> bool" where
  "ledger_keys db \<longleftrightarrow> distinct (map scope_key (scopes db))
     \<and> list_all (\<lambda>r. sc_subscription r < t_next db) (scopes db)
     \<and> list_all (\<lambda>s. sub_id s < t_next db) (subscriptions db)"

lemma map_key_patched:
  "map scope_key (patched_scopes t sid add rem rs) = map scope_key rs @ map (\<lambda>p. (sid, p)) (sorted_pairs add)"
  by (simp add: patched_scopes_def o_def if_distrib [of scope_key] cong: if_cong)

lemma request_keys:
  assumes "request t db db'" "ledger_keys db"
  shows "ledger_keys db'"
  using assms(1)
proof cases
  case (create_sub aid clock body r)
  then obtain s where s: "sub_id s = t_next db"
    "db' = db\<lparr>subscriptions := subscriptions db @ [s], t_next := Suc (t_next db),
      scopes := scopes db @ map (new_scope (t_next db)) (sorted_pairs (cr_scopes body))\<rparr>"
    by (rule create_subscription_effect)
  have "(t_next db, p) \<notin> scope_key ` set (scopes db)" for p
    using assms(2) by (auto simp: ledger_keys_def list_all_iff scope_key_def)
  then show ?thesis
    using assms(2) s
    by (auto simp: ledger_keys_def list_all_iff new_scope_def distinct_map inj_on_def less_SucI scope_key_def)
next
  case (patch_sub aid sid pbody pr)
  then obtain s where s: "s \<in> set (subscriptions db)" "sub_id s = sid" "db' = patched t sid (sub_user s) pbody db"
    "\<forall>p \<in> set (pr_add pbody). \<not> has_scope db sid p"
    by (rule patch_effect)
  have "(sid, p) \<notin> set (map scope_key (scopes db))" if "p \<in> set (pr_add pbody)" for p
    using s(4) that by (fastforce simp: has_scope_def)
  then have "distinct (map scope_key (scopes db'))"
    using assms(2) unfolding s(3) patched_simps map_key_patched
    by (auto simp: ledger_keys_def distinct_map inj_on_def)
  moreover have "sid < t_next db" using assms(2) s(1,2) by (auto simp: ledger_keys_def list_all_iff)
  then have "list_all (\<lambda>r. sc_subscription r < t_next db) (scopes db')"
    using assms(2) unfolding s(3) by (auto simp: ledger_keys_def list_all_iff patched_scopes_def new_scope_def)
  ultimately show ?thesis using assms(2) s(3) by (simp add: ledger_keys_def)
next
  case (watch uid did name wr)
  then show ?thesis
    by (rule watch_effect) (use assms(2) in \<open>auto simp: ledger_keys_def list_all_iff less_SucI\<close>)
next
  case (unwatch uid wid n)
  then show ?thesis
    by (rule unwatch_effect) (use assms(2) in \<open>auto simp: ledger_keys_def list_all_iff\<close>)
qed

lemma history_keys: "history t0 db0 t db \<Longrightarrow> ledger_keys db0 \<Longrightarrow> ledger_keys db"
  by (induction rule: history.induct) (auto dest: request_keys)

lemma ended_row_stays:
  assumes "ledger_grows t t' db db'" "r \<in> set (scopes db)" "sc_to r \<noteq> None"
  shows "r \<in> set (scopes db')"
proof -
  obtain old more where o: "scopes db' = old @ more" "list_all2 (row_evolves t t') (scopes db) old"
    using assms(1) by (auto simp: ledger_grows_def)
  obtain i where i: "i < length (scopes db)" "r = scopes db ! i" using assms(2) by (auto simp: in_set_conv_nth)
  have "row_evolves t t' r (old ! i)" "i < length old"
    using o(2) i by (auto simp: list_all2_conv_all_nth)
  then have "old ! i = r" using assms(3) by (auto simp: row_evolves_def)
  then show ?thesis using o(1) \<open>i < length old\<close> by (auto simp: in_set_conv_nth intro!: exI [of _ i])
qed

section \<open>The properties\<close>

text \<open>C4. The query by which the admin PATCH decides what to hide (\<open>active_scope_documents\<close>, which
  repeats the body of \<open>current_scope()\<close> for a given user) and the row-level security of that user's own
  session agree on every database at every moment: they return the same documents, without repetition.\<close>

theorem scope_readings_agree:
  "\<exists>ids ds. active_scope_documents (admin_session aid t) uid db = Inr ids
     \<and> select_documents (client_session uid t) db = Inr ds
     \<and> distinct ids \<and> set ids = set (map d_id ds)"
proof -
  obtain ids where ids: "active_scope_documents (admin_session aid t) uid db = Inr ids"
    using active_scope_documents_total [of "admin_session aid t"] by auto
  have "distinct ids"
    using ids by (auto simp: active_scope_documents_def bindE_eq_Inr)
  then show ?thesis
    using ids active_scope_documents_admin [of "admin_session aid t", OF _ ids]
    by (auto simp: select_documents_client)
qed

text \<open>C5. An accepted PATCH opens exactly the added pairs and ends exactly the removed ones: in the table it
  ends the open rows of this subscription that carry a removed pair, at the moment of the request, leaves every
  other row as it was, those of other subscriptions included, and appends one open row for each added pair. It
  switches off exactly the watchlists of the owner whose document the owner can no longer read under the new
  scope, changes nothing else, and reports the pairs added and removed, the watchlists switched off and the
  subscription as it now is.\<close>

theorem patch_outcome:
  assumes "patch_subscription (admin_session aid t) sid body db = Inr (db', resp)"
  shows "open_pairs db' sid = open_pairs db sid - set (pr_remove body) \<union> set (pr_add body)
    \<and> scopes db' =
        map (\<lambda>r. if sc_subscription r = sid \<and> sc_to r = None \<and> (sc_jurisdiction r, sc_sector r) \<in> set (pr_remove body)
                 then r\<lparr>sc_to := Some t\<rparr> else r) (scopes db)
        @ map (\<lambda>(j, x). \<lparr>sc_subscription = sid, sc_jurisdiction = j, sc_sector = x, sc_to = None\<rparr>)
            (sort (remdups (pr_add body)))
    \<and> (\<exists>s \<in> set (subscriptions db). sub_id s = sid
         \<and> watchlists db' = map (hide (sub_user s) (visible_document db' t (sub_user s))) (watchlists db)
         \<and> pa_hidden resp = length (filter (\<lambda>w. w_user w = sub_user s \<and> w_active w
             \<and> \<not> visible_document db' t (sub_user s) (w_document w)) (watchlists db)))
    \<and> db' = db\<lparr>scopes := scopes db', watchlists := watchlists db'\<rparr>
    \<and> pa_added resp = card (set (pr_add body))
    \<and> pa_removed resp = length (filter (\<lambda>r. sc_subscription r = sid \<and> sc_to r = None
        \<and> (sc_jurisdiction r, sc_sector r) \<in> set (pr_remove body)) (scopes db))
    \<and> subscription_by_id db' sid = Some (pa_subscription resp)"
proof -
  obtain s where s: "s \<in> set (subscriptions db)" "sub_id s = sid" "db' = patched t sid (sub_user s) body db"
    and resp: "pa_added resp = card (set (pr_add body))"
      "pa_removed resp = length (filter (ends sid (pr_remove body)) (scopes db))"
      "subscription_by_id db' sid = Some (pa_subscription resp)"
      "pa_hidden resp = length (filter (\<lambda>w. w_user w = sub_user s \<and> w_active w
         \<and> \<not> visible_document db' t (sub_user s) (w_document w)) (watchlists db))"
    using assms by (rule patch_response)
  have e: "ends sid ps = (\<lambda>r. sc_subscription r = sid \<and> sc_to r = None \<and> (sc_jurisdiction r, sc_sector r) \<in> set ps)" for ps
    by (simp add: ends_def scope_pair_def fun_eq_iff)
  have "scopes db' = patched_scopes t sid (pr_add body) (pr_remove body) (scopes db)" by (simp add: s(3))
  also have "\<dots> = map (\<lambda>r. if ends sid (pr_remove body) r then r\<lparr>sc_to := Some t\<rparr> else r) (scopes db)
      @ map (new_scope sid) (sorted_pairs (pr_add body))"
    using patch_disjoint [OF assms] by (auto simp: patched_scopes_def ends_def)
  also have "new_scope sid = (\<lambda>(j, x). \<lparr>sc_subscription = sid, sc_jurisdiction = j, sc_sector = x, sc_to = None\<rparr>)"
    by (simp add: new_scope_def fun_eq_iff)
  finally have scopes: "scopes db' = map (\<lambda>r. if ends sid (pr_remove body) r then r\<lparr>sc_to := Some t\<rparr> else r) (scopes db)
      @ map (\<lambda>(j, x). \<lparr>sc_subscription = sid, sc_jurisdiction = j, sc_sector = x, sc_to = None\<rparr>)
          (sort (remdups (pr_add body)))"
    by (simp only: sorted_pairs_def)
  have same: "db' = db\<lparr>scopes := scopes db', watchlists := watchlists db'\<rparr>"
    by (simp add: s(3) patched_def Let_def)
  have opened: "open_pairs db' sid = open_pairs db sid - set (pr_remove body) \<union> set (pr_add body)"
    unfolding s(3) by (rule open_pairs_patched [OF patch_disjoint [OF assms]])
  have hidden: "watchlists db' = map (hide (sub_user s) (visible_document db' t (sub_user s))) (watchlists db)"
    unfolding s(3) by (rule watchlists_patched)
  show ?thesis
  proof (intro conjI)
    show "\<exists>s \<in> set (subscriptions db). sub_id s = sid
         \<and> watchlists db' = map (hide (sub_user s) (visible_document db' t (sub_user s))) (watchlists db)
         \<and> pa_hidden resp = length (filter (\<lambda>w. w_user w = sub_user s \<and> w_active w
             \<and> \<not> visible_document db' t (sub_user s) (w_document w)) (watchlists db))"
      by (rule bexI [OF _ s(1)]) (intro conjI s(2) hidden resp(4))
  qed (fact opened scopes [unfolded e] same resp(1) resp(2) [unfolded e] resp(3))+
qed

lemma sample_patch:
  assumes "patch_refused sample_api_db 10 body = None" "\<forall>p \<in> set (pr_add body). \<not> has_scope sample_api_db 10 p"
  shows "\<exists>resp. patch_subscription (admin_session 1 t) 10 body sample_api_db =
    Inr (patched t 10 2 body sample_api_db, resp)"
proof -
  obtain dto where dto: "subscription_by_id sample_api_db 10 = Some dto"
    by (simp add: subscription_by_id_def sample_db_defs)
  have "sub_user dto = 2"
    using subscription_by_id_Some [OF dto] by (auto simp: sample_db_defs)
  then show ?thesis
    using patch_eq [of "admin_session 1 t", OF _ assms(1) dto] assms(2) by auto
qed

lemmas sample_patch_defs = patch_refused_def subscription_by_id_def sample_db_defs active_pairs_def scopes_for_def
  subscription_dto_of_def subscription_row.defs subscription_dto.defs scope_pair_def has_scope_def scope_key_def

lemma patch_outcome_witness:
  "\<exists>db' resp. patch_subscription (admin_session 1 5) 10
      \<lparr>pr_add = [(''DE'', ''energy'')], pr_remove = [(''UK'', ''energy'')]\<rparr> sample_api_db = Inr (db', resp)
    \<and> open_pairs db' 10 = {(''DE'', ''energy'')} \<and> pa_added resp = 1"
proof -
  let ?body = "\<lparr>pr_add = [(''DE'', ''energy'')], pr_remove = [(''UK'', ''energy'')]\<rparr>"
  have "\<exists>resp. patch_subscription (admin_session 1 5) 10 ?body sample_api_db =
      Inr (patched 5 10 2 ?body sample_api_db, resp)"
    by (rule sample_patch) (simp_all add: sample_patch_defs)
  then obtain resp where r: "patch_subscription (admin_session 1 5) 10 ?body sample_api_db =
      Inr (patched 5 10 2 ?body sample_api_db, resp)" by blast
  have o: "open_pairs sample_api_db 10 = {(''UK'', ''energy'')}"
    by (auto simp: open_pairs_def sample_db_defs scope_key_def)
  have "open_pairs (patched 5 10 2 ?body sample_api_db) 10
      = open_pairs sample_api_db 10 - set (pr_remove ?body) \<union> set (pr_add ?body)" "pa_added resp = card (set (pr_add ?body))"
    by (insert patch_outcome [OF r], (elim conjE, assumption)+)
  then have "open_pairs (patched 5 10 2 ?body sample_api_db) 10 = {(''DE'', ''energy'')}" "pa_added resp = 1"
    unfolding o by simp_all
  then show ?thesis using r by blast
qed

text \<open>C8. From a state in which no end lies in the future and every active watchlist names a document its
  owner may read, any sequence of admin and watchlist requests with a clock that does not run back
  keeps it so: an active watchlist never points outside the scope of its owner.\<close>

theorem active_watchlists_in_scope:
  assumes "history t0 db0 t db" "settled t0 db0" "watches_in_scope t0 db0"
    and "w \<in> set (watchlists db)" "w_active w"
  shows "\<exists>ds d. select_documents (client_session (w_user w) t) db = Inr ds \<and> d \<in> set ds \<and> d_id d = w_document w"
proof -
  have "visible_document db t (w_user w) (w_document w)"
    using history_in_scope [OF assms(1-3)] assms(4,5) by (auto simp: watches_in_scope_def list_all_iff)
  then show ?thesis by (auto simp: select_documents_client visible_document_def)
qed

lemma sample_settled: "settled 5 sample_api_db" "watches_in_scope 5 sample_api_db"
  by (simp_all add: settled_def sample_db_defs ended_by_def watches_in_scope_def visible_document_def
      in_scope_of_def doc_pair_def scope_of_def open_at_def)

lemma active_watchlists_in_scope_witness:
  "\<exists>db' ds d. history 5 sample_api_db 6 db' \<and> scopes db' \<noteq> scopes sample_api_db
     \<and> select_documents (client_session 2 6) db' = Inr ds \<and> d \<in> set ds \<and> d_id d = 7"
proof -
  let ?body = "\<lparr>pr_add = [(''DE'', ''energy'')], pr_remove = []\<rparr>"
  let ?db' = "patched 6 10 2 ?body sample_api_db"
  let ?w = "\<lparr>w_id = 20, w_user = 2, w_document = 7, w_name = ''n'', w_active = True, w_created = 0\<rparr>"
  have "\<exists>resp. patch_subscription (admin_session 1 6) 10 ?body sample_api_db = Inr (?db', resp)"
    by (rule sample_patch) (simp_all add: sample_patch_defs)
  then have hist: "history 5 sample_api_db 6 ?db'"
    by (auto intro: history.step [OF history.start] request.patch_sub)
  have "visible_document sample_api_db 6 2 7"
    by (simp add: visible_document_def in_scope_of_def doc_pair_def scope_of_def sample_db_defs open_at_def)
  then have vis: "visible_document ?db' 6 2 7"
    by (rule visible_mono [rotated 4]) (auto simp: patched_scopes_def ends_def)
  have "watchlists sample_api_db = [?w]"
    by (simp add: sample_api_db_def)
  then have "?w \<in> set (watchlists ?db')"
    unfolding watchlists_patched using vis by (simp add: hide_def)
  moreover have "scopes ?db' \<noteq> scopes sample_api_db"
    by (simp add: patched_scopes_def sample_db_defs sorted_pairs_def)
  ultimately show ?thesis
    using active_watchlists_in_scope [OF hist sample_settled] hist by fastforce
qed

text \<open>C16. Over any sequence of requests no row of the ledger is deleted or rewritten: the subscriptions are a
  prefix of the later ones, and every scope row is where it was, unchanged or with its open end set to a
  moment of the run.\<close>

theorem ledger_append_only:
  assumes "history t0 db0 t db"
  shows "(\<exists>more. subscriptions db = subscriptions db0 @ more)
    \<and> (\<exists>old more. scopes db = old @ more
        \<and> list_all2 (\<lambda>r r'. r' = r \<or> (\<exists>e. t0 \<le> e \<and> e \<le> t \<and> sc_to r = None \<and> r' = r\<lparr>sc_to := Some e\<rparr>)) (scopes db0) old)"
  using history_grows [OF assms] by (simp add: ledger_grows_def row_evolves_def [abs_def])

lemma sample_history:
  "\<exists>db'. history 5 sample_api_db 6 db'
     \<and> db' = patched 6 10 2 \<lparr>pr_add = [], pr_remove = [(''UK'', ''energy'')]\<rparr> sample_api_db"
proof -
  have "\<exists>resp. patch_subscription (admin_session 1 6) 10 \<lparr>pr_add = [], pr_remove = [(''UK'', ''energy'')]\<rparr> sample_api_db =
      Inr (patched 6 10 2 \<lparr>pr_add = [], pr_remove = [(''UK'', ''energy'')]\<rparr> sample_api_db, resp)"
    by (rule sample_patch) (simp_all add: sample_patch_defs)
  then show ?thesis
    by (auto intro: history.step [OF history.start] request.patch_sub)
qed

lemma ledger_append_only_witness:
  "\<exists>db' old more. history 5 sample_api_db 6 db' \<and> scopes db' = old @ more
     \<and> length old = 2 \<and> scopes db' \<noteq> scopes sample_api_db"
proof -
  let ?db' = "patched 6 10 2 \<lparr>pr_add = [], pr_remove = [(''UK'', ''energy'')]\<rparr> sample_api_db"
  have h: "history 5 sample_api_db 6 ?db'" using sample_history by simp
  obtain old more where o: "scopes ?db' = old @ more" "length old = length (scopes sample_api_db)"
    using ledger_append_only [OF h] by (auto dest: list_all2_lengthD)
  have "scopes ?db' \<noteq> scopes sample_api_db" "length (scopes sample_api_db) = 2"
    by (simp_all add: patched_scopes_def sample_db_defs ends_def scope_pair_def)
  then show ?thesis using h o by (intro exI [of _ ?db'] exI [of _ old] exI [of _ more]) simp
qed

text \<open>A scope pair of a subscription that has ended never opens again, whatever requests follow:
  the primary key of the ended row refuses the only statement that could bring it back.\<close>

theorem ended_scope_stays_ended:
  assumes "history t0 db0 t db" "ledger_keys db0"
    and "r \<in> set (scopes db0)" "scope_key r = (sid, p)" "sc_to r \<noteq> None"
  shows "p \<notin> open_pairs db sid"
proof
  assume "p \<in> open_pairs db sid"
  then obtain r' where r': "r' \<in> set (scopes db)" "scope_key r' = (sid, p)" "sc_to r' = None"
    by (auto simp: open_pairs_def)
  have "r \<in> set (scopes db)" by (rule ended_row_stays [OF history_grows [OF assms(1)] assms(3,5)])
  then have "r = r'"
    using history_keys [OF assms(1,2)] r'(1,2) assms(4)
    by (intro inj_onD [of scope_key "set (scopes db)"]) (simp_all add: ledger_keys_def distinct_map)
  then show False using r'(3) assms(5) by simp
qed

lemma ended_scope_stays_ended_witness:
  "\<exists>db'. history 5 sample_api_db 6 db' \<and> (''FR'', ''energy'') \<notin> open_pairs db' 10"
proof -
  have "ledger_keys sample_api_db"
    by (simp add: ledger_keys_def sample_db_defs scope_key_def)
  then show ?thesis
    using sample_history ended_scope_stays_ended [of 5 sample_api_db 6 _ "sample_scope ''FR'' (Some 3)" 10 "(''FR'', ''energy'')"]
    by (auto simp: sample_api_db_def sample_scope_def scope_key_def)
qed

text \<open>The PATCH that tries it answers with the violated key.\<close>

lemma readding_an_ended_pair_raises:
  "patch_subscription (admin_session 1 5) 10 \<lparr>pr_add = [(''FR'', ''energy'')], pr_remove = []\<rparr> sample_api_db =
     Inl (DbError UniqueViolation)"
proof -
  let ?body = "\<lparr>pr_add = [(''FR'', ''energy'')], pr_remove = []\<rparr>"
  obtain dto where dto: "subscription_by_id sample_api_db 10 = Some dto"
    by (simp add: subscription_by_id_def sample_db_defs)
  have "patch_refused sample_api_db 10 ?body = None" "has_scope sample_api_db 10 (''FR'', ''energy'')"
    by (simp_all add: sample_patch_defs)
  then show ?thesis
    using patch_eq [of "admin_session 1 5" sample_api_db 10 ?body dto] dto by simp
qed

section \<open>Watchlists between clients\<close>

lemma select_documents_cong:
  "library db' = library db \<Longrightarrow> scopes db' = scopes db \<Longrightarrow> subscriptions db' = subscriptions db \<Longrightarrow>
     select_documents ss db' = select_documents ss db"
proof -
  assume eq: "library db' = library db" "scopes db' = scopes db" "subscriptions db' = subscriptions db"
  have "scope_of db' = scope_of db" by (intro ext) (simp add: scope_of_def eq)
  then have "documents_in_scope ss db' = documents_in_scope ss db"
    by (intro ext) (simp add: documents_in_scope_def current_scope_def cong: option.case_cong)
  then show ?thesis by (simp add: select_documents_def eq)
qed

lemma watchlist_write_documents:
  assumes "watchlist_write ss db db'"
  shows "select_documents ss' db' = select_documents ss' db"
  using assms
proof cases
  case (create uid did name r)
  then obtain w rows where "db' = db\<lparr>t_next := Suc (t_next db), watchlists := rows\<rparr>"
    by (auto simp: create_watchlist_def watchlist_create_def Let_def insert_watchlist_def bindE_eq_Inr
        split: option.splits if_splits)
  then show ?thesis by (intro select_documents_cong) simp_all
next
  case (delete uid wid r)
  then obtain rows where "db' = db\<lparr>watchlists := rows\<rparr>"
    by (auto simp: delete_watchlist_def watchlist_delete_def Let_def bindE_eq_Inr split: if_splits)
  then show ?thesis by (intro select_documents_cong) simp_all
qed

lemma others_documents: "wl.others uid db db' \<Longrightarrow> select_documents ss db' = select_documents ss db"
  by (induction rule: wl.others.induct) (simp_all add: watchlist_write_documents)

lemma w_user_to_dto [simp]: "w_user (to_dto d w) = w_user w"
  by (simp add: to_dto_def watchlist_row.defs watchlist_dto.defs split: option.split)

text \<open>C34. What a client's watchlist listing returns belongs to that client, and no sequence of creations and
  deletions by other clients changes it.\<close>

theorem watchlists_private:
  assumes "wl.others uid db db'"
  shows "list_for (client_session uid t) db' = list_for (client_session uid t) db
    \<and> (\<exists>dtos. list_for (client_session uid t) db' = Inr dtos \<and> list_all (\<lambda>d. w_user d = uid) dtos)"
proof -
  have "list_for (client_session uid t) db' = list_for (client_session uid t) db"
    using wl.sel_private [OF assms client_session_of, of t]
    by (simp add: list_for_def with_documents_def others_documents [OF assms])
  moreover have "\<exists>dtos. list_for (client_session uid t) db' = Inr dtos \<and> list_all (\<lambda>d. w_user d = uid) dtos"
    by (simp add: list_for_def with_documents_def select_documents_client
        select_watchlists_client [OF client_session_of] list_all_iff)
  ultimately show ?thesis by simp
qed

lemma watchlists_private_witness:
  "\<exists>db' r. delete_watchlist 2 (client_session 2 5) 20 sample_api_db = Inr (db', r)
     \<and> list_for (client_session 3 5) db' = list_for (client_session 3 5) sample_api_db"
proof -
  obtain db' r where d: "delete_watchlist 2 (client_session 2 5) 20 sample_api_db = Inr (db', r)"
    by (simp add: delete_watchlist_client [OF client_session_of]) (simp add: sample_api_db_def)
  have "wl.others 3 sample_api_db db'"
    by (rule wl.others.step [OF wl.others.refl client_session_of [of 2 5] _ watchlist_write.delete [OF d]]) simp
  then show ?thesis using d watchlists_private [of 3 sample_api_db db' 5] by blast
qed

text \<open>The outcome of adding a watchlist: 422 unless the document is in the caller's scope, a unique
  violation when the caller has watched it before (a hidden row counts), and otherwise a new active row
  at the end of the table, named after the document when the request gives no name.\<close>

theorem create_watchlist_outcome:
  assumes "user_exists db uid" "distinct (map d_id (documents (library db)))"
  shows "create_watchlist uid (client_session uid t) did name db =
    (if \<not> visible_document db t uid did then Inl (HTTPException 422)
     else if watches db uid did then Inl (DbError UniqueViolation)
     else
       let d = the (List.find (\<lambda>d. d_id d = did) (documents (library db)));
           w = \<lparr>w_id = t_next db, w_user = uid, w_document = did, w_name = watch_name name d, w_active = True, w_created = t\<rparr>
       in Inr (db\<lparr>watchlists := watchlists db @ [w], t_next := Suc (t_next db)\<rparr>, to_response (to_dto None w)))"
proof -
  let ?V = "in_scope_of db t uid" and ?P = "\<lambda>d. d_id d = did" and ?ds = "documents (library db)"
  have none: "List.find ?P (filter ?V ?ds) = None \<longleftrightarrow> \<not> visible_document db t uid did"
    by (auto simp: find_filter_None visible_document_def)
  have some: "List.find ?P ?ds = Some d" if "List.find ?P (filter ?V ?ds) = Some d" for d
  proof -
    have d: "d \<in> set ?ds" "d_id d = did" using find_filter_Some [OF that] by auto
    then obtain d' where d': "List.find ?P ?ds = Some d'" by (cases "List.find ?P ?ds") (auto simp: find_None_iff)
    then have "d' \<in> set ?ds" "d_id d' = did" by (auto simp: find_Some_iff)
    then have "d' = d" using d assms(2) by (intro inj_onD [of d_id "set ?ds"]) (auto simp: distinct_map)
    then show ?thesis using d' by simp
  qed
  show ?thesis
    using create_watchlist_client [of "client_session uid t" uid db did name] assms(1) none some
    by (cases "List.find ?P (filter ?V ?ds)") (auto simp: user_exists_def Let_def)
qed

lemma create_watchlist_outcome_witness:
  "create_watchlist 2 (client_session 2 5) 8 None sample_api_db = Inl (HTTPException 422)
   \<and> create_watchlist 2 (client_session 2 5) 7 None sample_api_db = Inl (DbError UniqueViolation)
   \<and> (\<exists>db' r. create_watchlist 2 (client_session 2 5) 7 None (sample_api_db\<lparr>watchlists := []\<rparr>) = Inr (db', r)
        \<and> wr_name r = ''Act'')"
proof -
  have pre: "user_exists sample_api_db 2" "distinct (map d_id (documents (library sample_api_db)))"
    "user_exists (sample_api_db\<lparr>watchlists := []\<rparr>) 2" "distinct (map d_id (documents (library (sample_api_db\<lparr>watchlists := []\<rparr>))))"
    by (simp_all add: user_exists_def sample_db_defs)
  have vis: "\<not> visible_document sample_api_db 5 2 8" "visible_document sample_api_db 5 2 7"
    "visible_document (sample_api_db\<lparr>watchlists := []\<rparr>) 5 2 7"
    by (simp_all add: visible_document_def in_scope_of_def doc_pair_def sample_scope_2)
      (simp_all add: sample_db_defs)
  have "watches sample_api_db 2 7" "\<not> watches (sample_api_db\<lparr>watchlists := []\<rparr>) 2 7"
    "List.find (\<lambda>d. d_id d = 7) (documents (library (sample_api_db\<lparr>watchlists := []\<rparr>))) = Some (hd (documents sample_library))"
    by (simp_all add: watches_def sample_db_defs)
  then show ?thesis
    using vis create_watchlist_outcome [OF pre(1,2), of 5 8 None] create_watchlist_outcome [OF pre(1,2), of 5 7 None]
      create_watchlist_outcome [OF pre(3,4), of 5 7 None]
    by (simp add: Let_def to_response_def to_dto_def watch_name_def watchlist_row.defs watchlist_dto.defs)
      (simp add: sample_library_def)
qed

section \<open>The corpus under row-level security\<close>

text \<open>A client's session sees a version exactly when it sees the version's document, and a clause exactly
  when it sees the clause's version: the three policies, each written with its own joins, agree.\<close>

lemma corpus_follows_documents:
  "\<exists>ds vs cs. select_documents (client_session uid t) db = Inr ds
     \<and> select_versions (client_session uid t) db = Inr vs \<and> select_clauses (client_session uid t) db = Inr cs
     \<and> ds = filter (\<lambda>d. doc_pair d \<in> set (scope_of db t uid)) (documents (library db))
     \<and> vs = filter (\<lambda>v. v_document v \<in> d_id ` set ds) (versions (library db))
     \<and> cs = filter (\<lambda>c. c_version c \<in> v_id ` set vs) (clauses (library db))"
proof -
  let ?ds = "filter (in_scope_of db t uid) (documents (library db))"
  let ?vs = "filter (\<lambda>v. v_document v \<in> d_id ` set ?ds) (versions (library db))"
  have "select_documents (client_session uid t) db = Inr ?ds"
    by (simp add: select_documents_client)
  moreover have "?ds = filter (\<lambda>d. doc_pair d \<in> set (scope_of db t uid)) (documents (library db))"
    by (simp add: in_scope_of_def [abs_def])
  moreover have "select_versions (client_session uid t) db = Inr ?vs"
    by (simp add: select_versions_client) (intro filter_cong refl, auto simp: image_iff)
  moreover have "select_clauses (client_session uid t) db =
      Inr (filter (\<lambda>c. c_version c \<in> v_id ` set ?vs) (clauses (library db)))"
    by (simp add: select_clauses_client) (intro filter_cong refl, auto simp: image_iff, metis+)
  ultimately show ?thesis by blast
qed

end
