(* ===== verification/Api_Properties.thy ===== *)
theory Api_Properties
  imports Api_Samples
begin

text \<open>Properties of authentication, of the audit log, of the event pages and of the upstream client, with their witnesses.\<close>

section \<open>Refresh tokens\<close>

lemma logout_dead:
  assumes "registry_ok db" "require_refresh_principal blank lib cfg t header cookie = Inr (p, src)"
    and "spent db (pr_jti p)"
  shows "logout_request blank lib cfg t header cookie db = (db, Inl (HTTPException 401))"
  using live_not_spent [OF assms(1)] assms(2,3) by (auto simp: logout_request_eq)

text \<open>C6. Over any sequence of logins, refreshes and logouts with any outcome, no refresh token is accepted
  twice, and one that was accepted is refused by both routes ever after, with the database untouched.\<close>

theorem refresh_single_use:
  assumes "auth_run blank lib cfg verify dummy db0 js db" "registry_ok db0"
  shows "distinct js
    \<and> (\<forall>t header cookie p src. require_refresh_principal blank lib cfg t header cookie = Inr (p, src) \<and> pr_jti p \<in> set js \<longrightarrow>
         refresh_request blank lib cfg t header cookie db = (db, Inl (HTTPException 401))
         \<and> logout_request blank lib cfg t header cookie db = (db, Inl (HTTPException 401)))"
proof -
  have ok: "registry_ok db" "distinct js" "\<forall>j \<in> set js. spent db j"
    using auth_run_consumed [OF assms] by (simp_all add: consumed_ok_def list_all_iff)
  then show ?thesis using refresh_dead [OF ok(1)] logout_dead [OF ok(1)] by blast
qed

lemma sample_live: "has_live sample_api_db 30 2"
  by (simp add: has_live_def sample_api_db_def live_token_def)

lemma sample_refresh:
  "\<exists>db' r. refresh_request (\<lambda>_. False) sample_jwt sample_cfg 1 (Some (sample_token 30 2 ''client'' Refresh)) None sample_api_db =
     (db', Inr r)"
  using sample_refresh_principal [of 1 30 2 "''client''"] sample_live
  by (simp add: refresh_request_eq [OF sample_registry_ok] second_def Let_def)

lemma refresh_single_use_witness:
  "\<exists>db r. refresh_request (\<lambda>_. False) sample_jwt sample_cfg 1 (Some (sample_token 30 2 ''client'' Refresh)) None sample_api_db =
      (db, Inr r)
    \<and> refresh_request (\<lambda>_. False) sample_jwt sample_cfg 2 (Some (sample_token 30 2 ''client'' Refresh)) None db =
      (db, Inl (HTTPException 401))"
proof -
  let ?tok = "sample_token 30 2 ''client'' Refresh"
  obtain db r where r: "refresh_request (\<lambda>_. False) sample_jwt sample_cfg 1 (Some ?tok) None sample_api_db = (db, Inr r)"
    using sample_refresh by blast
  have p: "require_refresh_principal (\<lambda>_. False) sample_jwt sample_cfg t (Some ?tok) None =
      Inr (\<lparr>pr_user = 2, pr_role = ''client'', pr_kind = Refresh, pr_jti = 30, pr_issued = 0,
            pr_expires = default_ttls Refresh div second * second\<rparr>, Header)" if "t = 1 \<or> t = 2" for t
    using that by (intro sample_refresh_principal) (auto simp: second_def)
  have "auth_run (\<lambda>_. False) sample_jwt sample_cfg (\<lambda>_ _. Inr True) [] sample_api_db ([] @ [30]) db"
    using auth_run.rotate [OF auth_run.start p [of 1] r, of "\<lambda>_ _. Inr True" "[]"] by simp
  then show ?thesis
    using refresh_single_use [OF _ sample_registry_ok] p [of 2] r by fastforce
qed

text \<open>A live refresh token is exchanged for a pair: the new refresh token travels the way the old one
  came (cookie or body), is accepted by a later request within its lifetime, and the old one is refused.\<close>

theorem refresh_rotates:
  assumes "jwt_ok lib" "registry_ok db" "require_refresh_principal blank lib cfg t header cookie = Inr (p, src)"
    and "has_live db (pr_jti p) (pr_user p)" "\<forall>c alg. \<not> blank (jwt_encode lib c alg)"
    and "t div second * second \<le> t' + jc_leeway cfg" "t' - jc_leeway cfg < (t + jc_ttl cfg Refresh) div second * second"
  shows "\<exists>db' r tok db'' r'. refresh_request blank lib cfg t header cookie db = (db', Inr r)
    \<and> (ar_cookie r \<noteq> None) = (src = Cookie) \<and> (ar_refresh r = None) = (src = Cookie) \<and> given_refresh r = Some tok
    \<and> refresh_request blank lib cfg t' (Some tok) None db' = (db'', Inr r')
    \<and> refresh_request blank lib cfg t header cookie db' = (db', Inl (HTTPException 401))"
proof -
  obtain db' r where r: "refresh_request blank lib cfg t header cookie db = (db', Inr r)"
    using assms(3,4) by (simp add: refresh_request_eq [OF assms(2)] Let_def)
  note g = refresh_granted [OF assms(2,3) r]
  obtain tok where tok: "given_refresh r = Some tok" "\<not> blank tok" using g(4) assms(5) by (auto simp: given_pair)
  obtain db'' r' where "refresh_request blank lib cfg t' (Some tok) None db' = (db'', Inr r')"
    using refresh_chain [OF assms(1-3) r tok assms(6,7)] by blast
  moreover have "spent db' (pr_jti p)"
    unfolding g(3) by (rule spent_pair [OF marked_spends [OF g(1)]])
  then have "refresh_request blank lib cfg t header cookie db' = (db', Inl (HTTPException 401))"
    by (rule refresh_dead [OF g(5) assms(3)])
  moreover have "(ar_cookie r \<noteq> None) = (src = Cookie)" "(ar_refresh r = None) = (src = Cookie)"
    by (simp_all add: g(4) pair_response_def Let_def)
  ultimately show ?thesis using r tok(1)
    by (intro exI [of _ db'] exI [of _ r] exI [of _ tok] exI [of _ db''] exI [of _ r'] conjI)
qed

lemma refresh_rotates_witness:
  "\<exists>db' r tok db'' r'.
     refresh_request (\<lambda>_. False) sample_jwt sample_cfg 1 (Some (sample_token 30 2 ''client'' Refresh)) None sample_api_db = (db', Inr r)
     \<and> given_refresh r = Some tok \<and> refresh_request (\<lambda>_. False) sample_jwt sample_cfg 2 (Some tok) None db' = (db'', Inr r')"
  using refresh_rotates [OF sample_jwt_ok sample_registry_ok sample_refresh_principal [of 1 30 2 "''client''"], of 2] sample_live
  by (auto simp: second_def sample_cfg_def default_leeway_def default_ttls_def)

section \<open>The admin access log\<close>

text \<open>C17. An admin request runs its handler after the audit row has committed: a handler that fails leaves
  exactly the audit row behind, whatever it had written, and a principal without the admin role is refused
  with nothing written.\<close>

theorem audit_row_survives:
  assumes "authenticated_user blank lib cfg t bearer = Inr p" "user_exists db (pr_user p)"
  shows "admin_request blank lib cfg t bearer handler db =
    (if pr_role p \<noteq> ''admin'' then (db, Inl (HTTPException 403))
     else
       let row = \<lparr>al_id = Suc (t_next db), al_admin = pr_user p, al_target = None, al_mode = Operator,
                  al_token = Some (t_next db), al_reason = None, al_at = t\<rparr>;
           logged = db\<lparr>t_next := Suc (Suc (t_next db)), access_log := access_log db @ [row]\<rparr>
       in case handler p (admin_session (pr_user p) t) logged of
            Inl e \<Rightarrow> (logged, Inl e)
          | Inr (db', x) \<Rightarrow> (db', Inr x))"
  using assms
  by (simp add: admin_request_def require_admin_principal_def operator_session_eq audited_def audit_row_def
      transaction_def Let_def)

lemma audit_row_survives_witness:
  "\<exists>db'. admin_request (\<lambda>_. False) sample_jwt sample_cfg 1 (Some (sample_token 31 1 ''admin'' Access))
       (\<lambda>p ss d. patch_subscription ss 99 \<lparr>pr_add = [(''UK'', ''x'')], pr_remove = []\<rparr> d) sample_api_db =
     (db', Inl (HTTPException 404)) \<and> map al_admin (access_log db') = [1] \<and> scopes db' = scopes sample_api_db"
proof -
  have p: "authenticated_user (\<lambda>_. False) sample_jwt sample_cfg 1 (Some (sample_token 31 1 ''admin'' Access)) =
      Inr \<lparr>pr_user = 1, pr_role = ''admin'', pr_kind = Access, pr_jti = 31, pr_issued = 0,
           pr_expires = default_ttls Access div second * second\<rparr>"
    by (rule sample_admin_principal) (simp_all add: second_def)
  have "user_exists sample_api_db 1" by (simp add: user_exists_def sample_db_defs)
  then show ?thesis
    using audit_row_survives [OF p, of sample_api_db
        "\<lambda>p ss d. patch_subscription ss 99 \<lparr>pr_add = [(''UK'', ''x'')], pr_remove = []\<rparr> d"]
    by (simp add: patch_subscription_def subscription_by_id_def sample_api_db_def Let_def)
qed

text \<open>C11. An impersonation token is only ever minted for a request of an admin, for another user who is a
  client, after two audit rows that name the admin and the target have committed; the token is accepted as
  a bearer for the target, and no admin route accepts it.\<close>

theorem impersonation_audited:
  assumes "begin_impersonation blank lib cfg t bearer target reason db = (db', Inr r)"
    and "jwt_ok lib" "\<not> blank (im_token r)" "0 \<le> jc_leeway cfg" "second \<le> jc_ttl cfg Impersonate"
  shows "\<exists>p x. authenticated_user blank lib cfg t bearer = Inr p \<and> pr_role p = ''admin''
    \<and> user_by_id db target = Some x \<and> us_role x = Client \<and> target \<noteq> pr_user p
    \<and> (\<exists>a b. access_log db' = access_log db @ [a, b]
         \<and> al_admin a = pr_user p \<and> al_mode a = Operator
         \<and> al_admin b = pr_user p \<and> al_mode b = Impersonation \<and> al_target b = Some target \<and> al_reason b = reason)
    \<and> (\<exists>q. authenticated_user blank lib cfg t (Some (im_token r)) = Inr q \<and> pr_user q = target \<and> pr_kind q = Impersonate
         \<and> admin_request blank lib cfg t (Some (im_token r)) handler db' = (db', Inl (HTTPException 403)))"
proof -
  obtain p a x where g: "authenticated_user blank lib cfg t bearer = Inr p" "pr_role p = ''admin''"
    "user_by_id db target = Some x" "target \<noteq> pr_user p" "us_role x = Client"
    "access_log db' = access_log db @
       [audit_row t Operator (pr_user p) None None db,
        audit_row t Impersonation (pr_user p) (Some target) reason
          (audited (audit_row t Operator (pr_user p) None None db) db)]"
    "im_token r = jwt_encode lib (token_claims lib cfg t (t_next db + 4) target ''client'' Impersonate) (jc_algorithm cfg)"
    using assms(1) by (rule begin_impersonation_granted)
  have "t div second * second \<le> t" "t - second < t div second * second" for t
    using minus_mod_eq_div_mult [of t second] pos_mod_bound [of second t] pos_mod_sign [of second t]
    unfolding minus_mod_eq_div_mult [symmetric] by simp_all
  then have "t div second * second \<le> t + jc_leeway cfg"
    "t - jc_leeway cfg < (t + jc_ttl cfg Impersonate) div second * second"
    using assms(4,5) by (smt (verit))+
  then obtain q where q: "authenticated_user blank lib cfg t (Some (im_token r)) = Inr q" "pr_user q = target"
    "pr_kind q = Impersonate" "pr_role q = ''client''"
    using assms(3) g(7)
    by (simp add: authenticated_user_def require_kinds_def verify_bearer_def verify_encoded [OF assms(2)])
  then have "admin_request blank lib cfg t (Some (im_token r)) handler db' = (db', Inl (HTTPException 403))"
    by (simp add: admin_request_def require_admin_principal_def)
  then show ?thesis using g(1-6) q(1-3) by (auto simp: audit_row_def)
qed

lemma impersonation_audited_witness:
  "\<exists>db' r. begin_impersonation (\<lambda>_. False) sample_jwt sample_cfg 1 (Some (sample_token 31 1 ''admin'' Access)) 2 None
       sample_api_db = (db', Inr r)
     \<and> length (access_log db') = 2
     \<and> admin_request (\<lambda>_. False) sample_jwt sample_cfg 1 (Some (im_token r)) (\<lambda>_ _ d. Inr (d, ())) db' =
         (db', Inl (HTTPException 403))"
proof -
  let ?req = "begin_impersonation (\<lambda>_. False) sample_jwt sample_cfg 1 (Some (sample_token 31 1 ''admin'' Access)) 2 None sample_api_db"
  have p: "authenticated_user (\<lambda>_. False) sample_jwt sample_cfg 1 (Some (sample_token 31 1 ''admin'' Access)) =
      Inr \<lparr>pr_user = 1, pr_role = ''admin'', pr_kind = Access, pr_jti = 31, pr_issued = 0,
           pr_expires = default_ttls Access div second * second\<rparr>"
    by (rule sample_admin_principal) (simp_all add: second_def)
  have ex: "user_exists sample_api_db 1" by (simp add: user_exists_def sample_db_defs)
  have "check_impersonation sample_api_db 1 2 = Inr (sample_user 1 ''a'' Admin, sample_user 2 ''b'' Client)"
    by (simp add: check_impersonation_Inr user_by_id_def sample_db_defs)
  then obtain db' r where r: "?req = (db', Inr r)"
    using begin_impersonation_refused [OF _ p, of 2 None sample_api_db] ex
    by (cases ?req) (auto split: sum.splits elim: sum.exhaust, metis Inl_Inr_False old.sum.exhaust)
  have "0 \<le> jc_leeway sample_cfg" "second \<le> jc_ttl sample_cfg Impersonate"
    by (simp_all add: sample_cfg_def default_leeway_def default_ttls_def second_def)
  then show ?thesis
    using impersonation_audited [OF r sample_jwt_ok, where handler = "\<lambda>_ _ d. Inr (d, ())"] r
    by (auto simp: sample_api_db_def)
qed

section \<open>Pages of change events\<close>

text \<open>C7. A client that follows the cursors of a scope with any page sizes within the limit reads exactly the
  events of the scope that its subscription covers, each once, newest first and by descending id within a moment.\<close>

theorem pages_enumerate_events:
  assumes "cursor_lib_ok lib" "distinct (map ev_id (change_events db))"
    and "\<forall>n \<in> set ns. 1 \<le> n \<and> n \<le> max_limit" "int (length (change_events db)) \<le> sum_list ns"
  shows "read_all lib (client_session uid t) db sc ns None =
    Inr (sort_key (\<lambda>e. (- ev_detected e, - ev_id e))
      (filter (\<lambda>e. (e_jurisdiction e, e_sector e) \<in> set (scope_of db t uid) \<and> apply_scope sc e) (change_events db)))"
proof -
  let ?es = "filter (event_visible db t uid) (change_events db)"
  have sel: "select_events (client_session uid t) db = Inr ?es"
    by (simp add: select_events_client [OF client_session_of])
  have d: "distinct (map ev_id ?es)" by (rule distinct_map_filter [OF assms(2)])
  have "int (length ?es) \<le> sum_list ns"
    using assms(4) length_filter_le [of "event_visible db t uid" "change_events db"] by linarith
  then have "read_all lib (client_session uid t) db sc ns None = Inr (sort_key event_key (filter (apply_scope sc) ?es))"
    by (rule read_all_complete [OF assms(1) sel d assms(3)])
  moreover have "filter (apply_scope sc) ?es =
      filter (\<lambda>e. (e_jurisdiction e, e_sector e) \<in> set (scope_of db t uid) \<and> apply_scope sc e) (change_events db)"
    by (simp add: event_visible_def [abs_def] conj_commute)
  ultimately show ?thesis by (simp add: event_key_def [abs_def])
qed

lemma pages_enumerate_events_witness:
  "read_all sample_cursor_lib (client_session 2 5) sample_api_db (DocumentScope 7) [1, 1, 1] None =
     Inr [sample_event 3 6, sample_event 2 4, sample_event 1 4]"
proof -
  have "read_all sample_cursor_lib (client_session 2 5) sample_api_db (DocumentScope 7) [1, 1, 1] None =
    Inr (sort_key (\<lambda>e. (- ev_detected e, - ev_id e))
      (filter (\<lambda>e. (e_jurisdiction e, e_sector e) \<in> set (scope_of sample_api_db 5 2) \<and> apply_scope (DocumentScope 7) e)
        (change_events sample_api_db)))"
    by (rule pages_enumerate_events [OF sample_cursor_lib_ok]) (simp_all add: sample_api_db_def sample_event_def max_limit_def)
  then show ?thesis
    unfolding sample_scope_2
    by (simp add: sample_api_db_def sample_event_def apply_scope_def less_prod_def)
qed

text \<open>A cursor decodes to the position it was made from, for every moment and every id, and its text
  has no padding and only ASCII characters.\<close>

theorem cursor_round_trip:
  assumes "cursor_lib_ok lib"
  shows "decode_cursor lib (encode_cursor lib t i) = Inr (t, i)
    \<and> list_all (\<lambda>c. c < 128 \<and> c \<noteq> 61) (encode_cursor lib t i)"
proof -
  let ?raw = "dumps lib (isoformat lib t) i"
  have b: "\<forall>b \<in> set ?raw. b < 256" using assms unfolding cursor_lib_ok_def by fastforce
  obtain plain where plain: "b64encode ?raw = plain @ replicate ((4 - length plain mod 4) mod 4) 61" "61 \<notin> set plain"
    using b64encode_shape [OF b] by auto
  have "\<forall>c \<in> set plain. c < 128" using b64encode_ascii [OF b] plain(1) by auto
  then have "list_all (\<lambda>c. c < 128 \<and> c \<noteq> 61) (encode_cursor lib t i)"
    using plain by (auto simp: encode_cursor_def strip_padding_app list_all_iff)
  then show ?thesis using decode_encode_cursor [OF assms] by simp
qed

lemma cursor_round_trip_witness:
  "decode_cursor sample_cursor_lib (encode_cursor sample_cursor_lib 6 (- 3)) = Inr (6, - 3)"
  using cursor_round_trip [OF sample_cursor_lib_ok, of 6 "- 3"] by simp

text \<open>What the \<open>except\<close> clause of \<open>decode_cursor\<close> misses: an infinite id leaves it as an \<open>OverflowError\<close>.\<close>

lemma infinite_cursor_id_escapes:
  "loads lib raw = Some (JObj [(u ''dt'', JStr s), (u ''id'', JNum PosInf)]) \<Longrightarrow> fromisoformat lib s = Some t \<Longrightarrow>
     \<forall>b \<in> set raw. b < 256 \<Longrightarrow> decode_cursor lib (strip_padding (b64encode raw)) = Inl OverflowError"
  using b64encode_ascii [of raw]
  by (auto simp: decode_cursor_def cursor_body_def repad_strip a2b_b64encode subscript_def from_iso_def py_int_def
      trunc_def u_def not_le)

section \<open>The upstream client\<close>

text \<open>C36. With an attempt limit of a, at least one, a call of the data plane sends at most a(a+1) requests, all of
  them the login or the call's own request with a bearer token. It reports a transient failure only after a
  request, and only after at least a requests or once 45 seconds have passed since it began: that is the timeout of
  stamina, which the client leaves as it is.\<close>

theorem retry_bounds:
  assumes "stamina_ok env watch pause" "0 < lw_attempts cfg" "request_with_retry env cfg req st = (st', r)"
  shows "\<exists>new. ls_sent st' = ls_sent st @ new
    \<and> length new \<le> lw_attempts cfg * (lw_attempts cfg + 1)
    \<and> list_all (\<lambda>q. q = login_body cfg \<or> (\<exists>b. q = req\<lparr>rq_bearer := Some b\<rparr>)) new
    \<and> (is_transient r \<longrightarrow> new \<noteq> []
         \<and> (lw_attempts cfg \<le> length new \<or> watch (ls_world st) + 45 \<le> watch (ls_world st')))"
  using retry_sends [OF assms(1) authed_attempt_sends [OF assms(1,2)] assms(2) assms(3) [unfolded request_with_retry_def]]
  by (simp add: is_login_request_def is_data_request_def stamina_timeout_def)

lemma retry_bounds_witness:
  "\<exists>st' r. request_with_retry down_server sample_law_config (get_request sample_law_config ''/jurisdictions'' []) down_state = (st', r)
     \<and> lw_attempts sample_law_config = 4 \<and> is_transient r \<and> length (ls_sent st') = 3 \<and> 45 \<le> ls_world st'"
proof -
  let ?req = "get_request sample_law_config ''/jurisdictions'' []"
  obtain st' r where r: "request_with_retry down_server sample_law_config ?req down_state = (st', r)"
    by (cases "request_with_retry down_server sample_law_config ?req down_state")
  have run: "is_transient r \<and> length (ls_sent st') = 3"
    using r by (auto simp: request_with_retry_def down_server_def stamina_loop.simps authed_attempt_def
        ensure_fresh_token_def needs_refresh_def down_state_def sample_law_config_def law_client_def ge_float_def
        add_float_def do_request_def is_transient_def stamina_timeout_def)
  have a: "lw_attempts sample_law_config = 4" by (simp add: sample_law_config_def law_client_def)
  have "ls_sent down_state = []" "ls_world down_state = 0" by (simp_all add: down_state_def)
  then have "45 \<le> ls_world st'"
    using retry_bounds [OF down_server_ok _ r] a run by auto
  then show ?thesis using r run a by blast
qed



end
