(* ===== verification/Documents.thy ===== *)
theory Documents
  imports Watchlists Change_Events
begin

text \<open>
  Reading the corpus: \<open>DocumentsRepository\<close> with its filters, pages and per-document statistics
  (\<open>repos/documents.py\<close>), \<open>DocumentVersionsRepository\<close>, \<open>ClausesRepository\<close> and the routes of
  \<open>documents.py\<close>. \<open>lower\<close> is the case folding of PostgreSQL's \<open>ILIKE\<close>, which depends on the locale.
  Where SQL leaves the order of equal sort keys open, the model keeps insertion order.
\<close>

section \<open>LIKE\<close>

text \<open>\<open>%\<close> matches any text, \<open>_\<close> any character, a backslash makes the next character literal.\<close>

fun like_match :: "string \<Rightarrow> string \<Rightarrow> bool" where
  "like_match [] s = (s = [])"
| "like_match (c # p) s =
     (if c = CHR 0x5C then (case p of [] \<Rightarrow> False | d # p' \<Rightarrow> (case s of [] \<Rightarrow> False | x # s' \<Rightarrow> x = d \<and> like_match p' s'))
      else if c = CHR ''%'' then like_match p s \<or> (case s of [] \<Rightarrow> False | x # s' \<Rightarrow> like_match (c # p) s')
      else if c = CHR ''_'' then (case s of [] \<Rightarrow> False | x # s' \<Rightarrow> like_match p s')
      else (case s of [] \<Rightarrow> False | x # s' \<Rightarrow> x = c \<and> like_match p s'))"

definition ilike :: "(string \<Rightarrow> string) \<Rightarrow> string \<Rightarrow> string \<Rightarrow> bool" where
  "ilike lower s pat = like_match (lower pat) (lower s)"

section \<open>Filters and pages\<close>

definition max_list_limit :: int where "max_list_limit = 200"

record document_filter =
  f_jurisdiction :: "string option"
  f_sector :: "string option"
  f_search :: "string option"

definition passes_filter :: "(string \<Rightarrow> string) \<Rightarrow> document_filter \<Rightarrow> document_row \<Rightarrow> bool" where
  "passes_filter lower f d \<longleftrightarrow>
     (case f_jurisdiction f of None \<Rightarrow> True | Some j \<Rightarrow> d_jurisdiction d = j)
     \<and> (case f_sector f of None \<Rightarrow> True | Some s \<Rightarrow> d_sector d = s)
     \<and> (case f_search f of None \<Rightarrow> True
        | Some q \<Rightarrow> q \<noteq> [] \<longrightarrow> ilike lower (d_title d) (''%'' @ q @ ''%''))"

definition newest_first :: "document_row list \<Rightarrow> document_row list" where
  "newest_first = sort_key (\<lambda>d. (- d_created d, - int (d_id d)))"

definition list_all_documents :: "db_session \<Rightarrow> api_db \<Rightarrow> document_row list result" where
  "list_all_documents ss db = select_documents ss db"

definition list_filtered ::
  "(string \<Rightarrow> string) \<Rightarrow> db_session \<Rightarrow> api_db \<Rightarrow> document_filter \<Rightarrow> int \<Rightarrow> int
    \<Rightarrow> (document_row list \<times> nat) result" where
  "list_filtered lower ss db f limit offset =
     (let limit = (if limit < 1 then 1 else limit);
          limit = (if limit > max_list_limit then max_list_limit else limit);
          offset = (if offset < 0 then 0 else offset)
      in bindE (select_documents ss db) (\<lambda>ds.
           let hits = filter (passes_filter lower f) ds
           in Inr (take (nat limit) (drop (nat offset) (newest_first hits)), length hits)))"

section \<open>Statistics\<close>

record change_counts =
  n_added :: nat
  n_removed :: nat
  n_modified :: nat
  n_moved :: nat

record document_stats =
  st_clauses :: nat
  st_counts :: change_counts
  st_previous :: "timestamp option"
  st_current :: "timestamp option"

text \<open>\<open>COALESCE(effective_date, created_at)\<close>, and the rank that \<open>row_number()\<close> gives within a document.\<close>

definition sort_at :: "api_db \<Rightarrow> version_row \<Rightarrow> timestamp" where
  "sort_at db v = (case v_effective v of Some t \<Rightarrow> t | None \<Rightarrow> version_created db (v_id v))"

definition ranked_versions :: "api_db \<Rightarrow> version_row list \<Rightarrow> uuid \<Rightarrow> version_row list" where
  "ranked_versions db vs did =
     sort_key (\<lambda>v. (- sort_at db v, - int (v_id v))) (filter (\<lambda>v. v_document v = did) vs)"

definition at_rank :: "nat \<Rightarrow> 'a list \<Rightarrow> 'a option" where
  "at_rank n xs = (if n < length xs then Some (xs ! n) else None)"

definition count_events :: "stored_event list \<Rightarrow> uuid option \<Rightarrow> change_type \<Rightarrow> nat" where
  "count_events es vid ct = length (filter (\<lambda>e. Some (e_version e) = vid \<and> e_type e = ct) es)"

definition stats_of ::
  "api_db \<Rightarrow> version_row list \<Rightarrow> clause_row list \<Rightarrow> stored_event list \<Rightarrow> uuid \<Rightarrow> document_stats" where
  "stats_of db vs cs es did =
     (let ranked = ranked_versions db vs did;
          current = at_rank 0 ranked; previous = at_rank 1 ranked;
          vid = map_option v_id current
      in \<lparr>st_clauses = length (filter (\<lambda>c. Some (c_version c) = vid) cs),
          st_counts = \<lparr>n_added = count_events es vid ADDED, n_removed = count_events es vid REMOVED,
                       n_modified = count_events es vid MODIFIED, n_moved = count_events es vid MOVED\<rparr>,
          st_previous = map_option (sort_at db) previous, st_current = map_option (sort_at db) current\<rparr>)"

text \<open>One query for a set of ids; a document outside the session's view has no row.\<close>

definition fetch_stats :: "db_session \<Rightarrow> api_db \<Rightarrow> uuid list \<Rightarrow> (uuid \<times> document_stats) list result" where
  "fetch_stats ss db ids =
     bindE (select_documents ss db) (\<lambda>ds. bindE (select_versions ss db) (\<lambda>vs.
     bindE (select_clauses ss db) (\<lambda>cs. bindE (select_events ss db) (\<lambda>es.
       Inr (map (\<lambda>d. (d_id d, stats_of db vs cs es (d_id d))) (filter (\<lambda>d. d_id d \<in> set ids) ds))))))"

record document_dto = document_row +
  dto_stats :: document_stats

definition no_stats :: document_stats where
  "no_stats = \<lparr>st_clauses = 0, st_counts = \<lparr>n_added = 0, n_removed = 0, n_modified = 0, n_moved = 0\<rparr>,
     st_previous = None, st_current = None\<rparr>"

definition merge_stats :: "document_row \<Rightarrow> document_stats option \<Rightarrow> document_dto" where
  "merge_stats base st =
     document_row.extend base (document_dto.fields (case st of None \<Rightarrow> no_stats | Some x \<Rightarrow> x))"

definition list_filtered_with_stats ::
  "(string \<Rightarrow> string) \<Rightarrow> db_session \<Rightarrow> api_db \<Rightarrow> document_filter \<Rightarrow> int \<Rightarrow> int
    \<Rightarrow> (document_dto list \<times> nat) result" where
  "list_filtered_with_stats lower ss db f limit offset =
     bindE (list_filtered lower ss db f limit offset) (\<lambda>(rows, total).
       if rows = [] then Inr ([], total)
       else bindE (fetch_stats ss db (map d_id rows)) (\<lambda>stats.
              Inr (map (\<lambda>r. merge_stats r (map_of stats (d_id r))) rows, total)))"

definition document_by_id_with_stats :: "db_session \<Rightarrow> uuid \<Rightarrow> api_db \<Rightarrow> document_dto option result" where
  "document_by_id_with_stats ss did db =
     bindE (document_by_id ss did db) (\<lambda>base.
       case base of
         None \<Rightarrow> Inr None
       | Some d \<Rightarrow> bindE (fetch_stats ss db [did]) (\<lambda>stats. Inr (Some (merge_stats d (map_of stats did)))))"

section \<open>Versions and clauses\<close>

text \<open>Ascending with the nulls last, as PostgreSQL orders them.\<close>

definition nulls_last :: "timestamp option \<Rightarrow> bool \<times> timestamp" where
  "nulls_last x = (case x of None \<Rightarrow> (True, 0) | Some t \<Rightarrow> (False, t))"

definition list_for_document :: "db_session \<Rightarrow> api_db \<Rightarrow> uuid \<Rightarrow> version_row list result" where
  "list_for_document ss db did =
     bindE (select_versions ss db) (\<lambda>vs.
       Inr (sort_key (\<lambda>v. nulls_last (v_effective v)) (filter (\<lambda>v. v_document v = did) vs)))"

definition version_by_label :: "db_session \<Rightarrow> api_db \<Rightarrow> uuid \<Rightarrow> ustr \<Rightarrow> version_row option result" where
  "version_by_label ss db did lab =
     bindE (select_versions ss db) (\<lambda>vs.
       Inr (List.find (\<lambda>v. v_document v = did \<and> v_label v = lab) vs))"

definition list_for_version :: "db_session \<Rightarrow> api_db \<Rightarrow> uuid \<Rightarrow> clause_row list result" where
  "list_for_version ss db vid =
     bindE (select_clauses ss db) (\<lambda>cs. Inr (sort_key c_ord (filter (\<lambda>c. c_version c = vid) cs)))"

section \<open>The routes\<close>

record document_page =
  dp_items :: "document_dto list"
  dp_total :: nat
  dp_limit :: int
  dp_offset :: int

record version_item =
  vi_id :: uuid
  vi_label :: ustr
  vi_publication :: "timestamp option"
  vi_effective :: "timestamp option"
  vi_bytes :: nat
  vi_created :: timestamp

record clause_item =
  ci_id :: uuid
  ci_uid :: uuid
  ci_path :: ustr
  ci_text :: ustr
  ci_heading :: "ustr option"
  ci_label :: "ustr option"
  ci_ord :: nat

record clause_bundle =
  cb_document :: uuid
  cb_version :: uuid
  cb_label :: ustr
  cb_clauses :: "clause_item list"

text \<open>The \<open>Query\<close> bounds: a request outside them is answered with 422 before the handler runs.\<close>

definition list_documents ::
  "(string \<Rightarrow> string) \<Rightarrow> db_session \<Rightarrow> api_db \<Rightarrow> document_filter \<Rightarrow> int \<Rightarrow> int \<Rightarrow> document_page result" where
  "list_documents lower ss db f limit offset =
     (if limit < 1 \<or> max_list_limit < limit \<or> offset < 0
         \<or> (case f_search f of None \<Rightarrow> False | Some q \<Rightarrow> length q < 1 \<or> 200 < length q)
      then Inl (HTTPException 422)
      else bindE (list_filtered_with_stats lower ss db f limit offset) (\<lambda>(rows, total).
        Inr \<lparr>dp_items = rows, dp_total = total, dp_limit = limit, dp_offset = offset\<rparr>))"

definition version_item_of :: "api_db \<Rightarrow> version_row \<Rightarrow> version_item" where
  "version_item_of db v =
     \<lparr>vi_id = v_id v, vi_label = v_label v, vi_publication = v_publication v, vi_effective = v_effective v,
      vi_bytes = v_bytes v, vi_created = version_created db (v_id v)\<rparr>"

definition get_document :: "db_session \<Rightarrow> api_db \<Rightarrow> uuid \<Rightarrow> (document_dto \<times> version_item list) result" where
  "get_document ss db did =
     bindE (document_by_id_with_stats ss did db) (\<lambda>document.
       case document of
         None \<Rightarrow> Inl (HTTPException 404)
       | Some d \<Rightarrow> bindE (list_for_document ss db did) (\<lambda>vs. Inr (d, map (version_item_of db) vs)))"

definition clause_item_of :: "api_db \<Rightarrow> clause_row \<Rightarrow> clause_item" where
  "clause_item_of db c =
     \<lparr>ci_id = clause_id db (c_version c, c_path c), ci_uid = c_uid c, ci_path = c_path c, ci_text = c_text c,
      ci_heading = c_heading c, ci_label = c_label c, ci_ord = c_ord c\<rparr>"

definition get_clauses :: "db_session \<Rightarrow> api_db \<Rightarrow> uuid \<Rightarrow> ustr \<Rightarrow> clause_bundle result" where
  "get_clauses ss db did lab =
     bindE (version_by_label ss db did lab) (\<lambda>version.
       case version of
         None \<Rightarrow> Inl (HTTPException 404)
       | Some v \<Rightarrow> bindE (list_for_version ss db (v_id v)) (\<lambda>cs.
           Inr \<lparr>cb_document = did, cb_version = v_id v, cb_label = v_label v,
                cb_clauses = map (clause_item_of db) cs\<rparr>))"

section \<open>Search\<close>

definition plain_text :: "string \<Rightarrow> bool" where
  "plain_text q \<longleftrightarrow> CHR ''%'' \<notin> set q \<and> CHR ''_'' \<notin> set q \<and> CHR 0x5C \<notin> set q"

lemma like_any: "like_match [CHR ''%''] s"
  by (induction s) auto

lemma like_plain_prefix: "plain_text q \<Longrightarrow> like_match (q @ [CHR ''%'']) s \<longleftrightarrow> (\<exists>b. s = q @ b)"
proof (induction q arbitrary: s)
  case Nil
  then show ?case using like_any by simp
next
  case (Cons c q)
  then have "plain_text q" "c \<noteq> CHR ''%''" "c \<noteq> CHR ''_''" "c \<noteq> CHR 0x5C" by (auto simp: plain_text_def)
  then show ?case using Cons.IH by (cases s) auto
qed

lemma like_percent: "like_match (CHR ''%'' # p) s \<longleftrightarrow> (\<exists>a b. s = a @ b \<and> like_match p b)"
proof (induction s)
  case Nil
  show ?case by simp
next
  case (Cons x s)
  have "(\<exists>a b. x # s = a @ b \<and> like_match p b) \<longleftrightarrow> like_match p (x # s) \<or> (\<exists>a b. s = a @ b \<and> like_match p b)"
    by (auto simp: Cons_eq_append_conv)
  then show ?case using Cons.IH by simp
qed

text \<open>Without metacharacters the search is for a substring.\<close>

lemma like_substring:
  "plain_text q \<Longrightarrow> like_match (''%'' @ q @ ''%'') s \<longleftrightarrow> (\<exists>a b. s = a @ q @ b)"
  unfolding append_Cons append_Nil like_percent by (simp only: like_plain_prefix) blast

text \<open>With them it is not: a search for a percent sign or an underscore finds every title that has a character.\<close>

lemma like_underscore:
  assumes "s \<noteq> []"
  shows "like_match ''%_%'' s"
proof -
  obtain x s' where s: "s = x # s'" using assms by (cases s) auto
  have "like_match ''_%'' (x # s')" by (subst like_match.simps(2)) (use like_any [of s'] in simp)
  then show ?thesis unfolding like_percent s by (intro exI [of _ "[]"] exI [of _ "x # s'"]) simp
qed

section \<open>Pages\<close>

lemma length_newest_first [simp]: "length (newest_first ds) = length ds"
  by (simp add: newest_first_def)

lemma set_newest_first [simp]: "set (newest_first ds) = set ds"
  by (simp add: newest_first_def)

lemma list_filtered_eq:
  assumes "select_documents ss db = Inr ds" "1 \<le> n" "n \<le> max_list_limit" "0 \<le> offset"
  shows "list_filtered lower ss db f n offset =
    (let hits = filter (passes_filter lower f) ds
     in Inr (take (nat n) (drop (nat offset) (newest_first hits)), length hits))"
  using assms by (simp add: list_filtered_def Let_def)

lemma concat_pages: "concat (map (\<lambda>i. take n (drop (i * n) xs)) [0..<k]) = take (k * n) xs"
proof (induction k)
  case (Suc k)
  have "take (k * n) xs @ take n (drop (k * n) xs) = take (k * n + n) xs" by (simp add: take_add)
  then show ?case using Suc by (simp add: add.commute)
qed simp

section \<open>Statistics\<close>

lemma map_of_stats:
  "map_of (map (\<lambda>d. (d_id d, g (d_id d))) ds) i = (if \<exists>d \<in> set ds. d_id d = i then Some (g i) else None)"
  by (induction ds) auto

lemma fetch_stats_lookup:
  assumes "select_documents ss db = Inr ds" "select_versions ss db = Inr vs" "select_clauses ss db = Inr cs"
    "select_events ss db = Inr es"
  shows "\<exists>st. fetch_stats ss db ids = Inr st
    \<and> (\<forall>i. map_of st i = (if i \<in> set ids \<and> (\<exists>d \<in> set ds. d_id d = i) then Some (stats_of db vs cs es i) else None))"
  using assms by (auto simp: fetch_stats_def map_of_stats)

lemma reads_total:
  assumes "ss_role ss = Admin_bypass \<or> (\<exists>uid. client_of ss uid)"
  obtains ds vs cs es where "select_documents ss db = Inr ds" "select_versions ss db = Inr vs"
    "select_clauses ss db = Inr cs" "select_events ss db = Inr es"
  using assms
proof
  assume "ss_role ss = Admin_bypass"
  then show thesis using that
    by (simp add: select_documents_def select_versions_def select_clauses_def select_events_def rls_read_def)
next
  assume "\<exists>uid. client_of ss uid"
  then obtain uid where c: "client_of ss uid" by blast
  note r = client_ofD [OF c]
  have "\<exists>es. select_events ss db = Inr es"
    using r by (simp add: select_events_def rls_read_def event_in_scope_def [abs_def] current_scope_bound)
  then show thesis
    using that select_documents_client [OF r] select_versions_client [OF r] select_clauses_client [OF r] by blast
qed

lemma d_id_merge [simp]: "d_id (merge_stats d st) = d_id d"
  by (simp add: merge_stats_def document_row.defs document_dto.defs)

text \<open>The detail of a document is the row that a listing shows for it.\<close>

lemma listed_row_detail:
  assumes "ss_role ss = Admin_bypass \<or> (\<exists>uid. client_of ss uid)" "distinct (map d_id (documents (library db)))"
    and "list_filtered_with_stats lower ss db f limit offset = Inr (rows, k)" "r \<in> set rows"
  shows "document_by_id_with_stats ss (d_id r) db = Inr (Some r)"
proof -
  obtain ds vs cs es where sel: "select_documents ss db = Inr ds" "select_versions ss db = Inr vs"
    "select_clauses ss db = Inr cs" "select_events ss db = Inr es"
    using assms(1) by (rule reads_total)
  have "distinct (map d_id ds)"
    using assms(1)
  proof
    assume "ss_role ss = Admin_bypass"
    then show ?thesis using sel(1) assms(2) by (simp add: select_documents_def rls_read_def)
  next
    assume "\<exists>uid. client_of ss uid"
    then show ?thesis using sel(1) assms(2) by (auto simp: select_documents_client client_ofD distinct_map_filter)
  qed
  then have find: "List.find (\<lambda>d. d_id d = d_id d0) ds = Some d0" if "d0 \<in> set ds" for d0
    using that by (induction ds) auto
  obtain base where base: "list_filtered lower ss db f limit offset = Inr (base, k)"
    using assms(3) by (auto simp: list_filtered_with_stats_def bindE_eq_Inr split: if_splits)
  have sub: "set base \<subseteq> set ds"
    using base sel(1) by (auto simp: list_filtered_def Let_def dest!: in_set_takeD in_set_dropD)
  obtain st where st: "fetch_stats ss db (map d_id base) = Inr st"
    "\<And>i. map_of st i = (if i \<in> set (map d_id base) \<and> (\<exists>d \<in> set ds. d_id d = i) then Some (stats_of db vs cs es i) else None)"
    using fetch_stats_lookup [OF sel, of "map d_id base"] by blast
  have "base \<noteq> []" "rows = map (\<lambda>r. merge_stats r (map_of st (d_id r))) base"
    using assms(3,4) by (auto simp: list_filtered_with_stats_def base st(1) split: if_splits)
  then obtain d0 where d0: "d0 \<in> set base" "r = merge_stats d0 (map_of st (d_id d0))"
    using assms(4) by auto
  moreover have "\<exists>d \<in> set ds. d_id d = d_id d0" using d0(1) sub by blast
  ultimately have d0: "d0 \<in> set base" "r = merge_stats d0 (Some (stats_of db vs cs es (d_id d0)))"
    by (simp_all add: st(2))
  have "d0 \<in> set ds" using d0(1) sub by blast
  then have "List.find (\<lambda>d. d_id d = d_id d0) ds = Some d0" "\<exists>d \<in> set ds. d_id d = d_id d0"
    using find by auto
  then show ?thesis
    using fetch_stats_lookup [OF sel, of "[d_id d0]"] unfolding d0(2)
    by (auto simp: document_by_id_with_stats_def document_by_id_def sel(1))
qed

text \<open>The statistics of a document are those of its newest version.\<close>

lemma ranked_first:
  assumes "v \<in> set vs" "v_document v = did"
    and "\<forall>w \<in> set vs. v_document w = did \<and> w \<noteq> v \<longrightarrow>
      sort_at db w < sort_at db v \<or> (sort_at db w = sort_at db v \<and> v_id w < v_id v)"
  shows "at_rank 0 (ranked_versions db vs did) = Some v"
proof -
  let ?key = "\<lambda>v. (- sort_at db v, - int (v_id v))"
  let ?r = "ranked_versions db vs did"
  have set: "set ?r = {w \<in> set vs. v_document w = did}" by (auto simp: ranked_versions_def)
  have srt: "sorted (map ?key ?r)" by (simp add: ranked_versions_def)
  have ne: "?r \<noteq> []" using assms(1,2) set by (cases ?r) auto
  have hd: "hd ?r \<in> set vs" "v_document (hd ?r) = did" using hd_in_set [OF ne] unfolding set by auto
  have "v \<in> set ?r" using assms(1,2) set by auto
  then have "?key (hd ?r) \<le> ?key v"
    using srt ne by (cases ?r) auto
  then have "hd ?r = v"
    using assms(3) hd by (auto simp: less_eq_prod_def)
  then show ?thesis using ne by (simp add: at_rank_def hd_conv_nth)
qed

end
