(* ===== verification/Overview.thy ===== *)
theory Overview
  imports Documents Auth_Routes "HOL-Library.Multiset"
begin

text \<open>
  \<open>/v1/me\<close> and the dashboard \<open>/v1/me/overview\<close> (\<open>routes/me.py\<close>) over the two catalogue functions of
  migrations 0013 and 0014 (\<open>core/corpus.py\<close>), with the arithmetic of the roll-ups.
\<close>

section \<open>The catalogue functions\<close>

text \<open>\<open>SECURITY DEFINER\<close>: the body reads as the table owner, under its own policies.\<close>

definition as_definer :: "db_session \<Rightarrow> db_session" where
  "as_definer ss = ss\<lparr>ss_role := Schema_owner\<rparr>"

definition may_execute_shape :: "db_session \<Rightarrow> bool" where
  "may_execute_shape ss \<longleftrightarrow> ss_role ss = Api_app \<or> ss_role ss = Admin_bypass"

definition group_pairs :: "(string \<times> string) list \<Rightarrow> ((string \<times> string) \<times> nat) list" where
  "group_pairs ps = map (\<lambda>p. (p, count_list ps p)) (remdups ps)"

definition corpus_shape :: "db_session \<Rightarrow> api_db \<Rightarrow> ((string \<times> string) \<times> nat) list result" where
  "corpus_shape ss db =
     (if \<not> may_execute_shape ss then Inl (DbError InsufficientPrivilege)
      else bindE (select_documents (as_definer ss) db) (\<lambda>ds. Inr (group_pairs (map doc_pair ds))))"

definition event_pair :: "stored_event \<Rightarrow> string \<times> string" where
  "event_pair e = (e_jurisdiction e, e_sector e)"

definition change_event_shape :: "db_session \<Rightarrow> api_db \<Rightarrow> ((string \<times> string) \<times> nat) list result" where
  "change_event_shape ss db =
     (if \<not> may_execute_shape ss then Inl (DbError InsufficientPrivilege)
      else bindE (select_events (as_definer ss) db) (\<lambda>es. Inr (group_pairs (map event_pair es))))"

section \<open>/v1/me\<close>

record me_response =
  me_user :: uuid
  me_email :: string
  me_role :: user_role
  me_created :: timestamp
  me_subscription :: subscription_summary

definition get_me :: "principal_row \<Rightarrow> db_session \<Rightarrow> api_db \<Rightarrow> me_response result" where
  "get_me p ss db =
     (case user_by_id db (pr_user p) of
        None \<Rightarrow> Inl (HTTPException 401)
      | Some user \<Rightarrow>
          bindE (current_subscription_summary ss db) (\<lambda>summary.
            Inr \<lparr>me_user = us_id user, me_email = us_email user, me_role = us_role user,
                 me_created = us_created user, me_subscription = summary\<rparr>))"

section \<open>/v1/me/overview\<close>

text \<open>\<open>d[k] = d.get(k, 0) + n\<close> on a dict, which keeps the order of first insertion.\<close>

fun bump :: "(string \<times> nat) list \<Rightarrow> string \<Rightarrow> nat \<Rightarrow> (string \<times> nat) list" where
  "bump [] k n = [(k, n)]"
| "bump ((k', m) # d) k n = (if k' = k then (k', m + n) # d else (k', m) # bump d k n)"

definition roll_up :: "(string \<times> string \<Rightarrow> string) \<Rightarrow> ((string \<times> string) \<times> nat) list \<Rightarrow> (string \<times> nat) list" where
  "roll_up axis rows = fold (\<lambda>(p, n) d. bump d (axis p) n) rows []"

record overview_item =
  ov_code :: string
  ov_documents :: nat
  ov_changes :: nat
  ov_subscribed :: bool

record overview_totals =
  tot_documents :: nat
  tot_jurisdictions :: nat
  tot_sectors :: nat
  tot_subscribed_jurisdictions :: nat
  tot_subscribed_sectors :: nat

record overview_response =
  or_admin :: bool
  or_totals :: overview_totals
  or_jurisdictions :: "overview_item list"
  or_sectors :: "overview_item list"

definition get_or_zero :: "(string \<times> nat) list \<Rightarrow> string \<Rightarrow> nat" where
  "get_or_zero d k = (case map_of d k of None \<Rightarrow> 0 | Some n \<Rightarrow> n)"

definition overview_items ::
  "bool \<Rightarrow> string set \<Rightarrow> (string \<times> nat) list \<Rightarrow> (string \<times> nat) list \<Rightarrow> overview_item list" where
  "overview_items is_admin subscribed counts changes =
     sort_key ov_code
       (map (\<lambda>(code, n). \<lparr>ov_code = code, ov_documents = n, ov_changes = get_or_zero changes code,
                          ov_subscribed = (is_admin \<or> code \<in> subscribed)\<rparr>) counts)"

definition subscribed_count :: "bool \<Rightarrow> string set \<Rightarrow> (string \<times> nat) list \<Rightarrow> nat" where
  "subscribed_count is_admin subscribed counts =
     (if is_admin then length counts else card (subscribed \<inter> fst ` set counts))"

definition get_me_overview :: "principal_row \<Rightarrow> db_session \<Rightarrow> api_db \<Rightarrow> overview_response result" where
  "get_me_overview p ss db =
     bindE (corpus_shape ss db) (\<lambda>matrix.
     bindE (change_event_shape ss db) (\<lambda>change_matrix.
       let is_admin = (pr_role p = ''admin'')
       in bindE (if is_admin then Inr [] else current_scope_pairs ss db) (\<lambda>scope.
            let sub_j = set (map fst scope); sub_s = set (map snd scope);
                juris = roll_up fst matrix; sects = roll_up snd matrix
            in Inr \<lparr>or_admin = is_admin,
                 or_totals = \<lparr>tot_documents = sum_list (map snd matrix), tot_jurisdictions = length juris,
                   tot_sectors = length sects, tot_subscribed_jurisdictions = subscribed_count is_admin sub_j juris,
                   tot_subscribed_sectors = subscribed_count is_admin sub_s sects\<rparr>,
                 or_jurisdictions = overview_items is_admin sub_j juris (roll_up fst change_matrix),
                 or_sectors = overview_items is_admin sub_s sects (roll_up snd change_matrix)\<rparr>)))"

section \<open>Roll-ups count\<close>

lemma bump_keys: "fst ` set (bump d k n) = insert k (fst ` set d)"
  by (induction d k n rule: bump.induct) auto

lemma bump_distinct: "distinct (map fst d) \<Longrightarrow> distinct (map fst (bump d k n))"
proof (induction d k n rule: bump.induct)
  case (2 k' m d k n)
  then show ?case using bump_keys [of d k n] by auto
qed simp

lemma get_bump: "get_or_zero (bump d k n) k' = (if k' = k then get_or_zero d k + n else get_or_zero d k')"
  by (induction d k n rule: bump.induct) (auto simp: get_or_zero_def split: option.splits)

definition rolled :: "(string \<times> string \<Rightarrow> string) \<Rightarrow> ((string \<times> string) \<times> nat) list \<Rightarrow> string \<Rightarrow> nat" where
  "rolled axis rows k = sum_list (map snd (filter (\<lambda>(p, n). axis p = k) rows))"

lemma fold_bump_distinct:
  "distinct (map fst d) \<Longrightarrow> distinct (map fst (fold (\<lambda>(p, n) d. bump d (axis p) n) rows d))"
  by (induction rows arbitrary: d) (simp_all add: bump_distinct case_prod_beta)

lemma fold_bump_keys:
  "fst ` set (fold (\<lambda>(p, n) d. bump d (axis p) n) rows d) = fst ` set d \<union> axis ` fst ` set rows"
  by (induction rows arbitrary: d) (simp_all add: bump_keys case_prod_beta)

lemma fold_bump_get:
  "get_or_zero (fold (\<lambda>(p, n) d. bump d (axis p) n) rows d) k = get_or_zero d k + rolled axis rows k"
  by (induction rows arbitrary: d) (simp_all add: get_bump rolled_def case_prod_beta)

lemma roll_up_facts:
  "distinct (map fst (roll_up axis rows))" "fst ` set (roll_up axis rows) = axis ` fst ` set rows"
  "get_or_zero (roll_up axis rows) k = rolled axis rows k"
  using fold_bump_distinct [of "[]" axis rows] fold_bump_keys [of axis rows "[]"] fold_bump_get [of axis rows "[]" k]
  by (simp_all add: roll_up_def) (simp add: get_or_zero_def)

lemma get_or_zero_in: "distinct (map fst d) \<Longrightarrow> (k, n) \<in> set d \<Longrightarrow> get_or_zero d k = n"
  by (simp add: get_or_zero_def)

lemma sum_counts: "sum_list (map (count_list ps) (filter P (remdups ps))) = length (filter P ps)"
proof -
  have "sum_list (map (count_list ps) (filter P (remdups ps))) = sum (count_list ps) (set (filter P ps))"
    by (subst sum_list_distinct_conv_sum_set) simp_all
  also have "\<dots> = sum (count_list (filter P ps)) (set (filter P ps))"
  proof (rule sum.cong)
    fix x assume "x \<in> set (filter P ps)"
    then have "P x" by simp
    then show "count_list ps x = count_list (filter P ps) x" by (induction ps) auto
  qed simp
  also have "\<dots> = length (filter P ps)" by (rule sum_count_set) simp_all
  finally show ?thesis .
qed

lemma rolled_group: "rolled axis (group_pairs ps) k = length (filter (\<lambda>p. axis p = k) ps)"
  by (simp add: rolled_def group_pairs_def filter_map o_def sum_counts)

lemma sum_group: "sum_list (map snd (group_pairs ps)) = length ps"
  using sum_counts [of ps "\<lambda>_. True"] by (simp add: group_pairs_def o_def)

lemma keys_group: "fst ` set (group_pairs ps) = set ps"
  by (auto simp: group_pairs_def image_iff)

lemma sum_keys:
  assumes "distinct (map fst d)" "fst ` set d = axis ` set ps"
    and "\<And>k. get_or_zero d k = length (filter (\<lambda>p. axis p = k) ps)"
  shows "sum_list (map snd d) = length ps"
proof -
  have "map snd d = map (get_or_zero d) (map fst d)"
    using get_or_zero_in [OF assms(1)] by auto
  then have "sum_list (map snd d) = sum_list (map (get_or_zero d) (map fst d))" by (rule arg_cong)
  also have "\<dots> = sum (get_or_zero d) (axis ` set ps)"
    unfolding sum_list_distinct_conv_sum_set [OF assms(1)] using assms(2) by simp
  also have "\<dots> = sum (count_list (map axis ps)) (set (map axis ps))"
  proof (rule sum.cong)
    fix k
    show "get_or_zero d k = count_list (map axis ps) k"
      unfolding assms(3) by (induction ps) auto
  qed simp
  also have "\<dots> = length ps" using sum_count_set [of "map axis ps" "set (map axis ps)"] by simp
  finally show ?thesis .
qed

lemma shapes:
  assumes "may_execute_shape ss"
  shows "corpus_shape ss db = Inr (group_pairs (map doc_pair (documents (library db))))"
    and "change_event_shape ss db = Inr (group_pairs (map event_pair (change_events db)))"
  using assms
  by (simp_all add: corpus_shape_def change_event_shape_def select_documents_def select_events_def rls_read_def as_definer_def)

lemma overview_items_code:
  assumes "distinct (map fst counts)"
  shows "map ov_code (overview_items a sub counts changes) = sorted_list_of_set (fst ` set counts)"
proof (rule sorted_distinct_set_unique)
  show "sorted (map ov_code (overview_items a sub counts changes))" by (simp add: overview_items_def)
  have "mset (map ov_code (overview_items a sub counts changes)) = mset (map fst counts)"
    by (simp add: overview_items_def image_mset.compositionality o_def case_prod_beta)
  then show "distinct (map ov_code (overview_items a sub counts changes))"
    using assms by (metis mset_eq_imp_distinct_iff)
  show "set (map ov_code (overview_items a sub counts changes)) = set (sorted_list_of_set (fst ` set counts))"
    by (auto simp: overview_items_def image_iff) force+
qed simp_all

text \<open>One axis of the dashboard, from the pairs of the documents and of the events.\<close>

lemma overview_axis:
  fixes axis :: "string \<times> string \<Rightarrow> string"
  defines "items \<equiv> \<lambda>a sub ps es. overview_items a sub (roll_up axis (group_pairs ps)) (roll_up axis (group_pairs es))"
  shows "map ov_code (items a sub ps es) = sorted_list_of_set (axis ` set ps)"
    and "list_all (\<lambda>i. ov_documents i = length (filter (\<lambda>p. axis p = ov_code i) ps)
      \<and> ov_changes i = length (filter (\<lambda>p. axis p = ov_code i) es)
      \<and> ov_subscribed i = (a \<or> ov_code i \<in> sub)) (items a sub ps es)"
    and "sum_list (map ov_documents (items a sub ps es)) = length ps"
proof -
  let ?d = "roll_up axis (group_pairs ps)"
  note facts = roll_up_facts [of axis "group_pairs ps", unfolded keys_group rolled_group]
  show "map ov_code (items a sub ps es) = sorted_list_of_set (axis ` set ps)"
    unfolding items_def overview_items_code [OF facts(1)] facts(2) ..
  show "list_all (\<lambda>i. ov_documents i = length (filter (\<lambda>p. axis p = ov_code i) ps)
      \<and> ov_changes i = length (filter (\<lambda>p. axis p = ov_code i) es)
      \<and> ov_subscribed i = (a \<or> ov_code i \<in> sub)) (items a sub ps es)"
    unfolding items_def list_all_iff overview_items_def
    using facts(3) get_or_zero_in [OF facts(1)] roll_up_facts(3) [of axis "group_pairs es", unfolded rolled_group]
    by auto
  have "sum_list (map ov_documents (items a sub ps es)) = sum_list (map snd ?d)"
  proof -
    have "mset (map ov_documents (items a sub ps es)) = mset (map snd ?d)"
      by (simp add: items_def overview_items_def image_mset.compositionality o_def case_prod_beta)
    then show ?thesis by (metis sum_mset_sum_list)
  qed
  also have "\<dots> = length ps" by (rule sum_keys [OF facts(1,2)]) (rule facts(3))
  finally show "sum_list (map ov_documents (items a sub ps es)) = length ps" .
qed

end
