(* ===== verification/Admin_Reads.thy ===== *)
theory Admin_Reads
  imports Documents Auth_Routes
begin

text \<open>
  The listings of the operator: clients (\<open>admin/clients.py\<close> with the two role queries of
  \<open>UsersRepository\<close>) and the audit log (\<open>admin/audit.py\<close>, \<open>repos/audit.py\<close>,
  \<open>repos/admin_access_log.py\<close>). Both run in the operator session of \<open>admin_request\<close>.
\<close>

section \<open>Clients\<close>

definition list_by_role :: "api_db \<Rightarrow> user_role \<Rightarrow> nat \<Rightarrow> nat \<Rightarrow> user_row list" where
  "list_by_role db role limit offset =
     take limit (drop offset (sort_key (\<lambda>r. (us_created r, us_id r)) (filter (\<lambda>r. us_role r = role) (users db))))"

definition count_by_role :: "api_db \<Rightarrow> user_role \<Rightarrow> nat" where
  "count_by_role db role = length (filter (\<lambda>r. us_role r = role) (users db))"

definition clients_max_limit :: int where "clients_max_limit = 200"

record client_row =
  cw_id :: uuid
  cw_email :: string
  cw_created :: timestamp

record clients_page =
  cp_limit :: int
  cp_offset :: int
  cp_total :: nat
  cp_count :: nat
  cp_rows :: "client_row list"

definition client_row_of :: "user_row \<Rightarrow> client_row" where
  "client_row_of r = \<lparr>cw_id = us_id r, cw_email = us_email r, cw_created = us_created r\<rparr>"

definition list_clients :: "int \<Rightarrow> int \<Rightarrow> api_db \<Rightarrow> clients_page result" where
  "list_clients limit offset db =
     (if limit < 1 \<or> offset < 0 then Inl (HTTPException 422)
      else
        let effective = min limit clients_max_limit;
            rows = map client_row_of (list_by_role db Client (nat effective) (nat offset))
        in Inr \<lparr>cp_limit = effective, cp_offset = offset, cp_total = count_by_role db Client,
                cp_count = length rows, cp_rows = rows\<rparr>)"

section \<open>The audit log\<close>

text \<open>No role but \<open>admin_bypass\<close> holds a privilege on the table.\<close>

definition select_access_log :: "db_session \<Rightarrow> api_db \<Rightarrow> access_log_row list result" where
  "select_access_log ss db =
     (if ss_role ss \<noteq> Admin_bypass then Inl (DbError InsufficientPrivilege) else Inr (access_log db))"

definition list_for_admin :: "db_session \<Rightarrow> api_db \<Rightarrow> uuid \<Rightarrow> access_log_row list result" where
  "list_for_admin ss db aid =
     bindE (select_access_log ss db) (\<lambda>rows. Inr (sort_key (\<lambda>r. - al_at r) (filter (\<lambda>r. al_admin r = aid) rows)))"

record audit_filter =
  au_since :: "timestamp option"
  au_admin :: "uuid option"
  au_target :: "uuid option"
  au_action :: "access_mode option"

definition passes_audit :: "audit_filter \<Rightarrow> access_log_row \<Rightarrow> bool" where
  "passes_audit f r \<longleftrightarrow>
     (case au_since f of None \<Rightarrow> True | Some t \<Rightarrow> t \<le> al_at r)
     \<and> (case au_admin f of None \<Rightarrow> True | Some a \<Rightarrow> al_admin r = a)
     \<and> (case au_target f of None \<Rightarrow> True | Some x \<Rightarrow> al_target r = Some x)
     \<and> (case au_action f of None \<Rightarrow> True | Some m \<Rightarrow> al_mode r = m)"

definition search_access_log :: "db_session \<Rightarrow> api_db \<Rightarrow> audit_filter \<Rightarrow> nat \<Rightarrow> access_log_row list result" where
  "search_access_log ss db f limit =
     bindE (select_access_log ss db) (\<lambda>rows. Inr (take limit (sort_key (\<lambda>r. - al_at r) (filter (passes_audit f) rows))))"

definition audit_max_limit :: int where "audit_max_limit = 500"

definition audit_lookback :: int where "audit_lookback = 24 * 60 * 60 * second"

record audit_page =
  ap_since :: timestamp
  ap_limit :: int
  ap_count :: nat
  ap_rows :: "access_log_row list"

text \<open>\<open>clock\<close> is \<open>datetime.now(UTC)\<close>.\<close>

definition search_admin_audit ::
  "timestamp \<Rightarrow> audit_filter \<Rightarrow> int \<Rightarrow> db_session \<Rightarrow> api_db \<Rightarrow> (api_db \<times> audit_page) result" where
  "search_admin_audit clock f limit ss db =
     (if limit < 1 then Inl (HTTPException 422)
      else
        let since = (case au_since f of Some t \<Rightarrow> t | None \<Rightarrow> clock - audit_lookback);
            effective = min limit audit_max_limit
        in bindE (search_access_log ss db (f\<lparr>au_since := Some since\<rparr>) (nat effective)) (\<lambda>rows.
             Inr (db, \<lparr>ap_since = since, ap_limit = effective, ap_count = length rows, ap_rows = rows\<rparr>)))"

section \<open>Facts\<close>

text \<open>The pages of the client table tile it: concatenated they are all clients, oldest first.\<close>

lemma client_pages:
  assumes "0 < n" "count_by_role db role \<le> k * n"
  shows "concat (map (\<lambda>i. list_by_role db role n (i * n)) [0..<k]) =
    sort_key (\<lambda>r. (us_created r, us_id r)) (filter (\<lambda>r. us_role r = role) (users db))"
  using assms unfolding list_by_role_def concat_pages by (simp add: count_by_role_def)

text \<open>A page of the audit log leaves out no newer row than one it shows.\<close>

lemma take_sorted_newest:
  assumes "sorted (map f xs)" "r \<in> set xs" "r \<notin> set (take n xs)" "r' \<in> set (take n xs)"
  shows "f r' \<le> f r"
proof -
  have "xs = take n xs @ drop n xs" by simp
  then have "sorted (map f (take n xs) @ map f (drop n xs))" using assms(1) by (metis map_append)
  moreover have "r \<in> set (drop n xs)" using assms(2,3) by (metis append_take_drop_id Un_iff set_append)
  ultimately show ?thesis using assms(4) by (auto simp: sorted_append)
qed

lemma search_newest:
  assumes "search_access_log ss db f n = Inr rows" "r \<in> set (access_log db)" "passes_audit f r" "r \<notin> set rows"
    and "r' \<in> set rows"
  shows "al_at r \<le> al_at r'"
proof -
  let ?s = "sort_key (\<lambda>r. - al_at r) (filter (passes_audit f) (access_log db))"
  have rows: "rows = take n ?s" using assms(1) by (simp add: search_access_log_def select_access_log_def split: if_splits)
  have "- al_at r' \<le> - al_at r"
    by (rule take_sorted_newest [of "\<lambda>r. - al_at r" ?s r n r']) (use assms(2-5) rows in simp_all)
  then show ?thesis by simp
qed

end
