(* ===== verification/Read_Properties.thy ===== *)
theory Read_Properties
  imports Overview Admin_Reads Api_Samples
begin

text \<open>The properties of the read side: the dashboard and the document listing, with their witnesses.\<close>

section \<open>The dashboard\<close>

text \<open>What one axis of the overview shows for the pairs of the documents and of the events.\<close>

definition axis_ok ::
  "(string \<times> string \<Rightarrow> string) \<Rightarrow> (string \<times> string) list \<Rightarrow> (string \<times> string) list \<Rightarrow> (string \<Rightarrow> bool)
    \<Rightarrow> overview_item list \<Rightarrow> bool" where
  "axis_ok axis docs evs subscribed items \<longleftrightarrow>
     map ov_code items = sorted_list_of_set (axis ` set docs)
     \<and> list_all (\<lambda>i. ov_documents i = length (filter (\<lambda>p. axis p = ov_code i) docs)
         \<and> ov_changes i = length (filter (\<lambda>p. axis p = ov_code i) evs)
         \<and> ov_subscribed i = subscribed (ov_code i)) items
     \<and> sum_list (map ov_documents items) = length docs"

lemma overview_axis_ok:
  "axis_ok axis ps es (\<lambda>k. a \<or> k \<in> sub) (overview_items a sub (roll_up axis (group_pairs ps)) (roll_up axis (group_pairs es)))"
  using overview_axis [where axis = axis and a = a and sub = sub and ps = ps and es = es] unfolding axis_ok_def by blast

lemma subscribed_count_eq:
  assumes "axis_ok axis ps es (\<lambda>k. a \<or> k \<in> sub) items"
  shows "subscribed_count a sub (roll_up axis (group_pairs ps)) = length (filter ov_subscribed items)"
proof -
  let ?d = "roll_up axis (group_pairs ps)"
  have keys: "distinct (map fst ?d)" "fst ` set ?d = axis ` set ps"
    using roll_up_facts [of axis "group_pairs ps"] by (simp_all add: keys_group)
  have codes: "map ov_code items = sorted_list_of_set (axis ` set ps)"
    and sub: "\<forall>i \<in> set items. ov_subscribed i = (a \<or> ov_code i \<in> sub)"
    using assms by (auto simp: axis_ok_def list_all_iff)
  have dist: "distinct (map ov_code items)" unfolding codes by simp
  have "length (filter ov_subscribed items) = length (filter (\<lambda>k. a \<or> k \<in> sub) (map ov_code items))"
    using sub by (induction items) auto
  also have "\<dots> = card {k \<in> axis ` set ps. a \<or> k \<in> sub}"
    using distinct_card [OF distinct_filter [OF dist, of "\<lambda>k. a \<or> k \<in> sub"]] codes by simp
  also have "\<dots> = subscribed_count a sub ?d"
  proof (cases a)
    case True
    have "card (axis ` set ps) = length (map fst ?d)" using distinct_card [OF keys(1)] keys(2) by simp
    then show ?thesis using True by (simp add: subscribed_count_def)
  next
    case False
    have "{k \<in> axis ` set ps. k \<in> sub} = sub \<inter> fst ` set ?d" unfolding keys(2) by blast
    then show ?thesis using False by (simp add: subscribed_count_def)
  qed
  finally show ?thesis by simp
qed

text \<open>C23. The dashboard shows the whole catalogue to everybody: per jurisdiction and per sector, in order and
  once each, the number of documents and of change events, which add up to the whole corpus; the
  subscription of the caller decides only the \<open>subscribed\<close> flags, which are all set for an admin.\<close>

theorem overview_counts_corpus:
  assumes "pr_role p = ''admin'' \<and> ss_role ss = Admin_bypass \<or> pr_role p \<noteq> ''admin'' \<and> client_of ss uid"
  shows "\<exists>r. get_me_overview p ss db = Inr r
     \<and> axis_ok fst (map doc_pair (documents (library db))) (map event_pair (change_events db))
         (\<lambda>j. pr_role p = ''admin'' \<or> (\<exists>s. (j, s) \<in> set (scope_of db (ss_now ss) uid))) (or_jurisdictions r)
     \<and> axis_ok snd (map doc_pair (documents (library db))) (map event_pair (change_events db))
         (\<lambda>s. pr_role p = ''admin'' \<or> (\<exists>j. (j, s) \<in> set (scope_of db (ss_now ss) uid))) (or_sectors r)
     \<and> tot_documents (or_totals r) = length (documents (library db))
     \<and> tot_subscribed_jurisdictions (or_totals r) = length (filter ov_subscribed (or_jurisdictions r))
     \<and> tot_subscribed_sectors (or_totals r) = length (filter ov_subscribed (or_sectors r))"
proof -
  let ?a = "pr_role p = ''admin''"
  have may: "may_execute_shape ss" using assms client_ofD [of ss uid] by (auto simp: may_execute_shape_def)
  define scope where "scope = (if ?a then [] else scope_of db (ss_now ss) uid)"
  have "(if ?a then Inr [] else current_scope_pairs ss db) = Inr scope"
    using assms client_ofD [of ss uid] by (auto simp: scope_def current_scope_pairs_def current_scope_bound)
  then have r: "\<exists>r. get_me_overview p ss db = Inr r
      \<and> or_jurisdictions r = overview_items ?a (set (map fst scope)) (roll_up fst (group_pairs (map doc_pair (documents (library db)))))
          (roll_up fst (group_pairs (map event_pair (change_events db))))
      \<and> or_sectors r = overview_items ?a (set (map snd scope)) (roll_up snd (group_pairs (map doc_pair (documents (library db)))))
          (roll_up snd (group_pairs (map event_pair (change_events db))))
      \<and> tot_documents (or_totals r) = sum_list (map snd (group_pairs (map doc_pair (documents (library db)))))
      \<and> tot_subscribed_jurisdictions (or_totals r) =
          subscribed_count ?a (set (map fst scope)) (roll_up fst (group_pairs (map doc_pair (documents (library db)))))
      \<and> tot_subscribed_sectors (or_totals r) =
          subscribed_count ?a (set (map snd scope)) (roll_up snd (group_pairs (map doc_pair (documents (library db)))))"
    by (simp add: get_me_overview_def shapes [OF may] Let_def)
  have flags: "(\<lambda>k. ?a \<or> k \<in> set (map fst scope)) = (\<lambda>j. ?a \<or> (\<exists>s. (j, s) \<in> set (scope_of db (ss_now ss) uid)))"
    "(\<lambda>k. ?a \<or> k \<in> set (map snd scope)) = (\<lambda>s. ?a \<or> (\<exists>j. (j, s) \<in> set (scope_of db (ss_now ss) uid)))"
    by (force simp: scope_def fun_eq_iff image_iff)+
  obtain r where r: "get_me_overview p ss db = Inr r" "or_jurisdictions r = overview_items ?a (set (map fst scope)) (roll_up fst (group_pairs (map doc_pair (documents (library db)))))
          (roll_up fst (group_pairs (map event_pair (change_events db))))"
      "or_sectors r = overview_items ?a (set (map snd scope)) (roll_up snd (group_pairs (map doc_pair (documents (library db)))))
          (roll_up snd (group_pairs (map event_pair (change_events db))))"
      "tot_documents (or_totals r) = sum_list (map snd (group_pairs (map doc_pair (documents (library db)))))"
      "tot_subscribed_jurisdictions (or_totals r) =
          subscribed_count ?a (set (map fst scope)) (roll_up fst (group_pairs (map doc_pair (documents (library db)))))"
      "tot_subscribed_sectors (or_totals r) =
          subscribed_count ?a (set (map snd scope)) (roll_up snd (group_pairs (map doc_pair (documents (library db)))))"
    using r by blast
  note j = overview_axis_ok [of fst "map doc_pair (documents (library db))" "map event_pair (change_events db)" ?a "set (map fst scope)"]
  note s = overview_axis_ok [of snd "map doc_pair (documents (library db))" "map event_pair (change_events db)" ?a "set (map snd scope)"]
  show ?thesis
    using r(1,4) j s subscribed_count_eq [OF j] subscribed_count_eq [OF s]
    unfolding flags r(2,3,5,6) [symmetric] by (intro exI [of _ r]) (simp add: sum_group)
qed

lemma overview_counts_corpus_witness:
  "\<exists>r. get_me_overview \<lparr>pr_user = 2, pr_role = ''client'', pr_kind = Access, pr_jti = 31, pr_issued = 0, pr_expires = 9\<rparr>
       (client_session 2 5) sample_api_db = Inr r
     \<and> map ov_code (or_jurisdictions r) = [''FR'', ''UK''] \<and> tot_documents (or_totals r) = 2"
proof -
  have c: "client_of (client_session 2 5) 2" by simp
  have "sorted_list_of_set (fst ` set (map doc_pair (documents (library sample_api_db)))) = [''FR'', ''UK'']"
  proof -
    have "fst ` set (map doc_pair (documents (library sample_api_db))) = set [''FR'', ''UK'']"
      by (simp add: sample_db_defs doc_pair_def insert_commute)
    moreover have "sorted [''FR'', ''UK'']" by (simp add: less_char_def)
    ultimately show ?thesis by (simp only: sorted_list_of_set.idem_if_sorted_distinct) simp
  qed
  moreover have "length (documents (library sample_api_db)) = 2" by (simp add: sample_db_defs)
  ultimately show ?thesis
    using overview_counts_corpus [of "\<lparr>pr_user = 2, pr_role = ''client'', pr_kind = Access, pr_jti = 31, pr_issued = 0, pr_expires = 9\<rparr>"
        "client_session 2 5" 2 sample_api_db] c
    by (auto simp: axis_ok_def)
qed

section \<open>Listing and detail\<close>

text \<open>For an admin and for a client alike, each row of a page of the document listing is what the detail
  route shows for its id, statistics included; and pages at the offsets \<open>0, n, 2 n, ...\<close> together show
  every visible document that passes the filter once, newest first, with the same total on each.\<close>

theorem listing_matches_detail:
  assumes "ss_role ss = Admin_bypass \<or> (\<exists>uid. client_of ss uid)" "distinct (map d_id (documents (library db)))"
    and "1 \<le> n" "int n \<le> max_list_limit" "f_search f = None"
  shows "\<exists>ds page. select_documents ss db = Inr ds
     \<and> (\<forall>i. list_documents lower ss db f (int n) (int (i * n)) = Inr (page i)
          \<and> dp_total (page i) = length (filter (passes_filter lower f) ds)
          \<and> (\<forall>r \<in> set (dp_items (page i)). \<exists>vs. get_document ss db (d_id r) = Inr (r, vs)))
     \<and> (\<forall>k. length (filter (passes_filter lower f) ds) \<le> k * n \<longrightarrow>
          map d_id (concat (map (\<lambda>i. dp_items (page i)) [0..<k])) = map d_id (newest_first (filter (passes_filter lower f) ds)))"
proof -
  obtain ds vs cs es where sel: "select_documents ss db = Inr ds" "select_versions ss db = Inr vs"
    "select_clauses ss db = Inr cs" "select_events ss db = Inr es"
    using assms(1) by (rule reads_total)
  let ?hits = "newest_first (filter (passes_filter lower f) ds)"
  have base: "list_filtered lower ss db f (int n) (int (i * n)) = Inr (take n (drop (i * n) ?hits), length ?hits)" for i
    using list_filtered_eq [OF sel(1), of "int n" "int (i * n)" lower f] assms(3,4) by (simp add: Let_def del: of_nat_mult)
  have "\<exists>page. list_documents lower ss db f (int n) (int (i * n)) = Inr page \<and> dp_total page = length ?hits
      \<and> map d_id (dp_items page) = map d_id (take n (drop (i * n) ?hits))
      \<and> (\<forall>r \<in> set (dp_items page). \<exists>vs. get_document ss db (d_id r) = Inr (r, vs))" for i
  proof -
    obtain st where st: "fetch_stats ss db (map d_id (take n (drop (i * n) ?hits))) = Inr st"
      using fetch_stats_lookup [OF sel] by blast
    define rows where "rows = (if take n (drop (i * n) ?hits) = [] then []
      else map (\<lambda>r. merge_stats r (map_of st (d_id r))) (take n (drop (i * n) ?hits)))"
    have l: "list_filtered_with_stats lower ss db f (int n) (int (i * n)) = Inr (rows, length ?hits)"
      unfolding list_filtered_with_stats_def base by (simp add: st rows_def del: take_eq_Nil drop_eq_Nil)
    have "\<exists>vs. get_document ss db (d_id r) = Inr (r, vs)" if "r \<in> set rows" for r
      using listed_row_detail [OF assms(1,2) l that] by (simp add: get_document_def list_for_document_def sel(2))
    moreover have "map d_id rows = map d_id (take n (drop (i * n) ?hits))" by (simp add: rows_def)
    ultimately show ?thesis
      using l assms(3-5) unfolding list_documents_def by (simp del: of_nat_mult)
  qed
  then obtain page where page: "list_documents lower ss db f (int n) (int (i * n)) = Inr (page i) \<and> dp_total (page i) = length ?hits
      \<and> map d_id (dp_items (page i)) = map d_id (take n (drop (i * n) ?hits))
      \<and> (\<forall>r \<in> set (dp_items (page i)). \<exists>vs. get_document ss db (d_id r) = Inr (r, vs))" for i
    by metis
  have "map d_id (concat (map (\<lambda>i. dp_items (page i)) [0..<k])) = map d_id ?hits" if "length ?hits \<le> k * n" for k
  proof -
    have "map d_id (concat (map (\<lambda>i. dp_items (page i)) [0..<k])) = concat (map (\<lambda>i. map d_id (take n (drop (i * n) ?hits))) [0..<k])"
      using page by (simp add: map_concat o_def)
    also have "\<dots> = map d_id (concat (map (\<lambda>i. take n (drop (i * n) ?hits)) [0..<k]))" by (simp add: map_concat o_def)
    also have "\<dots> = map d_id ?hits" unfolding concat_pages using that by simp
    finally show ?thesis .
  qed
  then show ?thesis using sel(1) page by (intro exI [of _ ds] exI [of _ page]) auto
qed

lemma listing_matches_detail_witness:
  "\<exists>page. list_documents id (client_session 2 5) sample_api_db \<lparr>f_jurisdiction = None, f_sector = None, f_search = None\<rparr> 1 0 = Inr page
     \<and> dp_total page = 1"
proof -
  have "in_scope_of sample_api_db 5 2 d \<longleftrightarrow> doc_pair d = (''UK'', ''energy'')" for d
    by (simp add: in_scope_of_def sample_scope_2)
  moreover obtain d7 d8 where docs: "documents (library sample_api_db) = [d7, d8]" "doc_pair d7 = (''UK'', ''energy'')"
    "doc_pair d8 = (''FR'', ''energy'')" "d_id d7 = 7" "d_id d8 = 8"
    by (simp add: sample_api_db_def sample_library_def doc_pair_def)
  ultimately have sel: "select_documents (client_session 2 5) sample_api_db = Inr [d7]"
    using select_documents_client [OF client_ofD [OF client_session_of], of 2 5 sample_api_db] by simp
  let ?f = "\<lparr>f_jurisdiction = None, f_sector = None, f_search = None\<rparr>"
  have pre: "\<exists>uid. client_of (client_session 2 5) uid" "distinct (map d_id (documents (library sample_api_db)))"
    "1 \<le> (1 :: nat)" "int 1 \<le> max_list_limit" "f_search ?f = None"
    using docs(1,4,5) client_session_of [of 2 5] by (blast, simp_all add: max_list_limit_def)
  obtain ds page where d: "select_documents (client_session 2 5) sample_api_db = Inr ds"
    and p: "\<forall>i. list_documents id (client_session 2 5) sample_api_db ?f (int 1) (int (i * 1)) = Inr (page i)
      \<and> dp_total (page i) = length (filter (passes_filter id ?f) ds)
      \<and> (\<forall>r \<in> set (dp_items (page i)). \<exists>vs. get_document (client_session 2 5) sample_api_db (d_id r) = Inr (r, vs))"
    using listing_matches_detail [OF disjI2 [OF pre(1)] pre(2-5), of id] by blast
  have "list_documents id (client_session 2 5) sample_api_db ?f 1 0 = Inr (page 0)"
    "dp_total (page 0) = length (filter (passes_filter id ?f) ds)"
    using p [rule_format, of 0] by simp_all
  then show ?thesis using sel d by (simp add: passes_filter_def)
qed

end
