(* ===== verification/Script_SQL.thy ===== *)
theory Script_SQL
  imports Auth_Correct Documents Claim_Loop
begin

text \<open>
  What the operator scripts share: the DSN rule \<open>_normalise_db_url\<close> that all three copy, and the
  statements they send. The scripts connect as a superuser, whom no policy and no privilege holds
  back; the model's \<open>admin_bypass\<close> session stands for it. \<open>session_replication_role = 'replica'\<close>
  switches off every ordinary trigger of the transaction, and foreign keys are triggers: neither
  their checks nor their \<open>ON DELETE\<close> actions happen.
\<close>

section \<open>Text\<close>

fun contains :: "string \<Rightarrow> string \<Rightarrow> bool" where
  "contains pat [] = (pat = [])"
| "contains pat (c # s) = (starts_with pat (c # s) \<or> contains pat s)"

text \<open>\<open>str.replace\<close> for a pattern that is not empty, and \<open>str.split(sep, 1)\<close> as a pair.\<close>

fun str_replace :: "string \<Rightarrow> string \<Rightarrow> string \<Rightarrow> string" where
  "str_replace old new [] = []"
| "str_replace old new (c # s) =
     (if starts_with old (c # s) then new @ str_replace old new (drop (length old - 1) s)
      else c # str_replace old new s)"

fun split_once :: "string \<Rightarrow> string \<Rightarrow> (string \<times> string) option" where
  "split_once sep [] = None"
| "split_once sep (c # s) =
     (if starts_with sep (c # s) then Some ([], drop (length sep - 1) s)
      else map_option (\<lambda>(a, b). (c # a, b)) (split_once sep s))"

definition normalise_db_url :: "string \<Rightarrow> string" where
  "normalise_db_url raw =
     (if contains ''+asyncpg'' raw then str_replace ''+asyncpg'' ''+psycopg'' raw
      else if starts_with ''postgresql://'' raw \<or> starts_with ''postgres://'' raw
      then (case split_once ''://'' raw of
              None \<Rightarrow> raw
            | Some (scheme, rest) \<Rightarrow> str_replace ''postgres'' ''postgresql'' scheme @ ''+psycopg://'' @ rest)
      else raw)"

lemma starts_with_append [simp]: "starts_with p (p @ s)"
  by (simp add: starts_with_def)

lemma normalise_postgres:
  "\<not> contains ''+asyncpg'' (''postgres://'' @ rest) \<Longrightarrow>
     normalise_db_url (''postgres://'' @ rest) = ''postgresql+psycopg://'' @ rest"
  by (simp add: normalise_db_url_def starts_with_def)

text \<open>The scheme \<open>postgresql\<close> contains \<open>postgres\<close>, and is rewritten as well.\<close>

lemma normalise_postgresql:
  "\<not> contains ''+asyncpg'' (''postgresql://'' @ rest) \<Longrightarrow>
     normalise_db_url (''postgresql://'' @ rest) = ''postgresqlql+psycopg://'' @ rest"
  by (simp add: normalise_db_url_def starts_with_def)

text \<open>A DSN that names the synchronous driver passes as it is.\<close>

lemma normalise_psycopg:
  "\<not> contains ''+asyncpg'' (''postgresql+psycopg://'' @ rest) \<Longrightarrow>
     normalise_db_url (''postgresql+psycopg://'' @ rest) = ''postgresql+psycopg://'' @ rest"
  by (simp add: normalise_db_url_def starts_with_def)

section \<open>The session of a script\<close>

abbreviation script_session :: "timestamp \<Rightarrow> db_session" where
  "script_session now \<equiv> \<lparr>ss_role = Admin_bypass, ss_user = None, ss_admin = None, ss_now = now\<rparr>"

datatype replication = Origin | Replica

section \<open>Deletes by the address of the user\<close>

definition users_like :: "string \<Rightarrow> api_db \<Rightarrow> uuid set" where
  "users_like p db = us_id ` set (filter (\<lambda>r. like_match p (us_email r)) (users db))"

definition delete_watchlists_like :: "string \<Rightarrow> api_db \<Rightarrow> api_db" where
  "delete_watchlists_like p db =
     db\<lparr>watchlists := filter (\<lambda>w. w_user w \<notin> users_like p db) (watchlists db)\<rparr>"

definition delete_scopes_like :: "string \<Rightarrow> api_db \<Rightarrow> api_db" where
  "delete_scopes_like p db =
     db\<lparr>scopes := filter (\<lambda>r. sc_subscription r \<notin>
          sub_id ` set (filter (\<lambda>s. sub_user s \<in> users_like p db) (subscriptions db))) (scopes db)\<rparr>"

text \<open>\<open>subscription_scopes\<close> follow their subscription by \<open>ON DELETE CASCADE\<close>, when triggers fire.\<close>

definition delete_subscriptions_like :: "replication \<Rightarrow> string \<Rightarrow> api_db \<Rightarrow> api_db" where
  "delete_subscriptions_like rep p db =
     (if rep = Origin then delete_scopes_like p db else db)
       \<lparr>subscriptions := filter (\<lambda>s. sub_user s \<notin> users_like p db) (subscriptions db)\<rparr>"

text \<open>The trigger \<open>admin_access_log_no_delete\<close> refuses the deletion of any row.\<close>

definition logged :: "uuid set \<Rightarrow> access_log_row \<Rightarrow> bool" where
  "logged ids r \<longleftrightarrow> al_admin r \<in> ids \<or> (case al_target r of None \<Rightarrow> False | Some t \<Rightarrow> t \<in> ids)"

definition delete_access_log_like :: "replication \<Rightarrow> string \<Rightarrow> api_db \<Rightarrow> api_db result" where
  "delete_access_log_like rep p db =
     (if rep = Origin \<and> (\<exists>r \<in> set (access_log db). logged (users_like p db) r)
      then Inl (DbError RaiseException)
      else Inr (db\<lparr>access_log := filter (\<lambda>r. \<not> logged (users_like p db) r) (access_log db)\<rparr>))"

text \<open>
  \<open>subscriptions\<close> and \<open>admin_access_log\<close> restrict the deletion of a user, \<open>watchlists\<close> and
  \<open>refresh_tokens\<close> cascade; under \<open>Replica\<close> only the rows of \<open>users\<close> go.
\<close>

definition delete_users_like :: "replication \<Rightarrow> string \<Rightarrow> api_db \<Rightarrow> api_db result" where
  "delete_users_like rep p db =
     (let ids = users_like p db;
          db' = db\<lparr>users := filter (\<lambda>r. \<not> like_match p (us_email r)) (users db)\<rparr>
      in case rep of
           Replica \<Rightarrow> Inr db'
         | Origin \<Rightarrow>
             if (\<exists>s \<in> set (subscriptions db). sub_user s \<in> ids) \<or> (\<exists>r \<in> set (access_log db). logged ids r)
             then Inl (DbError ForeignKeyViolation)
             else Inr (db'\<lparr>watchlists := filter (\<lambda>w. w_user w \<notin> ids) (watchlists db),
                          refresh_tokens := filter (\<lambda>t. rt_user t \<notin> ids) (refresh_tokens db)\<rparr>))"

section \<open>Users and their subscriptions\<close>

definition insert_user :: "timestamp \<Rightarrow> string \<Rightarrow> string \<Rightarrow> user_role \<Rightarrow> api_db \<Rightarrow> (api_db \<times> uuid) result" where
  "insert_user now email hash rl db =
     (if \<exists>r \<in> set (users db). us_email r = email then Inl (DbError UniqueViolation)
      else Inr (db\<lparr>users := users db @ [\<lparr>us_id = t_next db, us_email = email, us_password_hash = hash,
                                     us_role = rl, us_created = now\<rparr>],
                  t_next := Suc (t_next db)\<rparr>, t_next db))"

text \<open>\<open>_subscribe\<close>: a subscription that began thirty days before \<open>clock\<close>, with one scope.\<close>

definition thirty_days :: int where
  "thirty_days = 30 * 24 * 60 * 60 * second"

definition script_subscribe ::
  "timestamp \<Rightarrow> timestamp \<Rightarrow> uuid \<Rightarrow> string \<times> string \<Rightarrow> api_db \<Rightarrow> api_db result" where
  "script_subscribe now clock uid pair db =
     bindE (insert_subscription (script_session now) uid (clock - thirty_days) db) (\<lambda>(db1, sid).
       insert_scope (script_session now) sid db1 pair)"

section \<open>Facts on the statements\<close>

text \<open>Every \<open>uuidv7()\<close> handed out so far lies below the next one.\<close>

definition ids_fresh :: "api_db \<Rightarrow> bool" where
  "ids_fresh db \<longleftrightarrow>
     (\<forall>r \<in> set (users db). us_id r < t_next db)
     \<and> (\<forall>s \<in> set (subscriptions db). sub_id s < t_next db \<and> sub_user s < t_next db)
     \<and> (\<forall>r \<in> set (scopes db). sc_subscription r < t_next db)
     \<and> (\<forall>r \<in> set (refresh_tokens db). rt_jti r < t_next db)"

definition subscription_from :: "uuid \<Rightarrow> uuid \<Rightarrow> timestamp \<Rightarrow> timestamp \<Rightarrow> subscription_row" where
  "subscription_from sid uid clock now =
     \<lparr>sub_id = sid, sub_user = uid, sub_from = clock - thirty_days, sub_to = None, sub_created = now\<rparr>"

lemma script_subscribe_eq:
  assumes "\<exists>x \<in> set (users db). us_id x = uid" "ids_fresh db"
  shows "script_subscribe now clock uid pair db =
    Inr (db\<lparr>subscriptions := subscriptions db @ [subscription_from (t_next db) uid clock now],
            scopes := scopes db @ [new_scope (t_next db) pair], t_next := Suc (t_next db)\<rparr>)"
proof -
  have "scope_key r \<noteq> (t_next db, pair)" if "r \<in> set (scopes db)" for r
    using that assms(2) by (auto simp: ids_fresh_def scope_key_def)
  then show ?thesis
    using assms(1)
    by (auto simp: script_subscribe_def insert_subscription_def may_insert_ledger_def insert_scope_def
        subscription_from_def new_scope_def)
qed

lemma script_subscribe_InrD:
  "script_subscribe now clock uid pair db = Inr db' \<Longrightarrow> \<exists>x \<in> set (users db). us_id x = uid"
  by (auto simp: script_subscribe_def insert_subscription_def may_insert_ledger_def bindE_eq_Inr split: if_splits)

lemma find_by_email_None: "find_by_email db e = None \<longleftrightarrow> (\<forall>r \<in> set (users db). us_email r \<noteq> e)"
  by (auto simp: find_by_email_def find_None_iff)

lemma find_by_email_SomeD: "find_by_email db e = Some r \<Longrightarrow> r \<in> set (users db) \<and> us_email r = e"
  by (auto simp: find_by_email_def find_Some_iff)

lemma find_by_email_iff:
  assumes "distinct (map us_email (users db))"
  shows "find_by_email db e = Some r \<longleftrightarrow> r \<in> set (users db) \<and> us_email r = e"
proof
  assume r: "r \<in> set (users db) \<and> us_email r = e"
  then obtain r' where "find_by_email db e = Some r'" using find_by_email_None [of db e] by fastforce
  with r show "find_by_email db e = Some r"
    using find_by_email_SomeD [of db e r'] assms by (auto simp: distinct_map dest: inj_onD)
qed (rule find_by_email_SomeD)

text \<open>The scope of a user depends on the ledger alone, and only on the rows of that user.\<close>

lemma scope_of_append_other:
  assumes "subscriptions db' = subscriptions db @ [s]" "scopes db' = scopes db @ [new_scope (sub_id s) pair]"
    and "sub_user s \<noteq> uid" "\<forall>x \<in> set (subscriptions db). sub_id x \<noteq> sub_id s"
    and "\<forall>r \<in> set (scopes db). sc_subscription r \<noteq> sub_id s"
  shows "set (scope_of db' t uid) = set (scope_of db t uid)"
proof -
  have "(j, k) \<in> set (scope_of db' t uid) \<longleftrightarrow> (j, k) \<in> set (scope_of db t uid)" for j k
    unfolding set_scope_of assms(1,2) using assms(3-5) by (auto simp: new_scope_def)
  then show ?thesis by auto
qed

lemma scope_of_append_own:
  assumes "subscriptions db' = subscriptions db @ [s]" "scopes db' = scopes db @ [new_scope (sub_id s) pair]"
    and "sub_user s = uid" "sub_to s = None" "\<forall>x \<in> set (subscriptions db). sub_user x \<noteq> uid"
    and "\<forall>r \<in> set (scopes db). sc_subscription r \<noteq> sub_id s" "sub_from s \<le> t"
  shows "set (scope_of db' t uid) = {pair}"
proof -
  have "(j, k) \<in> set (scope_of db' t uid) \<longleftrightarrow> (j, k) = pair" for j k
    unfolding set_scope_of assms(1,2) using assms(3-7)
    by (auto simp: new_scope_def open_at_def)
  then show ?thesis by auto
qed

end
