(* ===== verification/Demo_Accounts.thy ===== *)
theory Demo_Accounts
  imports Script_SQL
begin

text \<open>
  \<open>scripts/create_demo_accounts.py\<close>: the inventory of demo accounts, the resolution of their
  passwords from the environment, the teardown, the create-or-rotate step with its refusal to
  downgrade a credential, and the run of the script as one transaction. argon2 and the driver are
  parameters; the flags of the command line are arguments.
\<close>

section \<open>The inventory\<close>

definition demo_like :: string where "demo_like = ''%@demo.example.com''"
definition legacy_like :: string where "legacy_like = ''%@example.test''"

record demo_account =
  da_email :: string
  da_role :: user_role
  da_env :: string
  da_default :: string
  da_scope :: "(string \<times> string) option"

definition demo_accounts :: "demo_account list" where
  "demo_accounts =
     [\<lparr>da_email = ''demo-uk@demo.example.com'', da_role = Client, da_env = ''HORIZONS_DEMO_UK_PASSWORD'',
       da_default = ''demo-uk-pass-not-secret'', da_scope = Some (''UK'', ''BANKING'')\<rparr>,
      \<lparr>da_email = ''demo-eu@demo.example.com'', da_role = Client, da_env = ''HORIZONS_DEMO_EU_PASSWORD'',
       da_default = ''demo-eu-pass-not-secret'', da_scope = Some (''EU'', ''BANKING'')\<rparr>,
      \<lparr>da_email = ''admin-demo@demo.example.com'', da_role = Admin, da_env = ''HORIZONS_DEMO_ADMIN_PASSWORD'',
       da_default = ''admin-demo-pass-not-secret'', da_scope = None\<rparr>]"

section \<open>Passwords\<close>

text \<open>The dictionary \<open>resolved\<close>, the missing variables in order, the addresses served by a default.\<close>

type_synonym resolution = "(string \<rightharpoonup> string) \<times> string list \<times> string set"

definition env_password :: "(string \<Rightarrow> string option) \<Rightarrow> demo_account \<Rightarrow> string" where
  "env_password env a = (case env (da_env a) of None \<Rightarrow> [] | Some v \<Rightarrow> header_strip v)"

definition resolve_account ::
  "(string \<Rightarrow> string option) \<Rightarrow> bool \<Rightarrow> resolution \<Rightarrow> demo_account \<Rightarrow> resolution" where
  "resolve_account env allow st a =
     (case st of (resolved, missing, dflt) \<Rightarrow>
        if env_password env a \<noteq> [] then (resolved(da_email a \<mapsto> env_password env a), missing, dflt)
        else if allow then (resolved(da_email a \<mapsto> da_default a), missing, insert (da_email a) dflt)
        else (resolved, missing @ [da_env a], dflt))"

definition resolve_passwords ::
  "(string \<Rightarrow> string option) \<Rightarrow> bool \<Rightarrow> demo_account list \<Rightarrow> resolution" where
  "resolve_passwords env allow accounts = foldl (resolve_account env allow) (Map.empty, [], {}) accounts"

section \<open>Statements\<close>

text \<open>
  \<open>sl_hash e p\<close> is the hash of \<open>p\<close> with the salt that the run draws for the account \<open>e\<close>;
  \<open>sl_verify\<close> raises on a corrupted hash. \<open>sl_connect\<close> is \<open>create_engine\<close> and the first connection.
\<close>

record script_lib =
  sl_hash :: "string \<Rightarrow> string \<Rightarrow> string"
  sl_verify :: "string \<Rightarrow> string \<Rightarrow> bool result"
  sl_connect :: "string \<Rightarrow> unit result"

definition hashes_verify :: "script_lib \<Rightarrow> bool" where
  "hashes_verify lib \<longleftrightarrow> (\<forall>e p. sl_verify lib p (sl_hash lib e p) = Inr True)"

text \<open>The sweep of the old domain that every run begins with, and the teardown of \<open>--reset\<close>.\<close>

definition legacy_sweep :: "api_db \<Rightarrow> api_db result" where
  "legacy_sweep db =
     delete_users_like Origin legacy_like
       (delete_subscriptions_like Origin legacy_like
         (delete_scopes_like legacy_like (delete_watchlists_like legacy_like db)))"

definition teardown_pattern :: "api_db \<Rightarrow> string \<Rightarrow> api_db result" where
  "teardown_pattern db p =
     bindE (delete_access_log_like Replica p
              (delete_subscriptions_like Replica p (delete_scopes_like p (delete_watchlists_like p db))))
       (delete_users_like Replica p)"

definition demo_teardown :: "api_db \<Rightarrow> api_db result" where
  "demo_teardown db = foldE teardown_pattern db [demo_like, legacy_like]"

definition existing_password_hash :: "api_db \<Rightarrow> string \<Rightarrow> string option" where
  "existing_password_hash db e = map_option us_password_hash (find_by_email db e)"

definition account_exists :: "api_db \<Rightarrow> string \<Rightarrow> bool" where
  "account_exists db e \<longleftrightarrow> existing_password_hash db e \<noteq> None"

definition create_user :: "script_lib \<Rightarrow> timestamp \<Rightarrow> demo_account \<Rightarrow> string \<Rightarrow> api_db \<Rightarrow> (api_db \<times> uuid) result" where
  "create_user lib now a pw db = insert_user now (da_email a) (sl_hash lib (da_email a) pw) (da_role a) db"

definition rotate_password :: "script_lib \<Rightarrow> string \<Rightarrow> string \<Rightarrow> api_db \<Rightarrow> api_db" where
  "rotate_password lib e pw db =
     db\<lparr>users := map (\<lambda>r. if us_email r = e then r\<lparr>us_password_hash := sl_hash lib e pw\<rparr> else r) (users db)\<rparr>"

section \<open>Create or rotate\<close>

datatype outcome = Created | Rotated | Unchanged

definition create_or_rotate ::
  "script_lib \<Rightarrow> timestamp \<Rightarrow> timestamp \<Rightarrow> demo_account \<Rightarrow> string \<Rightarrow> api_db \<Rightarrow> (api_db \<times> outcome) result" where
  "create_or_rotate lib now clock a pw db =
     (case existing_password_hash db (da_email a) of
        None \<Rightarrow>
          bindE (create_user lib now a pw db) (\<lambda>(db1, uid).
            case da_scope a of
              None \<Rightarrow> Inr (db1, Created)
            | Some pair \<Rightarrow> bindE (script_subscribe now clock uid pair db1) (\<lambda>db2. Inr (db2, Created)))
      | Some h \<Rightarrow>
          bindE (sl_verify lib pw h) (\<lambda>same.
            if same then Inr (db, Unchanged) else Inr (rotate_password lib (da_email a) pw db, Rotated)))"

definition lookup_password :: "(string \<rightharpoonup> string) \<Rightarrow> string \<Rightarrow> string result" where
  "lookup_password resolved e = (case resolved e of None \<Rightarrow> Inl KeyError | Some p \<Rightarrow> Inr p)"

definition would_downgrade ::
  "script_lib \<Rightarrow> (string \<rightharpoonup> string) \<Rightarrow> string set \<Rightarrow> api_db \<Rightarrow> demo_account \<Rightarrow> bool result" where
  "would_downgrade lib resolved dflt db a =
     (if da_email a \<notin> dflt then Inr False
      else case existing_password_hash db (da_email a) of
        None \<Rightarrow> Inr False
      | Some h \<Rightarrow> bindE (lookup_password resolved (da_email a)) (\<lambda>p. bindE (sl_verify lib p h) (\<lambda>ok. Inr (\<not> ok))))"

definition downgrade_candidates ::
  "script_lib \<Rightarrow> (string \<rightharpoonup> string) \<Rightarrow> string set \<Rightarrow> api_db \<Rightarrow> demo_account list \<Rightarrow> string list result" where
  "downgrade_candidates lib resolved dflt db accounts =
     bindE (filterE (would_downgrade lib resolved dflt db) accounts) (\<lambda>bs. Inr (map da_email bs))"

fun provision_all ::
  "script_lib \<Rightarrow> timestamp \<Rightarrow> timestamp \<Rightarrow> (string \<rightharpoonup> string) \<Rightarrow> api_db \<Rightarrow> demo_account list
    \<Rightarrow> (api_db \<times> (string \<times> outcome) list) result" where
  "provision_all lib now clock resolved db [] = Inr (db, [])"
| "provision_all lib now clock resolved db (a # as) =
     bindE (lookup_password resolved (da_email a)) (\<lambda>pw.
     bindE (create_or_rotate lib now clock a pw db) (\<lambda>(db1, out).
     bindE (provision_all lib now clock resolved db1 as) (\<lambda>(db2, outs).
       Inr (db2, (da_email a, out) # outs))))"

section \<open>The run\<close>

text \<open>
  The body of the transaction; its value is the exit code with the outcomes that are printed. A
  refusal leaves the \<open>with\<close> block by \<open>return\<close>, which commits.
\<close>

definition demo_body ::
  "script_lib \<Rightarrow> bool \<Rightarrow> timestamp \<Rightarrow> timestamp \<Rightarrow> resolution \<Rightarrow> api_db
    \<Rightarrow> (api_db \<times> nat \<times> (string \<times> outcome) list) result" where
  "demo_body lib reset now clock res db =
     (case res of (resolved, missing, dflt) \<Rightarrow>
        bindE (legacy_sweep db) (\<lambda>db1.
        bindE (if reset then demo_teardown db1 else Inr db1) (\<lambda>db2.
        bindE (downgrade_candidates lib resolved dflt db2 demo_accounts) (\<lambda>blocked.
          if blocked \<noteq> [] then Inr (db2, 1, [])
          else bindE (provision_all lib now clock resolved db2 demo_accounts) (\<lambda>(db3, outs).
            Inr (db3, 0, outs))))))"

record demo_args =
  dm_reset :: bool
  dm_defaults :: bool

definition demo_main ::
  "script_lib \<Rightarrow> (string \<Rightarrow> string option) \<Rightarrow> demo_args \<Rightarrow> timestamp \<Rightarrow> timestamp \<Rightarrow> api_db
    \<Rightarrow> api_db \<times> (nat \<times> (string \<times> outcome) list) result" where
  "demo_main lib env args now clock db =
     (case env ''HORIZONS_DB_URL'' of
        None \<Rightarrow> (db, Inr (1, []))
      | Some raw \<Rightarrow>
          if raw = [] then (db, Inr (1, []))
          else
            let res = resolve_passwords env (dm_defaults args) demo_accounts in
            if fst (snd res) \<noteq> [] then (db, Inr (1, []))
            else case sl_connect lib (normalise_db_url raw) of
              Inl e \<Rightarrow> (db, Inl e)
            | Inr _ \<Rightarrow> transaction (demo_body lib (dm_reset args) now clock res) db)"

end
