(* ===== verification/E2e.thy ===== *)
theory E2e
  imports Demo_Accounts
begin

text \<open>
  \<open>scripts/seed_e2e.py\<close>: the fixtures of the browser smoke test. Two clients with disjoint scopes, two
  synthetic documents with two versions each, and three change events. Each run tears down what carries
  the test's address and document prefix, in a transaction of its own with the triggers switched off, and
  seeds again in a second one. SHA-256 and the sequence behind \<open>change_events.id\<close> are parameters; \<open>clk k\<close> is
  the \<open>k\<close>-th reading of the clock.
\<close>

section \<open>Constants\<close>

definition uk_email :: string where "uk_email = ''uk-client@e2e.example.com''"
definition eu_email :: string where "eu_email = ''eu-client@e2e.example.com''"
definition uk_password :: string where "uk_password = ''e2e-test-pass-uk''"
definition eu_password :: string where "eu_password = ''e2e-test-pass-eu''"
definition e2e_email_like :: string where "e2e_email_like = ''%@e2e.example.com''"
definition e2e_doc_pattern :: string where "e2e_doc_pattern = ''e2e_%''"
definition uk_doc_lid :: string where "uk_doc_lid = ''e2e_uk_banking_act_v1''"
definition eu_doc_lid :: string where "eu_doc_lid = ''e2e_eu_banking_directive_v1''"

definition uk_modified_before :: string where
  "uk_modified_before = ''Article 12. The institution shall maintain a minimum capital adequacy ratio of 8 percent of risk-weighted assets at all times.''"
definition uk_modified_after :: string where
  "uk_modified_after = ''Article 12. The institution shall maintain a minimum capital adequacy ratio of 10.5 percent of risk-weighted assets at all times.''"
definition eu_modified_before :: string where
  "eu_modified_before = ''Clause 4.2. Liquidity coverage shall meet 80 percent of net cash outflows over a 30 day stress horizon.''"
definition eu_modified_after :: string where
  "eu_modified_after = ''Clause 4.2. Liquidity coverage shall meet 100 percent of net cash outflows over a 30 day stress horizon.''"
definition uk_moved_text :: string where
  "uk_moved_text = ''Section 14. Reporting obligations apply to all in-scope institutions on a quarterly basis.''"

section \<open>Teardown\<close>

text \<open>The pattern is \<open>'e2e_%'\<close> with a backslash as the escape character, which does not occur in it.\<close>

definition docs_like :: "string \<Rightarrow> api_db \<Rightarrow> uuid set" where
  "docs_like p db = d_id ` set (filter (\<lambda>d. like_match p (d_lawstronaut d)) (documents (library db)))"

definition versions_like :: "string \<Rightarrow> api_db \<Rightarrow> uuid set" where
  "versions_like p db = v_id ` set (filter (\<lambda>v. v_document v \<in> docs_like p db) (versions (library db)))"

definition delete_corpus_like :: "string \<Rightarrow> api_db \<Rightarrow> api_db" where
  "delete_corpus_like p db =
     db\<lparr>change_events := filter (\<lambda>e. e_document e \<notin> docs_like p db) (change_events db),
        library := (library db)
          \<lparr>clauses := filter (\<lambda>c. c_version c \<notin> versions_like p db) (clauses (library db)),
           versions := filter (\<lambda>v. v_document v \<notin> docs_like p db) (versions (library db)),
           documents := filter (\<lambda>d. \<not> like_match p (d_lawstronaut d)) (documents (library db))\<rparr>\<rparr>"

definition e2e_teardown :: "api_db \<Rightarrow> api_db result" where
  "e2e_teardown db =
     bindE (delete_access_log_like Replica e2e_email_like
              (delete_subscriptions_like Replica e2e_email_like
                (delete_scopes_like e2e_email_like (delete_corpus_like e2e_doc_pattern db))))
       (delete_users_like Replica e2e_email_like)"

section \<open>Fixtures\<close>

definition make_user :: "script_lib \<Rightarrow> timestamp \<Rightarrow> string \<Rightarrow> string \<Rightarrow> api_db \<Rightarrow> (api_db \<times> uuid) result" where
  "make_user lib now email password db = insert_user now email (sl_hash lib email password) Client db"

definition on_library :: "(corpus \<Rightarrow> (corpus \<times> 'a) result) \<Rightarrow> api_db \<Rightarrow> (api_db \<times> 'a) result" where
  "on_library f db = bindE (f (library db)) (\<lambda>(lb, x). Inr (db\<lparr>library := lb\<rparr>, x))"

text \<open>\<open>INSERT INTO documents\<close> with the unique \<open>lawstronaut_document_id\<close>.\<close>

definition insert_e2e_document ::
  "timestamp \<Rightarrow> string \<Rightarrow> string \<Rightarrow> string \<Rightarrow> string \<Rightarrow> corpus \<Rightarrow> (corpus \<times> uuid) result" where
  "insert_e2e_document now j s lid title db =
     (if \<exists>r \<in> set (documents db). d_lawstronaut r = lid then Inl (DbError UniqueViolation)
      else Inr (db\<lparr>documents := documents db @
                    [\<lparr>d_id = next_uuid db, d_jurisdiction = j, d_sector = s, d_lawstronaut = lid, d_title = title,
                      d_created = now\<rparr>],
                  next_uuid := Suc (next_uuid db)\<rparr>, next_uuid db))"

definition e2e_version :: "(string \<Rightarrow> bytes) \<Rightarrow> uuid \<Rightarrow> string \<Rightarrow> string \<Rightarrow> timestamp \<Rightarrow> version_row" where
  "e2e_version sha d lid lab at_time =
     \<lparr>v_id = 0, v_document = d, v_label = u lab, v_no = None, v_from = None, v_to = None,
      v_publication = Some at_time, v_effective = Some at_time, v_container = ''e2e'',
      v_key = lid @ ''/'' @ lab @ ''.md'', v_sha = sha (lid @ ''/'' @ lab), v_bytes = 1024\<rparr>"

definition insert_e2e_version ::
  "(string \<Rightarrow> bytes) \<Rightarrow> timestamp \<Rightarrow> uuid \<Rightarrow> string \<Rightarrow> string \<Rightarrow> timestamp \<Rightarrow> api_db \<Rightarrow> (api_db \<times> uuid) result" where
  "insert_e2e_version sha now d lid lab at_time db =
     bindE (on_library (insert_version_row (e2e_version sha d lid lab at_time)) db) (\<lambda>(db1, vid).
       Inr (db1\<lparr>version_created := (version_created db1)(vid := now)\<rparr>, vid))"

definition make_doc_with_versions ::
  "(string \<Rightarrow> bytes) \<Rightarrow> timestamp \<Rightarrow> timestamp \<Rightarrow> string \<Rightarrow> string \<Rightarrow> string \<Rightarrow> string \<Rightarrow> api_db
    \<Rightarrow> (api_db \<times> uuid \<times> uuid \<times> uuid) result" where
  "make_doc_with_versions sha now clock lid j s title db =
     bindE (on_library (insert_e2e_document now j s lid title) db) (\<lambda>(db1, d).
     bindE (insert_e2e_version sha now d lid ''v1'' (clock - thirty_days) db1) (\<lambda>(db2, v1).
     bindE (insert_e2e_version sha now d lid ''v2'' clock db2) (\<lambda>(db3, v2).
       Inr (db3, d, v1, v2))))"

text \<open>The clauses get fresh \<open>uuid4\<close> values and are numbered from \<open>k\<close>, which starts at 1.\<close>

fun insert_e2e_clauses :: "uuid \<Rightarrow> nat \<Rightarrow> (string \<times> string) list \<Rightarrow> corpus \<Rightarrow> corpus result" where
  "insert_e2e_clauses vid k [] db = Inr db"
| "insert_e2e_clauses vid k ((p, t) # cs) db =
     bindE (insert_clause (db\<lparr>next_uuid := Suc (next_uuid db)\<rparr>)
              \<lparr>c_version = vid, c_uid = next_uuid db, c_path = u p, c_text = u t, c_heading = None, c_label = None,
               c_ord = k\<rparr>)
       (insert_e2e_clauses vid (Suc k) cs)"

definition insert_clauses :: "uuid \<Rightarrow> (string \<times> string) list \<Rightarrow> api_db \<Rightarrow> api_db result" where
  "insert_clauses vid cs db = bindE (insert_e2e_clauses vid 1 cs (library db)) (\<lambda>lb. Inr (db\<lparr>library := lb\<rparr>))"

record fixture_event =
  fe_type :: change_type
  fe_before_path :: string
  fe_after_path :: string
  fe_before :: string
  fe_after :: string
  fe_confidence :: rat

definition stored_fixture :: "int \<Rightarrow> timestamp \<Rightarrow> uuid \<Rightarrow> uuid \<Rightarrow> string \<times> string \<Rightarrow> fixture_event \<Rightarrow> stored_event" where
  "stored_fixture eid clock d v pair f =
     \<lparr>e_document = d, e_version = v, e_jurisdiction = fst pair, e_sector = snd pair, e_type = fe_type f,
      e_before_uid = None, e_after_uid = None, e_before_path = Some (u (fe_before_path f)),
      e_after_path = Some (u (fe_after_path f)), e_before_text = Some (u (fe_before f)),
      e_after_text = Some (u (fe_after f)), e_confidence = fe_confidence f, e_effective = Some clock,
      ev_id = eid, ev_detected = clock\<rparr>"

definition emit_change_event ::
  "int \<Rightarrow> timestamp \<Rightarrow> uuid \<Rightarrow> uuid \<Rightarrow> string \<times> string \<Rightarrow> fixture_event \<Rightarrow> api_db \<Rightarrow> api_db result" where
  "emit_change_event eid clock d v pair f db =
     (let e = stored_fixture eid clock d v pair f in
      bindE (insert_change_event (library db) (event_row.truncate e)) (\<lambda>_.
        if \<exists>x \<in> set (change_events db). ev_id x = eid then Inl (DbError UniqueViolation)
        else Inr (db\<lparr>change_events := change_events db @ [e]\<rparr>)))"

section \<open>The seed\<close>

definition uk_head :: "(string \<times> string) list" where
  "uk_head = [(''PART_1'', ''Part 1 of the UK Banking Act sample.''),
     (''PART_1/SECTION_1'', ''Section 1: Preliminary provisions.''),
     (''PART_2/SECTION_12'', ''Section 12: Capital requirements.'')]"

definition eu_head :: "(string \<times> string) list" where
  "eu_head = [(''ARTICLE_1'', ''Article 1 of the EU Banking Directive sample.''),
     (''ARTICLE_4'', ''Article 4: Liquidity coverage.'')]"

definition uk_modified :: fixture_event where
  "uk_modified = \<lparr>fe_type = MODIFIED, fe_before_path = ''PART_2/SECTION_12/(a)'', fe_after_path = ''PART_2/SECTION_12/(a)'',
     fe_before = uk_modified_before, fe_after = uk_modified_after, fe_confidence = 92 / 100\<rparr>"

definition eu_modified :: fixture_event where
  "eu_modified = \<lparr>fe_type = MODIFIED, fe_before_path = ''ARTICLE_4/CLAUSE_4.2'', fe_after_path = ''ARTICLE_4/CLAUSE_4.2'',
     fe_before = eu_modified_before, fe_after = eu_modified_after, fe_confidence = 78 / 100\<rparr>"

definition uk_moved :: fixture_event where
  "uk_moved = \<lparr>fe_type = MOVED, fe_before_path = ''PART_3/SECTION_14'', fe_after_path = ''PART_4/SECTION_14'',
     fe_before = uk_moved_text, fe_after = uk_moved_text, fe_confidence = 95 / 100\<rparr>"

definition uk_pair :: "string \<times> string" where "uk_pair = (''UK'', ''BANKING'')"
definition eu_pair :: "string \<times> string" where "eu_pair = (''EU'', ''BANKING'')"

definition e2e_seed ::
  "script_lib \<Rightarrow> (string \<Rightarrow> bytes) \<Rightarrow> (nat \<Rightarrow> int) \<Rightarrow> timestamp \<Rightarrow> (nat \<Rightarrow> timestamp) \<Rightarrow> api_db \<Rightarrow> api_db result" where
  "e2e_seed lib sha eids now clk db =
     bindE (make_user lib now uk_email uk_password db) (\<lambda>(db1, uk_user).
     bindE (make_user lib now eu_email eu_password db1) (\<lambda>(db2, eu_user).
     bindE (script_subscribe now (clk 0) uk_user uk_pair db2) (\<lambda>db3.
     bindE (script_subscribe now (clk 1) eu_user eu_pair db3) (\<lambda>db4.
     bindE (make_doc_with_versions sha now (clk 2) uk_doc_lid ''UK'' ''BANKING'' ''UK Banking Act (sample, e2e)'' db4)
       (\<lambda>(db5, uk_doc, uk_v1, uk_v2).
     bindE (make_doc_with_versions sha now (clk 3) eu_doc_lid ''EU'' ''BANKING'' ''EU Banking Directive (sample, e2e)'' db5)
       (\<lambda>(db6, eu_doc, eu_v1, eu_v2).
     bindE (insert_clauses uk_v1 (uk_head @ [(''PART_2/SECTION_12/(a)'', uk_modified_before)]) db6) (\<lambda>db7.
     bindE (insert_clauses uk_v2 (uk_head @ [(''PART_2/SECTION_12/(a)'', uk_modified_after)]) db7) (\<lambda>db8.
     bindE (insert_clauses eu_v1 (eu_head @ [(''ARTICLE_4/CLAUSE_4.2'', eu_modified_before)]) db8) (\<lambda>db9.
     bindE (insert_clauses eu_v2 (eu_head @ [(''ARTICLE_4/CLAUSE_4.2'', eu_modified_after)]) db9) (\<lambda>db10.
     bindE (emit_change_event (eids 0) (clk 4) uk_doc uk_v2 uk_pair uk_modified db10) (\<lambda>db11.
     bindE (emit_change_event (eids 1) (clk 5) eu_doc eu_v2 eu_pair eu_modified db11) (\<lambda>db12.
     emit_change_event (eids 2) (clk 6) uk_doc uk_v2 uk_pair uk_moved db12))))))))))))"

section \<open>The run\<close>

text \<open>Two transactions: the teardown stays when the seed fails.\<close>

definition e2e_main ::
  "script_lib \<Rightarrow> (string \<Rightarrow> bytes) \<Rightarrow> (nat \<Rightarrow> int) \<Rightarrow> (string \<Rightarrow> string option) \<Rightarrow> bool \<Rightarrow> timestamp \<Rightarrow> (nat \<Rightarrow> timestamp)
    \<Rightarrow> api_db \<Rightarrow> api_db \<times> nat result" where
  "e2e_main lib sha eids env teardown_only now clk db =
     (case env ''HORIZONS_DB_URL'' of
        None \<Rightarrow> (db, Inr 1)
      | Some raw \<Rightarrow>
          if raw = [] then (db, Inr 1)
          else case sl_connect lib (normalise_db_url raw) of
            Inl e \<Rightarrow> (db, Inl e)
          | Inr _ \<Rightarrow>
              (case transaction (\<lambda>d. bindE (e2e_teardown d) (\<lambda>d'. Inr (d', ()))) db of
                 (db1, Inl e) \<Rightarrow> (db1, Inl e)
               | (db1, Inr _) \<Rightarrow>
                   if teardown_only then (db1, Inr 0)
                   else transaction (\<lambda>d. bindE (e2e_seed lib sha eids now clk d) (\<lambda>d'. Inr (d', 0))) db1))"

end
