(* ===== verification/Demo_Correct.thy ===== *)
theory Demo_Correct
  imports Demo_Accounts
begin

text \<open>
  What a run of \<open>create_demo_accounts.py\<close> does to the database: how the passwords are resolved, what
  the sweeps remove, the effect of each account's step and of the whole loop.
\<close>

section \<open>Resolution\<close>

definition account_password :: "(string \<Rightarrow> string option) \<Rightarrow> demo_account \<Rightarrow> string" where
  "account_password env a = (if env_password env a \<noteq> [] then env_password env a else da_default a)"

definition resolved_accounts :: "(string \<Rightarrow> string option) \<Rightarrow> bool \<Rightarrow> demo_account list \<Rightarrow> demo_account list" where
  "resolved_accounts env allow as = filter (\<lambda>a. env_password env a \<noteq> [] \<or> allow) as"

definition unset_accounts :: "(string \<Rightarrow> string option) \<Rightarrow> demo_account list \<Rightarrow> demo_account list" where
  "unset_accounts env as = filter (\<lambda>a. env_password env a = []) as"

definition password_map :: "(string \<Rightarrow> string option) \<Rightarrow> demo_account list \<Rightarrow> string \<rightharpoonup> string" where
  "password_map env as = map_of (map (\<lambda>a. (da_email a, account_password env a)) as)"

lemma resolve_fold:
  "distinct (map da_email as) \<Longrightarrow>
     foldl (resolve_account env allow) (r0, m0, d0) as =
       (r0 ++ password_map env (resolved_accounts env allow as),
        m0 @ (if allow then [] else map da_env (unset_accounts env as)),
        d0 \<union> (if allow then da_email ` set (unset_accounts env as) else {}))"
proof (induction as arbitrary: r0 m0 d0)
  case Nil
  then show ?case by (simp add: resolved_accounts_def unset_accounts_def password_map_def)
next
  case (Cons a as)
  have new: "da_email a \<notin> dom (password_map env (resolved_accounts env allow as))"
    using Cons.prems by (auto simp: password_map_def resolved_accounts_def dom_map_of_conv_image_fst)
  have M: "password_map env (resolved_accounts env allow (a # as)) =
      (if env_password env a \<noteq> [] \<or> allow
       then (password_map env (resolved_accounts env allow as))(da_email a \<mapsto> account_password env a)
       else password_map env (resolved_accounts env allow as))"
    by (simp add: password_map_def resolved_accounts_def)
  have U: "unset_accounts env (a # as) = (if env_password env a = [] then a # unset_accounts env as else unset_accounts env as)"
    by (simp add: unset_accounts_def)
  have IH: "foldl (resolve_account env allow) (r, m, d) as =
      (r ++ password_map env (resolved_accounts env allow as),
       m @ (if allow then [] else map da_env (unset_accounts env as)),
       d \<union> (if allow then da_email ` set (unset_accounts env as) else {}))" for r m d
    using Cons by simp
  have step: "resolve_account env allow (r0, m0, d0) a =
      (if env_password env a \<noteq> [] \<or> allow then r0(da_email a \<mapsto> account_password env a) else r0,
       if env_password env a = [] \<and> \<not> allow then m0 @ [da_env a] else m0,
       if env_password env a = [] \<and> allow then insert (da_email a) d0 else d0)"
    by (simp add: resolve_account_def account_password_def)
  show ?case
    unfolding foldl_Cons step IH M U by (auto simp: map_add_upd_left [OF new])
qed

lemma password_map_Some:
  assumes "distinct (map da_email as)" "a \<in> set as"
  shows "password_map env as (da_email a) = Some (account_password env a)"
  using assms by (auto simp: password_map_def distinct_map inj_on_def intro!: map_of_is_SomeI)

lemma distinct_demo_accounts: "distinct (map da_email demo_accounts)"
  by (simp add: demo_accounts_def)

lemma demo_email_inj:
  "a \<in> set demo_accounts \<Longrightarrow> b \<in> set demo_accounts \<Longrightarrow> da_email a = da_email b \<Longrightarrow> a = b"
  using distinct_demo_accounts by (auto simp: distinct_map dest: inj_onD)

text \<open>Either some variable is missing, or every account has a password, the default exactly where
  the variable is unset.\<close>

lemma resolve_demo:
  assumes "resolve_passwords env allow demo_accounts = (resolved, missing, dflt)"
  shows "missing = (if allow then [] else map da_env (unset_accounts env demo_accounts))"
    and "missing = [] \<Longrightarrow> a \<in> set demo_accounts \<Longrightarrow> resolved (da_email a) = Some (account_password env a)"
    and "missing = [] \<Longrightarrow> a \<in> set demo_accounts \<Longrightarrow> da_email a \<in> dflt \<longleftrightarrow> env_password env a = []"
proof -
  have eq: "resolved = password_map env (resolved_accounts env allow demo_accounts)"
    "missing = (if allow then [] else map da_env (unset_accounts env demo_accounts))"
    "dflt = (if allow then da_email ` set (unset_accounts env demo_accounts) else {})"
    using assms unfolding resolve_passwords_def resolve_fold [OF distinct_demo_accounts] by simp_all
  show "missing = (if allow then [] else map da_env (unset_accounts env demo_accounts))" by (fact eq(2))
  assume none: "missing = []" and a: "a \<in> set demo_accounts"
  have all: "resolved_accounts env allow demo_accounts = demo_accounts"
    using none eq(2) by (auto simp: resolved_accounts_def unset_accounts_def filter_empty_conv split: if_splits)
  show "resolved (da_email a) = Some (account_password env a)"
    unfolding eq(1) all by (rule password_map_Some [OF distinct_demo_accounts a])
  show "da_email a \<in> dflt \<longleftrightarrow> env_password env a = []"
    using none eq(2,3) a demo_email_inj
    by (auto simp: unset_accounts_def filter_empty_conv split: if_splits)
qed

section \<open>The sweeps only remove rows\<close>

definition shrinks :: "(user_row \<Rightarrow> bool) \<Rightarrow> api_db \<Rightarrow> api_db \<Rightarrow> bool" where
  "shrinks keep db db' \<longleftrightarrow> t_next db' = t_next db \<and> users db' = filter keep (users db)
     \<and> set (subscriptions db') \<subseteq> set (subscriptions db) \<and> set (scopes db') \<subseteq> set (scopes db)
     \<and> set (refresh_tokens db') \<subseteq> set (refresh_tokens db)"

abbreviation unlike :: "string \<Rightarrow> user_row \<Rightarrow> bool" where
  "unlike p r \<equiv> \<not> like_match p (us_email r)"

lemma shrinks_trans: "shrinks k db db1 \<Longrightarrow> shrinks k' db1 db2 \<Longrightarrow> shrinks (\<lambda>r. k r \<and> k' r) db db2"
  by (auto simp: shrinks_def conj_commute)

lemma shrinks_fresh: "shrinks k db db' \<Longrightarrow> ids_fresh db \<Longrightarrow> ids_fresh db'"
  unfolding shrinks_def ids_fresh_def by (metis filter_is_subset subsetD)

lemma shrinks_distinct: "shrinks k db db' \<Longrightarrow> distinct (map us_email (users db)) \<Longrightarrow> distinct (map us_email (users db'))"
  by (simp add: shrinks_def distinct_map_filter)

lemmas delete_defs = delete_users_like_def delete_access_log_like_def delete_subscriptions_like_def
  delete_scopes_like_def delete_watchlists_like_def users_like_def

lemma delete_users_shrinks: "delete_users_like rep p db = Inr db' \<Longrightarrow> shrinks (unlike p) db db'"
  by (cases rep) (auto simp: delete_users_like_def Let_def shrinks_def split: if_splits)

lemma delete_dependants_shrinks:
  "shrinks (\<lambda>_. True) db (delete_subscriptions_like rep p (delete_scopes_like p' (delete_watchlists_like p'' db)))"
  by (auto simp: shrinks_def delete_subscriptions_like_def delete_scopes_like_def delete_watchlists_like_def)

lemma delete_access_log_shrinks: "delete_access_log_like rep p db = Inr db' \<Longrightarrow> shrinks (\<lambda>_. True) db db'"
  by (auto simp: delete_access_log_like_def shrinks_def split: if_splits)

lemma legacy_sweep_shrinks: "legacy_sweep db = Inr db' \<Longrightarrow> shrinks (unlike legacy_like) db db'"
  unfolding legacy_sweep_def
  using shrinks_trans [OF delete_dependants_shrinks delete_users_shrinks] by simp

lemma teardown_pattern_total: "\<exists>db'. teardown_pattern db p = Inr db'"
  by (simp add: teardown_pattern_def delete_access_log_like_def delete_users_like_def Let_def)

lemma teardown_pattern_shrinks: "teardown_pattern db p = Inr db' \<Longrightarrow> shrinks (unlike p) db db'"
  unfolding teardown_pattern_def bindE_eq_Inr
  using shrinks_trans [OF shrinks_trans [OF delete_dependants_shrinks delete_access_log_shrinks] delete_users_shrinks]
  by fastforce

lemma demo_teardown_total: "\<exists>db'. demo_teardown db = Inr db'"
proof -
  obtain db1 where "teardown_pattern db demo_like = Inr db1" using teardown_pattern_total by blast
  then show ?thesis using teardown_pattern_total [of db1 legacy_like] by (simp add: demo_teardown_def)
qed

lemma demo_teardown_shrinks:
  assumes "demo_teardown db = Inr db'"
  shows "shrinks (\<lambda>r. unlike demo_like r \<and> unlike legacy_like r) db db'"
proof -
  obtain db1 where "teardown_pattern db demo_like = Inr db1" "teardown_pattern db1 legacy_like = Inr db'"
    using assms by (auto simp: demo_teardown_def bindE_eq_Inr)
  then show ?thesis using shrinks_trans [OF teardown_pattern_shrinks teardown_pattern_shrinks] by blast
qed

text \<open>With triggers off the refresh tokens of the removed users stay.\<close>

lemma teardown_pattern_tokens: "teardown_pattern db p = Inr db' \<Longrightarrow> refresh_tokens db' = refresh_tokens db"
  by (simp add: teardown_pattern_def delete_access_log_like_def delete_users_like_def Let_def)
    (auto simp: delete_subscriptions_like_def delete_scopes_like_def delete_watchlists_like_def)

lemma teardown_leaves_tokens: "demo_teardown db = Inr db' \<Longrightarrow> refresh_tokens db' = refresh_tokens db"
  unfolding demo_teardown_def foldE.simps bindE_eq_Inr using teardown_pattern_tokens by (metis sum.inject(2))

text \<open>A sweep that finds nobody changes nothing.\<close>

lemma legacy_sweep_idle:
  assumes "\<forall>r \<in> set (users db). unlike legacy_like r"
  shows "legacy_sweep db = Inr db"
proof -
  have none: "users_like legacy_like db = {}" using assms by (auto simp: users_like_def)
  have all: "filter (unlike legacy_like) (users db) = users db" using assms by (simp add: filter_id_conv)
  have w: "delete_watchlists_like legacy_like db = db" by (simp add: delete_watchlists_like_def none)
  have sc: "delete_scopes_like legacy_like db = db" by (simp add: delete_scopes_like_def none)
  have su: "delete_subscriptions_like Origin legacy_like db = db"
    by (simp add: delete_subscriptions_like_def none sc)
  have "logged {} r \<longleftrightarrow> False" for r by (simp add: logged_def split: option.split)
  then show ?thesis
    by (simp add: legacy_sweep_def w sc su delete_users_like_def none all Let_def)
qed

text \<open>A legacy user who has acted as an administrator cannot be removed, and no run gets past the sweep.\<close>

lemma legacy_admin_blocks:
  assumes "r \<in> set (access_log db)" "x \<in> set (users db)" "like_match legacy_like (us_email x)" "al_admin r = us_id x"
  shows "legacy_sweep db = Inl (DbError ForeignKeyViolation)"
proof -
  let ?db = "delete_subscriptions_like Origin legacy_like (delete_scopes_like legacy_like (delete_watchlists_like legacy_like db))"
  have "users ?db = users db" "access_log ?db = access_log db"
    by (simp_all add: delete_subscriptions_like_def delete_scopes_like_def delete_watchlists_like_def)
  then have "\<exists>q \<in> set (access_log ?db). logged (users_like legacy_like ?db) q"
    using assms by (intro bexI [of _ r]) (auto simp: logged_def users_like_def)
  then show ?thesis by (simp add: legacy_sweep_def delete_users_like_def Let_def)
qed

section \<open>One account\<close>

definition new_user :: "script_lib \<Rightarrow> timestamp \<Rightarrow> demo_account \<Rightarrow> string \<Rightarrow> uuid \<Rightarrow> user_row" where
  "new_user lib now a pw uid =
     \<lparr>us_id = uid, us_email = da_email a, us_password_hash = sl_hash lib (da_email a) pw, us_role = da_role a,
      us_created = now\<rparr>"

definition with_account :: "script_lib \<Rightarrow> timestamp \<Rightarrow> timestamp \<Rightarrow> demo_account \<Rightarrow> string \<Rightarrow> api_db \<Rightarrow> api_db" where
  "with_account lib now clock a pw db =
     (let db1 = db\<lparr>users := users db @ [new_user lib now a pw (t_next db)], t_next := Suc (t_next db)\<rparr>
      in case da_scope a of
           None \<Rightarrow> db1
         | Some pair \<Rightarrow> db1\<lparr>subscriptions := subscriptions db @ [subscription_from (Suc (t_next db)) (t_next db) clock now],
                           scopes := scopes db @ [new_scope (Suc (t_next db)) pair], t_next := Suc (Suc (t_next db))\<rparr>)"

lemma create_or_rotate_eq:
  assumes "ids_fresh db"
  shows "create_or_rotate lib now clock a pw db =
    (case find_by_email db (da_email a) of
       None \<Rightarrow> Inr (with_account lib now clock a pw db, Created)
     | Some x \<Rightarrow> bindE (sl_verify lib pw (us_password_hash x)) (\<lambda>same.
         if same then Inr (db, Unchanged) else Inr (rotate_password lib (da_email a) pw db, Rotated)))"
proof (cases "find_by_email db (da_email a)")
  case None
  let ?db1 = "db\<lparr>users := users db @ [new_user lib now a pw (t_next db)], t_next := Suc (t_next db)\<rparr>"
  have ins: "create_user lib now a pw db = Inr (?db1, t_next db)"
    using None by (auto simp: find_by_email_None create_user_def insert_user_def new_user_def)
  have fresh: "ids_fresh ?db1" using assms by (auto simp: ids_fresh_def new_user_def less_SucI)
  have sub: "script_subscribe now clock (t_next db) pair ?db1 = Inr (?db1\<lparr>
      subscriptions := subscriptions db @ [subscription_from (Suc (t_next db)) (t_next db) clock now],
      scopes := scopes db @ [new_scope (Suc (t_next db)) pair], t_next := Suc (Suc (t_next db))\<rparr>)" for pair
    by (subst script_subscribe_eq [OF _ fresh]) (auto simp: new_user_def)
  show ?thesis
    using None by (simp add: create_or_rotate_def existing_password_hash_def ins sub with_account_def Let_def
      split: option.split)
next
  case (Some x)
  then show ?thesis by (simp add: create_or_rotate_def existing_password_hash_def)
qed

lemma with_account_fresh: "ids_fresh db \<Longrightarrow> ids_fresh (with_account lib now clock a pw db)"
  by (auto simp: ids_fresh_def with_account_def new_user_def subscription_from_def new_scope_def Let_def less_SucI
      split: option.splits)

lemma users_with_account [simp]:
  "users (with_account lib now clock a pw db) = users db @ [new_user lib now a pw (t_next db)]"
  by (simp add: with_account_def Let_def split: option.split)

lemma rotate_fresh: "ids_fresh db \<Longrightarrow> ids_fresh (rotate_password lib e pw db)"
  by (auto simp: ids_fresh_def rotate_password_def)

text \<open>What the step leaves for its account, and what it leaves alone.\<close>

definition keeps_scopes :: "api_db \<Rightarrow> api_db \<Rightarrow> bool" where
  "keeps_scopes db db' \<longleftrightarrow> t_next db \<le> t_next db'
     \<and> (\<forall>uid t. uid < t_next db \<longrightarrow> set (scope_of db' t uid) = set (scope_of db t uid))"

definition provisioned ::
  "script_lib \<Rightarrow> timestamp \<Rightarrow> demo_account \<Rightarrow> string \<Rightarrow> outcome \<Rightarrow> api_db \<Rightarrow> bool" where
  "provisioned lib clock a pw out db \<longleftrightarrow>
     (\<exists>x. find_by_email db (da_email a) = Some x \<and> sl_verify lib pw (us_password_hash x) = Inr True
        \<and> (out = Created \<longrightarrow> us_role x = da_role a
             \<and> (\<forall>t \<ge> clock - thirty_days. set (scope_of db t (us_id x)) = set_option (da_scope a))))"

definition same_user :: "script_lib \<Rightarrow> demo_account \<Rightarrow> string \<Rightarrow> user_row \<Rightarrow> user_row \<Rightarrow> bool" where
  "same_user lib a pw x x' \<longleftrightarrow> x' = x \<or> us_email x = da_email a \<and> sl_verify lib pw (us_password_hash x) = Inr False
     \<and> x' = x\<lparr>us_password_hash := sl_hash lib (da_email a) pw\<rparr>"

lemma keeps_scopes_refl: "keeps_scopes db db"
  by (simp add: keeps_scopes_def)

lemma keeps_scopes_trans: "keeps_scopes db db1 \<Longrightarrow> keeps_scopes db1 db2 \<Longrightarrow> keeps_scopes db db2"
  by (auto simp: keeps_scopes_def)

lemma with_account_keeps_scopes:
  assumes "ids_fresh db"
  shows "keeps_scopes db (with_account lib now clock a pw db)"
proof (cases "da_scope a")
  case None
  then show ?thesis by (simp add: keeps_scopes_def with_account_def Let_def scope_of_def)
next
  case (Some pair)
  have "set (scope_of (with_account lib now clock a pw db) t uid) = set (scope_of db t uid)" if "uid < t_next db" for uid t
    by (rule scope_of_append_other [of _ _ "subscription_from (Suc (t_next db)) (t_next db) clock now" pair])
      (use that assms Some in \<open>auto simp: with_account_def Let_def subscription_from_def ids_fresh_def\<close>)
  then show ?thesis by (simp add: keeps_scopes_def) (simp add: with_account_def Some Let_def)
qed

lemma with_account_own_scope:
  assumes "ids_fresh db" "clock - thirty_days \<le> t"
  shows "set (scope_of (with_account lib now clock a pw db) t (t_next db)) = set_option (da_scope a)"
proof (cases "da_scope a")
  case None
  have "sub_user s \<noteq> t_next db" if "s \<in> set (subscriptions db)" for s
    using that assms(1) by (auto simp: ids_fresh_def)
  then show ?thesis using None by (auto simp: with_account_def Let_def scope_of_def)
next
  case (Some pair)
  then have "set (scope_of (with_account lib now clock a pw db) t (t_next db)) = {pair}"
    by (intro scope_of_append_own [of _ _ "subscription_from (Suc (t_next db)) (t_next db) clock now" pair])
      (use assms in \<open>auto simp: with_account_def Let_def subscription_from_def ids_fresh_def\<close>)
  then show ?thesis by (simp add: Some)
qed

lemma find_by_email_append:
  "users db' = users db @ [r] \<Longrightarrow>
     find_by_email db' e = (case find_by_email db e of Some x \<Rightarrow> Some x | None \<Rightarrow> if us_email r = e then Some r else None)"
proof -
  have "List.find P (xs @ [r]) = (case List.find P xs of Some x \<Rightarrow> Some x | None \<Rightarrow> if P r then Some r else None)"
    for P :: "user_row \<Rightarrow> bool" and xs
    by (induction xs) auto
  then show "users db' = users db @ [r] \<Longrightarrow> ?thesis" by (simp add: find_by_email_def)
qed

lemma find_by_email_rotate:
  "find_by_email (rotate_password lib e pw db) e' =
     map_option (\<lambda>r. if us_email r = e then r\<lparr>us_password_hash := sl_hash lib e pw\<rparr> else r) (find_by_email db e')"
proof -
  have "List.find (\<lambda>r. us_email r = e') (map (\<lambda>r. if us_email r = e then r\<lparr>us_password_hash := h\<rparr> else r) xs) =
      map_option (\<lambda>r. if us_email r = e then r\<lparr>us_password_hash := h\<rparr> else r) (List.find (\<lambda>r. us_email r = e') xs)" for h xs
    by (induction xs) auto
  then show ?thesis by (simp add: find_by_email_def rotate_password_def)
qed

lemma provision_step:
  assumes run: "create_or_rotate lib now clock a pw db = Inr (db1, out)"
    and fresh: "ids_fresh db" and dist: "distinct (map us_email (users db))" and ok: "hashes_verify lib"
  shows "ids_fresh db1" "distinct (map us_email (users db1))" "keeps_scopes db db1"
    and "\<And>e. e \<noteq> da_email a \<Longrightarrow> find_by_email db1 e = find_by_email db e"
    and "provisioned lib clock a pw out db1"
    and "x \<in> set (users db) \<Longrightarrow> \<exists>x' \<in> set (users db1). same_user lib a pw x x'"
    and "find_by_email db (da_email a) = None \<Longrightarrow> out = Created"
    and "x' \<in> set (users db1) \<Longrightarrow> us_email x' = da_email a \<or> us_email x' \<in> us_email ` set (users db)"
proof -
  have eq: "(case find_by_email db (da_email a) of
       None \<Rightarrow> Inr (with_account lib now clock a pw db, Created)
     | Some x \<Rightarrow> bindE (sl_verify lib pw (us_password_hash x)) (\<lambda>same.
         if same then Inr (db, Unchanged) else Inr (rotate_password lib (da_email a) pw db, Rotated))) = Inr (db1, out)"
    using run unfolding create_or_rotate_eq [OF fresh] .
  have all: "ids_fresh db1 \<and> distinct (map us_email (users db1)) \<and> keeps_scopes db db1
    \<and> (\<forall>e. e \<noteq> da_email a \<longrightarrow> find_by_email db1 e = find_by_email db e)
    \<and> provisioned lib clock a pw out db1
    \<and> (\<forall>x \<in> set (users db). \<exists>x' \<in> set (users db1). same_user lib a pw x x')
    \<and> (find_by_email db (da_email a) = None \<longrightarrow> out = Created)
    \<and> (\<forall>x' \<in> set (users db1). us_email x' = da_email a \<or> us_email x' \<in> us_email ` set (users db))"
  proof (cases "find_by_email db (da_email a)")
    case None
    then have db1: "db1 = with_account lib now clock a pw db" "out = Created" using eq by auto
    have new: "us_email (new_user lib now a pw i) = da_email a" "us_role (new_user lib now a pw i) = da_role a"
      "us_id (new_user lib now a pw i) = i" "us_password_hash (new_user lib now a pw i) = sl_hash lib (da_email a) pw" for i
      by (simp_all add: new_user_def)
    have find: "find_by_email db1 e = (if e = da_email a then Some (new_user lib now a pw (t_next db)) else find_by_email db e)" for e
      using None by (simp add: db1 find_by_email_append [OF users_with_account] new split: option.split)
    have "provisioned lib clock a pw out db1"
      using ok with_account_own_scope [OF fresh]
      by (simp add: provisioned_def find new hashes_verify_def) (simp add: db1)
    moreover have "distinct (map us_email (users db1))"
      using dist None by (auto simp: db1 new find_by_email_None)
    ultimately show ?thesis
      using fresh by (simp add: db1(1) db1(2) with_account_fresh with_account_keeps_scopes find [unfolded db1(1)] same_user_def new)
        blast
  next
    case (Some y)
    have y: "y \<in> set (users db)" "us_email y = da_email a" using find_by_email_SomeD [OF Some] by auto
    have inj: "inj_on us_email (set (users db))" using dist by (simp add: distinct_map)
    have only: "x = y" if "x \<in> set (users db)" "us_email x = da_email a" for x
      using inj_onD [OF inj _ that(1) y(1)] that(2) y(2) by simp
    obtain same where v: "sl_verify lib pw (us_password_hash y) = Inr same" using eq Some by (auto simp: bindE_eq_Inr)
    show ?thesis
    proof (cases same)
      case True
      then have "db1 = db" "out = Unchanged" using eq Some v by auto
      then show ?thesis using fresh dist Some v True
        by (auto simp: keeps_scopes_refl provisioned_def same_user_def)
    next
      case False
      then have db1: "db1 = rotate_password lib (da_email a) pw db" "out = Rotated" using eq Some v by auto
      have us: "users db1 = map (\<lambda>r. if us_email r = da_email a then r\<lparr>us_password_hash := sl_hash lib (da_email a) pw\<rparr> else r) (users db)"
        by (simp add: db1 rotate_password_def)
      have em: "map us_email (users db1) = map us_email (users db)" by (simp add: us)
      have same: "\<exists>x' \<in> set (users db1). same_user lib a pw x x'" if x: "x \<in> set (users db)" for x
      proof (cases "us_email x = da_email a")
        case True
        then show ?thesis using x v False only [OF x True]
          by (intro bexI [of _ "x\<lparr>us_password_hash := sl_hash lib (da_email a) pw\<rparr>"]) (auto simp: same_user_def us)
      next
        case False
        then show ?thesis using x by (intro bexI [of _ x]) (force simp: same_user_def us)+
      qed
      have keep: "keeps_scopes db db1" by (simp add: keeps_scopes_def db1 rotate_password_def scope_of_def)
      have other: "find_by_email db1 e = find_by_email db e" if "e \<noteq> da_email a" for e
        using that find_by_email_SomeD [of db e] by (auto simp: db1 find_by_email_rotate option.map_ident_strong intro!: option.map_ident_strong)
      have prov: "provisioned lib clock a pw out db1"
        using ok y by (simp add: provisioned_def db1 find_by_email_rotate Some hashes_verify_def)
      have from_old: "us_email x' \<in> us_email ` set (users db)" if "x' \<in> set (users db1)" for x'
        using that y by (force simp: us)
      show ?thesis using rotate_fresh [OF fresh] dist em keep other prov same from_old Some by (simp add: db1(1))
    qed
  qed
  show "ids_fresh db1" "distinct (map us_email (users db1))" "keeps_scopes db db1" "provisioned lib clock a pw out db1"
    using all by blast+
  show "find_by_email db1 e = find_by_email db e" if "e \<noteq> da_email a" for e using all that by blast
  show "\<exists>x' \<in> set (users db1). same_user lib a pw x x'" if "x \<in> set (users db)" using all that by blast
  show "out = Created" if "find_by_email db (da_email a) = None" using all that by blast
  show "us_email x' = da_email a \<or> us_email x' \<in> us_email ` set (users db)" if "x' \<in> set (users db1)" using all that by blast
qed

section \<open>All accounts\<close>

lemma provision_all_ConsD:
  assumes "provision_all lib now clock resolved db (a # as) = Inr (db', outs)"
  obtains pw db1 out outs' where "resolved (da_email a) = Some pw"
    "create_or_rotate lib now clock a pw db = Inr (db1, out)"
    "provision_all lib now clock resolved db1 as = Inr (db', outs')" "outs = (da_email a, out) # outs'"
  using assms by (auto simp: bindE_eq_Inr lookup_password_def split: option.splits)

lemma provision_all_frame:
  assumes "provision_all lib now clock resolved db as = Inr (db', outs)" "hashes_verify lib"
    and "ids_fresh db" "distinct (map us_email (users db))"
  shows "ids_fresh db' \<and> distinct (map us_email (users db')) \<and> keeps_scopes db db' \<and> map fst outs = map da_email as
    \<and> (\<forall>e. e \<notin> da_email ` set as \<longrightarrow> find_by_email db' e = find_by_email db e)
    \<and> us_email ` set (users db') \<subseteq> us_email ` set (users db) \<union> da_email ` set as"
  using assms
proof (induction as arbitrary: db outs)
  case Nil
  then show ?case by (simp add: keeps_scopes_refl)
next
  case (Cons a as)
  obtain pw db1 out outs' where st: "resolved (da_email a) = Some pw"
    "create_or_rotate lib now clock a pw db = Inr (db1, out)"
    "provision_all lib now clock resolved db1 as = Inr (db', outs')" "outs = (da_email a, out) # outs'"
    by (rule provision_all_ConsD [OF Cons.prems(1)])
  note s = provision_step [OF st(2) Cons.prems(3,4,2)]
  have em: "us_email ` set (users db1) \<subseteq> us_email ` set (users db) \<union> {da_email a}" using s(8) by auto
  note ih = Cons.IH [OF st(3) Cons.prems(2) s(1,2)]
  have "us_email ` set (users db') \<subseteq> us_email ` set (users db) \<union> da_email ` set (a # as)"
    using em ih by (simp del: image_subset_iff) blast
  moreover have "keeps_scopes db db'" using keeps_scopes_trans [OF s(3)] ih by blast
  moreover have "\<forall>e. e \<notin> da_email ` set (a # as) \<longrightarrow> find_by_email db' e = find_by_email db e"
    using s(4) ih by simp
  ultimately show ?case using ih st(4) by simp
qed

lemma find_in_users: "find_by_email db e = Some x \<Longrightarrow> x \<in> set (users db)"
  by (simp add: find_by_email_SomeD)

text \<open>A user is rotated at most once, and only when the new password does not fit.\<close>

lemma provision_all_users:
  assumes "provision_all lib now clock resolved db as = Inr (db', outs)" "hashes_verify lib"
    and "ids_fresh db" "distinct (map us_email (users db))" "distinct (map da_email as)" "x \<in> set (users db)"
  shows "\<exists>x' \<in> set (users db'). x' = x \<or>
    (\<exists>a \<in> set as. \<exists>pw. resolved (da_email a) = Some pw \<and> us_email x = da_email a
       \<and> sl_verify lib pw (us_password_hash x) = Inr False
       \<and> x' = x\<lparr>us_password_hash := sl_hash lib (da_email a) pw\<rparr>)"
  using assms
proof (induction as arbitrary: db outs)
  case Nil
  then show ?case by auto
next
  case (Cons a as)
  obtain pw db1 out outs' where st: "resolved (da_email a) = Some pw"
    "create_or_rotate lib now clock a pw db = Inr (db1, out)"
    "provision_all lib now clock resolved db1 as = Inr (db', outs')" "outs = (da_email a, out) # outs'"
    by (rule provision_all_ConsD [OF Cons.prems(1)])
  note s = provision_step [OF st(2) Cons.prems(3,4,2)]
  obtain x1 where x1: "x1 \<in> set (users db1)" "same_user lib a pw x x1" using s(6) [OF Cons.prems(6)] by blast
  show ?case
  proof (cases "x1 = x")
    case True
    then show ?thesis using Cons.IH [OF st(3) Cons.prems(2) s(1,2) _ x1(1) [unfolded True]] Cons.prems(5) by auto
  next
    case False
    then have r: "us_email x = da_email a" "sl_verify lib pw (us_password_hash x) = Inr False"
      "x1 = x\<lparr>us_password_hash := sl_hash lib (da_email a) pw\<rparr>" using x1(2) by (auto simp: same_user_def)
    have "find_by_email db1 (da_email a) = Some x1"
      using x1(1) r by (simp add: find_by_email_iff [OF s(2)])
    then have "x1 \<in> set (users db')"
      using provision_all_frame [OF st(3) Cons.prems(2) s(1,2)] Cons.prems(5) find_in_users by force
    then show ?thesis using r st(1) by auto
  qed
qed

lemma provisioned_later:
  assumes "provisioned lib clock a pw out db" "ids_fresh db" "keeps_scopes db db'"
    and "find_by_email db' (da_email a) = find_by_email db (da_email a)"
  shows "provisioned lib clock a pw out db'"
proof -
  obtain x where x: "find_by_email db (da_email a) = Some x" "sl_verify lib pw (us_password_hash x) = Inr True"
    "out = Created \<longrightarrow> us_role x = da_role a
             \<and> (\<forall>t \<ge> clock - thirty_days. set (scope_of db t (us_id x)) = set_option (da_scope a))"
    using assms(1) by (auto simp: provisioned_def)
  have "us_id x < t_next db" using find_in_users [OF x(1)] assms(2) by (simp add: ids_fresh_def)
  then show ?thesis using x assms(3,4) by (simp add: provisioned_def keeps_scopes_def)
qed

lemma provision_all_provisioned:
  assumes "provision_all lib now clock resolved db as = Inr (db', outs)" "hashes_verify lib"
    and "ids_fresh db" "distinct (map us_email (users db))" "distinct (map da_email as)" "a \<in> set as"
  shows "\<exists>pw out. resolved (da_email a) = Some pw \<and> (da_email a, out) \<in> set outs \<and> provisioned lib clock a pw out db'
    \<and> (find_by_email db (da_email a) = None \<longrightarrow> out = Created)"
  using assms
proof (induction as arbitrary: db outs)
  case Nil
  then show ?case by simp
next
  case (Cons b as)
  obtain pw db1 out outs' where st: "resolved (da_email b) = Some pw"
    "create_or_rotate lib now clock b pw db = Inr (db1, out)"
    "provision_all lib now clock resolved db1 as = Inr (db', outs')" "outs = (da_email b, out) # outs'"
    by (rule provision_all_ConsD [OF Cons.prems(1)])
  note s = provision_step [OF st(2) Cons.prems(3,4,2)]
  show ?case
  proof (cases "a = b")
    case True
    have "da_email b \<notin> da_email ` set as" using Cons.prems(5) by auto
    then have "provisioned lib clock b pw out db'"
      using provisioned_later [OF s(5,1)] provision_all_frame [OF st(3) Cons.prems(2) s(1,2)] by blast
    then show ?thesis using True st s(7) by auto
  next
    case False
    then have a: "a \<in> set as" using Cons.prems(6) by simp
    then have "da_email a \<in> da_email ` set as" by (rule imageI)
    then have "da_email a \<noteq> da_email b" using Cons.prems(5) by auto
    then show ?thesis
      using Cons.IH [OF st(3) Cons.prems(2) s(1,2) _ a] Cons.prems(5) st(4) s(4) [of "da_email a"] by auto
  qed
qed

text \<open>The loop gets through when no stored hash is corrupted.\<close>

lemma provision_all_total:
  assumes "\<And>p h. \<exists>b. sl_verify lib p h = Inr b" "hashes_verify lib"
    and "ids_fresh db" "distinct (map us_email (users db))" "\<forall>a \<in> set as. resolved (da_email a) \<noteq> None"
  shows "\<exists>db' outs. provision_all lib now clock resolved db as = Inr (db', outs)"
  using assms(3-5)
proof (induction as arbitrary: db)
  case Nil
  then show ?case by simp
next
  case (Cons a as)
  obtain pw where pw: "resolved (da_email a) = Some pw" using Cons.prems(3) by auto
  obtain db1 out where st: "create_or_rotate lib now clock a pw db = Inr (db1, out)"
  proof (cases "find_by_email db (da_email a)")
    case None
    then show thesis using that by (simp add: create_or_rotate_eq [OF Cons.prems(1)])
  next
    case (Some x)
    obtain b where "sl_verify lib pw (us_password_hash x) = Inr b" using assms(1) by blast
    then show thesis using that Some by (cases b) (auto simp: create_or_rotate_eq [OF Cons.prems(1)])
  qed
  note s = provision_step [OF st Cons.prems(1,2) assms(2)]
  show ?case using Cons.IH [OF s(1,2)] Cons.prems(3) pw st by (auto simp: lookup_password_def)
qed

text \<open>On a database that fits all passwords the loop does nothing.\<close>

lemma provision_all_idle:
  assumes "ids_fresh db"
    and "\<forall>a \<in> set as. \<exists>pw x. resolved (da_email a) = Some pw \<and> find_by_email db (da_email a) = Some x
           \<and> sl_verify lib pw (us_password_hash x) = Inr True"
  shows "provision_all lib now clock resolved db as = Inr (db, map (\<lambda>a. (da_email a, Unchanged)) as)"
  using assms(2) by (induction as) (auto simp: lookup_password_def create_or_rotate_eq [OF assms(1)])

section \<open>The whole run\<close>

lemma downgrade_candidates_Nil:
  assumes "downgrade_candidates lib resolved dflt db as = Inr []" "a \<in> set as" "da_email a \<in> dflt"
    and "resolved (da_email a) = Some pw" "find_by_email db (da_email a) = Some x"
  shows "sl_verify lib pw (us_password_hash x) = Inr True"
proof -
  have "filterE (would_downgrade lib resolved dflt db) as = Inr []"
    using assms(1) by (auto simp: downgrade_candidates_def bindE_eq_Inr)
  then have "would_downgrade lib resolved dflt db a = Inr False"
    using assms(2) by (induction as) (auto simp: bindE_eq_Inr split: if_splits)
  then show ?thesis
    using assms(3-5) by (auto simp: would_downgrade_def existing_password_hash_def lookup_password_def bindE_eq_Inr)
qed

lemma downgrade_candidates_idle:
  assumes "\<forall>a \<in> set as. \<exists>pw x. resolved (da_email a) = Some pw \<and> find_by_email db (da_email a) = Some x
           \<and> sl_verify lib pw (us_password_hash x) = Inr True"
  shows "downgrade_candidates lib resolved dflt db as = Inr []"
proof -
  have "would_downgrade lib resolved dflt db a = Inr False" if "a \<in> set as" for a
    using that assms by (auto simp: would_downgrade_def existing_password_hash_def lookup_password_def)
  then have "filterE (would_downgrade lib resolved dflt db) as = Inr (filter (\<lambda>_. False) as)"
    by (rule filterE_total)
  then show ?thesis by (simp add: downgrade_candidates_def)
qed

text \<open>The three ways a run ends: it never reaches the database, it is refused, or it provisions.\<close>

lemma demo_main_cases:
  assumes "demo_main lib env args now clock db = (db', r)"
  obtains (untouched) "db' = db" "\<And>outs. r \<noteq> Inr (0, outs)"
  | (refused) db1 resolved dflt blocked where "legacy_sweep db = Inr db1"
      "(if dm_reset args then demo_teardown db1 else Inr db1) = Inr db'" "r = Inr (1, [])"
      "resolve_passwords env (dm_defaults args) demo_accounts = (resolved, [], dflt)"
      "downgrade_candidates lib resolved dflt db' demo_accounts = Inr blocked" "blocked \<noteq> []"
  | (provided) raw db1 db2 resolved dflt outs where "env ''HORIZONS_DB_URL'' = Some raw" "raw \<noteq> []"
      "sl_connect lib (normalise_db_url raw) = Inr ()" "legacy_sweep db = Inr db1"
      "(if dm_reset args then demo_teardown db1 else Inr db1) = Inr db2"
      "resolve_passwords env (dm_defaults args) demo_accounts = (resolved, [], dflt)"
      "downgrade_candidates lib resolved dflt db2 demo_accounts = Inr []"
      "provision_all lib now clock resolved db2 demo_accounts = Inr (db', outs)" "r = Inr (0, outs)"
proof (cases "\<exists>raw. env ''HORIZONS_DB_URL'' = Some raw \<and> raw \<noteq> []")
  case False
  then have "db' = db" "r = Inr (1, [])" using assms by (auto simp: demo_main_def split: option.splits if_splits)
  then show thesis by (intro untouched) auto
next
  case True
  then obtain raw where raw: "env ''HORIZONS_DB_URL'' = Some raw" "raw \<noteq> []" by blast
  obtain resolved missing dflt where res: "resolve_passwords env (dm_defaults args) demo_accounts = (resolved, missing, dflt)"
    by (metis prod_cases3)
  show thesis
  proof (cases "missing = []")
    case False
    then have "db' = db" "r = Inr (1, [])" using assms raw res by (auto simp: demo_main_def)
    then show thesis by (intro untouched) auto
  next
    case True
    show thesis
    proof (cases "sl_connect lib (normalise_db_url raw)")
      case (Inl e)
      then have "db' = db" "r = Inl e" using assms raw res True by (auto simp: demo_main_def)
      then show thesis by (intro untouched) auto
    next
      case (Inr un)
      have t: "transaction (demo_body lib (dm_reset args) now clock (resolved, [], dflt)) db = (db', r)"
        using assms raw res True Inr by (simp add: demo_main_def)
      show thesis
      proof (cases "demo_body lib (dm_reset args) now clock (resolved, [], dflt) db")
        case (Inl e)
        then have "db' = db" "r = Inl e" using t by (auto simp: transaction_def)
        then show thesis by (intro untouched) auto
      next
        case (Inr v)
        then have v: "v = (db', snd v)" "r = Inr (snd v)" using t by (auto simp: transaction_def split: prod.splits)
        then have body: "demo_body lib (dm_reset args) now clock (resolved, [], dflt) db = Inr (db', snd v)"
          using Inr by simp
        then obtain db1 db2 blocked where b: "legacy_sweep db = Inr db1"
          "(if dm_reset args then demo_teardown db1 else Inr db1) = Inr db2"
          "downgrade_candidates lib resolved dflt db2 demo_accounts = Inr blocked"
          "(if blocked \<noteq> [] then Inr (db2, 1, [])
             else bindE (provision_all lib now clock resolved db2 demo_accounts) (\<lambda>(db3, outs). Inr (db3, 0, outs)))
            = Inr (db', snd v)"
          by (auto simp only: demo_body_def prod.case bindE_eq_Inr)
        show thesis
        proof (cases "blocked = []")
          case False
          then have "db2 = db'" "r = Inr (1, [])" using b(4) v(2) by auto
          then show thesis using refused [OF b(1) _ _ res [unfolded True]] b(2,3) False by blast
        next
          case bl: True
          then obtain outs where o: "provision_all lib now clock resolved db2 demo_accounts = Inr (db', outs)" "snd v = (0, outs)"
            using b(4) by (auto simp: bindE_eq_Inr)
          show thesis
            using provided [OF raw _ b(1,2) res [unfolded True] b(3) [unfolded bl] o(1)] \<open>sl_connect lib (normalise_db_url raw) = Inr un\<close> v(2) o(2)
            by simp
        qed
      qed
    qed
  qed
qed

text \<open>What a run finds before it provisions.\<close>

lemma swept_state:
  assumes "legacy_sweep db = Inr db1" "(if reset then demo_teardown db1 else Inr db1) = Inr db2"
    and "ids_fresh db" "distinct (map us_email (users db))"
  shows "ids_fresh db2" "distinct (map us_email (users db2))"
    and "users db2 = filter (\<lambda>r. unlike legacy_like r \<and> (reset \<longrightarrow> unlike demo_like r)) (users db)"
proof -
  have k: "shrinks (\<lambda>r. unlike legacy_like r \<and> (reset \<longrightarrow> unlike demo_like r)) db db2"
  proof (cases reset)
    case True
    then have "shrinks (\<lambda>r. unlike demo_like r \<and> unlike legacy_like r) db1 db2"
      using assms(2) demo_teardown_shrinks by simp
    from shrinks_trans [OF legacy_sweep_shrinks [OF assms(1)] this] True
    show ?thesis by (simp add: shrinks_def conj_ac cong: filter_cong)
  next
    case False
    then show ?thesis using legacy_sweep_shrinks [OF assms(1)] assms(2) by simp
  qed
  show "ids_fresh db2" by (rule shrinks_fresh [OF k assms(3)])
  show "distinct (map us_email (users db2))" by (rule shrinks_distinct [OF k assms(4)])
  show "users db2 = filter (\<lambda>r. unlike legacy_like r \<and> (reset \<longrightarrow> unlike demo_like r)) (users db)"
    using k by (simp add: shrinks_def)
qed

lemma demo_emails_like: "a \<in> set demo_accounts \<Longrightarrow> like_match demo_like (da_email a)"
  by (auto simp: demo_accounts_def demo_like_def)

lemma demo_emails_not_legacy: "a \<in> set demo_accounts \<Longrightarrow> \<not> like_match legacy_like (da_email a)"
  by (auto simp: demo_accounts_def legacy_like_def)

lemma login_with_password:
  assumes "find_by_email db e = Some x" "sl_verify lib pw (us_password_hash x) = Inr True" "ids_fresh db"
  shows "\<exists>db' resp. login_request (sl_verify lib) dummy jlib cfg t e pw ct db = (db', Inr resp)"
proof -
  have ls: "login_session t = Inr \<lparr>ss_role = Api_app, ss_user = None, ss_admin = None, ss_now = t\<rparr>"
    by (simp add: login_session_def set_local_role_def role_of_name_def unauthenticated_session_def)
  have cl: "client_of (bind_app_user_id (us_id x) \<lparr>ss_role = Api_app, ss_user = None, ss_admin = None, ss_now = t\<rparr>) (us_id x)"
    by (simp add: client_of_def bind_app_user_id_def)
  have ex: "user_exists db (us_id x)" using find_in_users [OF assms(1)] by (auto simp: user_exists_def)
  have fresh: "\<forall>r \<in> set (refresh_tokens db). rt_jti r < t_next db" using assms(3) by (simp add: ids_fresh_def)
  show ?thesis
    by (simp add: login_request_def transaction_def ls login_def assms(1,2) issue_pair_fresh [OF cl ex fresh])
qed

lemma demo_main_wf:
  assumes "demo_main lib env args now clock db = (db', r)" "hashes_verify lib" "ids_fresh db"
    and "distinct (map us_email (users db))"
  shows "ids_fresh db' \<and> distinct (map us_email (users db'))"
  using assms(1)
proof (cases rule: demo_main_cases)
  case untouched
  then show ?thesis using assms(3,4) by simp
next
  case (refused db1 resolved dflt blocked)
  then show ?thesis using swept_state [OF refused(1,2) assms(3,4)] by blast
next
  case (provided raw db1 db2 resolved dflt outs)
  note sw = swept_state [OF provided(4,5) assms(3,4)]
  show ?thesis using provision_all_frame [OF provided(8) assms(2) sw(1,2)] by blast
qed

end
