(* ===== verification/E2e_Correct.thy ===== *)
theory E2e_Correct
  imports E2e Demo_Correct
begin

text \<open>
  What a run of \<open>seed_e2e.py\<close> leaves: the effect of each statement on a database whose ids are fresh, the
  effect of the seed, and the reach of the teardown's pattern.
\<close>

section \<open>Text\<close>

lemma pg_text_u: "CHR 0x00 \<notin> set s \<Longrightarrow> pg_text (u s)"
proof -
  assume s: "CHR 0x00 \<notin> set s"
  have "(of_char c :: nat) < 256" for c
    using mod_less_divisor [of 256 "of_char c :: nat"] unfolding of_char_mod_256 by simp
  then have "\<not> surrogate (of_char c)" for c :: char
    using less_le_trans [of "of_char c :: nat" 256 55296] by (fastforce simp: surrogate_def)
  moreover have "(of_char c :: nat) \<noteq> 0" if "c \<in> set s" for c
  proof
    assume "(of_char c :: nat) = 0"
    then have "c = char_of (0 :: nat)" by (metis char_of_char)
    then show False using that s by (simp add: char_of_def)
  qed
  ultimately show ?thesis by (auto simp: pg_text_def u_def)
qed

section \<open>Each statement\<close>

definition corpus_fresh :: "corpus \<Rightarrow> bool" where
  "corpus_fresh lb \<longleftrightarrow> (\<forall>d \<in> set (documents lb). d_id d < next_uuid lb)
     \<and> (\<forall>v \<in> set (versions lb). v_id v < next_uuid lb \<and> v_document v < next_uuid lb)
     \<and> (\<forall>c \<in> set (clauses lb). c_version c < next_uuid lb)"

lemma make_user_eq:
  "find_by_email db email = None \<Longrightarrow> make_user lib now email password db =
     Inr (db\<lparr>users := users db @ [\<lparr>us_id = t_next db, us_email = email, us_password_hash = sl_hash lib email password,
            us_role = Client, us_created = now\<rparr>], t_next := Suc (t_next db)\<rparr>, t_next db)"
  by (auto simp: make_user_def insert_user_def find_by_email_None)

definition e2e_document :: "corpus \<Rightarrow> timestamp \<Rightarrow> string \<Rightarrow> string \<Rightarrow> string \<Rightarrow> string \<Rightarrow> document_row" where
  "e2e_document lb now lid j s title =
     \<lparr>d_id = next_uuid lb, d_jurisdiction = j, d_sector = s, d_lawstronaut = lid, d_title = title, d_created = now\<rparr>"

definition with_e2e_document ::
  "(string \<Rightarrow> bytes) \<Rightarrow> timestamp \<Rightarrow> timestamp \<Rightarrow> string \<Rightarrow> string \<Rightarrow> string \<Rightarrow> string \<Rightarrow> corpus \<Rightarrow> corpus" where
  "with_e2e_document sha now clock lid j s title lb =
     lb\<lparr>documents := documents lb @ [e2e_document lb now lid j s title],
        versions := versions lb @
          [(e2e_version sha (next_uuid lb) lid ''v1'' (clock - thirty_days))\<lparr>v_id := Suc (next_uuid lb)\<rparr>,
           (e2e_version sha (next_uuid lb) lid ''v2'' clock)\<lparr>v_id := Suc (Suc (next_uuid lb))\<rparr>],
        next_uuid := Suc (Suc (Suc (next_uuid lb)))\<rparr>"

lemma u_inj: "u a = u b \<longleftrightarrow> a = b"
  by (metis inj_map_eq_map inj_of_char u_def)

lemma make_doc_eq:
  assumes "\<forall>r \<in> set (documents (library db)). d_lawstronaut r \<noteq> lid" "corpus_fresh (library db)"
    and "\<And>x. length (sha x) = 32"
  shows "\<exists>vc. make_doc_with_versions sha now clock lid j s title db =
    Inr (db\<lparr>library := with_e2e_document sha now clock lid j s title (library db), version_created := vc\<rparr>,
         next_uuid (library db), Suc (next_uuid (library db)), Suc (Suc (next_uuid (library db))))"
proof -
  have "v_document r \<noteq> next_uuid (library db)" if "r \<in> set (versions (library db))" for r
    using that assms(2) by (auto simp: corpus_fresh_def)
  then show ?thesis
    using assms(1,3)
    by (auto simp: make_doc_with_versions_def on_library_def insert_e2e_document_def insert_e2e_version_def
        insert_version_row_def e2e_version_def u_inj with_e2e_document_def e2e_document_def)
qed

lemma with_e2e_document_fresh: "corpus_fresh lb \<Longrightarrow> corpus_fresh (with_e2e_document sha now clock lid j s title lb)"
  by (auto simp: corpus_fresh_def with_e2e_document_def e2e_document_def e2e_version_def less_SucI)

definition e2e_texts_ok :: "(string \<times> string) list \<Rightarrow> bool" where
  "e2e_texts_ok cs \<longleftrightarrow> distinct (map fst cs) \<and> (\<forall>(p, t) \<in> set cs. CHR 0x00 \<notin> set p \<and> CHR 0x00 \<notin> set t)"

lemma insert_e2e_clauses_eq:
  assumes "e2e_texts_ok cs" "\<exists>v \<in> set (versions lb). v_id v = vid"
    and "\<forall>c \<in> set (clauses lb). c_version c = vid \<longrightarrow> c_path c \<notin> u ` fst ` set cs"
  shows "\<exists>rows. insert_e2e_clauses vid k cs lb =
      Inr (lb\<lparr>clauses := clauses lb @ rows, next_uuid := next_uuid lb + length cs\<rparr>)
    \<and> (\<forall>r \<in> set rows. c_version r = vid)"
  using assms
proof (induction cs arbitrary: lb k)
  case Nil
  then show ?case by (intro exI [of _ "[]"]) simp
next
  case (Cons pt cs)
  obtain p t where pt: "pt = (p, t)" by fastforce
  let ?r = "\<lparr>c_version = vid, c_uid = next_uuid lb, c_path = u p, c_text = u t, c_heading = None, c_label = None, c_ord = k\<rparr>"
  let ?lb = "lb\<lparr>clauses := clauses lb @ [?r], next_uuid := Suc (next_uuid lb)\<rparr>"
  have pgt: "pg_text (u p)" "pg_text (u t)" using Cons.prems(1) by (auto simp: pt e2e_texts_ok_def pg_text_u)
  have new: "\<not> (\<exists>r \<in> set (clauses lb). c_version r = vid \<and> c_path r = u p)"
    using Cons.prems(3) by (auto simp: pt)
  have ins: "insert_clause (lb\<lparr>next_uuid := Suc (next_uuid lb)\<rparr>) ?r = Inr ?lb"
    using pgt new Cons.prems(2) by (auto simp: insert_clause_def pg_text_opt_def)
  have ok: "e2e_texts_ok cs" using Cons.prems(1) by (simp add: e2e_texts_ok_def)
  have fresh: "\<forall>c \<in> set (clauses ?lb). c_version c = vid \<longrightarrow> c_path c \<notin> u ` fst ` set cs"
    using Cons.prems(1,3) by (auto simp: pt e2e_texts_ok_def u_inj intro: rev_image_eqI)
  obtain rows where rows: "insert_e2e_clauses vid (Suc k) cs ?lb =
      Inr (?lb\<lparr>clauses := clauses ?lb @ rows, next_uuid := next_uuid ?lb + length cs\<rparr>)" "\<forall>r \<in> set rows. c_version r = vid"
    using Cons.IH [OF ok _ fresh, of "Suc k"] Cons.prems(2) by auto
  show ?case
    by (intro exI [of _ "?r # rows"]) (use rows ins in \<open>simp add: pt\<close>)
qed

lemma fixture_clauses_eq:
  assumes "e2e_texts_ok cs" "\<exists>v \<in> set (versions (library db)). v_id v = vid"
    and "\<forall>c \<in> set (clauses (library db)). c_version c \<noteq> vid"
  obtains lb where "insert_clauses vid cs db = Inr (db\<lparr>library := lb\<rparr>)"
    "documents lb = documents (library db)" "versions lb = versions (library db)"
    "\<And>w. \<forall>c \<in> set (clauses (library db)). c_version c \<noteq> w \<Longrightarrow> w \<noteq> vid \<Longrightarrow> \<forall>c \<in> set (clauses lb). c_version c \<noteq> w"
proof -
  obtain rows where "insert_e2e_clauses vid 1 cs (library db) =
      Inr ((library db)\<lparr>clauses := clauses (library db) @ rows, next_uuid := next_uuid (library db) + length cs\<rparr>)"
    "\<forall>r \<in> set rows. c_version r = vid"
    using insert_e2e_clauses_eq [OF assms(1,2), of 1] assms(3) by blast
  then show ?thesis
    by (intro that [of "(library db)\<lparr>clauses := clauses (library db) @ rows, next_uuid := next_uuid (library db) + length cs\<rparr>"])
      (auto simp: insert_clauses_def)
qed

definition event_texts_ok :: "fixture_event \<Rightarrow> bool" where
  "event_texts_ok f \<longleftrightarrow> CHR 0x00 \<notin> set (fe_before_path f) \<and> CHR 0x00 \<notin> set (fe_after_path f)
     \<and> CHR 0x00 \<notin> set (fe_before f) \<and> CHR 0x00 \<notin> set (fe_after f) \<and> 0 < fe_confidence f \<and> fe_confidence f \<le> 1"

lemma emit_change_event_eq:
  assumes "event_texts_ok f" "\<exists>r \<in> set (documents (library db)). d_id r = d"
    and "\<exists>r \<in> set (versions (library db)). v_id r = v" "\<forall>x \<in> set (change_events db). ev_id x \<noteq> eid"
  shows "emit_change_event eid clock d v pair f db =
    Inr (db\<lparr>change_events := change_events db @ [stored_fixture eid clock d v pair f]\<rparr>)"
  using assms
  by (auto simp: emit_change_event_def insert_change_event_def event_row.truncate_def stored_fixture_def
      event_texts_ok_def pg_text_opt_def pg_text_u Let_def)

section \<open>The seed\<close>

definition e2e_ledger :: "script_lib \<Rightarrow> timestamp \<Rightarrow> timestamp \<Rightarrow> timestamp \<Rightarrow> api_db \<Rightarrow> api_db" where
  "e2e_ledger lib now c0 c1 db =
     (let n = t_next db in
      db\<lparr>users := users db @
           [\<lparr>us_id = n, us_email = uk_email, us_password_hash = sl_hash lib uk_email uk_password,
             us_role = Client, us_created = now\<rparr>,
            \<lparr>us_id = Suc n, us_email = eu_email, us_password_hash = sl_hash lib eu_email eu_password,
             us_role = Client, us_created = now\<rparr>],
         subscriptions := subscriptions db @
           [subscription_from (n + 2) n c0 now, subscription_from (n + 3) (Suc n) c1 now],
         scopes := scopes db @ [new_scope (n + 2) uk_pair, new_scope (n + 3) eu_pair],
         t_next := n + 4\<rparr>)"

definition fixture_events :: "(nat \<Rightarrow> int) \<Rightarrow> (nat \<Rightarrow> timestamp) \<Rightarrow> uuid \<Rightarrow> stored_event list" where
  "fixture_events eids clk d =
     [stored_fixture (eids 0) (clk 4) d (d + 2) uk_pair uk_modified,
      stored_fixture (eids 1) (clk 5) (d + 3) (d + 5) eu_pair eu_modified,
      stored_fixture (eids 2) (clk 6) d (d + 2) uk_pair uk_moved]"

lemmas text_constants = uk_modified_before_def uk_modified_after_def eu_modified_before_def eu_modified_after_def
  uk_moved_text_def

lemma clause_texts:
  "e2e_texts_ok (uk_head @ [(''PART_2/SECTION_12/(a)'', uk_modified_before)])"
  "e2e_texts_ok (uk_head @ [(''PART_2/SECTION_12/(a)'', uk_modified_after)])"
  "e2e_texts_ok (eu_head @ [(''ARTICLE_4/CLAUSE_4.2'', eu_modified_before)])"
  "e2e_texts_ok (eu_head @ [(''ARTICLE_4/CLAUSE_4.2'', eu_modified_after)])"
  by (simp_all add: e2e_texts_ok_def uk_head_def eu_head_def text_constants)

lemma event_texts: "event_texts_ok uk_modified" "event_texts_ok eu_modified" "event_texts_ok uk_moved"
  by (simp_all add: event_texts_ok_def uk_modified_def eu_modified_def uk_moved_def text_constants)

lemma emails_differ: "uk_email \<noteq> eu_email" by (simp add: uk_email_def eu_email_def)
lemma lids_differ: "uk_doc_lid \<noteq> eu_doc_lid" by (simp add: uk_doc_lid_def eu_doc_lid_def)

lemma e2e_users_eq:
  assumes "\<forall>r \<in> set (users db). us_email r \<notin> {uk_email, eu_email}" "ids_fresh db"
  shows "bindE (make_user lib now uk_email uk_password db) (\<lambda>(db1, uk_user).
     bindE (make_user lib now eu_email eu_password db1) (\<lambda>(db2, eu_user).
     bindE (script_subscribe now c0 uk_user uk_pair db2) (\<lambda>db3.
     bindE (script_subscribe now c1 eu_user eu_pair db3) f))) = f (e2e_ledger lib now c0 c1 db)"
proof -
  let ?n = "t_next db"
  define x where "x = \<lparr>us_id = ?n, us_email = uk_email, us_password_hash = sl_hash lib uk_email uk_password,
    us_role = Client, us_created = now\<rparr>"
  define y where "y = \<lparr>us_id = Suc ?n, us_email = eu_email, us_password_hash = sl_hash lib eu_email eu_password,
    us_role = Client, us_created = now\<rparr>"
  define db2 where "db2 = db\<lparr>users := users db @ [x, y], t_next := ?n + 2\<rparr>"
  define db3 where "db3 = db2\<lparr>subscriptions := subscriptions db2 @ [subscription_from (t_next db2) ?n c0 now],
    scopes := scopes db2 @ [new_scope (t_next db2) uk_pair], t_next := Suc (t_next db2)\<rparr>"
  have 1: "make_user lib now uk_email uk_password db = Inr (db\<lparr>users := users db @ [x], t_next := Suc ?n\<rparr>, ?n)"
    using assms(1) by (subst make_user_eq) (auto simp: find_by_email_None x_def)
  have 2: "make_user lib now eu_email eu_password (db\<lparr>users := users db @ [x], t_next := Suc ?n\<rparr>) = Inr (db2, Suc ?n)"
    using assms(1) emails_differ by (subst make_user_eq) (auto simp: find_by_email_None x_def y_def db2_def)
  have f2: "ids_fresh db2" using assms(2) by (auto simp: ids_fresh_def db2_def x_def y_def intro: less_trans)
  have 3: "script_subscribe now c0 ?n uk_pair db2 = Inr db3"
    unfolding db3_def by (rule script_subscribe_eq [OF _ f2]) (auto simp: db2_def x_def)
  have f3: "ids_fresh db3"
    using f2 by (auto simp: ids_fresh_def db3_def new_scope_def subscription_from_def less_SucI) (simp add: db2_def)
  have 4: "script_subscribe now c1 (Suc ?n) eu_pair db3 = Inr (e2e_ledger lib now c0 c1 db)"
    by (subst script_subscribe_eq [OF _ f3])
      (auto simp: db3_def db2_def x_def y_def e2e_ledger_def Let_def eval_nat_numeral)
  show ?thesis by (simp add: 1 2 3 4)
qed

text \<open>The clauses of the four versions: whatever they are, documents and versions stay.\<close>

lemma e2e_clauses_eq:
  assumes "\<forall>c \<in> set (clauses (library db)). c_version c \<notin> {a1, a2, b1, b2}" "distinct [a1, a2, b1, b2]"
    and "{a1, a2, b1, b2} \<subseteq> v_id ` set (versions (library db))"
  obtains lb where "documents lb = documents (library db)" "versions lb = versions (library db)"
    "\<And>f :: api_db \<Rightarrow> api_db result.
       bindE (insert_clauses a1 (uk_head @ [(''PART_2/SECTION_12/(a)'', uk_modified_before)]) db) (\<lambda>db7.
       bindE (insert_clauses a2 (uk_head @ [(''PART_2/SECTION_12/(a)'', uk_modified_after)]) db7) (\<lambda>db8.
       bindE (insert_clauses b1 (eu_head @ [(''ARTICLE_4/CLAUSE_4.2'', eu_modified_before)]) db8) (\<lambda>db9.
       bindE (insert_clauses b2 (eu_head @ [(''ARTICLE_4/CLAUSE_4.2'', eu_modified_after)]) db9) f)))
       = f (db\<lparr>library := lb\<rparr>)"
proof -
  let ?free = "\<lambda>lb w. \<forall>c \<in> set (clauses lb). c_version c \<noteq> w"
  have v: "\<exists>v \<in> set (versions (library db)). v_id v = w" if "w \<in> {a1, a2, b1, b2}" for w using assms(3) that by fastforce
  have free: "?free (library db) w" if "w \<in> {a1, a2, b1, b2}" for w using assms(1) that by auto
  obtain l1 where l1: "insert_clauses a1 (uk_head @ [(''PART_2/SECTION_12/(a)'', uk_modified_before)]) db = Inr (db\<lparr>library := l1\<rparr>)"
    "documents l1 = documents (library db)" "versions l1 = versions (library db)"
    "\<And>w. ?free (library db) w \<Longrightarrow> w \<noteq> a1 \<Longrightarrow> ?free l1 w"
    by (rule fixture_clauses_eq [of _ db a1, OF clause_texts(1) v free]) auto
  obtain l2 where l2: "insert_clauses a2 (uk_head @ [(''PART_2/SECTION_12/(a)'', uk_modified_after)]) (db\<lparr>library := l1\<rparr>) = Inr (db\<lparr>library := l2\<rparr>)"
    "documents l2 = documents l1" "versions l2 = versions l1"
    "\<And>w. ?free l1 w \<Longrightarrow> w \<noteq> a2 \<Longrightarrow> ?free l2 w"
    by (rule fixture_clauses_eq [of _ "db\<lparr>library := l1\<rparr>" a2, OF clause_texts(2)])
      (use v l1(3) l1(4) [OF free] assms(2) in auto)
  obtain l3 where l3: "insert_clauses b1 (eu_head @ [(''ARTICLE_4/CLAUSE_4.2'', eu_modified_before)]) (db\<lparr>library := l2\<rparr>) = Inr (db\<lparr>library := l3\<rparr>)"
    "documents l3 = documents l2" "versions l3 = versions l2"
    "\<And>w. ?free l2 w \<Longrightarrow> w \<noteq> b1 \<Longrightarrow> ?free l3 w"
    by (rule fixture_clauses_eq [of _ "db\<lparr>library := l2\<rparr>" b1, OF clause_texts(3)])
      (use v l1(3) l2(3) l2(4) [OF l1(4) [OF free]] assms(2) in auto)
  obtain l4 where l4: "insert_clauses b2 (eu_head @ [(''ARTICLE_4/CLAUSE_4.2'', eu_modified_after)]) (db\<lparr>library := l3\<rparr>) = Inr (db\<lparr>library := l4\<rparr>)"
    "documents l4 = documents l3" "versions l4 = versions l3"
    by (rule fixture_clauses_eq [of _ "db\<lparr>library := l3\<rparr>" b2, OF clause_texts(4)])
      (use v l1(3) l2(3) l3(3) l3(4) [OF l2(4) [OF l1(4) [OF free]]] assms(2) in auto)
  show ?thesis
    by (rule that [of l4]) (simp_all add: l1 l2 l3 l4)
qed

lemma e2e_seed_effect:
  assumes "\<forall>r \<in> set (users db). us_email r \<notin> {uk_email, eu_email}" "ids_fresh db"
    and "\<forall>r \<in> set (documents (library db)). d_lawstronaut r \<notin> {uk_doc_lid, eu_doc_lid}" "corpus_fresh (library db)"
    and "\<And>x. length (sha x) = 32"
    and "distinct [eids 0, eids 1, eids 2]" "\<forall>x \<in> set (change_events db). ev_id x \<notin> {eids 0, eids 1, eids 2}"
  obtains lb vc x y where "e2e_seed lib sha eids now clk db =
    Inr ((e2e_ledger lib now (clk 0) (clk 1) db)\<lparr>library := lb, version_created := vc,
           change_events := change_events db @ fixture_events eids clk (next_uuid (library db))\<rparr>)"
    "documents lb = documents (library db) @ [x, y]"
    "d_id x = next_uuid (library db)" "d_lawstronaut x = uk_doc_lid"
    "d_id y = next_uuid (library db) + 3" "d_lawstronaut y = eu_doc_lid"
proof -
  let ?d = "next_uuid (library db)"
  define db4 where "db4 = e2e_ledger lib now (clk 0) (clk 1) db"
  have lib4: "library db4 = library db" "change_events db4 = change_events db"
    by (simp_all add: db4_def e2e_ledger_def Let_def)
  define l5 where "l5 = with_e2e_document sha now (clk 2) uk_doc_lid ''UK'' ''BANKING'' ''UK Banking Act (sample, e2e)'' (library db)"
  define l6 where "l6 = with_e2e_document sha now (clk 3) eu_doc_lid ''EU'' ''BANKING'' ''EU Banking Directive (sample, e2e)'' l5"
  have n5: "next_uuid l5 = ?d + 3" "documents l5 = documents (library db) @ [e2e_document (library db) now uk_doc_lid ''UK'' ''BANKING'' ''UK Banking Act (sample, e2e)'']"
    by (simp_all add: l5_def with_e2e_document_def)
  have f5: "corpus_fresh l5" unfolding l5_def by (rule with_e2e_document_fresh [OF assms(4)])
  obtain vc5 where 5: "make_doc_with_versions sha now (clk 2) uk_doc_lid ''UK'' ''BANKING'' ''UK Banking Act (sample, e2e)'' db4 =
      Inr (db4\<lparr>library := l5, version_created := vc5\<rparr>, ?d, Suc ?d, Suc (Suc ?d))"
    using make_doc_eq [of db4 uk_doc_lid sha] assms(3-5) unfolding l5_def by (force simp: lib4)
  obtain vc6 where 6: "make_doc_with_versions sha now (clk 3) eu_doc_lid ''EU'' ''BANKING'' ''EU Banking Directive (sample, e2e)''
        (db4\<lparr>library := l5, version_created := vc5\<rparr>) =
      Inr (db4\<lparr>library := l6, version_created := vc6\<rparr>, ?d + 3, Suc (?d + 3), Suc (Suc (?d + 3)))"
    using make_doc_eq [of "db4\<lparr>library := l5, version_created := vc5\<rparr>" eu_doc_lid sha] assms(3,5) f5 lids_differ n5
    unfolding l6_def by (force simp: e2e_document_def)
  let ?db6 = "db4\<lparr>library := l6, version_created := vc6\<rparr>"
  have cl: "clauses l6 = clauses (library db)" by (simp add: l6_def l5_def with_e2e_document_def)
  have vs: "{Suc ?d, Suc (Suc ?d), Suc (?d + 3), Suc (Suc (?d + 3))} \<subseteq> v_id ` set (versions l6)"
    by (simp add: l6_def l5_def with_e2e_document_def)
  have ds: "{?d, ?d + 3} \<subseteq> d_id ` set (documents l6)"
    by (simp add: l6_def l5_def with_e2e_document_def e2e_document_def)
  obtain l10 where l10: "documents l10 = documents (library ?db6)" "versions l10 = versions (library ?db6)"
    "\<And>f :: api_db \<Rightarrow> api_db result.
       bindE (insert_clauses (Suc ?d) (uk_head @ [(''PART_2/SECTION_12/(a)'', uk_modified_before)]) ?db6) (\<lambda>db7.
       bindE (insert_clauses (Suc (Suc ?d)) (uk_head @ [(''PART_2/SECTION_12/(a)'', uk_modified_after)]) db7) (\<lambda>db8.
       bindE (insert_clauses (Suc (?d + 3)) (eu_head @ [(''ARTICLE_4/CLAUSE_4.2'', eu_modified_before)]) db8) (\<lambda>db9.
       bindE (insert_clauses (Suc (Suc (?d + 3))) (eu_head @ [(''ARTICLE_4/CLAUSE_4.2'', eu_modified_after)]) db9) f)))
       = f (?db6\<lparr>library := l10\<rparr>)"
    by (rule e2e_clauses_eq [of ?db6 "Suc ?d" "Suc (Suc ?d)" "Suc (?d + 3)" "Suc (Suc (?d + 3))"])
      (use assms(4) vs in \<open>auto simp: cl corpus_fresh_def\<close>)
  have d: "\<exists>r \<in> set (documents l10). d_id r = i" if "i \<in> {?d, ?d + 3}" for i using ds that l10(1) by fastforce
  define x where "x = e2e_document (library db) now uk_doc_lid ''UK'' ''BANKING'' ''UK Banking Act (sample, e2e)''"
  define y where "y = e2e_document l5 now eu_doc_lid ''EU'' ''BANKING'' ''EU Banking Directive (sample, e2e)''"
  have docs: "documents l10 = documents (library db) @ [x, y]"
    using l10(1) by (simp add: x_def y_def l6_def l5_def with_e2e_document_def)
  have v: "\<exists>r \<in> set (versions l10). v_id r = i" if "i \<in> {Suc (Suc ?d), Suc (Suc (?d + 3))}" for i
    using vs that l10(2) by fastforce
  have ev: "change_events ?db6 = change_events db" by (simp add: lib4)
  have seed: "e2e_seed lib sha eids now clk db =
      bindE (emit_change_event (eids 0) (clk 4) ?d (Suc (Suc ?d)) uk_pair uk_modified (?db6\<lparr>library := l10\<rparr>)) (\<lambda>db11.
      bindE (emit_change_event (eids 1) (clk 5) (?d + 3) (Suc (Suc (?d + 3))) eu_pair eu_modified db11)
        (emit_change_event (eids 2) (clk 6) ?d (Suc (Suc ?d)) uk_pair uk_moved))"
    unfolding e2e_seed_def e2e_users_eq [OF assms(1,2)] db4_def [symmetric] 5 6 bindE.simps prod.case l10(3) ..
  show ?thesis
    by (rule that [where lb = l10 and vc = vc6, OF _ docs], unfold x_def y_def e2e_document_def)
      (use d v n5(1) assms(6,7) in \<open>simp_all add: seed emit_change_event_eq event_texts ev fixture_events_def lib4
         stored_fixture_def db4_def [symmetric] del: One_nat_def\<close>)
qed

section \<open>The run\<close>

lemma e2e_teardown_total: "\<exists>db1. e2e_teardown db = Inr db1"
  by (simp add: e2e_teardown_def delete_access_log_like_def delete_users_like_def Let_def)

lemma e2e_teardown_effect:
  assumes "e2e_teardown db = Inr db1"
  shows "shrinks (unlike e2e_email_like) db db1"
    "documents (library db1) = filter (\<lambda>d. \<not> like_match e2e_doc_pattern (d_lawstronaut d)) (documents (library db))"
    "set (versions (library db1)) \<subseteq> set (versions (library db))"
    "set (clauses (library db1)) \<subseteq> set (clauses (library db))" "next_uuid (library db1) = next_uuid (library db)"
    "change_events db1 = filter (\<lambda>e. e_document e \<notin> docs_like e2e_doc_pattern db) (change_events db)"
  using assms by (auto simp: e2e_teardown_def delete_defs Let_def shrinks_def delete_corpus_like_def)

lemma e2e_ledger_scope:
  assumes "ids_fresh db" "c0 - thirty_days \<le> t" "c1 - thirty_days \<le> t"
  shows "set (scope_of (e2e_ledger lib now c0 c1 db) t (t_next db)) = {uk_pair}"
    and "set (scope_of (e2e_ledger lib now c0 c1 db) t (Suc (t_next db))) = {eu_pair}"
proof -
  let ?n = "t_next db"
  let ?s = "subscription_from (?n + 2) ?n c0 now" and ?s' = "subscription_from (?n + 3) (Suc ?n) c1 now"
  define dbA where "dbA = db\<lparr>subscriptions := subscriptions db @ [?s], scopes := scopes db @ [new_scope (?n + 2) uk_pair]\<rparr>"
  have old: "sub_user s < ?n" "sub_id s < ?n" if "s \<in> set (subscriptions db)" for s
    using assms(1) that by (auto simp: ids_fresh_def)
  have sc: "sc_subscription r < ?n" if "r \<in> set (scopes db)" for r
    using assms(1) that by (auto simp: ids_fresh_def)
  have A: "set (scope_of dbA t ?n) = {uk_pair}"
    by (rule scope_of_append_own [of dbA db ?s])
      (use old sc assms(2) in \<open>fastforce simp: dbA_def subscription_from_def\<close>)+
  have s: "subscriptions (e2e_ledger lib now c0 c1 db) = subscriptions dbA @ [?s']"
    "scopes (e2e_ledger lib now c0 c1 db) = scopes dbA @ [new_scope (sub_id ?s') eu_pair]"
    by (simp_all add: e2e_ledger_def dbA_def Let_def subscription_from_def)
  have f: "\<forall>x \<in> set (subscriptions dbA). sub_id x \<noteq> sub_id ?s'" "\<forall>x \<in> set (subscriptions dbA). sub_user x \<noteq> Suc ?n"
    "\<forall>r \<in> set (scopes dbA). sc_subscription r \<noteq> sub_id ?s'"
    using old sc by (fastforce simp: dbA_def subscription_from_def new_scope_def)+
  show "set (scope_of (e2e_ledger lib now c0 c1 db) t ?n) = {uk_pair}"
    using scope_of_append_other [OF s _ f(1,3)] A by (simp add: subscription_from_def)
  show "set (scope_of (e2e_ledger lib now c0 c1 db) t (Suc ?n)) = {eu_pair}"
    using scope_of_append_own [OF s _ _ f(2,3)] assms(3) by (simp add: subscription_from_def)
qed

lemma e2e_patterns:
  "like_match e2e_email_like uk_email" "like_match e2e_email_like eu_email"
  "like_match e2e_doc_pattern uk_doc_lid" "like_match e2e_doc_pattern eu_doc_lid"
  by (simp_all add: e2e_email_like_def uk_email_def eu_email_def e2e_doc_pattern_def uk_doc_lid_def eu_doc_lid_def)

text \<open>The \<open>_\<close> of the pattern stands for any character: ids without the prefix \<open>e2e_\<close> match too.\<close>

lemma pattern_overreach: "like_match e2e_doc_pattern ''e2ex'' \<and> \<not> starts_with ''e2e_'' ''e2ex''"
  by (simp add: e2e_doc_pattern_def starts_with_def)

text \<open>Neither cascade of \<open>users\<close> runs while the triggers are off.\<close>

lemma e2e_teardown_leaves:
  "e2e_teardown db = Inr db1 \<Longrightarrow> watchlists db1 = watchlists db \<and> refresh_tokens db1 = refresh_tokens db"
  by (auto simp: e2e_teardown_def delete_defs Let_def delete_corpus_like_def)

text \<open>The database that a run leaves, from the one its teardown leaves.\<close>

definition e2e_state ::
  "script_lib \<Rightarrow> (nat \<Rightarrow> int) \<Rightarrow> (nat \<Rightarrow> timestamp) \<Rightarrow> timestamp \<Rightarrow> corpus \<Rightarrow> (uuid \<Rightarrow> timestamp) \<Rightarrow> api_db \<Rightarrow> api_db" where
  "e2e_state lib eids clk now lb vc db1 =
     (e2e_ledger lib now (clk 0) (clk 1) db1)\<lparr>library := lb, version_created := vc,
        change_events := change_events db1 @ fixture_events eids clk (next_uuid (library db1))\<rparr>"

lemma e2e_run:
  assumes "env ''HORIZONS_DB_URL'' = Some raw" "raw \<noteq> []" "sl_connect lib (normalise_db_url raw) = Inr ()"
    and "ids_fresh db" "corpus_fresh (library db)" "\<And>x. length (sha x) = 32"
    and "\<forall>e \<in> set (change_events db). e_document e \<in> d_id ` set (documents (library db)) \<and> ev_id e \<notin> {eids 0, eids 1, eids 2}"
    and "distinct [eids 0, eids 1, eids 2]"
  obtains db1 lb vc where "ids_fresh db1"
    "e2e_main lib sha eids env False now clk db = (e2e_state lib eids clk now lb vc db1, Inr 0)"
    "docs_like e2e_doc_pattern (e2e_state lib eids clk now lb vc db1) = {next_uuid (library db1), next_uuid (library db1) + 3}"
    "\<forall>e \<in> set (change_events db1). e_document e \<notin> {next_uuid (library db1), next_uuid (library db1) + 3}"
    "\<forall>x \<in> set (users db1). \<not> like_match e2e_email_like (us_email x)"
proof -
  obtain db1 where t: "e2e_teardown db = Inr db1" using e2e_teardown_total by blast
  note te = e2e_teardown_effect [OF t]
  have fr: "ids_fresh db1" by (rule shrinks_fresh [OF te(1) assms(4)])
  have cf: "corpus_fresh (library db1)"
    using assms(5) te(3,4) by (auto simp: corpus_fresh_def te(2,5))
  have us: "users db1 = filter (unlike e2e_email_like) (users db)" using te(1) by (simp add: shrinks_def)
  let ?d = "next_uuid (library db1)"
  obtain lb vc x y where run: "e2e_seed lib sha eids now clk db1 =
      Inr ((e2e_ledger lib now (clk 0) (clk 1) db1)\<lparr>library := lb, version_created := vc,
             change_events := change_events db1 @ fixture_events eids clk ?d\<rparr>)"
    "documents lb = documents (library db1) @ [x, y]"
    "d_id x = ?d" "d_lawstronaut x = uk_doc_lid" "d_id y = ?d + 3" "d_lawstronaut y = eu_doc_lid"
    by (rule e2e_seed_effect [where eids = eids, OF _ fr _ cf assms(6,8)])
      (use assms(7) e2e_patterns in \<open>auto simp: us te(2,6)\<close>)
  show ?thesis
  proof (rule that [OF fr])
    show "e2e_main lib sha eids env False now clk db = (e2e_state lib eids clk now lb vc db1, Inr 0)"
      using assms(1-3) t run(1) by (simp add: e2e_main_def transaction_def e2e_state_def)
    show "docs_like e2e_doc_pattern (e2e_state lib eids clk now lb vc db1) = {?d, ?d + 3}"
      using run e2e_patterns by (auto simp: docs_like_def e2e_state_def te(2))
    have "e_document e < ?d" if "e \<in> set (change_events db1)" for e
    proof -
      have "e_document e \<in> d_id ` set (documents (library db))" using that assms(7) by (auto simp: te(6))
      then show ?thesis using assms(5) by (auto simp: te(5) corpus_fresh_def)
    qed
    then show "\<forall>e \<in> set (change_events db1). e_document e \<notin> {?d, ?d + 3}" by fastforce
  qed (simp add: us)
qed

end
