(* ===== verification/Metrics.thy ===== *)
theory Metrics
  imports Claim_Correct Tokens
begin

text \<open>
  Operational metrics: the Log Analytics query with its cache (\<open>observability/health.py\<close>) and the
  three routes of \<open>admin/health.py\<close>. The Azure SDK, the TTL cache of cachetools and the statistics
  views of PostgreSQL are parameters. Floats are rationals, times are microseconds.
\<close>

section \<open>Values\<close>

datatype health_window = Hour | Day

definition window_seconds :: "health_window \<Rightarrow> int" where
  "window_seconds w = (case w of Hour \<Rightarrow> 60 * 60 | Day \<Rightarrow> 24 * 60 * 60)"

definition api_metrics_kql :: string where
  "api_metrics_kql =
     ''AppRequests | summarize total = count(), failed = countif(Success == false), p95_ms = percentile(DurationMs, 95)''"

definition api_metrics_query_id :: string where "api_metrics_query_id = ''api_metrics''"
definition workspace_env_var :: string where "workspace_env_var = ''HORIZONS_LOG_ANALYTICS_WORKSPACE_ID''"
definition cache_ttl :: int where "cache_ttl = 60 * second"

record api_metrics =
  am_window :: health_window
  am_rate :: "rat option"
  am_error_rate :: "rat option"
  am_p95 :: "rat option"

text \<open>
  A result of the SDK: its tables, each with its rows of cells; a missing attribute is \<open>None\<close>. A call
  raises the module's own exception with a reason, or an SDK error, of which the type name matters.
\<close>

type_synonym query_table = "rat option list list option"
type_synonym query_result = "query_table list option"

datatype query_error = Reason string | SdkError string
datatype fetch_error = Unavailable string | Escapes exn

section \<open>The cache and the clients\<close>

text \<open>
  \<open>tl_get\<close> and \<open>tl_set\<close> are \<open>cache.get\<close> and item assignment at a reading of the monotonic clock. A key
  is the query id with the window, so that the cache never holds more than two items of its sixteen.
\<close>

type_synonym cache_key = "string \<times> health_window"

record 'c ttl_lib =
  tl_get :: "'c \<Rightarrow> int \<Rightarrow> cache_key \<Rightarrow> api_metrics option"
  tl_set :: "'c \<Rightarrow> int \<Rightarrow> cache_key \<Rightarrow> api_metrics \<Rightarrow> 'c"
  tl_clear :: "'c \<Rightarrow> 'c"

definition ttl_ok :: "'c ttl_lib \<Rightarrow> bool" where
  "ttl_ok lib \<longleftrightarrow>
     (\<forall>c t k. tl_get lib (tl_clear lib c) t k = None)
     \<and> (\<forall>c s k v t k'. s \<le> t \<longrightarrow> tl_get lib (tl_set lib c s k v) t k' =
          (if k' = k then (if t < s + cache_ttl then Some v else None) else tl_get lib c t k'))"

text \<open>
  The environment: the process variables, the import of the SDK and the construction of its client
  (\<open>Inl\<close> the text of the exception), and what a client answers, in a world that moves on with each call.
\<close>

record ('c, 'l, 'w) health_env =
  he_cache :: "'c ttl_lib"
  he_env :: "string \<Rightarrow> string option"
  he_import :: "string + unit"
  he_client :: "string + 'l"
  he_query :: "'l \<Rightarrow> 'w \<Rightarrow> string \<Rightarrow> string \<Rightarrow> int \<Rightarrow> 'w \<times> (query_error + query_result)"

record ('c, 'l, 'w) health_state =
  hs_cache :: 'c
  hs_override :: "'l option"
  hs_default :: "'l option"
  hs_world :: 'w

definition set_logs_query_client :: "('c, 'l, 'w) health_env \<Rightarrow> 'l \<Rightarrow> ('c, 'l, 'w) health_state \<Rightarrow> ('c, 'l, 'w) health_state" where
  "set_logs_query_client env cl st = st\<lparr>hs_override := Some cl, hs_cache := tl_clear (he_cache env) (hs_cache st)\<rparr>"

definition reset_logs_query_client :: "('c, 'l, 'w) health_env \<Rightarrow> ('c, 'l, 'w) health_state \<Rightarrow> ('c, 'l, 'w) health_state" where
  "reset_logs_query_client env st =
     st\<lparr>hs_override := None, hs_default := None, hs_cache := tl_clear (he_cache env) (hs_cache st)\<rparr>"

definition get_client ::
  "('c, 'l, 'w) health_env \<Rightarrow> ('c, 'l, 'w) health_state \<Rightarrow> ('c, 'l, 'w) health_state \<times> (fetch_error + 'l)" where
  "get_client env st =
     (case hs_override st of
        Some cl \<Rightarrow> (st, Inr cl)
      | None \<Rightarrow>
          (case hs_default st of
             Some cl \<Rightarrow> (st, Inr cl)
           | None \<Rightarrow>
               (case he_import env of
                  Inl msg \<Rightarrow> (st, Inl (Unavailable (''azure sdk import failed: '' @ msg)))
                | Inr _ \<Rightarrow>
                    (case he_client env of
                       Inl msg \<Rightarrow> (st, Inl (Unavailable (''credential init failed: '' @ msg)))
                     | Inr cl \<Rightarrow> (st\<lparr>hs_default := Some cl\<rparr>, Inr cl)))))"

definition workspace_id :: "(string \<Rightarrow> string option) \<Rightarrow> fetch_error + string" where
  "workspace_id env =
     (case env workspace_env_var of
        None \<Rightarrow> Inl (Unavailable ''workspace id not configured'')
      | Some v \<Rightarrow> if v = [] then Inl (Unavailable ''workspace id not configured'') else Inr v)"

text \<open>A row with fewer than three cells raises \<open>IndexError\<close>; \<open>int()\<close> of a number truncates towards zero.\<close>

definition row_int :: "rat \<Rightarrow> int" where
  "row_int x = (if 0 \<le> x then \<lfloor>x\<rfloor> else \<lceil>x\<rceil>)"

definition extract_row :: "query_result \<Rightarrow> (int option \<times> int option \<times> rat option) result" where
  "extract_row res =
     (case res of
        None \<Rightarrow> Inr (None, None, None)
      | Some [] \<Rightarrow> Inr (None, None, None)
      | Some (t # _) \<Rightarrow>
          (case t of
             None \<Rightarrow> Inr (None, None, None)
           | Some [] \<Rightarrow> Inr (None, None, None)
           | Some (r # _) \<Rightarrow>
               (case r of
                  n # f # p95 # _ \<Rightarrow> Inr (map_option row_int n, map_option row_int f, p95)
                | _ \<Rightarrow> Inl IndexError)))"

definition metrics_of :: "health_window \<Rightarrow> int option \<Rightarrow> int option \<Rightarrow> rat option \<Rightarrow> api_metrics" where
  "metrics_of w tot bad p95 =
     \<lparr>am_window = w,
      am_rate = map_option (\<lambda>n. of_int n / (of_int (window_seconds w) / 60)) tot,
      am_error_rate =
        (case tot of
           None \<Rightarrow> None
         | Some n \<Rightarrow> if n = 0 then None else Some (of_int (case bad of None \<Rightarrow> 0 | Some f \<Rightarrow> f) / of_int n)),
      am_p95 = p95\<rparr>"

definition query_metrics ::
  "('c, 'l, 'w) health_env \<Rightarrow> 'l \<Rightarrow> string \<Rightarrow> health_window \<Rightarrow> 'w \<Rightarrow> 'w \<times> (fetch_error + api_metrics)" where
  "query_metrics env cl ws w wd =
     (case he_query env cl wd ws api_metrics_kql (window_seconds w) of
        (w', Inl (Reason r)) \<Rightarrow> (w', Inl (Unavailable r))
      | (w', Inl (SdkError n)) \<Rightarrow> (w', Inl (Unavailable (''query failed: '' @ n)))
      | (w', Inr res) \<Rightarrow>
          (case extract_row res of
             Inl e \<Rightarrow> (w', Inl (Escapes e))
           | Inr (tot, bad, p95) \<Rightarrow> (w', Inr (metrics_of w tot bad p95))))"

text \<open>\<open>now\<close> is the reading of the monotonic clock.\<close>

definition fetch_api_metrics ::
  "('c, 'l, 'w) health_env \<Rightarrow> int \<Rightarrow> health_window \<Rightarrow> ('c, 'l, 'w) health_state
    \<Rightarrow> ('c, 'l, 'w) health_state \<times> (fetch_error + api_metrics)" where
  "fetch_api_metrics env now w st =
     (case tl_get (he_cache env) (hs_cache st) now (api_metrics_query_id, w) of
        Some m \<Rightarrow> (st, Inr m)
      | None \<Rightarrow>
          (case workspace_id (he_env env) of
             Inl e \<Rightarrow> (st, Inl e)
           | Inr ws \<Rightarrow>
               (case get_client env st of
                  (st1, Inl e) \<Rightarrow> (st1, Inl e)
                | (st1, Inr cl) \<Rightarrow>
                    (case query_metrics env cl ws w (hs_world st1) of
                       (w', Inl e) \<Rightarrow> (st1\<lparr>hs_world := w'\<rparr>, Inl e)
                     | (w', Inr m) \<Rightarrow>
                         (st1\<lparr>hs_world := w',
                              hs_cache := tl_set (he_cache env) (hs_cache st1) now (api_metrics_query_id, w) m\<rparr>,
                          Inr m)))))"

section \<open>GET /v1/admin/health/api\<close>

datatype data_source = Log_analytics | Unavailable_source

record metrics_values =
  mv_rate :: "rat option"
  mv_p95 :: "rat option"
  mv_error_rate :: "rat option"

record metrics_window =
  mw_window :: health_window
  mw_source :: data_source
  mw_reason :: "string option"
  mw_values :: "metrics_values option"

definition api_window ::
  "('c, 'l, 'w) health_env \<Rightarrow> int \<Rightarrow> health_window \<Rightarrow> ('c, 'l, 'w) health_state
    \<Rightarrow> ('c, 'l, 'w) health_state \<times> metrics_window result" where
  "api_window env now w st =
     (case fetch_api_metrics env now w st of
        (st1, Inl (Unavailable r)) \<Rightarrow>
          (st1, Inr \<lparr>mw_window = w, mw_source = Unavailable_source, mw_reason = Some r, mw_values = None\<rparr>)
      | (st1, Inl (Escapes e)) \<Rightarrow> (st1, Inl e)
      | (st1, Inr m) \<Rightarrow>
          (st1, Inr \<lparr>mw_window = w, mw_source = Log_analytics, mw_reason = None,
                     mw_values = Some \<lparr>mv_rate = am_rate m, mv_p95 = am_p95 m, mv_error_rate = am_error_rate m\<rparr>\<rparr>))"

text \<open>The two windows one after the other, at two readings of the clock.\<close>

definition api_health ::
  "('c, 'l, 'w) health_env \<Rightarrow> int \<Rightarrow> int \<Rightarrow> ('c, 'l, 'w) health_state
    \<Rightarrow> ('c, 'l, 'w) health_state \<times> metrics_window list result" where
  "api_health env t1 t2 st =
     (case api_window env t1 Hour st of
        (st1, Inl e) \<Rightarrow> (st1, Inl e)
      | (st1, Inr h) \<Rightarrow>
          (case api_window env t2 Day st1 of
             (st2, Inl e) \<Rightarrow> (st2, Inl e)
           | (st2, Inr d) \<Rightarrow> (st2, Inr [h, d])))"

section \<open>GET /v1/admin/health/ingestion\<close>

text \<open>A row of \<open>ingestion_incident\<close> as it is read back, with its \<open>bigserial\<close> id and \<open>occurred_at\<close>.\<close>

record stored_incident = incident +
  in_id :: int
  in_at :: timestamp

record ingestion_health_response =
  ih_backlog :: nat
  ih_sample :: "schedule_row list"
  ih_recent :: "stored_incident list"

definition overdue :: "timestamp \<Rightarrow> schedule_row \<Rightarrow> bool" where
  "overdue now r \<longleftrightarrow> s_next r < now"

definition day_long :: int where "day_long = 24 * 60 * 60 * second"

definition ingestion_health :: "timestamp \<Rightarrow> schedule_row list \<Rightarrow> stored_incident list \<Rightarrow> ingestion_health_response" where
  "ingestion_health now rows incs =
     \<lparr>ih_backlog = length (filter (overdue now) rows),
      ih_sample = take 20 (sort_key s_next (filter (overdue now) rows)),
      ih_recent = take 50 (sort_key (\<lambda>i. - in_at i) (filter (\<lambda>i. now - day_long \<le> in_at i) incs))\<rparr>"

section \<open>GET /v1/admin/health/db\<close>

record slow_query =
  sq_query :: string
  sq_calls :: int
  sq_mean :: rat
  sq_total :: rat

text \<open>What the views show: the connections, the extensions, the statements or the failure of their query.\<close>

record pg_views =
  pv_activity :: nat
  pv_extensions :: "string list"
  pv_statements :: "string + slow_query list"

record db_health_response =
  dh_connections :: nat
  dh_lag :: "rat option"
  dh_slow_source :: string
  dh_slow_reason :: "string option"
  dh_slow :: "slow_query list option"

definition slow_queries :: "pg_views \<Rightarrow> string \<times> string option \<times> slow_query list option" where
  "slow_queries pv =
     (if length (filter (\<lambda>x. x = ''pg_stat_statements'') (pv_extensions pv)) = 0
      then (''unavailable'', Some ''extension not installed'', None)
      else case pv_statements pv of
        Inl n \<Rightarrow> (''unavailable'', Some (''query failed: '' @ n), None)
      | Inr rows \<Rightarrow> (''pg_stat_statements'', None, Some (take 5 (sort_key (\<lambda>q. - sq_mean q) rows))))"

definition db_health :: "pg_views \<Rightarrow> db_health_response" where
  "db_health pv =
     (case slow_queries pv of (source, reason, slow) \<Rightarrow>
        \<lparr>dh_connections = pv_activity pv, dh_lag = None, dh_slow_source = source, dh_slow_reason = reason,
         dh_slow = slow\<rparr>)"

section \<open>Facts\<close>

lemma ttl_hit:
  "ttl_ok lib \<Longrightarrow> s \<le> t \<Longrightarrow> tl_get lib (tl_set lib c s k v) t k' =
     (if k' = k then (if t < s + cache_ttl then Some v else None) else tl_get lib c t k')"
  unfolding ttl_ok_def by blast

lemma get_client_cache: "hs_cache (fst (get_client env st)) = hs_cache st"
  by (simp add: get_client_def split: option.split sum.split)

lemma query_metrics_window: "query_metrics env cl ws w wd = (w', Inr m) \<Longrightarrow> \<exists>tot bad p95. m = metrics_of w tot bad p95"
proof -
  assume q: "query_metrics env cl ws w wd = (w', Inr m)"
  obtain w2 a where a: "he_query env cl wd ws api_metrics_kql (window_seconds w) = (w2, a)" by fastforce
  show ?thesis
  proof (cases a)
    case (Inl e)
    then show ?thesis using q a by (cases e) (simp_all add: query_metrics_def)
  next
    case (Inr res)
    then show ?thesis using q a by (cases "extract_row res") (auto simp: query_metrics_def)
  qed
qed

text \<open>What a call does to the cache: nothing, or the entry of its own window.\<close>

lemma fetch_cases:
  assumes "fetch_api_metrics env now w st = (st', r)"
  obtains (hit) m where "tl_get (he_cache env) (hs_cache st) now (api_metrics_query_id, w) = Some m" "st' = st" "r = Inr m"
  | (failed) e where "tl_get (he_cache env) (hs_cache st) now (api_metrics_query_id, w) = None"
      "hs_cache st' = hs_cache st" "r = Inl e"
  | (stored) tot bad p95 where "tl_get (he_cache env) (hs_cache st) now (api_metrics_query_id, w) = None"
      "hs_cache st' = tl_set (he_cache env) (hs_cache st) now (api_metrics_query_id, w) (metrics_of w tot bad p95)"
      "r = Inr (metrics_of w tot bad p95)"
proof (cases "tl_get (he_cache env) (hs_cache st) now (api_metrics_query_id, w)")
  case (Some m)
  then have "(st', r) = (st, Inr m)" using assms by (simp add: fetch_api_metrics_def)
  then show thesis using hit [OF Some] by simp
next
  case miss: None
  obtain st1 c where cl: "get_client env st = (st1, c)" by fastforce
  have cache: "hs_cache st1 = hs_cache st" using get_client_cache [of env st] cl by simp
  show thesis
  proof (cases "workspace_id (he_env env)")
    case (Inl e)
    then have "(st', r) = (st, Inl e)" using assms miss by (simp add: fetch_api_metrics_def)
    then show thesis using failed [OF miss] by simp
  next
    case ws: (Inr ws)
    show thesis
    proof (cases c)
      case (Inl e)
      then have "(st', r) = (st1, Inl e)" using assms miss ws cl by (simp add: fetch_api_metrics_def)
      then show thesis using failed [OF miss] cache by simp
    next
      case (Inr l)
      obtain w' q where q: "query_metrics env l ws w (hs_world st1) = (w', q)" by fastforce
      show thesis
      proof (cases q)
        case (Inl e)
        then have "(st', r) = (st1\<lparr>hs_world := w'\<rparr>, Inl e)" using assms miss ws cl Inr q by (simp add: fetch_api_metrics_def)
        then show thesis using failed [OF miss] cache by simp
      next
        case m: (Inr m)
        then obtain tot bad p95 where "m = metrics_of w tot bad p95" using query_metrics_window [of env l ws w "hs_world st1" w' m] q by blast
        moreover have "(st', r) = (st1\<lparr>hs_world := w',
            hs_cache := tl_set (he_cache env) (hs_cache st1) now (api_metrics_query_id, w) m\<rparr>, Inr m)"
          using assms miss ws cl Inr q m by (simp add: fetch_api_metrics_def)
        ultimately show thesis using stored [OF miss, of tot bad p95] cache by simp
      qed
    qed
  qed
qed

section \<open>Within a minute\<close>

text \<open>Calls for any windows, at times that do not decrease, from \<open>t0\<close> on.\<close>

inductive fetches :: "('c, 'l, 'w) health_env \<Rightarrow> int \<Rightarrow> ('c, 'l, 'w) health_state \<Rightarrow> int \<Rightarrow> ('c, 'l, 'w) health_state \<Rightarrow> bool"
  for env t0 st0 where
  none: "fetches env t0 st0 t0 st0"
| more: "fetches env t0 st0 t st \<Longrightarrow> t \<le> t' \<Longrightarrow> fetch_api_metrics env t' w st = (st', r) \<Longrightarrow> fetches env t0 st0 t' st'"

lemma fetches_time: "fetches env t0 st0 t st \<Longrightarrow> t0 \<le> t"
  by (induction rule: fetches.induct) auto

text \<open>An entry stays until it expires, at every reading of the clock from now on.\<close>

definition holds_until :: "('c, 'l, 'w) health_env \<Rightarrow> health_window \<Rightarrow> api_metrics \<Rightarrow> int \<Rightarrow> int \<Rightarrow> ('c, 'l, 'w) health_state \<Rightarrow> bool" where
  "holds_until env w m deadline t st \<longleftrightarrow>
     (\<forall>t' \<ge> t. t' < deadline \<longrightarrow> tl_get (he_cache env) (hs_cache st) t' (api_metrics_query_id, w) = Some m)"

lemma fetch_holds:
  assumes "ttl_ok (he_cache env)" "holds_until env w m deadline t st" "t \<le> t'" "t' < deadline"
    and "fetch_api_metrics env t' w' st = (st', r)"
  shows "holds_until env w m deadline t' st'"
  using assms(5)
proof (cases rule: fetch_cases)
  case hit
  then show ?thesis using assms(2,3) by (simp add: holds_until_def)
next
  case failed
  then show ?thesis using assms(2,3) by (simp add: holds_until_def)
next
  case (stored tot bad p95)
  have "w' \<noteq> w" using stored(1) assms(2-4) by (auto simp: holds_until_def)
  then show ?thesis using stored(2) assms(2,3) by (simp add: holds_until_def ttl_hit [OF assms(1)])
qed

lemma fetches_hold:
  assumes "fetches env t0 st0 t st" "ttl_ok (he_cache env)" "holds_until env w m deadline t0 st0"
  shows "t < deadline \<Longrightarrow> holds_until env w m deadline t st"
  using assms(1)
proof (induction rule: fetches.induct)
  case none
  show ?case by (rule assms(3))
next
  case (more t st t' w' st' r)
  then show ?case using fetch_holds [OF assms(2) _ more.hyps(2) _ more.hyps(3)] by auto
qed

lemma stored_holds:
  assumes "ttl_ok (he_cache env)" "fetch_api_metrics env t w st = (st', Inr m)"
    and "tl_get (he_cache env) (hs_cache st) t (api_metrics_query_id, w) = None"
  shows "holds_until env w m (t + cache_ttl) t st'"
  using assms(2)
proof (cases rule: fetch_cases)
  case (hit m')
  then show ?thesis using assms(3) by simp
next
  case failed
  then show ?thesis by simp
next
  case (stored tot bad p95)
  then show ?thesis by (auto simp: holds_until_def ttl_hit [OF assms(1)])
qed

section \<open>What the entries hold\<close>

text \<open>The query counts requests, and the failed ones among them.\<close>

definition counts_sane :: "('c, 'l, 'w) health_env \<Rightarrow> bool" where
  "counts_sane env \<longleftrightarrow>
     (\<forall>cl wd ws k n wd' res tot bad p95. he_query env cl wd ws k n = (wd', Inr res) \<longrightarrow> extract_row res = Inr (tot, bad, p95) \<longrightarrow>
        (\<forall>a. tot = Some a \<longrightarrow> 0 \<le> a \<and> (\<forall>b. bad = Some b \<longrightarrow> 0 \<le> b \<and> b \<le> a)))"

definition rates_ok :: "api_metrics \<Rightarrow> bool" where
  "rates_ok m \<longleftrightarrow> (\<forall>q. am_rate m = Some q \<longrightarrow> 0 \<le> q) \<and> (\<forall>q. am_error_rate m = Some q \<longrightarrow> 0 \<le> q \<and> q \<le> 1)"

definition cache_sane :: "('c, 'l, 'w) health_env \<Rightarrow> int \<Rightarrow> ('c, 'l, 'w) health_state \<Rightarrow> bool" where
  "cache_sane env t st \<longleftrightarrow>
     (\<forall>t' \<ge> t. \<forall>w m. tl_get (he_cache env) (hs_cache st) t' (api_metrics_query_id, w) = Some m \<longrightarrow> am_window m = w \<and> rates_ok m)"

lemma metrics_of_rates:
  assumes "\<And>a. tot = Some a \<Longrightarrow> 0 \<le> a \<and> (\<forall>b. bad = Some b \<longrightarrow> 0 \<le> b \<and> b \<le> a)"
  shows "rates_ok (metrics_of w tot bad p95)"
proof (cases tot)
  case None
  then show ?thesis by (simp add: rates_ok_def metrics_of_def)
next
  case (Some a)
  have "0 \<le> (of_int (window_seconds w) :: rat)" by (simp add: window_seconds_def split: health_window.split)
  moreover have "(of_int b :: rat) \<le> of_int a" "0 \<le> (of_int b :: rat)" if "bad = Some b" for b
    using assms [OF Some] that by simp_all
  moreover have "0 \<le> (of_int a :: rat)" using assms [OF Some] by simp
  ultimately show ?thesis
    using Some by (auto simp: rates_ok_def metrics_of_def divide_le_eq_1 split: option.splits if_splits)
qed

lemma query_metrics_rates:
  assumes "counts_sane env" "query_metrics env cl ws w wd = (w', Inr m)"
  shows "am_window m = w \<and> rates_ok m"
proof -
  obtain w2 a where a: "he_query env cl wd ws api_metrics_kql (window_seconds w) = (w2, a)" by fastforce
  show ?thesis
  proof (cases a)
    case (Inl e)
    then show ?thesis using assms(2) a by (cases e) (simp_all add: query_metrics_def)
  next
    case (Inr res)
    then obtain tot bad p95 where r: "extract_row res = Inr (tot, bad, p95)" "m = metrics_of w tot bad p95"
      using assms(2) a by (cases "extract_row res") (auto simp: query_metrics_def)
    have "rates_ok m"
      unfolding r(2)
    proof (rule metrics_of_rates)
      fix n assume n: "tot = Some n"
      show "0 \<le> n \<and> (\<forall>b. bad = Some b \<longrightarrow> 0 \<le> b \<and> b \<le> n)"
        using assms(1) a [unfolded Inr] r(1) n unfolding counts_sane_def by blast
    qed
    then show ?thesis using r(2) by (simp add: metrics_of_def)
  qed
qed

lemma fetch_stored_rates:
  assumes "counts_sane env" "tl_get (he_cache env) (hs_cache st) now (api_metrics_query_id, w) = None"
    and "fetch_api_metrics env now w st = (st', Inr m)"
  shows "am_window m = w \<and> rates_ok m"
proof -
  obtain st1 c where cl: "get_client env st = (st1, c)" by fastforce
  obtain ws where ws: "workspace_id (he_env env) = Inr ws"
    using assms(2,3) by (cases "workspace_id (he_env env)") (auto simp: fetch_api_metrics_def)
  obtain l where l: "c = Inr l"
    using assms(2,3) ws cl by (cases c) (auto simp: fetch_api_metrics_def)
  obtain w' q where q: "query_metrics env l ws w (hs_world st1) = (w', q)" by fastforce
  have "q = Inr m" using assms(2,3) ws cl l q by (cases q) (auto simp: fetch_api_metrics_def)
  then show ?thesis using query_metrics_rates [OF assms(1)] q by blast
qed

lemma cache_sane_later: "cache_sane env t st \<Longrightarrow> t \<le> t' \<Longrightarrow> cache_sane env t' st"
  unfolding cache_sane_def by (meson order_trans)

lemma cache_saneD:
  "cache_sane env t st \<Longrightarrow> tl_get (he_cache env) (hs_cache st) t (api_metrics_query_id, w) = Some m \<Longrightarrow>
     am_window m = w \<and> rates_ok m"
  unfolding cache_sane_def by blast

lemma fetch_sane:
  assumes "ttl_ok (he_cache env)" "counts_sane env" "cache_sane env t st" "t \<le> t'"
    and "fetch_api_metrics env t' w st = (st', r)"
  shows "cache_sane env t' st' \<and> (\<forall>m. r = Inr m \<longrightarrow> am_window m = w \<and> rates_ok m)"
proof -
  note later = cache_sane_later [OF assms(3,4)]
  from assms(5) show ?thesis
  proof (cases rule: fetch_cases)
    case (hit m)
    then show ?thesis using later cache_saneD [OF later] by simp
  next
    case (failed e)
    then show ?thesis using later by (simp add: cache_sane_def)
  next
    case (stored tot bad p95)
    have ok: "am_window (metrics_of w tot bad p95) = w \<and> rates_ok (metrics_of w tot bad p95)"
      using fetch_stored_rates [OF assms(2) stored(1)] assms(5) stored(3) by blast
    have "am_window m = v \<and> rates_ok m"
      if "t' \<le> t''" "tl_get (he_cache env) (hs_cache st') t'' (api_metrics_query_id, v) = Some m" for t'' v m
      using that ok stored(2) cache_saneD [OF cache_sane_later [OF later that(1)], of v m]
      by (auto simp: ttl_hit [OF assms(1)] split: if_splits)
    then show ?thesis using ok stored(3) by (auto simp: cache_sane_def)
  qed
qed

lemma fetches_sane:
  assumes "fetches env t0 st0 t st" "ttl_ok (he_cache env)" "counts_sane env" "cache_sane env t0 st0"
  shows "cache_sane env t st"
  using assms(1)
proof (induction rule: fetches.induct)
  case none
  show ?case by (rule assms(4))
next
  case (more t st t' w st' r)
  then show ?case using fetch_sane [OF assms(2,3) more.IH more.hyps(2,3)] by blast
qed

lemma cleared_sane: "ttl_ok (he_cache env) \<Longrightarrow> cache_sane env t (reset_logs_query_client env st)"
  by (simp add: cache_sane_def reset_logs_query_client_def ttl_ok_def)

text \<open>One slot of the response.\<close>

definition slot_ok :: "health_window \<Rightarrow> metrics_window \<Rightarrow> bool" where
  "slot_ok w x \<longleftrightarrow> mw_window x = w \<and> (mw_source x = Unavailable_source \<longleftrightarrow> mw_values x = None)
     \<and> (mw_reason x = None \<longleftrightarrow> mw_values x \<noteq> None)
     \<and> (\<forall>v. mw_values x = Some v \<longrightarrow> (\<forall>q. mv_rate v = Some q \<longrightarrow> 0 \<le> q)
          \<and> (\<forall>q. mv_error_rate v = Some q \<longrightarrow> 0 \<le> q \<and> q \<le> 1))"

lemma api_window_ok:
  assumes "ttl_ok (he_cache env)" "counts_sane env" "cache_sane env t st" "t \<le> t'"
    and "api_window env t' w st = (st', Inr x)"
  shows "cache_sane env t' st' \<and> slot_ok w x"
proof -
  obtain st1 r where f: "fetch_api_metrics env t' w st = (st1, r)" by fastforce
  note s = fetch_sane [OF assms(1-4) f]
  show ?thesis
  proof (cases r)
    case (Inl e)
    then show ?thesis using assms(5) f s by (cases e) (auto simp: api_window_def slot_ok_def)
  next
    case (Inr m)
    then show ?thesis using assms(5) f s by (auto simp: api_window_def slot_ok_def rates_ok_def)
  qed
qed

section \<open>The backlog\<close>

lemma length_filter_split:
  "length (filter P xs) = length (filter (\<lambda>x. P x \<and> Q x) xs) + length (filter (\<lambda>x. P x \<and> \<not> Q x) xs)"
  by (induction xs) auto

lemma claim_all_due:
  assumes "length (schedule db) \<le> nat batch" "r \<in> set (schedule db)" "due now threshold r"
  shows "s_document r \<in> set (claim now threshold batch {} db)"
proof -
  have "length (queue now threshold {} db) \<le> nat batch"
    using le_trans [OF length_filter_le [of "due now threshold" "schedule db"] assms(1)] by (simp add: queue_def)
  then show ?thesis using assms(2,3) set_queue [of now threshold "{}" db] by (auto simp: claim_queue)
qed

lemma claim_not_parked:
  assumes "keyed db" "r \<in> set (schedule db)" "threshold < s_failures r"
  shows "s_document r \<notin> set (claim now threshold batch locked db)"
proof
  assume "s_document r \<in> set (claim now threshold batch locked db)"
  then obtain q where q: "q \<in> set (schedule db)" "s_document q = s_document r" "due now threshold q"
    using claim_due by blast
  have "inj_on s_document (set (schedule db))" using assms(1) by (simp add: keyed_def distinct_map)
  from inj_onD [OF this q(2,1) assms(2)] q(3) assms(3) show False by (simp add: due_def)
qed

end
