(* ===== verification/App.thy ===== *)
theory App
  imports Auth_Routes
begin

text \<open>
  The assembly of the API: \<open>config.py\<close>, \<open>deps/provider.py\<close>, the two ASGI middlewares and their
  order in \<open>app.py\<close>, and the logging and tracing setup of \<open>observability\<close>. The routers with FastAPI
  itself, Starlette's CORS middleware and uuid4 are parameters. Byte strings are strings of the same
  bytes, which is how \<open>latin-1\<close> decodes them.
\<close>

section \<open>Settings\<close>

record api_settings =
  as_private_key :: string
  as_public_key :: string
  as_issuer :: string
  as_audience :: string
  as_origins :: "string list"

definition require_env :: "(string \<Rightarrow> string option) \<Rightarrow> string \<Rightarrow> string result" where
  "require_env env name =
     (case env name of None \<Rightarrow> Inl RuntimeError | Some v \<Rightarrow> if v = [] then Inl RuntimeError else Inr v)"

fun split_comma :: "string \<Rightarrow> string list" where
  "split_comma [] = [[]]"
| "split_comma (c # s) =
     (if c = CHR '','' then [] # split_comma s
      else (case split_comma s of [] \<Rightarrow> [[c]] | part # parts \<Rightarrow> (c # part) # parts))"

definition cors_origins :: "(string \<Rightarrow> string option) \<Rightarrow> string list" where
  "cors_origins env =
     map header_strip (filter (\<lambda>part. header_strip part \<noteq> [])
       (split_comma (case env ''HORIZONS_CORS_ORIGINS'' of None \<Rightarrow> [] | Some v \<Rightarrow> v)))"

definition load_settings :: "(string \<Rightarrow> string option) \<Rightarrow> api_settings result" where
  "load_settings env =
     bindE (require_env env ''HORIZONS_JWT_PRIVATE_KEY_PEM'') (\<lambda>private.
     bindE (require_env env ''HORIZONS_JWT_PUBLIC_KEY_PEM'') (\<lambda>public.
     bindE (require_env env ''HORIZONS_JWT_ISSUER'') (\<lambda>issuer.
     bindE (require_env env ''HORIZONS_JWT_AUDIENCE'') (\<lambda>audience.
       Inr \<lparr>as_private_key = private, as_public_key = public, as_issuer = issuer, as_audience = audience,
            as_origins = cors_origins env\<rparr>))))"

section \<open>The token provider\<close>

text \<open>The module variable \<open>_provider\<close>: keys and configuration once built.\<close>

record token_provider =
  tp_private :: string
  tp_public :: string
  tp_config :: jwt_config

definition get_token_provider ::
  "(string \<Rightarrow> string option) \<Rightarrow> token_provider option \<Rightarrow> token_provider option \<times> token_provider result" where
  "get_token_provider env provider =
     (case provider of
        Some p \<Rightarrow> (provider, Inr p)
      | None \<Rightarrow>
          (case load_settings env of
             Inl e \<Rightarrow> (None, Inl e)
           | Inr s \<Rightarrow>
               (case local_jwt_provider (as_issuer s) (as_audience s) ''RS256'' (\<lambda>_. None) default_leeway of
                  Inl e \<Rightarrow> (None, Inl e)
                | Inr cfg \<Rightarrow>
                    (let p = \<lparr>tp_private = as_private_key s, tp_public = as_public_key s, tp_config = cfg\<rparr>
                     in (Some p, Inr p)))))"

definition reset_provider :: "token_provider option \<Rightarrow> token_provider option" where
  "reset_provider provider = None"

section \<open>ASGI\<close>

text \<open>
  An application consumes a request and leaves the messages it has sent, in order, and the exception
  that escapes from it, if any. \<open>BaseException\<close> stands for those that \<open>except Exception\<close> lets pass
  (cancellation). The state holds the context variables, the log and the supply of uuid4 values.
\<close>

type_synonym headers = "(string \<times> string) list"

datatype message = Start nat headers | Other string

datatype raised = Exception exn | BaseException

record http_scope =
  rq_type :: string
  rq_method :: string
  rq_path :: string
  rq_headers :: headers

record asgi_state =
  cx_request_id :: string
  cx_user_id :: string
  cx_log :: "(string \<times> string) list"
  cx_uuids :: nat

type_synonym app = "http_scope \<Rightarrow> asgi_state \<Rightarrow> asgi_state \<times> message list \<times> raised option"

definition header_lower :: "string \<Rightarrow> string" where
  "header_lower = map lower_char"

definition is_start :: "message \<Rightarrow> bool" where
  "is_start m = (case m of Start _ _ \<Rightarrow> True | Other _ \<Rightarrow> False)"

subsection \<open>CorsFriendlyErrorMiddleware\<close>

definition error_response :: "message list" where
  "error_response =
     [Start 500 [(''content-length'', ''34''), (''content-type'', ''application/json'')],
      Other ''{\"detail\":\"Internal Server Error\"}'']"

definition cors_friendly_errors :: "app \<Rightarrow> app" where
  "cors_friendly_errors app rq st =
     (if rq_type rq \<noteq> ''http'' then app rq st
      else case app rq st of
        (st1, msgs, Some (Exception e)) \<Rightarrow>
          (let st2 = st1\<lparr>cx_log := cx_log st1 @ [(rq_method rq, rq_path rq)]\<rparr>
           in if list_ex is_start msgs then (st2, msgs, Some (Exception e))
              else (st2, msgs @ error_response, None))
      | r \<Rightarrow> r)"

subsection \<open>RequestContextMiddleware\<close>

definition extract_or_mint_request_id :: "(nat \<Rightarrow> string) \<Rightarrow> http_scope \<Rightarrow> asgi_state \<Rightarrow> asgi_state \<times> string" where
  "extract_or_mint_request_id hex rq st =
     (case List.find (\<lambda>(k, v). header_lower k = ''x-request-id'') (rq_headers rq) of
        Some (k, v) \<Rightarrow> (st, v)
      | None \<Rightarrow> (st\<lparr>cx_uuids := Suc (cx_uuids st)\<rparr>, hex (cx_uuids st)))"

definition with_request_id :: "string \<Rightarrow> message \<Rightarrow> message" where
  "with_request_id rid m =
     (case m of
        Start code hs \<Rightarrow> Start code (filter (\<lambda>(k, v). header_lower k \<noteq> ''x-request-id'') hs @ [(''x-request-id'', rid)])
      | Other x \<Rightarrow> Other x)"

definition request_context :: "(nat \<Rightarrow> string) \<Rightarrow> app \<Rightarrow> app" where
  "request_context hex app rq st =
     (if rq_type rq \<noteq> ''http'' then app rq st
      else let (st1, rid) = extract_or_mint_request_id hex rq st;
               (st2, msgs, r) = app rq (st1\<lparr>cx_request_id := rid\<rparr>)
           in (st2\<lparr>cx_request_id := cx_request_id st1\<rparr>, map (with_request_id rid) msgs, r))"

subsection \<open>The stack\<close>

text \<open>
  \<open>add_middleware\<close> puts each middleware outside those added before; FastAPI's own error handling
  around the routers is part of \<open>router\<close>. \<open>cors origins\<close> is Starlette's middleware.
\<close>

definition create_app ::
  "(nat \<Rightarrow> string) \<Rightarrow> (string list \<Rightarrow> app \<Rightarrow> app) \<Rightarrow> app \<Rightarrow> (string \<Rightarrow> string option) \<Rightarrow> app result" where
  "create_app hex cors router env =
     bindE (load_settings env) (\<lambda>s.
       let app1 = cors_friendly_errors router;
           app2 = (if as_origins s \<noteq> [] then cors (as_origins s) app1 else app1)
       in Inr (request_context hex app2))"

text \<open>The routes of \<open>routes/health.py\<close>.\<close>

definition healthz_body :: "(string \<times> string) list" where
  "healthz_body = [(''status'', ''ok'')]"

section \<open>Logging\<close>

type_synonym event_dict = "string \<rightharpoonup> string"

datatype renderer = Json_renderer | Console_renderer

definition select_renderer :: "(string \<Rightarrow> string option) \<Rightarrow> renderer" where
  "select_renderer env = (if env ''HORIZONS_ENV'' = Some ''prod'' then Json_renderer else Console_renderer)"

fun hex_padded :: "nat \<Rightarrow> nat \<Rightarrow> string" where
  "hex_padded 0 n = []"
| "hex_padded (Suc w) n = hex_padded w (n div 16) @ [''0123456789abcdef'' ! (n mod 16)]"

record span_context =
  sp_valid :: bool
  sp_trace :: nat
  sp_span :: nat

text \<open>The ids have 128 and 64 bits, so that the widths of the format are exact.\<close>

definition add_otel_trace_context :: "span_context \<Rightarrow> event_dict \<Rightarrow> event_dict" where
  "add_otel_trace_context sp ev =
     (if \<not> sp_valid sp then ev
      else ev(''trace_id'' \<mapsto> hex_padded 32 (sp_trace sp), ''span_id'' \<mapsto> hex_padded 16 (sp_span sp)))"

definition add_request_context :: "asgi_state \<Rightarrow> event_dict \<Rightarrow> event_dict" where
  "add_request_context st ev =
     (let ev1 = (if cx_request_id st \<noteq> [] then ev(''request_id'' \<mapsto> cx_request_id st) else ev)
      in if cx_user_id st \<noteq> [] then ev1(''user_id'' \<mapsto> cx_user_id st) else ev1)"

text \<open>
  The root logger, as the list of its handlers' renderers with its level, and structlog's renderer.
\<close>

record log_state =
  ls_handlers :: "renderer list"
  ls_level :: nat
  ls_structlog :: "renderer option"

definition route_stdlib_root :: "renderer \<Rightarrow> log_state \<Rightarrow> log_state" where
  "route_stdlib_root r ls = ls\<lparr>ls_handlers := [r], ls_level := 20\<rparr>"

definition setup_structlog :: "(string \<Rightarrow> string option) \<Rightarrow> log_state \<Rightarrow> log_state" where
  "setup_structlog env ls =
     (let r = select_renderer env in route_stdlib_root r (ls\<lparr>ls_structlog := Some r\<rparr>))"

section \<open>Tracing\<close>

datatype tracer = Proxy_tracer | Azure_tracer | Console_tracer | Caller_tracer

record otel_state =
  ot_tracer :: tracer
  ot_apps :: "nat list"
  ot_sqlalchemy :: nat
  ot_httpx :: nat

definition ensure_tracer_provider :: "(string \<Rightarrow> string option) \<Rightarrow> otel_state \<Rightarrow> otel_state" where
  "ensure_tracer_provider env st =
     (if ot_tracer st \<noteq> Proxy_tracer then st
      else case env ''APPLICATIONINSIGHTS_CONNECTION_STRING'' of
        None \<Rightarrow> st\<lparr>ot_tracer := Console_tracer\<rparr>
      | Some c \<Rightarrow> if c = [] then st\<lparr>ot_tracer := Console_tracer\<rparr> else st\<lparr>ot_tracer := Azure_tracer\<rparr>)"

text \<open>The instrumentor marks the app and does nothing for a marked one.\<close>

definition instrument_fastapi :: "nat \<Rightarrow> otel_state \<Rightarrow> otel_state" where
  "instrument_fastapi app st = (if app \<in> set (ot_apps st) then st else st\<lparr>ot_apps := app # ot_apps st\<rparr>)"

definition setup_otel :: "(string \<Rightarrow> string option) \<Rightarrow> nat option \<Rightarrow> otel_state \<Rightarrow> otel_state" where
  "setup_otel env app st =
     (let st1 = ensure_tracer_provider env st;
          st2 = (case app of None \<Rightarrow> st1 | Some a \<Rightarrow> instrument_fastapi a st1);
          st3 = (if ot_sqlalchemy st2 = 0 then st2\<lparr>ot_sqlalchemy := 1\<rparr> else st2)
      in if ot_httpx st3 = 0 then st3\<lparr>ot_httpx := 1\<rparr> else st3)"

section \<open>Facts\<close>

lemma setup_structlog_idem [simp]: "setup_structlog env (setup_structlog env ls) = setup_structlog env ls"
  by (simp add: setup_structlog_def route_stdlib_root_def Let_def)

lemma setup_otel_eq:
  "setup_otel env app st =
     \<lparr>ot_tracer = (if ot_tracer st \<noteq> Proxy_tracer then ot_tracer st
                  else case env ''APPLICATIONINSIGHTS_CONNECTION_STRING'' of
                    None \<Rightarrow> Console_tracer | Some c \<Rightarrow> if c = [] then Console_tracer else Azure_tracer),
      ot_apps = (case app of None \<Rightarrow> ot_apps st
                 | Some a \<Rightarrow> if a \<in> set (ot_apps st) then ot_apps st else a # ot_apps st),
      ot_sqlalchemy = (if ot_sqlalchemy st = 0 then 1 else ot_sqlalchemy st),
      ot_httpx = (if ot_httpx st = 0 then 1 else ot_httpx st)\<rparr>"
  by (cases st; cases app; cases "env ''APPLICATIONINSIGHTS_CONNECTION_STRING''")
    (simp_all add: setup_otel_def ensure_tracer_provider_def instrument_fastapi_def)

lemma setup_otel_idem: "setup_otel env app (setup_otel env app st) = setup_otel env app st"
  unfolding setup_otel_eq by (simp split: option.split)

lemma provider_cached:
  "get_token_provider env provider = (p', Inr p) \<Longrightarrow> p' = Some p \<and> get_token_provider env' p' = (p', Inr p)"
  by (auto simp: get_token_provider_def Let_def split: option.splits sum.splits)

lemma length_hex_padded [simp]: "length (hex_padded w n) = w"
  by (induction w arbitrary: n) auto

lemma split_comma_not_Nil [simp]: "split_comma s \<noteq> []"
  by (cases s) (auto split: list.split)

text \<open>The settings fail exactly when a required variable is unset or empty.\<close>

definition required_vars :: "string list" where
  "required_vars = [''HORIZONS_JWT_PRIVATE_KEY_PEM'', ''HORIZONS_JWT_PUBLIC_KEY_PEM'', ''HORIZONS_JWT_ISSUER'',
     ''HORIZONS_JWT_AUDIENCE'']"

lemma load_settings_total:
  "(\<exists>s. load_settings env = Inr s) \<longleftrightarrow> (\<forall>v \<in> set required_vars. env v \<noteq> None \<and> env v \<noteq> Some [])"
  by (auto simp: load_settings_def require_env_def required_vars_def split: option.splits)

lemma cors_origins_ok: "o1 \<in> set (cors_origins env) \<Longrightarrow> o1 \<noteq> []"
  by (auto simp: cors_origins_def)

section \<open>CORS\<close>

text \<open>
  What Starlette documents for a request that is not a preflight and comes from an allowed origin: the
  application runs as it is, and every start of a response gets the origin in
  \<open>access-control-allow-origin\<close>, with other headers of its own but no request id.
\<close>

definition header_values :: "string \<Rightarrow> headers \<Rightarrow> string list" where
  "header_values name hs = map snd (filter (\<lambda>(k, v). header_lower k = name) hs)"

definition preflight :: "http_scope \<Rightarrow> bool" where
  "preflight rq \<longleftrightarrow> rq_method rq = ''OPTIONS'' \<and> header_values ''access-control-request-method'' (rq_headers rq) \<noteq> []"

definition cors_ok :: "(string list \<Rightarrow> app \<Rightarrow> app) \<Rightarrow> bool" where
  "cors_ok cors \<longleftrightarrow>
     (\<forall>origins origin rq. rq_type rq = ''http'' \<longrightarrow> origin \<in> set origins \<longrightarrow>
        header_values ''origin'' (rq_headers rq) = [origin] \<longrightarrow> \<not> preflight rq \<longrightarrow>
        (\<exists>add. (\<forall>hs. header_values ''access-control-allow-origin'' (add hs) = [origin])
           \<and> (\<forall>app st. cors origins app rq st =
                (case app rq st of (st', msgs, r) \<Rightarrow>
                   (st', map (\<lambda>m. case m of Start code hs \<Rightarrow> Start code (add hs) | Other x \<Rightarrow> Other x) msgs, r)))))"

lemma header_values_append: "header_values n (hs @ hs') = header_values n hs @ header_values n hs'"
  by (simp add: header_values_def)

lemma header_values_filter_other:
  "n \<noteq> n' \<Longrightarrow> header_values n (filter (\<lambda>(k, v). header_lower k \<noteq> n') hs) = header_values n hs"
  by (simp add: header_values_def split_def conj_commute cong: filter_cong)
    (rule arg_cong [of _ _ "map snd"], rule filter_cong, auto)

lemma header_values_filter_same: "header_values n (filter (\<lambda>(k, v). header_lower k \<noteq> n) hs) = []"
  by (auto simp: header_values_def filter_empty_conv)

lemma lower_request_id: "header_lower ''x-request-id'' = ''x-request-id''"
  by (simp add: header_lower_def lower_char_def)

lemma with_request_id_Start:
  assumes "with_request_id rid m = Start code hs"
  obtains hs0 where "m = Start code hs0"
    "header_values ''x-request-id'' hs = [rid]"
    "\<And>n. n \<noteq> ''x-request-id'' \<Longrightarrow> header_values n hs = header_values n hs0"
proof (cases m)
  case (Start c hs0)
  have c: "c = code" and hs: "hs = filter (\<lambda>(k, v). header_lower k \<noteq> ''x-request-id'') hs0 @ [(''x-request-id'', rid)]"
    using assms Start by (simp_all add: with_request_id_def)
  have own: "header_values n [(''x-request-id'', rid)] = (if n = ''x-request-id'' then [rid] else [])" for n
    using lower_request_id by (auto simp: header_values_def)
  show thesis
    by (rule that [of hs0])
      (simp_all add: Start c hs header_values_append header_values_filter_same header_values_filter_other own)
next
  case (Other x)
  then show thesis using assms by (simp add: with_request_id_def)
qed

lemma is_start_with_request_id [simp]: "is_start (with_request_id rid m) = is_start m"
  by (simp add: is_start_def with_request_id_def split: message.split)

text \<open>The error middleware lets an exception through only when the response had begun.\<close>

lemma cors_friendly_errors_escape:
  assumes "rq_type rq = ''http''" "cors_friendly_errors app rq st = (st', msgs, Some (Exception e))"
  shows "\<exists>m \<in> set msgs. is_start m"
  using assms
  by (auto simp: cors_friendly_errors_def Let_def list_ex_iff split: prod.splits option.splits raised.splits if_splits)

lemma cors_friendly_errors_crash:
  assumes "rq_type rq = ''http''" "app rq st = (st1, msgs, Some (Exception e))" "\<not> list_ex is_start msgs"
  shows "cors_friendly_errors app rq st =
    (st1\<lparr>cx_log := cx_log st1 @ [(rq_method rq, rq_path rq)]\<rparr>, msgs @ error_response, None)"
  using assms by (simp add: cors_friendly_errors_def)

end
