(* ===== verification/Operations_Properties.thy ===== *)
theory Operations_Properties
  imports Demo_Correct Metrics App Api_Samples
begin

text \<open>
  The properties of running the service: the operator scripts, the operational metrics and the assembly
  of the API, with their witnesses.
\<close>

section \<open>Sample inputs\<close>

text \<open>A hash that shows its password, and an environment that sets the three passwords.\<close>

definition plain_lib :: script_lib where
  "plain_lib = \<lparr>sl_hash = (\<lambda>e p. CHR ''$'' # p), sl_verify = (\<lambda>p h. Inr (h = CHR ''$'' # p)),
     sl_connect = (\<lambda>url. if starts_with ''postgresql+psycopg://'' url then Inr () else Inl ValueError)\<rparr>"

definition no_vars :: "string \<Rightarrow> string option" where
  "no_vars v = (if v = ''HORIZONS_DB_URL'' then Some ''postgres://localhost/horizons'' else None)"

definition all_vars :: "string \<Rightarrow> string option" where
  "all_vars v = (if v = ''HORIZONS_DB_URL'' then Some ''postgres://localhost/horizons''
     else if v \<in> set (map da_env demo_accounts) then Some '' hunter2 '' else None)"

definition no_rows_db :: api_db where
  "no_rows_db = \<lparr>users = [], subscriptions = [], scopes = [], watchlists = [], refresh_tokens = [], access_log = [],
     library = \<lparr>documents = [], versions = [], clauses = [], events = [], next_uuid = 0\<rparr>, change_events = [],
     version_created = (\<lambda>_. 0), clause_id = (\<lambda>_. 0), t_next = 1\<rparr>"

lemma plain_lib_verifies: "hashes_verify plain_lib"
  by (simp add: hashes_verify_def plain_lib_def)

section \<open>Demo accounts\<close>

text \<open>C25. A run of \<open>create_demo_accounts\<close> without \<open>--reset\<close>, with whatever flags and environment and
  however it ends, never overwrites a credential with a built-in password: outside the retired domain every
  user is still there with its id, address and role, and its stored hash is the old one, or, when the run
  succeeded, the hash of a password that the operator set in the environment for that account.\<close>

theorem demo_run_keeps_credentials:
  assumes "demo_main lib env args now clock db = (db', r)" "\<not> dm_reset args"
    and "hashes_verify lib" "ids_fresh db" "distinct (map us_email (users db))"
    and "x \<in> set (users db)" "\<not> like_match legacy_like (us_email x)"
  shows "\<exists>x' \<in> set (users db'). x' = x \<or>
    (\<exists>outs. r = Inr (0, outs)) \<and>
    (\<exists>a \<in> set demo_accounts. us_email x = da_email a \<and> env_password env a \<noteq> []
       \<and> x' = x\<lparr>us_password_hash := sl_hash lib (da_email a) (env_password env a)\<rparr>)"
  using assms(1)
proof (cases rule: demo_main_cases)
  case untouched
  then show ?thesis using assms(6) by blast
next
  case (refused db1 resolved dflt blocked)
  then show ?thesis
    using swept_state(3) [OF refused(1,2) assms(4,5)] assms(2,6,7) by auto
next
  case (provided raw db1 db2 resolved dflt outs)
  note sw = swept_state [OF provided(4,5) assms(4,5)]
  have x: "x \<in> set (users db2)" using sw(3) assms(2,6,7) by simp
  obtain x' where x': "x' \<in> set (users db')" and or: "x' = x \<or>
    (\<exists>a \<in> set demo_accounts. \<exists>pw. resolved (da_email a) = Some pw \<and> us_email x = da_email a
       \<and> sl_verify lib pw (us_password_hash x) = Inr False
       \<and> x' = x\<lparr>us_password_hash := sl_hash lib (da_email a) pw\<rparr>)"
    using provision_all_users [OF provided(8) assms(3) sw(1,2) distinct_demo_accounts x] by blast
  show ?thesis
  proof (cases "x' = x")
    case True
    then show ?thesis using x' by blast
  next
    case False
    then obtain a pw where a: "a \<in> set demo_accounts" "resolved (da_email a) = Some pw" "us_email x = da_email a"
      "sl_verify lib pw (us_password_hash x) = Inr False" "x' = x\<lparr>us_password_hash := sl_hash lib (da_email a) pw\<rparr>"
      using or by blast
    have fx: "find_by_email db2 (da_email a) = Some x" using x a(3) by (simp add: find_by_email_iff [OF sw(2)])
    have "da_email a \<notin> dflt" using downgrade_candidates_Nil [OF provided(7) a(1) _ a(2) fx] a(4) by auto
    then have "env_password env a \<noteq> []" using resolve_demo(3) [OF provided(6) refl a(1)] by simp
    moreover from this have "pw = env_password env a"
      using resolve_demo(2) [OF provided(6) refl a(1)] a(2) by (simp add: account_password_def)
    ultimately show ?thesis using x' a provided(9) by blast
  qed
qed

text \<open>After a successful run every demo account can log in with the password of its variable, or with
  its built-in password where the variable is unset; an account that the run created, which after \<open>--reset\<close>
  is each of them, has its role and reads exactly its one jurisdiction and sector from then on.\<close>

theorem demo_accounts_log_in:
  assumes "demo_main lib env args now clock db = (db', Inr (0, outs))"
    and "hashes_verify lib" "ids_fresh db" "distinct (map us_email (users db))" "a \<in> set demo_accounts"
  shows "(\<exists>db'' resp. login_request (sl_verify lib) dummy jlib cfg t (da_email a) (account_password env a) ct db'
            = (db'', Inr resp))
    \<and> map fst outs = map da_email demo_accounts
    \<and> (dm_reset args \<longrightarrow> (da_email a, Created) \<in> set outs)
    \<and> ((da_email a, Created) \<in> set outs \<longrightarrow>
        (\<exists>x. find_by_email db' (da_email a) = Some x \<and> us_role x = da_role a
           \<and> (\<forall>t' \<ge> clock - thirty_days. set (scope_of db' t' (us_id x)) = set_option (da_scope a))))"
  using assms(1)
proof (cases rule: demo_main_cases)
  case untouched
  then show ?thesis by blast
next
  case refused
  then show ?thesis by simp
next
  case (provided raw db1 db2 resolved dflt outs')
  have o: "outs' = outs" using provided(9) by simp
  note sw = swept_state [OF provided(4,5) assms(3,4)]
  note fr = provision_all_frame [OF provided(8) assms(2) sw(1,2)]
  obtain pw out where p: "resolved (da_email a) = Some pw" "(da_email a, out) \<in> set outs"
    "provisioned lib clock a pw out db'" "find_by_email db2 (da_email a) = None \<longrightarrow> out = Created"
    using provision_all_provisioned [OF provided(8) [unfolded o] assms(2) sw(1,2) distinct_demo_accounts assms(5)]
    by (elim exE conjE) (rule that)
  have pw: "pw = account_password env a"
    using resolve_demo(2) [OF provided(6) refl assms(5)] p(1) by simp
  obtain x where x: "find_by_email db' (da_email a) = Some x" "sl_verify lib pw (us_password_hash x) = Inr True"
    "out = Created \<longrightarrow> us_role x = da_role a
             \<and> (\<forall>t \<ge> clock - thirty_days. set (scope_of db' t (us_id x)) = set_option (da_scope a))"
    using p(3) by (auto simp: provisioned_def)
  have "distinct (map fst outs)" using fr distinct_demo_accounts by (simp add: o)
  then have "out = Created" if "(da_email a, Created) \<in> set outs"
    using that p(2) by (metis eq_key_imp_eq_value)
  moreover have "out = Created" if "dm_reset args"
    using p(4) sw(3) that demo_emails_like [OF assms(5)] by (auto simp: find_by_email_None)
  moreover have "\<exists>db'' resp. login_request (sl_verify lib) dummy jlib cfg t (da_email a) (account_password env a) ct db' = (db'', Inr resp)"
    using login_with_password [OF x(1) x(2)] fr pw by blast
  moreover have "map fst outs = map da_email demo_accounts" using fr o by simp
  ultimately show ?thesis using x p(2) by blast
qed

text \<open>Running the script again with the same environment and without \<open>--reset\<close>, at any later time and
  with fresh salts, reports every account as unchanged and leaves the whole database as it is.\<close>

theorem demo_rerun_unchanged:
  assumes "demo_main lib env args now clock db = (db', Inr (0, outs))"
    and "hashes_verify lib" "ids_fresh db" "distinct (map us_email (users db))"
    and "sl_verify lib' = sl_verify lib" "sl_connect lib' = sl_connect lib"
    and "\<not> dm_reset args'" "dm_defaults args' = dm_defaults args"
  shows "demo_main lib' env args' now' clock' db'
    = (db', Inr (0, map (\<lambda>a. (da_email a, Unchanged)) demo_accounts))"
  using assms(1)
proof (cases rule: demo_main_cases)
  case untouched
  then show ?thesis by blast
next
  case refused
  then show ?thesis by simp
next
  case (provided raw db1 db2 resolved dflt outs')
  note sw = swept_state [OF provided(4,5) assms(3,4)]
  note fr = provision_all_frame [OF provided(8) assms(2) sw(1,2)]
  have fresh: "ids_fresh db'" using fr by blast
  have fit: "\<forall>a \<in> set demo_accounts. \<exists>pw x. resolved (da_email a) = Some pw \<and> find_by_email db' (da_email a) = Some x
      \<and> sl_verify lib' pw (us_password_hash x) = Inr True"
    using provision_all_provisioned [OF provided(8) assms(2) sw(1,2) distinct_demo_accounts]
    unfolding provisioned_def assms(5) by metis
  have "unlike legacy_like r" if "r \<in> set (users db')" for r
  proof -
    have "us_email r \<in> us_email ` set (users db2) \<union> da_email ` set demo_accounts" using fr that by blast
    then show ?thesis using sw(3) demo_emails_not_legacy by auto
  qed
  then have idle: "legacy_sweep db' = Inr db'" by (intro legacy_sweep_idle) blast
  show ?thesis
    using provided(1-3,6) assms(6-8)
    by (simp add: demo_main_def transaction_def demo_body_def idle downgrade_candidates_idle [OF fit]
        provision_all_idle [OF fresh fit])
qed

section \<open>Operational metrics\<close>

text \<open>The metrics of a window that one call has queried are what every call within the following
  minute returns, without another query, whatever calls for the same or the other window come between.\<close>

theorem metrics_cached_for_a_minute:
  assumes "ttl_ok (he_cache env)"
    and "tl_get (he_cache env) (hs_cache st) t (api_metrics_query_id, w) = None"
    and "fetch_api_metrics env t w st = (st1, Inr m)"
    and "fetches env t st1 t' st2" "t' \<le> t''" "t'' < t + cache_ttl"
  shows "fetch_api_metrics env t'' w st2 = (st2, Inr m)"
proof -
  have "holds_until env w m (t + cache_ttl) t' st2"
    using fetches_hold [OF assms(4,1) stored_holds [OF assms(1,3,2)]] assms(5,6) by simp
  then show ?thesis using assms(5,6) by (simp add: holds_until_def fetch_api_metrics_def)
qed

text \<open>C35. Every answer of the API health route, after any calls on a cleared cache, has the shape that the
  wire model promises: the hour and the day in this order, each either unavailable with a reason and
  without values or with values and without a reason, rates that are not negative and error rates between
  0 and 1, given that the workspace counts failures among the requests.\<close>

theorem api_health_shape:
  assumes "ttl_ok (he_cache env)" "counts_sane env"
    and "fetches env t0 (reset_logs_query_client env st0) t st" "t \<le> t1" "t1 \<le> t2"
    and "api_health env t1 t2 st = (st', Inr ws)"
  shows "\<exists>h d. ws = [h, d] \<and> slot_ok Hour h \<and> slot_ok Day d"
proof -
  have sane: "cache_sane env t st" by (rule fetches_sane [OF assms(3,1,2) cleared_sane [OF assms(1)]])
  obtain st1 r where f: "api_window env t1 Hour st = (st1, r)" by fastforce
  obtain h where h: "r = Inr h" using assms(6) f by (cases r) (auto simp: api_health_def)
  note s1 = api_window_ok [OF assms(1,2) sane assms(4) f [unfolded h]]
  obtain st2 q where g: "api_window env t2 Day st1 = (st2, q)" by fastforce
  obtain d where d: "q = Inr d" using assms(6) f h g by (cases q) (auto simp: api_health_def)
  have "ws = [h, d]" using assms(6) f h g d by (simp add: api_health_def)
  then show ?thesis using s1 api_window_ok [OF assms(1,2) _ assms(5) g [unfolded d]] by blast
qed

text \<open>The poll backlog counts two kinds of rows: those that a tick with room enough claims, and
  parked ones, which no tick ever claims, so that the count does not reach zero while a document is parked.\<close>

theorem backlog_splits:
  assumes "keyed db" "length (schedule db) \<le> nat batch"
  shows "ih_backlog (ingestion_health now (schedule db) incs) =
      length (filter (\<lambda>r. overdue now r \<and> s_document r \<in> set (claim now thr batch {} db)) (schedule db))
      + length (filter (\<lambda>r. overdue now r \<and> thr < s_failures r) (schedule db))"
proof -
  have claimed: "s_document r \<in> set (claim now thr batch {} db) \<longleftrightarrow> \<not> thr < s_failures r"
    if "r \<in> set (schedule db)" "overdue now r" for r
    using claim_all_due [OF assms(2) that(1)] claim_not_parked [OF assms(1) that(1)] that(2)
    by (auto simp: overdue_def due_def)
  then have "filter (\<lambda>r. overdue now r \<and> s_document r \<in> set (claim now thr batch {} db)) (schedule db) =
      filter (\<lambda>r. overdue now r \<and> \<not> thr < s_failures r) (schedule db)"
    by (intro filter_cong refl) blast
  then show ?thesis
    using length_filter_split [of "overdue now" "schedule db" "\<lambda>r. thr < s_failures r"]
    by (simp add: ingestion_health_def)
qed

section \<open>Assembly\<close>

text \<open>C26. Whatever the routers do, every response to a browser request from an allowed origin reaches it
  readable and correlated: its start carries the CORS header for the origin and exactly one request id, the
  one the client sent or the minted one; an exception escapes only after the response had begun, and one
  raised before becomes a complete 500 response; the request id is unbound again afterwards.\<close>

theorem responses_reach_browser:
  assumes "create_app hex cors router env = Inr app" "cors_ok cors"
    and "rq_type rq = ''http''" "origin \<in> set (cors_origins env)"
    and "header_values ''origin'' (rq_headers rq) = [origin]" "\<not> preflight rq"
    and "extract_or_mint_request_id hex rq st = (st1, rid)" "app rq st = (st', msgs, r)"
  shows "(\<forall>code hs. Start code hs \<in> set msgs \<longrightarrow>
        header_values ''access-control-allow-origin'' hs = [origin] \<and> header_values ''x-request-id'' hs = [rid])
    \<and> (\<forall>e. r = Some (Exception e) \<longrightarrow> (\<exists>m \<in> set msgs. is_start m))
    \<and> (\<forall>st2 e. router rq (st1\<lparr>cx_request_id := rid\<rparr>) = (st2, [], Some (Exception e)) \<longrightarrow>
          r = None \<and> (\<exists>hs. hd msgs = Start 500 hs) \<and> length msgs = 2)
    \<and> cx_request_id st' = cx_request_id st"
proof -
  obtain s where s: "load_settings env = Inr s" using assms(1) by (auto simp: create_app_def bindE_eq_Inr)
  have origins: "as_origins s = cors_origins env"
    using s by (auto simp: load_settings_def bindE_eq_Inr)
  then have "as_origins s \<noteq> []" using assms(4) by auto
  then have app: "app = request_context hex (cors (cors_origins env) (cors_friendly_errors router))"
    using assms(1) s origins by (simp add: create_app_def)
  obtain add where add: "\<And>hs. header_values ''access-control-allow-origin'' (add hs) = [origin]"
    and run: "\<And>app st. cors (cors_origins env) app rq st =
        (case app rq st of (st', msgs, r) \<Rightarrow>
           (st', map (\<lambda>m. case m of Start code hs \<Rightarrow> Start code (add hs) | Other x \<Rightarrow> Other x) msgs, r))"
    using assms(2-6) unfolding cors_ok_def by blast
  obtain st2 ms q where inner: "cors_friendly_errors router rq (st1\<lparr>cx_request_id := rid\<rparr>) = (st2, ms, q)"
    by (metis prod_cases3)
  let ?tag = "\<lambda>m. case m of Start code hs \<Rightarrow> Start code (add hs) | Other x \<Rightarrow> Other x"
  have res: "st' = st2\<lparr>cx_request_id := cx_request_id st1\<rparr>" "msgs = map (with_request_id rid) (map ?tag ms)" "r = q"
    using assms(3,7,8) by (simp_all add: app request_context_def run inner)
  have start: "is_start (with_request_id rid (?tag m)) = is_start m" for m
    by (simp add: is_start_def with_request_id_def split: message.split)
  have heads: "header_values ''access-control-allow-origin'' hs = [origin] \<and> header_values ''x-request-id'' hs = [rid]"
    if m: "Start code hs \<in> set msgs" for code hs
  proof -
    obtain m where m: "m \<in> set ms" "with_request_id rid (?tag m) = Start code hs" using m by (auto simp: res(2))
    obtain hs0 where h: "?tag m = Start code hs0" "header_values ''x-request-id'' hs = [rid]"
      "\<And>n. n \<noteq> ''x-request-id'' \<Longrightarrow> header_values n hs = header_values n hs0"
      by (rule with_request_id_Start [OF m(2)]) (rule that, simp_all)
    have "header_values ''access-control-allow-origin'' hs = header_values ''access-control-allow-origin'' hs0"
      by (rule h(3)) simp
    with h(1,2) show ?thesis using add by (auto split: message.splits)
  qed
  have esc: "\<exists>m \<in> set msgs. is_start m" if "r = Some (Exception e)" for e
    using cors_friendly_errors_escape [OF assms(3) inner [unfolded that [unfolded res(3)]]] start
    by (auto simp: res(2))
  have crash: "r = None \<and> (\<exists>hs. hd msgs = Start 500 hs) \<and> length msgs = 2"
    if "router rq (st1\<lparr>cx_request_id := rid\<rparr>) = (st3, [], Some (Exception e))" for st3 e
  proof -
    have "q = None \<and> ms = error_response"
      using cors_friendly_errors_crash [where app = router, OF assms(3) that] inner by simp
    then show ?thesis by (simp add: res(2,3) error_response_def with_request_id_def)
  qed
  have "cx_request_id st1 = cx_request_id st"
    using assms(7) by (auto simp: extract_or_mint_request_id_def split: option.splits prod.splits)
  then show ?thesis using heads esc crash by (simp add: res(1))
qed

section \<open>Witnesses\<close>

text \<open>A cache as a function from keys to the value and its time; a client that always answers the same.\<close>

definition map_cache :: "(cache_key \<Rightarrow> (int \<times> api_metrics) option) ttl_lib" where
  "map_cache = \<lparr>tl_get = (\<lambda>c t k. case c k of None \<Rightarrow> None | Some (s, m) \<Rightarrow> if t < s + cache_ttl then Some m else None),
     tl_set = (\<lambda>c t k m. c(k \<mapsto> (t, m))), tl_clear = (\<lambda>_ _. None)\<rparr>"

lemma map_cache_ok: "ttl_ok map_cache"
  by (simp add: ttl_ok_def map_cache_def)

definition steady_metrics :: "(cache_key \<Rightarrow> (int \<times> api_metrics) option, unit, nat) health_env" where
  "steady_metrics = \<lparr>he_cache = map_cache, he_env = (\<lambda>v. if v = workspace_env_var then Some ''w'' else None),
     he_import = Inr (), he_client = Inr (), he_query = (\<lambda>_ n _ _ _. (Suc n, Inr (Some [Some [[Some 120, Some 30, Some 8]]])))\<rparr>"

definition idle_metrics :: "(cache_key \<Rightarrow> (int \<times> api_metrics) option, unit, nat) health_state" where
  "idle_metrics = \<lparr>hs_cache = (\<lambda>_. None), hs_override = None, hs_default = None, hs_world = 0\<rparr>"

definition hour_metrics :: api_metrics where
  "hour_metrics = \<lparr>am_window = Hour, am_rate = Some 2, am_error_rate = Some (1 / 4), am_p95 = Some 8\<rparr>"

lemma steady_query: "query_metrics steady_metrics cl ws Hour n = (Suc n, Inr hour_metrics)"
  by (simp add: query_metrics_def steady_metrics_def extract_row_def row_int_def metrics_of_def window_seconds_def hour_metrics_def)

lemma steady_parts:
  "workspace_id (he_env steady_metrics) = Inr ''w''" "he_cache steady_metrics = map_cache"
  "get_client steady_metrics idle_metrics = (idle_metrics\<lparr>hs_default := Some ()\<rparr>, Inr ())"
  "tl_get map_cache (hs_cache idle_metrics) t k = None"
  by (simp_all add: steady_metrics_def workspace_id_def get_client_def idle_metrics_def map_cache_def)

lemma steady_fetch:
  "fetch_api_metrics steady_metrics 0 Hour idle_metrics =
     (idle_metrics\<lparr>hs_default := Some (), hs_world := 1,
        hs_cache := [(api_metrics_query_id, Hour) \<mapsto> (0, hour_metrics)]\<rparr>, Inr hour_metrics)"
  by (simp add: fetch_api_metrics_def steady_parts steady_query)
    (simp add: map_cache_def idle_metrics_def)

lemma metrics_cached_for_a_minute_witness:
  "\<exists>st. fetch_api_metrics steady_metrics 0 Hour idle_metrics = (st, Inr hour_metrics) \<and> hs_world st = 1
     \<and> fetch_api_metrics steady_metrics 59000000 Hour st = (st, Inr hour_metrics)"
proof -
  have "ttl_ok (he_cache steady_metrics)" by (simp add: steady_metrics_def map_cache_ok)
  moreover have "tl_get (he_cache steady_metrics) (hs_cache idle_metrics) 0 (api_metrics_query_id, Hour) = None"
    by (simp add: steady_metrics_def map_cache_def idle_metrics_def)
  ultimately show ?thesis
    using metrics_cached_for_a_minute [OF _ _ steady_fetch fetches.none, of 59000000]
    unfolding steady_fetch by (simp add: cache_ttl_def second_def)
qed

lemma steady_sane: "counts_sane steady_metrics"
  by (auto simp: counts_sane_def steady_metrics_def extract_row_def row_int_def)

lemma api_health_shape_witness:
  "\<exists>st h d. api_health steady_metrics 1 2 (reset_logs_query_client steady_metrics idle_metrics) = (st, Inr [h, d])
     \<and> slot_ok Hour h \<and> slot_ok Day d \<and> mw_values h = Some \<lparr>mv_rate = Some 2, mv_p95 = Some 8, mv_error_rate = Some (1 / 4)\<rparr>"
proof -
  have ok: "ttl_ok (he_cache steady_metrics)" by (simp add: steady_metrics_def map_cache_ok)
  have "\<exists>st h d. api_health steady_metrics 1 2 (reset_logs_query_client steady_metrics idle_metrics) = (st, Inr [h, d])
      \<and> mw_values h = Some \<lparr>mv_rate = Some 2, mv_p95 = Some 8, mv_error_rate = Some (1 / 4)\<rparr>"
    by (simp add: api_health_def api_window_def fetch_api_metrics_def steady_metrics_def reset_logs_query_client_def
        idle_metrics_def map_cache_def workspace_id_def get_client_def query_metrics_def extract_row_def row_int_def
        metrics_of_def window_seconds_def)
  then obtain st h d where run: "api_health steady_metrics 1 2 (reset_logs_query_client steady_metrics idle_metrics) = (st, Inr [h, d])"
    "mw_values h = Some \<lparr>mv_rate = Some 2, mv_p95 = Some 8, mv_error_rate = Some (1 / 4)\<rparr>" by blast
  from api_health_shape [OF ok steady_sane fetches.none _ _ run(1), of 0] run show ?thesis by auto
qed

lemma backlog_splits_witness:
  "let rows = [\<lparr>s_document = 1, s_cadence = 10, s_next = 5, s_last = None, s_failures = 0\<rparr>,
               \<lparr>s_document = 2, s_cadence = 10, s_next = 3, s_last = None, s_failures = 9\<rparr>];
       db = \<lparr>corpus = library no_rows_db, schedule = rows, incidents = []\<rparr>
   in ih_backlog (ingestion_health 7 rows []) =
        length (filter (\<lambda>r. overdue 7 r \<and> s_document r \<in> set (claim 7 5 4 {} db)) rows)
        + length (filter (\<lambda>r. overdue 7 r \<and> 5 < s_failures r) rows)"
  unfolding Let_def
  using backlog_splits [of "\<lparr>corpus = library no_rows_db,
      schedule = [\<lparr>s_document = 1, s_cadence = 10, s_next = 5, s_last = None, s_failures = 0\<rparr>,
               \<lparr>s_document = 2, s_cadence = 10, s_next = 3, s_last = None, s_failures = 9\<rparr>], incidents = []\<rparr>" 4 7 "[]" 5]
  by (simp add: keyed_def)

text \<open>A CORS layer that does what is documented, and a router that always fails.\<close>

definition put_header :: "string \<Rightarrow> string \<Rightarrow> headers \<Rightarrow> headers" where
  "put_header name v hs = filter (\<lambda>(k, _). header_lower k \<noteq> name) hs @ [(name, v)]"

definition sample_cors :: "string list \<Rightarrow> app \<Rightarrow> app" where
  "sample_cors origins app rq st =
     (case header_values ''origin'' (rq_headers rq) of
        [origin] \<Rightarrow>
          (case app rq st of (st', msgs, r) \<Rightarrow>
             (st', map (\<lambda>m. case m of Start code hs \<Rightarrow> Start code (put_header ''access-control-allow-origin'' origin hs)
                               | Other x \<Rightarrow> Other x) msgs, r))
      | _ \<Rightarrow> app rq st)"

lemma sample_cors_ok: "cors_ok sample_cors"
proof -
  have low: "header_lower ''access-control-allow-origin'' = ''access-control-allow-origin''"
    by (simp add: header_lower_def lower_char_def)
  have "header_values ''access-control-allow-origin'' (put_header ''access-control-allow-origin'' origin hs) = [origin]"
    for origin hs
    by (simp add: put_header_def header_values_append header_values_filter_same) (simp add: header_values_def low)
  then show ?thesis
    unfolding cors_ok_def
    by (intro allI impI exI [of _ "put_header ''access-control-allow-origin'' _"] conjI)
      (simp_all add: sample_cors_def)
qed

definition api_vars :: "string \<Rightarrow> string option" where
  "api_vars v = (if v = ''HORIZONS_CORS_ORIGINS'' then Some ''https://a.example, '' else Some ''x'')"

definition failing_router :: app where
  "failing_router rq st = (st, [], Some (Exception KeyError))"

definition browser_get :: http_scope where
  "browser_get = \<lparr>rq_type = ''http'', rq_method = ''GET'', rq_path = ''/v1/me'', rq_headers = [(''origin'', ''https://a.example'')]\<rparr>"

definition idle_asgi :: asgi_state where
  "idle_asgi = \<lparr>cx_request_id = [], cx_user_id = [], cx_log = [], cx_uuids = 7\<rparr>"

lemma responses_reach_browser_witness:
  "\<exists>app st msgs hs. create_app (\<lambda>n. ''id'') sample_cors failing_router api_vars = Inr app
     \<and> app browser_get idle_asgi = (st, msgs, None) \<and> length msgs = 2 \<and> hd msgs = Start 500 hs
     \<and> header_values ''access-control-allow-origin'' hs = [''https://a.example'']
     \<and> header_values ''x-request-id'' hs = [''id'']"
proof -
  have origin: "''https://a.example'' \<in> set (cors_origins api_vars)"
    by (simp add: cors_origins_def api_vars_def header_strip_def blank_char_def)
  have hv: "header_values ''origin'' (rq_headers browser_get) = [''https://a.example'']"
    by (simp add: header_values_def browser_get_def header_lower_def lower_char_def)
  have "\<exists>s. load_settings api_vars = Inr s"
    unfolding load_settings_total by (simp add: required_vars_def api_vars_def)
  then obtain app where app: "create_app (\<lambda>n. ''id'') sample_cors failing_router api_vars = Inr app"
    by (auto simp: create_app_def Let_def)
  have ext: "extract_or_mint_request_id (\<lambda>n. ''id'') browser_get idle_asgi = (idle_asgi\<lparr>cx_uuids := 8\<rparr>, ''id'')"
    by (simp add: extract_or_mint_request_id_def browser_get_def header_lower_def lower_char_def idle_asgi_def)
  obtain st msgs r where run: "app browser_get idle_asgi = (st, msgs, r)" by (metis prod_cases3)
  have get: "rq_type browser_get = ''http''" "\<not> preflight browser_get"
    by (simp_all add: browser_get_def preflight_def)
  note all = responses_reach_browser [OF app sample_cors_ok get(1) origin hv get(2) ext run]
  have "r = None \<and> (\<exists>hs. hd msgs = Start 500 hs) \<and> length msgs = 2"
    using all by (simp add: failing_router_def)
  then obtain hs where h: "r = None" "hd msgs = Start 500 hs" "length msgs = 2" by blast
  then have start: "Start 500 hs \<in> set msgs" by (metis hd_in_set length_0_conv zero_neq_numeral)
  note heads = conjunct1 [OF all, rule_format, OF start]
  show ?thesis
    by (rule exI [of _ app], rule exI [of _ st], rule exI [of _ msgs], rule exI [of _ hs])
      (use app run h heads in simp)
qed

abbreviation plain_run :: "bool \<Rightarrow> (string \<Rightarrow> string option) \<Rightarrow> api_db \<Rightarrow> api_db \<times> (nat \<times> (string \<times> outcome) list) result" where
  "plain_run reset env db \<equiv> demo_main plain_lib env \<lparr>dm_reset = reset, dm_defaults = True\<rparr> 100 100 db"

lemma no_rows_fresh: "ids_fresh no_rows_db" "distinct (map us_email (users no_rows_db))"
  by (simp_all add: ids_fresh_def no_rows_db_def)

lemma legacy_sweep_no_rows: "legacy_sweep no_rows_db = Inr no_rows_db"
  by (rule legacy_sweep_idle) (simp add: no_rows_db_def)

lemma demo_teardown_no_rows: "demo_teardown no_rows_db = Inr no_rows_db"
  by (simp add: demo_teardown_def teardown_pattern_def delete_access_log_like_def delete_users_like_def Let_def
      delete_subscriptions_like_def delete_scopes_like_def delete_watchlists_like_def no_rows_db_def)

lemma connects: "sl_connect plain_lib (normalise_db_url ''postgres://localhost/horizons'') = Inr ()"
  using normalise_postgres [of "''localhost/horizons''"] by (simp add: plain_lib_def starts_with_def)

text \<open>The first run on an empty database succeeds.\<close>

lemma first_run_any:
  assumes env: "env ''HORIZONS_DB_URL'' = Some raw" "raw \<noteq> []" "sl_connect plain_lib (normalise_db_url raw) = Inr ()"
    and set: "fst (snd (resolve_passwords env allow demo_accounts)) = []"
  shows "\<exists>db outs. demo_main plain_lib env \<lparr>dm_reset = reset, dm_defaults = allow\<rparr> 100 100 no_rows_db = (db, Inr (0, outs))"
proof -
  obtain resolved dflt where res: "resolve_passwords env allow demo_accounts = (resolved, [], dflt)"
    using set by (metis prod.collapse)
  note some = resolve_demo(2) [OF res refl]
  have none: "existing_password_hash no_rows_db e = None" for e
    by (simp add: existing_password_hash_def find_by_email_def no_rows_db_def)
  have dg: "downgrade_candidates plain_lib resolved dflt no_rows_db demo_accounts = Inr []"
  proof -
    have "would_downgrade plain_lib resolved dflt no_rows_db a = Inr False" for a
      by (simp add: would_downgrade_def none)
    then have "filterE (would_downgrade plain_lib resolved dflt no_rows_db) demo_accounts = Inr (filter (\<lambda>_. False) demo_accounts)"
      by (intro filterE_total)
    then show ?thesis by (simp add: downgrade_candidates_def)
  qed
  have "\<exists>db outs. provision_all plain_lib 100 100 resolved no_rows_db demo_accounts = Inr (db, outs)"
    by (rule provision_all_total [OF _ plain_lib_verifies no_rows_fresh]) (use some in \<open>auto simp: plain_lib_def\<close>)
  then obtain db outs where "provision_all plain_lib 100 100 resolved no_rows_db demo_accounts = Inr (db, outs)" by blast
  then show ?thesis
    by (simp add: demo_main_def env res transaction_def demo_body_def legacy_sweep_no_rows
        demo_teardown_no_rows dg)
qed

lemma first_run:
  assumes "env ''HORIZONS_DB_URL'' = Some ''postgres://localhost/horizons''"
  shows "\<exists>db outs. plain_run reset env no_rows_db = (db, Inr (0, outs))"
proof (rule first_run_any [where env = env and raw = "''postgres://localhost/horizons''", OF assms _ connects])
  obtain resolved missing dflt where res: "resolve_passwords env True demo_accounts = (resolved, missing, dflt)"
    by (metis prod_cases3)
  then show "fst (snd (resolve_passwords env True demo_accounts)) = []" using resolve_demo(1) [OF res] by simp
qed simp

lemma demo_run_keeps_credentials_witness:
  "\<exists>db outs db' r x. plain_run False all_vars no_rows_db = (db, Inr (0, outs)) \<and> plain_run False no_vars db = (db', r)
     \<and> find_by_email db ''demo-uk@demo.example.com'' = Some x \<and> x \<in> set (users db')"
proof -
  obtain db outs where run: "plain_run False all_vars no_rows_db = (db, Inr (0, outs))"
    using first_run [of all_vars False] by (auto simp: all_vars_def)
  obtain db' r where again: "plain_run False no_vars db = (db', r)" by fastforce
  have wf: "ids_fresh db" "distinct (map us_email (users db))"
    using demo_main_wf [OF run plain_lib_verifies no_rows_fresh] by auto
  have none: "env_password no_vars a = []" if "a \<in> set demo_accounts" for a
    using that by (auto simp: demo_accounts_def env_password_def no_vars_def)
  obtain x where x: "find_by_email db ''demo-uk@demo.example.com'' = Some x"
  proof (cases "find_by_email db ''demo-uk@demo.example.com''")
    case None
    have "\<exists>x. find_by_email db (da_email (hd demo_accounts)) = Some x"
      using run
    proof (cases rule: demo_main_cases)
      case untouched
      then show ?thesis by blast
    next
      case refused
      then show ?thesis by simp
    next
      case (provided raw db1 db2 resolved dflt outs')
      note sw = swept_state [OF provided(4,5) no_rows_fresh]
      show ?thesis
        using provision_all_provisioned [OF provided(8) plain_lib_verifies sw(1,2) distinct_demo_accounts, of "hd demo_accounts"]
        by (auto simp: provisioned_def demo_accounts_def)
    qed
    then show thesis using None by (simp add: demo_accounts_def)
  qed
  have "x \<in> set (users db)" "\<not> like_match legacy_like (us_email x)"
    using find_by_email_SomeD [OF x] by (auto simp: legacy_like_def)
  from demo_run_keeps_credentials [OF again _ plain_lib_verifies wf this] none
  have "x \<in> set (users db')" by auto
  then show ?thesis using run again x by blast
qed

lemma demo_accounts_log_in_witness:
  "\<exists>db outs x. plain_run True all_vars no_rows_db = (db, Inr (0, outs))
     \<and> find_by_email db ''demo-eu@demo.example.com'' = Some x \<and> us_role x = Client
     \<and> set (scope_of db 200 (us_id x)) = {(''EU'', ''BANKING'')}
     \<and> (\<exists>db'' resp. login_request (sl_verify plain_lib) [] sample_jwt sample_cfg 200 ''demo-eu@demo.example.com''
           ''hunter2'' None db = (db'', Inr resp))"
proof -
  obtain db outs where run: "plain_run True all_vars no_rows_db = (db, Inr (0, outs))"
    using first_run [of all_vars True] by (auto simp: all_vars_def)
  let ?a = "demo_accounts ! 1"
  have a: "?a \<in> set demo_accounts" "da_email ?a = ''demo-eu@demo.example.com''" "da_role ?a = Client"
    "da_scope ?a = Some (''EU'', ''BANKING'')" "account_password all_vars ?a = ''hunter2''"
    by (simp_all add: demo_accounts_def account_password_def env_password_def all_vars_def header_strip_def blank_char_def)
  have t: "(100::int) - thirty_days \<le> 200" by (simp add: thirty_days_def second_def)
  from demo_accounts_log_in [OF run plain_lib_verifies no_rows_fresh a(1), of "[]" sample_jwt sample_cfg 200 None] t
  show ?thesis unfolding a(2-5) using run by (auto simp: a)
qed

lemma demo_rerun_unchanged_witness:
  "\<exists>db outs outs'. plain_run False no_vars no_rows_db = (db, Inr (0, outs)) \<and> plain_run False no_vars db = (db, Inr (0, outs'))
     \<and> map snd outs' = [Unchanged, Unchanged, Unchanged]"
proof -
  obtain db outs where run: "plain_run False no_vars no_rows_db = (db, Inr (0, outs))"
    using first_run [of no_vars False] by (auto simp: no_vars_def)
  from demo_rerun_unchanged [OF run plain_lib_verifies no_rows_fresh refl refl, of "\<lparr>dm_reset = False, dm_defaults = True\<rparr>"]
  show ?thesis using run by (auto simp: demo_accounts_def)
qed

end
