(* ===== verification/Fixture_Properties.thy ===== *)
theory Fixture_Properties
  imports E2e_Correct Event_Pages Operations_Properties
begin

text \<open>
  What the two clients of the browser smoke test find after a run of \<open>seed_e2e.py\<close>.
\<close>

text \<open>What the two test clients read of the test documents.\<close>

definition e2e_events :: "api_db \<Rightarrow> timestamp \<Rightarrow> uuid \<Rightarrow> (change_type \<times> rat) list result" where
  "e2e_events db t uid = bindE (select_events (client_session uid t) db) (\<lambda>es.
     Inr (map (\<lambda>e. (e_type e, e_confidence e)) (filter (\<lambda>e. e_document e \<in> docs_like e2e_doc_pattern db) es)))"

text \<open>A run of \<open>seed_e2e.py\<close> on any database whose ids are fresh, however many runs came before, ends with
  status 0 and leaves exactly the two test clients; of the test documents the UK client reads, from thirty days
  before the run on, exactly the MODIFIED event with confidence 0.92 and the MOVED event with 0.95, and the EU
  client exactly the MODIFIED event with 0.78.\<close>

theorem e2e_fixtures_visible:
  assumes "env ''HORIZONS_DB_URL'' = Some raw" "raw \<noteq> []" "sl_connect lib (normalise_db_url raw) = Inr ()"
    and "ids_fresh db" "corpus_fresh (library db)" "\<And>x. length (sha x) = 32"
    and "\<forall>e \<in> set (change_events db). e_document e \<in> d_id ` set (documents (library db)) \<and> ev_id e \<notin> {eids 0, eids 1, eids 2}"
    and "distinct [eids 0, eids 1, eids 2]"
  shows "\<exists>db' uk eu. e2e_main lib sha eids env False now clk db = (db', Inr 0)
    \<and> filter (\<lambda>r. like_match e2e_email_like (us_email r)) (users db') = [uk, eu]
    \<and> us_email uk = uk_email \<and> us_email eu = eu_email
    \<and> (\<forall>t \<ge> max (clk 0) (clk 1) - thirty_days.
         e2e_events db' t (us_id uk) = Inr [(MODIFIED, 92 / 100), (MOVED, 95 / 100)]
         \<and> e2e_events db' t (us_id eu) = Inr [(MODIFIED, 78 / 100)])"
proof -
  obtain db1 lb vc where r: "ids_fresh db1" "e2e_main lib sha eids env False now clk db =
      (e2e_state lib eids clk now lb vc db1, Inr 0)"
    "docs_like e2e_doc_pattern (e2e_state lib eids clk now lb vc db1) = {next_uuid (library db1), next_uuid (library db1) + 3}"
    "\<forall>e \<in> set (change_events db1). e_document e \<notin> {next_uuid (library db1), next_uuid (library db1) + 3}"
    "\<forall>x \<in> set (users db1). \<not> like_match e2e_email_like (us_email x)"
    by (rule e2e_run [where env = env and sha = sha and eids = eids and now = now and clk = clk, OF assms])
  let ?n = "t_next db1" and ?d = "next_uuid (library db1)"
  define db' where "db' = e2e_state lib eids clk now lb vc db1"
  note main = r(2) [folded db'_def] and docs = r(3) [folded db'_def]
  have scope: "scope_of db' = scope_of (e2e_ledger lib now (clk 0) (clk 1) db1)"
    by (intro ext) (simp add: scope_of_def db'_def e2e_state_def)
  have ev: "e2e_events db' t uid = Inr (map (\<lambda>e. (e_type e, e_confidence e))
      (filter (event_visible db' t uid) (fixture_events eids clk ?d)))" for t uid
  proof -
    have "filter (\<lambda>e. event_visible db' t uid e \<and> e_document e \<in> {?d, ?d + 3}) (change_events db1) = []"
      using r(4) by (auto simp: filter_empty_conv)
    moreover have "\<forall>e \<in> set (fixture_events eids clk ?d). e_document e \<in> {?d, ?d + 3}"
      by (simp add: fixture_events_def stored_fixture_def)
    moreover have "change_events db' = change_events db1 @ fixture_events eids clk ?d" by (simp add: db'_def e2e_state_def)
    ultimately show ?thesis
      unfolding e2e_events_def select_events_client [OF client_session_of] docs by (simp add: filter_id_conv cong: filter_cong)
  qed
  have vis: "event_visible db' t uid e \<longleftrightarrow> (e_jurisdiction e, e_sector e) \<in> set (scope_of (e2e_ledger lib now (clk 0) (clk 1) db1) t uid)" for t uid e
    by (simp add: event_visible_def scope)
  have "e2e_events db' t ?n = Inr [(MODIFIED, 92 / 100), (MOVED, 95 / 100)] \<and> e2e_events db' t (Suc ?n) = Inr [(MODIFIED, 78 / 100)]"
    if "max (clk 0) (clk 1) - thirty_days \<le> t" for t
  proof -
    have "clk 0 - thirty_days \<le> t" "clk 1 - thirty_days \<le> t" using that by auto
    note sc = e2e_ledger_scope [OF r(1) this, of lib now]
    show ?thesis
      unfolding ev by (simp add: fixture_events_def vis sc stored_fixture_def uk_pair_def eu_pair_def uk_modified_def
          eu_modified_def uk_moved_def del: One_nat_def)
  qed
  then show ?thesis
    unfolding main using e2e_patterns
    using r(5) by (auto simp: db'_def e2e_state_def e2e_ledger_def Let_def filter_empty_conv)
qed

lemma e2e_fixtures_visible_witness:
  "\<exists>db' uk eu. e2e_main plain_lib (\<lambda>_. replicate 32 0) (\<lambda>n. 90 + int n) no_vars False 5 (\<lambda>_. 5) sample_api_db = (db', Inr 0)
    \<and> filter (\<lambda>r. like_match e2e_email_like (us_email r)) (users db') = [uk, eu]
    \<and> e2e_events db' 5 (us_id uk) = Inr [(MODIFIED, 92 / 100), (MOVED, 95 / 100)]
    \<and> e2e_events db' 5 (us_id eu) = Inr [(MODIFIED, 78 / 100)]"
proof -
  have "\<exists>db' uk eu. e2e_main plain_lib (\<lambda>_. replicate 32 0) (\<lambda>n. 90 + int n) no_vars False 5 (\<lambda>_. 5) sample_api_db = (db', Inr 0)
    \<and> filter (\<lambda>r. like_match e2e_email_like (us_email r)) (users db') = [uk, eu]
    \<and> us_email uk = uk_email \<and> us_email eu = eu_email
    \<and> (\<forall>t \<ge> max 5 5 - thirty_days.
         e2e_events db' t (us_id uk) = Inr [(MODIFIED, 92 / 100), (MOVED, 95 / 100)]
         \<and> e2e_events db' t (us_id eu) = Inr [(MODIFIED, 78 / 100)])"
    by (rule e2e_fixtures_visible [OF _ _ connects])
      (simp_all add: no_vars_def ids_fresh_def corpus_fresh_def sample_db_defs)
  moreover have "max 5 5 - thirty_days \<le> (5 :: int)" by (simp add: thirty_days_def second_def)
  ultimately show ?thesis by blast
qed

end
