(* ===== verification/Worker_Main.thy ===== *)
theory Worker_Main
  imports Claim_Loop
begin

text \<open>
  \<open>horizons_ingestion.__main__\<close>: the order in which the worker's process acquires what it needs and
  releases it again. The pool, the HTTP server, the client, the blob store and the two loops are calls
  outside this module, whose exceptions are an argument. \<open>async with\<close> releases in reverse order.
\<close>

datatype resource = Pool | Healthz | Site | Azure_credential | Client_session | Blob_session

datatype action = Acquire resource | Release resource | Loops

section \<open>Credentials\<close>

definition nonempty_var :: "(string \<Rightarrow> string option) \<Rightarrow> string \<Rightarrow> string option" where
  "nonempty_var env v = (case env v of None \<Rightarrow> None | Some x \<Rightarrow> if x = [] then None else Some x)"

definition read_lawstronaut_credentials :: "(string \<Rightarrow> string option) \<Rightarrow> (string \<times> string) result" where
  "read_lawstronaut_credentials env =
     (case (nonempty_var env ''LAWSTRONAUT_EMAIL'', nonempty_var env ''LAWSTRONAUT_PASSWORD'') of
        (Some email, Some password) \<Rightarrow> Inr (email, password)
      | _ \<Rightarrow> Inl KeyError)"

section \<open>Running\<close>

text \<open>
  A run is the list of its actions with its outcome; \<open>fails a\<close> is the exception that the action \<open>a\<close>
  raises, if any. An acquisition that raises holds nothing. Releases do not raise.
\<close>

type_synonym trace = "action list \<times> unit result"

definition attempt :: "(action \<Rightarrow> exn option) \<Rightarrow> action \<Rightarrow> trace \<Rightarrow> trace" where
  "attempt fails a rest =
     (case fails a of Some e \<Rightarrow> ([a], Inl e) | None \<Rightarrow> (a # fst rest, snd rest))"

text \<open>A bracket that releases whatever the body does.\<close>

definition released_by :: "action list \<Rightarrow> trace \<Rightarrow> trace" where
  "released_by rs body = (fst body @ rs, snd body)"

definition managed :: "(action \<Rightarrow> exn option) \<Rightarrow> resource \<Rightarrow> trace \<Rightarrow> trace" where
  "managed fails r body = attempt fails (Acquire r) (released_by [Release r] body)"

text \<open>\<open>SIGTERM\<close> and \<open>SIGINT\<close> set the event on which both loops end; the loops run until then.\<close>

definition loops :: "(action \<Rightarrow> exn option) \<Rightarrow> trace" where
  "loops fails =
     released_by [Release Healthz, Release Pool, Release Azure_credential]
       ([Loops], case fails Loops of None \<Rightarrow> Inr () | Some e \<Rightarrow> Inl e)"

definition run_worker ::
  "claim_loop_config \<Rightarrow> (string \<Rightarrow> string option) \<Rightarrow> (action \<Rightarrow> exn option) \<Rightarrow> trace" where
  "run_worker cfg env fails =
     (if blob_account_url cfg = None then ([], Inl KeyError)
      else attempt fails (Acquire Pool)
        (case read_lawstronaut_credentials env of
           Inl e \<Rightarrow> ([], Inl e)
         | Inr _ \<Rightarrow>
             attempt fails (Acquire Healthz)
               (attempt fails (Acquire Site)
                 (attempt fails (Acquire Azure_credential)
                   (managed fails Client_session
                     (managed fails Blob_session (loops fails)))))))"

definition worker_main ::
  "(string \<Rightarrow> int result) \<Rightarrow> (string \<Rightarrow> rat result) \<Rightarrow> (string \<Rightarrow> string option) \<Rightarrow> (action \<Rightarrow> exn option) \<Rightarrow> trace" where
  "worker_main pyint pyfloat env fails =
     (case from_env pyint pyfloat env of
        Inl e \<Rightarrow> ([], Inl e)
      | Inr cfg \<Rightarrow> run_worker cfg env fails)"

section \<open>What is released\<close>

definition held :: "action list \<Rightarrow> resource \<Rightarrow> bool" where
  "held as r \<longleftrightarrow> Acquire r \<in> set as \<and> Release r \<notin> set as"

text \<open>Once the loops have started, however they end, everything is released: the HTTP server, the pool
  and the credential, then the blob store and the client.\<close>

lemma run_worker_drains:
  assumes "Loops \<in> set (fst (run_worker cfg env fails))"
  shows "fst (run_worker cfg env fails) =
      map Acquire [Pool, Healthz, Site, Azure_credential, Client_session, Blob_session] @ [Loops]
      @ map Release [Healthz, Pool, Azure_credential, Blob_session, Client_session]
    \<and> snd (run_worker cfg env fails) = (case fails Loops of None \<Rightarrow> Inr () | Some e \<Rightarrow> Inl e)"
  using assms
  by (auto simp: run_worker_def attempt_def managed_def released_by_def loops_def split: option.splits sum.splits if_splits)

text \<open>Missing credentials are noticed only after the pool is open, and leave it open.\<close>

lemma missing_credentials_hold_pool:
  assumes "blob_account_url cfg \<noteq> None" "fails (Acquire Pool) = None" "env ''LAWSTRONAUT_EMAIL'' = None"
  shows "run_worker cfg env fails = ([Acquire Pool], Inl KeyError)" "held (fst (run_worker cfg env fails)) Pool"
  using assms
  by (simp_all add: run_worker_def attempt_def read_lawstronaut_credentials_def nonempty_var_def held_def)

end
