(* ===== verification/Bundled.thy ===== *)
theory Bundled
  imports Curated Similarity
begin

text \<open>
  The loaders of the configuration files that ship inside the package: \<open>core/alignment/portal_config.py\<close>
  and the second half of \<open>core/alignment/tuning.py\<close>. A resource directory is a list of entries; the YAML
  parser and pydantic's \<open>model_validate\<close> are parameters.
\<close>

record entry_file =
  ef_name :: string
  ef_is_file :: bool
  ef_text :: string

definition yaml_suffix :: string where "yaml_suffix = ''.yaml''"

definition find_resource :: "entry_file list \<Rightarrow> string \<Rightarrow> entry_file option" where
  "find_resource dir name = List.find (\<lambda>e. ef_name e = name \<and> ef_is_file e) dir"

definition or_empty :: "yaml \<Rightarrow> yaml" where
  "or_empty raw = (case raw of YNull \<Rightarrow> YDict [] | y \<Rightarrow> y)"

definition ends_with :: "string \<Rightarrow> string \<Rightarrow> bool" where
  "ends_with suffix s \<longleftrightarrow> length suffix \<le> length s \<and> drop (length s - length suffix) s = suffix"

definition remove_suffix :: "string \<Rightarrow> string \<Rightarrow> string" where
  "remove_suffix suffix s = (if ends_with suffix s then take (length s - length suffix) s else s)"

definition load_portal_config ::
  "(string \<Rightarrow> yaml result) \<Rightarrow> (yaml \<Rightarrow> 'cfg result) \<Rightarrow> entry_file list \<Rightarrow> string \<Rightarrow> 'cfg result" where
  "load_portal_config safe_load validate dir slug =
     (case find_resource dir (slug @ yaml_suffix) of
        None \<Rightarrow> Inl KeyError
      | Some e \<Rightarrow> bindE (safe_load (ef_text e)) (\<lambda>raw. validate (or_empty raw)))"

definition list_portal_slugs :: "entry_file list \<Rightarrow> string list" where
  "list_portal_slugs dir =
     sort (map (\<lambda>e. remove_suffix yaml_suffix (ef_name e))
       (filter (\<lambda>e. ef_is_file e \<and> ends_with yaml_suffix (ef_name e)) dir))"

text \<open>\<open>read_fields\<close> is pydantic's reading of the four fields; the bounds and the validator are the model's own.\<close>

definition load_tuning_config ::
  "(string \<Rightarrow> yaml result) \<Rightarrow> (yaml \<Rightarrow> tuning result) \<Rightarrow> entry_file list \<Rightarrow> string \<Rightarrow> tuning result" where
  "load_tuning_config safe_load read_fields dir name =
     (case find_resource dir (name @ yaml_suffix) of
        None \<Rightarrow> Inl KeyError
      | Some e \<Rightarrow> bindE (safe_load (ef_text e)) (\<lambda>raw. bindE (read_fields (or_empty raw)) validate_tuning))"

definition list_tuning_config_names :: "entry_file list \<Rightarrow> string list" where
  "list_tuning_config_names dir =
     sort (map (\<lambda>e. remove_suffix yaml_suffix (ef_name e))
       (filter (\<lambda>e. ef_is_file e \<and> ends_with yaml_suffix (ef_name e)) dir))"

section \<open>The listed names are the loadable ones\<close>

lemma ends_with_iff: "ends_with x s \<longleftrightarrow> (\<exists>p. s = p @ x)"
proof
  assume e: "ends_with x s"
  have "s = take (length s - length x) s @ drop (length s - length x) s" by simp
  also have "drop (length s - length x) s = x" using e by (simp add: ends_with_def)
  finally show "\<exists>p. s = p @ x" by blast
qed (auto simp: ends_with_def)

lemma remove_suffix_append [simp]: "remove_suffix x (p @ x) = p"
  by (simp add: remove_suffix_def ends_with_def)

lemma listed_iff_found: "slug \<in> set (list_portal_slugs dir) \<longleftrightarrow> find_resource dir (slug @ yaml_suffix) \<noteq> None"
  by (force simp: list_portal_slugs_def find_resource_def find_None_iff ends_with_iff image_iff)

text \<open>A loaded tuning satisfies the bounds.\<close>

lemma load_tuning_valid:
  "load_tuning_config safe_load read_fields dir name = Inr tn \<Longrightarrow>
     name \<in> set (list_tuning_config_names dir) \<and> validate_tuning tn = Inr tn"
  using listed_iff_found [of name dir]
  by (auto simp: load_tuning_config_def list_tuning_config_names_def list_portal_slugs_def bindE_eq_Inr
      validate_tuning_def split: option.splits if_splits)

end
