(* ===== verification/Seed_CLI.thy ===== *)
theory Seed_CLI
  imports Seed_Correct
begin

text \<open>
  \<open>scripts/seed_curated_set.py\<close>: the files it reads, the pairs it discovers, and the run over \<open>run_seed\<close>
  and \<open>stage_synthetic_v2\<close>. The JSON parser and the connection are parameters; JSON values are written in
  the datatype of the YAML ones. File names are byte strings, so that the digits of a name are the ASCII ones.
\<close>

section \<open>The inventory\<close>

fun json_key :: "yaml \<Rightarrow> string" where
  "json_key (YStr s) = s"
| "json_key _ = []"

fun is_dict :: "yaml \<Rightarrow> bool" where
  "is_dict (YDict d) = True"
| "is_dict _ = False"

fun as_fixture :: "yaml \<Rightarrow> fixture result" where
  "as_fixture (YDict d) = Inr (map (\<lambda>(k, v). (json_key k, v)) d)"
| "as_fixture _ = Inl AttributeError"

text \<open>
  An entry that is no object raises in the loop of \<open>select\<close>, unless an entry before it does. The result
  \<open>None\<close> stands for a document whose \<open>fixtures\<close> is no list.
\<close>

definition fixtures_of :: "seed_lib \<Rightarrow> curated_set \<Rightarrow> yaml list \<Rightarrow> fixture list result" where
  "fixtures_of lib cs vs =
     (case mapE as_fixture vs of
        Inr fxs \<Rightarrow> Inr fxs
      | Inl e \<Rightarrow> bindE (mapE as_fixture (takeWhile is_dict vs)) (\<lambda>fxs. bindE (select_rows lib cs fxs) (\<lambda>_. Inl e)))"

definition inventory :: "seed_lib \<Rightarrow> curated_set \<Rightarrow> yaml \<Rightarrow> fixture list option result" where
  "inventory lib cs doc =
     (case doc of
        YDict d \<Rightarrow>
          (case map_of d (YStr ''fixtures'') of
             None \<Rightarrow> Inr (Some [])
           | Some (YList vs) \<Rightarrow> bindE (fixtures_of lib cs vs) (\<lambda>fxs. Inr (Some fxs))
           | Some _ \<Rightarrow> Inr None)
      | _ \<Rightarrow> Inl AttributeError)"

section \<open>Discovery\<close>

definition is_digit :: "char \<Rightarrow> bool" where
  "is_digit c \<longleftrightarrow> CHR ''0'' \<le> c \<and> c \<le> CHR ''9''"

definition is_lower :: "char \<Rightarrow> bool" where
  "is_lower c \<longleftrightarrow> CHR ''a'' \<le> c \<and> c \<le> CHR ''z''"

text \<open>\<open>^(?P<iso>[a-z]{2})-(?P<docid>\\d+)-v2\\.md$\<close>; every such name matches the glob \<open>*.md\<close>.\<close>

definition v2_filename :: "string \<Rightarrow> (string \<times> string) option" where
  "v2_filename name =
     (case name of
        a # b # c # rest \<Rightarrow>
          let ds = takeWhile is_digit rest
          in if is_lower a \<and> is_lower b \<and> c = CHR ''-'' \<and> ds \<noteq> [] \<and> dropWhile is_digit rest = ''-v2.md''
             then Some ([a, b], ds) else None
      | _ \<Rightarrow> None)"

text \<open>A directory is the list of its files, \<open>None\<close> when it is none.\<close>

type_synonym directory = "(string \<times> bytes) list option"

definition v1_name_of :: "string \<times> string \<Rightarrow> string" where
  "v1_name_of p = fst p @ ''-'' @ snd p @ ''-v1.md''"

definition pair_of :: "(string \<Rightarrow> bytes option) \<Rightarrow> string \<times> bytes \<Rightarrow> synthetic_pair option" where
  "pair_of samples f =
     (case v2_filename (fst f) of
        None \<Rightarrow> None
      | Some p \<Rightarrow>
          (case samples (v1_name_of p) of
             None \<Rightarrow> None
           | Some v1 \<Rightarrow> Some \<lparr>sp_lawstronaut = snd p, sp_v1_name = v1_name_of p, sp_v2_name = fst f,
                             sp_v1 = Inr v1, sp_v2 = Inr (snd f)\<rparr>))"

definition discover_v2_pairs :: "directory \<Rightarrow> (string \<Rightarrow> bytes option) \<Rightarrow> synthetic_pair list" where
  "discover_v2_pairs dir samples =
     (case dir of None \<Rightarrow> [] | Some files \<Rightarrow> List.map_filter (pair_of samples) (sort_key fst files))"

text \<open>The ids for which \<open>run_seed\<close> stages no first version.\<close>

definition reserved_ids :: "directory \<Rightarrow> string set" where
  "reserved_ids dir =
     (case dir of None \<Rightarrow> {} | Some files \<Rightarrow> snd ` set (List.map_filter (\<lambda>f. v2_filename (fst f)) files))"

section \<open>The run\<close>

text \<open>
  A file is \<open>None\<close> when it does not exist, and what decoding it gives otherwise. The last two fields say of the
  paths of the two directories whether they start with that of the repository, as the defaults do.
\<close>

record seed_files =
  sf_curated :: "string result option"
  sf_fixtures :: "string result option"
  sf_synthetic :: directory
  sf_samples :: "string \<Rightarrow> bytes option"
  sf_synthetic_inside :: bool
  sf_samples_inside :: bool

text \<open>
  The pairs of a run. The warnings about a file without a first version and about a directory without pairs print a
  path relative to the repository, which raises \<open>ValueError\<close> for one outside.
\<close>

definition lacks_first :: "(string \<Rightarrow> bytes option) \<Rightarrow> string \<times> bytes \<Rightarrow> bool" where
  "lacks_first samples f \<longleftrightarrow> (case v2_filename (fst f) of None \<Rightarrow> False | Some p \<Rightarrow> samples (v1_name_of p) = None)"

definition discovered_pairs :: "seed_files \<Rightarrow> synthetic_pair list result" where
  "discovered_pairs files =
     (let pairs = discover_v2_pairs (sf_synthetic files) (sf_samples files)
      in if (case sf_synthetic files of None \<Rightarrow> False | Some fs \<Rightarrow> \<exists>f \<in> set fs. lacks_first (sf_samples files) f)
            \<and> \<not> sf_samples_inside files then Inl ValueError
         else if pairs = [] \<and> \<not> sf_synthetic_inside files then Inl ValueError
         else Inr pairs)"

record seed_flags =
  sg_dry_run :: bool
  sg_stage :: bool

definition value_error :: "exn \<Rightarrow> bool" where
  "value_error e \<longleftrightarrow> e = ValueError \<or> e = ValidationError"

text \<open>The plan is made before the connection is opened; a dry run opens none.\<close>

definition seed_phase ::
  "seed_lib \<Rightarrow> poll_env \<Rightarrow> unit result \<Rightarrow> seed_args \<Rightarrow> bool \<Rightarrow> timestamp \<Rightarrow> ingest_db
    \<Rightarrow> ingest_db \<times> seed_result result" where
  "seed_phase lib env conn args dry tx db =
     (case run_seed lib env args True tx db of
        Inl e \<Rightarrow> (db, Inl e)
      | Inr (_, plan) \<Rightarrow>
          if dry then (db, Inr plan)
          else (case bindE conn (\<lambda>_. run_seed lib env args False tx db) of
                  Inl e \<Rightarrow> (db, Inl e)
                | Inr (db', res) \<Rightarrow> (db', Inr res)))"

definition stage_phase ::
  "poll_env \<Rightarrow> unit result \<Rightarrow> timestamp \<Rightarrow> synthetic_pair list \<Rightarrow> bool \<Rightarrow> ingest_db \<Rightarrow> ingest_db \<times> nat result" where
  "stage_phase env conn now pairs dry db =
     (if pairs = [] then (db, Inr 0)
      else if \<not> dry \<and> conn \<noteq> Inr () then (db, bindE conn (\<lambda>_. Inr 0))
      else (case stage_synthetic_v2 env now pairs dry db of
              (db', Inl e) \<Rightarrow> (db', Inl e)
            | (db', Inr _) \<Rightarrow> (db', Inr 0)))"

definition seed_args_of :: "curated_set \<Rightarrow> fixture list \<Rightarrow> seed_files \<Rightarrow> timestamp \<Rightarrow> seed_args" where
  "seed_args_of cs fxs files now =
     \<lparr>sa_curated = cs, sa_fixtures = fxs, sa_now = now, sa_samples = Some (sf_samples files),
      sa_skip_v1 = reserved_ids (sf_synthetic files)\<rparr>"

definition seed_cli ::
  "seed_lib \<Rightarrow> (string \<Rightarrow> yaml result) \<Rightarrow> poll_env \<Rightarrow> (string \<Rightarrow> unit result) \<Rightarrow> seed_files \<Rightarrow> seed_flags
    \<Rightarrow> string option \<Rightarrow> timestamp \<Rightarrow> timestamp \<Rightarrow> ingest_db \<Rightarrow> ingest_db \<times> nat result" where
  "seed_cli lib json env connect files flags dsn now tx db =
     (let dry = sg_dry_run flags; conn = connect (case dsn of None \<Rightarrow> [] | Some d \<Rightarrow> d) in
      case (sf_curated files, sf_fixtures files) of
        (Some curated_text, Some fixtures_text) \<Rightarrow>
          if (dsn = None \<or> dsn = Some []) \<and> \<not> dry then (db, Inr 1)
          else (case bindE curated_text (parse_curated_set lib) of
            Inl e \<Rightarrow> (db, if value_error e then Inr 1 else Inl e)
          | Inr cs \<Rightarrow>
              (case bindE fixtures_text (\<lambda>t. bindE (json t) (inventory lib cs)) of
                 Inl e \<Rightarrow> (db, Inl e)
               | Inr None \<Rightarrow> (db, Inr 1)
               | Inr (Some fxs) \<Rightarrow>
                   (case seed_phase lib env conn (seed_args_of cs fxs files now) dry tx db of
                      (db1, Inl e) \<Rightarrow> (db1, Inl e)
                    | (db1, Inr _) \<Rightarrow>
                        if sg_stage flags
                        then (case discovered_pairs files of
                                Inl e \<Rightarrow> (db1, Inl e)
                              | Inr pairs \<Rightarrow> stage_phase env conn now pairs dry db1)
                        else (db1, Inr 0))))
      | _ \<Rightarrow> (db, Inr 1))"

end
