(* ===== verification/Reseed.thy ===== *)
theory Reseed
  imports Seed_CLI Demo_Accounts
begin

text \<open>
  \<open>scripts/reseed_corpus.py\<close>: the guarded wipe of the corpus, followed by the seeding script and the script
  of the demo accounts as child processes with the same environment.
\<close>

section \<open>The database\<close>

text \<open>
  The tables of the corpus and of the worker with those of the API. The corpus is the one of the first part:
  neither child script reads \<open>library\<close> or \<open>change_events\<close> of the second.
\<close>

record reseed_db =
  rd_ingest :: ingest_db
  rd_api :: api_db

record table_counts =
  tc_users :: nat
  tc_documents :: nat
  tc_versions :: nat
  tc_clauses :: nat
  tc_events :: nat

definition row_counts :: "reseed_db \<Rightarrow> table_counts" where
  "row_counts db =
     (let c = corpus (rd_ingest db) in
      \<lparr>tc_users = length (users (rd_api db)), tc_documents = length (documents c), tc_versions = length (versions c),
       tc_clauses = length (clauses c), tc_events = length (events c)\<rparr>)"

text \<open>\<open>_WIPE_STATEMENTS\<close>, with the triggers and the foreign keys switched off.\<close>

definition wipe :: "reseed_db \<Rightarrow> reseed_db" where
  "wipe db =
     (let g = rd_ingest db in
      db\<lparr>rd_ingest := g\<lparr>corpus := (corpus g)\<lparr>events := [], clauses := [], versions := [], documents := []\<rparr>,
                        schedule := []\<rparr>\<rparr>)"

section \<open>The environment\<close>

definition required_env :: "string list" where
  "required_env = [''HORIZONS_DB_URL'', ''HORIZONS_DEMO_UK_PASSWORD'', ''HORIZONS_DEMO_EU_PASSWORD'',
     ''HORIZONS_DEMO_ADMIN_PASSWORD'']"

definition check_env :: "(string \<Rightarrow> string option) \<Rightarrow> string list" where
  "check_env env = filter (\<lambda>n. header_strip (case env n of None \<Rightarrow> [] | Some v \<Rightarrow> v) = []) required_env"

text \<open>\<open>s.split(sep, 1)[0]\<close> and \<open>s.split(sep, 1)[-1]\<close>.\<close>

definition before_first :: "string \<Rightarrow> string \<Rightarrow> string" where
  "before_first sep s = (case split_once sep s of None \<Rightarrow> s | Some (a, b) \<Rightarrow> a)"

definition after_first :: "string \<Rightarrow> string \<Rightarrow> string" where
  "after_first sep s = (case split_once sep s of None \<Rightarrow> s | Some (a, b) \<Rightarrow> b)"

definition host_from_dsn :: "string \<Rightarrow> string" where
  "host_from_dsn dsn =
     (case split_once ''://'' dsn of
        None \<Rightarrow> ''<unparseable>''
      | Some (scheme, rest) \<Rightarrow> before_first ''?'' (before_first ''/'' (after_first ''@'' rest)))"

section \<open>The run\<close>

text \<open>What a run finds outside the database: libraries, files, variables and the clocks of its parts.\<close>

record reseed_world =
  rw_lib :: script_lib
  rw_seed :: seed_lib
  rw_json :: "string \<Rightarrow> yaml result"
  rw_poll :: poll_env
  rw_files :: seed_files
  rw_seed_script :: bool
  rw_demo_script :: bool
  rw_env :: "string \<Rightarrow> string option"
  rw_seed_now :: timestamp
  rw_seed_tx :: timestamp
  rw_demo_now :: timestamp
  rw_demo_clock :: timestamp

text \<open>The exit status of a child: 1 after an uncaught exception.\<close>

definition exit_status :: "nat result \<Rightarrow> nat" where
  "exit_status r = (case r of Inl e \<Rightarrow> 1 | Inr n \<Rightarrow> n)"

definition run_seed_script :: "reseed_world \<Rightarrow> ingest_db \<Rightarrow> ingest_db \<times> nat" where
  "run_seed_script w db =
     (case seed_cli (rw_seed w) (rw_json w) (rw_poll w) (sl_connect (rw_lib w)) (rw_files w)
             \<lparr>sg_dry_run = False, sg_stage = True\<rparr> (rw_env w ''HORIZONS_DB_URL'') (rw_seed_now w) (rw_seed_tx w) db of
        (db', r) \<Rightarrow> (db', exit_status r))"

definition run_demo_script :: "reseed_world \<Rightarrow> api_db \<Rightarrow> api_db \<times> nat" where
  "run_demo_script w db =
     (case demo_main (rw_lib w) (rw_env w) \<lparr>dm_reset = True, dm_defaults = False\<rparr> (rw_demo_now w) (rw_demo_clock w) db of
        (db', r) \<Rightarrow> (db', exit_status (bindE r (\<lambda>(n, outs). Inr n))))"

definition looks_seeded :: "table_counts \<Rightarrow> bool" where
  "looks_seeded tc \<longleftrightarrow> tc_documents tc > 0 \<and> tc_versions tc > 0 \<and> tc_clauses tc > 0 \<and> tc_events tc > 0 \<and> tc_users tc \<ge> 3"

text \<open>The three steps after the guards.\<close>

definition wipe_and_reseed :: "reseed_world \<Rightarrow> reseed_db \<Rightarrow> reseed_db \<times> nat" where
  "wipe_and_reseed w db =
     (let db1 = wipe db in
      case run_seed_script w (rd_ingest db1) of
        (g, rc) \<Rightarrow>
          (let db2 = db1\<lparr>rd_ingest := g\<rparr> in
           if rc \<noteq> 0 then (db2, rc)
           else case run_demo_script w (rd_api db2) of
             (a, rc') \<Rightarrow>
               (let db3 = db2\<lparr>rd_api := a\<rparr> in
                if rc' \<noteq> 0 then (db3, rc')
                else if looks_seeded (row_counts db3) then (db3, 0) else (db3, 3))))"

definition reseed_main :: "reseed_world \<Rightarrow> bool \<Rightarrow> int \<Rightarrow> reseed_db \<Rightarrow> reseed_db \<times> nat result" where
  "reseed_main w yes max_users db =
     (if check_env (rw_env w) \<noteq> [] then (db, Inr 1)
      else if \<not> rw_seed_script w then (db, Inr 1)
      else if \<not> rw_demo_script w then (db, Inr 1)
      else case sl_connect (rw_lib w) (normalise_db_url (the (rw_env w ''HORIZONS_DB_URL''))) of
        Inl e \<Rightarrow> (db, Inl e)
      | Inr _ \<Rightarrow>
          if int (tc_users (row_counts db)) > max_users then (db, Inr 2)
          else if \<not> yes then (db, Inr 0)
          else (case wipe_and_reseed w db of (db', rc) \<Rightarrow> (db', Inr rc)))"

section \<open>Facts\<close>

text \<open>With an \<open>@\<close> in the password, the part of the password behind it is taken for the host, and printed.\<close>

lemma host_shows_password: "host_from_dsn ''postgresql://u:p@ss@db/x'' = ''ss@db''"
  by (simp add: host_from_dsn_def before_first_def after_first_def starts_with_def)

lemma seed_cli_refused:
  assumes "connect (case dsn of None \<Rightarrow> [] | Some d \<Rightarrow> d) = Inl e" "\<not> sg_dry_run flags"
  shows "fst (seed_cli lib json env connect files flags dsn now tx db) = db"
    and "exit_status (snd (seed_cli lib json env connect files flags dsn now tx db)) = 1"
  using assms by (auto simp: seed_cli_def seed_phase_def exit_status_def Let_def split: option.splits sum.splits)

text \<open>
  The script normalises the DSN for its own connection and hands the raw one to its children. A DSN for the
  asynchronous driver, which the module documents, passes the guards, and the wipe has committed when the
  seeding script fails on it.
\<close>

lemma raw_dsn_wipes:
  assumes "check_env (rw_env w) = []" "rw_seed_script w" "rw_demo_script w" "rw_env w ''HORIZONS_DB_URL'' = Some raw"
    and "sl_connect (rw_lib w) (normalise_db_url raw) = Inr ()" "sl_connect (rw_lib w) raw = Inl e"
    and "int (length (users (rd_api db))) \<le> max_users"
  shows "reseed_main w True max_users db = (wipe db, Inr 1)"
proof -
  have "run_seed_script w (rd_ingest (wipe db)) = (rd_ingest (wipe db), 1)"
    using seed_cli_refused [of "sl_connect (rw_lib w)" "Some raw" e "\<lparr>sg_dry_run = False, sg_stage = True\<rparr>"] assms(4,6)
    by (simp add: run_seed_script_def case_prod_unfold prod_eq_iff)
  then show ?thesis
    using assms by (simp add: reseed_main_def wipe_and_reseed_def row_counts_def Let_def)
qed

text \<open>The wipe leaves a well-formed corpus, whatever it finds.\<close>

lemma wiped_ok: "seed_ok (rd_ingest (wipe db))"
  by (simp add: seed_ok_def corpus_ok_def history_ok_def documents_ok_def keyed_def wipe_def Let_def)

end
