(* ===== verification/Seed_CLI_Correct.thy ===== *)
theory Seed_CLI_Correct
  imports Seed_CLI
begin

text \<open>
  What the two phases of \<open>seed_curated_set.py\<close> do to the ids that \<open>reserved_ids\<close> holds back: the seed gives
  them no version, and the staging gives both versions to those that a pair was discovered for.
\<close>

section \<open>The seed\<close>

definition unreserved :: "string set \<Rightarrow> corpus \<Rightarrow> bool" where
  "unreserved S c \<longleftrightarrow> (\<forall>v \<in> set (versions c). \<exists>r \<in> set (documents c). d_id r = v_document v \<and> d_lawstronaut r \<notin> S)"

lemma insert_v1_only_versions:
  assumes "insert_v1_only d payload key now db = Inr (db', n)"
  shows "documents db' = documents db" "\<forall>v \<in> set (versions db'). v \<in> set (versions db) \<or> v_document v = d"
  using assms
  by (auto simp: insert_v1_only_def bindE_eq_Inr split: if_split_asm dest!: insert_version_rowD stage_clausesD)

lemma stage_v1_versions:
  assumes "stage_v1 lib env args files lid d st = Inr st'" "v \<in> set (versions (corpus (fst st')))"
  shows "v \<in> set (versions (corpus (fst st))) \<or> v_document v = d \<and> lid \<notin> sa_skip_v1 args"
proof (cases "lid \<in> sa_skip_v1 args \<or> fixture_iso_for lib lid (sa_fixtures args) = None")
  case True
  then show ?thesis using assms by (auto simp: stage_v1_def split: if_split_asm)
next
  case False
  then obtain code where code: "fixture_iso_for lib lid (sa_fixtures args) = Some code" "lid \<notin> sa_skip_v1 args" by auto
  let ?file = "code @ ''-'' @ lid @ ''-v1.md''"
  show ?thesis
  proof (cases "files ?file")
    case None
    then show ?thesis using assms code by (auto simp: stage_v1_def)
  next
    case (Some content)
    show ?thesis
    proof (cases "bindE (read_text content) (compute_v1_staging_payload env)")
      case (Inl e)
      then show ?thesis using assms code Some by (auto simp: stage_v1_def split: if_split_asm)
    next
      case (Inr payload)
      then obtain c n where c: "insert_v1_only d payload (file_name ?file) (sa_now args) (corpus (fst st)) = Inr (c, n)"
        and st': "corpus (fst st') = c"
        using assms(1) code Some by (auto simp: stage_v1_def bindE_eq_Inr Let_def split: if_split_asm)
      show ?thesis using insert_v1_only_versions(2) [OF c] assms(2) code(2) unfolding st' by blast
    qed
  qed
qed

lemma seed_one_unreserved:
  assumes "seed_one lib env args tx st row = Inr st'" "unreserved (sa_skip_v1 args) (corpus (fst st))"
  shows "unreserved (sa_skip_v1 args) (corpus (fst st'))"
proof -
  obtain c inserted where c: "insert_document tx row (corpus (fst st)) = Inr (c, inserted)"
    using assms(1) by (auto simp: seed_one_def bindE_eq_Inr)
  have old: "unreserved (sa_skip_v1 args) c"
    using c assms(2) by (cases rule: insert_documentD) (auto simp: unreserved_def)
  obtain d res where d: "(case inserted of
              Some d \<Rightarrow> Inr (d, (snd st)\<lparr>documents_inserted := documents_inserted (snd st) + 1\<rparr>)
            | None \<Rightarrow>
                (case find_document c (p_lawstronaut row) of
                   None \<Rightarrow> Inl RuntimeError
                 | Some r \<Rightarrow> Inr (d_id r, (snd st)\<lparr>documents_skipped_conflict := documents_skipped_conflict (snd st) + 1\<rparr>))) = Inr (d, res)"
    using assms(1) unfolding seed_one_def by (auto simp: c bindE_eq_Inr)
  obtain rows b where i: "insert_schedule d (p_cadence row) (p_next row) (schedule (fst st)) = (rows, b)"
    by fastforce
  define db2 where "db2 = (fst st)\<lparr>corpus := c, schedule := rows\<rparr>"
  define res2 where "res2 = (if b then res\<lparr>schedules_inserted := schedules_inserted res + 1\<rparr> else res)"
  have st2: "corpus db2 = c"
    "(case (inserted, sa_samples args) of
        (Some _, Some files) \<Rightarrow> stage_v1 lib env args files (p_lawstronaut row) d (db2, res2)
      | _ \<Rightarrow> Inr (db2, res2)) = Inr st'"
    using assms(1) unfolding seed_one_def db2_def res2_def by (simp_all add: c d i Let_def)
  show ?thesis
  proof (cases "\<exists>x files. inserted = Some x \<and> sa_samples args = Some files")
    case True
    then obtain files where i: "inserted = Some d" "sa_samples args = Some files" using d by auto
    have s: "stage_v1 lib env args files (p_lawstronaut row) d (db2, res2) = Inr st'" using st2(2) i by simp
    have docs: "documents (corpus (fst st')) = documents c"
      using stage_v1_only_staged [OF s] st2(1) by (simp add: only_staged_def)
    have new: "\<exists>r \<in> set (documents c). d_id r = d \<and> d_lawstronaut r = p_lawstronaut row"
      using c i(1) by (cases rule: insert_documentD) auto
    show ?thesis
      unfolding unreserved_def docs
    proof
      fix v assume "v \<in> set (versions (corpus (fst st')))"
      from stage_v1_versions [OF s this] show "\<exists>r \<in> set (documents c). d_id r = v_document v \<and> d_lawstronaut r \<notin> sa_skip_v1 args"
        using old new st2(1) unfolding unreserved_def by (metis fst_conv)
    qed
  next
    case False
    then have "st' = (db2, res2)" using st2(2) by (auto split: option.splits)
    then show ?thesis using old st2(1) by simp
  qed
qed

lemma run_seed_unreserved:
  assumes "run_seed lib env args False tx db = Inr (db', res)" "unreserved (sa_skip_v1 args) (corpus db)"
  shows "unreserved (sa_skip_v1 args) (corpus db')"
proof -
  obtain rows where "foldE (seed_one lib env args tx) (db, no_rows) rows = Inr (db', res)"
    using assms(1) by (auto simp: run_seed_def bindE_eq_Inr)
  then have "unreserved (sa_skip_v1 args) (corpus (fst (db', res)))"
    by (rule foldE_invariant [where I = "\<lambda>st. unreserved (sa_skip_v1 args) (corpus (fst st))", rotated 2])
      (use assms(2) seed_one_unreserved in auto)
  then show ?thesis by simp
qed

section \<open>The staging\<close>

definition second_version :: "corpus \<Rightarrow> uuid \<Rightarrow> bool" where
  "second_version c d \<longleftrightarrow> (\<exists>v. live_version c d = Some v \<and> v_no v = Some 2 \<and> v_label v = u ''v2-synthetic'')"

lemma stage_one_pair_versions:
  assumes "stage_one_pair env now pair db = Inr (db', outcome)" "seed_ok db"
  shows "documents (corpus db') = documents (corpus db)"
    and "find_document (corpus db) (sp_lawstronaut pair) \<noteq> Some doc \<Longrightarrow> doc \<in> set (documents (corpus db)) \<Longrightarrow>
      filter (\<lambda>v. v_document v = d_id doc) (versions (corpus db')) = filter (\<lambda>v. v_document v = d_id doc) (versions (corpus db))"
    and "find_document (corpus db) (sp_lawstronaut pair) = Some doc \<Longrightarrow> has_versions (corpus db') (d_id doc)
      \<and> (has_versions (corpus db) (d_id doc) \<and> db' = db \<or> second_version (corpus db') (d_id doc))"
proof -
  have ok: "corpus_ok (corpus db)" "distinct (map d_id (documents (corpus db)))"
    using assms(2) by (simp_all add: seed_ok_def documents_ok_def)
  have "documents (corpus db') = documents (corpus db)
    \<and> (find_document (corpus db) (sp_lawstronaut pair) \<noteq> Some doc \<and> doc \<in> set (documents (corpus db)) \<longrightarrow>
      filter (\<lambda>v. v_document v = d_id doc) (versions (corpus db')) = filter (\<lambda>v. v_document v = d_id doc) (versions (corpus db)))
    \<and> (find_document (corpus db) (sp_lawstronaut pair) = Some doc \<longrightarrow> has_versions (corpus db') (d_id doc)
      \<and> (has_versions (corpus db) (d_id doc) \<and> db' = db \<or> second_version (corpus db') (d_id doc)))" for doc
    using assms(1)
  proof (cases rule: stage_one_pairD)
    case (staged d b1 b2 t1 t2 evs c)
    obtain vid where p: "versions c = versions (corpus db) @
        [(staged_version (d_id d) ''v1'' 1 now (Some now) ''samples'' (file_name (sp_v1_name pair)) (env_sha256 env b1) (length b1))
            \<lparr>v_id := next_uuid (corpus db)\<rparr>,
         (staged_version (d_id d) ''v2-synthetic'' 2 now None ''synthetic_v2'' (file_name (sp_v2_name pair)) (env_sha256 env b2) (length b2))
            \<lparr>v_id := vid\<rparr>]"
      "documents c = documents (corpus db)" "corpus_ok c"
      by (rule persist_pairD [OF staged(6) ok(1) staged(2)])
    have c: "corpus db' = c" by (simp add: staged(7))
    have live: "second_version c (d_id d)"
      unfolding second_version_def
      by (rule exI, rule conjI, rule live_version_eq [where k = "next_uuid c"])
        (use p(1,3) in \<open>auto simp: corpus_ok_def\<close>)
    have "d \<in> set (documents (corpus db))" using staged(1) by (auto simp: find_document_def find_Some_iff)
    then have "d_id doc = d_id d \<Longrightarrow> doc \<in> set (documents (corpus db)) \<Longrightarrow> doc = d"
      using ok(2) by (auto simp: distinct_map dest: inj_onD)
    then show ?thesis using live p staged(1) unfolding c by (auto simp: has_versions_def)
  qed auto
  then show "documents (corpus db') = documents (corpus db)"
    and "find_document (corpus db) (sp_lawstronaut pair) \<noteq> Some doc \<Longrightarrow> doc \<in> set (documents (corpus db)) \<Longrightarrow>
      filter (\<lambda>v. v_document v = d_id doc) (versions (corpus db')) = filter (\<lambda>v. v_document v = d_id doc) (versions (corpus db))"
    and "find_document (corpus db) (sp_lawstronaut pair) = Some doc \<Longrightarrow> has_versions (corpus db') (d_id doc)
      \<and> (has_versions (corpus db) (d_id doc) \<and> db' = db \<or> second_version (corpus db') (d_id doc))"
    by blast+
qed

text \<open>The state of the reserved documents while pairs are staged.\<close>

definition staged_so_far :: "string set \<Rightarrow> corpus \<Rightarrow> bool" where
  "staged_so_far S c \<longleftrightarrow> (\<forall>r \<in> set (documents c). d_lawstronaut r \<in> S \<and> has_versions c (d_id r) \<longrightarrow> second_version c (d_id r))"

lemma version_filters:
  assumes "filter (\<lambda>v. v_document v = d) (versions c') = filter (\<lambda>v. v_document v = d) (versions c)"
  shows "has_versions c' d = has_versions c d" "second_version c' d = second_version c d"
proof -
  have "has_versions c d \<longleftrightarrow> filter (\<lambda>v. v_document v = d) (versions c) \<noteq> []" for c
    by (auto simp: has_versions_def filter_empty_conv)
  then show "has_versions c' d = has_versions c d" using assms by simp
  have "filter (\<lambda>r. v_document r = d \<and> v_to r = None) (versions c') = filter (\<lambda>r. v_document r = d \<and> v_to r = None) (versions c)"
    using arg_cong [OF assms, of "filter (\<lambda>r. v_to r = None)"] by (simp add: conj_commute)
  then show "second_version c' d = second_version c d" by (simp add: second_version_def live_version_def)
qed

lemma stage_pairs_staged:
  assumes "stage_pairs env now pairs db res = (db', Inr res')" "seed_ok db" "staged_so_far S (corpus db)"
  shows "documents (corpus db') = documents (corpus db) \<and> staged_so_far S (corpus db')
    \<and> (\<forall>r \<in> set (documents (corpus db)). has_versions (corpus db') (d_id r) \<longleftrightarrow>
         has_versions (corpus db) (d_id r) \<or> (\<exists>pair \<in> set pairs. find_document (corpus db) (sp_lawstronaut pair) = Some r))"
  using assms
proof (induction env now pairs db res rule: stage_pairs.induct)
  case (1 env now db res)
  then show ?case by simp
next
  case (2 env now pair pairs db res)
  show ?case
  proof (cases "find_document (corpus db) (sp_lawstronaut pair)")
    case None
    then show ?thesis using 2 by simp
  next
    case (Some doc)
    show ?thesis
    proof (cases "has_versions (corpus db) (d_id doc)")
      case True
      then show ?thesis using 2 Some by auto
    next
      case False
      obtain db1 n m where one: "stage_one_pair env now pair db = Inr (db1, Some (n, m))"
        "stage_pairs env now pairs db1 (res\<lparr>documents_staged := documents_staged res + 1,
            clauses_inserted := clauses_inserted res + n, change_events_inserted := change_events_inserted res + m\<rparr>) = (db', Inr res')"
      proof -
        obtain db1 o1 where s: "stage_one_pair env now pair db = Inr (db1, o1)"
          using "2.prems"(1) Some False by (cases "stage_one_pair env now pair db") auto
        have "o1 \<noteq> None" using s Some False by (auto simp: stage_one_pair_def bindE_eq_Inr)
        then obtain n m where o1: "o1 = Some (n, m)" by auto
        show thesis by (rule that [of db1 n m]) (use s o1 "2.prems"(1) Some False in simp_all)
      qed
      note vs = stage_one_pair_versions [OF one(1) "2.prems"(2)]
      have ok: "seed_ok db1" by (rule stage_one_pair_ok [OF one(1) "2.prems"(2)])
      have find: "find_document (corpus db1) l = find_document (corpus db) l" for l by (simp add: find_document_def vs(1))
      have mine: "has_versions (corpus db1) (d_id doc)" "second_version (corpus db1) (d_id doc)" using vs(3) [OF Some] False by auto
      have others: "has_versions (corpus db1) (d_id r) = has_versions (corpus db) (d_id r)"
        "second_version (corpus db1) (d_id r) = second_version (corpus db) (d_id r)"
        if "r \<in> set (documents (corpus db))" "r \<noteq> doc" for r
        using version_filters [OF vs(2) [of r]] Some that by auto
      have so_far: "staged_so_far S (corpus db1)"
        using "2.prems"(3) mine(2) others unfolding staged_so_far_def vs(1) by metis
      have ih: "documents (corpus db') = documents (corpus db1) \<and> staged_so_far S (corpus db')
        \<and> (\<forall>r \<in> set (documents (corpus db1)). has_versions (corpus db') (d_id r) \<longleftrightarrow>
             has_versions (corpus db1) (d_id r) \<or> (\<exists>pair \<in> set pairs. find_document (corpus db1) (sp_lawstronaut pair) = Some r))"
        using "2.IH"(4) [OF Some False one(1) refl refl] one(2) ok so_far by simp
      show ?thesis
      proof (intro conjI ballI)
        fix r assume r: "r \<in> set (documents (corpus db))"
        show "has_versions (corpus db') (d_id r) \<longleftrightarrow> has_versions (corpus db) (d_id r)
            \<or> (\<exists>p \<in> set (pair # pairs). find_document (corpus db) (sp_lawstronaut p) = Some r)"
          using ih r mine(1) others(1) [OF r] Some unfolding vs(1) find by (cases "r = doc") auto
      qed (use ih vs(1) in auto)
    qed
  qed
qed

end
