(* ===== verification/Reseed_Correct.thy ===== *)
theory Reseed_Correct
  imports Reseed Seed_CLI_Correct Demo_Correct
begin

text \<open>
  The two children of \<open>reseed_corpus.py\<close>: the seeding of the wiped corpus makes documents with new ids only,
  and the run for the demo accounts keeps the other users and adds no watchlist.
\<close>

section \<open>New ids\<close>

definition ids_from :: "uuid \<Rightarrow> corpus \<Rightarrow> bool" where
  "ids_from n c \<longleftrightarrow> n \<le> next_uuid c \<and> (\<forall>r \<in> set (documents c). n \<le> d_id r)"

lemma seed_one_ids:
  assumes "seed_one lib env args tx st row = Inr st'" "ids_from n (corpus (fst st))"
  shows "ids_from n (corpus (fst st'))"
proof -
  obtain c inserted d where c: "insert_document tx row (corpus (fst st)) = Inr (c, inserted)"
    and only: "only_staged ((fst st)\<lparr>corpus := c, schedule := fst (insert_schedule d (p_cadence row) (p_next row) (schedule (fst st)))\<rparr>) (fst st')"
    using assms(1) by (rule seed_oneD) blast
  have "ids_from n c" using c assms(2) by (cases rule: insert_documentD) (auto simp: ids_from_def)
  then show ?thesis using only by (auto simp: ids_from_def only_staged_def)
qed

lemma run_seed_ids:
  assumes "run_seed lib env args False tx db = Inr (db', res)" "ids_from n (corpus db)"
  shows "ids_from n (corpus db')"
proof -
  obtain rows where "foldE (seed_one lib env args tx) (db, no_rows) rows = Inr (db', res)"
    using assms(1) by (auto simp: run_seed_def bindE_eq_Inr)
  then have "ids_from n (corpus (fst (db', res)))"
    by (rule foldE_invariant [where I = "\<lambda>st. ids_from n (corpus (fst st))", rotated 2])
      (use assms(2) seed_one_ids in auto)
  then show ?thesis by simp
qed

section \<open>The seeding script\<close>

text \<open>A successful run is the seed, followed by the staging of the discovered pairs when it is asked for.\<close>

lemma discovered_pairs_ok:
  "discovered_pairs files = Inr pairs \<Longrightarrow> pairs = discover_v2_pairs (sf_synthetic files) (sf_samples files)"
  by (simp add: discovered_pairs_def Let_def split: if_splits)

lemma seed_cli_success:
  assumes "seed_cli lib json env connect files \<lparr>sg_dry_run = False, sg_stage = True\<rparr> dsn now tx db = (db', Inr 0)"
  obtains cs fxs db1 res where "sf_curated files \<noteq> None"
    "run_seed lib env (seed_args_of cs fxs files now) False tx db = Inr (db1, res)"
    "db' = db1 \<and> discover_v2_pairs (sf_synthetic files) (sf_samples files) = []
     \<or> (\<exists>res'. stage_pairs env now (discover_v2_pairs (sf_synthetic files) (sf_samples files)) db1 nothing_staged = (db', Inr res'))"
proof -
  let ?conn = "connect (case dsn of None \<Rightarrow> [] | Some d \<Rightarrow> d)"
  let ?pairs = "discover_v2_pairs (sf_synthetic files) (sf_samples files)"
  obtain cur fx where f: "sf_curated files = Some cur" "sf_fixtures files = Some fx"
    using assms by (cases "sf_curated files"; cases "sf_fixtures files") (auto simp: seed_cli_def)
  obtain cs where cs: "bindE cur (parse_curated_set lib) = Inr cs"
    using assms f by (cases "bindE cur (parse_curated_set lib)") (auto simp: seed_cli_def Let_def split: if_splits)
  obtain fxs where fxs: "bindE fx (\<lambda>t. bindE (json t) (inventory lib cs)) = Inr (Some fxs)"
    using assms f cs by (auto simp: seed_cli_def Let_def split: if_splits sum.splits option.splits)
  obtain db1 res where s: "seed_phase lib env ?conn (seed_args_of cs fxs files now) False tx db = (db1, Inr res)"
    and st: "stage_phase env ?conn now ?pairs False db1 = (db', Inr 0)"
    using assms f cs fxs
    by (auto simp: seed_cli_def Let_def split: if_splits prod.splits sum.splits dest: discovered_pairs_ok)
  have run: "run_seed lib env (seed_args_of cs fxs files now) False tx db = Inr (db1, res)"
    using s by (auto simp: seed_phase_def bindE_eq_Inr split: sum.splits prod.splits)
  show ?thesis
  proof (rule that [OF _ run])
    show "db' = db1 \<and> ?pairs = [] \<or> (\<exists>res'. stage_pairs env now ?pairs db1 nothing_staged = (db', Inr res'))"
      using st by (auto simp: stage_phase_def stage_synthetic_v2_def bindE_eq_Inr split: if_splits sum.splits prod.splits)
  qed (simp add: f)
qed

lemma in_map_filter: "y \<in> set (List.map_filter f xs) \<longleftrightarrow> (\<exists>x \<in> set xs. f x = Some y)"
  by (induction xs) (auto split: option.splits)

lemma discovered_reserved:
  "pair \<in> set (discover_v2_pairs dir samples) \<Longrightarrow> sp_lawstronaut pair \<in> reserved_ids dir"
proof -
  assume p: "pair \<in> set (discover_v2_pairs dir samples)"
  then obtain files f where f: "dir = Some files" "f \<in> set files" "pair_of samples f = Some pair"
    by (auto simp: discover_v2_pairs_def in_map_filter split: option.splits)
  then obtain q where q: "v2_filename (fst f) = Some q" "sp_lawstronaut pair = snd q"
    by (auto simp: pair_of_def split: option.splits)
  then have "q \<in> set (List.map_filter (\<lambda>f. v2_filename (fst f)) files)" using f(2) in_map_filter by metis
  then show ?thesis using q(2) f(1) by (simp add: reserved_ids_def)
qed

text \<open>What a successful run with \<open>--stage-synthetic-v2\<close> makes of the reserved documents.\<close>

lemma seed_cli_reserved:
  assumes "seed_cli lib json env connect files \<lparr>sg_dry_run = False, sg_stage = True\<rparr> dsn now tx db = (db', Inr 0)"
    and "seed_ok db" "unreserved (reserved_ids (sf_synthetic files)) (corpus db)" "ids_from n (corpus db)"
  shows "seed_ok db' \<and> (\<forall>r \<in> set (documents (corpus db')). n \<le> d_id r)
    \<and> (\<forall>r \<in> set (documents (corpus db')). d_lawstronaut r \<in> reserved_ids (sf_synthetic files) \<longrightarrow>
        (if d_lawstronaut r \<in> sp_lawstronaut ` set (discover_v2_pairs (sf_synthetic files) (sf_samples files))
         then second_version (corpus db') (d_id r) else \<not> has_versions (corpus db') (d_id r)))"
proof -
  let ?S = "reserved_ids (sf_synthetic files)" and ?pairs = "discover_v2_pairs (sf_synthetic files) (sf_samples files)"
  obtain cs fxs db1 res where run: "run_seed lib env (seed_args_of cs fxs files now) False tx db = Inr (db1, res)"
    and st: "db' = db1 \<and> ?pairs = [] \<or> (\<exists>res'. stage_pairs env now ?pairs db1 nothing_staged = (db', Inr res'))"
    by (rule seed_cli_success [OF assms(1)])
  have skip: "sa_skip_v1 (seed_args_of cs fxs files now) = ?S" by (simp add: seed_args_of_def)
  have ok: "seed_ok db1" by (rule run_seed_ok [OF run assms(2)])
  have ids: "ids_from n (corpus db1)" by (rule run_seed_ids [OF run assms(4)])
  have un: "unreserved ?S (corpus db1)" using run_seed_unreserved [OF run] assms(3) skip by simp
  have dist: "distinct (map d_id (documents (corpus db1)))" "distinct (map d_lawstronaut (documents (corpus db1)))"
    using ok by (simp_all add: seed_ok_def documents_ok_def)
  have bare: "\<not> has_versions (corpus db1) (d_id r)" if "r \<in> set (documents (corpus db1))" "d_lawstronaut r \<in> ?S" for r
  proof
    assume "has_versions (corpus db1) (d_id r)"
    then obtain q where "q \<in> set (documents (corpus db1))" "d_id q = d_id r" "d_lawstronaut q \<notin> ?S"
      using un by (auto simp: has_versions_def unreserved_def)
    then show False using dist(1) that by (metis distinct_map inj_onD)
  qed
  have find: "find_document (corpus db1) l = Some r \<longleftrightarrow> r \<in> set (documents (corpus db1)) \<and> d_lawstronaut r = l" for l r
  proof
    assume r: "r \<in> set (documents (corpus db1)) \<and> d_lawstronaut r = l"
    then have "List.find (\<lambda>r. d_lawstronaut r = l) (documents (corpus db1)) \<noteq> None" by (auto simp: find_None_iff)
    then obtain q where q: "find_document (corpus db1) l = Some q" by (auto simp: find_document_def)
    then have "q \<in> set (documents (corpus db1)) \<and> d_lawstronaut q = l" by (auto simp: find_document_def find_Some_iff)
    then show "find_document (corpus db1) l = Some r" using q r dist(2) by (metis distinct_map inj_onD)
  qed (auto simp: find_document_def find_Some_iff)
  have so_far: "staged_so_far ?S (corpus db1)" using bare by (auto simp: staged_so_far_def)
  from st show ?thesis
  proof (elim disjE conjE exE)
    assume "db' = db1" "?pairs = []"
    then show ?thesis using ok ids bare by (simp add: ids_from_def)
  next
    fix res' assume s: "stage_pairs env now ?pairs db1 nothing_staged = (db', Inr res')"
    have ok': "seed_ok db'" using stage_pairs_ok [OF ok, of env now ?pairs nothing_staged] s by simp
    note sp = stage_pairs_staged [OF s ok so_far]
    have "\<forall>r \<in> set (documents (corpus db')). n \<le> d_id r" using ids sp by (simp add: ids_from_def)
    then show ?thesis using sp ok' bare find by (fastforce simp: staged_so_far_def)
  qed
qed

section \<open>The script of the demo accounts\<close>

lemma create_or_rotate_watchlists:
  "create_or_rotate lib now clock a pw db = Inr (db', out) \<Longrightarrow> ids_fresh db \<Longrightarrow> watchlists db' = watchlists db"
  by (auto simp: create_or_rotate_eq with_account_def rotate_password_def Let_def bindE_eq_Inr split: option.splits if_splits)

lemma provision_all_watchlists:
  assumes "provision_all lib now clock resolved db as = Inr (db', outs)" "hashes_verify lib"
    and "ids_fresh db" "distinct (map us_email (users db))"
  shows "watchlists db' = watchlists db"
  using assms(1,3,4)
proof (induction as arbitrary: db outs)
  case (Cons a as)
  obtain pw db1 out outs' where st: "create_or_rotate lib now clock a pw db = Inr (db1, out)"
    "provision_all lib now clock resolved db1 as = Inr (db', outs')"
    by (rule provision_all_ConsD [OF Cons.prems(1)])
  show ?case
    using Cons.IH [OF st(2)] provision_step(1,2) [OF st(1) Cons.prems(2,3) assms(2)]
      create_or_rotate_watchlists [OF st(1) Cons.prems(2)] by simp
qed simp

lemma sweeps_watchlists:
  "legacy_sweep db = Inr db1 \<Longrightarrow> set (watchlists db1) \<subseteq> set (watchlists db)"
  "demo_teardown db = Inr db1 \<Longrightarrow> set (watchlists db1) \<subseteq> set (watchlists db)"
  by (auto simp: legacy_sweep_def demo_teardown_def teardown_pattern_def delete_defs Let_def bindE_eq_Inr split: if_splits)

text \<open>A successful run with \<open>--reset\<close>.\<close>

lemma demo_reset_success:
  assumes "demo_main lib env \<lparr>dm_reset = True, dm_defaults = False\<rparr> now clock db = (db', Inr (0, outs))"
    and "hashes_verify lib" "ids_fresh db" "distinct (map us_email (users db))"
  shows "set (watchlists db') \<subseteq> set (watchlists db)"
    and "x \<in> set (users db) \<Longrightarrow> unlike demo_like x \<Longrightarrow> unlike legacy_like x \<Longrightarrow> x \<in> set (users db')"
    and "a \<in> set demo_accounts \<Longrightarrow> \<exists>x. find_by_email db' (da_email a) = Some x \<and> us_role x = da_role a
      \<and> sl_verify lib (env_password env a) (us_password_hash x) = Inr True
      \<and> (\<forall>t \<ge> clock - thirty_days. set (scope_of db' t (us_id x)) = set_option (da_scope a))"
proof -
  obtain db1 db2 resolved dflt where p: "legacy_sweep db = Inr db1" "demo_teardown db1 = Inr db2"
    "resolve_passwords env False demo_accounts = (resolved, [], dflt)"
    "provision_all lib now clock resolved db2 demo_accounts = Inr (db', outs)"
    using assms(1)
  proof (cases rule: demo_main_cases)
    case untouched
    then show thesis by blast
  next
    case (provided raw db1 db2 resolved dflt outs')
    then show thesis using that by simp
  qed simp
  have re: "(if True then demo_teardown db1 else Inr db1) = Inr db2" using p(2) by simp
  note sw = swept_state [OF p(1) re assms(3,4)]
  show "set (watchlists db') \<subseteq> set (watchlists db)"
    using provision_all_watchlists [OF p(4) assms(2) sw(1,2)] sweeps_watchlists(1) [OF p(1)] sweeps_watchlists(2) [OF p(2)]
    by auto
  show "x \<in> set (users db')" if "x \<in> set (users db)" "unlike demo_like x" "unlike legacy_like x"
  proof -
    have "x \<in> set (users db2)" using that sw(3) by simp
    then show ?thesis
      using provision_all_users [OF p(4) assms(2) sw(1,2) distinct_demo_accounts] demo_emails_like that(2) by metis
  qed
  assume a: "a \<in> set demo_accounts"
  obtain pw out where q: "resolved (da_email a) = Some pw" "provisioned lib clock a pw out db'"
    "find_by_email db2 (da_email a) = None \<longrightarrow> out = Created"
    using provision_all_provisioned [OF p(4) assms(2) sw(1,2) distinct_demo_accounts a] by (elim exE conjE) (rule that)
  have "find_by_email db2 (da_email a) = None"
    using sw(3) demo_emails_like [OF a] by (auto simp: find_by_email_None)
  moreover have "pw = env_password env a"
    using resolve_demo(2) [OF p(3) refl a] resolve_demo(1) [OF p(3)] q(1) a
    by (auto simp: account_password_def unset_accounts_def filter_empty_conv)
  ultimately show "\<exists>x. find_by_email db' (da_email a) = Some x \<and> us_role x = da_role a
      \<and> sl_verify lib (env_password env a) (us_password_hash x) = Inr True
      \<and> (\<forall>t \<ge> clock - thirty_days. set (scope_of db' t (us_id x)) = set_option (da_scope a))"
    using q(2,3) by (auto simp: provisioned_def)
qed

section \<open>The whole run\<close>

lemma reseed_success:
  assumes "reseed_main w True max_users db = (db', Inr 0)"
  obtains g a outs where "seed_cli (rw_seed w) (rw_json w) (rw_poll w) (sl_connect (rw_lib w)) (rw_files w)
      \<lparr>sg_dry_run = False, sg_stage = True\<rparr> (rw_env w ''HORIZONS_DB_URL'') (rw_seed_now w) (rw_seed_tx w)
      (rd_ingest (wipe db)) = (g, Inr 0)"
    "demo_main (rw_lib w) (rw_env w) \<lparr>dm_reset = True, dm_defaults = False\<rparr> (rw_demo_now w) (rw_demo_clock w)
      (rd_api db) = (a, Inr (0, outs))"
    "looks_seeded (row_counts db')" "db' = (wipe db)\<lparr>rd_ingest := g, rd_api := a\<rparr>"
proof -
  have "wipe_and_reseed w db = (db', 0)"
    using assms by (auto simp: reseed_main_def split: if_splits sum.splits prod.splits)
  then obtain g a where sd: "run_seed_script w (rd_ingest (wipe db)) = (g, 0)" "run_demo_script w (rd_api db) = (a, 0)"
    and l: "looks_seeded (row_counts db')" and db': "db' = (wipe db)\<lparr>rd_ingest := g, rd_api := a\<rparr>"
    by (auto simp: wipe_and_reseed_def Let_def wipe_def split: if_splits prod.splits)
  have "exit_status r = 0 \<longleftrightarrow> r = Inr 0" for r by (cases r) (auto simp: exit_status_def)
  then show ?thesis
    using that [OF _ _ l db'] sd by (auto simp: run_seed_script_def run_demo_script_def bindE_eq_Inr split: prod.splits)
qed

end
