(* ===== verification/Reseed_Properties.thy ===== *)
theory Reseed_Properties
  imports Reseed_Correct Seed_Properties Operations_Properties
begin

text \<open>
  The properties of the seeding script and of the reseed. Their witnesses share a small run: two documents, of
  which one has a sample of its first version, and a second version for both.
\<close>

section \<open>A pair whose second version is empty\<close>

lemma empty_side: 
  assumes "collect_candidates mh t tn = Inr v1" "collect_candidates mh t' tn = Inr []"
  shows "align mh query t t' (Some tn) = mapE (mk_event \<circ> removed_event) (map cand_clause v1)"
proof -
  have r: "residual v1 {} = map cand_clause v1" "residual [] {} = []"
    by (simp_all add: residual_def filter_id_conv case_prod_unfold) (metis map_map map_snd_enumerate)
  have p: "List.product xs ([] :: 'b list) = []" for xs :: "'a list" by (induction xs) auto
  show ?thesis using assms
  by (simp add: p align_def align_pairs_def pass_heading_match_def heading_triples_def pass_content_monotonic_def unpaired_def emit_events_def r)
qed
definition leaf_a :: clause where "leaf_a = Clause [] None [97] None []"
lemma sample_trees: "pair_trees sample_env (Inr [97]) (Inr []) = Inr (leaf_a, Clause [] None [] None [], [removed_event leaf_a])"
proof -
  have "parse (env_unidb sample_env) default_parser_config (env_tokens sample_env [97]) = Inr leaf_a"
    using sample_parse by (simp add: sample_doc_def u_def leaf_a_def)
  moreover have "parse (env_unidb sample_env) default_parser_config (env_tokens sample_env []) = Inr (Clause [] None [] None [])"
  by (simp add: parse_def finalize_def new_builder_def consume_loose_text_def strip_def lstrip_def rstrip_def
      top_def node_def frozen_body_def sample_env_def)
  moreover have "align (env_minhash sample_env) (env_lsh sample_env) leaf_a (Clause [] None [] None []) (env_tuning sample_env) = Inr [removed_event leaf_a]"
  proof -
    have b: "bodied leaf_a = [leaf_a]" "bodied (Clause [] None [] None []) = []"
      by (simp_all add: bodied_def leaf_a_def strip_def lstrip_def rstrip_def isspace_def)
    have "mk_event (removed_event leaf_a) = Inr (removed_event leaf_a)"
      by (simp add: mk_event_def removed_event_def field_presence_ok_def)
    moreover have "env_tuning sample_env = None" by (simp add: sample_env_def)
    moreover have sg: "signable sample_minhash default_tuning_config leaf_a"
      "signable sample_minhash default_tuning_config (Clause [] None [] None [])"
      by (rule encodable_sample, simp add: b, simp add: encodable_def leaf_a_def surrogate_def)
        (rule encodable_sample, simp add: b)
    ultimately show ?thesis
      by (simp add: sample_env_def align_tuning_None b signable_clauses [OF sg(1), unfolded b, simplified]
          empty_side [OF collect_candidates_eq [OF sg(1)] collect_candidates_eq [OF sg(2), unfolded b list.map]])
  qed
  ultimately show ?thesis by (simp add: pair_trees_def)
qed

definition act_fixture :: "string \<Rightarrow> yaml" where
  "act_fixture i = YDict [(YStr ''iso'', YStr ''UK''), (YStr ''document_id'', YStr i), (YStr ''title'', YStr ''Act'')]"

definition world_lib :: seed_lib where
  "world_lib = sample_lib\<lparr>lib_yaml := (\<lambda>_. Inr (YDict [(YStr ''jurisdictions'', YList [YStr ''UK'']),
     (YStr ''sectors'', YList [YStr ''energy'']), (YStr ''default_cadence_hours'', YInt 24)]))\<rparr>"

definition world_json :: "string \<Rightarrow> yaml result" where
  "world_json _ = Inr (YDict [(YStr ''fixtures'', YList [act_fixture ''7'', act_fixture ''8''])])"

definition world_files :: seed_files where
  "world_files = \<lparr>sf_curated = Some (Inr ''yaml''), sf_fixtures = Some (Inr ''json''),
     sf_synthetic = Some [(''uk-8-v2.md'', []), (''uk-7-v2.md'', []), (''README.md'', [])],
     sf_samples = (\<lambda>f. if f = ''uk-7-v1.md'' then Some [97] else None), sf_synthetic_inside = True,
     sf_samples_inside = True\<rparr>"

definition world_set :: curated_set where
  "world_set = \<lparr>cs_jurisdictions = {''UK''}, cs_sectors = [''energy''], cs_cadence = Finite 24, cs_overrides = []\<rparr>"

lemma world_curated: "parse_curated_set world_lib ''yaml'' = Inr world_set"
  by (simp add: parse_curated_set_def world_lib_def only_keys_def allowed_top_level_def nonempty_list_def entry_get_def
      document_entries_def world_set_def)

definition world_fixtures :: "fixture list" where
  "world_fixtures = map (\<lambda>i. [(''iso'', YStr ''UK''), (''document_id'', YStr i), (''title'', YStr ''Act'')]) [''7'', ''8'']"

lemma world_inventory: "bindE (world_json ''json'') (inventory world_lib world_set) = Inr (Some world_fixtures)"
  by (simp add: world_json_def inventory_def fixtures_of_def act_fixture_def world_fixtures_def)

lemma world_reserved: "reserved_ids (sf_synthetic world_files) = {''7'', ''8''}"
  by (auto simp: world_files_def reserved_ids_def List.map_filter_def v2_filename_def is_lower_def is_digit_def Let_def less_eq_char_def)

lemma world_pairs: "discover_v2_pairs (sf_synthetic world_files) (sf_samples world_files) =
  [\<lparr>sp_lawstronaut = ''7'', sp_v1_name = ''uk-7-v1.md'', sp_v2_name = ''uk-7-v2.md'', sp_v1 = Inr [97], sp_v2 = Inr []\<rparr>]"
  by (simp add: world_files_def discover_v2_pairs_def pair_of_def List.map_filter_def v2_filename_def is_lower_def is_digit_def Let_def less_eq_char_def
     v1_name_of_def)

definition world_row :: "string \<Rightarrow> timestamp \<Rightarrow> seed_row" where
  "world_row i t = \<lparr>p_lawstronaut = i, p_jurisdiction = ''UK'', p_sector = ''energy'', p_title = ''Act'', p_cadence = 86400000000, p_next = t\<rparr>"

lemma world_plan: 
  "bindE (select world_lib world_set world_fixtures) (\<lambda>(p, _). stagger p 100) = Inr [world_row ''7'' 100, world_row ''8'' 43200000100]"
  by (simp add: select_def world_set_def world_fixtures_def in_scope_def fixture_get_def pending_of_def overridden_def
      default_sector_def round_half_even_def Let_def stagger_def stagger_row_def offset_at_def bucket_def 
        pending_row.defs seed_row.defs max_datetime_def world_row_def)

section \<open>The run\<close>

definition world_db :: ingest_db where
  "world_db = \<lparr>corpus = \<lparr>documents = [], versions = [], clauses = [], events = [], next_uuid = 100\<rparr>, schedule = [], incidents = []\<rparr>"

definition world_doc :: "uuid \<Rightarrow> string \<Rightarrow> document_row" where
  "world_doc d i = \<lparr>d_id = d, d_jurisdiction = ''UK'', d_sector = ''energy'', d_lawstronaut = i, d_title = ''Act'', d_created = 100\<rparr>"

definition world_schedule :: "uuid \<Rightarrow> timestamp \<Rightarrow> schedule_row" where
  "world_schedule d t = \<lparr>s_document = d, s_cadence = 86400000000, s_next = t, s_last = None, s_failures = 0\<rparr>"

definition world_seeded :: ingest_db where
  "world_seeded = \<lparr>corpus = \<lparr>documents = [world_doc 100 ''7'', world_doc 101 ''8''], versions = [], clauses = [], events = [],
     next_uuid = 102\<rparr>, schedule = [world_schedule 100 100, world_schedule 101 43200000100], incidents = []\<rparr>"

lemma world_seed:
  "\<exists>res. run_seed world_lib sample_env (seed_args_of world_set world_fixtures world_files 100) False 100 world_db = Inr (world_seeded, res)"
proof -
  obtain p w where sel: "select world_lib world_set world_fixtures = Inr (p, w)"
    and st: "stagger p 100 = Inr [world_row ''7'' 100, world_row ''8'' 43200000100]"
    using world_plan by (auto simp: bindE_eq_Inr)
  let ?a = "seed_args_of world_set world_fixtures world_files 100"
  have a: "sa_skip_v1 ?a = {''7'', ''8''}" "sa_samples ?a = Some (sf_samples world_files)"
    using world_reserved by (simp_all add: seed_args_of_def)
  have one: "seed_one world_lib sample_env ?a 100 (world_db, no_rows) (world_row ''7'' 100) =
      Inr (world_db\<lparr>corpus := (corpus world_db)\<lparr>documents := [world_doc 100 ''7''], next_uuid := 101\<rparr>,
                    schedule := [world_schedule 100 100]\<rparr>,
        no_rows\<lparr>documents_inserted := 1, schedules_inserted := 1, v1_skipped_synthetic_v2 := 1\<rparr>)"
    by (simp add: seed_one_def insert_document_def world_row_def world_db_def insert_schedule_def stage_v1_def a
        world_doc_def world_schedule_def no_rows_def)
  have two: "\<exists>res. seed_one world_lib sample_env ?a 100
      (world_db\<lparr>corpus := (corpus world_db)\<lparr>documents := [world_doc 100 ''7''], next_uuid := 101\<rparr>,
                schedule := [world_schedule 100 100]\<rparr>, r) (world_row ''8'' 43200000100) = Inr (world_seeded, res)" for r
    by (simp add: seed_one_def insert_document_def world_row_def world_db_def insert_schedule_def stage_v1_def a
        world_doc_def world_schedule_def world_seeded_def)
  show ?thesis using two by (simp add: run_seed_def sel st seed_args_of_def [THEN arg_cong, of sa_curated]
     seed_args_of_def [THEN arg_cong, of sa_fixtures] seed_args_of_def [THEN arg_cong, of sa_now] one)
qed

definition world_pair :: synthetic_pair where
  "world_pair = \<lparr>sp_lawstronaut = ''7'', sp_v1_name = ''uk-7-v1.md'', sp_v2_name = ''uk-7-v2.md'', sp_v1 = Inr [97], sp_v2 = Inr []\<rparr>"

lemma world_staged:
  "\<exists>c. stage_one_pair sample_env 100 world_pair world_seeded = Inr (park_schedule 100 (world_seeded\<lparr>corpus := c\<rparr>), Some (1, 1))
     \<and> length (versions c) = 2 \<and> length (clauses c) = 1 \<and> length (events c) = 1 \<and> documents c = documents (corpus world_seeded)"
proof -
  have w: "walk_for_persistence leaf_a = [leaf_a]" "walk_for_persistence (Clause [] None [] None []) = []"
    by (simp_all add: leaf_a_def walk_for_persistence_def persistable_def strip_def lstrip_def rstrip_def isspace_def)
  have w1: "walk_for_persistence (Clause [] None [97] None []) = [Clause [] None [97] None []]" using w(1) by (simp add: leaf_a_def)
  have f: "\<not> persistable (Clause [] None [] None [])" by (simp add: persistable_def strip_def lstrip_def rstrip_def)
  have "\<exists>c. persist_pair sample_env world_pair 100 (world_doc 100 ''7'') [97] [] (leaf_a, Clause [] None [] None [], [removed_event leaf_a])
      (corpus world_seeded) = Inr c
     \<and> length (versions c) = 2 \<and> length (clauses c) = 1 \<and> length (events c) = 1 \<and> documents c = documents (corpus world_seeded)"
    by (simp add: persist_pair_def world_seeded_def insert_version_row_def staged_version_def sample_env_def w
        insert_clause_def pg_text_def pg_text_opt_def u_def path_str_def surrogate_def build_uid_map_for_v2_def
        clause_insert_rows_def clause_rows_of.simps change_event_insert_rows_def Let_def world_doc_def world_pair_def leaf_a_def f w1
        event_row_of_def removed_event_def insert_change_event_def)
  then obtain c where c: "persist_pair sample_env world_pair 100 (world_doc 100 ''7'') [97] [] (leaf_a, Clause [] None [] None [],
      [removed_event leaf_a]) (corpus world_seeded) = Inr c"
    "length (versions c) = 2" "length (clauses c) = 1" "length (events c) = 1" "documents c = documents (corpus world_seeded)"
    by blast
  have "pair_trees sample_env (utf8_decode [97]) (utf8_decode []) = Inr (leaf_a, Clause [] None [] None [], [removed_event leaf_a])"
    using sample_trees by simp
  moreover have "find_document (corpus world_seeded) ''7'' = Some (world_doc 100 ''7'')"
    by (simp add: find_document_def world_seeded_def world_doc_def)
  moreover have "\<not> has_versions (corpus world_seeded) 100" by (simp add: has_versions_def world_seeded_def)
  ultimately have "stage_one_pair sample_env 100 world_pair world_seeded = Inr (park_schedule 100 (world_seeded\<lparr>corpus := c\<rparr>), Some (1, 1))"
    using c(1) by (simp add: stage_one_pair_def world_pair_def [THEN arg_cong, of sp_lawstronaut] world_pair_def [THEN arg_cong, of sp_v1] world_pair_def [THEN arg_cong, of sp_v2] world_doc_def [of 100, THEN arg_cong, of d_id] w)
  then show ?thesis using c(2-5) by blast
qed


lemma world_seed_run:
  assumes "connect d = Inr ()" "d \<noteq> []"
  shows "\<exists>c. seed_cli world_lib world_json sample_env connect world_files \<lparr>sg_dry_run = False, sg_stage = True\<rparr> (Some d) 100 100 world_db
      = (park_schedule 100 (world_seeded\<lparr>corpus := c\<rparr>), Inr 0)
    \<and> length (versions c) = 2 \<and> length (clauses c) = 1 \<and> length (events c) = 1 \<and> documents c = documents (corpus world_seeded)"
proof -
  obtain res where res: "run_seed world_lib sample_env (seed_args_of world_set world_fixtures world_files 100) False 100 world_db = Inr (world_seeded, res)"
    using world_seed by blast
  then obtain res' where dry: "run_seed world_lib sample_env (seed_args_of world_set world_fixtures world_files 100) True 100 world_db = Inr (world_db, res')"
    by (auto simp: run_seed_def bindE_eq_Inr)
  obtain c where st: "stage_one_pair sample_env 100 world_pair world_seeded = Inr (park_schedule 100 (world_seeded\<lparr>corpus := c\<rparr>), Some (1, 1))"
    and c: "length (versions c) = 2" "length (clauses c) = 1" "length (events c) = 1" "documents c = documents (corpus world_seeded)"
    using world_staged by blast
  have "find_document (corpus world_seeded) ''7'' = Some (world_doc 100 ''7'')" "\<not> has_versions (corpus world_seeded) (d_id (world_doc 100 ''7''))"
    "sp_lawstronaut world_pair = ''7''"
    by (simp_all add: find_document_def world_seeded_def world_doc_def has_versions_def world_pair_def)
  then have "\<exists>res. stage_pairs sample_env 100 [world_pair] world_seeded nothing_staged = (park_schedule 100 (world_seeded\<lparr>corpus := c\<rparr>), Inr res)"
    using st by simp
  moreover have "discover_v2_pairs (sf_synthetic world_files) (sf_samples world_files) = [world_pair]"
    using world_pairs by (simp add: world_pair_def)
  ultimately have stage: "stage_phase sample_env (Inr ()) 100 (discover_v2_pairs (sf_synthetic world_files) (sf_samples world_files)) False world_seeded
      = (park_schedule 100 (world_seeded\<lparr>corpus := c\<rparr>), Inr 0)"
    by (auto simp: stage_phase_def stage_synthetic_v2_def)
  have found: "discovered_pairs world_files = Inr (discover_v2_pairs (sf_synthetic world_files) (sf_samples world_files))"
    by (simp add: discovered_pairs_def world_files_def)
  have files: "sf_curated world_files = Some (Inr ''yaml'')" "sf_fixtures world_files = Some (Inr ''json'')"
    by (simp_all add: world_files_def)
  show ?thesis
    by (rule exI [of _ c]) (simp add: seed_cli_def files assms world_curated world_inventory seed_phase_def res dry found stage c)
qed


section \<open>The reseed\<close>

text \<open>The database before: an old document, and no user.\<close>

definition world_env :: "string \<Rightarrow> string option" where
  "world_env v = (if v = ''HORIZONS_DB_URL'' then Some ''postgresql+psycopg://db/horizons''
     else if v \<in> set required_env then Some ''hunter2'' else None)"

definition world_start :: reseed_db where
  "world_start = \<lparr>rd_ingest = world_db\<lparr>corpus := empty_corpus\<rparr>, rd_api = no_rows_db\<rparr>"

definition reseed_sample :: "(string \<Rightarrow> string option) \<Rightarrow> reseed_world" where
  "reseed_sample env = \<lparr>rw_lib = plain_lib, rw_seed = world_lib, rw_json = world_json, rw_poll = sample_env, rw_files = world_files,
     rw_seed_script = True, rw_demo_script = True, rw_env = env, rw_seed_now = 100, rw_seed_tx = 100,
     rw_demo_now = 100, rw_demo_clock = 100\<rparr>"

lemma world_wiped: "rd_ingest (wipe world_start) = world_db" "rd_api (wipe world_start) = no_rows_db"
  by (simp_all add: wipe_def world_start_def world_db_def empty_corpus_def Let_def)

lemma world_connects:
  "sl_connect plain_lib ''postgresql+psycopg://db/horizons'' = Inr ()"
  "sl_connect plain_lib (normalise_db_url ''postgresql+psycopg://db/horizons'') = Inr ()"
  using normalise_psycopg [of "''db/horizons''"] by (simp_all add: plain_lib_def starts_with_def)

lemma corpus_of_park: "corpus (park_schedule n x) = corpus x"
  by (simp add: park_schedule_def update_schedule_def)

lemma world_demo:
  "\<exists>db outs. demo_main plain_lib world_env \<lparr>dm_reset = True, dm_defaults = False\<rparr> 100 100 no_rows_db = (db, Inr (0, outs))
    \<and> 3 \<le> length (users db)"
proof -
  have "fst (snd (resolve_passwords world_env False demo_accounts)) = []"
  proof -
    obtain resolved missing dflt where res: "resolve_passwords world_env False demo_accounts = (resolved, missing, dflt)"
      by (metis prod_cases3)
    have "env_password world_env a \<noteq> []" if "a \<in> set demo_accounts" for a
      using that by (auto simp: demo_accounts_def env_password_def world_env_def required_env_def header_strip_def blank_char_def)
    then have "missing = []" using resolve_demo(1) [OF res] by (simp add: unset_accounts_def filter_empty_conv)
    then show ?thesis using res by simp
  qed
  then obtain db outs where run: "demo_main plain_lib world_env \<lparr>dm_reset = True, dm_defaults = False\<rparr> 100 100 no_rows_db = (db, Inr (0, outs))"
    using first_run_any [where env = world_env and raw = "''postgresql+psycopg://db/horizons''" and reset = True and allow = False]
      world_connects(2) by (auto simp: world_env_def)
  have found: "\<exists>x. find_by_email db (da_email a) = Some x" if "a \<in> set demo_accounts" for a
    using demo_reset_success(3) [OF run plain_lib_verifies no_rows_fresh that] by blast
  have "da_email ` set demo_accounts \<subseteq> us_email ` set (users db)"
  proof (rule image_subsetI)
    fix a assume "a \<in> set demo_accounts"
    then obtain x where "find_by_email db (da_email a) = Some x" using found by blast
    then show "da_email a \<in> us_email ` set (users db)" using find_by_email_SomeD [of db "da_email a" x] by (metis imageI)
  qed
  then have "card (da_email ` set demo_accounts) \<le> card (us_email ` set (users db))" by (simp add: card_mono)
  also have "\<dots> \<le> length (users db)" using card_image_le card_length order_trans by (metis List.finite_set)
  finally show ?thesis using run by (auto simp: demo_accounts_def card_insert_if)
qed

lemma world_reseeds: "\<exists>db'. reseed_main (reseed_sample world_env) True 6 world_start = (db', Inr 0)"
proof -
  obtain c where s: "seed_cli world_lib world_json sample_env (sl_connect plain_lib) world_files \<lparr>sg_dry_run = False, sg_stage = True\<rparr>
      (Some ''postgresql+psycopg://db/horizons'') 100 100 world_db = (park_schedule 100 (world_seeded\<lparr>corpus := c\<rparr>), Inr 0)"
    and c: "length (versions c) = 2" "length (clauses c) = 1" "length (events c) = 1" "documents c = documents (corpus world_seeded)"
    using world_seed_run [where connect = "sl_connect plain_lib" and d = "''postgresql+psycopg://db/horizons''"] world_connects(1)
    by (simp del: One_nat_def, elim exE conjE) (rule that)
  obtain db outs where d: "demo_main plain_lib world_env \<lparr>dm_reset = True, dm_defaults = False\<rparr> 100 100 no_rows_db = (db, Inr (0, outs))"
    "3 \<le> length (users db)" using world_demo by blast
  have env: "world_env ''HORIZONS_DB_URL'' = Some ''postgresql+psycopg://db/horizons''" by (simp add: world_env_def)
  have chk: "check_env world_env = []"
    by (simp add: check_env_def required_env_def world_env_def header_strip_def blank_char_def)
  have l: "looks_seeded \<lparr>tc_users = length (users db), tc_documents = length (documents c), tc_versions = length (versions c),
      tc_clauses = length (clauses c), tc_events = length (events c)\<rparr>"
    using c d(2) by (simp add: looks_seeded_def) (simp add: world_seeded_def)
  have few: "users (rd_api world_start) = []" by (simp add: world_start_def no_rows_db_def)
  show ?thesis
    by (rule exI [of _ "(wipe world_start)\<lparr>rd_ingest := park_schedule 100 (world_seeded\<lparr>corpus := c\<rparr>), rd_api := db\<rparr>"])
      (simp add: reseed_main_def reseed_sample_def chk env world_connects(2) row_counts_def few wipe_and_reseed_def
        run_seed_script_def run_demo_script_def world_wiped s d(1) exit_status_def l corpus_of_park Let_def)
qed

section \<open>Seeding with staging\<close>



section \<open>The reseed\<close>

text \<open>C33. \<open>reseed_corpus.py\<close> leaves the database as it is unless \<open>--yes\<close> is given, every variable is set, both
  scripts are there, the connection opens and no more users than the limit are found. A run past the guards
  ends with an exit status, and one whose seeding fails leaves the users as they are and does not end with 0.\<close>

theorem reseed_guarded:
  assumes "reseed_main w yes max_users db = (db', r)" "db' \<noteq> db"
  shows "yes \<and> check_env (rw_env w) = [] \<and> rw_seed_script w \<and> rw_demo_script w
    \<and> (\<exists>raw. rw_env w ''HORIZONS_DB_URL'' = Some raw \<and> sl_connect (rw_lib w) (normalise_db_url raw) = Inr ())
    \<and> int (length (users (rd_api db))) \<le> max_users \<and> (\<exists>n. r = Inr n)
    \<and> (snd (run_seed_script w (rd_ingest (wipe db))) \<noteq> 0 \<longrightarrow> rd_api db' = rd_api db \<and> r \<noteq> Inr 0)"
proof -
  have "check_env (rw_env w) \<noteq> []" if "rw_env w ''HORIZONS_DB_URL'' = None"
    using that by (simp add: check_env_def required_env_def header_strip_def)
  then have env: "check_env (rw_env w) = [] \<Longrightarrow> \<exists>raw. rw_env w ''HORIZONS_DB_URL'' = Some raw" by blast
  show ?thesis
    using assms env
    by (auto simp: reseed_main_def wipe_and_reseed_def row_counts_def Let_def wipe_def
        split: if_splits sum.splits prod.splits)
qed

text \<open>C32. After a reseed that ends with status 0 the corpus has documents, versions, clauses and events, the
  three demo accounts verify against the passwords of the environment with their role and scope, and every
  user outside the demo domains is as before; but every watchlist that is left is an old one that points to
  a document that no longer exists.\<close>

theorem reseed_outcome:
  assumes "reseed_main w True max_users db = (db', Inr 0)" "hashes_verify (rw_lib w)"
    and "ids_fresh (rd_api db)" "distinct (map us_email (users (rd_api db)))"
    and "\<forall>l \<in> set (watchlists (rd_api db)). w_document l < next_uuid (corpus (rd_ingest db))"
  shows "looks_seeded (row_counts db')
    \<and> (\<forall>a \<in> set demo_accounts. \<exists>x. find_by_email (rd_api db') (da_email a) = Some x \<and> us_role x = da_role a
         \<and> sl_verify (rw_lib w) (env_password (rw_env w) a) (us_password_hash x) = Inr True
         \<and> (\<forall>t \<ge> rw_demo_clock w - thirty_days. set (scope_of (rd_api db') t (us_id x)) = set_option (da_scope a)))
    \<and> (\<forall>x \<in> set (users (rd_api db)). \<not> like_match demo_like (us_email x) \<and> \<not> like_match legacy_like (us_email x)
         \<longrightarrow> x \<in> set (users (rd_api db')))
    \<and> (\<forall>l \<in> set (watchlists (rd_api db')). l \<in> set (watchlists (rd_api db))
         \<and> (\<forall>d \<in> set (documents (corpus (rd_ingest db'))). d_id d \<noteq> w_document l))"
proof -
  let ?n = "next_uuid (corpus (rd_ingest db))"
  obtain g a outs where s: "seed_cli (rw_seed w) (rw_json w) (rw_poll w) (sl_connect (rw_lib w)) (rw_files w)
      \<lparr>sg_dry_run = False, sg_stage = True\<rparr> (rw_env w ''HORIZONS_DB_URL'') (rw_seed_now w) (rw_seed_tx w)
      (rd_ingest (wipe db)) = (g, Inr 0)"
    and d: "demo_main (rw_lib w) (rw_env w) \<lparr>dm_reset = True, dm_defaults = False\<rparr> (rw_demo_now w) (rw_demo_clock w)
      (rd_api db) = (a, Inr (0, outs))"
    and l: "looks_seeded (row_counts db')" and db': "db' = (wipe db)\<lparr>rd_ingest := g, rd_api := a\<rparr>"
    by (rule reseed_success [OF assms(1)])
  have empty: "versions (corpus (rd_ingest (wipe db))) = []" "documents (corpus (rd_ingest (wipe db))) = []"
    "next_uuid (corpus (rd_ingest (wipe db))) = ?n" by (simp_all add: wipe_def Let_def)
  have "\<forall>r \<in> set (documents (corpus g)). ?n \<le> d_id r"
    using seed_cli_reserved [OF s wiped_ok, of ?n] empty by (simp add: unreserved_def ids_from_def)
  note ds = demo_reset_success [OF d assms(2-4)]
  have "\<forall>w \<in> set (watchlists a). w \<in> set (watchlists (rd_api db))" using ds(1) by blast
  show ?thesis using l ds assms(5) \<open>\<forall>r \<in> set (documents (corpus g)). ?n \<le> d_id r\<close> unfolding db' by fastforce
qed

lemma reseed_guarded_witness:
  "\<exists>db'. reseed_main (reseed_sample world_env) True 6 world_start = (db', Inr 0) \<and> db' \<noteq> world_start
     \<and> check_env world_env = [] \<and> snd (run_seed_script (reseed_sample world_env) (rd_ingest (wipe world_start))) = 0"
proof -
  obtain db' where run: "reseed_main (reseed_sample world_env) True 6 world_start = (db', Inr 0)" using world_reseeds by blast
  have "users (rd_api world_start) = []" by (simp add: world_start_def no_rows_db_def)
  moreover have "tc_users (row_counts db') \<ge> 3" using run by (cases rule: reseed_success) (simp add: looks_seeded_def)
  ultimately have "db' \<noteq> world_start" by (auto simp: row_counts_def Let_def)
  from reseed_guarded [OF run this] show ?thesis using run \<open>db' \<noteq> world_start\<close> by (auto simp: reseed_sample_def)
qed

lemma reseed_outcome_witness:
  "\<exists>db' x. reseed_main (reseed_sample world_env) True 6 world_start = (db', Inr 0) \<and> looks_seeded (row_counts db')
     \<and> find_by_email (rd_api db') ''demo-uk@demo.example.com'' = Some x \<and> us_role x = Client
     \<and> set (scope_of (rd_api db') 200 (us_id x)) = {(''UK'', ''BANKING'')}"
proof -
  obtain db' where run: "reseed_main (reseed_sample world_env) True 6 world_start = (db', Inr 0)" using world_reseeds by blast
  have w: "rw_lib (reseed_sample world_env) = plain_lib" "rw_demo_clock (reseed_sample world_env) = 100"
    "rd_api world_start = no_rows_db" "watchlists no_rows_db = []"
    by (simp_all add: reseed_sample_def world_start_def no_rows_db_def)
  have t: "(100::int) - thirty_days \<le> 200" by (simp add: thirty_days_def second_def)
  from reseed_outcome [OF run] plain_lib_verifies no_rows_fresh have
    all: "looks_seeded (row_counts db')" "\<forall>a \<in> set demo_accounts. \<exists>x. find_by_email (rd_api db') (da_email a) = Some x \<and> us_role x = da_role a
      \<and> (\<forall>t \<ge> 100 - thirty_days. set (scope_of (rd_api db') t (us_id x)) = set_option (da_scope a))"
    by (simp_all add: w) blast
  show ?thesis using run all(1) all(2) [rule_format, of "hd demo_accounts"] t by (auto simp: demo_accounts_def)
qed

end
