(* ===== verification/Catalog.thy ===== *)
theory Catalog
  imports Tenancy
begin

text \<open>
  The catalogue that the migrations change: roles, objects with their owners, tables with columns,
  constraints, triggers, policies and row-level security, functions, and the access control list. One
  statement of the migrations is a value of \<open>ddl\<close>, run by \<open>exec_ddl\<close> with the checks PostgreSQL documents.
  Comments on objects are left out, and so are rows: a statement that fails on the rows of a table only
  (a new \<open>NOT NULL\<close> column) succeeds here. The login that runs the migrations is a superuser, or, on a managed
  server, one with the attributes \<open>CREATEROLE\<close> and \<open>BYPASSRLS\<close>, so that it may create the roles of the first
  revision with the attributes they have.
\<close>

section \<open>Names\<close>

datatype table_name =
    T_users | T_subscriptions | T_subscription_scopes | T_documents | T_document_versions | T_clauses
  | T_watchlists | T_admin_access_log | T_document_poll_schedule | T_ingestion_incident | T_refresh_tokens
  | T_change_events

datatype schema_name = Public_schema | App_private | App_public

datatype function_name =
    F_reject_subscription_update | F_reject_subscription_scope_update | F_reject_document_update
  | F_reject_document_version_update | F_reject_clause_update | F_current_scope | F_reject_admin_access_log_mutation
  | F_assert_watchlist_in_scope | F_reject_change_event_mutation | F_corpus_shape | F_change_event_shape

datatype enum_name = E_user_role | E_admin_access_mode

text \<open>The names of the columns, and those the migrations give to indexes, policies, triggers and constraints.\<close>

datatype column_name =
    C_id | C_email | C_password_hash | C_role | C_created_at | C_user_id | C_valid_from | C_valid_to
   | C_subscription_id | C_jurisdiction | C_sector | C_lawstronaut_document_id | C_title | C_document_id
   | C_version_label | C_publication_date | C_effective_date | C_content_blob_container | C_content_blob_key
   | C_content_sha256 | C_content_bytes | C_document_version_id | C_clause_uid | C_clause_path | C_text_content
   | C_ord | C_name | C_admin_id | C_target_user_id | C_mode | C_token_id | C_reason | C_granted_at
   | C_version_no | C_cadence_interval | C_next_poll_at | C_last_polled_at | C_failure_count | C_error_class
   | C_payload | C_occurred_at | C_jti | C_issued_at | C_expires_at | C_revoked_at | C_change_type
   | C_before_clause_uid | C_after_clause_uid | C_before_path | C_after_path | C_before_text | C_after_text
   | C_alignment_confidence | C_detected_at | C_active | C_heading_text | C_numbering_label

datatype index_name =
    I_subscriptions_user_id_valid_from | I_documents_jurisdiction_sector | I_document_versions_doc_effective
   | I_clauses_version_ord | I_clauses_clause_uid | I_watchlists_user_id
   | I_admin_access_log_admin_id_granted_at | I_admin_access_log_target_user_id_granted_at
   | I_document_versions_doc_valid_to | I_document_poll_schedule_next_poll_at
   | I_ingestion_incident_doc_occurred | I_ingestion_incident_occurred_at | I_refresh_tokens_user_id_issued_at
   | I_watchlists_document_id | I_change_events_scope | I_change_events_document | I_change_events_version

datatype policy_name =
    Pol_watchlists_owner_select | Pol_watchlists_owner_insert | Pol_watchlists_owner_update
   | Pol_watchlists_owner_delete | Pol_documents_in_scope | Pol_document_versions_in_scope
   | Pol_clauses_in_scope | Pol_documents_ingestion_all | Pol_document_versions_ingestion_all
   | Pol_clauses_ingestion_all | Pol_refresh_tokens_owner_select | Pol_refresh_tokens_owner_insert
   | Pol_refresh_tokens_owner_update | Pol_change_events_in_scope | Pol_change_events_ingestion_all
   | Pol_documents_schema_owner_read | Pol_change_events_schema_owner_read

datatype trigger_name =
    Tr_subscriptions_no_update | Tr_subscription_scopes_no_update | Tr_documents_no_update
   | Tr_document_versions_no_update | Tr_clauses_no_update | Tr_admin_access_log_no_update
   | Tr_admin_access_log_no_delete | Tr_watchlists_in_subscription_scope | Tr_change_events_no_update
   | Tr_change_events_no_delete

datatype constraint_name =
    K_subscriptions_valid_to_after_valid_from | K_document_versions_unique_label
   | K_document_versions_content_bytes_nonneg | K_document_versions_sha256_length
   | K_clauses_unique_path_per_version | K_admin_access_log_mode_target_consistent
   | K_document_poll_schedule_failure_count_nonneg | K_change_events_change_type_chk
   | K_change_events_confidence_range_chk | K_document_versions_unique_doc_version_no
   | K_watchlists_user_document_unique

text \<open>A sequence is the one of a \<open>bigserial\<close> column, and named by its table.\<close>

datatype object =
    On_table table_name | On_schema schema_name | On_function function_name | On_enum enum_name | On_sequence table_name

text \<open>\<open>Migrator\<close> is the login of the migrations, \<open>current_user\<close>.\<close>

datatype grantee = Migrator | Public | To_role db_role

datatype privilege =
    P_select | P_insert | P_update | P_update_column column_name | P_delete | P_usage | P_create | P_execute

section \<open>Tables\<close>

datatype sql_type = Uuid | Text | Timestamptz | Int4 | Int8 | Float8 | Boolean | Bytea | Jsonb | Interval | Enum enum_name

datatype col_default = Uuidv7 | Now | Zero | True_default | Nextval

record column =
  col_name :: column_name
  col_type :: sql_type
  col_null :: bool
  col_default :: "col_default option"

datatype fk_action = Restrict | Cascade

datatype check =
    Window_ordered | Bytes_nonneg | Digest_length | Mode_fits_target | Failures_nonneg | Known_change_type
  | Confidence_in_range

text \<open>A constraint without a name of its own gets one from PostgreSQL; the names only matter for the named ones.\<close>

datatype constraint =
    Primary_key "column_name list"
  | Unique "column_name list"
  | Foreign_key column_name table_name column_name fk_action
  | Check check

text \<open>The predicates of the policies; the last three walk to a document of the scope.\<close>

datatype predicate = Everyone | Owner_is_user | Own_pair | Via_document | Via_version

datatype command = For_all | For_select | For_insert | For_update | For_delete

record policy =
  pol_name :: policy_name
  pol_command :: command
  pol_role :: db_role
  pol_using :: "predicate option"
  pol_check :: "predicate option"

datatype trigger_event = Ev_insert | Ev_update | Ev_update_of column_name | Ev_delete

record trigger =
  tr_name :: trigger_name
  tr_events :: "trigger_event list"
  tr_function :: function_name

record table_def =
  td_columns :: "column list"
  td_constraints :: "(constraint_name option \<times> constraint) list"
  td_enabled :: bool
  td_forced :: bool
  td_policies :: "policy list"
  td_triggers :: "trigger list"

text \<open>An index column with its direction; a partial index holds the rows in which the last component is not null.\<close>

record index_def =
  ix_name :: index_name
  ix_table :: table_name
  ix_columns :: "(column_name \<times> bool) list"
  ix_where :: "column_name option"

text \<open>What the bodies of the functions do: the trigger functions by the updates they let pass.\<close>

datatype fun_body =
    Rejects | Ends_subscription | Ends_scope | Moves_valid_to | Checks_watchlist
  | Scope_of_subscriptions | Scope_of_open_scopes | Counts_documents | Counts_events

record fun_def =
  fd_body :: fun_body
  fd_definer :: bool

section \<open>The catalogue\<close>

record catalog =
  ct_roles :: "db_role list"
  ct_bypass :: "db_role list"
  ct_members :: "db_role list"
  ct_owners :: "(object \<times> grantee) list"
  ct_tables :: "(table_name \<times> table_def) list"
  ct_functions :: "(function_name \<times> fun_def) list"
  ct_enums :: "(enum_name \<times> string list) list"
  ct_indexes :: "index_def list"
  ct_acl :: "(grantee \<times> privilege \<times> object) list"

text \<open>A fresh database, whose owner is the login of the migrations.\<close>

definition fresh_catalog :: catalog where
  "fresh_catalog = \<lparr>ct_roles = [], ct_bypass = [], ct_members = [], ct_owners = [(On_schema Public_schema, Migrator)],
     ct_tables = [], ct_functions = [], ct_enums = [], ct_indexes = [],
     ct_acl = [(Public, P_usage, On_schema Public_schema)]\<rparr>"

fun schema_of :: "object \<Rightarrow> schema_name" where
  "schema_of (On_function F_current_scope) = App_private"
| "schema_of (On_function F_assert_watchlist_in_scope) = App_private"
| "schema_of (On_function F_corpus_shape) = App_public"
| "schema_of (On_function F_change_event_shape) = App_public"
| "schema_of (On_schema s) = s"
| "schema_of _ = Public_schema"

definition owner_of :: "catalog \<Rightarrow> object \<Rightarrow> grantee option" where
  "owner_of c obj = map_of (ct_owners c) obj"

text \<open>A role may do with an object what is granted to it or to everyone, and everything with its own.\<close>

definition has_privilege :: "catalog \<Rightarrow> db_role \<Rightarrow> privilege \<Rightarrow> object \<Rightarrow> bool" where
  "has_privilege c r p obj \<longleftrightarrow>
     owner_of c obj = Some (To_role r) \<or> (To_role r, p, obj) \<in> set (ct_acl c) \<or> (Public, p, obj) \<in> set (ct_acl c)"

text \<open>What the migrations may alter: a superuser everything, another login its own and its roles' objects.\<close>

definition may_alter :: "bool \<Rightarrow> catalog \<Rightarrow> grantee option \<Rightarrow> bool" where
  "may_alter su c own \<longleftrightarrow>
     su \<or> own = Some Migrator \<or> (case own of Some (To_role r) \<Rightarrow> r \<in> set (ct_members c) | _ \<Rightarrow> False)"

definition may_create :: "bool \<Rightarrow> catalog \<Rightarrow> schema_name \<Rightarrow> bool" where
  "may_create su c s \<longleftrightarrow>
     may_alter su c (owner_of c (On_schema s)) \<or> (\<exists>r \<in> set (ct_members c). has_privilege c r P_create (On_schema s))"

section \<open>Statements\<close>

datatype ddl =
    Create_role db_role bool
  | Grant_role db_role
  | Drop_role db_role
  | Create_schema schema_name db_role
  | Drop_schema schema_name
  | Create_enum enum_name "string list"
  | Drop_enum enum_name
  | Create_table table_name "column list" "(constraint_name option \<times> constraint) list"
  | Drop_table table_name
  | Add_column table_name bool column "(constraint_name option \<times> constraint) list"
  | Drop_column table_name column_name
  | Add_constraint table_name constraint_name constraint
  | Drop_constraint table_name constraint_name
  | Create_index index_def
  | Drop_index index_name
  | Create_function function_name fun_body bool
  | Drop_function function_name
  | Create_trigger table_name trigger
  | Drop_trigger table_name trigger_name
  | Owner_to object db_role
  | Grant "privilege list" object grantee
  | Revoke "privilege list" object grantee
  | Revoke_all object grantee
  | Row_security table_name bool
  | Force_security table_name bool
  | Create_policy table_name policy
  | Drop_policy table_name policy_name

datatype ddl_error = Undefined_object | Duplicate_object | Dependent_objects | Permission_denied

definition exists_object :: "catalog \<Rightarrow> object \<Rightarrow> bool" where
  "exists_object c obj \<longleftrightarrow> owner_of c obj \<noteq> None"

definition exists_grantee :: "catalog \<Rightarrow> grantee \<Rightarrow> bool" where
  "exists_grantee c g = (case g of To_role r \<Rightarrow> r \<in> set (ct_roles c) | _ \<Rightarrow> True)"

definition drop_object :: "object \<Rightarrow> catalog \<Rightarrow> catalog" where
  "drop_object obj c = c\<lparr>ct_owners := filter (\<lambda>(o', _). o' \<noteq> obj) (ct_owners c),
                        ct_acl := filter (\<lambda>(_, _, o'). o' \<noteq> obj) (ct_acl c)\<rparr>"

definition update_table :: "table_name \<Rightarrow> (table_def \<Rightarrow> table_def) \<Rightarrow> catalog \<Rightarrow> catalog" where
  "update_table t f c = c\<lparr>ct_tables := map (\<lambda>(t', d). (t', if t' = t then f d else d)) (ct_tables c)\<rparr>"

text \<open>The functions and the tables a predicate mentions, and the columns of its own table.\<close>

fun predicate_functions :: "predicate \<Rightarrow> function_name list" where
  "predicate_functions Everyone = []"
| "predicate_functions Owner_is_user = []"
| "predicate_functions _ = [F_current_scope]"

fun predicate_tables :: "predicate \<Rightarrow> table_name list" where
  "predicate_tables Via_document = [T_documents]"
| "predicate_tables Via_version = [T_document_versions, T_documents]"
| "predicate_tables _ = []"

fun predicate_columns :: "predicate \<Rightarrow> column_name list" where
  "predicate_columns Everyone = []"
| "predicate_columns Owner_is_user = [C_user_id]"
| "predicate_columns Own_pair = [C_jurisdiction, C_sector]"
| "predicate_columns Via_document = [C_document_id]"
| "predicate_columns Via_version = [C_document_version_id]"

definition policy_predicates :: "policy \<Rightarrow> predicate list" where
  "policy_predicates p = List.map_filter id [pol_using p, pol_check p]"

fun constraint_columns :: "constraint \<Rightarrow> column_name list" where
  "constraint_columns (Primary_key cs) = cs"
| "constraint_columns (Unique cs) = cs"
| "constraint_columns (Foreign_key col _ _ _) = [col]"
| "constraint_columns (Check _) = []"

fun constraint_table :: "constraint \<Rightarrow> table_name option" where
  "constraint_table (Foreign_key _ t _ _) = Some t"
| "constraint_table _ = None"

text \<open>Whether another table refers to a table, by a foreign key or in a policy.\<close>

definition table_used :: "catalog \<Rightarrow> table_name \<Rightarrow> bool" where
  "table_used c t \<longleftrightarrow>
     (\<exists>(t', d) \<in> set (ct_tables c). t' \<noteq> t \<and>
        ((\<exists>(_, k) \<in> set (td_constraints d). constraint_table k = Some t)
         \<or> (\<exists>p \<in> set (td_policies d). \<exists>q \<in> set (policy_predicates p). t \<in> set (predicate_tables q))))"

definition function_used :: "catalog \<Rightarrow> function_name \<Rightarrow> bool" where
  "function_used c f \<longleftrightarrow>
     (\<exists>(t, d) \<in> set (ct_tables c).
        (\<exists>tr \<in> set (td_triggers d). tr_function tr = f)
        \<or> (\<exists>p \<in> set (td_policies d). \<exists>q \<in> set (policy_predicates p). f \<in> set (predicate_functions q)))"

definition role_used :: "catalog \<Rightarrow> db_role \<Rightarrow> bool" where
  "role_used c r \<longleftrightarrow>
     (\<exists>(_, g) \<in> set (ct_owners c). g = To_role r) \<or> (\<exists>(g, _) \<in> set (ct_acl c). g = To_role r)
     \<or> (\<exists>(_, d) \<in> set (ct_tables c). \<exists>p \<in> set (td_policies d). pol_role p = r)"

text \<open>A statement on an existing object that the login may alter.\<close>

definition on_object ::
  "bool \<Rightarrow> catalog \<Rightarrow> object \<Rightarrow> (grantee \<Rightarrow> ddl_error + catalog) \<Rightarrow> ddl_error + catalog" where
  "on_object su c obj k =
     (case owner_of c obj of
        None \<Rightarrow> Inl Undefined_object
      | Some own \<Rightarrow> if may_alter su c (Some own) then k own else Inl Permission_denied)"

definition on_table ::
  "bool \<Rightarrow> catalog \<Rightarrow> table_name \<Rightarrow> (table_def \<Rightarrow> ddl_error + catalog) \<Rightarrow> ddl_error + catalog" where
  "on_table su c t k =
     on_object su c (On_table t) (\<lambda>_. case map_of (ct_tables c) t of None \<Rightarrow> Inl Undefined_object | Some d \<Rightarrow> k d)"

definition update_on :: "bool \<Rightarrow> catalog \<Rightarrow> table_name \<Rightarrow> (table_def \<Rightarrow> table_def) \<Rightarrow> ddl_error + catalog" where
  "update_on su c t f = on_table su c t (\<lambda>_. Inr (update_table t f c))"

text \<open>\<open>DROP ... IF EXISTS\<close>\<close>

definition drop_if_exists ::
  "bool \<Rightarrow> catalog \<Rightarrow> object \<Rightarrow> bool \<Rightarrow> (catalog \<Rightarrow> catalog) \<Rightarrow> ddl_error + catalog" where
  "drop_if_exists su c obj used k =
     (if \<not> exists_object c obj then Inr c
      else on_object su c obj (\<lambda>_. if used then Inl Dependent_objects else Inr (k (drop_object obj c))))"

definition serial_table :: "column list \<Rightarrow> bool" where
  "serial_table cols \<longleftrightarrow> (\<exists>col \<in> set cols. col_default col = Some Nextval)"

definition enum_used :: "catalog \<Rightarrow> enum_name \<Rightarrow> bool" where
  "enum_used c e \<longleftrightarrow> (\<exists>(_, d) \<in> set (ct_tables c). \<exists>col \<in> set (td_columns d). col_type col = Enum e)"

definition known_tables :: "catalog \<Rightarrow> table_name \<Rightarrow> constraint list \<Rightarrow> bool" where
  "known_tables c t ks \<longleftrightarrow>
     (\<forall>k \<in> set ks. case constraint_table k of None \<Rightarrow> True | Some t' \<Rightarrow> t' = t \<or> exists_object c (On_table t'))"

definition known_types :: "catalog \<Rightarrow> column list \<Rightarrow> bool" where
  "known_types c cols \<longleftrightarrow>
     (\<forall>col \<in> set cols. case col_type col of Enum e \<Rightarrow> exists_object c (On_enum e) | _ \<Rightarrow> True)"

definition set_owner :: "object \<Rightarrow> grantee \<Rightarrow> catalog \<Rightarrow> catalog" where
  "set_owner obj g c = c\<lparr>ct_owners := map (\<lambda>(o', h). (o', if o' = obj then g else h)) (ct_owners c)\<rparr>"

text \<open>
  A new owner must be a role of the login and be allowed to create in the schema; the owner of the sequence
  of a \<open>bigserial\<close> column follows its table, and is not changed on its own.
\<close>

definition owner_to :: "bool \<Rightarrow> catalog \<Rightarrow> object \<Rightarrow> db_role \<Rightarrow> ddl_error + catalog" where
  "owner_to su c obj r =
     (case owner_of c obj of
        None \<Rightarrow> Inl Undefined_object
      | Some own \<Rightarrow>
          if r \<notin> set (ct_roles c) then Inl Undefined_object
          else if own = To_role r then Inr c
          else if \<not> may_alter su c (Some own) then Inl Permission_denied
          else if \<not> su \<and> \<not> (r \<in> set (ct_members c) \<and> has_privilege c r P_create (On_schema (schema_of obj)))
            then Inl Permission_denied
          else (case obj of
                  On_sequence t \<Rightarrow> Inl Dependent_objects
                | On_table t \<Rightarrow> Inr (set_owner (On_sequence t) (To_role r) (set_owner obj (To_role r) c))
                | _ \<Rightarrow> Inr (set_owner obj (To_role r) c)))"

definition add_acl :: "grantee \<Rightarrow> object \<Rightarrow> privilege list \<Rightarrow> catalog \<Rightarrow> catalog" where
  "add_acl g obj ps c = c\<lparr>ct_acl := ct_acl c @ filter (\<lambda>x. x \<notin> set (ct_acl c)) (map (\<lambda>p. (g, p, obj)) ps)\<rparr>"

definition column_known :: "catalog \<Rightarrow> object \<Rightarrow> privilege \<Rightarrow> bool" where
  "column_known c obj p =
     (case (p, obj) of
        (P_update_column col, On_table t) \<Rightarrow>
          (case map_of (ct_tables c) t of None \<Rightarrow> False | Some d \<Rightarrow> col \<in> col_name ` set (td_columns d))
      | _ \<Rightarrow> True)"

definition new_object :: "object \<Rightarrow> grantee \<Rightarrow> catalog \<Rightarrow> catalog" where
  "new_object obj g c = c\<lparr>ct_owners := ct_owners c @ [(obj, g)]\<rparr>"

definition drop_column_of :: "table_name \<Rightarrow> column_name \<Rightarrow> catalog \<Rightarrow> catalog" where
  "drop_column_of t col c =
     (update_table t (\<lambda>d. d\<lparr>td_columns := filter (\<lambda>x. col_name x \<noteq> col) (td_columns d),
                            td_constraints := filter (\<lambda>(_, k). col \<notin> set (constraint_columns k)) (td_constraints d)\<rparr>) c)
     \<lparr>ct_indexes := filter (\<lambda>ix. ix_table ix \<noteq> t \<or> col \<notin> fst ` set (ix_columns ix)) (ct_indexes c),
      ct_acl := filter (\<lambda>(_, p, obj). \<not> (obj = On_table t \<and> p = P_update_column col)) (ct_acl c)\<rparr>"

text \<open>A trigger or a policy that mentions the column keeps it from being dropped.\<close>

definition column_used :: "table_def \<Rightarrow> column_name \<Rightarrow> bool" where
  "column_used d col \<longleftrightarrow>
     (\<exists>tr \<in> set (td_triggers d). Ev_update_of col \<in> set (tr_events tr))
     \<or> (\<exists>p \<in> set (td_policies d). \<exists>q \<in> set (policy_predicates p). col \<in> set (predicate_columns q))"

fun exec_ddl :: "bool \<Rightarrow> catalog \<Rightarrow> ddl \<Rightarrow> ddl_error + catalog" where
  "exec_ddl su c (Create_role r bypass) =
     Inr (if r \<in> set (ct_roles c) then c
          else c\<lparr>ct_roles := ct_roles c @ [r], ct_bypass := (if bypass then ct_bypass c @ [r] else ct_bypass c)\<rparr>)"
| "exec_ddl su c (Grant_role r) =
     (if r \<notin> set (ct_roles c) then Inl Undefined_object
      else Inr (if r \<in> set (ct_members c) then c else c\<lparr>ct_members := ct_members c @ [r]\<rparr>))"
| "exec_ddl su c (Drop_role r) =
     (if r \<notin> set (ct_roles c) then Inr c
      else if role_used c r then Inl Dependent_objects
      else Inr (c\<lparr>ct_roles := filter (\<lambda>x. x \<noteq> r) (ct_roles c), ct_bypass := filter (\<lambda>x. x \<noteq> r) (ct_bypass c),
                  ct_members := filter (\<lambda>x. x \<noteq> r) (ct_members c)\<rparr>))"
| "exec_ddl su c (Create_schema s r) =
     (if exists_object c (On_schema s) then Inr c
      else if r \<notin> set (ct_roles c) then Inl Undefined_object
      else if \<not> su \<and> r \<notin> set (ct_members c) then Inl Permission_denied
      else Inr (new_object (On_schema s) (To_role r) c))"
| "exec_ddl su c (Drop_schema s) =
     drop_if_exists su c (On_schema s) (\<exists>(f, _) \<in> set (ct_functions c). schema_of (On_function f) = s) id"
| "exec_ddl su c (Create_enum e labels) =
     (if exists_object c (On_enum e) then Inr c
      else if \<not> may_create su c Public_schema then Inl Permission_denied
      else Inr (add_acl Public (On_enum e) [P_usage]
                  ((new_object (On_enum e) Migrator c)\<lparr>ct_enums := ct_enums c @ [(e, labels)]\<rparr>)))"
| "exec_ddl su c (Drop_enum e) =
     drop_if_exists su c (On_enum e) (enum_used c e) (\<lambda>c. c\<lparr>ct_enums := filter (\<lambda>(e', _). e' \<noteq> e) (ct_enums c)\<rparr>)"
| "exec_ddl su c (Create_table t cols ks) =
     (if exists_object c (On_table t) then Inr c
      else if \<not> may_create su c Public_schema then Inl Permission_denied
      else if \<not> known_tables c t (map snd ks) \<or> \<not> known_types c cols then Inl Undefined_object
      else Inr ((if serial_table cols then new_object (On_sequence t) Migrator else id)
                 ((new_object (On_table t) Migrator c)
                  \<lparr>ct_tables := ct_tables c @ [(t, \<lparr>td_columns = cols, td_constraints = ks, td_enabled = False, td_forced = False,
                                               td_policies = [], td_triggers = []\<rparr>)]\<rparr>)))"
| "exec_ddl su c (Drop_table t) =
     drop_if_exists su c (On_table t) (table_used c t)
       (\<lambda>c. (drop_object (On_sequence t) c)\<lparr>ct_tables := filter (\<lambda>(t', _). t' \<noteq> t) (ct_tables c),
                                            ct_indexes := filter (\<lambda>ix. ix_table ix \<noteq> t) (ct_indexes c)\<rparr>)"
| "exec_ddl su c (Add_column t lenient col ks) =
     on_table su c t (\<lambda>d.
       if col_name col \<in> col_name ` set (td_columns d) then (if lenient then Inr c else Inl Duplicate_object)
       else if \<not> known_tables c t (map snd ks) then Inl Undefined_object
       else Inr (update_table t (\<lambda>d. d\<lparr>td_columns := td_columns d @ [col], td_constraints := td_constraints d @ ks\<rparr>) c))"
| "exec_ddl su c (Drop_column t col) =
     on_table su c t (\<lambda>d. if column_used d col then Inl Dependent_objects else Inr (drop_column_of t col c))"
| "exec_ddl su c (Add_constraint t n k) =
     on_table su c t (\<lambda>d.
       if Some n \<in> fst ` set (td_constraints d) then Inl Duplicate_object
       else if \<not> set (constraint_columns k) \<subseteq> col_name ` set (td_columns d) then Inl Undefined_object
       else Inr (update_table t (\<lambda>d. d\<lparr>td_constraints := td_constraints d @ [(Some n, k)]\<rparr>) c))"
| "exec_ddl su c (Drop_constraint t n) =
     update_on su c t (\<lambda>d. d\<lparr>td_constraints := filter (\<lambda>(n', _). n' \<noteq> Some n) (td_constraints d)\<rparr>)"
| "exec_ddl su c (Create_index ix) =
     on_table su c (ix_table ix) (\<lambda>d.
       if ix_name ix \<in> ix_name ` set (ct_indexes c) then Inr c
       else if \<not> fst ` set (ix_columns ix) \<subseteq> col_name ` set (td_columns d) then Inl Undefined_object
       else Inr (c\<lparr>ct_indexes := ct_indexes c @ [ix]\<rparr>))"
| "exec_ddl su c (Drop_index n) =
     (case List.find (\<lambda>ix. ix_name ix = n) (ct_indexes c) of
        None \<Rightarrow> Inr c
      | Some ix \<Rightarrow> on_table su c (ix_table ix) (\<lambda>_. Inr (c\<lparr>ct_indexes := filter (\<lambda>ix. ix_name ix \<noteq> n) (ct_indexes c)\<rparr>)))"
| "exec_ddl su c (Create_function f body definer) =
     (if exists_object c (On_function f)
      then on_object su c (On_function f) (\<lambda>_.
             Inr (c\<lparr>ct_functions := map (\<lambda>(g, d). (g, if g = f then \<lparr>fd_body = body, fd_definer = definer\<rparr> else d)) (ct_functions c)\<rparr>))
      else if \<not> exists_object c (On_schema (schema_of (On_function f))) then Inl Undefined_object
      else if \<not> may_create su c (schema_of (On_function f)) then Inl Permission_denied
      else Inr (add_acl Public (On_function f) [P_execute]
                 ((new_object (On_function f) Migrator c)
                  \<lparr>ct_functions := ct_functions c @ [(f, \<lparr>fd_body = body, fd_definer = definer\<rparr>)]\<rparr>)))"
| "exec_ddl su c (Drop_function f) =
     drop_if_exists su c (On_function f) (function_used c f)
       (\<lambda>c. c\<lparr>ct_functions := filter (\<lambda>(g, _). g \<noteq> f) (ct_functions c)\<rparr>)"
| "exec_ddl su c (Create_trigger t tr) =
     on_table su c t (\<lambda>d.
       if \<not> exists_object c (On_function (tr_function tr)) then Inl Undefined_object
       else if tr_name tr \<in> tr_name ` set (td_triggers d) then Inl Duplicate_object
       else Inr (update_table t (\<lambda>d. d\<lparr>td_triggers := td_triggers d @ [tr]\<rparr>) c))"
| "exec_ddl su c (Drop_trigger t n) =
     (if \<not> exists_object c (On_table t) then Inr c
      else update_on su c t (\<lambda>d. d\<lparr>td_triggers := filter (\<lambda>tr. tr_name tr \<noteq> n) (td_triggers d)\<rparr>))"
| "exec_ddl su c (Owner_to obj r) = owner_to su c obj r"
| "exec_ddl su c (Grant ps obj g) =
     on_object su c obj (\<lambda>_.
       if \<not> exists_grantee c g \<or> (\<exists>p \<in> set ps. \<not> column_known c obj p) then Inl Undefined_object
       else Inr (add_acl g obj ps c))"
| "exec_ddl su c (Revoke ps obj g) =
     on_object su c obj (\<lambda>_.
       if \<not> exists_grantee c g \<or> (\<exists>p \<in> set ps. \<not> column_known c obj p) then Inl Undefined_object
       else Inr (c\<lparr>ct_acl := filter (\<lambda>(h, p, o'). \<not> (h = g \<and> o' = obj \<and> p \<in> set ps)) (ct_acl c)\<rparr>))"
| "exec_ddl su c (Revoke_all obj g) =
     on_object su c obj (\<lambda>_.
       if \<not> exists_grantee c g then Inl Undefined_object
       else Inr (c\<lparr>ct_acl := filter (\<lambda>(h, p, o'). \<not> (h = g \<and> o' = obj)) (ct_acl c)\<rparr>))"
| "exec_ddl su c (Row_security t b) = update_on su c t (\<lambda>d. d\<lparr>td_enabled := b\<rparr>)"
| "exec_ddl su c (Force_security t b) = update_on su c t (\<lambda>d. d\<lparr>td_forced := b\<rparr>)"
| "exec_ddl su c (Create_policy t p) =
     on_table su c t (\<lambda>d.
       if pol_role p \<notin> set (ct_roles c) \<or> (\<exists>q \<in> set (policy_predicates p).
            (\<exists>f \<in> set (predicate_functions q). \<not> exists_object c (On_function f))
            \<or> (\<exists>t' \<in> set (predicate_tables q). \<not> exists_object c (On_table t'))) then Inl Undefined_object
       else if pol_name p \<in> pol_name ` set (td_policies d) then Inl Duplicate_object
       else Inr (update_table t (\<lambda>d. d\<lparr>td_policies := td_policies d @ [p]\<rparr>) c))"
| "exec_ddl su c (Drop_policy t n) =
     (if \<not> exists_object c (On_table t) then Inr c
      else update_on su c t (\<lambda>d. d\<lparr>td_policies := filter (\<lambda>p. pol_name p \<noteq> n) (td_policies d)\<rparr>))"

definition exec_all :: "bool \<Rightarrow> catalog \<Rightarrow> ddl list \<Rightarrow> ddl_error + catalog" where
  "exec_all su = foldE (exec_ddl su)"

end
