(* ===== verification/Migrations.thy ===== *)
theory Migrations
  imports Catalog
begin

text \<open>
  The sixteen revisions of \<open>migrations/versions\<close> as lists of statements, and their execution by
  \<open>migrations/env.py\<close>. Comments on objects are left out.
\<close>

section \<open>Columns\<close>

definition required :: "column_name \<Rightarrow> sql_type \<Rightarrow> column" where
  "required n ty = \<lparr>col_name = n, col_type = ty, col_null = False, col_default = None\<rparr>"

definition optional :: "column_name \<Rightarrow> sql_type \<Rightarrow> column" where
  "optional n ty = \<lparr>col_name = n, col_type = ty, col_null = True, col_default = None\<rparr>"

definition defaulted :: "column_name \<Rightarrow> sql_type \<Rightarrow> col_default \<Rightarrow> column" where
  "defaulted n ty v = \<lparr>col_name = n, col_type = ty, col_null = False, col_default = Some v\<rparr>"

definition index_on :: "index_name \<Rightarrow> table_name \<Rightarrow> column_name list \<Rightarrow> ddl" where
  "index_on n t cols = Create_index \<lparr>ix_name = n, ix_table = t, ix_columns = map (\<lambda>x. (x, False)) cols, ix_where = None\<rparr>"

text \<open>The last column is descending.\<close>

definition index_desc :: "index_name \<Rightarrow> table_name \<Rightarrow> column_name list \<Rightarrow> column_name \<Rightarrow> column_name option \<Rightarrow> ddl" where
  "index_desc n t cols lst cond =
     Create_index \<lparr>ix_name = n, ix_table = t, ix_columns = map (\<lambda>x. (x, False)) cols @ [(lst, True)], ix_where = cond\<rparr>"

definition fresh_trigger :: "table_name \<Rightarrow> trigger_name \<Rightarrow> trigger_event list \<Rightarrow> function_name \<Rightarrow> ddl list" where
  "fresh_trigger t n evs f = [Drop_trigger t n, Create_trigger t \<lparr>tr_name = n, tr_events = evs, tr_function = f\<rparr>]"

definition policy_on ::
  "table_name \<Rightarrow> policy_name \<Rightarrow> command \<Rightarrow> db_role \<Rightarrow> predicate option \<Rightarrow> predicate option \<Rightarrow> ddl" where
  "policy_on t n cmd r usng chk =
     Create_policy t \<lparr>pol_name = n, pol_command = cmd, pol_role = r, pol_using = usng, pol_check = chk\<rparr>"

abbreviation to_api :: grantee where "to_api \<equiv> To_role Api_app"
abbreviation to_worker :: grantee where "to_worker \<equiv> To_role Ingestion_worker"
abbreviation to_admin :: grantee where "to_admin \<equiv> To_role Admin_bypass"

section \<open>0001: roles\<close>

definition upgrade_0001 :: "ddl list" where
  "upgrade_0001 =
     [Create_role Schema_owner False, Create_role Api_app False, Create_role Ingestion_worker False, Create_role Admin_bypass True,
      Grant_role Schema_owner, Grant [P_usage, P_create] (On_schema Public_schema) (To_role Schema_owner)]"

definition downgrade_0001 :: "ddl list" where
  "downgrade_0001 = [Drop_role Admin_bypass, Drop_role Ingestion_worker, Drop_role Api_app, Drop_role Schema_owner]"

section \<open>0002: tenancy\<close>

definition tenancy_tables :: "ddl list" where
  "tenancy_tables =
     [Grant_role Schema_owner, Grant [P_usage, P_create] (On_schema Public_schema) (To_role Schema_owner),
      Create_enum E_user_role [''client'', ''admin''],
      Create_table T_users
        [defaulted C_id Uuid Uuidv7, required C_email Text, required C_password_hash Text,
         required C_role (Enum E_user_role), defaulted C_created_at Timestamptz Now]
        [(None, Primary_key [C_id]), (None, Unique [C_email])],
      Create_table T_subscriptions
        [defaulted C_id Uuid Uuidv7, required C_user_id Uuid, required C_valid_from Timestamptz,
         optional C_valid_to Timestamptz, defaulted C_created_at Timestamptz Now]
        [(None, Primary_key [C_id]),
         (None, Foreign_key C_user_id T_users C_id Restrict),
         (Some K_subscriptions_valid_to_after_valid_from, Check Window_ordered)],
      index_on I_subscriptions_user_id_valid_from T_subscriptions [C_user_id, C_valid_from],
      Create_table T_subscription_scopes
        [required C_subscription_id Uuid, required C_jurisdiction Text, required C_sector Text]
        [(None, Primary_key [C_subscription_id, C_jurisdiction, C_sector]),
         (None, Foreign_key C_subscription_id T_subscriptions C_id Cascade)]]"

definition tenancy_rules :: "ddl list" where
  "tenancy_rules =
     [Create_function F_reject_subscription_update Ends_subscription False,
      Create_function F_reject_subscription_scope_update Rejects False]
     @ fresh_trigger T_subscriptions Tr_subscriptions_no_update [Ev_update] F_reject_subscription_update
     @ fresh_trigger T_subscription_scopes Tr_subscription_scopes_no_update [Ev_update] F_reject_subscription_scope_update
     @ [Owner_to (On_enum E_user_role) Schema_owner, Owner_to (On_table T_users) Schema_owner,
        Owner_to (On_table T_subscriptions) Schema_owner, Owner_to (On_table T_subscription_scopes) Schema_owner,
        Owner_to (On_function F_reject_subscription_update) Schema_owner,
        Owner_to (On_function F_reject_subscription_scope_update) Schema_owner,
        Grant [P_select, P_insert, P_update] (On_table T_users) to_api,
        Grant [P_select, P_insert, P_update] (On_table T_subscriptions) to_api,
        Grant [P_select, P_insert] (On_table T_subscription_scopes) to_api,
        Grant [P_usage] (On_enum E_user_role) to_api]"

definition upgrade_0002 :: "ddl list" where
  "upgrade_0002 = tenancy_tables @ tenancy_rules"

definition downgrade_0002 :: "ddl list" where
  "downgrade_0002 =
     [Drop_trigger T_subscription_scopes Tr_subscription_scopes_no_update,
      Drop_trigger T_subscriptions Tr_subscriptions_no_update,
      Drop_function F_reject_subscription_scope_update, Drop_function F_reject_subscription_update,
      Drop_table T_subscription_scopes, Drop_table T_subscriptions, Drop_table T_users, Drop_enum E_user_role]"

section \<open>0003: corpus\<close>

definition corpus_tables :: "ddl list" where
  "corpus_tables =
     [Create_table T_documents
        [defaulted C_id Uuid Uuidv7, required C_jurisdiction Text, required C_sector Text,
         required C_lawstronaut_document_id Text, required C_title Text, defaulted C_created_at Timestamptz Now]
        [(None, Primary_key [C_id]),
         (None, Unique [C_lawstronaut_document_id])],
      index_on I_documents_jurisdiction_sector T_documents [C_jurisdiction, C_sector],
      Create_table T_document_versions
        [defaulted C_id Uuid Uuidv7, required C_document_id Uuid, required C_version_label Text,
         optional C_publication_date Timestamptz, optional C_effective_date Timestamptz,
         required C_content_blob_container Text, required C_content_blob_key Text, required C_content_sha256 Bytea,
         required C_content_bytes Int4, defaulted C_created_at Timestamptz Now]
        [(None, Primary_key [C_id]),
         (None, Foreign_key C_document_id T_documents C_id Restrict),
         (Some K_document_versions_unique_label, Unique [C_document_id, C_version_label]),
         (Some K_document_versions_content_bytes_nonneg, Check Bytes_nonneg),
         (Some K_document_versions_sha256_length, Check Digest_length)],
      index_on I_document_versions_doc_effective T_document_versions [C_document_id, C_effective_date],
      Create_table T_clauses
        [defaulted C_id Uuid Uuidv7, required C_document_version_id Uuid, required C_clause_uid Uuid,
         required C_clause_path Text, required C_text_content Text, required C_ord Int4]
        [(None, Primary_key [C_id]),
         (None, Foreign_key C_document_version_id T_document_versions C_id Restrict),
         (Some K_clauses_unique_path_per_version, Unique [C_document_version_id, C_clause_path])],
      index_on I_clauses_version_ord T_clauses [C_document_version_id, C_ord],
      index_on I_clauses_clause_uid T_clauses [C_clause_uid]]"

definition corpus_rules :: "ddl list" where
  "corpus_rules =
     [Create_function F_reject_document_update Rejects False, Create_function F_reject_document_version_update Rejects False,
      Create_function F_reject_clause_update Rejects False]
     @ fresh_trigger T_documents Tr_documents_no_update [Ev_update] F_reject_document_update
     @ fresh_trigger T_document_versions Tr_document_versions_no_update [Ev_update] F_reject_document_version_update
     @ fresh_trigger T_clauses Tr_clauses_no_update [Ev_update] F_reject_clause_update
     @ [Owner_to (On_table T_documents) Schema_owner, Owner_to (On_table T_document_versions) Schema_owner,
        Owner_to (On_table T_clauses) Schema_owner, Owner_to (On_function F_reject_document_update) Schema_owner,
        Owner_to (On_function F_reject_document_version_update) Schema_owner,
        Owner_to (On_function F_reject_clause_update) Schema_owner,
        Grant [P_select] (On_table T_documents) to_api, Grant [P_select] (On_table T_document_versions) to_api,
        Grant [P_select] (On_table T_clauses) to_api, Grant [P_select, P_insert] (On_table T_documents) to_worker,
        Grant [P_select, P_insert] (On_table T_document_versions) to_worker,
        Grant [P_select, P_insert] (On_table T_clauses) to_worker]"

definition upgrade_0003 :: "ddl list" where
  "upgrade_0003 = corpus_tables @ corpus_rules"

definition downgrade_0003 :: "ddl list" where
  "downgrade_0003 =
     [Drop_trigger T_clauses Tr_clauses_no_update, Drop_trigger T_document_versions Tr_document_versions_no_update,
      Drop_trigger T_documents Tr_documents_no_update, Drop_function F_reject_clause_update,
      Drop_function F_reject_document_version_update, Drop_function F_reject_document_update,
      Drop_table T_clauses, Drop_table T_document_versions, Drop_table T_documents]"

section \<open>0004: current\_scope\<close>

definition upgrade_0004 :: "ddl list" where
  "upgrade_0004 =
     [Create_schema App_private Schema_owner, Revoke_all (On_schema App_private) Public,
      Grant [P_usage] (On_schema App_private) to_api,
      Create_function F_current_scope Scope_of_subscriptions True,
      Owner_to (On_function F_current_scope) Schema_owner, Revoke_all (On_function F_current_scope) Public,
      Grant [P_execute] (On_function F_current_scope) to_api]"

definition downgrade_0004 :: "ddl list" where
  "downgrade_0004 = [Drop_function F_current_scope, Drop_schema App_private]"

section \<open>0005: row-level security\<close>

definition watchlists_policies :: "policy_name list" where
  "watchlists_policies =
     [Pol_watchlists_owner_select, Pol_watchlists_owner_insert, Pol_watchlists_owner_update, Pol_watchlists_owner_delete]"

definition corpus_table_names :: "table_name list" where
  "corpus_table_names = [T_documents, T_document_versions, T_clauses]"

definition corpus_api_policies :: "(table_name \<times> policy_name) list" where
  "corpus_api_policies = [(T_documents, Pol_documents_in_scope), (T_document_versions, Pol_document_versions_in_scope),
     (T_clauses, Pol_clauses_in_scope)]"

definition corpus_ingestion_policies :: "(table_name \<times> policy_name) list" where
  "corpus_ingestion_policies = [(T_documents, Pol_documents_ingestion_all),
     (T_document_versions, Pol_document_versions_ingestion_all), (T_clauses, Pol_clauses_ingestion_all)]"

definition spine_tables :: "ddl list" where
  "spine_tables =
     [Create_table T_watchlists
        [defaulted C_id Uuid Uuidv7, required C_user_id Uuid, required C_name Text, defaulted C_created_at Timestamptz Now]
        [(None, Primary_key [C_id]),
         (None, Foreign_key C_user_id T_users C_id Cascade)],
      index_on I_watchlists_user_id T_watchlists [C_user_id],
      Owner_to (On_table T_watchlists) Schema_owner,
      Grant [P_select, P_insert, P_update, P_delete] (On_table T_watchlists) to_api,
      Grant [P_select] (On_table T_watchlists) to_admin,
      Grant [P_select] (On_table T_documents) to_admin, Grant [P_select] (On_table T_document_versions) to_admin,
      Grant [P_select] (On_table T_clauses) to_admin]
     @ concat (map (\<lambda>t. [Row_security t True, Force_security t True]) (T_watchlists # corpus_table_names))"

definition spine_policies :: "ddl list" where
  "spine_policies =
     map (Drop_policy T_watchlists) watchlists_policies
     @ [policy_on T_watchlists Pol_watchlists_owner_select For_select Api_app (Some Owner_is_user) None,
        policy_on T_watchlists Pol_watchlists_owner_insert For_insert Api_app None (Some Owner_is_user),
        policy_on T_watchlists Pol_watchlists_owner_update For_update Api_app (Some Owner_is_user) (Some Owner_is_user),
        policy_on T_watchlists Pol_watchlists_owner_delete For_delete Api_app (Some Owner_is_user) None]
     @ map (\<lambda>(t, n). Drop_policy t n) corpus_api_policies @ map (\<lambda>(t, n). Drop_policy t n) corpus_ingestion_policies
     @ [policy_on T_documents Pol_documents_in_scope For_select Api_app (Some Own_pair) None,
        policy_on T_document_versions Pol_document_versions_in_scope For_select Api_app (Some Via_document) None,
        policy_on T_clauses Pol_clauses_in_scope For_select Api_app (Some Via_version) None,
        policy_on T_documents Pol_documents_ingestion_all For_all Ingestion_worker (Some Everyone) (Some Everyone),
        policy_on T_document_versions Pol_document_versions_ingestion_all For_all Ingestion_worker (Some Everyone) (Some Everyone),
        policy_on T_clauses Pol_clauses_ingestion_all For_all Ingestion_worker (Some Everyone) (Some Everyone)]"

definition upgrade_0005 :: "ddl list" where
  "upgrade_0005 = spine_tables @ spine_policies"

definition downgrade_0005 :: "ddl list" where
  "downgrade_0005 =
     map (\<lambda>(t, n). Drop_policy t n) corpus_ingestion_policies @ map (\<lambda>(t, n). Drop_policy t n) corpus_api_policies
     @ map (Drop_policy T_watchlists) watchlists_policies
     @ concat (map (\<lambda>t. [Force_security t False, Row_security t False]) (T_watchlists # corpus_table_names))
     @ map (\<lambda>t. Revoke [P_select] (On_table t) to_admin) corpus_table_names
     @ [Drop_index I_watchlists_user_id, Drop_table T_watchlists]"

section \<open>0006: the audit table\<close>

definition upgrade_0006 :: "ddl list" where
  "upgrade_0006 =
     [Create_enum E_admin_access_mode [''operator'', ''impersonation''],
      Create_table T_admin_access_log
        [defaulted C_id Uuid Uuidv7, required C_admin_id Uuid, optional C_target_user_id Uuid,
         required C_mode (Enum E_admin_access_mode), optional C_token_id Uuid, optional C_reason Text,
         defaulted C_granted_at Timestamptz Now]
        [(None, Primary_key [C_id]),
         (None, Foreign_key C_admin_id T_users C_id Restrict),
         (None, Foreign_key C_target_user_id T_users C_id Restrict),
         (Some K_admin_access_log_mode_target_consistent,
            Check Mode_fits_target)],
      index_desc I_admin_access_log_admin_id_granted_at T_admin_access_log [C_admin_id] C_granted_at None,
      index_desc I_admin_access_log_target_user_id_granted_at T_admin_access_log [C_target_user_id] C_granted_at
        (Some C_target_user_id),
      Create_function F_reject_admin_access_log_mutation Rejects False]
     @ fresh_trigger T_admin_access_log Tr_admin_access_log_no_update [Ev_update] F_reject_admin_access_log_mutation
     @ fresh_trigger T_admin_access_log Tr_admin_access_log_no_delete [Ev_delete] F_reject_admin_access_log_mutation
     @ [Owner_to (On_enum E_admin_access_mode) Schema_owner, Owner_to (On_table T_admin_access_log) Schema_owner,
        Owner_to (On_function F_reject_admin_access_log_mutation) Schema_owner,
        Row_security T_admin_access_log True, Force_security T_admin_access_log True,
        Grant [P_select, P_insert] (On_table T_admin_access_log) to_admin,
        Grant [P_usage] (On_enum E_admin_access_mode) to_admin]"

definition downgrade_0006 :: "ddl list" where
  "downgrade_0006 =
     [Drop_trigger T_admin_access_log Tr_admin_access_log_no_delete,
      Drop_trigger T_admin_access_log Tr_admin_access_log_no_update,
      Drop_function F_reject_admin_access_log_mutation,
      Drop_index I_admin_access_log_target_user_id_granted_at, Drop_index I_admin_access_log_admin_id_granted_at,
      Drop_table T_admin_access_log, Drop_enum E_admin_access_mode]"

section \<open>0007: ingestion\<close>

definition version_columns :: "ddl list" where
  "version_columns =
     [Add_column T_document_versions True (optional C_version_no Int4) [],
      Add_column T_document_versions True (optional C_valid_from Timestamptz) [],
      Add_column T_document_versions True (optional C_valid_to Timestamptz) [],
      Add_constraint T_document_versions K_document_versions_unique_doc_version_no (Unique [C_document_id, C_version_no]),
      index_desc I_document_versions_doc_valid_to T_document_versions [C_document_id] C_valid_to None,
      Create_function F_reject_document_version_update Moves_valid_to False,
      Grant [P_update_column C_valid_to] (On_table T_document_versions) to_worker]"

definition ingestion_tables :: "ddl list" where
  "ingestion_tables =
     [Create_table T_document_poll_schedule
        [required C_document_id Uuid, required C_cadence_interval Interval, required C_next_poll_at Timestamptz,
         optional C_last_polled_at Timestamptz, defaulted C_failure_count Int4 Zero]
        [(None, Primary_key [C_document_id]),
         (None, Foreign_key C_document_id T_documents C_id Restrict),
         (Some K_document_poll_schedule_failure_count_nonneg, Check Failures_nonneg)],
      index_on I_document_poll_schedule_next_poll_at T_document_poll_schedule [C_next_poll_at],
      Create_table T_ingestion_incident
        [defaulted C_id Int8 Nextval, required C_document_id Uuid, required C_error_class Text, required C_payload Jsonb,
         defaulted C_occurred_at Timestamptz Now]
        [(None, Primary_key [C_id]),
         (None, Foreign_key C_document_id T_documents C_id Restrict)],
      index_desc I_ingestion_incident_doc_occurred T_ingestion_incident [C_document_id] C_occurred_at None,
      index_desc I_ingestion_incident_occurred_at T_ingestion_incident [] C_occurred_at None,
      Owner_to (On_table T_document_poll_schedule) Schema_owner, Owner_to (On_table T_ingestion_incident) Schema_owner,
      Owner_to (On_function F_reject_document_version_update) Schema_owner,
      Owner_to (On_sequence T_ingestion_incident) Schema_owner,
      Grant [P_select, P_insert, P_update] (On_table T_document_poll_schedule) to_worker,
      Grant [P_select, P_insert] (On_table T_ingestion_incident) to_worker,
      Grant [P_usage] (On_sequence T_ingestion_incident) to_worker]"

definition upgrade_0007 :: "ddl list" where
  "upgrade_0007 = version_columns @ ingestion_tables"

definition downgrade_0007 :: "ddl list" where
  "downgrade_0007 =
     [Drop_table T_ingestion_incident, Drop_table T_document_poll_schedule,
      Create_function F_reject_document_version_update Rejects False,
      Revoke [P_update_column C_valid_to] (On_table T_document_versions) to_worker,
      Drop_index I_document_versions_doc_valid_to,
      Drop_constraint T_document_versions K_document_versions_unique_doc_version_no,
      Drop_column T_document_versions C_valid_to, Drop_column T_document_versions C_valid_from,
      Drop_column T_document_versions C_version_no]"

section \<open>0008: refresh tokens\<close>

definition upgrade_0008 :: "ddl list" where
  "upgrade_0008 =
     [Create_table T_refresh_tokens
        [required C_jti Uuid, required C_user_id Uuid, defaulted C_issued_at Timestamptz Now,
         required C_expires_at Timestamptz, optional C_revoked_at Timestamptz]
        [(None, Primary_key [C_jti]),
         (None, Foreign_key C_user_id T_users C_id Cascade)],
      index_desc I_refresh_tokens_user_id_issued_at T_refresh_tokens [C_user_id] C_issued_at None,
      Owner_to (On_table T_refresh_tokens) Schema_owner,
      Row_security T_refresh_tokens True, Force_security T_refresh_tokens True,
      Drop_policy T_refresh_tokens Pol_refresh_tokens_owner_select,
      policy_on T_refresh_tokens Pol_refresh_tokens_owner_select For_select Api_app (Some Owner_is_user) None,
      Drop_policy T_refresh_tokens Pol_refresh_tokens_owner_insert,
      policy_on T_refresh_tokens Pol_refresh_tokens_owner_insert For_insert Api_app None (Some Owner_is_user),
      Drop_policy T_refresh_tokens Pol_refresh_tokens_owner_update,
      policy_on T_refresh_tokens Pol_refresh_tokens_owner_update For_update Api_app (Some Owner_is_user) (Some Owner_is_user),
      Grant [P_select, P_insert, P_update] (On_table T_refresh_tokens) to_api,
      Grant [P_select] (On_table T_refresh_tokens) to_admin]"

definition downgrade_0008 :: "ddl list" where
  "downgrade_0008 =
     [Drop_policy T_refresh_tokens Pol_refresh_tokens_owner_update, Drop_policy T_refresh_tokens Pol_refresh_tokens_owner_insert,
      Drop_policy T_refresh_tokens Pol_refresh_tokens_owner_select, Drop_index I_refresh_tokens_user_id_issued_at,
      Drop_table T_refresh_tokens]"

section \<open>0009: watchlists and documents\<close>

definition upgrade_0009 :: "ddl list" where
  "upgrade_0009 =
     [Add_column T_watchlists False (required C_document_id Uuid)
        [(None, Foreign_key C_document_id T_documents C_id Cascade)],
      index_on I_watchlists_document_id T_watchlists [C_document_id],
      Add_constraint T_watchlists K_watchlists_user_document_unique (Unique [C_user_id, C_document_id]),
      Grant [P_usage] (On_schema App_private) to_admin, Grant [P_execute] (On_function F_current_scope) to_admin,
      Create_function F_assert_watchlist_in_scope Checks_watchlist True,
      Grant [P_usage, P_create] (On_schema App_private) to_admin, Grant_role Admin_bypass,
      Owner_to (On_function F_assert_watchlist_in_scope) Admin_bypass,
      Revoke_all (On_function F_assert_watchlist_in_scope) Public,
      Grant [P_execute] (On_function F_assert_watchlist_in_scope) to_api,
      Create_trigger T_watchlists \<lparr>tr_name = Tr_watchlists_in_subscription_scope,
        tr_events = [Ev_insert, Ev_update_of C_document_id], tr_function = F_assert_watchlist_in_scope\<rparr>]"

definition downgrade_0009 :: "ddl list" where
  "downgrade_0009 =
     [Drop_trigger T_watchlists Tr_watchlists_in_subscription_scope, Drop_function F_assert_watchlist_in_scope,
      Revoke [P_execute] (On_function F_current_scope) to_admin, Revoke [P_usage] (On_schema App_private) to_admin,
      Drop_constraint T_watchlists K_watchlists_user_document_unique, Drop_index I_watchlists_document_id,
      Drop_column T_watchlists C_document_id]"

section \<open>0010: change events\<close>

definition event_table :: "ddl list" where
  "event_table =
     [Create_table T_change_events
        [defaulted C_id Int8 Nextval, required C_document_id Uuid, required C_document_version_id Uuid,
         required C_jurisdiction Text, required C_sector Text, required C_change_type Text,
         optional C_before_clause_uid Uuid, optional C_after_clause_uid Uuid, optional C_before_path Text,
         optional C_after_path Text, optional C_before_text Text, optional C_after_text Text,
         required C_alignment_confidence Float8, defaulted C_detected_at Timestamptz Now,
         optional C_effective_date Timestamptz]
        [(None, Primary_key [C_id]),
         (None, Foreign_key C_document_id T_documents C_id Restrict),
         (None, Foreign_key C_document_version_id T_document_versions C_id Restrict),
         (Some K_change_events_change_type_chk, Check Known_change_type),
         (Some K_change_events_confidence_range_chk, Check Confidence_in_range)],
      index_on I_change_events_scope T_change_events [C_jurisdiction, C_sector, C_detected_at, C_effective_date],
      index_on I_change_events_document T_change_events [C_document_id, C_detected_at],
      index_on I_change_events_version T_change_events [C_document_version_id],
      Owner_to (On_table T_change_events) Schema_owner, Owner_to (On_sequence T_change_events) Schema_owner]"

definition event_rules :: "ddl list" where
  "event_rules =
     [Create_function F_reject_change_event_mutation Rejects False,
      Owner_to (On_function F_reject_change_event_mutation) Schema_owner]
     @ fresh_trigger T_change_events Tr_change_events_no_update [Ev_update] F_reject_change_event_mutation
     @ fresh_trigger T_change_events Tr_change_events_no_delete [Ev_delete] F_reject_change_event_mutation
     @ [Grant [P_select] (On_table T_change_events) to_api, Grant [P_select, P_insert] (On_table T_change_events) to_worker,
        Grant [P_usage] (On_sequence T_change_events) to_worker, Grant [P_select] (On_table T_change_events) to_admin,
        Row_security T_change_events True, Force_security T_change_events True,
        Drop_policy T_change_events Pol_change_events_in_scope,
        policy_on T_change_events Pol_change_events_in_scope For_select Api_app (Some Own_pair) None,
        Drop_policy T_change_events Pol_change_events_ingestion_all,
        policy_on T_change_events Pol_change_events_ingestion_all For_all Ingestion_worker (Some Everyone) (Some Everyone)]"

definition upgrade_0010 :: "ddl list" where
  "upgrade_0010 = event_table @ event_rules"

definition downgrade_0010 :: "ddl list" where
  "downgrade_0010 =
     [Drop_policy T_change_events Pol_change_events_ingestion_all, Drop_policy T_change_events Pol_change_events_in_scope,
      Force_security T_change_events False, Row_security T_change_events False,
      Drop_trigger T_change_events Tr_change_events_no_delete, Drop_trigger T_change_events Tr_change_events_no_update,
      Drop_function F_reject_change_event_mutation, Drop_index I_change_events_version,
      Drop_index I_change_events_document, Drop_index I_change_events_scope, Drop_table T_change_events]"

section \<open>0011: administration of subscriptions\<close>

definition upgrade_0011 :: "ddl list" where
  "upgrade_0011 =
     [Add_column T_subscription_scopes False (optional C_valid_to Timestamptz) [],
      Create_function F_reject_subscription_scope_update Ends_scope False,
      Create_function F_current_scope Scope_of_open_scopes True,
      Add_column T_watchlists False (defaulted C_active Boolean True_default) [],
      Grant [P_update] (On_table T_watchlists) to_admin, Grant [P_select] (On_table T_users) to_admin,
      Grant [P_select, P_insert] (On_table T_subscriptions) to_admin,
      Grant [P_select, P_insert, P_update] (On_table T_subscription_scopes) to_admin]"

definition downgrade_0011 :: "ddl list" where
  "downgrade_0011 =
     [Revoke [P_select, P_insert, P_update] (On_table T_subscription_scopes) to_admin,
      Revoke [P_select, P_insert] (On_table T_subscriptions) to_admin, Revoke [P_select] (On_table T_users) to_admin,
      Revoke [P_update] (On_table T_watchlists) to_admin, Drop_column T_watchlists C_active,
      Create_function F_reject_subscription_scope_update Rejects False,
      Create_function F_current_scope Scope_of_subscriptions True,
      Drop_column T_subscription_scopes C_valid_to]"

section \<open>0012 to 0016\<close>

definition upgrade_0012 :: "ddl list" where
  "upgrade_0012 = [Grant [P_select] (On_table T_document_poll_schedule) to_admin,
     Grant [P_select] (On_table T_ingestion_incident) to_admin]"

definition downgrade_0012 :: "ddl list" where
  "downgrade_0012 = [Revoke [P_select] (On_table T_ingestion_incident) to_admin,
     Revoke [P_select] (On_table T_document_poll_schedule) to_admin]"

definition upgrade_0013 :: "ddl list" where
  "upgrade_0013 =
     [Create_schema App_public Schema_owner, Revoke_all (On_schema App_public) Public,
      Grant [P_usage] (On_schema App_public) to_api, Grant [P_usage] (On_schema App_public) to_admin,
      Create_function F_corpus_shape Counts_documents True, Owner_to (On_function F_corpus_shape) Schema_owner,
      Revoke_all (On_function F_corpus_shape) Public, Grant [P_execute] (On_function F_corpus_shape) to_api,
      Grant [P_execute] (On_function F_corpus_shape) to_admin,
      policy_on T_documents Pol_documents_schema_owner_read For_select Schema_owner (Some Everyone) None]"

definition downgrade_0013 :: "ddl list" where
  "downgrade_0013 = [Drop_policy T_documents Pol_documents_schema_owner_read, Drop_function F_corpus_shape, Drop_schema App_public]"

definition upgrade_0014 :: "ddl list" where
  "upgrade_0014 =
     [Create_function F_change_event_shape Counts_events True, Owner_to (On_function F_change_event_shape) Schema_owner,
      Revoke_all (On_function F_change_event_shape) Public, Grant [P_execute] (On_function F_change_event_shape) to_api,
      Grant [P_execute] (On_function F_change_event_shape) to_admin,
      policy_on T_change_events Pol_change_events_schema_owner_read For_select Schema_owner (Some Everyone) None]"

definition downgrade_0014 :: "ddl list" where
  "downgrade_0014 = [Drop_policy T_change_events Pol_change_events_schema_owner_read, Drop_function F_change_event_shape]"

definition upgrade_0015 :: "ddl list" where
  "upgrade_0015 = [Add_column T_clauses False (optional C_heading_text Text) []]"

definition downgrade_0015 :: "ddl list" where
  "downgrade_0015 = [Drop_column T_clauses C_heading_text]"

definition upgrade_0016 :: "ddl list" where
  "upgrade_0016 = [Add_column T_clauses False (optional C_numbering_label Text) []]"

definition downgrade_0016 :: "ddl list" where
  "downgrade_0016 = [Drop_column T_clauses C_numbering_label]"

section \<open>Running them\<close>

text \<open>The revisions in the order of \<open>down_revision\<close>, each with its upgrade and its downgrade.\<close>

definition revisions :: "(ddl list \<times> ddl list) list" where
  "revisions =
     [(upgrade_0001, downgrade_0001), (upgrade_0002, downgrade_0002), (upgrade_0003, downgrade_0003),
      (upgrade_0004, downgrade_0004), (upgrade_0005, downgrade_0005), (upgrade_0006, downgrade_0006),
      (upgrade_0007, downgrade_0007), (upgrade_0008, downgrade_0008), (upgrade_0009, downgrade_0009),
      (upgrade_0010, downgrade_0010), (upgrade_0011, downgrade_0011), (upgrade_0012, downgrade_0012),
      (upgrade_0013, downgrade_0013), (upgrade_0014, downgrade_0014), (upgrade_0015, downgrade_0015),
      (upgrade_0016, downgrade_0016)]"

text \<open>The statements from a revision, counted from 0 for none, to a later or an earlier one.\<close>

definition upgrade_steps :: "nat \<Rightarrow> nat \<Rightarrow> ddl list" where
  "upgrade_steps from to = concat (map fst (take (to - from) (drop from revisions)))"

definition downgrade_steps :: "nat \<Rightarrow> nat \<Rightarrow> ddl list" where
  "downgrade_steps from to = concat (rev (map snd (take (from - to) (drop to revisions))))"

record migrated =
  mg_revision :: nat
  mg_catalog :: catalog

text \<open>
  \<open>env.py\<close> refuses to run without the variable, and runs the steps to the target in one transaction.
\<close>

datatype migration_error = No_url | Failed ddl_error

definition run_migrations_online ::
  "(string \<Rightarrow> string option) \<Rightarrow> bool \<Rightarrow> nat \<Rightarrow> migrated \<Rightarrow> migrated \<times> (migration_error + unit)" where
  "run_migrations_online env su target st =
     (if env ''HORIZONS_DB_URL'' = None then (st, Inl No_url)
      else (case exec_all su (mg_catalog st)
                   (if target \<ge> mg_revision st then upgrade_steps (mg_revision st) target
                    else downgrade_steps (mg_revision st) target) of
              Inl e \<Rightarrow> (st, Inl (Failed e))
            | Inr c \<Rightarrow> (\<lparr>mg_revision = target, mg_catalog = c\<rparr>, Inr ())))"

end
