(* ===== verification/Schema_Rules.thy ===== *)
theory Schema_Rules
  imports Migrations Owner_Table Change_Events
begin

text \<open>
  How PostgreSQL applies a catalogue to the statements of a session: the privileges on the table, then the
  policies of the session's role when row-level security applies to it. The reads and writes of the tables
  with policies are given by the catalogue alone; the component models state them directly.
\<close>

section \<open>Which rules apply\<close>

text \<open>The privileges a role has been granted on a table by name.\<close>

definition granted_on :: "catalog \<Rightarrow> db_role \<Rightarrow> table_name \<Rightarrow> privilege list" where
  "granted_on c r t = map (\<lambda>(_, p, _). p) (filter (\<lambda>(g, _, obj). g = To_role r \<and> obj = On_table t) (ct_acl c))"

definition may_update :: "catalog \<Rightarrow> db_role \<Rightarrow> table_name \<Rightarrow> bool" where
  "may_update c r t \<longleftrightarrow> owner_of c (On_table t) = Some (To_role r)
     \<or> (\<exists>p \<in> set (granted_on c r t). p = P_update \<or> (case p of P_update_column col \<Rightarrow> True | _ \<Rightarrow> False))"

text \<open>
  Row-level security is skipped on a table where it is off, for a role with \<open>BYPASSRLS\<close>, and for the owner
  when it is not forced.
\<close>

definition rows_checked :: "catalog \<Rightarrow> db_role \<Rightarrow> table_name \<Rightarrow> table_def \<Rightarrow> bool" where
  "rows_checked c r t d \<longleftrightarrow>
     td_enabled d \<and> r \<notin> set (ct_bypass c) \<and> (owner_of c (On_table t) = Some (To_role r) \<longrightarrow> td_forced d)"

definition reads_all :: "catalog \<Rightarrow> db_role \<Rightarrow> table_name \<Rightarrow> bool" where
  "reads_all c r t \<longleftrightarrow> has_privilege c r P_select (On_table t)
     \<and> (case map_of (ct_tables c) t of None \<Rightarrow> False | Some d \<Rightarrow> \<not> rows_checked c r t d)"

definition policies_for :: "db_role \<Rightarrow> command \<Rightarrow> table_def \<Rightarrow> policy list" where
  "policies_for r cmd d = filter (\<lambda>p. pol_role p = r \<and> (pol_command p = cmd \<or> pol_command p = For_all)) (td_policies d)"

text \<open>A policy without \<open>WITH CHECK\<close> checks new rows with its \<open>USING\<close>.\<close>

definition usings :: "policy list \<Rightarrow> predicate list" where
  "usings ps = List.map_filter pol_using ps"

definition checks :: "policy list \<Rightarrow> predicate list" where
  "checks ps = List.map_filter (\<lambda>p. if pol_check p = None then pol_using p else pol_check p) ps"

text \<open>The policies of a role are alternatives.\<close>

fun anyE :: "('a \<Rightarrow> bool result) \<Rightarrow> 'a list \<Rightarrow> bool result" where
  "anyE f [] = Inr False"
| "anyE f (x # xs) = bindE (f x) (\<lambda>b. if b then Inr True else anyE f xs)"

section \<open>Statements\<close>

text \<open>A table that is not in the catalogue has no privileges either.\<close>

definition guarded ::
  "catalog \<Rightarrow> db_session \<Rightarrow> privilege \<Rightarrow> table_name \<Rightarrow> (table_def \<Rightarrow> 'a result) \<Rightarrow> 'a result" where
  "guarded c ss p t k =
     (case map_of (ct_tables c) t of
        None \<Rightarrow> Inl (DbError InsufficientPrivilege)
      | Some d \<Rightarrow> if has_privilege c (ss_role ss) p (On_table t) then k d else Inl (DbError InsufficientPrivilege))"

definition table_select ::
  "catalog \<Rightarrow> db_session \<Rightarrow> table_name \<Rightarrow> (predicate \<Rightarrow> 'row \<Rightarrow> bool result) \<Rightarrow> 'row list \<Rightarrow> 'row list result" where
  "table_select c ss t eval rows =
     guarded c ss P_select t (\<lambda>d.
       if rows_checked c (ss_role ss) t d
       then filterE (\<lambda>r. anyE (\<lambda>q. eval q r) (usings (policies_for (ss_role ss) For_select d))) rows
       else Inr rows)"

definition checked_row ::
  "catalog \<Rightarrow> db_session \<Rightarrow> table_name \<Rightarrow> table_def \<Rightarrow> command \<Rightarrow> (predicate \<Rightarrow> 'row \<Rightarrow> bool result) \<Rightarrow> 'row \<Rightarrow> 'row result" where
  "checked_row c ss t d cmd eval r =
     (if rows_checked c (ss_role ss) t d
      then bindE (anyE (\<lambda>q. eval q r) (checks (policies_for (ss_role ss) cmd d))) (\<lambda>ok.
             if ok then Inr r else Inl (DbError InsufficientPrivilege))
      else Inr r)"

definition touched_row ::
  "catalog \<Rightarrow> db_session \<Rightarrow> table_name \<Rightarrow> table_def \<Rightarrow> command \<Rightarrow> (predicate \<Rightarrow> 'row \<Rightarrow> bool result) \<Rightarrow> 'row \<Rightarrow> bool result" where
  "touched_row c ss t d cmd eval r =
     (if rows_checked c (ss_role ss) t d then anyE (\<lambda>q. eval q r) (usings (policies_for (ss_role ss) cmd d)) else Inr True)"

definition table_insert ::
  "catalog \<Rightarrow> db_session \<Rightarrow> table_name \<Rightarrow> (predicate \<Rightarrow> 'row \<Rightarrow> bool result) \<Rightarrow> 'row \<Rightarrow> 'row list \<Rightarrow> 'row list result" where
  "table_insert c ss t eval r rows =
     guarded c ss P_insert t (\<lambda>d. bindE (checked_row c ss t d For_insert eval r) (\<lambda>r. Inr (rows @ [r])))"

definition table_update ::
  "catalog \<Rightarrow> db_session \<Rightarrow> table_name \<Rightarrow> (predicate \<Rightarrow> 'row \<Rightarrow> bool result) \<Rightarrow> ('row \<Rightarrow> bool) \<Rightarrow> ('row \<Rightarrow> 'row)
    \<Rightarrow> 'row list \<Rightarrow> 'row list result" where
  "table_update c ss t eval sel f rows =
     guarded c ss P_update t (\<lambda>d. mapE (\<lambda>r.
       bindE (touched_row c ss t d For_update eval r) (\<lambda>mine.
         if mine \<and> sel r then checked_row c ss t d For_update eval (f r) else Inr r)) rows)"

text \<open>An update that sets the listed columns only, for which a privilege on each of them is enough.\<close>

definition table_set ::
  "catalog \<Rightarrow> db_session \<Rightarrow> column_name list \<Rightarrow> table_name \<Rightarrow> (predicate \<Rightarrow> 'row \<Rightarrow> bool result) \<Rightarrow> ('row \<Rightarrow> bool)
    \<Rightarrow> ('row \<Rightarrow> 'row) \<Rightarrow> 'row list \<Rightarrow> 'row list result" where
  "table_set c ss cols t eval sel f rows =
     (if has_privilege c (ss_role ss) P_update (On_table t) then table_update c ss t eval sel f rows
      else case map_of (ct_tables c) t of
        None \<Rightarrow> Inl (DbError InsufficientPrivilege)
      | Some d \<Rightarrow>
          if \<forall>col \<in> set cols. has_privilege c (ss_role ss) (P_update_column col) (On_table t)
          then mapE (\<lambda>r. bindE (touched_row c ss t d For_update eval r) (\<lambda>mine.
                 if mine \<and> sel r then checked_row c ss t d For_update eval (f r) else Inr r)) rows
          else Inl (DbError InsufficientPrivilege))"

definition table_delete ::
  "catalog \<Rightarrow> db_session \<Rightarrow> table_name \<Rightarrow> (predicate \<Rightarrow> 'row \<Rightarrow> bool result) \<Rightarrow> ('row \<Rightarrow> bool) \<Rightarrow> 'row list \<Rightarrow> 'row list result" where
  "table_delete c ss t eval sel rows =
     guarded c ss P_delete t (\<lambda>d. filterE (\<lambda>r.
       bindE (touched_row c ss t d For_delete eval r) (\<lambda>mine. Inr (\<not> (mine \<and> sel r)))) rows)"

section \<open>The predicates on the rows of the tables\<close>

text \<open>
  What a predicate says of a row; a predicate over columns the table lacks cannot be attached to it. The
  subqueries of a policy read with the rights of the session.
\<close>

definition document_rule :: "db_session \<Rightarrow> api_db \<Rightarrow> predicate \<Rightarrow> document_row \<Rightarrow> bool result" where
  "document_rule ss db q d =
     (case q of
        Everyone \<Rightarrow> Inr True
      | Own_pair \<Rightarrow> bindE (current_scope ss db) (\<lambda>cs. Inr (doc_pair d \<in> set cs))
      | _ \<Rightarrow> Inr False)"

definition read_documents :: "catalog \<Rightarrow> db_session \<Rightarrow> api_db \<Rightarrow> document_row list result" where
  "read_documents c ss db = table_select c ss T_documents (document_rule ss db) (documents (library db))"

definition version_rule :: "catalog \<Rightarrow> db_session \<Rightarrow> api_db \<Rightarrow> predicate \<Rightarrow> version_row \<Rightarrow> bool result" where
  "version_rule c ss db q v =
     (case q of
        Everyone \<Rightarrow> Inr True
      | Via_document \<Rightarrow> bindE (read_documents c ss db) (\<lambda>ds. bindE (current_scope ss db) (\<lambda>cs.
          Inr (\<exists>d \<in> set ds. doc_pair d \<in> set cs \<and> d_id d = v_document v)))
      | _ \<Rightarrow> Inr False)"

definition read_versions :: "catalog \<Rightarrow> db_session \<Rightarrow> api_db \<Rightarrow> version_row list result" where
  "read_versions c ss db = table_select c ss T_document_versions (version_rule c ss db) (versions (library db))"

definition clause_rule :: "catalog \<Rightarrow> db_session \<Rightarrow> api_db \<Rightarrow> predicate \<Rightarrow> clause_row \<Rightarrow> bool result" where
  "clause_rule c ss db q cl =
     (case q of
        Everyone \<Rightarrow> Inr True
      | Via_version \<Rightarrow> bindE (read_versions c ss db) (\<lambda>vs. bindE (read_documents c ss db) (\<lambda>ds. bindE (current_scope ss db) (\<lambda>cs.
          Inr (\<exists>v \<in> set vs. \<exists>d \<in> set ds. d_id d = v_document v \<and> doc_pair d \<in> set cs \<and> v_id v = c_version cl))))
      | _ \<Rightarrow> Inr False)"

definition read_clauses :: "catalog \<Rightarrow> db_session \<Rightarrow> api_db \<Rightarrow> clause_row list result" where
  "read_clauses c ss db = table_select c ss T_clauses (clause_rule c ss db) (clauses (library db))"

definition event_rule :: "db_session \<Rightarrow> api_db \<Rightarrow> predicate \<Rightarrow> stored_event \<Rightarrow> bool result" where
  "event_rule ss db q e =
     (case q of
        Everyone \<Rightarrow> Inr True
      | Own_pair \<Rightarrow> bindE (current_scope ss db) (\<lambda>cs. Inr ((e_jurisdiction e, e_sector e) \<in> set cs))
      | _ \<Rightarrow> Inr False)"

definition read_events :: "catalog \<Rightarrow> db_session \<Rightarrow> api_db \<Rightarrow> stored_event list result" where
  "read_events c ss db = table_select c ss T_change_events (event_rule ss db) (change_events db)"

definition owner_rule :: "('row \<Rightarrow> uuid) \<Rightarrow> db_session \<Rightarrow> predicate \<Rightarrow> 'row \<Rightarrow> bool result" where
  "owner_rule owner ss q r =
     (case q of
        Everyone \<Rightarrow> Inr True
      | Owner_is_user \<Rightarrow> (case ss_user ss of None \<Rightarrow> Inl (DbError UndefinedSetting) | Some uid \<Rightarrow> Inr (owner r = uid))
      | _ \<Rightarrow> Inr False)"

end
