(* ===== verification/Migrations_Correct.thy ===== *)
theory Migrations_Correct
  imports Schema_Rules
begin

text \<open>
  The catalogue after the last revision: its grants, policies and triggers, evaluated once, and what follows
  for the statements of each role.
\<close>

section \<open>The last revision\<close>

definition upgraded :: "bool \<Rightarrow> nat \<Rightarrow> catalog" where
  "upgraded su n = (case exec_all su fresh_catalog (upgrade_steps 0 n) of Inr c \<Rightarrow> c | Inl e \<Rightarrow> fresh_catalog)"

definition table_names :: "table_name list" where
  "table_names = [T_users, T_subscriptions, T_subscription_scopes, T_documents, T_document_versions, T_clauses,
     T_watchlists, T_admin_access_log, T_document_poll_schedule, T_ingestion_incident, T_refresh_tokens, T_change_events]"

lemma set_table_names [simp]: "t \<in> set table_names"
  by (cases t) (simp_all add: table_names_def)

text \<open>The grants of each role on each table.\<close>

fun matrix :: "db_role \<Rightarrow> table_name \<Rightarrow> privilege list" where
  "matrix Api_app T_users = [P_select, P_insert, P_update]"
| "matrix Api_app T_subscriptions = [P_select, P_insert, P_update]"
| "matrix Api_app T_subscription_scopes = [P_select, P_insert]"
| "matrix Api_app T_documents = [P_select]"
| "matrix Api_app T_document_versions = [P_select]"
| "matrix Api_app T_clauses = [P_select]"
| "matrix Api_app T_watchlists = [P_select, P_insert, P_update, P_delete]"
| "matrix Api_app T_refresh_tokens = [P_select, P_insert, P_update]"
| "matrix Api_app T_change_events = [P_select]"
| "matrix Ingestion_worker T_documents = [P_select, P_insert]"
| "matrix Ingestion_worker T_document_versions = [P_select, P_insert, P_update_column C_valid_to]"
| "matrix Ingestion_worker T_clauses = [P_select, P_insert]"
| "matrix Ingestion_worker T_document_poll_schedule = [P_select, P_insert, P_update]"
| "matrix Ingestion_worker T_ingestion_incident = [P_select, P_insert]"
| "matrix Ingestion_worker T_change_events = [P_select, P_insert]"
| "matrix Admin_bypass T_users = [P_select]"
| "matrix Admin_bypass T_subscriptions = [P_select, P_insert]"
| "matrix Admin_bypass T_subscription_scopes = [P_select, P_insert, P_update]"
| "matrix Admin_bypass T_documents = [P_select]"
| "matrix Admin_bypass T_document_versions = [P_select]"
| "matrix Admin_bypass T_clauses = [P_select]"
| "matrix Admin_bypass T_watchlists = [P_select, P_update]"
| "matrix Admin_bypass T_admin_access_log = [P_select, P_insert]"
| "matrix Admin_bypass T_document_poll_schedule = [P_select]"
| "matrix Admin_bypass T_ingestion_incident = [P_select]"
| "matrix Admin_bypass T_refresh_tokens = [P_select]"
| "matrix Admin_bypass T_change_events = [P_select]"
| "matrix _ _ = []"

definition named_policy :: "policy_name \<Rightarrow> command \<Rightarrow> db_role \<Rightarrow> predicate option \<Rightarrow> predicate option \<Rightarrow> policy" where
  "named_policy n cmd r usng chk = \<lparr>pol_name = n, pol_command = cmd, pol_role = r, pol_using = usng, pol_check = chk\<rparr>"

fun policies_of :: "table_name \<Rightarrow> policy list" where
  "policies_of T_documents =
     [named_policy Pol_documents_in_scope For_select Api_app (Some Own_pair) None,
      named_policy Pol_documents_ingestion_all For_all Ingestion_worker (Some Everyone) (Some Everyone),
      named_policy Pol_documents_schema_owner_read For_select Schema_owner (Some Everyone) None]"
| "policies_of T_document_versions =
     [named_policy Pol_document_versions_in_scope For_select Api_app (Some Via_document) None,
      named_policy Pol_document_versions_ingestion_all For_all Ingestion_worker (Some Everyone) (Some Everyone)]"
| "policies_of T_clauses =
     [named_policy Pol_clauses_in_scope For_select Api_app (Some Via_version) None,
      named_policy Pol_clauses_ingestion_all For_all Ingestion_worker (Some Everyone) (Some Everyone)]"
| "policies_of T_watchlists =
     [named_policy Pol_watchlists_owner_select For_select Api_app (Some Owner_is_user) None,
      named_policy Pol_watchlists_owner_insert For_insert Api_app None (Some Owner_is_user),
      named_policy Pol_watchlists_owner_update For_update Api_app (Some Owner_is_user) (Some Owner_is_user),
      named_policy Pol_watchlists_owner_delete For_delete Api_app (Some Owner_is_user) None]"
| "policies_of T_refresh_tokens =
     [named_policy Pol_refresh_tokens_owner_select For_select Api_app (Some Owner_is_user) None,
      named_policy Pol_refresh_tokens_owner_insert For_insert Api_app None (Some Owner_is_user),
      named_policy Pol_refresh_tokens_owner_update For_update Api_app (Some Owner_is_user) (Some Owner_is_user)]"
| "policies_of T_change_events =
     [named_policy Pol_change_events_in_scope For_select Api_app (Some Own_pair) None,
      named_policy Pol_change_events_ingestion_all For_all Ingestion_worker (Some Everyone) (Some Everyone),
      named_policy Pol_change_events_schema_owner_read For_select Schema_owner (Some Everyone) None]"
| "policies_of _ = []"

text \<open>The update and delete triggers of each table, by what their functions let pass.\<close>

fun update_guard :: "table_name \<Rightarrow> fun_body list" where
  "update_guard T_subscriptions = [Ends_subscription]"
| "update_guard T_subscription_scopes = [Ends_scope]"
| "update_guard T_documents = [Rejects]"
| "update_guard T_document_versions = [Moves_valid_to]"
| "update_guard T_clauses = [Rejects]"
| "update_guard T_admin_access_log = [Rejects]"
| "update_guard T_change_events = [Rejects]"
| "update_guard _ = []"

fun delete_guard :: "table_name \<Rightarrow> fun_body list" where
  "delete_guard T_admin_access_log = [Rejects]"
| "delete_guard T_change_events = [Rejects]"
| "delete_guard _ = []"

definition bodies_on :: "catalog \<Rightarrow> table_name \<Rightarrow> trigger_event \<Rightarrow> fun_body list" where
  "bodies_on c t ev =
     (case map_of (ct_tables c) t of
        None \<Rightarrow> []
      | Some d \<Rightarrow> List.map_filter (\<lambda>tr. if ev \<in> set (tr_events tr)
          then map_option fd_body (map_of (ct_functions c) (tr_function tr)) else None) (td_triggers d))"

definition rls_tables :: "table_name list" where
  "rls_tables = [T_documents, T_document_versions, T_clauses, T_watchlists, T_admin_access_log, T_refresh_tokens, T_change_events]"

definition head_facts :: "catalog \<Rightarrow> bool" where
  "head_facts c \<longleftrightarrow>
     map fst (ct_tables c) = table_names
     \<and> (\<forall>r \<in> set [Login, Api_app, Ingestion_worker, Admin_bypass, Schema_owner]. \<forall>t \<in> set table_names. granted_on c r t = matrix r t)
     \<and> (\<forall>x \<in> set (ct_acl c). case x of (Public, _, On_table _) \<Rightarrow> False | _ \<Rightarrow> True)
     \<and> (\<forall>t \<in> set table_names. owner_of c (On_table t) = Some (To_role Schema_owner))
     \<and> ct_bypass c = [Admin_bypass]
     \<and> (\<forall>(t, d) \<in> set (ct_tables c). td_policies d = policies_of t
          \<and> td_enabled d = (t \<in> set rls_tables) \<and> td_forced d = (t \<in> set rls_tables))
     \<and> (\<forall>t \<in> set table_names. bodies_on c t Ev_update = update_guard t \<and> bodies_on c t Ev_delete = delete_guard t)"

lemma head_evaluated: "case exec_all False fresh_catalog (upgrade_steps 0 16) of Inr c \<Rightarrow> head_facts c | Inl _ \<Rightarrow> False"
  by code_simp


section \<open>Superusers\<close>

text \<open>What the login of a managed server may do, a superuser may do with the same result.\<close>

lemma may_alter_superuser [simp]: "may_alter True c own" "may_create True c s"
  by (simp_all add: may_alter_def may_create_def)

lemma on_object_superuser: "on_object False c obj k = Inr c' \<Longrightarrow> on_object True c obj k = Inr c'"
  by (auto simp: on_object_def split: option.splits if_splits)

lemma on_table_superuser: "on_table False c t k = Inr c' \<Longrightarrow> on_table True c t k = Inr c'"
  unfolding on_table_def by (rule on_object_superuser)

lemma update_on_superuser: "update_on False c t f = Inr c' \<Longrightarrow> update_on True c t f = Inr c'"
  unfolding update_on_def by (rule on_table_superuser)

lemma drop_if_exists_superuser: "drop_if_exists False c obj b k = Inr c' \<Longrightarrow> drop_if_exists True c obj b k = Inr c'"
  unfolding drop_if_exists_def by (simp add: on_object_superuser split: if_splits)

lemma owner_to_superuser: "owner_to False c obj r = Inr c' \<Longrightarrow> owner_to True c obj r = Inr c'"
  unfolding owner_to_def by (auto split: option.splits if_splits)

lemma exec_ddl_superuser: "exec_ddl False c s = Inr c' \<Longrightarrow> exec_ddl True c s = Inr c'"
  by (cases s)
    (simp_all add: on_object_superuser on_table_superuser update_on_superuser drop_if_exists_superuser owner_to_superuser
      split: if_split_asm option.split_asm)

lemma exec_all_superuser: "exec_all False c ss = Inr c' \<Longrightarrow> exec_all True c ss = Inr c'"
  unfolding exec_all_def
proof (induction ss arbitrary: c)
  case (Cons s ss)
  then obtain d where "exec_ddl False c s = Inr d" "foldE (exec_ddl False) d ss = Inr c'" by (auto simp: bindE_eq_Inr)
  then show ?case using Cons.IH exec_ddl_superuser by simp
qed simp

lemma exec_all_any: "exec_all False c ss = Inr c' \<Longrightarrow> exec_all su c ss = Inr c'"
  by (cases su) (simp_all add: exec_all_superuser)

section \<open>The facts of the last revision\<close>

definition schema_head :: catalog where
  "schema_head = upgraded False 16"

lemma upgrade_head: "exec_all su fresh_catalog (upgrade_steps 0 16) = Inr schema_head"
proof (rule exec_all_any)
  show "exec_all False fresh_catalog (upgrade_steps 0 16) = Inr schema_head"
    using head_evaluated by (auto simp: schema_head_def upgraded_def split: sum.splits)
qed

lemma head_facts: "head_facts schema_head"
  using head_evaluated upgrade_head [of False] by simp

lemma granted_on_iff: "p \<in> set (granted_on c r t) \<longleftrightarrow> (To_role r, p, On_table t) \<in> set (ct_acl c)"
  by (force simp: granted_on_def)

lemma head_granted: "granted_on schema_head r t = matrix r t"
  using head_facts by (cases r) (simp_all add: head_facts_def)

lemma head_owner: "owner_of schema_head (On_table t) = Some (To_role Schema_owner)"
  using head_facts by (simp add: head_facts_def)

lemma head_privilege: "has_privilege schema_head r p (On_table t) \<longleftrightarrow> r = Schema_owner \<or> p \<in> set (matrix r t)"
proof -
  have "(Public, p, On_table t) \<notin> set (ct_acl schema_head)" using head_facts by (fastforce simp: head_facts_def)
  then show ?thesis
    by (auto simp: has_privilege_def head_owner granted_on_iff [symmetric] head_granted)
qed

lemma head_table:
  obtains d where "map_of (ct_tables schema_head) t = Some d" "td_policies d = policies_of t"
    "td_enabled d = (t \<in> set rls_tables)" "td_forced d = (t \<in> set rls_tables)"
proof -
  have "t \<in> set (map fst (ct_tables schema_head))" using head_facts by (simp add: head_facts_def)
  then obtain d where d: "map_of (ct_tables schema_head) t = Some d" using map_of_eq_None_iff by fastforce
  then have "(t, d) \<in> set (ct_tables schema_head)" by (rule map_of_SomeD)
  then show thesis using that [OF d] head_facts by (auto simp: head_facts_def)
qed

lemma head_checked:
  "map_of (ct_tables schema_head) t = Some d \<Longrightarrow> rows_checked schema_head r t d \<longleftrightarrow> t \<in> set rls_tables \<and> r \<noteq> Admin_bypass"
  using head_table [of t] head_facts by (force simp: rows_checked_def head_facts_def)

lemma head_guarded:
  "guarded schema_head ss p t k =
     (if ss_role ss = Schema_owner \<or> p \<in> set (matrix (ss_role ss) t)
      then k (the (map_of (ct_tables schema_head) t)) else Inl (DbError InsufficientPrivilege))"
  by (rule head_table [of t]) (auto simp: guarded_def head_privilege)

lemma head_policies: "policies_for r cmd (the (map_of (ct_tables schema_head) t))
    = filter (\<lambda>p. pol_role p = r \<and> (pol_command p = cmd \<or> pol_command p = For_all)) (policies_of t)"
  by (rule head_table [of t]) (simp add: policies_for_def)

lemma head_rows_checked:
  "rows_checked schema_head r t (the (map_of (ct_tables schema_head) t)) \<longleftrightarrow> t \<in> set rls_tables \<and> r \<noteq> Admin_bypass"
  by (rule head_table [of t]) (simp add: head_checked)

section \<open>Reads under the catalogue\<close>

lemmas head_rules = table_select_def head_guarded head_rows_checked head_policies rls_tables_def usings_def checks_def
  List.map_filter_def named_policy_def

lemma filterE_True: "filterE (\<lambda>_. Inr True) xs = Inr xs" and filterE_False: "filterE (\<lambda>_. Inr False) xs = Inr []"
  by (induction xs) simp_all

lemma anyE_one [simp]: "anyE f [x] = f x"
  by (cases "f x") auto

declare anyE.simps(2) [simp del]

lemma read_documents_head: "read_documents schema_head ss db = select_documents ss db"
  by (cases "ss_role ss")
    (simp_all add: read_documents_def head_rules select_documents_def rls_read_def document_rule_def documents_in_scope_def [abs_def]
      filterE_True filterE_False)

lemma read_versions_head: "read_versions schema_head ss db = select_versions ss db"
  by (cases "ss_role ss")
    (simp_all add: read_versions_def head_rules select_versions_def rls_read_def version_rule_def document_versions_in_scope_def [abs_def]
      filterE_True filterE_False read_documents_head)

lemma read_clauses_head: "read_clauses schema_head ss db = select_clauses ss db"
  by (cases "ss_role ss")
    (simp_all add: read_clauses_def head_rules select_clauses_def rls_read_def clause_rule_def clauses_in_scope_def [abs_def]
      filterE_True filterE_False read_documents_head read_versions_head)

lemma read_events_head: "read_events schema_head ss db = select_events ss db"
  by (cases "ss_role ss")
    (simp_all add: read_events_def head_rules select_events_def rls_read_def event_rule_def event_in_scope_def [abs_def]
      filterE_True filterE_False)

section \<open>Tables with an owner\<close>

lemma owner_rule_policy: "owner_rule owner ss Owner_is_user r = owner_policy owner ss r"
  by (simp add: owner_rule_def owner_policy_def)

lemma owner_select_head:
  assumes "t = T_watchlists \<or> t = T_refresh_tokens"
  shows "table_select schema_head ss t (owner_rule owner ss) rows = owner_select owner ss rows"
  using assms
  by (cases "ss_role ss")
    (auto simp: head_rules owner_select_def rls_read_def owner_rule_policy [abs_def] filterE_False)

lemma owner_insert_head:
  assumes "t = T_watchlists \<or> t = T_refresh_tokens"
  shows "table_insert schema_head ss t (owner_rule owner ss) r rows = owner_insert owner ss r rows"
  using assms
  by (cases "ss_role ss")
    (auto simp: head_rules table_insert_def checked_row_def owner_insert_def owner_rule_policy bindE_assoc
      intro!: arg_cong [where f = "bindE _"])

end
