(* ===== verification/Downgrades.thy ===== *)
theory Downgrades
  imports Migrations_Correct
begin

text \<open>
  What the downgrades restore. A revision is undone when its downgrade leads back to the catalogue it
  started from; the revisions are evaluated one after the other, and composed.
\<close>

section \<open>Runs of statements\<close>

lemma exec_all_append: "exec_all su c (xs @ ys) = bindE (exec_all su c xs) (\<lambda>c'. exec_all su c' ys)"
  by (simp add: exec_all_def foldE_append)

lemma exec_all_Nil [simp]: "exec_all su c [] = Inr c"
  by (simp add: exec_all_def)

fun undone :: "(ddl list \<times> ddl list) list \<Rightarrow> catalog \<Rightarrow> bool" where
  "undone [] c = True"
| "undone ((up, down) # rs) c =
     (case exec_all False c up of
        Inl _ \<Rightarrow> False
      | Inr c' \<Rightarrow> exec_all False c' down = Inr c \<and> undone rs c')"

definition ups :: "(ddl list \<times> ddl list) list \<Rightarrow> ddl list" where
  "ups rs = concat (map fst rs)"

definition downs :: "(ddl list \<times> ddl list) list \<Rightarrow> ddl list" where
  "downs rs = concat (rev (map snd rs))"

lemma undone_up: "undone rs c \<Longrightarrow> \<exists>c'. exec_all False c (ups rs) = Inr c' \<and> exec_all False c' (downs rs) = Inr c"
proof (induction rs c rule: undone.induct)
  case (2 up down rs c)
  then obtain c1 where c1: "exec_all False c up = Inr c1" "exec_all False c1 down = Inr c" "undone rs c1"
    by (auto split: sum.splits)
  then show ?case using "2.IH" [OF c1(1) c1(3)] by (auto simp: ups_def downs_def exec_all_append)
qed (simp add: ups_def downs_def)

lemma undone_append:
  "undone (xs @ ys) c \<longleftrightarrow> undone xs c \<and> (\<forall>c'. exec_all False c (ups xs) = Inr c' \<longrightarrow> undone ys c')"
  by (induction xs c rule: undone.induct) (auto simp: ups_def exec_all_append split: sum.splits)

section \<open>From one revision to another\<close>

lemma upgrade_steps_ups: "upgrade_steps n m = ups (take (m - n) (drop n revisions))"
  by (simp add: upgrade_steps_def ups_def)

lemma downgrade_steps_downs: "downgrade_steps m n = downs (take (m - n) (drop n revisions))"
  by (simp add: downgrade_steps_def downs_def)

lemma segment_append:
  "k \<le> n \<Longrightarrow> n \<le> m \<Longrightarrow> take (m - k) (drop k xs) = take (n - k) (drop k xs) @ take (m - n) (drop n xs)"
  using take_add [of "n - k" "m - n" "drop k xs"] by simp

lemma upgrade_steps_append: "k \<le> n \<Longrightarrow> n \<le> m \<Longrightarrow> upgrade_steps k m = upgrade_steps k n @ upgrade_steps n m"
  by (simp add: upgrade_steps_ups segment_append [of k n m] ups_def)

lemma downgrade_steps_append: "k \<le> n \<Longrightarrow> n \<le> m \<Longrightarrow> downgrade_steps m k = downgrade_steps m n @ downgrade_steps n k"
  by (simp add: downgrade_steps_downs segment_append [of k n m] downs_def)

lemma upgraded_step:
  assumes "n \<le> 16"
  shows "exec_all su fresh_catalog (upgrade_steps 0 n) = Inr (upgraded su n)" and "upgraded su n = upgraded False n"
proof -
  obtain c where c: "exec_all False fresh_catalog (upgrade_steps 0 n) = Inr c"
    using upgrade_head [of False] assms by (auto simp: upgrade_steps_append [of 0 n 16] exec_all_append bindE_eq_Inr)
  then show "exec_all su fresh_catalog (upgrade_steps 0 n) = Inr (upgraded su n)" "upgraded su n = upgraded False n"
    using exec_all_any [OF c, of su] exec_all_any [OF c, of False] by (simp_all add: upgraded_def)
qed

lemma upgraded_from: "n \<le> m \<Longrightarrow> m \<le> 16 \<Longrightarrow> exec_all False (upgraded False n) (upgrade_steps n m) = Inr (upgraded False m)"
  using upgraded_step(1) [of n False] upgraded_step(1) [of m False]
  by (simp add: upgrade_steps_append [of 0 n m] exec_all_append)

text \<open>A segment of revisions that are undone leads back.\<close>

lemma downgrade_segment:
  assumes "undone (take (j - k) (drop k revisions)) (upgraded False k)" "k \<le> n" "n \<le> m" "m \<le> j" "j \<le> 16"
  shows "exec_all False (upgraded False m) (downgrade_steps m n) = Inr (upgraded False n)"
proof -
  have "take (j - k) (drop k revisions) = take (n - k) (drop k revisions) @ take (m - n) (drop n revisions) @ take (j - m) (drop m revisions)"
    using assms by (simp add: segment_append [of k n j] segment_append [of n m j])
  then have "undone (take (m - n) (drop n revisions)) (upgraded False n)"
    using assms upgraded_from [of k n] by (simp add: undone_append upgrade_steps_ups)
  then obtain c where "exec_all False (upgraded False n) (upgrade_steps n m) = Inr c" "exec_all False c (downgrade_steps m n) = Inr (upgraded False n)"
    using undone_up upgrade_steps_ups downgrade_steps_downs by metis
  then show ?thesis using upgraded_from [of n m] assms by simp
qed

section \<open>The evaluations\<close>

lemma early_undone: "case exec_all False fresh_catalog (upgrade_steps 0 1) of
    Inr c \<Rightarrow> undone (take 7 (drop 1 revisions)) c | Inl _ \<Rightarrow> False"
  by code_simp

lemma late_undone: "case exec_all False fresh_catalog (upgrade_steps 0 9) of
    Inr c \<Rightarrow> undone (take 7 (drop 9 revisions)) c | Inl _ \<Rightarrow> False"
  by code_simp

text \<open>
  The downgrade of revision 0009 leaves the login in \<open>admin_bypass\<close> and, while \<open>app_private\<close> exists, that role
  with \<open>CREATE\<close> on it.
\<close>

definition leftover :: "nat \<Rightarrow> catalog \<Rightarrow> catalog" where
  "leftover n c = c\<lparr>ct_members := ct_members c @ [Admin_bypass],
     ct_acl := ct_acl c @ (if 4 \<le> n then [(To_role Admin_bypass, P_create, On_schema App_private)] else [])\<rparr>"

fun left_over :: "nat \<Rightarrow> (ddl list \<times> ddl list) list \<Rightarrow> catalog \<Rightarrow> bool" where
  "left_over n [] c = True"
| "left_over n ((up, down) # rs) c =
     (case exec_all False c up of
        Inl _ \<Rightarrow> False
      | Inr c' \<Rightarrow> exec_all False (leftover (Suc n) c') down = Inr (leftover n c) \<and> left_over (Suc n) rs c')"

lemma early_left_over: "case exec_all False fresh_catalog (upgrade_steps 0 1) of
    Inr c \<Rightarrow> left_over 1 (take 7 (drop 1 revisions)) c | Inl _ \<Rightarrow> False"
  by code_simp

lemma ninth: "case exec_all False fresh_catalog (upgrade_steps 0 8) of
    Inl _ \<Rightarrow> False
  | Inr c \<Rightarrow> (case exec_all False c upgrade_0009 of
      Inl _ \<Rightarrow> False
    | Inr c' \<Rightarrow> exec_all False c' downgrade_0009 = Inr (leftover 8 c))"
  by code_simp

lemma last_downgrade: "case exec_all False fresh_catalog (upgrade_steps 0 1) of
    Inl _ \<Rightarrow> False
  | Inr c \<Rightarrow> (\<forall>c' \<in> set [c, leftover 1 c]. \<forall>su \<in> set [False, True]. exec_all su c' downgrade_0001 = Inl Dependent_objects)"
  by code_simp


section \<open>Composition\<close>

lemma left_over_up:
  "left_over k rs c \<Longrightarrow> \<exists>c'. exec_all False c (ups rs) = Inr c' \<and> exec_all False (leftover (k + length rs) c') (downs rs) = Inr (leftover k c)"
proof (induction k rs c rule: left_over.induct)
  case (2 n up down rs c)
  then obtain c1 where c1: "exec_all False c up = Inr c1" "exec_all False (leftover (Suc n) c1) down = Inr (leftover n c)"
    "left_over (Suc n) rs c1"
    by (auto split: sum.splits)
  then show ?case using "2.IH" [OF c1(1) c1(3)] by (auto simp: ups_def downs_def exec_all_append)
qed (simp add: ups_def downs_def)

lemma left_over_append:
  "left_over k (xs @ ys) c \<longleftrightarrow> left_over k xs c \<and> (\<forall>c'. exec_all False c (ups xs) = Inr c' \<longrightarrow> left_over (k + length xs) ys c')"
  by (induction k xs c rule: left_over.induct) (auto simp: ups_def exec_all_append split: sum.splits)

lemma length_revisions [simp]: "length revisions = 16"
  by (simp add: revisions_def)

lemma evaluated:
  "undone (take 7 (drop 1 revisions)) (upgraded False 1)" "undone (take 7 (drop 9 revisions)) (upgraded False 9)"
  "left_over 1 (take 7 (drop 1 revisions)) (upgraded False 1)"
  using early_undone late_undone early_left_over upgraded_step(1) [of 1 False] upgraded_step(1) [of 9 False] by simp_all

lemma ninth_downgrade: "exec_all False (upgraded False 9) (downgrade_steps 9 8) = Inr (leftover 8 (upgraded False 8))"
proof -
  have "upgrade_steps 8 9 = upgrade_0009" "downgrade_steps 9 8 = downgrade_0009"
    by (simp_all add: upgrade_steps_def downgrade_steps_def revisions_def)
  then show ?thesis using ninth upgraded_step(1) [of 8 False] upgraded_from [of 8 9] by simp
qed

lemma left_over_segment:
  assumes "1 \<le> n" "n \<le> 8"
  shows "exec_all False (leftover 8 (upgraded False 8)) (downgrade_steps 8 n) = Inr (leftover n (upgraded False n))"
proof -
  have "take 7 (drop 1 revisions) = take (n - 1) (drop 1 revisions) @ take (8 - n) (drop n revisions)"
    using assms segment_append [of 1 n 8 revisions] by simp
  then have "left_over n (take (8 - n) (drop n revisions)) (upgraded False n)"
    using assms evaluated(3) upgraded_from [of 1 n] by (simp add: left_over_append upgrade_steps_ups)
  then obtain c where "exec_all False (upgraded False n) (upgrade_steps n 8) = Inr c"
    "exec_all False (leftover 8 c) (downgrade_steps 8 n) = Inr (leftover n (upgraded False n))"
    using left_over_up [of n "take (8 - n) (drop n revisions)" "upgraded False n"] assms
    by (auto simp: upgrade_steps_ups downgrade_steps_downs)
  then show ?thesis using upgraded_from [of n 8] assms by simp
qed

text \<open>Where a downgrade from revision \<open>m\<close> to revision \<open>n\<close> leads.\<close>

definition downgraded :: "nat \<Rightarrow> nat \<Rightarrow> catalog" where
  "downgraded m n = (if n < 9 \<and> 9 \<le> m then leftover n (upgraded False n) else upgraded False n)"

lemma downgrade_any:
  assumes "1 \<le> n" "n \<le> m" "m \<le> 16"
  shows "exec_all su (upgraded su m) (downgrade_steps m n) = Inr (downgraded m n)"
proof -
  have "exec_all False (upgraded False m) (downgrade_steps m n) = Inr (downgraded m n)"
  proof (cases "n < 9 \<and> 9 \<le> m")
    case True
    have "exec_all False (upgraded False m) (downgrade_steps m 9) = Inr (upgraded False 9)"
      by (rule downgrade_segment [of 16 9]) (use assms True evaluated(2) in simp_all)
    then show ?thesis
      using True assms ninth_downgrade left_over_segment [of n] downgrade_steps_append [of n 8 9] downgrade_steps_append [of n 9 m]
      by (simp add: exec_all_append downgraded_def)
  next
    case False
    show ?thesis
    proof (cases "9 \<le> n")
      case True
      then show ?thesis using downgrade_segment [of 16 9 n m] assms evaluated(2) by (simp add: downgraded_def)
    next
      case small: False
      then show ?thesis using downgrade_segment [of 8 1 n m] assms evaluated(1) False by (simp add: downgraded_def)
    qed
  qed
  then show ?thesis using exec_all_any upgraded_step(2) [OF assms(3)] by metis
qed

lemma downgrade_base:
  assumes "1 \<le> m" "m \<le> 16"
  shows "exec_all su (upgraded su m) (downgrade_steps m 0) = Inl Dependent_objects"
proof -
  have "downgraded m 1 \<in> {upgraded False 1, leftover 1 (upgraded False 1)}" by (simp add: downgraded_def)
  then have "exec_all su (downgraded m 1) downgrade_0001 = Inl Dependent_objects"
    using last_downgrade upgraded_step(1) [of 1 False] by (cases su) auto
  moreover have "downgrade_steps 1 0 = downgrade_0001" by (simp add: downgrade_steps_def revisions_def)
  ultimately show ?thesis
    using downgrade_any [of 1 m su] assms by (simp add: downgrade_steps_append [of 0 1 m] exec_all_append)
qed

end
