(* ===== verification/Orm_Models.thy ===== *)
theory Orm_Models
  imports Migrations_Correct
begin

text \<open>
  The declarative models of \<open>db/models\<close>, whose metadata \<open>migrations/env.py\<close> gives to Alembic as the schema the
  code expects, and the difference to a catalogue, table by table.
\<close>

section \<open>The models\<close>

record orm_table =
  om_table :: table_name
  om_columns :: "column list"
  om_constraints :: "constraint list"
  om_indexes :: "(index_name \<times> column_name list) list"

definition orm_user :: orm_table where
  "orm_user = \<lparr>om_table = T_users,
     om_columns = [defaulted C_id Uuid Uuidv7, required C_email Text, required C_password_hash Text,
       required C_role (Enum E_user_role), defaulted C_created_at Timestamptz Now],
     om_constraints = [Primary_key [C_id], Unique [C_email]],
     om_indexes = []\<rparr>"

definition orm_subscription :: orm_table where
  "orm_subscription = \<lparr>om_table = T_subscriptions,
     om_columns = [defaulted C_id Uuid Uuidv7, required C_user_id Uuid, required C_valid_from Timestamptz,
       optional C_valid_to Timestamptz, defaulted C_created_at Timestamptz Now],
     om_constraints = [Check Window_ordered, Primary_key [C_id], Foreign_key C_user_id T_users C_id Restrict],
     om_indexes = [(I_subscriptions_user_id_valid_from, [C_user_id, C_valid_from])]\<rparr>"

definition orm_subscription_scope :: orm_table where
  "orm_subscription_scope = \<lparr>om_table = T_subscription_scopes,
     om_columns = [required C_subscription_id Uuid, required C_jurisdiction Text, required C_sector Text,
       optional C_valid_to Timestamptz],
     om_constraints = [Primary_key [C_subscription_id, C_jurisdiction, C_sector],
       Foreign_key C_subscription_id T_subscriptions C_id Cascade],
     om_indexes = []\<rparr>"

definition orm_document :: orm_table where
  "orm_document = \<lparr>om_table = T_documents,
     om_columns = [defaulted C_id Uuid Uuidv7, required C_jurisdiction Text, required C_sector Text,
       required C_lawstronaut_document_id Text, required C_title Text, defaulted C_created_at Timestamptz Now],
     om_constraints = [Primary_key [C_id], Unique [C_lawstronaut_document_id]],
     om_indexes = [(I_documents_jurisdiction_sector, [C_jurisdiction, C_sector])]\<rparr>"

definition orm_document_version :: orm_table where
  "orm_document_version = \<lparr>om_table = T_document_versions,
     om_columns = [defaulted C_id Uuid Uuidv7, required C_document_id Uuid, required C_version_label Text,
       optional C_publication_date Timestamptz, optional C_effective_date Timestamptz, required C_content_blob_container Text,
       required C_content_blob_key Text, required C_content_sha256 Bytea, required C_content_bytes Int4,
       defaulted C_created_at Timestamptz Now],
     om_constraints = [Unique [C_document_id, C_version_label], Check Bytes_nonneg, Check Digest_length, Primary_key [C_id],
       Foreign_key C_document_id T_documents C_id Restrict],
     om_indexes = [(I_document_versions_doc_effective, [C_document_id, C_effective_date])]\<rparr>"

definition orm_clause :: orm_table where
  "orm_clause = \<lparr>om_table = T_clauses,
     om_columns = [defaulted C_id Uuid Uuidv7, required C_document_version_id Uuid, required C_clause_uid Uuid,
       required C_clause_path Text, required C_text_content Text, optional C_heading_text Text, optional C_numbering_label Text,
       required C_ord Int4],
     om_constraints = [Unique [C_document_version_id, C_clause_path], Primary_key [C_id],
       Foreign_key C_document_version_id T_document_versions C_id Restrict],
     om_indexes = [(I_clauses_version_ord, [C_document_version_id, C_ord]), (I_clauses_clause_uid, [C_clause_uid])]\<rparr>"

definition orm_watchlist :: orm_table where
  "orm_watchlist = \<lparr>om_table = T_watchlists,
     om_columns = [defaulted C_id Uuid Uuidv7, required C_user_id Uuid, required C_document_id Uuid, required C_name Text,
       defaulted C_active Boolean True_default, defaulted C_created_at Timestamptz Now],
     om_constraints = [Unique [C_user_id, C_document_id], Primary_key [C_id], Foreign_key C_user_id T_users C_id Cascade,
       Foreign_key C_document_id T_documents C_id Cascade],
     om_indexes = [(I_watchlists_user_id, [C_user_id]), (I_watchlists_document_id, [C_document_id])]\<rparr>"

definition orm_refresh_token :: orm_table where
  "orm_refresh_token = \<lparr>om_table = T_refresh_tokens,
     om_columns = [required C_jti Uuid, required C_user_id Uuid, defaulted C_issued_at Timestamptz Now,
       required C_expires_at Timestamptz, optional C_revoked_at Timestamptz],
     om_constraints = [Primary_key [C_jti], Foreign_key C_user_id T_users C_id Cascade],
     om_indexes = [(I_refresh_tokens_user_id_issued_at, [C_user_id, C_issued_at])]\<rparr>"

definition orm_admin_access_log :: orm_table where
  "orm_admin_access_log = \<lparr>om_table = T_admin_access_log,
     om_columns = [defaulted C_id Uuid Uuidv7, required C_admin_id Uuid, optional C_target_user_id Uuid,
       required C_mode (Enum E_admin_access_mode), optional C_token_id Uuid, optional C_reason Text,
       defaulted C_granted_at Timestamptz Now],
     om_constraints = [Check Mode_fits_target, Primary_key [C_id], Foreign_key C_admin_id T_users C_id Restrict,
       Foreign_key C_target_user_id T_users C_id Restrict],
     om_indexes = [(I_admin_access_log_admin_id_granted_at, [C_admin_id, C_granted_at]),
       (I_admin_access_log_target_user_id_granted_at, [C_target_user_id, C_granted_at])]\<rparr>"

definition orm_change_event :: orm_table where
  "orm_change_event = \<lparr>om_table = T_change_events,
     om_columns = [defaulted C_id Int8 Nextval, required C_document_id Uuid, required C_document_version_id Uuid,
       required C_jurisdiction Text, required C_sector Text, required C_change_type Text, optional C_before_clause_uid Uuid,
       optional C_after_clause_uid Uuid, optional C_before_path Text, optional C_after_path Text, optional C_before_text Text,
       optional C_after_text Text, required C_alignment_confidence Float8, defaulted C_detected_at Timestamptz Now,
       optional C_effective_date Timestamptz],
     om_constraints = [Check Known_change_type, Check Confidence_in_range, Primary_key [C_id],
       Foreign_key C_document_id T_documents C_id Restrict, Foreign_key C_document_version_id T_document_versions C_id Restrict],
     om_indexes = [(I_change_events_scope, [C_jurisdiction, C_sector, C_detected_at, C_effective_date]),
       (I_change_events_document, [C_document_id, C_detected_at]), (I_change_events_version, [C_document_version_id])]\<rparr>"

text \<open>\<open>Base.metadata\<close> once \<open>db/models/__init__.py\<close> has been imported.\<close>

definition orm_metadata :: "orm_table list" where
  "orm_metadata = [orm_admin_access_log, orm_change_event, orm_clause, orm_document, orm_refresh_token, orm_subscription,
     orm_subscription_scope, orm_user, orm_document_version, orm_watchlist]"

section \<open>The difference to a catalogue\<close>

text \<open>
  What a model has and the table lacks, and what the table has and the model lacks; an index differs when it has
  the name and columns of the model's but is partial or descends.
\<close>

record drift =
  dr_new_columns :: "column list"
  dr_old_columns :: "column_name list"
  dr_new_constraints :: "constraint list"
  dr_old_constraints :: "constraint list"
  dr_new_indexes :: "index_name list"
  dr_old_indexes :: "index_name list"
  dr_changed_indexes :: "index_name list"

definition no_drift :: drift where
  "no_drift = \<lparr>dr_new_columns = [], dr_old_columns = [], dr_new_constraints = [], dr_old_constraints = [],
     dr_new_indexes = [], dr_old_indexes = [], dr_changed_indexes = []\<rparr>"

definition drift_of :: "catalog \<Rightarrow> orm_table \<Rightarrow> drift" where
  "drift_of c m =
     (let d = the (map_of (ct_tables c) (om_table m)); ks = map snd (td_constraints d);
          ixs = filter (\<lambda>ix. ix_table ix = om_table m) (ct_indexes c);
          keys = map (\<lambda>ix. (ix_name ix, map fst (ix_columns ix))) ixs
      in \<lparr>dr_new_columns = filter (\<lambda>x. x \<notin> set (td_columns d)) (om_columns m),
          dr_old_columns = map col_name (filter (\<lambda>x. x \<notin> set (om_columns m)) (td_columns d)),
          dr_new_constraints = filter (\<lambda>k. k \<notin> set ks) (om_constraints m),
          dr_old_constraints = filter (\<lambda>k. k \<notin> set (om_constraints m)) ks,
          dr_new_indexes = map fst (filter (\<lambda>k. k \<notin> set keys) (om_indexes m)),
          dr_old_indexes = map fst (filter (\<lambda>k. k \<notin> set (om_indexes m)) keys),
          dr_changed_indexes = map ix_name (filter (\<lambda>ix. (ix_name ix, map fst (ix_columns ix)) \<in> set (om_indexes m)
            \<and> (ix_where ix \<noteq> None \<or> True \<in> snd ` set (ix_columns ix))) ixs)\<rparr>)"

definition expected_drift :: "table_name \<Rightarrow> drift" where
  "expected_drift t =
     (case t of
        T_document_versions \<Rightarrow> no_drift\<lparr>dr_old_columns := [C_version_no, C_valid_from, C_valid_to],
          dr_old_constraints := [Unique [C_document_id, C_version_no]], dr_old_indexes := [I_document_versions_doc_valid_to]\<rparr>
      | T_admin_access_log \<Rightarrow> no_drift\<lparr>dr_changed_indexes :=
          [I_admin_access_log_admin_id_granted_at, I_admin_access_log_target_user_id_granted_at]\<rparr>
      | T_refresh_tokens \<Rightarrow> no_drift\<lparr>dr_changed_indexes := [I_refresh_tokens_user_id_issued_at]\<rparr>
      | _ \<Rightarrow> no_drift)"

lemma drift_evaluated: "case exec_all False fresh_catalog (upgrade_steps 0 16) of
    Inl _ \<Rightarrow> False | Inr c \<Rightarrow> (\<forall>m \<in> set orm_metadata. drift_of c m = expected_drift (om_table m))"
  by code_simp

end
