(* ===== verification/Schema_Properties.thy ===== *)
theory Schema_Properties
  imports Downgrades Orm_Models Admin_Reads
begin

text \<open>
  The properties of the schema that the migrations build: that its policies are the ones the component models
  apply, who may change which rows, what the downgrades restore, and how far the declarative models agree.
\<close>

section \<open>Statements of the owner tables\<close>

text \<open>Sessions run under the login and three roles; only functions run as \<open>schema_owner\<close>.\<close>

lemma mapE_Inr: "mapE (\<lambda>x. Inr (f x)) xs = Inr (map f xs)"
  by (induction xs) simp_all

lemma mapE_if_Inr: "mapE (\<lambda>x. if P x then Inr (f x) else Inr (g x)) xs = Inr (map (\<lambda>x. if P x then f x else g x) xs)"
  by (induction xs) simp_all

lemma owner_update_head:
  assumes "ss_role ss \<noteq> Schema_owner"
  shows "table_update schema_head ss T_refresh_tokens (owner_rule owner ss) sel f rows = owner_update owner ss sel f rows"
    and "table_update schema_head ss T_watchlists (owner_rule owner ss) sel f rows =
      (if ss_role ss = Admin_bypass then Inr (map (\<lambda>r. if sel r then f r else r) rows) else owner_update owner ss sel f rows)"
  using assms
  by (cases "ss_role ss"; simp add: head_rules table_update_def checked_row_def touched_row_def owner_update_def
      owner_update_row_def [abs_def] owner_rule_policy mapE_if_Inr cong: if_cong)+

lemma owner_delete_head:
  assumes "ss_role ss \<noteq> Schema_owner"
  shows "table_delete schema_head ss T_watchlists (owner_rule owner ss) sel rows = owner_delete owner ss sel rows"
  using assms
  by (cases "ss_role ss") (simp_all add: head_rules table_delete_def touched_row_def owner_delete_def owner_rule_policy)

lemma refresh_select_head:
  "table_select schema_head ss T_refresh_tokens (owner_rule rt_user ss) (refresh_tokens db) = select_refresh_tokens ss db"
  by (simp add: select_refresh_tokens_def owner_select_head)

section \<open>Statements of the ledger and the audit log\<close>

lemma plain_insert_head:
  assumes "ss_role ss \<noteq> Schema_owner" "t \<notin> set rls_tables \<or> ss_role ss = Admin_bypass"
  shows "table_insert schema_head ss t eval r rows =
    (if P_insert \<in> set (matrix (ss_role ss) t) then Inr (rows @ [r]) else Inl (DbError InsufficientPrivilege))"
  using assms by (auto simp: table_insert_def head_guarded checked_row_def head_rows_checked)

lemma plain_update_head:
  assumes "ss_role ss \<noteq> Schema_owner" "t \<notin> set rls_tables"
  shows "table_update schema_head ss t eval sel f rows =
    (if P_update \<in> set (matrix (ss_role ss) t) then Inr (map (\<lambda>r. if sel r then f r else r) rows)
     else Inl (DbError InsufficientPrivilege))"
  using assms
  by (auto simp: table_update_def head_guarded checked_row_def touched_row_def head_rows_checked mapE_if_Inr cong: if_cong)

lemma plain_select_head:
  assumes "ss_role ss \<noteq> Schema_owner" "t \<notin> set rls_tables \<or> ss_role ss = Admin_bypass"
  shows "table_select schema_head ss t eval rows =
    (if P_select \<in> set (matrix (ss_role ss) t) then Inr rows else Inl (DbError InsufficientPrivilege))"
  using assms by (auto simp: table_select_def head_guarded head_rows_checked)

lemma not_rls [simp]:
  "T_users \<notin> set rls_tables" "T_subscriptions \<notin> set rls_tables" "T_subscription_scopes \<notin> set rls_tables"
  "T_document_poll_schedule \<notin> set rls_tables" "T_ingestion_incident \<notin> set rls_tables"
  by (simp_all add: rls_tables_def)

lemma insert_denied_head:
  "ss_role ss \<noteq> Schema_owner \<Longrightarrow> P_insert \<notin> set (matrix (ss_role ss) t) \<Longrightarrow>
     table_insert schema_head ss t eval r rows = Inl (DbError InsufficientPrivilege)"
  by (simp add: table_insert_def head_guarded)

lemma select_denied_head:
  "ss_role ss \<noteq> Schema_owner \<Longrightarrow> P_select \<notin> set (matrix (ss_role ss) t) \<Longrightarrow>
     table_select schema_head ss t eval rows = Inl (DbError InsufficientPrivilege)"
  by (simp add: table_select_def head_guarded)

lemma ledger_insert_head:
  assumes "ss_role ss \<noteq> Schema_owner"
  shows "insert_subscription ss uid from_t db =
      bindE (table_insert schema_head ss T_subscriptions eval
               \<lparr>sub_id = t_next db, sub_user = uid, sub_from = from_t, sub_to = None, sub_created = ss_now ss\<rparr> (subscriptions db))
        (\<lambda>rows. if \<exists>x \<in> set (users db). us_id x = uid
           then Inr (db\<lparr>subscriptions := rows, t_next := Suc (t_next db)\<rparr>, t_next db) else Inl (DbError ForeignKeyViolation))"
    and "insert_scope ss sid db p =
      bindE (table_insert schema_head ss T_subscription_scopes eval'
               \<lparr>sc_subscription = sid, sc_jurisdiction = fst p, sc_sector = snd p, sc_to = None\<rparr> (scopes db))
        (\<lambda>rows. if \<exists>r \<in> set (scopes db). scope_key r = (sid, p) then Inl (DbError UniqueViolation)
           else if \<exists>s \<in> set (subscriptions db). sub_id s = sid then Inr (db\<lparr>scopes := rows\<rparr>)
           else Inl (DbError ForeignKeyViolation))"
    and "update_scopes ss sel f db =
      bindE (table_update schema_head ss T_subscription_scopes eval' sel f (scopes db)) (\<lambda>_.
      bindE (mapE (\<lambda>r. if sel r then reject_subscription_scope_update r (f r) else Inr r) (scopes db)) (\<lambda>rs.
        Inr (db\<lparr>scopes := rs\<rparr>)))"
  using assms
  by (cases "ss_role ss"; simp add: insert_subscription_def insert_scope_def update_scopes_def may_insert_ledger_def
      plain_insert_head plain_update_head)+

lemma audit_head:
  assumes "ss_role ss \<noteq> Schema_owner"
  shows "insert_access_log ss r db =
      bindE (table_insert schema_head ss T_admin_access_log eval r (access_log db)) (\<lambda>rows.
        if (al_mode r = Operator) \<noteq> (al_target r = None) then Inl (DbError CheckViolation)
        else if \<not> user_exists db (al_admin r) then Inl (DbError ForeignKeyViolation)
        else if (case al_target r of None \<Rightarrow> False | Some x \<Rightarrow> \<not> user_exists db x) then Inl (DbError ForeignKeyViolation)
        else Inr (db\<lparr>access_log := rows\<rparr>))"
    and "select_access_log ss db = table_select schema_head ss T_admin_access_log eval (access_log db)"
  using assms
  by (cases "ss_role ss"; simp add: insert_access_log_def select_access_log_def plain_insert_head plain_select_head
      insert_denied_head select_denied_head cong: if_cong)+

section \<open>Statements of the worker\<close>

definition worker_tables :: "table_name list" where
  "worker_tables = [T_documents, T_document_versions, T_clauses, T_document_poll_schedule, T_ingestion_incident, T_change_events]"

text \<open>What the claim loop and the polls send: reads, inserts, and updates of the schedule and of \<open>valid_to\<close>.\<close>

lemma worker_head:
  assumes "ss_role ss = Ingestion_worker" "t \<in> set worker_tables" "\<And>r. eval Everyone r = Inr True"
  shows "table_select schema_head ss t eval rows = Inr rows"
    and "table_insert schema_head ss t eval r rows = Inr (rows @ [r])"
  using assms
  by (cases t; simp add: worker_tables_def head_rules table_insert_def checked_row_def filterE_True)+

lemma worker_update_head:
  assumes "ss_role ss = Ingestion_worker" "\<And>r. eval Everyone r = Inr True"
  shows "table_update schema_head ss T_document_poll_schedule eval' sel' f' rows' = Inr (map (\<lambda>r. if sel' r then f' r else r) rows')"
    and "table_set schema_head ss [C_valid_to] T_document_versions eval sel f rows = Inr (map (\<lambda>r. if sel r then f r else r) rows)"
proof -
  show "table_update schema_head ss T_document_poll_schedule eval' sel' f' rows' = Inr (map (\<lambda>r. if sel' r then f' r else r) rows')"
    using assms by (simp add: plain_update_head)
  obtain d where d: "map_of (ct_tables schema_head) T_document_versions = Some d" by (rule head_table)
  then have "the (map_of (ct_tables schema_head) T_document_versions) = d" by simp
  then show "table_set schema_head ss [C_valid_to] T_document_versions eval sel f rows = Inr (map (\<lambda>r. if sel r then f r else r) rows)"
    using assms head_rows_checked [of Ingestion_worker T_document_versions] head_policies [of Ingestion_worker For_update T_document_versions]
    by (simp add: table_set_def head_privilege d touched_row_def checked_row_def rls_tables_def usings_def checks_def
        List.map_filter_def named_policy_def mapE_if_Inr cong: if_cong)
qed

lemma only_worker_head:
  assumes "ss_role ss \<noteq> Schema_owner" "ss_role ss \<noteq> Ingestion_worker" "t \<in> set worker_tables"
  shows "table_insert schema_head ss t eval r rows = Inl (DbError InsufficientPrivilege)"
    and "table_set schema_head ss [col] t eval sel f rows = Inl (DbError InsufficientPrivilege)"
    and "table_delete schema_head ss t eval sel rows = Inl (DbError InsufficientPrivilege)"
proof -
  obtain d where d: "map_of (ct_tables schema_head) t = Some d" by (rule head_table)
  have "P_insert \<notin> set (matrix (ss_role ss) t) \<and> P_update \<notin> set (matrix (ss_role ss) t)
      \<and> P_delete \<notin> set (matrix (ss_role ss) t) \<and> (\<forall>col. P_update_column col \<notin> set (matrix (ss_role ss) t))"
    using assms by (cases "ss_role ss") (auto simp: worker_tables_def)
  then show "table_insert schema_head ss t eval r rows = Inl (DbError InsufficientPrivilege)"
    and "table_set schema_head ss [col] t eval sel f rows = Inl (DbError InsufficientPrivilege)"
    and "table_delete schema_head ss t eval sel rows = Inl (DbError InsufficientPrivilege)"
    using assms(1) by (simp_all add: table_insert_def table_delete_def table_set_def head_guarded head_privilege d)
qed

lemma rules_everyone:
  "document_rule ss db Everyone r = Inr True" "version_rule c ss db Everyone v = Inr True"
  "clause_rule c ss db Everyone cl = Inr True" "event_rule ss db Everyone e = Inr True"
  by (simp_all add: document_rule_def version_rule_def clause_rule_def event_rule_def)

lemma worker_insert_head:
  assumes "ss_role ss = Ingestion_worker"
  shows "table_insert schema_head ss T_documents (document_rule ss db) d ds = Inr (ds @ [d])"
    and "table_insert schema_head ss T_document_versions (version_rule schema_head ss db) v vs = Inr (vs @ [v])"
    and "table_insert schema_head ss T_clauses (clause_rule schema_head ss db) cl cls = Inr (cls @ [cl])"
    and "table_insert schema_head ss T_change_events (event_rule ss db) ev evs = Inr (evs @ [ev])"
    and "table_insert schema_head ss T_document_poll_schedule any_p pr ps = Inr (ps @ [pr])"
    and "table_insert schema_head ss T_ingestion_incident any_i ir irs = Inr (irs @ [ir])"
    and "table_select schema_head ss T_document_poll_schedule any_p ps = Inr ps"
    and "table_set schema_head ss [C_valid_to] T_document_versions (version_rule schema_head ss db) sel f vs
      = Inr (map (\<lambda>r. if sel r then f r else r) vs)"
    and "table_update schema_head ss T_document_poll_schedule any_p sel' f' ps = Inr (map (\<lambda>r. if sel' r then f' r else r) ps)"
  by (simp_all add: assms worker_head worker_tables_def rules_everyone worker_update_head plain_insert_head plain_select_head
      plain_update_head)

section \<open>Reads of the tenancy tables, and the soft hide\<close>

lemma tenancy_select_head:
  assumes "ss_role ss \<noteq> Schema_owner" "t \<in> {T_users, T_subscriptions, T_subscription_scopes}"
  shows "table_select schema_head ss t eval rows
    = (if ss_role ss \<in> {Api_app, Admin_bypass} then Inr rows else Inl (DbError InsufficientPrivilege))"
  using assms by (cases "ss_role ss") (auto simp: plain_select_head)

lemma soft_hide_head:
  assumes "ss_role ss = Admin_bypass"
  shows "bindE (table_update schema_head ss T_watchlists (owner_rule w_user ss) (hides uid docs) (w_active_update (\<lambda>_. False)) (watchlists db))
      (\<lambda>ws. Inr (db\<lparr>watchlists := ws\<rparr>)) = bindE (soft_hide_out_of_scope ss uid docs db) (\<lambda>(db', n). Inr db')"
  using assms by (simp add: owner_update_head soft_hide_out_of_scope_def)

section \<open>The claims\<close>

text \<open>C27. The migrations run to the last revision from a fresh database, for a superuser and for the login of
  a managed server alike, and the privileges and policies they leave are those of the component models. For
  every role: what a session reads of the corpus, of the change events, of the watchlists and of the refresh
  tokens, and the rows it may insert into the two owner tables. For every role a session has (all but
  \<open>schema_owner\<close>): updates and deletions of the owner tables, where an administrator's update of watchlists is
  not filtered and is the soft hide; the inserts and updates of the ledger and of the audit log, which the models
  carry out exactly when the catalogue admits them, before constraints and triggers; the reads of the audit log
  and of the tenancy tables. The worker reads and inserts every row of its six tables, updates the schedule and
  \<open>valid_to\<close>, and no other session inserts into, updates or deletes from those tables.\<close>

theorem policies_enforced:
  "exec_all su fresh_catalog (upgrade_steps 0 16) = Inr schema_head
   \<and> read_documents schema_head ss db = select_documents ss db
   \<and> read_versions schema_head ss db = select_versions ss db
   \<and> read_clauses schema_head ss db = select_clauses ss db
   \<and> read_events schema_head ss db = select_events ss db
   \<and> table_select schema_head ss T_watchlists (owner_rule w_user ss) (watchlists db) = owner_select w_user ss (watchlists db)
   \<and> table_select schema_head ss T_refresh_tokens (owner_rule rt_user ss) (refresh_tokens db) = select_refresh_tokens ss db
   \<and> table_insert schema_head ss T_watchlists (owner_rule w_user ss) w (watchlists db) = owner_insert w_user ss w (watchlists db)
   \<and> table_insert schema_head ss T_refresh_tokens (owner_rule rt_user ss) r (refresh_tokens db)
       = owner_insert rt_user ss r (refresh_tokens db)
   \<and> (ss_role ss \<noteq> Schema_owner \<longrightarrow>
       table_update schema_head ss T_refresh_tokens (owner_rule rt_user ss) sel f (refresh_tokens db)
         = owner_update rt_user ss sel f (refresh_tokens db)
       \<and> table_delete schema_head ss T_watchlists (owner_rule w_user ss) sel' (watchlists db)
         = owner_delete w_user ss sel' (watchlists db)
       \<and> table_update schema_head ss T_watchlists (owner_rule w_user ss) sel' f' (watchlists db)
         = (if ss_role ss = Admin_bypass then Inr (map (\<lambda>w. if sel' w then f' w else w) (watchlists db))
            else owner_update w_user ss sel' f' (watchlists db))
       \<and> (ss_role ss = Admin_bypass \<longrightarrow>
            bindE (table_update schema_head ss T_watchlists (owner_rule w_user ss) (hides uid docs) (w_active_update (\<lambda>_. False)) (watchlists db))
              (\<lambda>ws. Inr (db\<lparr>watchlists := ws\<rparr>)) = bindE (soft_hide_out_of_scope ss uid docs db) (\<lambda>(db', n). Inr db'))
       \<and> insert_subscription ss uid from_t db =
           bindE (table_insert schema_head ss T_subscriptions any_s
                    \<lparr>sub_id = t_next db, sub_user = uid, sub_from = from_t, sub_to = None, sub_created = ss_now ss\<rparr> (subscriptions db))
             (\<lambda>rows. if \<exists>x \<in> set (users db). us_id x = uid
                then Inr (db\<lparr>subscriptions := rows, t_next := Suc (t_next db)\<rparr>, t_next db) else Inl (DbError ForeignKeyViolation))
       \<and> insert_scope ss sid db p =
           bindE (table_insert schema_head ss T_subscription_scopes any_c
                    \<lparr>sc_subscription = sid, sc_jurisdiction = fst p, sc_sector = snd p, sc_to = None\<rparr> (scopes db))
             (\<lambda>rows. if \<exists>r \<in> set (scopes db). scope_key r = (sid, p) then Inl (DbError UniqueViolation)
                else if \<exists>s \<in> set (subscriptions db). sub_id s = sid then Inr (db\<lparr>scopes := rows\<rparr>)
                else Inl (DbError ForeignKeyViolation))
       \<and> update_scopes ss sel_c f_c db =
           bindE (table_update schema_head ss T_subscription_scopes any_c sel_c f_c (scopes db)) (\<lambda>_.
           bindE (mapE (\<lambda>r. if sel_c r then reject_subscription_scope_update r (f_c r) else Inr r) (scopes db)) (\<lambda>rs.
             Inr (db\<lparr>scopes := rs\<rparr>)))
       \<and> insert_access_log ss al db =
           bindE (table_insert schema_head ss T_admin_access_log any_a al (access_log db)) (\<lambda>rows.
             if (al_mode al = Operator) \<noteq> (al_target al = None) then Inl (DbError CheckViolation)
             else if \<not> user_exists db (al_admin al) then Inl (DbError ForeignKeyViolation)
             else if (case al_target al of None \<Rightarrow> False | Some x \<Rightarrow> \<not> user_exists db x) then Inl (DbError ForeignKeyViolation)
             else Inr (db\<lparr>access_log := rows\<rparr>))
       \<and> table_select schema_head ss T_admin_access_log any_a (access_log db) = select_access_log ss db
       \<and> table_select schema_head ss T_users any_u (users db)
           = (if ss_role ss \<in> {Api_app, Admin_bypass} then Inr (users db) else Inl (DbError InsufficientPrivilege))
       \<and> table_select schema_head ss T_subscriptions any_s (subscriptions db)
           = (if ss_role ss \<in> {Api_app, Admin_bypass} then Inr (subscriptions db) else Inl (DbError InsufficientPrivilege))
       \<and> table_select schema_head ss T_subscription_scopes any_c (scopes db)
           = (if ss_role ss \<in> {Api_app, Admin_bypass} then Inr (scopes db) else Inl (DbError InsufficientPrivilege))
       \<and> (ss_role ss = Ingestion_worker \<longrightarrow>
            table_insert schema_head ss T_documents (document_rule ss db) d (documents (library db)) = Inr (documents (library db) @ [d])
            \<and> table_insert schema_head ss T_document_versions (version_rule schema_head ss db) v (versions (library db))
                = Inr (versions (library db) @ [v])
            \<and> table_insert schema_head ss T_clauses (clause_rule schema_head ss db) cl (clauses (library db))
                = Inr (clauses (library db) @ [cl])
            \<and> table_insert schema_head ss T_change_events (event_rule ss db) ev (change_events db) = Inr (change_events db @ [ev])
            \<and> table_insert schema_head ss T_document_poll_schedule any_p pr ps = Inr (ps @ [pr])
            \<and> table_insert schema_head ss T_ingestion_incident any_i ir is' = Inr (is' @ [ir])
            \<and> table_select schema_head ss T_document_poll_schedule any_p ps = Inr ps
            \<and> table_update schema_head ss T_document_poll_schedule any_p sel_p f_p ps = Inr (map (\<lambda>r. if sel_p r then f_p r else r) ps)
            \<and> table_set schema_head ss [C_valid_to] T_document_versions (version_rule schema_head ss db) sel_v f_v (versions (library db))
                = Inr (map (\<lambda>r. if sel_v r then f_v r else r) (versions (library db))))
       \<and> (ss_role ss \<noteq> Ingestion_worker \<and> t \<in> set worker_tables \<longrightarrow>
            table_insert schema_head ss t any_t x xs = Inl (DbError InsufficientPrivilege)
            \<and> table_set schema_head ss [col] t any_t sel_t f_t xs = Inl (DbError InsufficientPrivilege)
            \<and> table_delete schema_head ss t any_t sel_t xs = Inl (DbError InsufficientPrivilege)))"
  by (intro conjI impI; (elim conjE)?)
    (rule upgrade_head read_documents_head read_versions_head read_clauses_head read_events_head
       owner_select_head [OF disjI1 [OF refl]] refresh_select_head
       owner_insert_head owner_update_head owner_delete_head soft_hide_head ledger_insert_head audit_head(1)
       audit_head(2) [symmetric] tenancy_select_head worker_insert_head only_worker_head
     | assumption | simp)+

definition bare_db :: api_db where
  "bare_db = \<lparr>users = [\<lparr>us_id = 1, us_email = ''a'', us_password_hash = ''h'', us_role = Admin, us_created = 0\<rparr>],
     subscriptions = [], scopes = [], watchlists = [], refresh_tokens = [], access_log = [],
     library = \<lparr>documents = [], versions = [], clauses = [], events = [], next_uuid = 0\<rparr>,
     change_events = [], version_created = (\<lambda>_. 0), clause_id = fst, t_next = 100\<rparr>"

lemma policies_enforced_witness:
  "table_select schema_head (admin_session 1 0) T_users (\<lambda>_ _. Inr False) (users bare_db) = Inr (users bare_db)
   \<and> table_delete schema_head (client_session 2 0) T_clauses (\<lambda>_ _. Inr True) (\<lambda>_. True) [0 :: nat] = Inl (DbError InsufficientPrivilege)"
  by (simp add: policies_enforced worker_tables_def)

text \<open>C29. The privileges after the last revision, for every role and table. Deleting is for the clients'
  watchlists only; apart from the owner of the tables no role may update a document, a clause, a change event, an
  audit row or an incident, and the updates of the other tables are those listed; those of the ledgers go through triggers that only
  let a row end, those of versions through one that only lets \<open>valid_to\<close> move, and the triggers of the other
  append-only tables reject every one, the owner's too. An administrator reads every table without a filter; the
  worker reads its six tables, two of them without policies, and no tenancy table; a client may read nine tables, and
  reads every row of the three tenancy tables, which have no policies; the login reads nothing. Against what the
  comment of revision 0002 says, a client may not update a subscription's scopes.\<close>

theorem schema_guards_rows:
  "(has_privilege schema_head r P_delete (On_table t) \<longleftrightarrow> r = Schema_owner \<or> (r, t) = (Api_app, T_watchlists))
   \<and> (may_update schema_head r t \<longleftrightarrow> r = Schema_owner \<or> (r, t) \<in>
        {(Api_app, T_users), (Api_app, T_subscriptions), (Api_app, T_watchlists), (Api_app, T_refresh_tokens),
         (Ingestion_worker, T_document_versions), (Ingestion_worker, T_document_poll_schedule),
         (Admin_bypass, T_subscription_scopes), (Admin_bypass, T_watchlists)})
   \<and> (has_privilege schema_head r P_insert (On_table t) \<longleftrightarrow> r = Schema_owner
        \<or> r = Ingestion_worker \<and> t \<in> {T_documents, T_document_versions, T_clauses, T_document_poll_schedule, T_ingestion_incident, T_change_events}
        \<or> r = Api_app \<and> t \<in> {T_users, T_subscriptions, T_subscription_scopes, T_watchlists, T_refresh_tokens}
        \<or> r = Admin_bypass \<and> t \<in> {T_subscriptions, T_subscription_scopes, T_admin_access_log})
   \<and> (has_privilege schema_head r P_select (On_table t) \<longleftrightarrow> r = Schema_owner \<or> r = Admin_bypass
        \<or> r = Ingestion_worker \<and> t \<in> {T_documents, T_document_versions, T_clauses, T_document_poll_schedule, T_ingestion_incident, T_change_events}
        \<or> r = Api_app \<and> t \<in> {T_users, T_subscriptions, T_subscription_scopes, T_documents, T_document_versions, T_clauses,
             T_watchlists, T_refresh_tokens, T_change_events})
   \<and> (reads_all schema_head r t \<longleftrightarrow> r = Admin_bypass
        \<or> r = Schema_owner \<and> t \<in> {T_users, T_subscriptions, T_subscription_scopes, T_document_poll_schedule, T_ingestion_incident}
        \<or> r = Ingestion_worker \<and> t \<in> {T_document_poll_schedule, T_ingestion_incident}
        \<or> r = Api_app \<and> t \<in> {T_users, T_subscriptions, T_subscription_scopes})
   \<and> \<not> may_update schema_head Api_app T_subscription_scopes
   \<and> (Rejects \<in> set (bodies_on schema_head t Ev_update) \<longleftrightarrow> t \<in> {T_documents, T_clauses, T_admin_access_log, T_change_events})
   \<and> (Rejects \<in> set (bodies_on schema_head t Ev_delete) \<longleftrightarrow> t \<in> {T_admin_access_log, T_change_events})
   \<and> bodies_on schema_head T_document_versions Ev_update = [Moves_valid_to]
   \<and> bodies_on schema_head T_subscriptions Ev_update = [Ends_subscription]
   \<and> bodies_on schema_head T_subscription_scopes Ev_update = [Ends_scope]"
proof (intro conjI)
  have reads: "reads_all schema_head r t \<longleftrightarrow> (r = Schema_owner \<or> P_select \<in> set (matrix r t)) \<and> (t \<in> set rls_tables \<longrightarrow> r = Admin_bypass)" for r t
    by (rule head_table [of t]) (auto simp: reads_all_def head_privilege head_checked)
  show "reads_all schema_head r t \<longleftrightarrow> r = Admin_bypass
        \<or> r = Schema_owner \<and> t \<in> {T_users, T_subscriptions, T_subscription_scopes, T_document_poll_schedule, T_ingestion_incident}
        \<or> r = Ingestion_worker \<and> t \<in> {T_document_poll_schedule, T_ingestion_incident}
        \<or> r = Api_app \<and> t \<in> {T_users, T_subscriptions, T_subscription_scopes}"
    unfolding reads by (cases r; cases t; simp add: rls_tables_def)
  show "\<not> may_update schema_head Api_app T_subscription_scopes"
    unfolding may_update_def head_granted head_owner by simp
  have "bodies_on schema_head t Ev_update = update_guard t" "bodies_on schema_head t Ev_delete = delete_guard t" for t
    using head_facts by (simp_all add: head_facts_def)
  then show "Rejects \<in> set (bodies_on schema_head t Ev_update) \<longleftrightarrow> t \<in> {T_documents, T_clauses, T_admin_access_log, T_change_events}"
    "Rejects \<in> set (bodies_on schema_head t Ev_delete) \<longleftrightarrow> t \<in> {T_admin_access_log, T_change_events}"
    "bodies_on schema_head T_document_versions Ev_update = [Moves_valid_to]"
    "bodies_on schema_head T_subscriptions Ev_update = [Ends_subscription]"
    "bodies_on schema_head T_subscription_scopes Ev_update = [Ends_scope]"
    by (cases t; simp)+
  show "may_update schema_head r t \<longleftrightarrow> r = Schema_owner \<or> (r, t) \<in>
        {(Api_app, T_users), (Api_app, T_subscriptions), (Api_app, T_watchlists), (Api_app, T_refresh_tokens),
         (Ingestion_worker, T_document_versions), (Ingestion_worker, T_document_poll_schedule),
         (Admin_bypass, T_subscription_scopes), (Admin_bypass, T_watchlists)}"
    unfolding may_update_def head_granted head_owner by (cases r; cases t) simp_all
qed (cases r; cases t; simp add: head_privilege)+

text \<open>C28. From any revision the database can be taken back to any earlier one but the first: the downgrade
  restores the catalogue of that revision, except that one across revision 0009 leaves the login a member of
  \<open>admin_bypass\<close>, and that role with \<open>CREATE\<close> on the schema \<open>app_private\<close> while the schema exists. The downgrade
  to the empty revision always fails, since \<open>schema_owner\<close> keeps its privileges on the schema \<open>public\<close> and cannot
  be dropped, and it changes nothing.\<close>

theorem downgrades_restore:
  assumes "env ''HORIZONS_DB_URL'' = Some url" "1 \<le> n" "n \<le> m" "m \<le> 16"
  shows "run_migrations_online env su m \<lparr>mg_revision = 0, mg_catalog = fresh_catalog\<rparr>
      = (\<lparr>mg_revision = m, mg_catalog = upgraded su m\<rparr>, Inr ())
    \<and> run_migrations_online env su n \<lparr>mg_revision = m, mg_catalog = upgraded su m\<rparr>
      = (\<lparr>mg_revision = n, mg_catalog = (if n < 9 \<and> 9 \<le> m then leftover n (upgraded su n) else upgraded su n)\<rparr>, Inr ())
    \<and> run_migrations_online env su 0 \<lparr>mg_revision = m, mg_catalog = upgraded su m\<rparr>
      = (\<lparr>mg_revision = m, mg_catalog = upgraded su m\<rparr>, Inl (Failed Dependent_objects))"
proof -
  have "upgraded su n = upgraded False n" using upgraded_step(2) [of n su] assms by simp
  moreover have "upgrade_steps m m = []" by (simp add: upgrade_steps_def)
  ultimately show ?thesis
    using assms upgraded_step(1) [of m su] downgrade_any [OF assms(2-4), of su] downgrade_base [of m su]
    by (auto simp: run_migrations_online_def downgraded_def)
qed

lemma downgrades_restore_witness:
  "run_migrations_online (\<lambda>_. Some ''db'') False 8 \<lparr>mg_revision = 16, mg_catalog = upgraded False 16\<rparr>
      = (\<lparr>mg_revision = 8, mg_catalog = leftover 8 (upgraded False 8)\<rparr>, Inr ())
   \<and> run_migrations_online (\<lambda>_. Some ''db'') False 0 \<lparr>mg_revision = 16, mg_catalog = upgraded False 16\<rparr>
      = (\<lparr>mg_revision = 16, mg_catalog = upgraded False 16\<rparr>, Inl (Failed Dependent_objects))"
  using downgrades_restore [of "\<lambda>_. Some ''db''" "''db''" 8 16 False] by simp

text \<open>C30. The declarative models against the schema of the last revision: two tables have no model, and the
  models of the others have the same columns and constraints, except that the one of the versions lacks the
  three validity columns with their constraint and index; three indexes differ in order or condition. What
  autogeneration would propose is exactly this difference, the removal of the columns the worker lives on
  included.\<close>

theorem orm_drift:
  "filter (\<lambda>t. t \<notin> om_table ` set orm_metadata) (map fst (ct_tables schema_head)) = [T_document_poll_schedule, T_ingestion_incident]
   \<and> map (\<lambda>m. (om_table m, drift_of schema_head m)) orm_metadata = map (\<lambda>m. (om_table m, expected_drift (om_table m))) orm_metadata
   \<and> filter (\<lambda>m. \<not> (dr_old_columns (drift_of schema_head m) = [] \<and> dr_new_columns (drift_of schema_head m) = []
         \<and> dr_old_constraints (drift_of schema_head m) = [] \<and> dr_new_constraints (drift_of schema_head m) = [])) orm_metadata
       = [orm_document_version]"
proof -
  have d: "\<forall>m \<in> set orm_metadata. drift_of schema_head m = expected_drift (om_table m)"
    using drift_evaluated upgrade_head [of False] by simp
  have t: "map fst (ct_tables schema_head) = table_names" using head_facts by (simp add: head_facts_def)
  have "filter (\<lambda>m. \<not> (dr_old_columns (drift_of schema_head m) = [] \<and> dr_new_columns (drift_of schema_head m) = []
         \<and> dr_old_constraints (drift_of schema_head m) = [] \<and> dr_new_constraints (drift_of schema_head m) = [])) orm_metadata
      = filter (\<lambda>m. om_table m = T_document_versions) orm_metadata"
    using d by (intro filter_cong) (auto simp: expected_drift_def no_drift_def split: table_name.splits)
  moreover have "filter (\<lambda>m. om_table m = T_document_versions) orm_metadata = [orm_document_version]"
    by (simp add: orm_metadata_def orm_user_def orm_subscription_def orm_subscription_scope_def orm_document_def
        orm_document_version_def orm_clause_def orm_watchlist_def orm_refresh_token_def orm_admin_access_log_def orm_change_event_def)
  moreover have "filter (\<lambda>t. t \<notin> om_table ` set orm_metadata) table_names = [T_document_poll_schedule, T_ingestion_incident]"
    by (simp add: table_names_def orm_metadata_def orm_user_def orm_subscription_def orm_subscription_scope_def orm_document_def
        orm_document_version_def orm_clause_def orm_watchlist_def orm_refresh_token_def orm_admin_access_log_def orm_change_event_def)
  ultimately show ?thesis using d t by simp
qed

end
