(* ===== verification/Endpoints.thy ===== *)
theory Endpoints
  imports App Pytext "HOL-Library.List_Lexorder" "HOL-Library.Multiset"
begin

text \<open>
  \<open>horizons-api/scripts/regen_endpoints_md.py\<close>: the reference of the endpoints, rendered from the OpenAPI
  document of the application. The document is what FastAPI returns; its objects are records with the keys the
  script reads, a mapping with free keys is an association list in the order of the dict. A flag tells whether
  an object has keys besides the listed ones, since the script tests objects for emptiness.
\<close>

section \<open>The OpenAPI document\<close>

datatype schema_type = One_type ustr | Type_list "ustr list"

datatype schema = Schema
  (sx_ref: "ustr option")
  (sx_any_of: "schema list option")
  (sx_type: "schema_type option")
  (sx_items: "schema option")
  (sx_format: "ustr option")
  (sx_description: "ustr option")
  (sx_properties: "(ustr \<times> schema) list option")
  (sx_required: "ustr list option")
  (sx_other_keys: bool)

definition empty_schema :: schema where
  "empty_schema = Schema None None None None None None None None False"

record parameter =
  pm_in :: "ustr option"
  pm_name :: "ustr option"
  pm_required :: bool
  pm_schema :: "schema option"
  pm_description :: "ustr option"

record media =
  md_schema :: "schema option"
  md_other_keys :: bool

record response =
  rs_description :: "ustr option"
  rs_content :: "(ustr \<times> media) list option"

record request_body =
  rb_content :: "(ustr \<times> media) list option"
  rb_other_keys :: bool

record operation =
  op_tags :: "ustr list option"
  op_summary :: "ustr option"
  op_description :: "ustr option"
  op_parameters :: "parameter list option"
  op_request_body :: "request_body option"
  op_responses :: "(ustr \<times> response) list option"

record openapi =
  oa_schemas :: "(ustr \<times> schema) list option"
  oa_paths :: "(ustr \<times> (ustr \<times> operation) list) list option"

text \<open>\<open>d.get(key, default)\<close> and \<open>s or ""\<close>.\<close>

definition or_else :: "'a \<Rightarrow> 'a option \<Rightarrow> 'a" where
  "or_else d v = (case v of None \<Rightarrow> d | Some x \<Rightarrow> x)"

section \<open>Names and types\<close>

definition method_order :: "ustr list" where
  "method_order = map u [''get'', ''post'', ''patch'', ''put'', ''delete'', ''head'', ''options'']"

definition default_tag :: ustr where
  "default_tag = u ''untagged''"

text \<open>\<open>ref.rsplit("/", 1)[-1]\<close>.\<close>

definition ref_name :: "ustr \<Rightarrow> ustr" where
  "ref_name r = last (split_on 47 r)"

definition resolve_schema :: "schema \<Rightarrow> (ustr \<times> schema) list \<Rightarrow> schema" where
  "resolve_schema s components =
     (case sx_ref s of
        Some r \<Rightarrow> or_else empty_schema (map_of components (ref_name r))
      | None \<Rightarrow> s)"

definition is_null :: "schema \<Rightarrow> bool" where
  "is_null s \<longleftrightarrow> sx_type s = Some (One_type (u ''null''))"

text \<open>\<open>str(t)\<close>; the members of a list are names of types, which hold no quote.\<close>

fun str_type :: "schema_type \<Rightarrow> ustr" where
  "str_type (One_type t) = t"
| "str_type (Type_list ts) = u ''['' @ join (u '', '') (map (\<lambda>t. [39] @ t @ [39]) ts) @ u '']''"

fun short_type :: "schema \<Rightarrow> ustr" where
  "short_type (Schema ref any_of ty items fmt descr props req other) =
     (case ref of
        Some r \<Rightarrow> ref_name r
      | None \<Rightarrow>
          (case any_of of
             Some branches \<Rightarrow>
               (let parts = map short_type (filter (\<lambda>s. \<not> is_null s) branches);
                    has_null = (\<exists>s \<in> set branches. is_null s);
                    union = (if parts \<noteq> [] then join (u '' | '') parts else u ''any'')
                in if has_null then union @ u ''?'' else union)
           | None \<Rightarrow>
               (case ty of
                  None \<Rightarrow> u ''object''
                | Some t \<Rightarrow>
                    if t = One_type (u ''array'')
                    then u ''array<'' @ (case items of None \<Rightarrow> u ''object'' | Some item \<Rightarrow> short_type item) @ u ''>''
                    else if t = One_type (u ''string'') \<and> or_else [] fmt \<noteq> []
                    then u ''string ('' @ or_else [] fmt @ u '')''
                    else str_type t)))"

section \<open>Tables\<close>

definition em_dash :: ustr where
  "em_dash = [8212]"

text \<open>\<open>(descr or "").replace("\n", " ").strip() or "---"\<close>, with a dash for the last.\<close>

definition cell_text :: "ustr option \<Rightarrow> ustr" where
  "cell_text descr =
     (let t = strip (map (\<lambda>c. if c = 10 then 32 else c) (or_else [] descr))
      in if t = [] then em_dash else t)"

definition table_row :: "ustr list \<Rightarrow> ustr" where
  "table_row cells = u ''| '' @ join (u '' | '') cells @ u '' |''"

definition code_span :: "ustr \<Rightarrow> ustr" where
  "code_span s = u ''`'' @ s @ u ''`''"

definition yes_no :: "bool \<Rightarrow> ustr" where
  "yes_no b = (if b then u ''yes'' else u ''no'')"

definition lines_text :: "ustr list \<Rightarrow> ustr" where
  "lines_text ls = join [10] ls @ [10]"

definition parameter_row :: "parameter \<Rightarrow> ustr" where
  "parameter_row p =
     table_row [code_span (or_else (u ''?'') (pm_in p)), code_span (or_else (u ''?'') (pm_name p)),
       code_span (short_type (or_else empty_schema (pm_schema p))), yes_no (pm_required p),
       cell_text (pm_description p)]"

definition parameter_key :: "parameter \<Rightarrow> ustr \<times> ustr" where
  "parameter_key p = (or_else [] (pm_in p), or_else [] (pm_name p))"

definition render_parameters :: "parameter list \<Rightarrow> ustr" where
  "render_parameters params =
     (if params = [] then []
      else lines_text
        ([table_row (map u [''In'', ''Name'', ''Type'', ''Required'', ''Description'']),
          table_row (replicate 5 (u ''---''))]
         @ map parameter_row (sort_key parameter_key params)))"

definition label_line :: "ustr \<Rightarrow> ustr" where
  "label_line label = u ''**'' @ label @ u ''**''"

definition field_row :: "ustr set \<Rightarrow> (ustr \<times> schema) list \<Rightarrow> ustr \<Rightarrow> ustr" where
  "field_row required props name =
     (let field = or_else empty_schema (map_of props name)
      in table_row [code_span name, code_span (short_type field), yes_no (name \<in> required), cell_text (sx_description field)])"

definition render_object_schema :: "schema \<Rightarrow> (ustr \<times> schema) list \<Rightarrow> ustr \<Rightarrow> ustr" where
  "render_object_schema schema components label =
     (if schema = empty_schema then []
      else
        let s = resolve_schema schema components
        in if sx_type s \<noteq> Some (One_type (u ''object'')) \<and> sx_properties s = None
           then label_line label @ u '' '' @ code_span (short_type s) @ [10]
           else
             let props = or_else [] (sx_properties s); required = set (or_else [] (sx_required s))
             in if props = [] then label_line label @ u '' _(no fields)_'' @ [10]
                else lines_text
                  ([label_line label, [], table_row (map u [''Field'', ''Type'', ''Required'', ''Description'']),
                    table_row (replicate 4 (u ''---''))]
                   @ map (field_row required props) (sort (map fst props))))"

text \<open>The JSON media type of a content; an empty object counts as absent.\<close>

definition json_body :: "(ustr \<times> media) list option \<Rightarrow> media option" where
  "json_body content =
     (case map_of (or_else [] content) (u ''application/json'') of
        None \<Rightarrow> None
      | Some m \<Rightarrow> if md_schema m = None \<and> \<not> md_other_keys m then None else Some m)"

definition render_request_body :: "request_body option \<Rightarrow> (ustr \<times> schema) list \<Rightarrow> ustr" where
  "render_request_body request_body components =
     (case request_body of
        None \<Rightarrow> []
      | Some b \<Rightarrow>
          if rb_content b = None \<and> \<not> rb_other_keys b then []
          else (case json_body (rb_content b) of
                  None \<Rightarrow> []
                | Some m \<Rightarrow>
                    render_object_schema (resolve_schema (or_else empty_schema (md_schema m)) components) components
                      (u ''Request body'')))"

definition response_row :: "(ustr \<times> response) list \<Rightarrow> ustr \<Rightarrow> ustr" where
  "response_row responses code =
     (let spec = or_else \<lparr>rs_description = None, rs_content = None\<rparr> (map_of responses code);
          shape = (case json_body (rs_content spec) of
                     None \<Rightarrow> em_dash
                   | Some m \<Rightarrow> short_type (or_else empty_schema (md_schema m)))
      in table_row [code_span code, code_span shape, cell_text (rs_description spec)])"

definition render_responses :: "(ustr \<times> response) list \<Rightarrow> ustr" where
  "render_responses responses =
     (if responses = [] then []
      else lines_text
        ([u ''**Responses**'', [], table_row (map u [''Status'', ''Shape'', ''Description'']),
          table_row (replicate 3 (u ''---''))]
         @ map (response_row responses) (sort (map fst responses))))"

section \<open>Operations\<close>

text \<open>\<open>method.upper()\<close> of one of the seven methods.\<close>

definition upper_ascii :: "ustr \<Rightarrow> ustr" where
  "upper_ascii s = map (\<lambda>c. if 97 \<le> c \<and> c \<le> 122 then c - 32 else c) s"

definition operation_title :: "ustr \<Rightarrow> ustr \<Rightarrow> ustr" where
  "operation_title path_name method = u ''### '' @ code_span (upper_ascii method @ u '' '' @ path_name)"

definition render_operation :: "ustr \<Rightarrow> ustr \<Rightarrow> operation \<Rightarrow> (ustr \<times> schema) list \<Rightarrow> ustr" where
  "render_operation path_name method op components =
     (let summary = strip (or_else [] (op_summary op));
          description = strip (or_else [] (op_description op));
          params = render_parameters (or_else [] (op_parameters op));
          body = render_request_body (op_request_body op) components;
          responses = render_responses (or_else [] (op_responses op));
          parts = [operation_title path_name method, []]
            @ (if summary \<noteq> [] then [summary, []] else [])
            @ (if description \<noteq> [] \<and> description \<noteq> summary then [description, []] else [])
            @ (if params \<noteq> [] then [u ''**Parameters**'', [], params] else [])
            @ (if body \<noteq> [] then [body] else [])
            @ (if responses \<noteq> [] then [responses] else [])
      in rstrip (join [10] parts) @ [10])"

text \<open>The loops of \<open>_operations_by_tag\<close>: \<open>out.setdefault(tag, []).append(...)\<close> on an insertion-ordered dict.\<close>

type_synonym entry = "ustr \<times> ustr \<times> operation"

fun append_at :: "ustr \<Rightarrow> entry \<Rightarrow> (ustr \<times> entry list) list \<Rightarrow> (ustr \<times> entry list) list" where
  "append_at tag x [] = [(tag, [x])]"
| "append_at tag x ((t, xs) # out) = (if t = tag then (t, xs @ [x]) # out else (t, xs) # append_at tag x out)"

definition tags_of :: "operation \<Rightarrow> ustr list" where
  "tags_of op = (if or_else [] (op_tags op) \<noteq> [] then or_else [] (op_tags op) else [default_tag])"

definition tagged_entries :: "(ustr \<times> (ustr \<times> operation) list) list \<Rightarrow> (ustr \<times> entry) list" where
  "tagged_entries paths =
     concat (map (\<lambda>(path_name, item).
       concat (map (\<lambda>(method, op).
         if method \<notin> set method_order then [] else map (\<lambda>tag. (tag, path_name, method, op)) (tags_of op)) item)) paths)"

fun index_of :: "ustr list \<Rightarrow> ustr \<Rightarrow> nat" where
  "index_of [] m = 0"
| "index_of (x # xs) m = (if x = m then 0 else Suc (index_of xs m))"

definition entry_key :: "entry \<Rightarrow> ustr \<times> nat" where
  "entry_key e = (case e of (path_name, method, op) \<Rightarrow> (path_name, index_of method_order method))"

definition operations_by_tag :: "openapi \<Rightarrow> (ustr \<times> entry list) list" where
  "operations_by_tag spec =
     map (\<lambda>(tag, es). (tag, sort_key entry_key es))
       (fold (\<lambda>(tag, e) out. append_at tag e out) (tagged_entries (or_else [] (oa_paths spec))) [])"

section \<open>The document\<close>

definition preamble :: ustr where
  "preamble = join [10]
    [u ''# Horizons API '' @ em_dash @ u '' Endpoint reference'',
     [],
     u ''*Auto-generated from the live FastAPI OpenAPI spec by'',
     u ''[`scripts/regen_endpoints_md.py`](../../packages/horizons-api/scripts/regen_endpoints_md.py).'',
     u ''Do not hand-edit '' @ em_dash @ u '' the pre-commit hook fails if this file drifts from'',
     u ''the generated output.*'',
     [],
     u ''Sibling docs:'',
     [],
     u ''- [`README.md`](README.md) '' @ em_dash @ u '' overview of the docs/api directory.'',
     u ''- [`getting-started.md`](getting-started.md) '' @ em_dash @ u '' auth flow for the'',
     u ''  upstream Lawstronaut API.'',
     u ''- [`auth.md`](auth.md) '' @ em_dash @ u '' Horizons login / refresh / logout posture.'',
     u ''- [`horizons-primitives.md`](horizons-primitives.md) '' @ em_dash @ u '' design-of-record'',
     u ''  for the three primitives (`/v1/discovery` / `/v1/temporal` /'',
     u ''  `/v1/differential`).'',
     u ''- [`lawstronaut-endpoints.md`](lawstronaut-endpoints.md) '' @ em_dash @ u '' upstream'',
     u ''  Lawstronaut v2 reference (separate API; Horizons consumes this).'',
     u ''- [`operational-notes.md`](operational-notes.md) '' @ em_dash @ u '' Lawstronaut'',
     u ''  refresh cadence, pricing, MCP, and other facts that shape design.'',
     [],
     u ''Conventions:'',
     [],
     u ''- All Horizons endpoints live under `/v1/...`. The `/openapi.json`'',
     u ''  spec at the API root is the source of truth.'',
     u ''- Per-user endpoints (`/v1/me/*`, `/v1/auth/*`) carry'',
     u ''  `Cache-Control: private, no-store`.'',
     u ''- The admin surface (`/v1/admin/*`) returns 403 (not 404) for'',
     u ''  authenticated non-admin callers '' @ em_dash @ u '' the documented exception to the'',
     u ''  \"404 not 403\" rule, because the prefix is explicitly administrative.'',
     u ''- Type column annotations: `T?` denotes a nullable field;'',
     u ''  `array<T>` denotes a JSON array of `T`; `T (uuid)` /'',
     u ''  `T (date-time)` reflect a JSON Schema `format`.'',
     []]"

definition tag_section :: "(ustr \<times> schema) list \<Rightarrow> ustr \<Rightarrow> entry list \<Rightarrow> ustr list" where
  "tag_section components tag es =
     (u ''## '' @ tag @ [10]) # concat (map (\<lambda>(path_name, method, op). [render_operation path_name method op components, []]) es)"

definition render_markdown :: "openapi \<Rightarrow> ustr" where
  "render_markdown spec =
     (let components = or_else [] (oa_schemas spec); by_tag = operations_by_tag spec
      in if by_tag = [] then preamble @ [10] @ u ''_(no endpoints registered)_'' @ [10]
         else
           let tags = sort (map fst by_tag);
               contents = [u ''## Table of contents'' @ [10]]
                 @ map (\<lambda>tag. u ''- ['' @ tag @ u ''](#'' @ tag @ u '')'') tags @ [[]];
               sections = concat (map (\<lambda>tag. tag_section components tag (or_else [] (map_of by_tag tag))) tags)
           in rstrip (join [10] ([preamble] @ contents @ sections)) @ [10])"

section \<open>Running the script\<close>

text \<open>
  The directory \<open>docs/api\<close> and its file. \<open>write_text\<close> opens the file, which empties it, and then encodes the
  text: a lone surrogate has no encoding in UTF-8. \<open>read_text\<close> turns every line ending into a newline.
\<close>

datatype file_error = File_not_found | Unicode_encode_error | Script_error exn

record docs_api =
  da_directory :: bool
  da_endpoints :: "ustr option"

definition write_text :: "ustr \<Rightarrow> docs_api \<Rightarrow> docs_api \<times> (file_error + unit)" where
  "write_text s d =
     (if \<not> da_directory d then (d, Inl File_not_found)
      else if \<exists>c \<in> set s. surrogate c then (d\<lparr>da_endpoints := Some []\<rparr>, Inl Unicode_encode_error)
      else (d\<lparr>da_endpoints := Some s\<rparr>, Inr ()))"

function universal_newlines :: "ustr \<Rightarrow> ustr" where
  "universal_newlines [] = []"
| "universal_newlines (c # s) =
     (if c = 13 then 10 # universal_newlines (case s of d # s' \<Rightarrow> if d = 10 then s' else s | [] \<Rightarrow> [])
      else c # universal_newlines s)"
  by pat_completeness auto
termination
  by (relation "measure length") (auto split: list.splits)

definition regenerate :: "openapi \<Rightarrow> docs_api \<Rightarrow> docs_api \<times> (file_error + ustr)" where
  "regenerate spec d =
     (let md = render_markdown spec; (d1, r) = write_text md (d\<lparr>da_directory := True\<rparr>)
      in (d1, bindE r (\<lambda>_. Inr md)))"

text \<open>\<open>os.environ.setdefault\<close> with the defaults; the PEM texts come from \<open>cryptography\<close>.\<close>

definition bootstrap_env :: "string \<Rightarrow> string \<Rightarrow> (string \<Rightarrow> string option) \<Rightarrow> string \<Rightarrow> string option" where
  "bootstrap_env private public env k =
     (case env k of
        Some v \<Rightarrow> Some v
      | None \<Rightarrow>
          map_of [(''HORIZONS_JWT_PRIVATE_KEY_PEM'', private), (''HORIZONS_JWT_PUBLIC_KEY_PEM'', public),
            (''HORIZONS_JWT_ISSUER'', ''horizons-api-openapi-regen''),
            (''HORIZONS_JWT_AUDIENCE'', ''horizons-api-openapi-regen''), (''HORIZONS_CORS_ORIGINS'', []),
            (''HORIZONS_DB_URL'', ''postgresql+asyncpg://x:x@localhost:5432/x'')] k)"

text \<open>\<open>main\<close>; \<open>factory\<close> is \<open>create_app\<close> on an environment, \<open>openapi_of\<close> FastAPI's \<open>openapi\<close>. What it prints is left out.\<close>

definition regen_main ::
  "string \<times> string \<Rightarrow> ((string \<Rightarrow> string option) \<Rightarrow> 'app result) \<Rightarrow> ('app \<Rightarrow> openapi) \<Rightarrow> (string \<Rightarrow> string option)
    \<Rightarrow> string list \<Rightarrow> docs_api \<Rightarrow> docs_api \<times> (file_error + nat)" where
  "regen_main keys factory openapi_of env argv d =
     (let check_only = ''--check'' \<in> set argv
      in case factory (bootstrap_env (fst keys) (snd keys) env) of
           Inl e \<Rightarrow> (d, Inl (Script_error e))
         | Inr app \<Rightarrow>
             let new_text = render_markdown (openapi_of app)
             in if check_only
                then let existing = (if da_directory d then (case da_endpoints d of None \<Rightarrow> [] | Some s \<Rightarrow> universal_newlines s) else [])
                     in (d, Inr (if existing = new_text then 0 else 1))
                else let (d1, r) = write_text new_text d in (d1, bindE r (\<lambda>_. Inr 0)))"

end
