(* ===== verification/Endpoints_Correct.thy ===== *)
theory Endpoints_Correct
  imports Endpoints
begin

text \<open>
  The reference of the endpoints depends on the OpenAPI document as a value: two documents that differ in the
  order of their mappings only give the same text. Every operation is in it, and a run leaves a file that the
  check accepts.
\<close>

section \<open>Equal documents\<close>

text \<open>Two dicts are equal when they have the same keys with equal values; their order does not count.\<close>

definition same_dict :: "('a \<Rightarrow> 'b \<Rightarrow> bool) \<Rightarrow> (ustr \<times> 'a) list \<Rightarrow> (ustr \<times> 'b) list \<Rightarrow> bool" where
  "same_dict R d d' \<longleftrightarrow>
     distinct (map fst d) \<and> distinct (map fst d') \<and> set (map fst d) = set (map fst d')
     \<and> (\<forall>k x y. map_of d k = Some x \<longrightarrow> map_of d' k = Some y \<longrightarrow> R x y)"

lemma same_dict_mono [mono]: "R \<le> Q \<Longrightarrow> same_dict R \<le> same_dict Q"
  by (fastforce simp: same_dict_def le_fun_def)

inductive same_schema :: "schema \<Rightarrow> schema \<Rightarrow> bool" where
  "rel_option (list_all2 same_schema) any any' \<Longrightarrow> rel_option same_schema it it'
    \<Longrightarrow> rel_option (same_dict same_schema) ps ps'
    \<Longrightarrow> same_schema (Schema r any t it f d ps rq other) (Schema r any' t it' f d ps' rq other)"
  monos option.rel_mono list.rel_mono same_dict_mono

inductive_cases same_schemaE: "same_schema s s'"

definition same_parameter :: "parameter \<Rightarrow> parameter \<Rightarrow> bool" where
  "same_parameter p p' \<longleftrightarrow> rel_option same_schema (pm_schema p) (pm_schema p') \<and> p' = p\<lparr>pm_schema := pm_schema p'\<rparr>"

definition same_media :: "media \<Rightarrow> media \<Rightarrow> bool" where
  "same_media m m' \<longleftrightarrow> rel_option same_schema (md_schema m) (md_schema m') \<and> md_other_keys m = md_other_keys m'"

definition same_response :: "response \<Rightarrow> response \<Rightarrow> bool" where
  "same_response r r' \<longleftrightarrow> rs_description r = rs_description r' \<and> rel_option (same_dict same_media) (rs_content r) (rs_content r')"

definition same_body :: "request_body \<Rightarrow> request_body \<Rightarrow> bool" where
  "same_body b b' \<longleftrightarrow> rb_other_keys b = rb_other_keys b' \<and> rel_option (same_dict same_media) (rb_content b) (rb_content b')"

definition same_operation :: "operation \<Rightarrow> operation \<Rightarrow> bool" where
  "same_operation o1 o2 \<longleftrightarrow> op_tags o1 = op_tags o2 \<and> op_summary o1 = op_summary o2 \<and> op_description o1 = op_description o2
     \<and> rel_option (list_all2 same_parameter) (op_parameters o1) (op_parameters o2)
     \<and> rel_option same_body (op_request_body o1) (op_request_body o2)
     \<and> rel_option (same_dict same_response) (op_responses o1) (op_responses o2)"

definition same_openapi :: "openapi \<Rightarrow> openapi \<Rightarrow> bool" where
  "same_openapi s s' \<longleftrightarrow> rel_option (same_dict same_schema) (oa_schemas s) (oa_schemas s')
     \<and> rel_option (same_dict (same_dict same_operation)) (oa_paths s) (oa_paths s')"

section \<open>Dicts\<close>

lemma or_else_simps [simp]: "or_else d None = d" "or_else d (Some x) = x"
  by (simp_all add: or_else_def)

lemma same_dict_Nil [simp]: "same_dict R [] []"
  by (simp add: same_dict_def)

lemma or_else_rel: "rel_option R v v' \<Longrightarrow> R d d' \<Longrightarrow> R (or_else d v) (or_else d' v')"
  by (cases v; cases v') auto

lemma same_dict_keys: "same_dict R d d' \<Longrightarrow> sort (map fst d) = sort (map fst d')"
  by (rule sorted_distinct_set_unique) (auto simp: same_dict_def)

lemma same_dict_empty: "same_dict R d d' \<Longrightarrow> d = [] \<longleftrightarrow> d' = []"
  by (auto simp: same_dict_def)

lemma same_dict_lookup: "same_dict R d d' \<Longrightarrow> rel_option R (map_of d k) (map_of d' k)"
proof -
  assume s: "same_dict R d d'"
  have "map_of d k = None \<longleftrightarrow> map_of d' k = None" using s by (simp add: same_dict_def map_of_eq_None_iff)
  then show ?thesis using s by (cases "map_of d k"; cases "map_of d' k") (auto simp: same_dict_def)
qed

lemma map_lookup_keys: "distinct (map fst d) \<Longrightarrow> map (\<lambda>(k, x). F k x) d = map (\<lambda>k. F k (the (map_of d k))) (map fst d)"
  by (auto simp: map_of_is_SomeI intro!: map_cong)

text \<open>What a loop over the items collects is the same up to order.\<close>

lemma same_dict_items:
  assumes s: "same_dict R d d'" and F: "\<And>k x y. R x y \<Longrightarrow> F k x = G k y"
  shows "mset (map (\<lambda>(k, x). F k x) d) = mset (map (\<lambda>(k, x). G k x) d')"
proof -
  have k: "mset (map fst d) = mset (map fst d')" using s unfolding same_dict_def by (intro set_eq_iff_mset_eq_distinct [THEN iffD1]) blast+
  have "F k (the (map_of d k)) = G k (the (map_of d' k))" if "k \<in> set (map fst d)" for k
  proof -
    have "map_of d k \<noteq> None" using that by (simp add: map_of_eq_None_iff)
    with same_dict_lookup [OF s, of k] show ?thesis by (cases "map_of d k"; cases "map_of d' k") (auto intro: F)
  qed
  then have e: "map (\<lambda>k. F k (the (map_of d k))) (map fst d) = map (\<lambda>k. G k (the (map_of d' k))) (map fst d)"
    by (auto intro!: map_cong)
  have dd: "distinct (map fst d)" "distinct (map fst d')" using s by (simp_all add: same_dict_def)
  have "mset (map (\<lambda>k. G k (the (map_of d' k))) (map fst d)) = mset (map (\<lambda>k. G k (the (map_of d' k))) (map fst d'))"
    unfolding mset_map [where f = "\<lambda>k. G k (the (map_of d' k))"] k ..
  then show ?thesis unfolding map_lookup_keys [OF dd(1), of F] map_lookup_keys [OF dd(2), of G] e .
qed

lemma mset_concat_map: "mset (concat (map f xs)) = sum_list (map (\<lambda>x. mset (f x)) xs)"
  by (induction xs) simp_all

lemma same_dict_concat:
  assumes "same_dict R d d'" "\<And>k x y. R x y \<Longrightarrow> mset (F k x) = mset (G k y)"
  shows "mset (concat (map (\<lambda>(k, x). F k x) d)) = mset (concat (map (\<lambda>(k, x). G k x) d'))"
proof -
  have "mset (map (\<lambda>(k, x). mset (F k x)) d) = mset (map (\<lambda>(k, x). mset (G k x)) d')"
    by (rule same_dict_items [OF assms(1)]) (rule assms(2))
  then have "sum_list (map (\<lambda>(k, x). mset (F k x)) d) = sum_list (map (\<lambda>(k, x). mset (G k x)) d')"
    by (metis sum_mset_sum_list)
  then show ?thesis by (simp add: mset_concat_map split_def)
qed

section \<open>Rendering equal parts\<close>

lemma same_schema_type: "same_schema s s' \<Longrightarrow> sx_type s = sx_type s'"
  by (auto elim: same_schemaE)

lemma same_schema_null: "same_schema s s' \<Longrightarrow> is_null s = is_null s'"
  by (simp add: is_null_def same_schema_type)

lemma short_types:
  "list_all2 (\<lambda>s s'. same_schema s s' \<and> short_type s = short_type s') bs bs'
   \<Longrightarrow> map short_type (filter (\<lambda>s. \<not> is_null s) bs) = map short_type (filter (\<lambda>s. \<not> is_null s) bs')
      \<and> (\<exists>s \<in> set bs. is_null s) = (\<exists>s \<in> set bs'. is_null s)"
  by (induction rule: list_all2_induct) (auto simp: same_schema_null)

lemma rel_option_none: "rel_option R v v' \<Longrightarrow> v = None \<longleftrightarrow> v' = None"
  by (cases v; cases v') simp_all

lemma case_option_rel:
  "rel_option R v v' \<Longrightarrow> (\<And>x y. R x y \<Longrightarrow> f x = f y) \<Longrightarrow> (case v of None \<Rightarrow> c | Some x \<Rightarrow> f x) = (case v' of None \<Rightarrow> c | Some y \<Rightarrow> f y)"
  by (cases v; cases v') simp_all

lemma same_short_type: "same_schema s s' \<Longrightarrow> short_type s = short_type s'"
proof (induction rule: same_schema.induct)
  case (1 any any' it it' ps ps' r t f d rq other)
  have items: "(case it of None \<Rightarrow> u ''object'' | Some i \<Rightarrow> short_type i) = (case it' of None \<Rightarrow> u ''object'' | Some i \<Rightarrow> short_type i)"
    by (rule case_option_rel [OF 1(2)]) simp
  show ?case
  proof (cases any)
    case None
    then have "any' = None" using 1(1) by simp
    then show ?thesis by (simp only: None short_type.simps items)
  next
    case (Some bs)
    then obtain bs' where bs': "any' = Some bs'" and
      "list_all2 (\<lambda>s s'. same_schema s s' \<and> short_type s = short_type s') bs bs'"
      using 1(1) by (auto simp: option_rel_Some1)
    from short_types [OF this(2)] show ?thesis by (simp only: Some bs' short_type.simps option.simps Let_def)
  qed
qed

lemma same_empty_schema: "same_schema s s' \<Longrightarrow> s = empty_schema \<longleftrightarrow> s' = empty_schema"
  unfolding empty_schema_def by (cases s; cases s'; erule same_schemaE) (auto simp: option.rel_sel)

lemma same_schema_empty [simp]: "same_schema empty_schema empty_schema"
  unfolding empty_schema_def by (rule same_schema.intros) simp_all

lemma same_schema_parts:
  "same_schema s s' \<Longrightarrow> sx_ref s = sx_ref s' \<and> sx_description s = sx_description s' \<and> sx_required s = sx_required s'
     \<and> rel_option (same_dict same_schema) (sx_properties s) (sx_properties s')"
  by (auto elim!: same_schemaE)

lemma same_resolve:
  assumes "same_schema s s'" "same_dict same_schema c c'"
  shows "same_schema (resolve_schema s c) (resolve_schema s' c')"
  using same_schema_parts [OF assms(1)] assms(1)
  by (auto simp: resolve_schema_def intro!: or_else_rel [where R = same_schema] same_dict_lookup [OF assms(2)] split: option.splits)

lemma same_parameter_row: "same_parameter p p' \<Longrightarrow> parameter_row p = parameter_row p' \<and> parameter_key p = parameter_key p'"
proof -
  assume s: "same_parameter p p'"
  then obtain x where p': "p' = p\<lparr>pm_schema := x\<rparr>" and x: "rel_option same_schema (pm_schema p) x"
    by (auto simp: same_parameter_def)
  have "short_type (or_else empty_schema (pm_schema p)) = short_type (or_else empty_schema x)"
    using or_else_rel [OF x same_schema_empty] by (rule same_short_type)
  then show ?thesis by (simp add: p' parameter_row_def parameter_key_def)
qed

text \<open>A stable sort of two lists whose elements agree on the key and on what is shown of them.\<close>

lemma same_sorted_rows:
  assumes "list_all2 (\<lambda>x y. g x = h y \<and> k x = k' y) xs ys"
  shows "map g (sort_key k xs) = map h (sort_key k' ys)"
proof -
  have ins: "list_all2 (\<lambda>x y. g x = h y \<and> k x = k' y) (insort_key k x xs) (insort_key k' y ys)"
    if "g x = h y \<and> k x = k' y" "list_all2 (\<lambda>x y. g x = h y \<and> k x = k' y) xs ys" for x y xs ys
    using that(2,1) by (induction rule: list_all2_induct) auto
  have "list_all2 (\<lambda>x y. g x = h y \<and> k x = k' y) (sort_key k xs) (sort_key k' ys)"
    using assms by (induction rule: list_all2_induct) (auto simp: sort_key_def intro: ins)
  then show ?thesis by (induction rule: list_all2_induct) auto
qed

lemma same_parameters:
  assumes "list_all2 same_parameter ps ps'"
  shows "render_parameters ps = render_parameters ps'"
proof -
  have "list_all2 (\<lambda>x y. parameter_row x = parameter_row y \<and> parameter_key x = parameter_key y) ps ps'"
    using assms by (rule list.rel_mono_strong) (rule same_parameter_row)
  from same_sorted_rows [OF this] show ?thesis using assms by (auto simp: render_parameters_def)
qed

lemma same_field_row:
  assumes "same_dict same_schema ps ps'"
  shows "field_row req ps = field_row req ps'"
proof
  fix name
  have s: "same_schema (or_else empty_schema (map_of ps name)) (or_else empty_schema (map_of ps' name))"
    by (rule or_else_rel [OF same_dict_lookup [OF assms] same_schema_empty])
  then show "field_row req ps name = field_row req ps' name"
    using same_short_type [OF s] same_schema_parts [OF s] by (simp add: field_row_def Let_def)
qed

lemma same_object_schema:
  assumes s: "same_schema s s'" and c: "same_dict same_schema c c'"
  shows "render_object_schema s c label = render_object_schema s' c' label"
proof -
  let ?r = "resolve_schema s c" and ?r' = "resolve_schema s' c'"
  have r: "same_schema ?r ?r'" by (rule same_resolve [OF s c])
  note parts = same_schema_parts [OF r]
  have props: "same_dict same_schema (or_else [] (sx_properties ?r)) (or_else [] (sx_properties ?r'))"
    by (rule or_else_rel) (simp_all add: parts)
  have absent: "sx_properties ?r = None \<longleftrightarrow> sx_properties ?r' = None" using parts by (blast dest: rel_option_none)
  show ?thesis
    unfolding render_object_schema_def Let_def same_empty_schema [OF s] same_schema_type [OF r] absent
      same_short_type [OF r] same_dict_empty [OF props] same_dict_keys [OF props] same_field_row [OF props]
    using parts by simp
qed

lemma same_json_body:
  assumes "rel_option (same_dict same_media) c c'"
  shows "rel_option same_media (json_body c) (json_body c')"
proof -
  have "same_dict same_media (or_else [] c) (or_else [] c')" using assms by (rule or_else_rel) simp
  from same_dict_lookup [OF this, of "u ''application/json''"] show ?thesis
    by (cases rule: option.rel_cases) (auto simp: json_body_def same_media_def dest: rel_option_none)
qed

lemma same_media_schema: "same_media m m' \<Longrightarrow> same_schema (or_else empty_schema (md_schema m)) (or_else empty_schema (md_schema m'))"
  by (auto simp: same_media_def intro: or_else_rel [where R = same_schema])

lemma same_request_body:
  assumes b: "rel_option same_body b b'" and c: "same_dict same_schema c c'"
  shows "render_request_body b c = render_request_body b' c'"
  using b
proof (cases rule: option.rel_cases)
  case (Some x y)
  then have xy: "rb_other_keys x = rb_other_keys y" "rel_option (same_dict same_media) (rb_content x) (rb_content y)"
    by (simp_all add: same_body_def)
  have none: "rb_content x = None \<longleftrightarrow> rb_content y = None" using xy(2) by (rule rel_option_none)
  have "(case json_body (rb_content x) of None \<Rightarrow> [] | Some m \<Rightarrow>
           render_object_schema (resolve_schema (or_else empty_schema (md_schema m)) c) c (u ''Request body''))
      = (case json_body (rb_content y) of None \<Rightarrow> [] | Some m \<Rightarrow>
           render_object_schema (resolve_schema (or_else empty_schema (md_schema m)) c') c' (u ''Request body''))"
    using same_json_body [OF xy(2)]
    by (cases rule: option.rel_cases) (auto intro!: same_object_schema same_resolve same_media_schema c)
  then show ?thesis unfolding Some render_request_body_def option.case xy(1) none by simp
qed (simp add: render_request_body_def)

lemma same_response_row:
  assumes "same_dict same_response rs rs'"
  shows "response_row rs = response_row rs'"
proof
  fix code
  let ?d = "\<lparr>rs_description = None, rs_content = None\<rparr>"
  have s: "same_response (or_else ?d (map_of rs code)) (or_else ?d (map_of rs' code))"
    by (rule or_else_rel [OF same_dict_lookup [OF assms]]) (simp add: same_response_def)
  then have c: "rel_option same_media (json_body (rs_content (or_else ?d (map_of rs code)))) (json_body (rs_content (or_else ?d (map_of rs' code))))"
    by (intro same_json_body) (simp add: same_response_def)
  have "(case json_body (rs_content (or_else ?d (map_of rs code))) of None \<Rightarrow> em_dash | Some m \<Rightarrow> short_type (or_else empty_schema (md_schema m)))
      = (case json_body (rs_content (or_else ?d (map_of rs' code))) of None \<Rightarrow> em_dash | Some m \<Rightarrow> short_type (or_else empty_schema (md_schema m)))"
    using c by (rule case_option_rel) (rule same_short_type [OF same_media_schema])
  then show "response_row rs code = response_row rs' code"
    using s unfolding response_row_def Let_def by (simp add: same_response_def)
qed

lemma same_responses: "same_dict same_response rs rs' \<Longrightarrow> render_responses rs = render_responses rs'"
  by (simp add: render_responses_def same_dict_keys same_response_row same_dict_empty)

lemma same_render_operation:
  assumes o: "same_operation o1 o2" and c: "same_dict same_schema c c'"
  shows "render_operation path_name method o1 c = render_operation path_name method o2 c'"
proof -
  have "render_parameters (or_else [] (op_parameters o1)) = render_parameters (or_else [] (op_parameters o2))"
    by (rule same_parameters [OF or_else_rel [where R = "list_all2 same_parameter"]]) (use o in \<open>simp_all add: same_operation_def\<close>)
  moreover have "render_request_body (op_request_body o1) c = render_request_body (op_request_body o2) c'"
    using o by (intro same_request_body c) (simp add: same_operation_def)
  moreover have "render_responses (or_else [] (op_responses o1)) = render_responses (or_else [] (op_responses o2))"
    by (rule same_responses [OF or_else_rel [where R = "same_dict same_response"]]) (use o in \<open>simp_all add: same_operation_def\<close>)
  moreover have "op_summary o1 = op_summary o2" "op_description o1 = op_description o2" using o by (simp_all add: same_operation_def)
  ultimately show ?thesis by (simp only: render_operation_def)
qed

section \<open>Grouping by tag\<close>

lemma append_at_keys: "set (map fst (append_at tag x out)) = insert tag (set (map fst out))"
  by (induction out rule: append_at.induct) auto

lemma append_at_distinct: "distinct (map fst out) \<Longrightarrow> distinct (map fst (append_at tag x out))"
proof (induction tag x out rule: append_at.induct)
  case (2 tag x t xs out)
  then show ?case using append_at_keys [of tag x out] by auto
qed simp

lemma append_at_lookup:
  "or_else [] (map_of (append_at tag x out) t) = or_else [] (map_of out t) @ (if t = tag then [x] else [])"
  by (induction tag x out rule: append_at.induct) auto

abbreviation group_rows :: "(ustr \<times> entry) list \<Rightarrow> (ustr \<times> entry list) list \<Rightarrow> (ustr \<times> entry list) list" where
  "group_rows \<equiv> fold (\<lambda>(tag, e) out. append_at tag e out)"

lemma group_rows_keys: "set (map fst (group_rows rows out)) = set (map fst out) \<union> fst ` set rows"
proof (induction rows arbitrary: out)
  case (Cons r rows)
  show ?case using Cons [of "append_at (fst r) (snd r) out"] append_at_keys [of "fst r" "snd r" out]
    by (simp add: split_def)
qed simp

lemma group_rows_distinct: "distinct (map fst out) \<Longrightarrow> distinct (map fst (group_rows rows out))"
  by (induction rows arbitrary: out) (auto simp: append_at_distinct split_def)

lemma group_rows_lookup:
  "or_else [] (map_of (group_rows rows out) t) = or_else [] (map_of out t) @ map snd (filter (\<lambda>r. fst r = t) rows)"
  by (induction rows arbitrary: out) (auto simp: append_at_lookup split_def)

definition spec_rows :: "openapi \<Rightarrow> (ustr \<times> entry) list" where
  "spec_rows spec = tagged_entries (or_else [] (oa_paths spec))"

lemma map_of_map_snd: "map_of (map (\<lambda>(k, x). (k, f x)) xs) k = map_option f (map_of xs k)"
  by (induction xs) auto

lemma by_tag_keys:
  "set (map fst (operations_by_tag spec)) = fst ` set (spec_rows spec) \<and> distinct (map fst (operations_by_tag spec))"
proof -
  have e: "map fst (operations_by_tag spec) = map fst (group_rows (spec_rows spec) [])"
    by (simp add: operations_by_tag_def spec_rows_def split_def)
  show ?thesis unfolding e using group_rows_keys [of "spec_rows spec" "[]"] group_rows_distinct [of "[]" "spec_rows spec"] by simp
qed

lemma by_tag_entries:
  "or_else [] (map_of (operations_by_tag spec) tag) = sort_key entry_key (map snd (filter (\<lambda>r. fst r = tag) (spec_rows spec)))"
proof -
  have "or_else [] (map_option (sort_key entry_key) v) = sort_key entry_key (or_else [] v)" for v
    by (cases v) simp_all
  then show ?thesis
    using group_rows_lookup [of "spec_rows spec" "[]" tag]
    by (simp add: operations_by_tag_def map_of_map_snd spec_rows_def)
qed

section \<open>Equal rows\<close>

type_synonym shown_row = "ustr \<times> (ustr \<times> nat) \<times> ustr"

definition shown :: "(ustr \<times> schema) list \<Rightarrow> ustr \<times> entry \<Rightarrow> shown_row" where
  "shown c r = (case r of (tag, path_name, method, op) \<Rightarrow>
     (tag, (path_name, index_of method_order method), render_operation path_name method op c))"

lemma shown_entries:
  "map (shown c) (tagged_entries paths) = concat (map (\<lambda>(path_name, item). concat (map (\<lambda>(method, op).
     if method \<notin> set method_order then []
     else map (\<lambda>tag. (tag, (path_name, index_of method_order method), render_operation path_name method op c)) (tags_of op)) item)) paths)"
  by (simp add: tagged_entries_def map_concat split_def shown_def comp_def if_distrib cong: if_cong)

lemma same_tags: "same_operation o1 o2 \<Longrightarrow> tags_of o1 = tags_of o2"
  by (simp add: same_operation_def tags_of_def)

lemma same_shown_entries:
  assumes "same_dict (same_dict same_operation) ps ps'" and c: "same_dict same_schema c c'"
  shows "mset (map (shown c) (tagged_entries ps)) = mset (map (shown c') (tagged_entries ps'))"
  unfolding shown_entries
  by (rule same_dict_concat [OF assms(1)], rule same_dict_concat, assumption)
    (simp add: same_tags same_render_operation [OF _ c])

lemma index_of_nth: "m \<in> set xs \<Longrightarrow> xs ! index_of xs m = m"
  by (induction xs) auto

text \<open>Within one tag the sort key determines the operation.\<close>

definition rows_keyed :: "(ustr \<times> entry) list \<Rightarrow> bool" where
  "rows_keyed rows \<longleftrightarrow> (\<forall>r \<in> set rows. \<forall>r' \<in> set rows. entry_key (snd r) = entry_key (snd r') \<longrightarrow> snd r = snd r')"

lemma tagged_entriesI:
  assumes "(p, item) \<in> set ps" "(m, op) \<in> set item" "tag \<in> set (tags_of op)" "m \<in> set method_order"
  shows "(tag, p, m, op) \<in> set (tagged_entries ps)"
proof -
  have "(tag, p, m, op) \<in> set ((\<lambda>(m, op). if m \<notin> set method_order then [] else map (\<lambda>tag. (tag, p, m, op)) (tags_of op)) (m, op))"
    using assms(3,4) by simp
  with assms(2) have "\<exists>x \<in> set item. (tag, p, m, op) \<in> set (case x of (m, op) \<Rightarrow>
      if m \<notin> set method_order then [] else map (\<lambda>tag. (tag, p, m, op)) (tags_of op))" by blast
  then have "\<exists>x \<in> set ps. (tag, p, m, op) \<in> set (case x of (p, item) \<Rightarrow> concat (map (\<lambda>(m, op).
      if m \<notin> set method_order then [] else map (\<lambda>tag. (tag, p, m, op)) (tags_of op)) item))"
    using assms(1) by (intro bexI [of _ "(p, item)"]) auto
  then show ?thesis unfolding tagged_entries_def set_concat set_map by blast
qed

lemma tagged_entries_keyed:
  assumes "distinct (map fst ps)" "\<forall>(p, item) \<in> set ps. distinct (map fst item)"
  shows "rows_keyed (tagged_entries ps)"
  unfolding rows_keyed_def
proof (intro ballI impI)
  fix r r'
  assume r: "r \<in> set (tagged_entries ps)" "r' \<in> set (tagged_entries ps)" and k: "entry_key (snd r) = entry_key (snd r')"
  from r(1) obtain tag p m o1 item where 1: "r = (tag, p, m, o1)" "(p, item) \<in> set ps" "(m, o1) \<in> set item" "m \<in> set method_order"
    by (auto simp: tagged_entries_def split: if_splits)
  from r(2) obtain tag' p' m' o2 item' where 2: "r' = (tag', p', m', o2)" "(p', item') \<in> set ps" "(m', o2) \<in> set item'" "m' \<in> set method_order"
    by (auto simp: tagged_entries_def split: if_splits)
  from k 1 2 have "p = p'" and i: "index_of method_order m = index_of method_order m'" by (simp_all add: entry_key_def)
  have m: "m = m'" using index_of_nth [OF 1(4)] index_of_nth [OF 2(4)] i by metis
  have i: "item = item'" by (rule eq_key_imp_eq_value [OF assms(1) 1(2)]) (simp add: 2(2) \<open>p = p'\<close>)
  have d: "distinct (map fst item)" using assms(2) 1(2) by blast
  have "o1 = o2" by (rule eq_key_imp_eq_value [OF d 1(3)]) (simp add: 2(3) m i)
  then show "snd r = snd r'" using 1(1) 2(1) \<open>p = p'\<close> m by simp
qed

definition tag_rows :: "(ustr \<times> schema) list \<Rightarrow> (ustr \<times> entry) list \<Rightarrow> ustr \<Rightarrow> ((ustr \<times> nat) \<times> ustr) list" where
  "tag_rows c rows tag = map snd (filter (\<lambda>r. fst r = tag) (map (shown c) rows))"

lemma tag_rows_eq:
  "tag_rows c rows tag = map (\<lambda>e. (entry_key e, render_operation (fst e) (fst (snd e)) (snd (snd e)) c)) (map snd (filter (\<lambda>r. fst r = tag) rows))"
  by (auto simp: tag_rows_def filter_map comp_def shown_def entry_key_def split_def)

lemma tag_section_rows:
  "tag_section c tag (sort_key entry_key (map snd (filter (\<lambda>r. fst r = tag) rows)))
    = (u ''## '' @ tag @ [10]) # concat (map (\<lambda>t. [t, []]) (map snd (sort_key fst (tag_rows c rows tag))))"
proof -
  let ?es = "map snd (filter (\<lambda>r. fst r = tag) rows)"
  let ?show = "\<lambda>e. render_operation (fst e) (fst (snd e)) (snd (snd e)) c"
  have "list_all2 (\<lambda>x y. ?show x = snd y \<and> entry_key x = fst y) ?es (tag_rows c rows tag)"
    unfolding tag_rows_eq by (simp add: list_all2_map2 list_all2_same del: map_map)
  note rows = same_sorted_rows [OF this]
  have "map (\<lambda>e. [?show e, []]) es = map (\<lambda>t. [t, []]) (map ?show es)" for es :: "entry list" by simp
  from this [of "sort_key entry_key ?es"] show ?thesis unfolding tag_section_def split_def rows by simp
qed

text \<open>Rows that are the same up to order, and keyed, sort alike.\<close>

lemma same_sorted_tag:
  assumes m: "mset (map (shown c) rows) = mset (map (shown c') rows')" and k: "rows_keyed rows"
  shows "sort_key fst (tag_rows c rows tag) = sort_key fst (tag_rows c' rows' tag)"
proof -
  have m: "mset (tag_rows c rows tag) = mset (tag_rows c' rows' tag)"
    unfolding tag_rows_def mset_map mset_filter m [unfolded mset_map] ..
  have inj: "inj_on fst (set (tag_rows c rows tag))"
  proof (rule inj_onI)
    fix x y assume "x \<in> set (tag_rows c rows tag)" "y \<in> set (tag_rows c rows tag)" "fst x = fst y"
    then obtain r r' where "r \<in> set rows" "r' \<in> set rows" "entry_key (snd r) = entry_key (snd r')"
      "x = (entry_key (snd r), render_operation (fst (snd r)) (fst (snd (snd r))) (snd (snd (snd r))) c)"
      "y = (entry_key (snd r'), render_operation (fst (snd r')) (fst (snd (snd r'))) (snd (snd (snd r'))) c)"
      by (auto simp: tag_rows_eq)
    moreover from this have "snd r = snd r'" using k by (auto simp: rows_keyed_def)
    ultimately show "x = y" by simp
  qed
  show ?thesis
    by (rule sort_key_inj_key_eq [OF _ inj sorted_sort_key]) (simp add: m)
qed

lemma same_dict_distinct: "same_dict R d d' \<Longrightarrow> distinct (map fst d)"
  by (simp add: same_dict_def)

lemma same_paths_keyed:
  assumes "same_dict (same_dict same_operation) ps ps'"
  shows "rows_keyed (tagged_entries ps)"
proof (rule tagged_entries_keyed [OF same_dict_distinct [OF assms]], clarify)
  fix p item assume "(p, item) \<in> set ps"
  then have "map_of ps p = Some item" using same_dict_distinct [OF assms] by simp
  with same_dict_lookup [OF assms, of p] obtain item' where "same_dict same_operation item item'"
    by (auto simp: option_rel_Some1)
  then show "distinct (map fst item)" by (rule same_dict_distinct)
qed

text \<open>The text of a document, with its parts named.\<close>

definition reference_parts :: "(ustr \<times> schema) list \<Rightarrow> (ustr \<times> entry) list \<Rightarrow> ustr list" where
  "reference_parts c rows =
     (let tags = sort (remdups (map fst rows))
      in [preamble, u ''## Table of contents'' @ [10]] @ map (\<lambda>tag. u ''- ['' @ tag @ u ''](#'' @ tag @ u '')'') tags @ [[]]
         @ concat (map (\<lambda>tag. (u ''## '' @ tag @ [10]) # concat (map (\<lambda>t. [t, []]) (map snd (sort_key fst (tag_rows c rows tag))))) tags))"

lemma render_markdown_parts:
  "render_markdown spec =
     (if spec_rows spec = [] then preamble @ [10] @ u ''_(no endpoints registered)_'' @ [10]
      else rstrip (join [10] (reference_parts (or_else [] (oa_schemas spec)) (spec_rows spec))) @ [10])"
proof -
  note keys = by_tag_keys [of spec]
  have empty: "operations_by_tag spec = [] \<longleftrightarrow> spec_rows spec = []" using keys by auto
  have tags: "sort (map fst (operations_by_tag spec)) = sort (remdups (map fst (spec_rows spec)))"
    by (rule sorted_distinct_set_unique) (use keys in simp_all)
  show ?thesis
    unfolding render_markdown_def Let_def empty tags by_tag_entries tag_section_rows reference_parts_def by simp
qed

lemma same_openapi_text:
  assumes "same_openapi s s'"
  shows "render_markdown s = render_markdown s'"
proof -
  let ?c = "or_else [] (oa_schemas s)" and ?c' = "or_else [] (oa_schemas s')"
  let ?ps = "or_else [] (oa_paths s)" and ?ps' = "or_else [] (oa_paths s')"
  have c: "same_dict same_schema ?c ?c'" and ps: "same_dict (same_dict same_operation) ?ps ?ps'"
    using assms by (auto simp: same_openapi_def intro: or_else_rel [where R = "same_dict same_schema"]
        or_else_rel [where R = "same_dict (same_dict same_operation)"])
  have m: "mset (map (shown ?c) (spec_rows s)) = mset (map (shown ?c') (spec_rows s'))"
    unfolding spec_rows_def by (rule same_shown_entries [OF ps c])
  then have "fst ` set (map (shown ?c) (spec_rows s)) = fst ` set (map (shown ?c') (spec_rows s'))"
    by (metis set_mset_mset)
  then have "set (map fst (spec_rows s)) = set (map fst (spec_rows s'))"
    by (simp add: image_image shown_def split_def)
  then have tags: "sort (remdups (map fst (spec_rows s))) = sort (remdups (map fst (spec_rows s')))"
    by (intro sorted_distinct_set_unique) simp_all
  have rows: "sort_key fst (tag_rows ?c (spec_rows s) tag) = sort_key fst (tag_rows ?c' (spec_rows s') tag)" for tag
    by (rule same_sorted_tag [OF m]) (simp add: spec_rows_def same_paths_keyed [OF ps])
  have "spec_rows s = [] \<longleftrightarrow> spec_rows s' = []" using m by (metis Nil_is_map_conv mset_zero_iff)
  then show ?thesis unfolding render_markdown_parts reference_parts_def Let_def tags rows by simp
qed

section \<open>Every operation is in the text\<close>

lemma join_Cons: "xs \<noteq> [] \<Longrightarrow> join sep (x # xs) = x @ sep @ join sep xs"
  by (cases xs) simp_all

lemma join_from: "ys \<noteq> [] \<Longrightarrow> \<exists>before. join sep (xs @ ys) = before @ join sep ys"
proof (induction xs)
  case (Cons x xs)
  then obtain before where "join sep (xs @ ys) = before @ join sep ys" by auto
  with Cons.prems have "join sep ((x # xs) @ ys) = (x @ sep @ before) @ join sep ys" by (simp add: join_Cons)
  then show ?case by blast
qed auto

lemma join_part: "x \<in> set parts \<Longrightarrow> \<exists>before after. join sep parts = before @ x @ after \<and> (after = [] \<or> (\<exists>r. after = sep @ r))"
proof -
  assume "x \<in> set parts"
  then obtain ps qs where parts: "parts = ps @ x # qs" by (meson split_list)
  have "\<exists>after. join sep (x # qs) = x @ after \<and> (after = [] \<or> (\<exists>r. after = sep @ r))"
    by (cases "qs = []") (auto simp: join_Cons)
  moreover obtain before where "join sep parts = before @ join sep (x # qs)" using join_from [of "x # qs" sep ps] parts by auto
  ultimately show ?thesis by auto
qed

lemma rstrip_keeps: "core \<noteq> [] \<Longrightarrow> \<not> isspace (last core) \<Longrightarrow> \<exists>rest rest'. rstrip (before @ core @ after) = before @ core @ rest \<and> after = rest @ rest'"
proof -
  assume c: "core \<noteq> []" "\<not> isspace (last core)"
  then obtain l init where l: "rev core = l # init" "\<not> isspace l" by (metis hd_rev list.exhaust_sel rev_is_Nil_conv)
  have "dropWhile isspace (rev after @ rev core @ rev before)
      = dropWhile isspace (rev after) @ rev core @ rev before"
  proof (cases "\<forall>x \<in> set after. isspace x")
    case True
    then have "dropWhile isspace (rev after) = []" by (simp add: dropWhile_eq_Nil_conv)
    then show ?thesis using True l by (simp add: dropWhile_append)
  next
    case False
    then show ?thesis by (auto simp: dropWhile_append)
  qed
  then have "rstrip (before @ core @ after) = before @ core @ rev (dropWhile isspace (rev after))" by (simp add: rstrip_def)
  moreover have "after = rev (dropWhile isspace (rev after)) @ rev (takeWhile isspace (rev after))"
    by (metis rev_append rev_rev_ident takeWhile_dropWhile_id)
  ultimately show ?thesis by blast
qed

lemma rstrip_last: "rstrip s \<noteq> [] \<Longrightarrow> \<not> isspace (last (rstrip s))"
  using hd_dropWhile [of isspace "rev s"] by (auto simp: rstrip_def last_rev)


definition operation_core :: "ustr \<Rightarrow> ustr \<Rightarrow> operation \<Rightarrow> (ustr \<times> schema) list \<Rightarrow> ustr" where
  "operation_core path_name method op c = butlast (render_operation path_name method op c)"

lemma operation_core:
  "render_operation path_name method op c = operation_core path_name method op c @ [10]"
  "operation_core path_name method op c \<noteq> []" "\<not> isspace (last (operation_core path_name method op c))"
proof -
  have "\<exists>rest. operation_core path_name method op c = rstrip (join [10] (operation_title path_name method # [] # rest))"
    unfolding operation_core_def render_operation_def Let_def butlast_snoc append_Cons append_Nil by blast
  then obtain rest where r: "operation_core path_name method op c = rstrip (join [10] (operation_title path_name method # [] # rest))"
    by blast
  have "35 \<in> set (operation_title path_name method)" by (simp add: operation_title_def u_def)
  then have "35 \<in> set (join [10] (operation_title path_name method # [] # rest))" by (simp add: join_Cons)
  moreover have "\<not> isspace 35" by (simp add: isspace_def)
  ultimately have ne: "rstrip (join [10] (operation_title path_name method # [] # rest)) \<noteq> []"
    by (auto simp: rstrip_def dropWhile_eq_Nil_conv)
  then show "operation_core path_name method op c \<noteq> []" "\<not> isspace (last (operation_core path_name method op c))"
    using rstrip_last by (simp_all add: r)
  show "render_operation path_name method op c = operation_core path_name method op c @ [10]"
    by (simp add: operation_core_def render_operation_def Let_def)
qed

lemma operation_in_text:
  assumes r: "(tag, path_name, method, op) \<in> set (spec_rows spec)"
  shows "\<exists>before between after. render_markdown spec =
    before @ (u ''## '' @ tag @ [10]) @ between @ render_operation path_name method op (or_else [] (oa_schemas spec)) @ after"
proof -
  let ?c = "or_else [] (oa_schemas spec)" and ?rows = "spec_rows spec"
  let ?tags = "sort (remdups (map fst ?rows))" and ?h = "u ''## '' @ tag @ [10]"
  let ?ops = "\<lambda>tag. concat (map (\<lambda>t. [t, []]) (map snd (sort_key fst (tag_rows ?c ?rows tag))))"
  let ?op = "render_operation path_name method op ?c" and ?core = "operation_core path_name method op ?c"
  have "tag \<in> set ?tags" using r by force
  then obtain ts ts' where ts: "?tags = ts @ tag # ts'" by (meson split_list)
  let ?f = "\<lambda>tag. (u ''## '' @ tag @ [10]) # ?ops tag"
  define ps where "ps = [preamble, u ''## Table of contents'' @ [10]]
      @ map (\<lambda>tag. u ''- ['' @ tag @ u ''](#'' @ tag @ u '')'') (ts @ tag # ts') @ [[]] @ concat (map ?f ts)"
  define qs where "qs = concat (map ?f ts')"
  have parts: "reference_parts ?c ?rows = ps @ ?h # ?ops tag @ qs"
    unfolding reference_parts_def Let_def ts ps_def qs_def by simp
  have op: "?op \<in> set (?ops tag @ qs)" using r by (force simp: tag_rows_eq)
  then obtain between after where oq: "join [10] (?ops tag @ qs) = between @ ?op @ after" using join_part by blast
  moreover obtain before where "join [10] (reference_parts ?c ?rows) = before @ join [10] (?h # ?ops tag @ qs)"
    using join_from [of "?h # ?ops tag @ qs" "[10]" ps] parts by auto
  moreover have "?ops tag @ qs \<noteq> []" using op by (metis empty_iff list.set(1))
  ultimately have "join [10] (reference_parts ?c ?rows) = (before @ ?h @ [10] @ between) @ ?core @ [10] @ after"
    by (simp add: join_Cons operation_core(1))
  with rstrip_keeps [OF operation_core(2,3), of "before @ ?h @ [10] @ between" "path_name" "method" "op" ?c "[10] @ after"]
  obtain rest rest' where "rstrip (join [10] (reference_parts ?c ?rows)) = (before @ ?h @ [10] @ between) @ ?core @ rest"
    "[10] @ after = rest @ rest'" by auto
  then have "\<exists>a. rstrip (join [10] (reference_parts ?c ?rows)) @ [10] = (before @ ?h @ [10] @ between) @ ?op @ a"
    by (cases rest) (auto simp: operation_core(1))
  moreover have "render_markdown spec = rstrip (join [10] (reference_parts ?c ?rows)) @ [10]"
    using r by (auto simp: render_markdown_parts)
  ultimately show ?thesis by (metis append.assoc)
qed

section \<open>Runs\<close>

lemma universal_newlines_id: "13 \<notin> set s \<Longrightarrow> universal_newlines s = s"
  by (induction s) auto

lemma bootstrap_required:
  assumes "\<forall>k \<in> set required_vars. env k \<noteq> Some []" "private \<noteq> []" "public \<noteq> []" "k \<in> set required_vars"
  shows "bootstrap_env private public env k \<noteq> None \<and> bootstrap_env private public env k \<noteq> Some []"
proof (cases "env k")
  case None
  then show ?thesis using assms(2-4) by (auto simp: bootstrap_env_def required_vars_def)
next
  case (Some v)
  then show ?thesis using assms(1,4) by (auto simp: bootstrap_env_def)
qed

lemma create_app_settings:
  "load_settings env = Inr s \<Longrightarrow> create_app hex cors router env =
     Inr (request_context hex (if cors_origins env \<noteq> [] then cors (cors_origins env) (cors_friendly_errors router)
       else cors_friendly_errors router))"
  by (auto simp: create_app_def load_settings_def bindE_eq_Inr Let_def)

text \<open>The application does not depend on the keys the script makes up.\<close>

lemma factory_total:
  assumes "\<forall>k \<in> set required_vars. env k \<noteq> Some []"
  obtains app where "\<And>priv pub. priv \<noteq> [] \<Longrightarrow> pub \<noteq> [] \<Longrightarrow>
    create_app hex cors router (bootstrap_env priv pub env) = Inr app"
proof -
  define os where "os = cors_origins (bootstrap_env [] [] env)"
  have origins: "cors_origins (bootstrap_env priv pub env) = os" for priv pub
    unfolding os_def by (cases "env ''HORIZONS_CORS_ORIGINS''") (simp_all add: cors_origins_def bootstrap_env_def)
  have "create_app hex cors router (bootstrap_env priv pub env) =
      Inr (request_context hex (if os \<noteq> [] then cors os (cors_friendly_errors router) else cors_friendly_errors router))"
    if "priv \<noteq> []" "pub \<noteq> []" for priv pub
  proof -
    obtain s where "load_settings (bootstrap_env priv pub env) = Inr s"
      using load_settings_total bootstrap_required [OF assms \<open>priv \<noteq> []\<close> \<open>pub \<noteq> []\<close>] by metis
    from create_app_settings [OF this] show ?thesis unfolding origins .
  qed
  with that show thesis by blast
qed

lemma regen_run:
  assumes f: "factory (bootstrap_env (fst keys) (snd keys) env) = Inr app"
    and text_ok: "13 \<notin> set (render_markdown (openapi_of app))" "\<forall>c \<in> set (render_markdown (openapi_of app)). \<not> surrogate c"
  shows "''--check'' \<notin> set argv \<Longrightarrow> da_directory d \<Longrightarrow> regen_main keys factory openapi_of env argv d
      = (d\<lparr>da_endpoints := Some (render_markdown (openapi_of app))\<rparr>, Inr 0)"
    and "''--check'' \<in> set argv \<Longrightarrow> regen_main keys factory openapi_of env argv d
      = (d, Inr (if da_directory d \<and> map_option universal_newlines (da_endpoints d) = Some (render_markdown (openapi_of app))
          then 0 else 1))"
proof -
  have ne: "render_markdown spec \<noteq> []" for spec by (simp add: render_markdown_parts)
  show "''--check'' \<notin> set argv \<Longrightarrow> da_directory d \<Longrightarrow> regen_main keys factory openapi_of env argv d
      = (d\<lparr>da_endpoints := Some (render_markdown (openapi_of app))\<rparr>, Inr 0)"
    using f text_ok by (auto simp: regen_main_def write_text_def)
  show "''--check'' \<in> set argv \<Longrightarrow> regen_main keys factory openapi_of env argv d
      = (d, Inr (if da_directory d \<and> map_option universal_newlines (da_endpoints d) = Some (render_markdown (openapi_of app))
          then 0 else 1))"
    using f ne [of "openapi_of app"] by (cases "da_endpoints d") (auto simp: regen_main_def Let_def)
qed

end
