(* ===== verification/Fetch.thy ===== *)
theory Fetch
  imports Curated Json "HOL-Library.AList"
begin

text \<open>
  \<open>scripts/fetch_fixtures.py\<close>: sample documents fetched from the upstream API into \<open>data/samples\<close>. httpx, the
  clock, Unicode lower case and the texts of numbers, lists and dicts are parameters; a response body is the JSON
  value it holds. Values that the API documents as texts are read as texts. The sample directory is the list of
  its files; a JSON file is the value it holds.
\<close>

section \<open>Requests\<close>

datatype call =
    Post_login ustr ustr ustr
  | Get_json ustr ustr "(ustr \<times> ustr) list"

datatype answer = Timed_out | Broken | Answer int "json option"

datatype fetch_error =
    Timeout
  | Transport
  | Bad_status int
  | Not_json
  | Os_error
  | Encode_error
  | Py exn

type_synonym ('w, 'a) io = "'w \<Rightarrow> 'w \<times> (fetch_error + 'a)"

definition bindS :: "('w, 'a) io \<Rightarrow> ('a \<Rightarrow> ('w, 'b) io) \<Rightarrow> ('w, 'b) io" where
  "bindS m f w = (case m w of (w1, Inl e) \<Rightarrow> (w1, Inl e) | (w1, Inr x) \<Rightarrow> f x w1)"

definition pureS :: "fetch_error + 'a \<Rightarrow> ('w, 'a) io" where
  "pureS r w = (w, r)"

definition py :: "'a result \<Rightarrow> fetch_error + 'a" where
  "py r = (case r of Inl e \<Rightarrow> Inl (Py e) | Inr x \<Rightarrow> Inr x)"

record 'w fetch_env =
  fe_send :: "call \<Rightarrow> 'w \<Rightarrow> 'w \<times> answer"
  fe_time :: "'w \<Rightarrow> rat"
  fe_stamp :: "'w \<Rightarrow> ustr"
  fe_int :: "ustr \<Rightarrow> int option"
  fe_show :: "json \<Rightarrow> ustr"
  fe_lower :: "ustr \<Rightarrow> ustr"

text \<open>\<open>client.get\<close> and \<open>client.post\<close>: an answer of any status, or an exception.\<close>

definition send :: "'w fetch_env \<Rightarrow> call \<Rightarrow> ('w, int \<times> json option) io" where
  "send env c w =
     (case fe_send env c w of
        (w1, Timed_out) \<Rightarrow> (w1, Inl Timeout)
      | (w1, Broken) \<Rightarrow> (w1, Inl Transport)
      | (w1, Answer status body) \<Rightarrow> (w1, Inr (status, body)))"

definition raise_for_status :: "int \<times> json option \<Rightarrow> fetch_error + unit" where
  "raise_for_status resp = (if 200 \<le> fst resp \<and> fst resp < 300 then Inr () else Inl (Bad_status (fst resp)))"

definition resp_json :: "int \<times> json option \<Rightarrow> fetch_error + json" where
  "resp_json resp = (case snd resp of None \<Rightarrow> Inl Not_json | Some v \<Rightarrow> Inr v)"

section \<open>JSON values in Python\<close>

text \<open>\<open>v.get\<close> on a value of any type.\<close>

definition as_dict :: "json \<Rightarrow> (ustr \<times> json) list result" where
  "as_dict v = (case v of JObj d \<Rightarrow> Inr d | _ \<Rightarrow> Inl AttributeError)"

text \<open>\<open>resp.json().get("data", [])\<close>.\<close>

definition payload_data :: "int \<times> json option \<Rightarrow> fetch_error + json" where
  "payload_data resp =
     bindE (resp_json resp) (\<lambda>v. py (bindE (as_dict v) (\<lambda>d.
       Inr (case map_of d (u ''data'') of None \<Rightarrow> JList [] | Some x \<Rightarrow> x))))"

text \<open>\<open>for x in v\<close>.\<close>

definition py_iter :: "json \<Rightarrow> json list result" where
  "py_iter v =
     (case v of
        JList xs \<Rightarrow> Inr xs
      | JObj d \<Rightarrow> Inr (map (\<lambda>(k, x). JStr k) d)
      | JStr s \<Rightarrow> Inr (map (\<lambda>c. JStr [c]) s)
      | _ \<Rightarrow> Inl TypeError)"

text \<open>\<open>v[0]\<close> of a value that is true.\<close>

definition index0 :: "json \<Rightarrow> json result" where
  "index0 v =
     (case v of
        JList xs \<Rightarrow> (case xs of [] \<Rightarrow> Inl IndexError | x # _ \<Rightarrow> Inr x)
      | JStr s \<Rightarrow> (case s of [] \<Rightarrow> Inl IndexError | c # _ \<Rightarrow> Inr (JStr [c]))
      | JObj d \<Rightarrow> Inl KeyError
      | _ \<Rightarrow> Inl TypeError)"

text \<open>\<open>d.get(k) or ""\<close> as a text; \<open>err\<close> is the exception that a value of another type leads to.\<close>

definition get_text :: "exn \<Rightarrow> (ustr \<times> json) list \<Rightarrow> ustr \<Rightarrow> ustr result" where
  "get_text err d k =
     (let v = get_key d k
      in if truthy v then (case v of JStr s \<Rightarrow> Inr s | _ \<Rightarrow> Inl err) else Inr [])"

fun digits_of :: "nat \<Rightarrow> ustr" where
  "digits_of n = (if n < 10 then [48 + n] else digits_of (n div 10) @ [48 + n mod 10])"

declare digits_of.simps [simp del]

definition int_text :: "int \<Rightarrow> ustr" where
  "int_text i = (if i < 0 then 45 # digits_of (nat (- i)) else digits_of (nat i))"

text \<open>\<open>str(v)\<close>.\<close>

definition py_str :: "'w fetch_env \<Rightarrow> json \<Rightarrow> ustr" where
  "py_str env v =
     (case v of
        JStr s \<Rightarrow> s | JInt i \<Rightarrow> int_text i
      | JBool b \<Rightarrow> (if b then u ''True'' else u ''False'') | JNull \<Rightarrow> u ''None''
      | _ \<Rightarrow> fe_show env v)"

section \<open>Login\<close>

record token =
  tk_bearer :: ustr
  tk_expires :: rat
  tk_email :: ustr
  tk_password :: ustr
  tk_auth_url :: ustr

text \<open>\<open>payload.get(k)\<close> when it is a dict, else the payload itself.\<close>

definition inner_dict :: "(ustr \<times> json) list \<Rightarrow> ustr \<Rightarrow> (ustr \<times> json) list" where
  "inner_dict d k = (case get_key d k of JObj x \<Rightarrow> x | _ \<Rightarrow> d)"

definition login_blob :: "(ustr \<times> json) list \<Rightarrow> (ustr \<times> json) list" where
  "login_blob d = inner_dict (inner_dict d (u ''data'')) (u ''token'')"

definition login_bearer :: "(ustr \<times> json) list \<Rightarrow> ustr result" where
  "login_bearer d =
     (let blob = login_blob d
      in case py_or (get_key blob (u ''refresh_token''))
                (py_or (get_key blob (u ''access_token'')) (get_key blob (u ''token''))) of
           JStr b \<Rightarrow> Inr b
         | _ \<Rightarrow> Inl RuntimeError)"

definition login_token :: "'w fetch_env \<Rightarrow> json \<Rightarrow> fetch_error + ustr \<times> int" where
  "login_token env payload =
     py (bindE (as_dict payload) (\<lambda>d.
       bindE (login_bearer d) (\<lambda>b.
       bindE (py_int (fe_int env)
           (py_or (get_key (login_blob d) (u ''expires_in'')) (py_or (get_key (inner_dict d (u ''data'')) (u ''expires_in''))
             (py_or (get_key d (u ''expires_in'')) (JInt 1800)))))
         (\<lambda>e. Inr (b, e)))))"

definition script_login :: "'w fetch_env \<Rightarrow> ustr \<Rightarrow> ustr \<Rightarrow> ustr \<Rightarrow> ('w, token) io" where
  "script_login env email password auth_url =
     bindS (send env (Post_login auth_url email password)) (\<lambda>resp.
     bindS (pureS (raise_for_status resp)) (\<lambda>_.
     bindS (pureS (bindE (resp_json resp) (login_token env))) (\<lambda>(b, e) w.
       (w, Inr \<lparr>tk_bearer = b, tk_expires = fe_time env w + of_int e, tk_email = email, tk_password = password,
                tk_auth_url = auth_url\<rparr>))))"

definition near_expiry :: "'w fetch_env \<Rightarrow> token \<Rightarrow> 'w \<Rightarrow> bool" where
  "near_expiry env tok w \<longleftrightarrow> tk_expires tok - 60 \<le> fe_time env w"

definition maybe_refresh :: "'w fetch_env \<Rightarrow> token \<Rightarrow> ('w, token) io" where
  "maybe_refresh env tok w =
     (if near_expiry env tok w then script_login env (tk_email tok) (tk_password tok) (tk_auth_url tok) w else (w, Inr tok))"

definition authed_get ::
  "'w fetch_env \<Rightarrow> token \<Rightarrow> ustr \<Rightarrow> ustr \<Rightarrow> (ustr \<times> ustr) list \<Rightarrow> ('w, token \<times> (int \<times> json option)) io" where
  "authed_get env tok base path_name ps =
     bindS (maybe_refresh env tok) (\<lambda>tok1.
     bindS (send env (Get_json (base @ path_name) (tk_bearer tok1) ps)) (\<lambda>resp. pureS (Inr (tok1, resp))))"

text \<open>\<open>_get_with_retry\<close> with the given number of retries: only a timeout is tried again, the login's as well.\<close>

fun get_with_retry ::
  "'w fetch_env \<Rightarrow> token \<Rightarrow> ustr \<Rightarrow> ustr \<Rightarrow> nat \<Rightarrow> (ustr \<times> ustr) list \<Rightarrow> ('w, token \<times> (int \<times> json option) option) io" where
  "get_with_retry env tok base path_name retries ps w =
     (case authed_get env tok base path_name ps w of
        (w1, Inr (tok1, resp)) \<Rightarrow> (w1, Inr (tok1, Some resp))
      | (w1, Inl Timeout) \<Rightarrow>
          (case retries of 0 \<Rightarrow> (w1, Inr (tok, None)) | Suc n \<Rightarrow> get_with_retry env tok base path_name n ps w1)
      | (w1, Inl e) \<Rightarrow> (w1, Inl e))"

declare get_with_retry.simps [simp del]

section \<open>The sample directory\<close>

datatype content = Text_file ustr | Json_file json | Other_file

type_synonym sample_dir = "(ustr \<times> content) list"

text \<open>
  \<open>path.write_text\<close> in the directory. A name with a slash leads to a directory that is not there; an unencodable
  text leaves the file empty. JSON files are ASCII.
\<close>

definition unencodable :: "ustr \<Rightarrow> bool" where
  "unencodable s \<longleftrightarrow> (\<exists>c \<in> set s. surrogate c)"

definition bad_name :: "ustr \<Rightarrow> bool" where
  "bad_name name \<longleftrightarrow> 47 \<in> set name \<or> 0 \<in> set name \<or> unencodable name"

definition write_sample :: "ustr \<Rightarrow> content \<Rightarrow> sample_dir \<Rightarrow> sample_dir \<times> (fetch_error + unit)" where
  "write_sample name c dir =
     (if bad_name name then (dir, Inl Os_error)
      else case c of
             Text_file s \<Rightarrow>
               if unencodable s then (AList.update name (Text_file []) dir, Inl Encode_error)
               else (AList.update name c dir, Inr ())
           | _ \<Rightarrow> (AList.update name c dir, Inr ()))"

text \<open>\<open>{p.stem for p in SAMPLES_DIR.glob("*.md")}\<close>; a hidden file \<open>.md\<close> has itself as stem.\<close>

definition md_suffix :: ustr where
  "md_suffix = u ''.md''"

definition is_md :: "ustr \<Rightarrow> bool" where
  "is_md name \<longleftrightarrow> 3 \<le> length name \<and> drop (length name - 3) name = md_suffix"

definition stem :: "ustr \<Rightarrow> ustr" where
  "stem name = (if length name = 3 then name else take (length name - 3) name)"

definition md_stems :: "sample_dir \<Rightarrow> ustr list" where
  "md_stems dir = map stem (filter is_md (map fst dir))"

text \<open>The length of the UTF-8 encoding, \<open>round(size / 1024, 1)\<close> with ties to even, and the entry of the index.\<close>

definition utf8_width :: "nat \<Rightarrow> nat" where
  "utf8_width c = (if c < 128 then 1 else if c < 2048 then 2 else if c < 65536 then 3 else 4)"

definition utf8_length :: "ustr \<Rightarrow> nat" where
  "utf8_length s = sum_list (map utf8_width s)"

definition kilobytes :: "nat \<Rightarrow> json" where
  "kilobytes n = JNum (Fin (of_int (round_half_even (of_nat n / 1024 * 10)) / 10))"

definition value_or_empty :: "(ustr \<times> json) list \<Rightarrow> ustr \<Rightarrow> json" where
  "value_or_empty d k = py_or (get_key d k) (JStr [])"

definition index_entry ::
  "ustr \<Rightarrow> ustr \<Rightarrow> ustr \<Rightarrow> ustr \<Rightarrow> json \<Rightarrow> (ustr \<times> json) list \<Rightarrow> nat \<Rightarrow> ustr \<Rightarrow> (ustr \<times> json) list" where
  "index_entry iso_code portal_url portal_name document_id version meta size_bytes slug =
     [(u ''iso'', JStr iso_code), (u ''portal_url'', JStr portal_url), (u ''portal_name'', JStr portal_name),
      (u ''document_id'', JStr document_id), (u ''version'', version), (u ''title'', value_or_empty meta (u ''title'')),
      (u ''type_of_authority'', value_or_empty meta (u ''type_of_authority'')), (u ''language'', value_or_empty meta (u ''language'')),
      (u ''markdown_kb'', kilobytes size_bytes),
      (u ''files'', JObj [(u ''markdown'', JStr (slug @ md_suffix)), (u ''meta'', JStr (slug @ u ''.meta.json''))])]"

definition slug_of :: "'w fetch_env \<Rightarrow> ustr \<Rightarrow> ustr \<Rightarrow> json \<Rightarrow> ustr" where
  "slug_of env iso_code document_id version =
     fe_lower env iso_code @ [45] @ document_id @ u ''-v'' @ py_str env version"

text \<open>The JSON text of the metadata, with \<open>_provenance\<close> before it; a key of the metadata takes precedence.\<close>

definition with_provenance :: "(ustr \<times> json) list \<Rightarrow> (ustr \<times> json) list \<Rightarrow> json" where
  "with_provenance provenance meta =
     JObj (fold (\<lambda>(k, v). AList.update k v) meta [(u ''_provenance'', JObj provenance)])"

definition query_text :: "ustr \<Rightarrow> ustr \<Rightarrow> ustr \<Rightarrow> ustr \<Rightarrow> nat \<Rightarrow> ustr" where
  "query_text base path_name iso_code portal_url limit =
     u ''GET '' @ base @ path_name @ u ''?iso='' @ iso_code @ u ''&portal='' @ portal_url @ u ''&limit='' @ digits_of limit"

definition provenance_of :: "ustr \<Rightarrow> ustr \<Rightarrow> ustr \<Rightarrow> ustr \<Rightarrow> ustr \<Rightarrow> nat \<Rightarrow> (ustr \<times> json) list" where
  "provenance_of stamp base iso_code portal_url portal_name limit =
     [(u ''fetched_at'', JStr stamp),
      (u ''endpoint_metadata'', JStr (query_text base (u ''/contents'') iso_code portal_url limit)),
      (u ''endpoint_markdown'', JStr (query_text base (u ''/contents/markdown'') iso_code portal_url limit)),
      (u ''portal_name'', JStr portal_name)]"

text \<open>The two files of a document: the Markdown first, then the metadata.\<close>

definition write_pair :: "ustr \<Rightarrow> ustr \<Rightarrow> json \<Rightarrow> sample_dir \<Rightarrow> sample_dir \<times> (fetch_error + unit)" where
  "write_pair slug md meta dir =
     (case write_sample (slug @ md_suffix) (Text_file md) dir of
        (dir1, Inl e) \<Rightarrow> (dir1, Inl e)
      | (dir1, Inr _) \<Rightarrow> write_sample (slug @ u ''.meta.json'') (Json_file meta) dir1)"

definition default_api_url :: ustr where "default_api_url = u ''https://api.lawstronaut.com/v2''"

definition default_auth_url :: ustr where "default_auth_url = u ''https://filerskeepersapi.co/auth/login''"

definition target_count :: nat where "target_count = 30"

section \<open>Jurisdictions and portals\<close>

definition fetch_jurisdictions :: "'w fetch_env \<Rightarrow> token \<Rightarrow> ustr \<Rightarrow> ('w, token \<times> json) io" where
  "fetch_jurisdictions env tok base =
     bindS (authed_get env tok base (u ''/jurisdictions'') []) (\<lambda>(tok1, resp).
     pureS (bindE (raise_for_status resp) (\<lambda>_. bindE (payload_data resp) (\<lambda>data. Inr (tok1, data)))))"

definition fetch_portals_for_iso :: "'w fetch_env \<Rightarrow> token \<Rightarrow> ustr \<Rightarrow> ustr \<Rightarrow> ('w, token \<times> json) io" where
  "fetch_portals_for_iso env tok base iso_code =
     bindS (authed_get env tok base (u ''/portals'') [(u ''iso'', iso_code)]) (\<lambda>(tok1, resp).
     pureS (if fst resp \<noteq> 200 then Inr (tok1, JList []) else bindE (payload_data resp) (\<lambda>data. Inr (tok1, data))))"

type_synonym jobj = "(ustr \<times> json) list"

text \<open>\<open>p["_iso"] = iso\<close> on every portal of the page.\<close>

definition tag_portals :: "ustr \<Rightarrow> json \<Rightarrow> jobj list result" where
  "tag_portals iso_code page =
     bindE (py_iter page) (mapE (\<lambda>p. case p of JObj d \<Rightarrow> Inr (AList.update (u ''_iso'') (JStr iso_code) d) | _ \<Rightarrow> Inl TypeError))"

fun fetch_all_portals :: "'w fetch_env \<Rightarrow> token \<Rightarrow> ustr \<Rightarrow> ustr list \<Rightarrow> ('w, token \<times> jobj list) io" where
  "fetch_all_portals env tok base [] = pureS (Inr (tok, []))"
| "fetch_all_portals env tok base (iso_code # isos) =
     bindS (fetch_portals_for_iso env tok base iso_code) (\<lambda>(tok1, page).
     bindS (pureS (py (tag_portals iso_code page))) (\<lambda>ps.
     bindS (fetch_all_portals env tok1 base isos) (\<lambda>(tok2, rest). pureS (Inr (tok2, ps @ rest)))))"

text \<open>Name and code of a jurisdiction, stripped; and the two passes that fill the mapping.\<close>

definition name_and_iso :: "json \<Rightarrow> (jobj \<times> ustr \<times> ustr) result" where
  "name_and_iso j =
     bindE (as_dict j) (\<lambda>d.
     bindE (get_text AttributeError d (u ''name'')) (\<lambda>name.
     bindE (get_text AttributeError d (u ''iso'')) (\<lambda>iso_code. Inr (d, strip name, strip iso_code))))"

definition country_to_iso :: "json \<Rightarrow> (ustr \<rightharpoonup> ustr) result" where
  "country_to_iso jurisdictions =
     bindE (py_iter jurisdictions) (\<lambda>js.
     bindE (mapE name_and_iso js) (\<lambda>rows.
       let first = fold (\<lambda>(d, name, iso_code) m.
             if name = [] \<or> iso_code = [] then m
             else if get_key d (u ''type'') = JStr (u ''country'') then m(name \<mapsto> iso_code) else m) rows Map.empty
       in Inr (fold (\<lambda>(d, name, iso_code) m.
             if name \<noteq> [] \<and> iso_code \<noteq> [] \<and> m name = None then m(name \<mapsto> iso_code) else m) rows first)))"

text \<open>\<open>sorted({j["iso"] ...})\<close>; the codes are texts, or \<open>country_to_iso\<close> has raised.\<close>

definition country_isos :: "json \<Rightarrow> ustr list result" where
  "country_isos jurisdictions =
     bindE (py_iter jurisdictions) (\<lambda>js.
     bindE (mapE (\<lambda>j. bindE (as_dict j) (\<lambda>d. bindE (get_text TypeError d (u ''iso'')) (\<lambda>iso_code.
         Inr (if iso_code \<noteq> [] \<and> get_key d (u ''type'') = JStr (u ''country'') then [iso_code] else [])))) js)
       (\<lambda>xss. Inr (sort (remdups (concat xss)))))"

section \<open>The pairs to sample\<close>

type_synonym pick = "ustr \<times> ustr \<times> ustr"

definition iso_of_portal :: "(ustr \<rightharpoonup> ustr) \<Rightarrow> jobj \<Rightarrow> ustr result" where
  "iso_of_portal iso_map p =
     bindE (get_text TypeError p (u ''_iso'')) (\<lambda>iso_code.
       if iso_code \<noteq> [] then Inr iso_code
       else
         bindE (if truthy (get_key p (u ''jurisdiction'')) then as_dict (get_key p (u ''jurisdiction'')) else Inr []) (\<lambda>d.
         bindE (get_text AttributeError d (u ''country'')) (\<lambda>country.
           Inr (case iso_map (strip country) of None \<Rightarrow> [] | Some i \<Rightarrow> i))))"

text \<open>
  A url or a name that is true but no text is refused at once; the code refuses it where it compares it with another.
\<close>

definition portal_row :: "(ustr \<Rightarrow> ustr) \<Rightarrow> (ustr \<rightharpoonup> ustr) \<Rightarrow> jobj \<Rightarrow> (ustr \<times> nat \<times> ustr \<times> ustr) option result" where
  "portal_row lower iso_map p =
     bindE (iso_of_portal iso_map p) (\<lambda>iso_code.
     bindE (get_text TypeError p (u ''url'')) (\<lambda>portal_url.
     bindE (get_text TypeError p (u ''name'')) (\<lambda>name.
       if iso_code = [] \<or> portal_url = [] then Inr None
       else
         bindE (get_text AttributeError p (u ''language'')) (\<lambda>language.
           Inr (Some (iso_code, if lower language = u ''english'' then 0 else 1, portal_url,
                      if name = [] then portal_url else name))))))"

text \<open>One turn of the \<open>for\<close> loop over the codes, with its \<open>continue\<close> and \<open>break\<close>; then the \<open>while\<close> loop.\<close>

type_synonym queues = "(ustr \<times> (ustr \<times> ustr) list) list"

fun pick_turn :: "nat \<Rightarrow> queues \<Rightarrow> pick list \<Rightarrow> queues \<times> pick list" where
  "pick_turn target [] picks = ([], picks)"
| "pick_turn target ((iso_code, []) # qs) picks =
     (let (qs', picks') = pick_turn target qs picks in ((iso_code, []) # qs', picks'))"
| "pick_turn target ((iso_code, portal # rest) # qs) picks =
     (let picks1 = picks @ [(iso_code, portal)]
      in if target \<le> length picks1 then ((iso_code, rest) # qs, picks1)
         else let (qs', picks') = pick_turn target qs picks1 in ((iso_code, rest) # qs', picks'))"

definition queued :: "queues \<Rightarrow> nat" where
  "queued qs = sum_list (map (\<lambda>(iso_code, q). length q) qs)"

lemma pick_turn_queued: "pick_turn target qs picks = (qs', picks') \<Longrightarrow> queued qs' \<le> queued qs"
  by (induction target qs picks arbitrary: qs' picks' rule: pick_turn.induct)
    (fastforce simp: queued_def Let_def split: if_splits prod.splits)+

lemma pick_turn_progress:
  "pick_turn target qs picks = (qs', picks') \<Longrightarrow> \<exists>(iso_code, q) \<in> set qs. q \<noteq> [] \<Longrightarrow> queued qs' < queued qs"
  by (induction target qs picks arbitrary: qs' picks' rule: pick_turn.induct)
    (fastforce simp: queued_def Let_def split: if_splits prod.splits dest: pick_turn_queued [unfolded queued_def])+

function pick_loop :: "nat \<Rightarrow> queues \<Rightarrow> pick list \<Rightarrow> pick list" where
  "pick_loop target qs picks =
     (if length picks < target \<and> (\<exists>(iso_code, q) \<in> set qs. q \<noteq> [])
      then pick_loop target (fst (pick_turn target qs picks)) (snd (pick_turn target qs picks))
      else picks)"
  by pat_completeness auto
termination
  by (relation "measure (\<lambda>(target, qs, picks). queued qs)") (auto simp: split_def intro!: pick_turn_progress [OF surjective_pairing])

declare pick_loop.simps [simp del]

definition queues_of :: "(ustr \<times> nat \<times> ustr \<times> ustr) list \<Rightarrow> queues" where
  "queues_of rows =
     map (\<lambda>iso_code. (iso_code, map snd (sort (map snd (filter (\<lambda>r. fst r = iso_code) rows)))))
       (sort (remdups (map fst rows)))"

definition pick_pairs :: "(ustr \<Rightarrow> ustr) \<Rightarrow> jobj list \<Rightarrow> (ustr \<rightharpoonup> ustr) \<Rightarrow> nat \<Rightarrow> pick list result" where
  "pick_pairs lower portals iso_map target =
     bindE (mapE (portal_row lower iso_map) portals) (\<lambda>rows.
       Inr (pick_loop target (queues_of (concat (map (\<lambda>r. case r of None \<Rightarrow> [] | Some x \<Rightarrow> [x]) rows))) []))"

section \<open>One document\<close>

record fetched =
  ft_meta :: jobj
  ft_markdown :: ustr
  ft_md_document_id :: ustr

text \<open>The first record of a listing: \<open>None\<close> when the response is missing, not a 200 or empty.\<close>

definition first_record :: "(int \<times> json option) option \<Rightarrow> fetch_error + json option" where
  "first_record resp =
     (case resp of
        None \<Rightarrow> Inr None
      | Some r \<Rightarrow>
          if fst r \<noteq> 200 then Inr None
          else bindE (payload_data r) (\<lambda>data. if truthy data then py (bindE (index0 data) (\<lambda>x. Inr (Some x))) else Inr None))"

definition contents_query :: "ustr \<Rightarrow> ustr \<Rightarrow> nat \<Rightarrow> (ustr \<times> ustr) list" where
  "contents_query iso_code portal_url limit =
     [(u ''iso'', iso_code), (u ''portal'', portal_url), (u ''limit'', digits_of limit)]"

text \<open>\<open>content_markdown\<close> or \<open>markdown\<close>; another type fails at \<open>strip\<close>.\<close>

definition record_markdown :: "jobj \<Rightarrow> ustr result" where
  "record_markdown d =
     (case py_or (get_key d (u ''content_markdown'')) (py_or (get_key d (u ''markdown'')) (JStr [])) of
        JStr s \<Rightarrow> Inr s
      | _ \<Rightarrow> Inl AttributeError)"

definition fetch_one :: "'w fetch_env \<Rightarrow> token \<Rightarrow> ustr \<Rightarrow> ustr \<Rightarrow> ustr \<Rightarrow> ('w, token \<times> fetched option) io" where
  "fetch_one env tok base iso_code portal_url =
     bindS (get_with_retry env tok base (u ''/contents'') 2 (contents_query iso_code portal_url 1)) (\<lambda>(tok1, meta_resp).
     bindS (pureS (first_record meta_resp)) (\<lambda>found.
       case found of
         None \<Rightarrow> pureS (Inr (tok1, None))
       | Some v \<Rightarrow>
           bindS (pureS (py (as_dict v))) (\<lambda>meta.
           bindS (get_with_retry env tok1 base (u ''/contents/markdown'') 2 (contents_query iso_code portal_url 1)) (\<lambda>(tok2, md_resp).
           bindS (pureS (first_record md_resp)) (\<lambda>md_found.
             case md_found of
               None \<Rightarrow> pureS (Inr (tok2, None))
             | Some md_v \<Rightarrow>
                 pureS (py (bindE (as_dict md_v) (\<lambda>md_record.
                   bindE (record_markdown md_record) (\<lambda>md.
                     Inr (tok2,
                       if strip md = [] then None
                       else Some \<lparr>ft_meta = meta, ft_markdown = md,
                              ft_md_document_id = py_str env (py_or (get_key md_record (u ''document_id''))
                                (py_or (get_key meta (u ''document_id'')) (JStr [])))\<rparr>))))))))))"

section \<open>The run\<close>

record 'w run_state =
  rs_world :: 'w
  rs_files :: sample_dir
  rs_slugs :: "ustr list"
  rs_captured :: "jobj list"

text \<open>What the loop does with a document: nothing without an id or when its slug is taken, else the two files.\<close>

definition document_slug :: "'w fetch_env \<Rightarrow> ustr \<Rightarrow> fetched \<Rightarrow> ustr \<times> json \<times> ustr" where
  "document_slug env iso_code doc =
     (let document_id = py_str env (py_or (get_key (ft_meta doc) (u ''document_id'')) (JStr (ft_md_document_id doc)));
          version = py_or (get_key (ft_meta doc) (u ''version'')) (JInt 1)
      in (document_id, version, slug_of env iso_code document_id version))"

definition save_document :: "'w fetch_env \<Rightarrow> ustr \<Rightarrow> pick \<Rightarrow> fetched \<Rightarrow> 'w run_state \<Rightarrow> 'w run_state \<times> (fetch_error + unit)" where
  "save_document env base pick doc st =
     (case pick of (iso_code, portal_url, portal_name) \<Rightarrow>
       case document_slug env iso_code doc of (document_id, version, slug) \<Rightarrow>
         if document_id = [] \<or> slug \<in> set (rs_slugs st) then (st, Inr ())
         else
           case write_pair slug (ft_markdown doc)
                  (with_provenance (provenance_of (fe_stamp env (rs_world st)) base iso_code portal_url portal_name 1) (ft_meta doc))
                  (rs_files st) of
             (files, Inl e) \<Rightarrow> (st\<lparr>rs_files := files\<rparr>, Inl e)
           | (files, Inr _) \<Rightarrow>
               (st\<lparr>rs_files := files, rs_slugs := rs_slugs st @ [slug],
                   rs_captured := rs_captured st @ [index_entry iso_code portal_url portal_name document_id version
                     (ft_meta doc) (utf8_length (ft_markdown doc)) slug]\<rparr>, Inr ()))"

text \<open>The loop over the pairs; an exception of \<open>fetch_one\<close> skips the pair and leaves the token it had.\<close>

fun capture_loop :: "'w fetch_env \<Rightarrow> ustr \<Rightarrow> pick list \<Rightarrow> token \<Rightarrow> 'w run_state \<Rightarrow> 'w run_state \<times> (fetch_error + unit)" where
  "capture_loop env base [] tok st = (st, Inr ())"
| "capture_loop env base (p # picks) tok st =
     (if target_count \<le> length (rs_captured st) then (st, Inr ())
      else case fetch_one env tok base (fst p) (fst (snd p)) (rs_world st) of
             (w, Inl e) \<Rightarrow> capture_loop env base picks tok (st\<lparr>rs_world := w\<rparr>)
           | (w, Inr (tok1, None)) \<Rightarrow> capture_loop env base picks tok1 (st\<lparr>rs_world := w\<rparr>)
           | (w, Inr (tok1, Some doc)) \<Rightarrow>
               (case save_document env base p doc (st\<lparr>rs_world := w\<rparr>) of
                  (st1, Inl e) \<Rightarrow> (st1, Inl e)
                | (st1, Inr _) \<Rightarrow> capture_loop env base picks tok1 st1))"

definition jtext :: "jobj \<Rightarrow> string \<Rightarrow> ustr" where
  "jtext d k = (case get_key d (u k) of JStr s \<Rightarrow> s | _ \<Rightarrow> [])"

definition index_name :: ustr where "index_name = u ''fixtures.json''"

definition fixtures_index :: "ustr \<Rightarrow> jobj list \<Rightarrow> json" where
  "fixtures_index stamp captured =
     JObj [(u ''_provenance'', JObj [(u ''fetched_at'', JStr stamp), (u ''target_count'', JInt (int target_count))]),
           (u ''fixtures'', JList (map JObj (sort_key (\<lambda>c. (jtext c ''iso'', jtext c ''portal_url'')) captured)))]"

text \<open>The base URLs: \<open>rstrip("/")\<close>, and a scheme when there is none.\<close>

definition starts_with :: "ustr \<Rightarrow> ustr \<Rightarrow> bool" where
  "starts_with p s \<longleftrightarrow> take (length p) s = p"

definition with_scheme :: "ustr \<Rightarrow> ustr" where
  "with_scheme url = (if starts_with (u ''http://'') url \<or> starts_with (u ''https://'') url then url else u ''https://'' @ url)"

definition env_or :: "(string \<Rightarrow> ustr option) \<Rightarrow> string \<Rightarrow> ustr \<Rightarrow> ustr" where
  "env_or vars k d = (case vars k of None \<Rightarrow> d | Some s \<Rightarrow> if s = [] then d else s)"

definition rstrip_slash :: "ustr \<Rightarrow> ustr" where
  "rstrip_slash s = rev (dropWhile (\<lambda>c. c = 47) (rev s))"

text \<open>Everything before the loop: the login, the jurisdictions, their portals and the candidates.\<close>

definition candidates :: "'w fetch_env \<Rightarrow> ustr \<Rightarrow> ustr \<Rightarrow> ustr \<Rightarrow> ustr \<Rightarrow> ('w, token \<times> pick list) io" where
  "candidates env email password base auth_url =
     bindS (script_login env email password auth_url) (\<lambda>tok.
     bindS (fetch_jurisdictions env tok base) (\<lambda>(tok1, jurisdictions).
     bindS (pureS (py (country_to_iso jurisdictions))) (\<lambda>iso_map.
     bindS (pureS (py (country_isos jurisdictions))) (\<lambda>isos.
     bindS (fetch_all_portals env tok1 base isos) (\<lambda>(tok2, portals).
     bindS (pureS (py (pick_pairs (fe_lower env) portals iso_map (target_count * 3)))) (\<lambda>picks.
       pureS (Inr (tok2, picks))))))))"

text \<open>\<open>main\<close>; an absent directory is created, so it counts as empty.\<close>

definition fetch_main ::
  "'w fetch_env \<Rightarrow> (string \<Rightarrow> ustr option) \<Rightarrow> sample_dir \<Rightarrow> 'w \<Rightarrow> sample_dir \<times> (fetch_error + nat)" where
  "fetch_main env vars dir w =
     (let base = with_scheme (rstrip_slash (env_or vars ''LAWSTRONAUT_API_URL'' default_api_url));
          auth_url = with_scheme (env_or vars ''LAWSTRONAUT_AUTH_URL'' default_auth_url);
          email = env_or vars ''LAWSTRONAUT_EMAIL'' []; password = env_or vars ''LAWSTRONAUT_PASSWORD'' []
      in if email = [] \<or> password = [] then (dir, Inr 1)
         else
           case candidates env email password base auth_url w of
             (w1, Inl e) \<Rightarrow> (dir, Inl e)
           | (w1, Inr (tok, picks)) \<Rightarrow>
               (case capture_loop env base picks tok
                       \<lparr>rs_world = w1, rs_files = dir, rs_slugs = md_stems dir, rs_captured = []\<rparr> of
                  (st, Inl e) \<Rightarrow> (rs_files st, Inl e)
                | (st, Inr _) \<Rightarrow>
                    (case write_sample index_name (Json_file (fixtures_index (fe_stamp env (rs_world st)) (rs_captured st))) (rs_files st) of
                       (files, Inl e) \<Rightarrow> (files, Inl e)
                     | (files, Inr _) \<Rightarrow> (files, Inr 0))))"

end
