(* ===== verification/Fetch_Fillers.thy ===== *)
theory Fetch_Fillers
  imports Fetch
begin

text \<open>
  The two helpers beside \<open>fetch_fixtures.py\<close>: \<open>fetch_uk_eu_fillers.py\<close> takes the largest document of each listed
  portal and merges its rows into the index, \<open>fetch_nl_gdpr.py\<close> fetches one law by its title.
\<close>

section \<open>UK and EU fillers\<close>

type_synonym portal_target = "ustr \<times> ustr \<times> ustr \<times> nat"

definition portal_target :: "string \<Rightarrow> string \<Rightarrow> string \<Rightarrow> portal_target" where
  "portal_target iso_code url name = (u iso_code, u url, u name, 10)"

definition uk_targets :: "portal_target list" where
  "uk_targets =
     [portal_target ''GB'' ''www.fca.org.uk'' ''Financial Conduct Authority'',
      portal_target ''GB'' ''www.bankofengland.co.uk'' ''The Bank of England'',
      portal_target ''GB'' ''www.catribunal.org.uk'' ''Competition Appeals Tribunal'',
      portal_target ''GB'' ''www.bailii.org'' ''UK Case Precedents'',
      portal_target ''GB'' ''www.psr.org.uk'' ''UK Payment Systems Regulator'',
      portal_target ''GB'' ''www.legislation.gov.uk'' ''Legislation UK'',
      portal_target ''GB'' ''www.parliament.uk'' ''UK Parliament'']"

definition eu_targets :: "portal_target list" where
  "eu_targets =
     [portal_target ''EU'' ''eba.europa.eu'' ''European Banking Authority'',
      portal_target ''EU'' ''www.ecb.europa.eu'' ''European Central Bank'',
      portal_target ''EU'' ''www.bankingsupervision.europa.eu'' ''European Central Bank | Banking Supervision'',
      portal_target ''EU'' ''www.srb.europa.eu'' ''Single Resolution Board'',
      portal_target ''EU'' ''www.esma.europa.eu'' ''European Securities and Markets Authority'',
      portal_target ''EU'' ''www.eiopa.europa.eu'' ''European Insurance and Occupational Pensions Authority'']"

text \<open>\<open>d.get(k, d)\<close> and \<open>.get\<close> on what it gives; the bearer is whatever the response holds, as a text.\<close>

definition get_or_self :: "jobj \<Rightarrow> ustr \<Rightarrow> jobj result" where
  "get_or_self d k = (case map_of d k of None \<Rightarrow> Inr d | Some v \<Rightarrow> as_dict v)"

definition filler_login :: "'w fetch_env \<Rightarrow> ustr \<Rightarrow> ustr \<Rightarrow> ('w, ustr) io" where
  "filler_login env email password =
     bindS (send env (Post_login default_auth_url email password)) (\<lambda>resp.
     bindS (pureS (raise_for_status resp)) (\<lambda>_.
     pureS (bindE (resp_json resp) (\<lambda>payload. py (
       bindE (as_dict payload) (\<lambda>d.
       bindE (get_or_self d (u ''data'')) (\<lambda>body.
       bindE (get_or_self body (u ''token'')) (\<lambda>tk.
         Inr (py_str env (py_or (get_key tk (u ''refresh_token''))
           (py_or (get_key tk (u ''access_token'')) (get_key tk (u ''token'')))))))))))))"

text \<open>\<open>get\<close> followed by the checks of its callers: \<open>None\<close> unless the answer is a 200 with a JSON object.\<close>

definition filler_listing :: "'w fetch_env \<Rightarrow> ustr \<Rightarrow> ustr \<Rightarrow> (ustr \<times> ustr) list \<Rightarrow> ('w, json option) io" where
  "filler_listing env bearer path_name ps =
     bindS (send env (Get_json (default_api_url @ path_name) bearer ps)) (\<lambda>(status, body).
       pureS (Inr (case body of
         Some (JObj d) \<Rightarrow> if status = 200 then Some (case map_of d (u ''data'') of None \<Rightarrow> JList [] | Some v \<Rightarrow> v) else None
       | _ \<Rightarrow> None)))"

definition md_by_id :: "'w fetch_env \<Rightarrow> json \<Rightarrow> (ustr \<rightharpoonup> jobj) result" where
  "md_by_id env records =
     bindE (py_iter records) (foldE (\<lambda>m r. bindE (as_dict r) (\<lambda>d. Inr (m(py_str env (get_key d (u ''document_id'')) \<mapsto> d)))) Map.empty)"

definition document_id_of :: "'w fetch_env \<Rightarrow> jobj \<Rightarrow> ustr" where
  "document_id_of env meta = py_str env (value_or_empty meta (u ''document_id''))"

record filler_doc =
  fd_meta :: jobj
  fd_markdown :: ustr
  fd_size :: nat

text \<open>
  One candidate: skipped when its id is empty or used, or its Markdown is absent, blank or short. A Markdown with a
  surrogate has no size: \<open>encode\<close> raises \<open>UnicodeEncodeError\<close>, a \<open>ValueError\<close>.
\<close>

definition filler_candidate :: "'w fetch_env \<Rightarrow> ustr list \<Rightarrow> (ustr \<rightharpoonup> jobj) \<Rightarrow> json \<Rightarrow> filler_doc option result" where
  "filler_candidate env used md_of v =
     bindE (as_dict v) (\<lambda>meta.
       let did = document_id_of env meta
       in if did = [] \<or> did \<in> set used then Inr None
          else case md_of did of
                 None \<Rightarrow> Inr None
               | Some md \<Rightarrow>
                   if md = [] then Inr None
                   else bindE (record_markdown md) (\<lambda>content.
                     if strip content = [] then Inr None
                     else if unencodable content then Inl ValueError
                     else if utf8_length content < 2000 then Inr None
                     else Inr (Some \<lparr>fd_meta = meta, fd_markdown = content, fd_size = utf8_length content\<rparr>)))"

definition better :: "filler_doc option \<Rightarrow> filler_doc option \<Rightarrow> filler_doc option" where
  "better best c =
     (case c of
        None \<Rightarrow> best
      | Some d \<Rightarrow> if (case best of None \<Rightarrow> 0 | Some b \<Rightarrow> fd_size b) < fd_size d then Some d else best)"

definition best_candidate :: "'w fetch_env \<Rightarrow> ustr list \<Rightarrow> (ustr \<rightharpoonup> jobj) \<Rightarrow> json list \<Rightarrow> filler_doc option result" where
  "best_candidate env used md_of metas =
     foldE (\<lambda>best v. bindE (filler_candidate env used md_of v) (\<lambda>c. Inr (better best c))) None metas"

definition fetch_one_from_portal ::
  "'w fetch_env \<Rightarrow> ustr \<Rightarrow> portal_target \<Rightarrow> ustr list \<Rightarrow> ('w, filler_doc option) io" where
  "fetch_one_from_portal env bearer target used =
     (case target of (iso_code, portal_url, portal_name, limit) \<Rightarrow>
       bindS (filler_listing env bearer (u ''/contents'') (contents_query iso_code portal_url limit)) (\<lambda>listing.
       case listing of
         None \<Rightarrow> pureS (Inr None)
       | Some meta_records \<Rightarrow>
           if \<not> truthy meta_records then pureS (Inr None)
           else
             bindS (filler_listing env bearer (u ''/contents/markdown'') (contents_query iso_code portal_url limit)) (\<lambda>md_listing.
             case md_listing of
               None \<Rightarrow> pureS (Inr None)
             | Some md_records \<Rightarrow>
                 pureS (py (bindE (md_by_id env md_records) (\<lambda>md_of.
                   bindE (py_iter meta_records) (best_candidate env used md_of)))))))"

text \<open>
  The run: the used ids are the second parts of the slugs with a dash. The line printed for a document takes a slice
  of its title, which fails for a title that is neither a text nor a list.
\<close>

definition used_ids_of :: "ustr list \<Rightarrow> ustr list" where
  "used_ids_of slugs = map (\<lambda>s. split_on 45 s ! 1) (filter (\<lambda>s. 45 \<in> set s) slugs)"

record 'w filler_state =
  fl_world :: 'w
  fl_files :: sample_dir
  fl_used :: "ustr list"
  fl_captured :: "jobj list"

definition sliceable :: "json \<Rightarrow> bool" where
  "sliceable v = (case v of JStr s \<Rightarrow> True | JList xs \<Rightarrow> True | _ \<Rightarrow> False)"

definition filler_row :: "'w fetch_env \<Rightarrow> portal_target \<Rightarrow> filler_doc \<Rightarrow> jobj" where
  "filler_row env target doc =
     (case target of (iso_code, portal_url, portal_name, limit) \<Rightarrow>
       let did = document_id_of env (fd_meta doc);
           version = py_or (get_key (fd_meta doc) (u ''version'')) (JInt 1)
       in index_entry iso_code portal_url portal_name did version (fd_meta doc) (fd_size doc) (slug_of env iso_code did version))"

definition save_filler ::
  "'w fetch_env \<Rightarrow> portal_target \<Rightarrow> filler_doc \<Rightarrow> 'w filler_state \<Rightarrow> 'w filler_state \<times> (fetch_error + unit)" where
  "save_filler env target doc st =
     (case target of (iso_code, portal_url, portal_name, limit) \<Rightarrow>
       let did = document_id_of env (fd_meta doc);
           version = py_or (get_key (fd_meta doc) (u ''version'')) (JInt 1);
           slug = slug_of env iso_code did version
       in case write_pair slug (fd_markdown doc)
                 (with_provenance (provenance_of (fe_stamp env (fl_world st)) default_api_url iso_code portal_url portal_name limit)
                   (fd_meta doc)) (fl_files st) of
            (files, Inl e) \<Rightarrow> (st\<lparr>fl_files := files\<rparr>, Inl e)
          | (files, Inr _) \<Rightarrow>
              if \<not> sliceable (value_or_empty (fd_meta doc) (u ''title'')) then (st\<lparr>fl_files := files\<rparr>, Inl (Py TypeError))
              else (st\<lparr>fl_files := files, fl_used := fl_used st @ [did],
                       fl_captured := fl_captured st @ [filler_row env target doc]\<rparr>, Inr ()))"

fun filler_loop :: "'w fetch_env \<Rightarrow> ustr \<Rightarrow> portal_target list \<Rightarrow> 'w filler_state \<Rightarrow> 'w filler_state \<times> (fetch_error + unit)" where
  "filler_loop env bearer [] st = (st, Inr ())"
| "filler_loop env bearer (target # targets) st =
     (case fetch_one_from_portal env bearer target (fl_used st) (fl_world st) of
        (w, Inl e) \<Rightarrow> (st\<lparr>fl_world := w\<rparr>, Inl e)
      | (w, Inr None) \<Rightarrow> filler_loop env bearer targets (st\<lparr>fl_world := w\<rparr>)
      | (w, Inr (Some doc)) \<Rightarrow>
          (case save_filler env target doc (st\<lparr>fl_world := w\<rparr>) of
             (st1, Inl e) \<Rightarrow> (st1, Inl e)
           | (st1, Inr _) \<Rightarrow> filler_loop env bearer targets st1))"

text \<open>
  \<open>==\<close> and \<open><\<close> on the values of a key: equal numbers are equal whatever their type, the order of the keys of
  an object does not count, and lists compare like tuples, at the first place where they differ.
\<close>

fun normal :: "json \<Rightarrow> json" where
  "normal (JBool b) = JNum (Fin (if b then 1 else 0))"
| "normal (JInt i) = JNum (Fin (of_int i))"
| "normal (JList vs) = JList (map normal vs)"
| "normal (JObj d) = JObj (sort_key fst (map (\<lambda>(k, v). (k, normal v)) d))"
| "normal v = v"

fun less_float :: "pyfloat \<Rightarrow> pyfloat \<Rightarrow> bool" where
  "less_float (Fin a) (Fin b) = (a < b)"
| "less_float NegInf b = (b \<noteq> NegInf \<and> b \<noteq> NaN)"
| "less_float a PosInf = (a \<noteq> PosInf \<and> a \<noteq> NaN)"
| "less_float a b = False"

fun py_less :: "json \<Rightarrow> json \<Rightarrow> bool result" where
  "py_less (JNum a) (JNum b) = Inr (less_float a b)"
| "py_less (JStr s) (JStr t) = Inr (s < t)"
| "py_less (JList []) (JList ys) = Inr (ys \<noteq> [])"
| "py_less (JList (x # xs)) (JList []) = Inr False"
| "py_less (JList (x # xs)) (JList (y # ys)) = (if x = y then py_less (JList xs) (JList ys) else py_less x y)"
| "py_less a b = Inl TypeError"

text \<open>
  The key of an index row, and \<open>list.sort\<close>. Every comparison sort compares any two neighbours of its result, so
  that an insertion sort raises \<open>TypeError\<close> exactly where \<open>list.sort\<close> does; both are stable. (With a NaN in a key,
  where \<open><\<close> is no order, only the rows agree and not their order.) The merge keeps the object, extends and sorts its
  list, and stamps its \<open>_provenance\<close>.
\<close>

definition row_key :: "json \<Rightarrow> (json \<times> json) result" where
  "row_key v =
     bindE (subscript v (u ''iso'')) (\<lambda>a. bindE (subscript v (u ''portal_url'')) (\<lambda>b.
     bindE (subscript v (u ''document_id'')) (\<lambda>d. Inr (normal (JList [a, b, d]), v))))"

fun insert_row :: "json \<times> json \<Rightarrow> (json \<times> json) list \<Rightarrow> (json \<times> json) list result" where
  "insert_row x [] = Inr [x]"
| "insert_row x (y # ys) =
     bindE (py_less (fst x) (fst y)) (\<lambda>lt.
       if lt then Inr (x # y # ys) else bindE (insert_row x ys) (\<lambda>zs. Inr (y # zs)))"

definition sort_rows :: "(json \<times> json) list \<Rightarrow> (json \<times> json) list result" where
  "sort_rows keyed = foldE (\<lambda>acc x. insert_row x acc) [] keyed"

definition merge_index :: "ustr \<Rightarrow> jobj list \<Rightarrow> json \<Rightarrow> json result" where
  "merge_index stamp captured existing =
     bindE (as_dict existing) (\<lambda>d.
       case (case map_of d (u ''fixtures'') of None \<Rightarrow> JList [] | Some v \<Rightarrow> v) of
         JList rows \<Rightarrow>
           bindE (bindE (mapE row_key (rows @ map JObj captured)) sort_rows) (\<lambda>keyed.
             case map_of d (u ''_provenance'') of
               None \<Rightarrow> Inl KeyError
             | Some (JObj prov) \<Rightarrow>
                 Inr (JObj (AList.update (u ''_provenance'') (JObj (AList.update (u ''last_appended_at'') (JStr stamp) prov))
                   (AList.update (u ''fixtures'') (JList (map snd keyed)) d)))
             | Some _ \<Rightarrow> Inl TypeError)
       | _ \<Rightarrow> Inl AttributeError)"

definition read_index :: "sample_dir \<Rightarrow> fetch_error + json" where
  "read_index dir =
     (case map_of dir index_name of
        None \<Rightarrow> Inr (JObj [(u ''_provenance'', JObj []), (u ''fixtures'', JList [])])
      | Some (Json_file v) \<Rightarrow> Inr v
      | Some _ \<Rightarrow> Inl Not_json)"

definition fillers_main ::
  "'w fetch_env \<Rightarrow> (string \<Rightarrow> ustr option) \<Rightarrow> sample_dir \<Rightarrow> 'w \<Rightarrow> sample_dir \<times> (fetch_error + nat)" where
  "fillers_main env vars dir w =
     (case (vars ''LAWSTRONAUT_EMAIL'', vars ''LAWSTRONAUT_PASSWORD'') of
        (Some email, Some password) \<Rightarrow>
          (case filler_login env email password w of
             (w1, Inl e) \<Rightarrow> (dir, Inl e)
           | (w1, Inr bearer) \<Rightarrow>
               (case filler_loop env bearer (uk_targets @ eu_targets)
                       \<lparr>fl_world = w1, fl_files = dir, fl_used = used_ids_of (md_stems dir), fl_captured = []\<rparr> of
                  (st, Inl e) \<Rightarrow> (fl_files st, Inl e)
                | (st, Inr _) \<Rightarrow>
                    (case bindE (read_index (fl_files st)) (\<lambda>v. py (merge_index (fe_stamp env (fl_world st)) (fl_captured st) v)) of
                       Inl e \<Rightarrow> (fl_files st, Inl e)
                     | Inr v \<Rightarrow>
                         (case write_sample index_name (Json_file v) (fl_files st) of
                            (files, Inl e) \<Rightarrow> (files, Inl e)
                          | (files, Inr _) \<Rightarrow> (files, Inr 0)))))
      | _ \<Rightarrow> (dir, Inl (Py KeyError)))"

section \<open>The Dutch implementing act\<close>

definition title_queries :: "ustr list" where
  "title_queries = map u [''Uitvoeringswet Algemene verordening gegevensbescherming'',
     ''Algemene verordening gegevensbescherming'', ''gegevensbescherming'', ''GDPR'']"

text \<open>A version as a member of a Python set: equal numbers are one member, lists and dicts cannot be one.\<close>

definition hashed :: "json \<Rightarrow> json result" where
  "hashed v =
     (case v of
        JBool b \<Rightarrow> Inr (JNum (Fin (if b then 1 else 0)))
      | JInt i \<Rightarrow> Inr (JNum (Fin (of_int i)))
      | JList xs \<Rightarrow> Inl TypeError
      | JObj d \<Rightarrow> Inl TypeError
      | _ \<Rightarrow> Inr v)"

definition add_rows ::
  "'w fetch_env \<Rightarrow> json list \<Rightarrow> (ustr \<times> json) list \<times> jobj list \<Rightarrow> ((ustr \<times> json) list \<times> jobj list) result" where
  "add_rows env rows st =
     foldE (\<lambda>(seen, found) r.
       bindE (as_dict r) (\<lambda>d.
       bindE (hashed (get_key d (u ''version''))) (\<lambda>version.
         let key = (py_str env (get_key d (u ''document_id'')), version)
         in if key \<in> set seen \<and> version \<noteq> JNum NaN then Inr (seen, found) else Inr (seen @ [key], found @ [d])))) st rows"

definition nl_login :: "'w fetch_env \<Rightarrow> ustr \<Rightarrow> ustr \<Rightarrow> ustr \<Rightarrow> ('w, ustr) io" where
  "nl_login env email password auth_url =
     bindS (send env (Post_login auth_url email password)) (\<lambda>resp.
     bindS (pureS (raise_for_status resp)) (\<lambda>_.
     pureS (bindE (resp_json resp) (\<lambda>payload. py (bindE (as_dict payload) login_bearer)))))"

definition nl_get :: "'w fetch_env \<Rightarrow> ustr \<Rightarrow> ustr \<Rightarrow> ustr \<Rightarrow> (ustr \<times> ustr) list \<Rightarrow> ('w, int \<times> json option) io" where
  "nl_get env base bearer path_name ps = send env (Get_json (base @ path_name) bearer ps)"

fun search_titles ::
  "'w fetch_env \<Rightarrow> ustr \<Rightarrow> ustr \<Rightarrow> ustr list \<Rightarrow> (ustr \<times> json) list \<times> jobj list \<Rightarrow> ('w, jobj list) io" where
  "search_titles env base bearer [] st = pureS (Inr (snd st))"
| "search_titles env base bearer (q # qs) st =
     bindS (nl_get env base bearer (u ''/contents'') [(u ''iso'', u ''NL''), (u ''title'', q), (u ''limit'', u ''20'')]) (\<lambda>resp.
       if fst resp \<noteq> 200 then search_titles env base bearer qs st
       else
         bindS (pureS (bindE (payload_data resp) (\<lambda>data. py (bindE (py_iter data) (\<lambda>rows. add_rows env rows st))))) (\<lambda>st1.
           search_titles env base bearer qs st1))"

text \<open>A query parameter as httpx writes it.\<close>

definition param_text :: "'w fetch_env \<Rightarrow> json \<Rightarrow> ustr" where
  "param_text env v =
     (case v of JNull \<Rightarrow> [] | JBool b \<Rightarrow> (if b then u ''true'' else u ''false'') | _ \<Rightarrow> py_str env v)"

definition nl_markdown :: "'w fetch_env \<Rightarrow> ustr \<Rightarrow> ustr \<Rightarrow> jobj \<Rightarrow> ('w, json option) io" where
  "nl_markdown env base bearer chosen =
     bindS (nl_get env base bearer (u ''/contents/markdown'')
         [(u ''iso'', u ''NL''), (u ''title'', param_text env (get_key chosen (u ''title''))), (u ''limit'', u ''1'')]) (\<lambda>resp.
       if fst resp \<noteq> 200 then pureS (Inr None)
       else pureS (bindE (payload_data resp) (\<lambda>data.
         if \<not> truthy data then Inr None
         else py (bindE (index0 data) (\<lambda>x. bindE (as_dict x) (\<lambda>d.
           Inr (Some (py_or (get_key d (u ''markdown'')) (py_or (get_key d (u ''content_markdown'')) (JStr []))))))))))"

definition nl_main ::
  "'w fetch_env \<Rightarrow> (string \<Rightarrow> ustr option) \<Rightarrow> sample_dir \<Rightarrow> 'w \<Rightarrow> sample_dir \<times> (fetch_error + nat)" where
  "nl_main env vars dir w =
     (let auth_url = (case vars ''LAWSTRONAUT_AUTH_URL'' of None \<Rightarrow> default_auth_url | Some s \<Rightarrow> s);
          base = (case vars ''LAWSTRONAUT_API_URL'' of None \<Rightarrow> default_api_url | Some s \<Rightarrow> s);
          email = env_or vars ''LAWSTRONAUT_EMAIL'' []; password = env_or vars ''LAWSTRONAUT_PASSWORD'' []
      in if email = [] \<or> password = [] then (dir, Inr 2)
         else
           case bindS (nl_login env email password auth_url) (\<lambda>bearer.
                bindS (search_titles env base bearer title_queries ([], [])) (\<lambda>found.
                  case found of
                    [] \<Rightarrow> pureS (Inr None)
                  | chosen # _ \<Rightarrow> bindS (nl_markdown env base bearer chosen) (\<lambda>md. pureS (Inr (map_option (\<lambda>m. (chosen, m)) md))))) w of
             (w1, Inl e) \<Rightarrow> (dir, Inl e)
           | (w1, Inr None) \<Rightarrow> (dir, Inr 1)
           | (w1, Inr (Some (chosen, md))) \<Rightarrow>
               (case md of
                  JStr s \<Rightarrow>
                    (case write_sample (u ''nl-'' @ py_str env (get_key chosen (u ''document_id'')) @ u ''-gdpr.md'') (Text_file s) dir of
                       (files, Inl e) \<Rightarrow> (files, Inl e)
                     | (files, Inr _) \<Rightarrow> (files, Inr 0))
                | _ \<Rightarrow> (dir, Inl (Py TypeError))))"

end
