(* ===== verification/Fetch_Correct.thy ===== *)
theory Fetch_Correct
  imports Fetch_Fillers "HOL-Library.Multiset"
begin

text \<open>
  The pairs that are sampled are taken in rounds over the jurisdictions, and a run never changes a Markdown file
  that was there: what its index lists are new files only. The filler of a portal is a largest usable document; a
  run adds rows to the index, keeps the others, and takes no document whose id the samples already use.
\<close>

section \<open>Rounds\<close>

text \<open>The \<open>k\<close>-th round takes the \<open>k\<close>-th portal of every jurisdiction that has one.\<close>

definition pick_round :: "nat \<Rightarrow> queues \<Rightarrow> pick list" where
  "pick_round k qs = concat (map (\<lambda>(iso_code, q). if k < length q then [(iso_code, q ! k)] else []) qs)"

definition longest :: "queues \<Rightarrow> nat" where
  "longest qs = fold (\<lambda>(iso_code, q) n. max (length q) n) qs 0"

definition all_rounds :: "queues \<Rightarrow> pick list" where
  "all_rounds qs = concat (map (\<lambda>k. pick_round k qs) [0..<longest qs])"

definition rest_of :: "queues \<Rightarrow> queues" where
  "rest_of qs = map (\<lambda>(iso_code, q). (iso_code, tl q)) qs"

lemma pick_round_Nil [simp]: "pick_round k [] = []"
  by (simp add: pick_round_def)

lemma pick_round_Cons [simp]:
  "pick_round k ((iso_code, q) # qs) = (if k < length q then [(iso_code, q ! k)] else []) @ pick_round k qs"
  by (simp add: pick_round_def)

lemma rest_of_simps [simp]: "rest_of [] = []" "rest_of ((iso_code, q) # qs) = (iso_code, tl q) # rest_of qs"
  by (simp_all add: rest_of_def)

lemma pick_turn_result:
  "length picks < target \<Longrightarrow>
   snd (pick_turn target qs picks) = take target (picks @ pick_round 0 qs)
   \<and> (length picks + length (pick_round 0 qs) < target \<longrightarrow> fst (pick_turn target qs picks) = rest_of qs)"
proof (induction target qs picks rule: pick_turn.induct)
  case (3 target iso_code portal rest qs picks)
  show ?case
  proof (cases "target \<le> Suc (length picks)")
    case True
    then have "target - length picks = 1" using 3(2) by simp
    then show ?thesis using True 3(2) by simp
  next
    case False
    then show ?thesis using 3 by (simp add: split_def)
  qed
qed (simp_all add: split_def)

lemma pick_round_rest: "pick_round (Suc k) qs = pick_round k (rest_of qs)"
  by (induction qs) (auto simp: nth_tl)

lemma fold_max: "fold (\<lambda>(iso_code, q) n. max (length q) n) qs n = max n (fold (\<lambda>(iso_code, q) n. max (length q) n) qs 0)"
proof (induction qs arbitrary: n)
  case (Cons x qs)
  show ?case using Cons [of "max (length (snd x)) n"] Cons [of "length (snd x)"] by (simp add: split_def)
qed simp

lemma longest_Cons [simp]: "longest ((iso_code, q) # qs) = max (length q) (longest qs)"
  using fold_max [of qs "length q"] by (simp add: longest_def)

lemma longest_Nil [simp]: "longest [] = 0"
  by (simp add: longest_def)

lemma longest_waiting: "longest qs \<noteq> 0 \<longleftrightarrow> (\<exists>(iso_code, q) \<in> set qs. q \<noteq> [])"
  by (induction qs) auto

lemma longest_rest: "longest (rest_of qs) = longest qs - 1"
  by (induction qs) auto

lemma all_rounds_step: "longest qs \<noteq> 0 \<Longrightarrow> all_rounds qs = pick_round 0 qs @ all_rounds (rest_of qs)"
proof -
  assume "longest qs \<noteq> 0"
  then have "[0..<longest qs] = 0 # map Suc [0..<longest (rest_of qs)]"
    by (simp add: longest_rest upt_conv_Cons map_Suc_upt)
  then show ?thesis by (simp add: all_rounds_def pick_round_rest comp_def)
qed

lemma pick_loop_rounds: "length picks \<le> target \<Longrightarrow> pick_loop target qs picks = take target (picks @ all_rounds qs)"
proof (induction target qs picks rule: pick_loop.induct)
  case (1 target qs picks)
  show ?case
  proof (cases "length picks < target \<and> longest qs \<noteq> 0")
    case False
    have stop: "pick_loop target qs picks = picks"
      using False longest_waiting [of qs] by (subst pick_loop.simps) auto
    have "length picks = target \<or> all_rounds qs = []" using False 1(2) by (cases "longest qs = 0") (simp_all add: all_rounds_def)
    then show ?thesis using stop 1(2) by auto
  next
    case True
    then have run: "length picks < target \<and> (\<exists>(iso_code, q) \<in> set qs. q \<noteq> [])"
      using longest_waiting [of qs] by simp
    note turn = pick_turn_result [OF run [THEN conjunct1], of qs]
    have "pick_loop target (fst (pick_turn target qs picks)) (snd (pick_turn target qs picks))
        = take target (snd (pick_turn target qs picks) @ all_rounds (fst (pick_turn target qs picks)))"
      by (rule 1(1) [OF run]) (use turn in simp)
    also have "\<dots> = take target (picks @ all_rounds qs)"
    proof (cases "length picks + length (pick_round 0 qs) < target")
      case True
      then show ?thesis using turn all_rounds_step [of qs] \<open>length picks < target \<and> longest qs \<noteq> 0\<close> by simp
    next
      case False
      then show ?thesis using turn all_rounds_step [of qs] \<open>length picks < target \<and> longest qs \<noteq> 0\<close> by simp
    qed
    finally show ?thesis using run by (simp add: pick_loop.simps [of target qs picks])
  qed
qed

section \<open>Files\<close>

lemma write_sample_keeps:
  assumes "write_sample name c dir = (dir', r)"
  shows "n \<noteq> name \<Longrightarrow> map_of dir' n = map_of dir n"
    and "set (map fst dir') \<subseteq> insert name (set (map fst dir))"
    and "r = Inr () \<Longrightarrow> map_of dir' name = Some c"
proof -
  have keys: "set (map fst (AList.update name v dir)) = insert name (set (map fst dir))" for v
    by (metis dom_map_of_conv_image_fst dom_fun_upd option.distinct(1) set_map update_conv')
  show "n \<noteq> name \<Longrightarrow> map_of dir' n = map_of dir n" "r = Inr () \<Longrightarrow> map_of dir' name = Some c"
    using assms by (auto simp: write_sample_def update_conv' split: if_splits content.splits)
  show "set (map fst dir') \<subseteq> insert name (set (map fst dir))"
    using assms keys by (auto simp del: set_map simp: write_sample_def split: if_splits content.splits)
qed

lemma is_md_append [simp]: "is_md (slug @ md_suffix)"
  by (simp add: is_md_def md_suffix_def u_def)

lemma not_is_md [simp]: "\<not> is_md (slug @ u ''.meta.json'')" "\<not> is_md index_name"
  by (simp_all add: is_md_def md_suffix_def u_def index_name_def)

lemma stem_append [simp]: "slug \<noteq> [] \<Longrightarrow> stem (slug @ md_suffix) = slug"
  by (simp add: stem_def md_suffix_def u_def)

text \<open>Every Markdown file of the directory has its stem among the slugs.\<close>

definition slugs_cover :: "ustr list \<Rightarrow> sample_dir \<Rightarrow> bool" where
  "slugs_cover slugs dir \<longleftrightarrow> set (md_stems dir) \<subseteq> set slugs"

lemma write_pair_result:
  assumes w: "write_pair slug md meta dir = (dir', r)" and c: "slugs_cover slugs dir" and s: "slug \<notin> set slugs" "slug \<noteq> []"
  shows "\<And>n v. is_md n \<Longrightarrow> map_of dir n = Some v \<Longrightarrow> map_of dir' n = Some v"
    and "slugs_cover (slugs @ [slug]) dir'"
    and "map_of dir (slug @ md_suffix) = None"
    and "r = Inr () \<Longrightarrow> map_of dir' (slug @ md_suffix) = Some (Text_file md)
           \<and> map_of dir' (slug @ u ''.meta.json'') = Some (Json_file meta)"
proof -
  let ?md = "slug @ md_suffix" and ?js = "slug @ u ''.meta.json''"
  have ne: "?md \<noteq> ?js" using is_md_append [of slug] not_is_md(1) [of slug] by metis
  have "?md \<notin> set (map fst dir)"
  proof
    assume "?md \<in> set (map fst dir)"
    then have "stem ?md \<in> set (md_stems dir)" unfolding md_stems_def set_map [of stem] by (intro imageI) (use is_md_append in simp)
    then show False using c s by (auto simp: slugs_cover_def)
  qed
  then show new: "map_of dir ?md = None" by (simp add: map_of_eq_None_iff)
  obtain dir1 r1 where w1: "write_sample ?md (Text_file md) dir = (dir1, r1)" by (cases "write_sample ?md (Text_file md) dir")
  note k1 = write_sample_keeps [OF w1]
  have cases: "(\<exists>e. r1 = Inl e \<and> dir' = dir1 \<and> r = Inl e) \<or> r1 = Inr () \<and> write_sample ?js (Json_file meta) dir1 = (dir', r)"
    using w w1 by (cases r1) (auto simp: write_pair_def)
  have k2: "map_of dir' n = map_of dir1 n" if "n \<noteq> ?js" for n
    using cases write_sample_keeps(1) [of ?js "Json_file meta" dir1 dir' r n] that by blast
  have keys: "set (map fst dir') \<subseteq> insert ?js (insert ?md (set (map fst dir)))"
    using cases write_sample_keeps(2) [of ?js "Json_file meta" dir1 dir' r] k1(2) by blast
  show "map_of dir' n = Some v" if "is_md n" "map_of dir n = Some v" for n v
  proof -
    have "n \<noteq> ?js" "n \<noteq> ?md" using that new not_is_md(1) [of slug] by auto
    then show ?thesis using that k1(1) [of n] k2 [of n] by simp
  qed
  show "slugs_cover (slugs @ [slug]) dir'"
    using keys c s stem_append [OF s(2)] not_is_md(1) [of slug]
    by (fastforce simp: slugs_cover_def md_stems_def)
  show "map_of dir' ?md = Some (Text_file md) \<and> map_of dir' ?js = Some (Json_file meta)" if "r = Inr ()"
    using cases that k1(3) k2 [of ?md] ne write_sample_keeps(3) [of ?js "Json_file meta" dir1 dir' r] by auto
qed

section \<open>The run\<close>

definition entry_markdown :: "jobj \<Rightarrow> ustr" where
  "entry_markdown c = (case get_key c (u ''files'') of JObj d \<Rightarrow> jtext d ''markdown'' | _ \<Rightarrow> [])"

lemma index_entry_markdown [simp]:
  "entry_markdown (index_entry iso_code url name document_id version meta n slug) = slug @ md_suffix"
  by (simp add: entry_markdown_def index_entry_def get_key_def jtext_def u_def)

text \<open>
  The state of a run that started with \<open>dir\<close>: no Markdown file of it has changed, and what was captured are
  different files that are there now and were not before.
\<close>

definition run_safe :: "sample_dir \<Rightarrow> 'w run_state \<Rightarrow> bool" where
  "run_safe dir st \<longleftrightarrow>
     (\<forall>n v. is_md n \<longrightarrow> map_of dir n = Some v \<longrightarrow> map_of (rs_files st) n = Some v)
     \<and> length (rs_captured st) \<le> target_count
     \<and> distinct (map entry_markdown (rs_captured st))
     \<and> (\<forall>c \<in> set (rs_captured st). is_md (entry_markdown c) \<and> map_of dir (entry_markdown c) = None
          \<and> (\<exists>md. map_of (rs_files st) (entry_markdown c) = Some (Text_file md)))"

definition run_ok :: "sample_dir \<Rightarrow> 'w run_state \<Rightarrow> bool" where
  "run_ok dir st \<longleftrightarrow> run_safe dir st \<and> slugs_cover (rs_slugs st) (rs_files st)"

lemma run_ok_start: "run_ok dir \<lparr>rs_world = w, rs_files = dir, rs_slugs = md_stems dir, rs_captured = []\<rparr>"
  by (simp add: run_ok_def run_safe_def slugs_cover_def)

lemma run_ok_world: "run_ok dir (st\<lparr>rs_world := w\<rparr>) = run_ok dir st"
  by (simp add: run_ok_def run_safe_def)

lemma slug_not_Nil: "slug_of env iso_code document_id version \<noteq> []"
  by (simp add: slug_of_def)

lemma save_document_ok:
  assumes ok: "run_ok dir st" and n: "length (rs_captured st) < target_count"
    and s: "save_document env base p doc st = (st', r)"
  shows "run_safe dir st' \<and> (r = Inr () \<longrightarrow> run_ok dir st')"
proof -
  obtain iso_code url name where p: "p = (iso_code, url, name)" by (cases p)
  obtain document_id version slug where d: "document_slug env iso_code doc = (document_id, version, slug)"
    by (cases "document_slug env iso_code doc")
  have ne: "slug \<noteq> []" using d slug_not_Nil [of env iso_code document_id version] by (auto simp: document_slug_def Let_def)
  let ?meta = "with_provenance (provenance_of (fe_stamp env (rs_world st)) base iso_code url name 1) (ft_meta doc)"
  show ?thesis
  proof (cases "document_id = [] \<or> slug \<in> set (rs_slugs st)")
    case True
    then show ?thesis using s ok by (auto simp: save_document_def p d run_ok_def)
  next
    case False
    obtain files w where w: "write_pair slug (ft_markdown doc) ?meta (rs_files st) = (files, w)"
      by (cases "write_pair slug (ft_markdown doc) ?meta (rs_files st)")
    have c: "slugs_cover (rs_slugs st) (rs_files st)" using ok by (simp add: run_ok_def run_safe_def)
    note res = write_pair_result [OF w c _ ne]
    have fresh: "slug \<notin> set (rs_slugs st)" using False by simp
    note keeps = res(1) [OF fresh] and cover = res(2) [OF fresh] and new = res(3) [OF fresh] and written = res(4) [OF fresh]
    have old: "is_md m \<Longrightarrow> map_of dir m = Some v \<Longrightarrow> map_of files m = Some v" for m v
      using ok keeps by (simp add: run_ok_def run_safe_def)
    have entries: "is_md (entry_markdown c) \<and> map_of dir (entry_markdown c) = None
        \<and> (\<exists>md. map_of files (entry_markdown c) = Some (Text_file md))" if "c \<in> set (rs_captured st)" for c
      using ok that keeps [of "entry_markdown c"] by (fastforce simp: run_ok_def run_safe_def)
    have unlisted: "slug @ md_suffix \<notin> set (map entry_markdown (rs_captured st))"
      using ok new by (fastforce simp: run_ok_def run_safe_def)
    have absent: "map_of dir (slug @ md_suffix) = None"
      using ok new is_md_append [of slug] by (cases "map_of dir (slug @ md_suffix)") (auto simp: run_ok_def run_safe_def)
    show ?thesis
    proof (cases w)
      case (Inl e)
      then show ?thesis using s w False Inl ok old entries cover
        by (auto simp: save_document_def p d run_ok_def run_safe_def)
    next
      case (Inr x)
      then have "map_of files (slug @ md_suffix) = Some (Text_file (ft_markdown doc))" using written by simp
      then show ?thesis using s w False Inr ok n old entries cover unlisted absent
        by (auto simp: save_document_def p d run_ok_def run_safe_def)
    qed
  qed
qed

lemma capture_loop_ok:
  "run_ok dir st \<Longrightarrow> capture_loop env base picks tok st = (st', r) \<Longrightarrow> run_safe dir st'"
proof (induction env base picks tok st rule: capture_loop.induct)
  case (1 env base tok st)
  then show ?case by (simp add: run_ok_def)
next
  case (2 env base p picks tok st)
  show ?case
  proof (cases "target_count \<le> length (rs_captured st)")
    case True
    then show ?thesis using 2(4,5) by (simp add: run_ok_def)
  next
    case room: False
    obtain w o1 where f: "fetch_one env tok base (fst p) (fst (snd p)) (rs_world st) = (w, o1)"
      by (cases "fetch_one env tok base (fst p) (fst (snd p)) (rs_world st)")
    have ok: "run_ok dir (st\<lparr>rs_world := w\<rparr>)" using 2(4) by (simp add: run_ok_world)
    show ?thesis
    proof (cases o1)
      case (Inl e)
      show ?thesis by (rule 2(1) [OF room f [symmetric] Inl ok]) (use 2(5) room f Inl in simp)
    next
      case (Inr x)
      obtain tok1 found where x: "x = (tok1, found)" by (cases x)
      show ?thesis
      proof (cases found)
        case None
        show ?thesis by (rule 2(2) [OF room f [symmetric] Inr x [symmetric] None ok]) (use 2(5) room f Inr x None in simp)
      next
        case (Some doc)
        obtain st1 s where s: "save_document env base p doc (st\<lparr>rs_world := w\<rparr>) = (st1, s)"
          by (cases "save_document env base p doc (st\<lparr>rs_world := w\<rparr>)")
        have saved: "run_safe dir st1 \<and> (s = Inr () \<longrightarrow> run_ok dir st1)"
          by (rule save_document_ok [OF ok _ s]) (use room in simp)
        show ?thesis
        proof (cases s)
          case (Inl e)
          then show ?thesis using 2(5) room f Inr x Some s saved by simp
        next
          case r: (Inr y)
          have "run_ok dir st1" using saved r by simp
          then show ?thesis
            by (rule 2(3) [OF room f [symmetric] Inr x [symmetric] Some s [symmetric] r]) (use 2(5) room f Inr x Some s r in simp)
        qed
      qed
    qed
  qed
qed

text \<open>The outcome of a run, in terms of the files before and after.\<close>

lemma fetch_main_outcome:
  fixes env :: "'w fetch_env"
  assumes m: "fetch_main env vars dir w = (dir', r)"
  shows "is_md n \<Longrightarrow> map_of dir n = Some v \<Longrightarrow> map_of dir' n = Some v"
    and "r = Inr 0 \<Longrightarrow> \<exists>stamp captured. map_of dir' index_name = Some (Json_file (fixtures_index stamp captured))
          \<and> length captured \<le> target_count \<and> distinct (map entry_markdown captured)
          \<and> (\<forall>c \<in> set captured. map_of dir (entry_markdown c) = None
               \<and> (\<exists>md. map_of dir' (entry_markdown c) = Some (Text_file md)))"
proof -
  define base where "base = with_scheme (rstrip_slash (env_or vars ''LAWSTRONAUT_API_URL'' default_api_url))"
  define auth_url where "auth_url = with_scheme (env_or vars ''LAWSTRONAUT_AUTH_URL'' default_auth_url)"
  note def = fetch_main_def [of env vars dir w, unfolded Let_def, folded base_def auth_url_def]
  let ?start = "\<lambda>w1. \<lparr>rs_world = w1, rs_files = dir, rs_slugs = md_stems dir, rs_captured = []\<rparr>"
  have "(dir' = dir \<and> r \<noteq> Inr 0) \<or> (\<exists>st :: 'w run_state. run_safe dir st \<and> ((\<exists>e. dir' = rs_files st \<and> r = Inl e)
      \<or> (\<exists>stamp q. write_sample index_name (Json_file (fixtures_index stamp (rs_captured st))) (rs_files st) = (dir', q)
           \<and> (r = Inr 0 \<longrightarrow> q = Inr ()))))"
  proof (cases "env_or vars ''LAWSTRONAUT_EMAIL'' [] = [] \<or> env_or vars ''LAWSTRONAUT_PASSWORD'' [] = []")
    case True
    then show ?thesis using m def by auto
  next
    case False
    obtain w1 c where c: "candidates env (env_or vars ''LAWSTRONAUT_EMAIL'' []) (env_or vars ''LAWSTRONAUT_PASSWORD'' []) base auth_url w = (w1, c)"
      by (cases "candidates env (env_or vars ''LAWSTRONAUT_EMAIL'' []) (env_or vars ''LAWSTRONAUT_PASSWORD'' []) base auth_url w")
    show ?thesis
    proof (cases c)
      case (Inl e)
      then show ?thesis using m def False c by auto
    next
      case (Inr x)
      obtain tok picks where x: "x = (tok, picks)" by (cases x)
      obtain st o1 where l: "capture_loop env base picks tok (?start w1) = (st, o1)"
        by (cases "capture_loop env base picks tok (?start w1)")
      have safe: "run_safe dir st" by (rule capture_loop_ok [OF run_ok_start l])
      obtain files q where q: "write_sample index_name (Json_file (fixtures_index (fe_stamp env (rs_world st)) (rs_captured st))) (rs_files st) = (files, q)"
        by (cases "write_sample index_name (Json_file (fixtures_index (fe_stamp env (rs_world st)) (rs_captured st))) (rs_files st)")
      show ?thesis
      proof (cases o1)
        case (Inl e)
        then have "dir' = rs_files st \<and> r = Inl e" using m def False c Inr x l by simp
        then show ?thesis using safe by blast
      next
        case o1: (Inr y)
        have "dir' = files \<and> (r = Inr 0 \<longrightarrow> q = Inr ())"
          using m def False c Inr x l o1 q by (cases q) auto
        then show ?thesis using safe q by blast
      qed
    qed
  qed
  then consider "dir' = dir" "r \<noteq> Inr 0" | st :: "'w run_state" and e where "run_safe dir st" "dir' = rs_files st" "r = Inl e"
    | st :: "'w run_state" and stamp q where "run_safe dir st"
      "write_sample index_name (Json_file (fixtures_index stamp (rs_captured st))) (rs_files st) = (dir', q)" "r = Inr 0 \<longrightarrow> q = Inr ()"
    by blast
  note cases = this
  show "map_of dir' n = Some v" if "is_md n" "map_of dir n = Some v"
    using cases
  proof cases
    case 3
    have "n \<noteq> index_name" using that not_is_md(2) by metis
    from write_sample_keeps(1) [OF 3(2) this] show ?thesis using 3(1) that by (simp add: run_safe_def)
  qed (use that in \<open>simp_all add: run_safe_def\<close>)
  show "\<exists>stamp captured. map_of dir' index_name = Some (Json_file (fixtures_index stamp captured))
          \<and> length captured \<le> target_count \<and> distinct (map entry_markdown captured)
          \<and> (\<forall>c \<in> set captured. map_of dir (entry_markdown c) = None
               \<and> (\<exists>md. map_of dir' (entry_markdown c) = Some (Text_file md)))" if r: "r = Inr 0"
    using cases
  proof cases
    case 3
    have "map_of dir' (entry_markdown c) = map_of (rs_files st) (entry_markdown c)" if "is_md (entry_markdown c)" for c
      by (rule write_sample_keeps(1) [OF 3(2)]) (use that not_is_md(2) in metis)
    then have "\<forall>c \<in> set (rs_captured st). map_of dir (entry_markdown c) = None
        \<and> (\<exists>md. map_of dir' (entry_markdown c) = Some (Text_file md))" using 3(1) by (simp add: run_safe_def)
    moreover have "map_of dir' index_name = Some (Json_file (fixtures_index stamp (rs_captured st)))"
      by (rule write_sample_keeps(3) [OF 3(2)]) (use 3(3) r in simp)
    ultimately show ?thesis using 3(1) unfolding run_safe_def by blast
  qed (use r in simp_all)
qed

section \<open>The choice of a document\<close>

text \<open>
  The documents of a portal, read off its two listings: the metadata record at hand, and the last Markdown record
  with the same id. Usable is one whose id is present and free and whose Markdown is not blank and has a size, of at
  least 2000 bytes.
\<close>

definition record_id :: "'w fetch_env \<Rightarrow> jobj \<Rightarrow> ustr" where
  "record_id env d = py_str env (get_key d (u ''document_id''))"

definition last_record :: "'w fetch_env \<Rightarrow> json list \<Rightarrow> ustr \<Rightarrow> jobj \<Rightarrow> bool" where
  "last_record env rows k md \<longleftrightarrow>
     (\<exists>before after. rows = before @ JObj md # after \<and> record_id env md = k
        \<and> (\<forall>x. JObj x \<in> set after \<longrightarrow> record_id env x \<noteq> k))"

definition portal_document :: "'w fetch_env \<Rightarrow> ustr list \<Rightarrow> json list \<Rightarrow> json \<Rightarrow> filler_doc \<Rightarrow> bool" where
  "portal_document env used md_rows v d \<longleftrightarrow>
     v = JObj (fd_meta d) \<and> document_id_of env (fd_meta d) \<noteq> [] \<and> document_id_of env (fd_meta d) \<notin> set used
     \<and> (\<exists>md. last_record env md_rows (document_id_of env (fd_meta d)) md \<and> record_markdown md = Inr (fd_markdown d))
     \<and> strip (fd_markdown d) \<noteq> [] \<and> \<not> unencodable (fd_markdown d)
     \<and> fd_size d = utf8_length (fd_markdown d) \<and> 2000 \<le> fd_size d"

text \<open>What the portal answered: both listings, for the portal's code, URL and limit, one after the other.\<close>

definition portal_answers :: "'w fetch_env \<Rightarrow> ustr \<Rightarrow> portal_target \<Rightarrow> 'w \<Rightarrow> 'w \<Rightarrow> json list \<Rightarrow> json list \<Rightarrow> bool" where
  "portal_answers env bearer target w w' metas md_rows \<longleftrightarrow>
     (case target of (iso_code, portal_url, portal_name, limit) \<Rightarrow>
       \<exists>w1 records md_records.
         filler_listing env bearer (u ''/contents'') (contents_query iso_code portal_url limit) w = (w1, Inr (Some records))
         \<and> filler_listing env bearer (u ''/contents/markdown'') (contents_query iso_code portal_url limit) w1 = (w', Inr (Some md_records))
         \<and> py_iter records = Inr metas \<and> py_iter md_records = Inr md_rows)"

definition first_largest :: "(json \<Rightarrow> filler_doc \<Rightarrow> bool) \<Rightarrow> json list \<Rightarrow> filler_doc \<Rightarrow> bool" where
  "first_largest P vs d \<longleftrightarrow>
     (\<exists>before v after. vs = before @ v # after \<and> P v d
        \<and> (\<forall>x \<in> set before. \<forall>e. P x e \<longrightarrow> fd_size e < fd_size d)
        \<and> (\<forall>x \<in> set (v # after). \<forall>e. P x e \<longrightarrow> fd_size e \<le> fd_size d))"

definition add_record :: "'w fetch_env \<Rightarrow> (ustr \<rightharpoonup> jobj) \<Rightarrow> json \<Rightarrow> (ustr \<rightharpoonup> jobj) result" where
  "add_record env m r = bindE (as_dict r) (\<lambda>d. Inr (m(record_id env d \<mapsto> d)))"

lemma last_record_snoc:
  "last_record env (rows @ [JObj d]) k md \<longleftrightarrow> (if record_id env d = k then md = d else last_record env rows k md)"
proof
  assume "last_record env (rows @ [JObj d]) k md"
  then obtain before after where s: "rows @ [JObj d] = before @ JObj md # after" and k: "record_id env md = k"
    and other: "\<forall>x. JObj x \<in> set after \<longrightarrow> record_id env x \<noteq> k"
    by (auto simp: last_record_def)
  show "if record_id env d = k then md = d else last_record env rows k md"
  proof (cases after rule: rev_cases)
    case Nil
    then show ?thesis using s k by simp
  next
    case (snoc rest r)
    then have "rows = before @ JObj md # rest" "r = JObj d" using s by auto
    then show ?thesis using k other snoc by (auto simp: last_record_def)
  qed
next
  assume l: "if record_id env d = k then md = d else last_record env rows k md"
  show "last_record env (rows @ [JObj d]) k md"
  proof (cases "record_id env d = k")
    case True
    then show ?thesis using l unfolding last_record_def by (intro exI [of _ rows] exI [of _ "[]"]) simp
  next
    case False
    then obtain before after where s: "rows = before @ JObj md # after" and k: "record_id env md = k"
      and other: "\<forall>x. JObj x \<in> set after \<longrightarrow> record_id env x \<noteq> k" using l by (auto simp: last_record_def)
    show ?thesis unfolding last_record_def
      by (intro exI [of _ before] exI [of _ "after @ [JObj d]"]) (use s k other False in auto)
  qed
qed

lemma record_map:
  "foldE (add_record env) Map.empty rows = Inr m \<Longrightarrow> m k = Some md \<longleftrightarrow> last_record env rows k md"
proof (induction rows arbitrary: m rule: rev_induct)
  case Nil
  then show ?case by (auto simp: last_record_def)
next
  case (snoc r rows)
  then obtain m0 where m0: "foldE (add_record env) Map.empty rows = Inr m0" and m: "add_record env m0 r = Inr m"
    by (auto simp: foldE_append bindE_eq_Inr)
  from m obtain d where "r = JObj d" "m = m0(record_id env d \<mapsto> d)"
    by (auto simp: add_record_def as_dict_def bindE_eq_Inr split: json.splits)
  then show ?case using snoc.IH [OF m0] last_record_snoc [of env rows d k md] by auto
qed

lemma md_by_id_records:
  assumes "md_by_id env records = Inr md_of" "py_iter records = Inr rows"
  shows "md_of k = Some md \<longleftrightarrow> last_record env rows k md"
proof (rule record_map)
  show "foldE (add_record env) Map.empty rows = Inr md_of"
    using assms by (simp add: md_by_id_def add_record_def [abs_def] record_id_def)
qed

text \<open>A candidate is a usable document.\<close>

lemma filler_candidate_usable:
  assumes md: "\<And>k md. md_of k = Some md \<longleftrightarrow> last_record env rows k md"
    and c: "filler_candidate env used md_of v = Inr c"
  shows "portal_document env used rows v d \<longleftrightarrow> c = Some d"
proof -
  from c obtain meta where v: "v = JObj meta"
    by (auto simp: filler_candidate_def as_dict_def bindE_eq_Inr split: json.splits)
  let ?did = "document_id_of env meta"
  show ?thesis
  proof (cases "?did = [] \<or> ?did \<in> set used \<or> md_of ?did = None \<or> md_of ?did = Some []")
    case True
    have "record_markdown [] = Inr []" by (simp add: record_markdown_def get_key_def py_or_def truthy_def)
    moreover have "c = None" using c True by (auto simp: v filler_candidate_def as_dict_def Let_def split: if_splits)
    ultimately show ?thesis using True by (auto simp: portal_document_def v md [symmetric])
  next
    case False
    then obtain rec where r: "md_of ?did = Some rec" "rec \<noteq> []" by auto
    then obtain t where t: "record_markdown rec = Inr t" using c False
      by (auto simp: v filler_candidate_def as_dict_def Let_def bindE_eq_Inr)
    show ?thesis using c False r t
      by (cases d) (auto simp: portal_document_def v md [symmetric] filler_candidate_def as_dict_def Let_def split: if_splits)
  qed
qed

lemma first_largest_new:
  assumes "\<And>x e. x \<in> set vs \<Longrightarrow> P x e \<Longrightarrow> fd_size e < fd_size d" "\<And>e. P v e \<longleftrightarrow> e = d"
  shows "first_largest P (vs @ [v]) d"
  unfolding first_largest_def by (intro exI [of _ vs] exI [of _ v] exI [of _ "[]"]) (simp add: assms)

lemma first_largest_keep:
  assumes "first_largest P vs d" "\<And>e. P v e \<Longrightarrow> fd_size e \<le> fd_size d"
  shows "first_largest P (vs @ [v]) d"
proof -
  from assms(1) obtain before x after where f: "vs = before @ x # after" "P x d"
    "\<forall>x \<in> set before. \<forall>e. P x e \<longrightarrow> fd_size e < fd_size d" "\<forall>x \<in> set (x # after). \<forall>e. P x e \<longrightarrow> fd_size e \<le> fd_size d"
    unfolding first_largest_def by blast
  show ?thesis unfolding first_largest_def
    by (intro exI [of _ before] exI [of _ x] exI [of _ "after @ [v]"]) (use f assms(2) in auto)
qed

lemma first_largest_max:
  assumes "first_largest P vs d" "x \<in> set vs" "P x e" shows "fd_size e \<le> fd_size d"
proof -
  from assms(1) obtain before v after where f: "vs = before @ v # after"
    "\<forall>x \<in> set before. \<forall>e. P x e \<longrightarrow> fd_size e < fd_size d" "\<forall>x \<in> set (v # after). \<forall>e. P x e \<longrightarrow> fd_size e \<le> fd_size d"
    unfolding first_largest_def by blast
  then have "x \<in> set before \<or> x \<in> set (v # after)" using assms(2) by auto
  then show ?thesis using f(2,3) assms(3) less_imp_le by blast
qed

lemma best_candidate_best:
  assumes md: "\<And>k md. md_of k = Some md \<longleftrightarrow> last_record env rows k md"
  shows "best_candidate env used md_of vs = Inr best \<Longrightarrow>
    (case best of None \<Rightarrow> \<forall>v \<in> set vs. \<forall>d. \<not> portal_document env used rows v d
     | Some d \<Rightarrow> first_largest (portal_document env used rows) vs d)"
proof (induction vs arbitrary: best rule: rev_induct)
  case Nil
  then show ?case by (simp add: best_candidate_def)
next
  case (snoc v vs)
  let ?P = "portal_document env used rows"
  obtain b c where b: "best_candidate env used md_of vs = Inr b" and c: "filler_candidate env used md_of v = Inr c"
    and best: "best = better b c"
    using snoc.prems by (auto simp: best_candidate_def foldE_append bindE_eq_Inr)
  note P = filler_candidate_usable [OF md c]
  note IH = snoc.IH [OF b]
  consider "c = None" | d where "c = Some d" "b = None" | d e where "c = Some d" "b = Some e" by (cases c; cases b) auto
  then show ?case
  proof cases
    case 1
    then show ?thesis using IH P best
      by (auto simp: better_def split: option.splits intro: first_largest_keep)
  next
    case (2 d)
    have d: "?P v f \<longleftrightarrow> f = d" for f using P [of f] 2 by auto
    have "?P v d" using d by simp
    then have "0 < fd_size d" by (simp add: portal_document_def)
    moreover have "first_largest ?P (vs @ [v]) d" using IH 2 by (intro first_largest_new d) simp
    ultimately show ?thesis using 2 best by (simp add: better_def)
  next
    case (3 d e)
    have d: "?P v f \<longleftrightarrow> f = d" for f using P [of f] 3 by auto
    show ?thesis
    proof (cases "fd_size e < fd_size d")
      case True
      have "fd_size f < fd_size d" if "x \<in> set vs" "?P x f" for x f
        using first_largest_max [of ?P vs e x f] IH 3 that True by simp
      then have "first_largest ?P (vs @ [v]) d" by (intro first_largest_new d)
      then show ?thesis using best 3 True by (simp add: better_def)
    next
      case False
      have "first_largest ?P (vs @ [v]) e" using IH 3 False by (intro first_largest_keep) (auto simp: d)
      then show ?thesis using best 3 False by (simp add: better_def)
    qed
  qed
qed

text \<open>The choice of a portal, against what it answered.\<close>

definition portal_pick :: "'w fetch_env \<Rightarrow> ustr \<Rightarrow> portal_target \<Rightarrow> ustr list \<Rightarrow> 'w \<Rightarrow> 'w \<Rightarrow> filler_doc \<Rightarrow> bool" where
  "portal_pick env bearer target used w w' d \<longleftrightarrow>
     (\<exists>metas md_rows. portal_answers env bearer target w w' metas md_rows
        \<and> first_largest (portal_document env used md_rows) metas d)"

lemma chosen_filler:
  assumes "fetch_one_from_portal env bearer target used w = (w', Inr (Some d))"
  shows "portal_pick env bearer target used w w' d"
proof -
  obtain iso_code url name limit where t: "target = (iso_code, url, name, limit)" by (cases target)
  from assms obtain w1 records md_records metas md_of where
    l: "filler_listing env bearer (u ''/contents'') (contents_query iso_code url limit) w = (w1, Inr (Some records))"
      "filler_listing env bearer (u ''/contents/markdown'') (contents_query iso_code url limit) w1 = (w', Inr (Some md_records))"
    and m: "md_by_id env md_records = Inr md_of" "py_iter records = Inr metas"
    and b: "best_candidate env used md_of metas = Inr (Some d)"
    by (auto simp: fetch_one_from_portal_def t bindS_def pureS_def py_def bindE_eq_Inr split: prod.splits sum.splits option.splits if_splits)
  from m(1) obtain md_rows where rows: "py_iter md_records = Inr md_rows" by (auto simp: md_by_id_def bindE_eq_Inr)
  have "portal_answers env bearer target w w' metas md_rows"
    using l m(2) rows by (simp add: portal_answers_def t)
  moreover have "first_largest (portal_document env used md_rows) metas d"
    using best_candidate_best [OF md_by_id_records [OF m(1) rows] b] by simp
  ultimately show ?thesis unfolding portal_pick_def by blast
qed

lemma no_filler:
  assumes f: "fetch_one_from_portal env bearer target used w = (w', Inr None)"
    and a: "portal_answers env bearer target w w2 metas md_rows"
  shows "\<forall>v \<in> set metas. \<forall>d. \<not> portal_document env used md_rows v d"
proof -
  obtain iso_code url name limit where t: "target = (iso_code, url, name, limit)" by (cases target)
  from a obtain w1 records md_records where
    l: "filler_listing env bearer (u ''/contents'') (contents_query iso_code url limit) w = (w1, Inr (Some records))"
      "filler_listing env bearer (u ''/contents/markdown'') (contents_query iso_code url limit) w1 = (w2, Inr (Some md_records))"
    and i: "py_iter records = Inr metas" "py_iter md_records = Inr md_rows"
    by (auto simp: portal_answers_def t)
  show ?thesis
  proof (cases "truthy records")
    case True
    then have "py (bindE (md_by_id env md_records) (\<lambda>md_of. bindE (py_iter records) (best_candidate env used md_of))) = Inr None"
      using f by (simp add: fetch_one_from_portal_def t bindS_def l pureS_def)
    then obtain md_of where "md_by_id env md_records = Inr md_of" "best_candidate env used md_of metas = Inr None"
      by (auto simp: py_def bindE_eq_Inr i(1) split: sum.splits)
    then show ?thesis using best_candidate_best [OF md_by_id_records [OF _ i(2)]] by fastforce
  next
    case False
    then have "metas = []" using i(1) by (cases records) (simp_all add: truthy_def py_iter_def)
    then show ?thesis by simp
  qed
qed

lemma pick_fresh: "portal_pick env bearer target used w w' d \<Longrightarrow> document_id_of env (fd_meta d) \<notin> set used"
  by (auto simp: portal_pick_def first_largest_def portal_document_def)

section \<open>The merge\<close>

lemma row_key_row: "row_key v = Inr kv \<Longrightarrow> snd kv = v"
  by (auto simp: row_key_def bindE_eq_Inr)

lemma insert_row_mset: "insert_row x ys = Inr zs \<Longrightarrow> mset zs = mset (x # ys)"
  by (induction x ys arbitrary: zs rule: insert_row.induct) (auto simp: bindE_eq_Inr split: if_splits)

lemma sort_rows_mset: "sort_rows keyed = Inr out \<Longrightarrow> mset out = mset keyed"
  unfolding sort_rows_def
  by (induction keyed arbitrary: out rule: rev_induct) (auto simp: foldE_append bindE_eq_Inr dest: insert_row_mset)

lemma keyed_rows: "mapE row_key vs = Inr keyed \<Longrightarrow> map snd keyed = vs"
  by (induction vs arbitrary: keyed) (auto simp: bindE_eq_Inr dest: row_key_row)

text \<open>Rows whose key is made of three texts, which all those written by the scripts are, come out in the order of the keys.\<close>

definition text_key :: "json \<Rightarrow> (ustr \<times> ustr \<times> ustr) option" where
  "text_key v =
     (case (subscript v (u ''iso''), subscript v (u ''portal_url''), subscript v (u ''document_id'')) of
        (Inr (JStr a), Inr (JStr b), Inr (JStr c)) \<Rightarrow> Some (a, b, c)
      | _ \<Rightarrow> None)"

fun text_triple :: "ustr \<times> ustr \<times> ustr \<Rightarrow> json" where
  "text_triple (a, b, c) = JList [JStr a, JStr b, JStr c]"

lemma text_key_row: "text_key v = Some k \<Longrightarrow> row_key v = Inr (text_triple k, v)"
  by (cases k) (auto simp: text_key_def row_key_def split: sum.splits json.splits)

lemma py_less_triple: "py_less (text_triple k) (text_triple l) = Inr (k < l)"
  by (cases k; cases l) auto

definition keyed_text :: "json \<times> json \<Rightarrow> bool" where
  "keyed_text kv \<longleftrightarrow> (\<exists>k. text_key (snd kv) = Some k \<and> fst kv = text_triple k)"

lemma insert_row_sorted:
  "insert_row x ys = Inr zs \<Longrightarrow> \<forall>kv \<in> set (x # ys). keyed_text kv \<Longrightarrow>
     sorted (map (\<lambda>kv. the (text_key (snd kv))) ys) \<Longrightarrow> sorted (map (\<lambda>kv. the (text_key (snd kv))) zs)"
proof (induction x ys arbitrary: zs rule: insert_row.induct)
  case (2 x y ys)
  obtain k l where k: "text_key (snd x) = Some k" "fst x = text_triple k" and l: "text_key (snd y) = Some l" "fst y = text_triple l"
    using 2(3) by (auto simp: keyed_text_def)
  have less: "py_less (fst x) (fst y) = Inr (k < l)" using k l by (simp add: py_less_triple)
  show ?case
  proof (cases "k < l")
    case True
    then have "zs = x # y # ys" using 2(2) k l by (simp add: py_less_triple)
    then show ?thesis using 2(4) True k l by (auto simp: less_imp_le dest: order_trans [OF less_imp_le [OF True]])
  next
    case False
    then obtain zs' where z: "insert_row x ys = Inr zs'" "zs = y # zs'" using 2(2) k l by (auto simp: py_less_triple bindE_eq_Inr)
    have "sorted (map (\<lambda>kv. the (text_key (snd kv))) zs')"
      using 2(1) [OF less _ z(1)] 2(3,4) False by simp
    moreover have "set zs' = insert x (set ys)" using insert_row_mset [OF z(1)] by (metis mset_eq_setD list.simps(15))
    ultimately show ?thesis using 2(4) z(2) k l False by auto
  qed
qed simp

lemma sort_rows_sorted:
  "sort_rows keyed = Inr out \<Longrightarrow> \<forall>kv \<in> set keyed. keyed_text kv \<Longrightarrow> sorted (map (\<lambda>kv. the (text_key (snd kv))) out)"
  unfolding sort_rows_def
proof (induction keyed arbitrary: out rule: rev_induct)
  case (snoc x keyed)
  then obtain acc where acc: "foldE (\<lambda>acc x. insert_row x acc) [] keyed = Inr acc" "insert_row x acc = Inr out"
    by (auto simp: foldE_append bindE_eq_Inr)
  have "set acc = set keyed" by (rule mset_eq_setD [OF sort_rows_mset]) (simp add: sort_rows_def acc(1))
  moreover have "sorted (map (\<lambda>kv. the (text_key (snd kv))) acc)" using snoc(1) [OF acc(1)] snoc(3) by simp
  ultimately show ?case using snoc(3) by (intro insert_row_sorted [OF acc(2)]) simp_all
qed simp

lemma mapE_keyed_text: "mapE row_key vs = Inr keyed \<Longrightarrow> \<forall>v \<in> set vs. text_key v \<noteq> None \<Longrightarrow> \<forall>kv \<in> set keyed. keyed_text kv"
proof (induction vs arbitrary: keyed)
  case (Cons v vs)
  obtain k where k: "text_key v = Some k" using Cons.prems(2) by auto
  obtain rest where rest: "mapE row_key vs = Inr rest" "keyed = (text_triple k, v) # rest"
    using Cons.prems(1) text_key_row [OF k] by (auto simp: bindE_eq_Inr)
  have "\<forall>kv \<in> set rest. keyed_text kv" by (rule Cons.IH [OF rest(1)]) (use Cons.prems(2) in simp)
  moreover have "keyed_text (text_triple k, v)" using k by (simp add: keyed_text_def)
  ultimately show ?case using rest(2) by simp
qed simp

definition rows_merged :: "jobj \<Rightarrow> jobj list \<Rightarrow> jobj \<Rightarrow> bool" where
  "rows_merged d captured d' \<longleftrightarrow>
     (\<exists>rows rows'. (case map_of d (u ''fixtures'') of None \<Rightarrow> rows = [] | Some x \<Rightarrow> x = JList rows)
        \<and> map_of d' (u ''fixtures'') = Some (JList rows') \<and> mset rows' = mset rows + mset (map JObj captured)
        \<and> ((\<forall>v \<in> set rows'. text_key v \<noteq> None) \<longrightarrow> sorted (map (\<lambda>v. the (text_key v)) rows')))
     \<and> (\<forall>k. k \<noteq> u ''fixtures'' \<and> k \<noteq> u ''_provenance'' \<longrightarrow> map_of d' k = map_of d k)"

lemma rows_mergedI:
  "(case map_of d (u ''fixtures'') of None \<Rightarrow> rows = [] | Some x \<Rightarrow> x = JList rows) \<Longrightarrow>
   map_of d' (u ''fixtures'') = Some (JList rows') \<Longrightarrow> mset rows' = mset rows + mset (map JObj captured) \<Longrightarrow>
   ((\<forall>v \<in> set rows'. text_key v \<noteq> None) \<Longrightarrow> sorted (map (\<lambda>v. the (text_key v)) rows')) \<Longrightarrow>
   (\<And>k. k \<noteq> u ''fixtures'' \<Longrightarrow> k \<noteq> u ''_provenance'' \<Longrightarrow> map_of d' k = map_of d k) \<Longrightarrow> rows_merged d captured d'"
  unfolding rows_merged_def by blast

lemma merge_index_result:
  assumes m: "merge_index stamp captured (JObj d) = Inr v"
  shows "\<exists>d'. v = JObj d' \<and> rows_merged d captured d'"
proof -
  from m obtain rows keyed out prov where rows: "(case map_of d (u ''fixtures'') of None \<Rightarrow> JList [] | Some v \<Rightarrow> v) = JList rows"
    and keyed: "mapE row_key (rows @ map JObj captured) = Inr keyed" and out: "sort_rows keyed = Inr out"
    and v: "v = JObj (AList.update (u ''_provenance'') (JObj (AList.update (u ''last_appended_at'') (JStr stamp) prov))
                   (AList.update (u ''fixtures'') (JList (map snd out)) d))"
    by (auto simp: merge_index_def as_dict_def bindE_eq_Inr split: json.splits option.splits)
  have ne: "u ''fixtures'' \<noteq> u ''_provenance''" by (simp add: u_def)
  have r: "mset (map snd out) = mset rows + mset (map JObj captured)"
    using sort_rows_mset [OF out] keyed_rows [OF keyed] by (metis mset_append mset_map)
  have "sorted (map (\<lambda>v. the (text_key v)) (map snd out))" if "\<forall>v \<in> set (map snd out). text_key v \<noteq> None"
  proof -
    have "set (map snd out) = set (rows @ map JObj captured)" by (rule mset_eq_setD) (simp only: r mset_append)
    then show ?thesis
      using sort_rows_sorted [OF out mapE_keyed_text [OF keyed]] that by (simp add: comp_def)
  qed
  moreover have "case map_of d (u ''fixtures'') of None \<Rightarrow> rows = [] | Some x \<Rightarrow> x = JList rows"
    using rows by (cases "map_of d (u ''fixtures'')") simp_all
  ultimately show ?thesis unfolding v
    by (intro exI [of _ "AList.update (u ''_provenance'') (JObj (AList.update (u ''last_appended_at'') (JStr stamp) prov))
          (AList.update (u ''fixtures'') (JList (map snd out)) d)"] conjI refl rows_mergedI [where rows = rows and rows' = "map snd out"])
      (use r ne in \<open>simp_all add: update_conv'\<close>)
qed

section \<open>The run of the fillers\<close>

lemma index_not_meta: "slug @ u ''.meta.json'' \<noteq> index_name"
proof
  assume "slug @ u ''.meta.json'' = index_name"
  then have "take 6 (rev (slug @ u ''.meta.json'')) = take 6 (rev index_name)" by simp
  then show False by (simp add: index_name_def u_def)
qed

lemma index_not_md: "slug @ md_suffix \<noteq> index_name"
  using is_md_append [of slug] not_is_md(2) by metis

lemma write_pair_index:
  assumes "write_pair slug md meta dir = (dir', r)"
  shows "map_of dir' index_name = map_of dir index_name"
proof -
  obtain dir1 r1 where w1: "write_sample (slug @ md_suffix) (Text_file md) dir = (dir1, r1)"
    by (cases "write_sample (slug @ md_suffix) (Text_file md) dir")
  have "map_of dir1 index_name = map_of dir index_name"
    using index_not_md [of slug] by (intro write_sample_keeps(1) [OF w1]) simp
  moreover have "map_of dir' index_name = map_of dir1 index_name"
  proof (cases r1)
    case (Inl e)
    then show ?thesis using assms w1 by (simp add: write_pair_def)
  next
    case (Inr x)
    then have w2: "write_sample (slug @ u ''.meta.json'') (Json_file meta) dir1 = (dir', r)"
      using assms w1 by (simp add: write_pair_def)
    show ?thesis by (rule write_sample_keeps(1) [OF w2]) (rule index_not_meta [symmetric])
  qed
  ultimately show ?thesis by simp
qed

definition entry_id :: "jobj \<Rightarrow> ustr" where
  "entry_id c = jtext c ''document_id''"

lemma index_entry_id [simp]: "entry_id (index_entry iso_code url name document_id version meta n slug) = document_id"
  by (simp add: entry_id_def index_entry_def get_key_def jtext_def u_def)

text \<open>
  The rows of a run, portal after portal: the row of the portal's pick, whose id is then taken, or none when the
  portal did not answer or answered no usable document.
\<close>

definition portal_left :: "'w fetch_env \<Rightarrow> ustr \<Rightarrow> portal_target \<Rightarrow> 'w \<Rightarrow> 'w \<Rightarrow> bool" where
  "portal_left env bearer target w w' \<longleftrightarrow>
     (case target of (iso_code, portal_url, portal_name, limit) \<Rightarrow>
       let w1 = fst (filler_listing env bearer (u ''/contents'') (contents_query iso_code portal_url limit) w)
       in w' = w1 \<or> w' = fst (filler_listing env bearer (u ''/contents/markdown'') (contents_query iso_code portal_url limit) w1))"

inductive filler_rows :: "'w fetch_env \<Rightarrow> ustr \<Rightarrow> portal_target list \<Rightarrow> ustr list \<Rightarrow> 'w \<Rightarrow> jobj list \<Rightarrow> bool" for env bearer where
  finished: "filler_rows env bearer [] used w []"
| picked: "portal_pick env bearer target used w w' d \<Longrightarrow>
    filler_rows env bearer targets (used @ [document_id_of env (fd_meta d)]) w' rows \<Longrightarrow>
    filler_rows env bearer (target # targets) used w (filler_row env target d # rows)"
| skipped: "(\<And>w1 metas md_rows v d. portal_answers env bearer target w w1 metas md_rows \<Longrightarrow> v \<in> set metas \<Longrightarrow>
      \<not> portal_document env used md_rows v d) \<Longrightarrow> portal_left env bearer target w w' \<Longrightarrow>
    filler_rows env bearer targets used w' rows \<Longrightarrow> filler_rows env bearer (target # targets) used w rows"

lemma filler_row_id [simp]: "entry_id (filler_row env target d) = document_id_of env (fd_meta d)"
  by (cases target) (simp add: filler_row_def Let_def)

lemma filler_rows_fresh:
  "filler_rows env bearer targets used w rows \<Longrightarrow>
     distinct (map entry_id rows) \<and> entry_id ` set rows \<inter> set used = {} \<and> length rows \<le> length targets"
  by (induction rule: filler_rows.induct) (auto dest: pick_fresh)

lemma fetch_left:
  "fetch_one_from_portal env bearer target used w = (w', Inr None) \<Longrightarrow> portal_left env bearer target w w'"
  by (cases target) (auto simp: fetch_one_from_portal_def portal_left_def bindS_def pureS_def split: prod.splits sum.splits option.splits if_splits)

lemma save_filler_result:
  assumes s: "save_filler env target doc st = (st', Inr ())"
  shows "map_of (fl_files st') index_name = map_of (fl_files st) index_name \<and> fl_world st' = fl_world st
    \<and> fl_used st' = fl_used st @ [document_id_of env (fd_meta doc)]
    \<and> fl_captured st' = fl_captured st @ [filler_row env target doc]"
proof -
  obtain iso_code url name limit where t: "target = (iso_code, url, name, limit)" by (cases target)
  show ?thesis
    using s by (auto simp: save_filler_def t Let_def split: prod.splits sum.splits if_splits dest: write_pair_index)
qed

lemma filler_loop_rows:
  "filler_loop env bearer targets st = (st', Inr ()) \<Longrightarrow>
     map_of (fl_files st') index_name = map_of (fl_files st) index_name
     \<and> (\<exists>rows. fl_captured st' = fl_captured st @ rows \<and> filler_rows env bearer targets (fl_used st) (fl_world st) rows)"
proof (induction env bearer targets st rule: filler_loop.induct)
  case (1 env bearer st)
  then show ?case by (auto intro: filler_rows.finished)
next
  case (2 env bearer target targets st)
  obtain w o1 where f: "fetch_one_from_portal env bearer target (fl_used st) (fl_world st) = (w, o1)"
    by (cases "fetch_one_from_portal env bearer target (fl_used st) (fl_world st)")
  obtain found where Inr: "o1 = Inr found" using 2(3) f by (cases o1) auto
  show ?case
  proof (cases found)
    case None
    have none: "fetch_one_from_portal env bearer target (fl_used st) (fl_world st) = (w, Inr None)"
      using f Inr None by simp
    obtain rows where r: "map_of (fl_files st') index_name = map_of (fl_files st) index_name"
      "fl_captured st' = fl_captured st @ rows" "filler_rows env bearer targets (fl_used st) w rows"
      using 2(1) [OF f [symmetric] Inr None] 2(3) f Inr None by auto
    have "filler_rows env bearer (target # targets) (fl_used st) (fl_world st) rows"
      by (rule filler_rows.skipped [OF _ fetch_left [OF none] r(3)]) (use no_filler [OF none] in blast)
    then show ?thesis using r by blast
  next
    case (Some doc)
    obtain st1 s where s: "save_filler env target doc (st\<lparr>fl_world := w\<rparr>) = (st1, s)"
      by (cases "save_filler env target doc (st\<lparr>fl_world := w\<rparr>)")
    have ok: "s = Inr ()" using 2(3) f Inr Some s by (cases s) auto
    note saved = save_filler_result [OF s [unfolded ok]]
    have "filler_loop env bearer targets st1 = (st', Inr ())" using 2(3) f Inr Some s ok by simp
    from 2(2) [OF f [symmetric] Inr Some s [symmetric] ok this] saved
    obtain rows where r: "map_of (fl_files st') index_name = map_of (fl_files st) index_name"
      "fl_captured st' = fl_captured st @ filler_row env target doc # rows"
      "filler_rows env bearer targets (fl_used st @ [document_id_of env (fd_meta doc)]) w rows" by auto
    have "portal_pick env bearer target (fl_used st) (fl_world st) w doc"
      by (rule chosen_filler) (use f Inr Some in simp)
    from filler_rows.picked [OF this r(3)] show ?thesis using r by blast
  qed
qed

lemma fillers_main_outcome:
  assumes m: "fillers_main env vars dir w = (dir', Inr 0)" and d: "read_index dir = Inr (JObj d)"
  shows "\<exists>email password bearer w1 captured d'. filler_login env email password w = (w1, Inr bearer)
    \<and> vars ''LAWSTRONAUT_EMAIL'' = Some email \<and> vars ''LAWSTRONAUT_PASSWORD'' = Some password
    \<and> filler_rows env bearer (uk_targets @ eu_targets) (used_ids_of (md_stems dir)) w1 captured
    \<and> map_of dir' index_name = Some (Json_file (JObj d')) \<and> rows_merged d captured d'"
proof -
  let ?start = "\<lambda>w1. \<lparr>fl_world = w1, fl_files = dir, fl_used = used_ids_of (md_stems dir), fl_captured = []\<rparr>"
  from m obtain email password w1 bearer st where
    login: "vars ''LAWSTRONAUT_EMAIL'' = Some email" "vars ''LAWSTRONAUT_PASSWORD'' = Some password"
      "filler_login env email password w = (w1, Inr bearer)"
    and l: "filler_loop env bearer (uk_targets @ eu_targets) (?start w1) = (st, Inr ())"
    and rest: "(case bindE (read_index (fl_files st)) (\<lambda>v. py (merge_index (fe_stamp env (fl_world st)) (fl_captured st) v)) of
                       Inl e \<Rightarrow> (fl_files st, Inl e)
                     | Inr v \<Rightarrow>
                         (case write_sample index_name (Json_file v) (fl_files st) of
                            (files, Inl e) \<Rightarrow> (files, Inl e)
                          | (files, Inr _) \<Rightarrow> (files, Inr 0))) = (dir', Inr 0)"
    by (auto simp: fillers_main_def split: option.splits prod.splits sum.splits)
  from filler_loop_rows [OF l] have same: "map_of (fl_files st) index_name = map_of dir index_name"
    and rows: "filler_rows env bearer (uk_targets @ eu_targets) (used_ids_of (md_stems dir)) w1 (fl_captured st)" by auto
  have idx: "read_index (fl_files st) = Inr (JObj d)" using same d by (simp add: read_index_def)
  from rest idx obtain v where v: "merge_index (fe_stamp env (fl_world st)) (fl_captured st) (JObj d) = Inr v"
    and wr: "write_sample index_name (Json_file v) (fl_files st) = (dir', Inr ())"
    by (auto simp: py_def split: sum.splits prod.splits)
  have "map_of dir' index_name = Some (Json_file v)" by (rule write_sample_keeps(3) [OF wr]) simp
  with merge_index_result [OF v] show ?thesis using login rows by blast
qed

end
