(* ===== verification/Scripts_Properties.thy ===== *)
theory Scripts_Properties
  imports Endpoints_Correct Fetch_Correct
begin

text \<open>
  The properties of the scripts: the reference of the endpoints, and the samples fetched from the upstream API.
\<close>

section \<open>Samples\<close>

definition sample_field :: "string \<Rightarrow> schema" where
  "sample_field t = Schema None None (Some (One_type (u t))) None None (Some (u ''a field'')) None None True"

definition sample_operation :: "string \<Rightarrow> operation" where
  "sample_operation summary =
     \<lparr>op_tags = Some [u ''documents''], op_summary = Some (u summary), op_description = None, op_parameters = None,
      op_request_body = None, op_responses = Some [(u ''200'', \<lparr>rs_description = None, rs_content = None\<rparr>)]\<rparr>"

definition sample_item :: "(ustr \<times> operation) list" where
  "sample_item = [(u ''get'', sample_operation ''List''), (u ''post'', sample_operation ''Create'')]"

definition sample_document :: openapi where
  "sample_document = \<lparr>oa_schemas = None, oa_paths = Some [(u ''/v1/a'', sample_item), (u ''/v1/b'', sample_item)]\<rparr>"

definition permuted_document :: openapi where
  "permuted_document = \<lparr>oa_schemas = None, oa_paths = Some [(u ''/v1/b'', rev sample_item), (u ''/v1/a'', sample_item)]\<rparr>"

definition empty_document :: openapi where
  "empty_document = \<lparr>oa_schemas = None, oa_paths = None\<rparr>"

section \<open>The reference of the endpoints\<close>

text \<open>C38. The text of the reference is a function of the OpenAPI document as a value: when two documents are
  equal but for the order of their mappings (paths, methods, responses, media types, components and the fields
  of a schema at every depth), the rendered Markdown is the same, so a run is reproducible.\<close>

theorem endpoints_order_free:
  assumes "same_openapi s s'"
  shows "render_markdown s = render_markdown s'"
  using assms by (rule same_openapi_text)

lemma endpoints_order_free_witness:
  "sample_document \<noteq> permuted_document \<and> render_markdown sample_document = render_markdown permuted_document"
proof
  have item: "same_dict same_operation sample_item sample_item" "same_dict same_operation sample_item (rev sample_item)"
    by (auto simp: same_dict_def sample_item_def sample_operation_def same_operation_def same_response_def u_def)
  have paths: "distinct [u ''/v1/a'', u ''/v1/b'']" by (simp add: u_def)
  show "sample_document \<noteq> permuted_document"
    using paths by (simp add: sample_document_def permuted_document_def)
  show "render_markdown sample_document = render_markdown permuted_document"
    by (rule endpoints_order_free)
      (use item paths in \<open>auto simp: same_openapi_def sample_document_def permuted_document_def same_dict_def\<close>)
qed

text \<open>C37. The environment that the script prepares builds the application whatever the throwaway keys are. A run
  then writes the reference, a second run writes the same file, and \<open>--check\<close> with other keys accepts it and
  changes nothing; with any other file the check reports 1. Every operation of the document stands in the text,
  under the heading of each of its tags.\<close>

theorem endpoints_reference_current:
  assumes "\<forall>k \<in> set required_vars. env k \<noteq> Some []" "priv \<noteq> []" "pub \<noteq> []" "priv' \<noteq> []" "pub' \<noteq> []"
    and "''--check'' \<notin> set argv" "''--check'' \<in> set argv'" "da_directory d"
    and "\<forall>app. \<forall>c \<in> set (render_markdown (openapi_of app)). c \<noteq> 13 \<and> \<not> surrogate c"
  shows "\<exists>app. (let run = regen_main (priv, pub) (create_app hex cors router) openapi_of env argv;
      check = regen_main (priv', pub') (create_app hex cors router) openapi_of env argv';
      md = render_markdown (openapi_of app); d' = d\<lparr>da_endpoints := Some md\<rparr>
    in run d = (d', Inr 0) \<and> run d' = (d', Inr 0) \<and> check d' = (d', Inr 0)
       \<and> (map_option universal_newlines (da_endpoints d) \<noteq> Some md \<longrightarrow> check d = (d, Inr 1))
       \<and> (\<forall>(path_name, item) \<in> set (or_else [] (oa_paths (openapi_of app))).
            \<forall>(method, op) \<in> set item. \<forall>tag \<in> set (tags_of op). method \<in> set method_order \<longrightarrow>
              (\<exists>before between after. md = before @ (u ''## '' @ tag @ [10]) @ between
                 @ render_operation path_name method op (or_else [] (oa_schemas (openapi_of app))) @ after)))"
proof -
  obtain app where app: "\<And>p q. p \<noteq> [] \<Longrightarrow> q \<noteq> [] \<Longrightarrow> create_app hex cors router (bootstrap_env p q env) = Inr app"
    using factory_total [OF assms(1), of hex cors router] by blast
  let ?md = "render_markdown (openapi_of app)"
  have enc: "13 \<notin> set ?md" "\<forall>c \<in> set ?md. \<not> surrogate c" using assms(9) by blast+
  have run_env: "create_app hex cors router (bootstrap_env (fst (priv, pub)) (snd (priv, pub)) env) = Inr app"
    using app [OF assms(2,3)] by simp
  have check_env: "create_app hex cors router (bootstrap_env (fst (priv', pub')) (snd (priv', pub')) env) = Inr app"
    using app [OF assms(4,5)] by simp
  note run = regen_run(1) [where keys = "(priv, pub)" and factory = "create_app hex cors router" and env = env and app = app and openapi_of = openapi_of and argv = argv, OF run_env enc assms(6)]
  note check = regen_run(2) [where keys = "(priv', pub')" and factory = "create_app hex cors router" and env = env and app = app and openapi_of = openapi_of and argv = argv', OF check_env enc assms(7)]
  have rows: "(tag, path_name, m, o1) \<in> set (spec_rows (openapi_of app))"
    if "(path_name, item) \<in> set (or_else [] (oa_paths (openapi_of app)))" "(m, o1) \<in> set item" "tag \<in> set (tags_of o1)"
      "m \<in> set method_order" for path_name item m o1 tag
    unfolding spec_rows_def using that by (rule tagged_entriesI)
  have ids: "universal_newlines ?md = ?md" by (rule universal_newlines_id [OF enc(1)])
  show ?thesis
    unfolding Let_def
  proof (rule exI [of _ app], intro conjI impI ballI)
    fix x y tag
    assume x: "x \<in> set (or_else [] (oa_paths (openapi_of app)))"
    show "case x of (path_name, item) \<Rightarrow> \<forall>(method, op) \<in> set item. \<forall>tag \<in> set (tags_of op). method \<in> set method_order \<longrightarrow>
        (\<exists>before between after. ?md = before @ (u ''## '' @ tag @ [10]) @ between
           @ render_operation path_name method op (or_else [] (oa_schemas (openapi_of app))) @ after)"
      using x rows operation_in_text [of _ _ _ _ "openapi_of app"] by (clarsimp simp del: append.simps append_assoc)
  qed (use assms(8) ids in \<open>simp_all add: run check\<close>)
qed

lemma u_return: "13 \<in> set (u s) \<longleftrightarrow> CHR 0x0D \<in> set s"
proof -
  have e: "of_char (CHR 0x0D) = (13 :: nat)" by simp
  have "of_char c = (13 :: nat) \<longleftrightarrow> c = CHR 0x0D" for c
    unfolding e [symmetric] by (rule of_char_eq_iff)
  then have "(13 :: nat) \<in> of_char ` set s \<longleftrightarrow> CHR 0x0D \<in> set s" by (metis (no_types, lifting) image_iff)
  then show ?thesis by (simp add: u_def)
qed

lemma u_latin: "c \<in> set (u s) \<Longrightarrow> \<not> surrogate c"
  by (auto simp: u_def surrogate_def dest!: order_trans [OF _ less_imp_le [OF nat_of_char_less_256]])

lemma set_join: "set (join sep ls) \<subseteq> set sep \<union> (\<Union>l \<in> set ls. set l)"
  by (induction sep ls rule: join.induct) auto

lemma empty_reference_encodable: "\<forall>c \<in> set (render_markdown empty_document). c \<noteq> 13 \<and> \<not> surrogate c"
proof -
  have "render_markdown empty_document = preamble @ [10] @ u ''_(no endpoints registered)_'' @ [10]"
    by (simp add: render_markdown_def operations_by_tag_def tagged_entries_def empty_document_def)
  moreover have "\<forall>c \<in> set preamble. c \<noteq> 13 \<and> \<not> surrogate c"
  proof
    fix c assume c: "c \<in> set preamble"
    have "13 \<notin> set preamble" unfolding preamble_def
      by (rule contra_subsetD [OF set_join]) (simp add: u_return em_dash_def)
    moreover have "\<not> surrogate c"
      using c set_join [of "[10]"] unfolding preamble_def
      by (force simp: em_dash_def surrogate_def [of 10] surrogate_def [of 8212] dest: u_latin)
    ultimately show "c \<noteq> 13 \<and> \<not> surrogate c" using c by blast
  qed
  ultimately show ?thesis by (auto simp: u_return surrogate_def [of 10] dest: u_latin)
qed

definition idle_router :: app where
  "idle_router = (\<lambda>rq st. (st, [], None))"

lemma endpoints_reference_current_witness:
  "\<exists>app. (let run = regen_main (''k'', ''l'') (create_app (\<lambda>n. ''a'') (\<lambda>os a. a) idle_router) (\<lambda>app. empty_document) (\<lambda>k. None) [];
      check = regen_main (''m'', ''n'') (create_app (\<lambda>n. ''a'') (\<lambda>os a. a) idle_router) (\<lambda>app. empty_document) (\<lambda>k. None) [''--check''];
      md = render_markdown empty_document; d' = \<lparr>da_directory = True, da_endpoints = Some md\<rparr>
    in run \<lparr>da_directory = True, da_endpoints = None\<rparr> = (d', Inr 0) \<and> check d' = (d', Inr 0))"
  using endpoints_reference_current [where env = "\<lambda>k. None" and priv = "''k''" and pub = "''l''" and priv' = "''m''" and pub' = "''n''"
      and argv = "[]" and argv' = "[''--check'']" and d = "\<lparr>da_directory = True, da_endpoints = None\<rparr>"
      and openapi_of = "\<lambda>app. empty_document" and hex = "\<lambda>n. ''a''" and cors = "\<lambda>os a. a" and router = idle_router]
    empty_reference_encodable by (simp add: Let_def)

section \<open>Fetched samples\<close>

text \<open>An upstream with one jurisdiction, one portal and one document; a record serves every listing.\<close>

definition demo_record :: json where
  "demo_record = JObj [(u ''iso'', JStr (u ''NL'')), (u ''name'', JStr (u ''Netherlands'')), (u ''type'', JStr (u ''country'')),
     (u ''url'', JStr (u ''p'')), (u ''document_id'', JStr (u ''7'')), (u ''content_markdown'', JStr (u ''text''))]"

definition demo_send :: "call \<Rightarrow> unit \<Rightarrow> unit \<times> answer" where
  "demo_send c w = (w, Answer 200 (Some (case c of
     Post_login a e p \<Rightarrow> JObj [(u ''refresh_token'', JStr (u ''t''))]
   | Get_json a b ps \<Rightarrow> JObj [(u ''data'', JList [demo_record])])))"

definition demo_env :: "unit fetch_env" where
  "demo_env = \<lparr>fe_send = demo_send, fe_time = (\<lambda>w. 0), fe_stamp = (\<lambda>w. u ''now''), fe_int = (\<lambda>s. None), fe_show = (\<lambda>v. []),
     fe_lower = map (\<lambda>c. if 65 \<le> c \<and> c \<le> 90 then c + 32 else c)\<rparr>"

definition demo_vars :: "string \<Rightarrow> ustr option" where
  "demo_vars = [''LAWSTRONAUT_EMAIL'' \<mapsto> u ''e'', ''LAWSTRONAUT_PASSWORD'' \<mapsto> u ''p'']"

definition demo_token :: token where
  "demo_token = \<lparr>tk_bearer = u ''t'', tk_expires = 1800, tk_email = u ''e'', tk_password = u ''p'', tk_auth_url = default_auth_url\<rparr>"

lemmas io_simps = bindS_def pureS_def py_def send_def resp_json_def raise_for_status_def payload_data_def as_dict_def

lemma u_eq_iff [simp]: "u s = u t \<longleftrightarrow> s = t"
  by (simp add: u_def inj_eq [OF inj_mapI] inj_of_char)

lemma u_Nil_iff [simp]: "u s = [] \<longleftrightarrow> s = []" "[] = u s \<longleftrightarrow> s = []"
  by (auto simp: u_def)

lemma demo_login: "script_login demo_env (u ''e'') (u ''p'') default_auth_url () = ((), Inr demo_token)"
  by (simp add: script_login_def io_simps demo_env_def demo_send_def login_token_def login_bearer_def login_blob_def inner_dict_def
      get_key_def py_or_def truthy_def py_int_def demo_token_def)

lemma demo_get: "authed_get demo_env demo_token base path_name ps () =
    ((), Inr (demo_token, (200, Some (JObj [(u ''data'', JList [demo_record])]))))"
  by (simp add: authed_get_def maybe_refresh_def near_expiry_def io_simps demo_env_def demo_send_def demo_token_def)

lemma demo_retry: "get_with_retry demo_env demo_token base path_name n ps () =
    ((), Inr (demo_token, Some (200, Some (JObj [(u ''data'', JList [demo_record])]))))"
  by (simp add: get_with_retry.simps [of demo_env] demo_get)

lemma strip_word: "s \<noteq> [] \<Longrightarrow> \<not> isspace (hd s) \<Longrightarrow> \<not> isspace (last s) \<Longrightarrow> strip s = s"
proof -
  assume s: "s \<noteq> []" "\<not> isspace (hd s)" "\<not> isspace (last s)"
  have drop: "dropWhile isspace t = t" if "t \<noteq> []" "\<not> isspace (hd t)" for t using that by (cases t) simp_all
  have "lstrip s = s" using drop [of s] s by (simp add: lstrip_def)
  moreover have "dropWhile isspace (rev s) = rev s" using drop [of "rev s"] s by (simp add: hd_rev)
  ultimately show "strip s = s" by (simp add: strip_def rstrip_def)
qed

lemma demo_stripped: "strip (u ''Netherlands'') = u ''Netherlands''" "strip (u ''NL'') = u ''NL''" "strip (u ''text'') = u ''text''"
  by (rule strip_word; simp add: u_def isspace_def)+

lemma demo_candidates:
  "candidates demo_env (u ''e'') (u ''p'') base default_auth_url () = ((), Inr (demo_token, [(u ''NL'', u ''p'', u ''Netherlands'')]))"
  by (simp add: candidates_def fetch_jurisdictions_def fetch_portals_for_iso_def tag_portals_def country_to_iso_def country_isos_def
      name_and_iso_def pick_pairs_def portal_row_def iso_of_portal_def queues_of_def pick_loop.simps target_count_def
      io_simps demo_login demo_get demo_record_def py_iter_def get_text_def get_key_def truthy_def demo_stripped)

definition demo_fields :: jobj where
  "demo_fields = (case demo_record of JObj d \<Rightarrow> d | _ \<Rightarrow> [])"

definition demo_fetched :: fetched where
  "demo_fetched = \<lparr>ft_meta = demo_fields, ft_markdown = u ''text'', ft_md_document_id = u ''7''\<rparr>"

lemma demo_fetch_one: "fetch_one demo_env demo_token base iso_code url () = ((), Inr (demo_token, Some demo_fetched))"
  by (simp add: fetch_one_def demo_retry io_simps first_record_def index0_def truthy_def demo_record_def record_markdown_def
      get_key_def py_or_def demo_stripped py_str_def demo_fetched_def demo_fields_def)

lemma demo_slug: "document_slug demo_env (u ''NL'') demo_fetched = (u ''7'', JInt 1, u ''nl-7-v1'')"
  by (simp add: document_slug_def demo_fetched_def demo_fields_def demo_record_def get_key_def py_or_def truthy_def py_str_def
      slug_of_def int_text_def digits_of.simps demo_env_def u_def)

lemma demo_write:
  "write_pair (u ''nl-7-v1'') (u ''text'') meta [] =
     ([(u ''nl-7-v1'' @ md_suffix, Text_file (u ''text'')), (u ''nl-7-v1'' @ u ''.meta.json'', Json_file meta)], Inr ())"
  by (simp add: write_pair_def write_sample_def bad_name_def unencodable_def surrogate_def u_def md_suffix_def)

lemma demo_main: "\<exists>dir'. fetch_main demo_env demo_vars [] () = (dir', Inr 0)
  \<and> map_of dir' (u ''nl-7-v1'' @ md_suffix) = Some (Text_file (u ''text''))"
proof -
  have auth: "with_scheme default_auth_url = default_auth_url"
    by (simp add: with_scheme_def starts_with_def default_auth_url_def u_def)
  have slugs: "md_stems [] = []" by (simp add: md_stems_def)
  have good: "\<not> bad_name index_name" by (simp add: bad_name_def unencodable_def surrogate_def index_name_def u_def)
  have ne: "index_name \<noteq> u ''nl-7-v1'' @ md_suffix" using index_not_md [of "u ''nl-7-v1''"] by metis
  show ?thesis
    by (simp add: fetch_main_def env_or_def demo_vars_def auth demo_candidates slugs target_count_def demo_fetch_one
        save_document_def demo_slug demo_write write_sample_def good update_conv' ne ne [symmetric] Let_def
        demo_fetched_def [THEN arg_cong [of _ _ ft_markdown], simplified])
qed

text \<open>C39. The pairs to sample are taken in rounds: the first portal of every jurisdiction, then the second of
  those that have one, and so on, up to the target. Whatever the upstream answers and however the run ends, no
  Markdown file that was in the directory changes. A run that succeeds writes at most thirty documents, and its
  index lists these and nothing else: every file it names is new, so that the rows of earlier runs are gone.\<close>

theorem fetch_keeps_samples:
  assumes "fetch_main env vars dir w = (dir', r)"
  shows "pick_pairs lower portals iso_map target =
      bindE (mapE (portal_row lower iso_map) portals) (\<lambda>rows.
        Inr (take target (all_rounds (queues_of (concat (map (\<lambda>r. case r of None \<Rightarrow> [] | Some x \<Rightarrow> [x]) rows))))))
    \<and> (is_md n \<and> map_of dir n = Some v \<longrightarrow> map_of dir' n = Some v)
    \<and> (r = Inr 0 \<longrightarrow> (\<exists>stamp captured. map_of dir' index_name = Some (Json_file (fixtures_index stamp captured))
          \<and> length captured \<le> target_count \<and> distinct (map entry_markdown captured)
          \<and> (\<forall>c \<in> set captured. map_of dir (entry_markdown c) = None
               \<and> (\<exists>md. map_of dir' (entry_markdown c) = Some (Text_file md)))))"
  using fetch_main_outcome [OF assms] by (auto simp: pick_pairs_def pick_loop_rounds)

lemma fetch_keeps_samples_witness:
  "\<exists>dir'. fetch_main demo_env demo_vars [] () = (dir', Inr 0)
    \<and> map_of dir' (u ''nl-7-v1'' @ md_suffix) = Some (Text_file (u ''text''))
    \<and> (\<exists>stamp captured. map_of dir' index_name = Some (Json_file (fixtures_index stamp captured)))"
  using demo_main fetch_keeps_samples [of demo_env demo_vars "[]" "()"] by blast

section \<open>Fillers\<close>

text \<open>An upstream whose only document is long enough; the first portal takes it.\<close>

definition big_text :: ustr where
  "big_text = replicate 2000 65"

definition big_record :: jobj where
  "big_record = [(u ''document_id'', JStr (u ''7'')), (u ''content_markdown'', JStr big_text)]"

definition big_env :: "unit fetch_env" where
  "big_env = demo_env\<lparr>fe_send := (\<lambda>c w. (w, Answer 200 (Some (case c of
     Post_login a e p \<Rightarrow> JObj [(u ''refresh_token'', JStr (u ''t''))]
   | Get_json a b ps \<Rightarrow> JObj [(u ''data'', JList [JObj big_record])]))))\<rparr>"

definition big_doc :: filler_doc where
  "big_doc = \<lparr>fd_meta = big_record, fd_markdown = big_text, fd_size = 2000\<rparr>"

lemma big_text_facts: "big_text \<noteq> []" "strip big_text = big_text" "utf8_length big_text = 2000" "\<not> unencodable big_text"
proof -
  show "big_text \<noteq> []" by (simp add: big_text_def)
  show "strip big_text = big_text" by (rule strip_word) (simp_all add: big_text_def isspace_def hd_replicate last_replicate)
  have "utf8_length (replicate n 65) = n" for n by (induction n) (simp_all add: utf8_length_def utf8_width_def)
  then show "utf8_length big_text = 2000" by (simp add: big_text_def)
  show "\<not> unencodable big_text" by (simp add: big_text_def unencodable_def surrogate_def)
qed

lemma big_id: "document_id_of big_env big_record = u ''7''"
  by (simp add: document_id_of_def value_or_empty_def big_record_def get_key_def py_or_def truthy_def py_str_def)

lemma big_portal: "fetch_one_from_portal big_env bearer target used () =
    ((), Inr (if u ''7'' \<in> set used then None else Some big_doc))"
proof -
  have listing: "filler_listing big_env bearer path_name ps () = ((), Inr (Some (JList [JObj big_record])))" for path_name ps
    by (simp add: filler_listing_def io_simps big_env_def)
  have id: "py_str big_env (get_key big_record (u ''document_id'')) = u ''7''"
    by (simp add: big_record_def get_key_def py_str_def)
  have md: "record_markdown big_record = Inr big_text"
    by (simp add: record_markdown_def big_record_def get_key_def py_or_def truthy_def big_text_facts)
  have ne: "big_record \<noteq> []" by (simp add: big_record_def)
  show ?thesis
    by (cases target) (simp add: fetch_one_from_portal_def bindS_def pureS_def py_def listing truthy_def md_by_id_def py_iter_def
        as_dict_def id best_candidate_def filler_candidate_def big_id ne md big_text_facts better_def big_doc_def)
qed

lemma big_loop_used: "u ''7'' \<in> set (fl_used st) \<Longrightarrow> filler_loop big_env bearer targets st = (st, Inr ())"
proof (induction targets arbitrary: st)
  case (Cons t ts)
  have "st\<lparr>fl_world := ()\<rparr> = st" by (cases st) simp
  then show ?case using Cons big_portal [of bearer t "fl_used st"] by simp
qed simp

lemma big_run: "\<exists>dir'. fillers_main big_env demo_vars [] () = (dir', Inr 0)
  \<and> map_of dir' (u ''gb-7-v1'' @ md_suffix) = Some (Text_file big_text)"
proof -
  have login: "filler_login big_env e p () = ((), Inr (u ''t''))" for e p
    by (simp add: filler_login_def io_simps big_env_def get_or_self_def get_key_def py_or_def truthy_def py_str_def)
  have slug: "slug_of big_env (u ''GB'') (u ''7'') (py_or (get_key big_record (u ''version'')) (JInt 1)) = u ''gb-7-v1''"
    by (simp add: slug_of_def big_env_def demo_env_def big_record_def get_key_def py_or_def truthy_def py_str_def int_text_def
        digits_of.simps u_def)
  have wrote: "write_pair (u ''gb-7-v1'') big_text meta [] =
     ([(u ''gb-7-v1'' @ md_suffix, Text_file big_text), (u ''gb-7-v1'' @ u ''.meta.json'', Json_file meta)], Inr ())" for meta
  proof -
    have "\<not> bad_name (u ''gb-7-v1'' @ md_suffix)" "\<not> bad_name (u ''gb-7-v1'' @ u ''.meta.json'')"
      by (simp_all add: bad_name_def unencodable_def surrogate_def u_def md_suffix_def)
    moreover have "u ''gb-7-v1'' @ md_suffix \<noteq> u ''gb-7-v1'' @ u ''.meta.json''" by (simp add: md_suffix_def)
    ultimately show ?thesis by (simp add: write_pair_def write_sample_def big_text_facts)
  qed
  obtain t ts where targets: "uk_targets @ eu_targets = t # ts" "fst t = u ''GB''"
    by (simp add: uk_targets_def portal_target_def)
  obtain url name limit where t: "t = (u ''GB'', url, name, limit)" using targets(2) by (cases t) auto
  let ?md = "u ''gb-7-v1'' @ md_suffix" and ?js = "u ''gb-7-v1'' @ u ''.meta.json''"
  define meta where "meta = with_provenance (provenance_of (fe_stamp big_env ()) default_api_url (u ''GB'') url name limit) big_record"
  define row where "row = index_entry (u ''GB'') url name (u ''7'') (py_or (get_key big_record (u ''version'')) (JInt 1)) big_record 2000 (u ''gb-7-v1'')"
  let ?st = "\<lparr>fl_world = (), fl_files = [(?md, Text_file big_text), (?js, Json_file meta)], fl_used = [u ''7''], fl_captured = [row]\<rparr>"
  have title: "sliceable (value_or_empty big_record (u ''title''))"
    by (simp add: sliceable_def value_or_empty_def big_record_def get_key_def py_or_def truthy_def u_def)
  have save: "save_filler big_env t big_doc \<lparr>fl_world = (), fl_files = [], fl_used = [], fl_captured = []\<rparr> = (?st, Inr ())"
    by (simp add: save_filler_def filler_row_def t big_doc_def big_id slug wrote meta_def row_def title Let_def)
  have start: "used_ids_of (md_stems []) = []" by (simp add: used_ids_of_def md_stems_def)
  have loop: "filler_loop big_env b (t # ts) \<lparr>fl_world = (), fl_files = [], fl_used = [], fl_captured = []\<rparr> = (?st, Inr ())" for b
    by (simp add: big_portal save big_loop_used)
  have key: "row_key (JObj row) = Inr (JList [JStr (u ''GB''), JStr url, JStr (u ''7'')], JObj row)"
    by (simp add: row_key_def subscript_def row_def index_entry_def)
  have other: "index_name \<noteq> ?md" "index_name \<noteq> ?js"
    using index_not_md [of "u ''gb-7-v1''"] index_not_meta [of "u ''gb-7-v1''"] by metis+
  have good: "\<not> bad_name index_name" by (simp add: bad_name_def unencodable_def surrogate_def index_name_def u_def)
  obtain v where v: "merge_index (fe_stamp big_env ()) [row] (JObj [(u ''_provenance'', JObj []), (u ''fixtures'', JList [])]) = Inr v"
    by (simp add: merge_index_def as_dict_def key sort_rows_def)
  have vars: "demo_vars ''LAWSTRONAUT_EMAIL'' = Some (u ''e'')" "demo_vars ''LAWSTRONAUT_PASSWORD'' = Some (u ''p'')"
    by (simp_all add: demo_vars_def)
  show ?thesis
    unfolding fillers_main_def targets(1) vars option.case prod.case login sum.case start loop
    using other other [symmetric]
    by (simp add: read_index_def v py_def write_sample_def good update_conv')
qed

text \<open>C40. A run of the filler script that succeeds over an index that is a JSON object goes through the portals in
  their order. From each it captures the first among the largest of the usable documents that the two listings of the
  portal hold, and it captures nothing only where a listing is missing or holds no usable document. Usable is one
  whose id no sample's name held before and no earlier portal gave, and whose Markdown, in the last record with that
  id, is not blank and has at least 2000 bytes. So there are at most thirteen captured rows, all with ids of their
  own. The index keeps each of its rows and gains these, sorted by code, URL and id when these are texts, and its
  other keys but the provenance stay as they are.\<close>

theorem fillers_extend_index:
  assumes "fillers_main env vars dir w = (dir', Inr 0)" "read_index dir = Inr (JObj d)"
  shows "\<exists>email password bearer w1 captured d'. filler_login env email password w = (w1, Inr bearer)
    \<and> vars ''LAWSTRONAUT_EMAIL'' = Some email \<and> vars ''LAWSTRONAUT_PASSWORD'' = Some password
    \<and> filler_rows env bearer (uk_targets @ eu_targets) (used_ids_of (md_stems dir)) w1 captured
    \<and> length captured \<le> 13 \<and> distinct (map entry_id captured)
    \<and> (\<forall>c \<in> set captured. entry_id c \<notin> set (used_ids_of (md_stems dir)))
    \<and> map_of dir' index_name = Some (Json_file (JObj d')) \<and> rows_merged d captured d'"
proof -
  have n: "length (uk_targets @ eu_targets) = 13" by (simp add: uk_targets_def eu_targets_def)
  from fillers_main_outcome [OF assms] obtain email password bearer w1 captured d' where
    run: "filler_login env email password w = (w1, Inr bearer)" "vars ''LAWSTRONAUT_EMAIL'' = Some email"
      "vars ''LAWSTRONAUT_PASSWORD'' = Some password"
      "filler_rows env bearer (uk_targets @ eu_targets) (used_ids_of (md_stems dir)) w1 captured"
      "map_of dir' index_name = Some (Json_file (JObj d'))" "rows_merged d captured d'" by blast
  note filler_rows_fresh [OF run(4)]
  then show ?thesis using run n by (intro exI conjI) auto
qed

lemma fillers_extend_index_witness:
  "\<exists>dir' d' captured. fillers_main big_env demo_vars [] () = (dir', Inr 0)
    \<and> map_of dir' (u ''gb-7-v1'' @ md_suffix) = Some (Text_file big_text)
    \<and> map_of dir' index_name = Some (Json_file (JObj d')) \<and> length captured \<le> 13
    \<and> rows_merged [(u ''_provenance'', JObj []), (u ''fixtures'', JList [])] captured d'"
proof -
  obtain dir' where run: "fillers_main big_env demo_vars [] () = (dir', Inr 0)"
    and md: "map_of dir' (u ''gb-7-v1'' @ md_suffix) = Some (Text_file big_text)" using big_run by blast
  have "read_index [] = Inr (JObj [(u ''_provenance'', JObj []), (u ''fixtures'', JList [])])" by (simp add: read_index_def)
  from fillers_extend_index [OF run this] run md show ?thesis by fast
qed

end
