(* ===== verification/Pool.thy ===== *)
theory Pool
  imports Auth_Routes
begin

text \<open>
  The connections behind the session brackets of \<open>db/session.py\<close>: the engine with its handler on checkin, and
  the pool as a step relation over connections that requests take, use and give back in any order. The models of
  the API take a session as a value; here that value is what a pooled connection shows.
\<close>

section \<open>The engine\<close>

record engine =
  en_url :: string
  en_statement_cache :: nat
  en_discards :: bool

definition make_engine :: "string \<Rightarrow> engine" where
  "make_engine url = \<lparr>en_url = url, en_statement_cache = 0, en_discards = True\<rparr>"

text \<open>The module variable \<open>_engine\<close>, built on the first call.\<close>

definition get_engine :: "(string \<Rightarrow> string option) \<Rightarrow> engine option \<Rightarrow> engine option \<times> engine result" where
  "get_engine env current =
     (case current of
        Some e \<Rightarrow> (current, Inr e)
      | None \<Rightarrow>
          (case env ''HORIZONS_DB_URL'' of
             None \<Rightarrow> (None, Inl KeyError)
           | Some url \<Rightarrow> (Some (make_engine url), Inr (make_engine url))))"

section \<open>A connection\<close>

text \<open>
  The settings the code uses, with their values for the connection and, inside a transaction, those it began
  with and those of \<open>SET LOCAL\<close>.
\<close>

datatype setting = Role db_role | User uuid | Admin uuid

datatype statement = Set_local setting | Set_session setting | Query

record settings =
  st_role :: db_role
  st_user :: "uuid option"
  st_admin :: "uuid option"

definition default_settings :: settings where
  "default_settings = \<lparr>st_role = Login, st_user = None, st_admin = None\<rparr>"

fun assign :: "setting \<Rightarrow> settings \<Rightarrow> settings" where
  "assign (Role r) s = s\<lparr>st_role := r\<rparr>"
| "assign (User uid) s = s\<lparr>st_user := Some uid\<rparr>"
| "assign (Admin aid) s = s\<lparr>st_admin := Some aid\<rparr>"

record open_tx =
  tx_began :: timestamp
  tx_before :: settings
  tx_visible :: settings

record conn =
  cn_settings :: settings
  cn_tx :: "open_tx option"

text \<open>
  PostgreSQL: \<open>SET\<close> changes the connection, unless its transaction rolls back, \<open>SET LOCAL\<close> what the transaction
  sees; both end what the transaction saw of the setting before.
\<close>

definition begin_tx :: "timestamp \<Rightarrow> conn \<Rightarrow> conn" where
  "begin_tx t c = c\<lparr>cn_tx := Some \<lparr>tx_began = t, tx_before = cn_settings c, tx_visible = cn_settings c\<rparr>\<rparr>"

definition execute :: "statement \<Rightarrow> conn \<Rightarrow> conn" where
  "execute s c =
     (case cn_tx c of
        None \<Rightarrow> c
      | Some tx \<Rightarrow>
          (case s of
             Set_local x \<Rightarrow> c\<lparr>cn_tx := Some (tx\<lparr>tx_visible := assign x (tx_visible tx)\<rparr>)\<rparr>
           | Set_session x \<Rightarrow>
               c\<lparr>cn_settings := assign x (cn_settings c), cn_tx := Some (tx\<lparr>tx_visible := assign x (tx_visible tx)\<rparr>)\<rparr>
           | Query \<Rightarrow> c))"

definition end_tx :: "bool \<Rightarrow> conn \<Rightarrow> conn" where
  "end_tx commits c =
     (case cn_tx c of
        None \<Rightarrow> c
      | Some tx \<Rightarrow> c\<lparr>cn_settings := (if commits then cn_settings c else tx_before tx), cn_tx := None\<rparr>)"

text \<open>\<open>DISCARD ALL\<close>, which the server rejects inside a transaction.\<close>

definition discard_all :: "conn \<Rightarrow> conn option" where
  "discard_all c = (case cn_tx c of Some _ \<Rightarrow> None | None \<Rightarrow> Some (c\<lparr>cn_settings := default_settings\<rparr>))"

definition discard_all_on_checkin :: "engine \<Rightarrow> conn \<Rightarrow> conn option" where
  "discard_all_on_checkin e c = (if en_discards e then discard_all c else Some c)"

text \<open>The session a connection in a transaction shows to the statements of its request.\<close>

definition shown_session :: "conn \<Rightarrow> db_session option" where
  "shown_session c =
     (case cn_tx c of
        None \<Rightarrow> None
      | Some tx \<Rightarrow> Some \<lparr>ss_role = st_role (tx_visible tx), ss_user = st_user (tx_visible tx),
                         ss_admin = st_admin (tx_visible tx), ss_now = tx_began tx\<rparr>)"

section \<open>The pool\<close>

text \<open>A slot remembers the statements of the transaction that its holder has begun.\<close>

record slot =
  sl_conn :: conn
  sl_taken :: bool
  sl_log :: "statement list"

definition new_slot :: slot where
  "new_slot = \<lparr>sl_conn = \<lparr>cn_settings = default_settings, cn_tx = None\<rparr>, sl_taken = False, sl_log = []\<rparr>"

text \<open>
  A request takes an idle connection and begins, executes statements of its own choice, ends its transaction,
  and gives the connection back; a checkin whose handler fails closes the connection. Connections are opened
  and closed at any time.
\<close>

inductive pool_reach :: "engine \<Rightarrow> slot list \<Rightarrow> bool" for e where
  start: "pool_reach e []"
| connect: "pool_reach e p \<Longrightarrow> pool_reach e (p @ [new_slot])"
| close: "pool_reach e (p @ s # q) \<Longrightarrow> pool_reach e (p @ q)"
| checkout: "pool_reach e (p @ s # q) \<Longrightarrow> \<not> sl_taken s \<Longrightarrow>
    pool_reach e (p @ s\<lparr>sl_conn := begin_tx t (sl_conn s), sl_taken := True, sl_log := []\<rparr> # q)"
| statement: "pool_reach e (p @ s # q) \<Longrightarrow> sl_taken s \<Longrightarrow>
    pool_reach e (p @ s\<lparr>sl_conn := execute st (sl_conn s), sl_log := sl_log s @ [st]\<rparr> # q)"
| finish: "pool_reach e (p @ s # q) \<Longrightarrow> sl_taken s \<Longrightarrow>
    pool_reach e (p @ s\<lparr>sl_conn := end_tx commits (sl_conn s)\<rparr> # q)"
| checkin: "pool_reach e (p @ s # q) \<Longrightarrow> sl_taken s \<Longrightarrow> discard_all_on_checkin e (sl_conn s) = Some c \<Longrightarrow> cn_tx c = None \<Longrightarrow>
    pool_reach e (p @ s\<lparr>sl_conn := c, sl_taken := False, sl_log := []\<rparr> # q)"

section \<open>The brackets\<close>

text \<open>
  The statements with which the brackets begin: \<open>session_for_user\<close>, the one of the API's requests, and the two of
  the administrators, each of which enters \<open>session_for_user\<close> and goes on.
\<close>

definition user_entry :: "uuid \<Rightarrow> statement list" where
  "user_entry uid = [Set_local (User uid)]"

definition request_entry :: "uuid \<Rightarrow> statement list" where
  "request_entry uid = user_entry uid @ [Set_local (Role Api_app)]"

definition operator_entry :: "uuid \<Rightarrow> statement list" where
  "operator_entry aid = user_entry aid @ [Set_local (Role Admin_bypass)]"

definition impersonation_entry :: "uuid \<Rightarrow> uuid \<Rightarrow> statement list" where
  "impersonation_entry aid target = user_entry target @ [Set_local (Admin aid), Set_local (Role Api_app)]"

lemmas entry_defs = user_entry_def request_entry_def operator_entry_def impersonation_entry_def

datatype bracket = Unauthenticated | Client_request uuid | Operator uuid | Impersonation uuid uuid

fun entry_statements :: "bracket \<Rightarrow> statement list" where
  "entry_statements Unauthenticated = []"
| "entry_statements (Client_request uid) = request_entry uid"
| "entry_statements (Operator aid) = operator_entry aid"
| "entry_statements (Impersonation aid target) = impersonation_entry aid target"

declare entry_defs [simp]

text \<open>What a statement does to a session that is a value of its own.\<close>

fun set_in_session :: "setting \<Rightarrow> db_session \<Rightarrow> db_session" where
  "set_in_session (Role r) ss = ss\<lparr>ss_role := r\<rparr>"
| "set_in_session (User uid) ss = ss\<lparr>ss_user := Some uid\<rparr>"
| "set_in_session (Admin aid) ss = ss\<lparr>ss_admin := Some aid\<rparr>"

fun run_in_session :: "statement \<Rightarrow> db_session \<Rightarrow> db_session" where
  "run_in_session (Set_local x) ss = set_in_session x ss"
| "run_in_session (Set_session x) ss = set_in_session x ss"
| "run_in_session Query ss = ss"

text \<open>The session that the bracket functions yield.\<close>

fun bracket_session :: "bracket \<Rightarrow> timestamp \<Rightarrow> db_session result" where
  "bracket_session Unauthenticated t = Inr (unauthenticated_session t)"
| "bracket_session (Client_request uid) t = session_for_request uid t"
| "bracket_session (Operator aid) t = set_local_role ''admin_bypass'' (session_for_user aid t)"
| "bracket_session (Impersonation aid target) t =
     set_local_role ''api_app'' (bind_impersonation_admin_id aid (session_for_user target t))"

lemma bracket_statements:
  "bracket_session b t = Inr (fold run_in_session (entry_statements b) (unauthenticated_session t))"
  by (cases b) (simp_all add: unauthenticated_session_def session_for_user_def bind_impersonation_admin_id_def
      set_local_role_def role_of_name_def)

section \<open>Isolation\<close>

definition clean :: "conn \<Rightarrow> bool" where
  "clean c \<longleftrightarrow> c = \<lparr>cn_settings = default_settings, cn_tx = None\<rparr>"

text \<open>An idle connection has its defaults; a transaction shows what its own statements make of a new session.\<close>

definition slot_ok :: "slot \<Rightarrow> bool" where
  "slot_ok s \<longleftrightarrow>
     (if sl_taken s
      then (\<forall>tx. cn_tx (sl_conn s) = Some tx \<longrightarrow>
              shown_session (sl_conn s) = Some (fold run_in_session (sl_log s) (unauthenticated_session (tx_began tx))))
      else clean (sl_conn s))"

lemma shown_begin: "clean c \<Longrightarrow> shown_session (begin_tx t c) = Some (unauthenticated_session t)"
  by (simp add: clean_def begin_tx_def shown_session_def default_settings_def unauthenticated_session_def)

lemma shown_execute: "shown_session (execute st c) = map_option (run_in_session st) (shown_session c)"
proof -
  have "ss_of (assign x s) = set_in_session x (ss_of s)"
    if "ss_of = (\<lambda>s. \<lparr>ss_role = st_role s, ss_user = st_user s, ss_admin = st_admin s, ss_now = n\<rparr>)" for ss_of x s n
    by (cases x) (simp_all add: that)
  then show ?thesis by (cases st) (auto simp: shown_session_def execute_def split: option.splits)
qed

lemma began_execute: "cn_tx (execute st c) = Some tx \<Longrightarrow> \<exists>tx'. cn_tx c = Some tx' \<and> tx_began tx' = tx_began tx"
  by (auto simp: execute_def split: option.splits statement.splits)

lemma slot_ok_execute:
  assumes "slot_ok s" "sl_taken s"
  shows "slot_ok (s\<lparr>sl_conn := execute st (sl_conn s), sl_log := sl_log s @ [st]\<rparr>)"
proof -
  have "shown_session (execute st (sl_conn s)) =
      Some (fold run_in_session (sl_log s @ [st]) (unauthenticated_session (tx_began tx)))"
    if "cn_tx (execute st (sl_conn s)) = Some tx" for tx
    using began_execute [OF that] assms by (auto simp: shown_execute slot_ok_def)
  then show ?thesis using assms(2) by (simp add: slot_ok_def)
qed

lemma pool_reach_ok: "pool_reach e p \<Longrightarrow> en_discards e \<Longrightarrow> \<forall>s \<in> set p. slot_ok s"
proof (induction rule: pool_reach.induct)
  case (connect p)
  then show ?case by (simp add: slot_ok_def new_slot_def clean_def)
next
  case (checkout p s q t)
  then have "clean (sl_conn s)" by (simp add: slot_ok_def)
  then have "slot_ok (s\<lparr>sl_conn := begin_tx t (sl_conn s), sl_taken := True, sl_log := []\<rparr>)"
    by (simp add: slot_ok_def shown_begin) (simp add: begin_tx_def)
  then show ?case using checkout by auto
next
  case (statement p s q st)
  then show ?case using slot_ok_execute [of s st] by auto
next
  case (finish p s q commits)
  have "cn_tx (end_tx commits (sl_conn s)) = None" by (simp add: end_tx_def split: option.splits)
  then show ?case using finish by (auto simp: slot_ok_def)
next
  case (checkin p s q c)
  then have "clean c"
    by (auto simp: clean_def discard_all_on_checkin_def discard_all_def split: option.splits)
  then show ?case using checkin by (auto simp: slot_ok_def)
qed simp_all

text \<open>The first layer: what only \<open>SET LOCAL\<close> has changed is gone with the transaction, however it ends.\<close>

lemma execute_local: "cn_tx c = Some tx \<Longrightarrow>
    fold execute (map Set_local xs) c = c\<lparr>cn_tx := Some (tx\<lparr>tx_visible := fold assign xs (tx_visible tx)\<rparr>)\<rparr>"
  by (induction xs arbitrary: c tx) (simp_all add: execute_def)

lemma local_transaction: "end_tx commits (fold execute (map Set_local xs) (begin_tx t c)) = c\<lparr>cn_tx := None\<rparr>"
  by (simp add: begin_tx_def execute_local end_tx_def)

lemma entry_statements_local: "\<exists>xs. entry_statements b = map Set_local xs"
  by (cases b) (auto intro: exI [of _ "[]"] exI [of _ "[User _, Role _]"] exI [of _ "[User _, Admin _, Role _]"])

text \<open>Without the handler, a setting that a request made for the connection would reach the next request.\<close>

lemma session_setting_survives:
  "shown_session (begin_tx t' (end_tx True (execute (Set_session (User uid)) (begin_tx t c))))
    = Some \<lparr>ss_role = st_role (cn_settings c), ss_user = Some uid, ss_admin = st_admin (cn_settings c), ss_now = t'\<rparr>"
  by (simp add: begin_tx_def execute_def end_tx_def shown_session_def)

lemma run_queries [simp]: "(run_in_session Query ^^ n) ss = ss"
  by (induction n) simp_all

text \<open>C24. Pooled connections isolate the requests. On the engine of the application, whatever requests have taken,
  used and returned connections before, in whatever order and with whatever statements, \<open>SET\<close> included, an idle
  connection has only its defaults, and a transaction shows the session that its own statements make of a new
  one. After the statements of a bracket it is the session that the bracket's function yields, so the models of
  the API may take sessions as values. The brackets use \<open>SET LOCAL\<close> only, which leaves nothing on the connection
  even without the handler.\<close>

theorem pooled_sessions_isolated:
  assumes "pool_reach (make_engine url) p" "s \<in> set p"
  shows "(\<not> sl_taken s \<longrightarrow> sl_conn s = \<lparr>cn_settings = default_settings, cn_tx = None\<rparr>)
    \<and> (sl_taken s \<and> cn_tx (sl_conn s) = Some tx \<longrightarrow>
         shown_session (sl_conn s) = Some (fold run_in_session (sl_log s) (unauthenticated_session (tx_began tx)))
         \<and> (sl_log s = entry_statements b @ replicate n Query \<longrightarrow>
              (\<exists>ss. shown_session (sl_conn s) = Some ss \<and> bracket_session b (tx_began tx) = Inr ss)))
    \<and> (\<exists>xs. entry_statements b = map Set_local xs)
    \<and> end_tx commits (fold execute (map Set_local xs) (begin_tx t c)) = c\<lparr>cn_tx := None\<rparr>"
proof -
  have "slot_ok s" using pool_reach_ok [OF assms(1)] assms(2) by (simp add: make_engine_def)
  then show ?thesis
    by (auto simp: slot_ok_def clean_def bracket_statements entry_statements_local local_transaction)
qed

text \<open>A request leaves a session-level setting behind; the next one does not see it.\<close>

definition served_slot :: slot where
  "served_slot = \<lparr>sl_conn = \<lparr>cn_settings = default_settings,
      cn_tx = Some \<lparr>tx_began = 9, tx_before = default_settings, tx_visible = default_settings\<lparr>st_user := Some 8, st_role := Api_app\<rparr>\<rparr>\<rparr>,
     sl_taken = True, sl_log = entry_statements (Client_request 8)\<rparr>"

lemma pooled_sessions_isolated_witness:
  "pool_reach (make_engine ''db'') [served_slot]
   \<and> shown_session (sl_conn served_slot) = Some (client_session 8 9)
   \<and> (\<exists>ss. shown_session (sl_conn served_slot) = Some ss \<and> bracket_session (Client_request 8) 9 = Inr ss)"
proof -
  let ?e = "make_engine ''db''"
  note step = pool_reach.intros(4-) [where p = "[]" and q = "[]", simplified]
  have "pool_reach ?e [new_slot]" using pool_reach.connect [OF pool_reach.start] by simp
  from step(1) [OF this, of 5] have "pool_reach ?e [new_slot\<lparr>sl_conn := begin_tx 5 (sl_conn new_slot), sl_taken := True, sl_log := []\<rparr>]"
    by (simp add: new_slot_def)
  from step(2) [OF this, of "Set_session (User 7)"] have used: "pool_reach ?e
      [\<lparr>sl_conn = execute (Set_session (User 7)) (begin_tx 5 (sl_conn new_slot)), sl_taken = True, sl_log = [Set_session (User 7)]\<rparr>]"
    by (simp add: new_slot_def)
  from step(3) [OF this, of True] have "pool_reach ?e
      [\<lparr>sl_conn = \<lparr>cn_settings = default_settings\<lparr>st_user := Some 7\<rparr>, cn_tx = None\<rparr>, sl_taken = True, sl_log = [Set_session (User 7)]\<rparr>]"
    by (simp add: new_slot_def begin_tx_def execute_def end_tx_def)
  from step(4) [OF this, of "\<lparr>cn_settings = default_settings, cn_tx = None\<rparr>"] have "pool_reach ?e [new_slot]"
    by (simp add: new_slot_def discard_all_on_checkin_def discard_all_def make_engine_def)
  from step(1) [OF this, of 9] have "pool_reach ?e [new_slot\<lparr>sl_conn := begin_tx 9 (sl_conn new_slot), sl_taken := True, sl_log := []\<rparr>]"
    by (simp add: new_slot_def)
  from step(2) [OF this, of "Set_local (User 8)"] have "pool_reach ?e
      [\<lparr>sl_conn = execute (Set_local (User 8)) (begin_tx 9 (sl_conn new_slot)), sl_taken = True, sl_log = [Set_local (User 8)]\<rparr>]"
    by (simp add: new_slot_def)
  from step(2) [OF this, of "Set_local (Role Api_app)"] have reach: "pool_reach ?e [served_slot]"
    by (simp add: new_slot_def served_slot_def begin_tx_def execute_def)
  have tx: "sl_taken served_slot" "sl_log served_slot = entry_statements (Client_request 8) @ replicate 0 Query"
    "cn_tx (sl_conn served_slot) = Some \<lparr>tx_began = 9, tx_before = default_settings,
      tx_visible = default_settings\<lparr>st_user := Some 8, st_role := Api_app\<rparr>\<rparr>" by (simp_all add: served_slot_def)
  from pooled_sessions_isolated [OF reach, of served_slot _ "Client_request 8" 0] reach tx show ?thesis
    by (simp add: unauthenticated_session_def)
qed

end
