(* ===== verification/Spec2Isabelle.thy ===== *)
theory Spec2Isabelle
  imports Alignment_Properties Ingestion_Properties Seed_Properties Scope_Properties Api_Properties Read_Properties
    Fixture_Properties Worker_Main Bundled Reseed_Properties Schema_Properties Scripts_Properties Pool
begin

text \<open>
  Horizons keeps a corpus of legal texts, records how each text changes from one version to the
  next clause by clause, and serves the texts and the changes to clients within the scope they
  subscribe to. The Python packages are \<open>horizons-core\<close> (alignment, authentication, repositories,
  the upstream client), \<open>horizons-ingestion\<close> (the worker and the seeding) and \<open>horizons-api\<close> (the
  FastAPI routes), over one PostgreSQL schema (\<open>horizons-core/migrations\<close>), with operator scripts beside
  them (\<open>src/scripts\<close>). This development models their logic and proves what it promises. Paths below are
  relative to \<open>src/packages\<close>.

  \<^bold>\<open>How the parts work together.\<close> The worker claims the due rows of \<open>document_poll_schedule\<close>, polls each
  document, parses its Markdown into a clause tree, aligns it against the stored clauses of the
  live version, and appends a version, its clauses and its change events; the original text goes to
  a blob store beside the database, which a sweep cleans. Seeding fills the same tables from files. The API
  reads them through row-level security: a session carries a database role and the caller's id, and
  \<open>app_private.current_scope()\<close> turns the caller's subscriptions into the pairs (jurisdiction,
  sector) that the policies of \<open>documents\<close>, \<open>document_versions\<close>, \<open>clauses\<close> and \<open>change_events\<close> admit. Admins work
  under a role that bypasses the policies, after an audit row has committed. The component theories state the
  policies and triggers as functions; the schema theories run the migrations and prove that the catalogue they
  build has exactly those.

  \<^bold>\<open>Foundations.\<close> \<open>Prelude\<close>: exceptions as \<open>Inl\<close>, \<open>bindE\<close>, \<open>mapE\<close> and \<open>foldE\<close> for sequenced fallible
  steps, with the collection \<open>result_simps\<close>. \<open>Pytext\<close>, \<open>Regex\<close>, \<open>Json\<close>: the Python string, \<open>re\<close> and \<open>json\<close>
  operations that the code applies. A text is a list of code points.

  \<^bold>\<open>Alignment\<close> (\<open>horizons_core/core/alignment\<close>).
  \<^item> \<open>Clause_Tree\<close> (\<open>clause.py\<close>), \<open>Similarity\<close> (\<open>similarity.py\<close>, \<open>tuning.py\<close>), \<open>Parser\<close> (\<open>parser.py\<close>, \<open>config.py\<close>;
    the mutable tree is an explicit heap of nodes), \<open>Align\<close> (\<open>align.py\<close>).
  \<^item> \<open>Align_DP\<close>: the table of the content pass is a recursive optimum and its traceback attains it.
    \<open>Align_Match\<close>, \<open>Align_Correct\<close>: both passes together give a matching, no event is lost or doubled,
    and equal versions give none; the locale \<open>self_best\<close> states what the greedy pass needs and is
    interpreted on the confidence of the code. \<open>Parser_Inv\<close>: paths of a parsed document are distinct.
  \<^item> Similarities are rationals; the code rounds them to floats.

  \<^bold>\<open>Ingestion\<close> (\<open>horizons_ingestion\<close>).
  \<^item> \<open>Corpus_DB\<close>: rows, constraints and triggers of migrations 0003, 0007, 0010, 0015, 0016, and the statements
    of \<open>poll.py\<close>. \<open>Poll\<close>: the transaction of \<open>poll_document\<close>. \<open>Claim_Loop\<close>: \<open>loop.py\<close>, \<open>config.py\<close>, \<open>health.py\<close>,
    where a failed statement poisons its transaction. \<open>Worker\<close>: the poll that \<open>__main__.py\<close> hands to the
    loop. \<open>Worker_Main\<close>: the order in which the process acquires and releases what it needs.
  \<^item> \<open>Blob\<close>: the \<open>BlobStore\<close> protocol as the locale \<open>blob_store\<close>, interpreted on the in-memory store, the Azure store
    over the SDK's container, whose documented behaviour is the locale \<open>azure_container\<close>, and \<open>sweep.py\<close> with its loop.
    \<open>Sweep_Race\<close>: a sweep and polls as one step relation.
  \<^item> \<open>Curated\<close>, \<open>Seed\<close>: \<open>seed.py\<close>, from the YAML file to the staged pairs of versions. \<open>Bundled\<close>: the loaders of
    the YAML files inside the packages, and the parser configurations and tuning they hold.
  \<^item> \<open>Poll_Correct\<close>, \<open>Poll_Total\<close>: the invariant of the version history (\<open>history_ok\<close>, \<open>corpus_ok\<close>), identities of
    clauses, when a poll succeeds. \<open>Claim_Correct\<close>: what ticks do to the schedule. \<open>Seed_Correct\<close>: seeding shares
    the invariant (\<open>seed_ok\<close>), and every database that seeding runs, stagings and ticks reach has it.

  \<^bold>\<open>Tenancy and access\<close> (\<open>horizons_core/db\<close>, \<open>repos\<close>, \<open>core/auth\<close>; \<open>horizons_api/deps\<close>, \<open>routes\<close>, \<open>admin\<close>).
  \<^item> \<open>Tenancy\<close>: the tables, sessions, \<open>current_scope()\<close> and the read policies. \<open>Owner_Table\<close>: the four owner policies,
    and the contract between clients as the locale \<open>owner_table\<close>, interpreted on watchlists (\<open>wl\<close>) and refresh
    tokens (\<open>rt\<close>).
  \<^item> \<open>Subscriptions\<close> (\<open>repos/subscriptions.py\<close>, \<open>routes/admin_subscriptions.py\<close>), \<open>Watchlists\<close> (\<open>repos/watchlists.py\<close>,
    \<open>routes/watchlists.py\<close>), with \<open>Ledger\<close> and \<open>Ledger_Inv\<close>: outcomes of the routes, and invariants over
    sequences of requests.
  \<^item> \<open>Tokens\<close> (\<open>core/auth/local_jwt.py\<close>, \<open>repos/refresh_tokens.py\<close>; the \<open>TokenProvider\<close> protocol is the locale
    \<open>token_provider\<close>), \<open>Auth_Routes\<close> (\<open>core/auth/passwords.py\<close>, login, refresh, logout, audited admin
    sessions, impersonation), \<open>Auth_Correct\<close>.
  \<^item> \<open>Cursor\<close>, \<open>Change_Events\<close> (\<open>repos/change_events.py\<close>, \<open>routes/primitives.py\<close>), \<open>Event_Pages\<close>: keyset pages; the locale
    \<open>keyset\<close> holds the argument and is interpreted on the events (\<open>ks\<close>).
  \<^item> \<open>Documents\<close> (\<open>repos/documents.py\<close>, \<open>versions.py\<close>, \<open>clauses.py\<close>, \<open>routes/documents.py\<close>), \<open>Overview\<close> (\<open>routes/me.py\<close>,
    \<open>core/corpus.py\<close>), \<open>Admin_Reads\<close> (\<open>admin/clients.py\<close>, \<open>admin/audit.py\<close>).
  \<^item> \<open>Metrics\<close> (\<open>core/observability/health.py\<close>, \<open>admin/health.py\<close>): the metrics of the API with their cache, and the
    health of ingestion and database.
  \<^item> \<open>App\<close> (\<open>app.py\<close>, \<open>config.py\<close>, the middlewares, logging and tracing): what wraps every request. \<open>Pool\<close>
    (\<open>db/session.py\<close>): connections handed out again, as the inductive relation \<open>pool_reach\<close>.
  \<^item> \<open>Lawstronaut\<close>, \<open>Law_Retry\<close> (\<open>core/lawstronaut\<close>): the upstream client, its two retry envelopes and the
    lock around its login.

  \<^bold>\<open>Schema\<close> (\<open>horizons-core/migrations\<close>, \<open>horizons_core/db/models\<close>).
  \<^item> \<open>Catalog\<close>: roles, tables, constraints, policies, triggers, functions and privileges as one record, and the
    statements of the migrations as the datatype \<open>ddl\<close> with \<open>exec_ddl\<close>. \<open>Migrations\<close>: the sixteen revisions, up and
    down, and \<open>env.py\<close>. \<open>Schema_Rules\<close>: how a catalogue decides the statements of a session.
  \<^item> \<open>Migrations_Correct\<close>: what the last revision grants and guards, and that its policies are the ones of
    \<open>Tenancy\<close>, \<open>Owner_Table\<close> and \<open>Change_Events\<close>. \<open>Downgrades\<close>: which revisions are undone. \<open>Orm_Models\<close>: the declarative
    models against that catalogue.

  \<^bold>\<open>Scripts\<close> (\<open>src/scripts\<close>, \<open>horizons-api/scripts\<close>).
  \<^item> \<open>Script_SQL\<close>: what the scripts share. \<open>Demo_Accounts\<close>, \<open>Demo_Correct\<close> (\<open>create_demo_accounts.py\<close>): no run downgrades a
    credential by accident. \<open>E2e\<close>, \<open>E2e_Correct\<close>, \<open>Fixture_Properties\<close> (\<open>seed_e2e.py\<close>): what the two clients of the
    browser test find.
  \<^item> \<open>Seed_CLI\<close>, \<open>Seed_CLI_Correct\<close> (\<open>seed_curated_set.py\<close>) and \<open>Reseed\<close>, \<open>Reseed_Correct\<close> (\<open>reseed_corpus.py\<close>): a wipe
    behind its guards, and the database that seeding leaves.
  \<^item> \<open>Endpoints\<close>, \<open>Endpoints_Correct\<close> (\<open>regen_endpoints_md.py\<close>): the generated reference and its check. \<open>Fetch\<close>,
    \<open>Fetch_Fillers\<close>, \<open>Fetch_Correct\<close> (\<open>fetch_fixtures.py\<close> and its two helpers): samples of the upstream service.

  \<^bold>\<open>Properties.\<close> The theories named \<open>*_Properties\<close>, and \<open>Pool\<close>, hold the claims, each after its statement in
  words, with a witness that applies it to concrete inputs; \<open>Samples\<close> and \<open>Api_Samples\<close> hold those inputs.

  \<^bold>\<open>Parameters.\<close> Code outside the repository is an argument: the tokens of markdown-it, the
  MinHash signatures and the index of datasketch, the Unicode tables and locale case folding, SHA-256, PyJWT
  (\<open>jwt_lib\<close>), argon2, \<open>json\<close> and date text (\<open>cursor_lib\<close>), YAML
  (\<open>seed_lib\<close>), httpx and stamina (\<open>law_env\<close>), the Azure SDK and Azure Monitor, the
  statistics views of PostgreSQL, Starlette's CORS middleware, the OpenAPI document of FastAPI, the answers of
  the upstream service. What a proof needs of one is a named hypothesis (\<open>unidb_ok\<close>,
  \<open>datasketch_ok\<close> for signatures and index, \<open>stamina_ok\<close> with its timeout, \<open>tokens_ok\<close>, \<open>jwt_ok\<close>,
  and so on), and the samples satisfy it.

  \<^bold>\<open>Bounds.\<close> Identifiers that \<open>uuidv7()\<close>, \<open>uuid4()\<close> or a sequence
  supply are drawn from counters: never used before, and increasing. Freezing the parser's tree takes the size
  of its heap as fuel, which \<open>Parser_Inv\<close> proves sufficient, and a loop that the code never leaves
  has the outcome \<open>NoReturn\<close>; no other definition has fuel. Moments are integers in microseconds.
  Each transaction runs alone; the three places where interleaving matters, the sweep, the concurrent logins and
  the pooled connections, are step relations. Where SQL leaves an order open, rows keep insertion order.

  \<^bold>\<open>Not modelled.\<close> FastAPI's routing and validation; the inside of argon2; the size, the
  overflow and the timeouts of the connection pool; signal handlers; the YAML syntax; what scripts and loggers
  print, and with it \<open>explore_uk_eu_portals.py\<close>, which does nothing else; rows while a migration
  runs, and comments on objects; the TypeScript web application and the templates of the infrastructure. They
  hold no state of the model, or only call libraries.
\<close>

end
